(* ===== verification/Prelude.thy ===== *)
theory Prelude
  imports Main "HOL-Library.AList" "HOL-Library.Multiset"
begin

text \<open>
  What the component theories share: the sum type for Python exceptions and its sequencing
  operator, Python list indexing, the decimal rendering \<open>str(int)\<close>, lists cut into chunks, and
  facts on insertion-ordered dictionaries, which are association lists with distinct keys
  (\<^const>\<open>AList.update\<close> overwrites in place or appends, \<^const>\<open>AList.delete\<close> removes).
\<close>

named_theorems res_simps \<open>unfolding of exception-passing code\<close>
named_theorems dict_simps \<open>lookups in updated dictionaries\<close>

section \<open>Exceptions as values\<close>

text \<open>\<open>Inl e\<close> is a raised exception, \<open>Inr a\<close> a normal result.\<close>

type_synonym ('e, 'a) result = "'e + 'a"

definition bindE :: "('e, 'a) result \<Rightarrow> ('a \<Rightarrow> ('e, 'b) result) \<Rightarrow> ('e, 'b) result" where
  "bindE r f = (case r of Inl e \<Rightarrow> Inl e | Inr a \<Rightarrow> f a)"

lemma bindE_Inl [simp, res_simps]: "bindE (Inl e) f = Inl e"
  by (simp add: bindE_def)

lemma bindE_Inr [simp, res_simps]: "bindE (Inr a) f = f a"
  by (simp add: bindE_def)

lemma bindE_eq_Inr [res_simps]: "bindE r f = Inr b \<longleftrightarrow> (\<exists>a. r = Inr a \<and> f a = Inr b)"
  by (cases r) auto

lemma bindE_eq_Inl [res_simps]:
  "bindE r f = Inl e \<longleftrightarrow> r = Inl e \<or> (\<exists>a. r = Inr a \<and> f a = Inl e)"
  by (cases r) auto

text \<open>A \<open>for\<close> loop whose body may raise: the state is threaded, the first exception ends it.\<close>

fun foldE :: "('a \<Rightarrow> 's \<Rightarrow> ('e, 's) result) \<Rightarrow> 'a list \<Rightarrow> 's \<Rightarrow> ('e, 's) result" where
  "foldE f [] s = Inr s"
| "foldE f (x # xs) s = bindE (f x s) (foldE f xs)"

lemma foldE_append: "foldE f (xs @ ys) s = bindE (foldE f xs s) (foldE f ys)"
proof (induction xs arbitrary: s)
  case (Cons x xs)
  then show ?case by (cases "f x s") auto
qed simp

text \<open>An invariant of the loop body is an invariant of the loop.\<close>

lemma foldE_invariant:
  assumes "foldE f xs s = Inr t" and "P s"
    and "\<And>x s t. x \<in> set xs \<Longrightarrow> P s \<Longrightarrow> f x s = Inr t \<Longrightarrow> P t"
  shows "P t"
  using assms
proof (induction xs arbitrary: s)
  case (Cons x xs)
  then obtain u where u: "f x s = Inr u" "foldE f xs u = Inr t"
    by (auto simp: bindE_eq_Inr)
  with Cons.prems have "P u" by auto
  with Cons u show ?case by (metis list.set_intros(2))
qed simp

text \<open>The same for loops whose body may raise: what the exceptions satisfy.\<close>

lemma foldE_rule:
  assumes "P s" and "\<And>x s. x \<in> set xs \<Longrightarrow> P s \<Longrightarrow> case f x s of Inr t \<Rightarrow> P t | Inl e \<Rightarrow> Q e"
  shows "case foldE f xs s of Inr t \<Rightarrow> P t | Inl e \<Rightarrow> Q e"
  using assms
proof (induction xs arbitrary: s)
  case (Cons x xs)
  have "case f x s of Inr t \<Rightarrow> P t | Inl e \<Rightarrow> Q e" using Cons.prems by simp
  then show ?case using Cons by (cases "f x s") simp_all
qed simp

text \<open>A loop that collects: what each round adds, and the case in which only one round adds anything.\<close>

lemma foldE_collect:
  assumes "\<And>x a. x \<in> set xs \<Longrightarrow> f x a = Inr (a @ r x)"
  shows "foldE f xs a = Inr (a @ concat (map r xs))"
  using assms by (induction xs arbitrary: a) auto

text \<open>A list comprehension whose expression may raise.\<close>

fun mapE :: "('a \<Rightarrow> ('e, 'b) result) \<Rightarrow> 'a list \<Rightarrow> ('e, 'b list) result" where
  "mapE f [] = Inr []"
| "mapE f (x # xs) = bindE (f x) (\<lambda>y. bindE (mapE f xs) (\<lambda>ys. Inr (y # ys)))"

lemma mapE_total: "(\<And>x. x \<in> set xs \<Longrightarrow> f x = Inr (g x)) \<Longrightarrow> mapE f xs = Inr (map g xs)"
  by (induction xs) simp_all

lemma concat_map_single:
  assumes "distinct xs" and "x \<in> set xs" and "\<And>y. y \<in> set xs \<Longrightarrow> y \<noteq> x \<Longrightarrow> r y = []"
  shows "concat (map r xs) = r x"
proof -
  obtain as bs where xs: "xs = as @ x # bs" "x \<notin> set as" using assms(2) split_list_first by metis
  then have "x \<notin> set bs" using assms(1) by simp
  then have "\<forall>y \<in> set as. r y = []" "\<forall>y \<in> set bs. r y = []" using assms(3) xs by auto
  then have "concat (map r as) = []" "concat (map r bs) = []" by (simp_all add: concat_eq_Nil_conv)
  then show ?thesis unfolding xs(1) by (simp del: concat_eq_Nil_conv)
qed

section \<open>Python lists\<close>

text \<open>Indexing with an \<open>int\<close>: negative indices count from the end, others out of range raise.\<close>

definition py_pos :: "'a list \<Rightarrow> int \<Rightarrow> nat option" where
  "py_pos xs i =
     (let n = int (length xs); j = (if i < 0 then n + i else i)
      in if 0 \<le> j \<and> j < n then Some (nat j) else None)"

definition py_get :: "'a list \<Rightarrow> int \<Rightarrow> 'a option" where
  "py_get xs i = map_option ((!) xs) (py_pos xs i)"

definition py_set :: "'a list \<Rightarrow> int \<Rightarrow> 'a \<Rightarrow> 'a list option" where
  "py_set xs i v = map_option (\<lambda>j. xs[j := v]) (py_pos xs i)"

lemma py_pos_in_range [simp]: "0 \<le> i \<Longrightarrow> i < int (length xs) \<Longrightarrow> py_pos xs i = Some (nat i)"
  by (simp add: py_pos_def Let_def)

lemma py_get_in_range [simp]: "0 \<le> i \<Longrightarrow> i < int (length xs) \<Longrightarrow> py_get xs i = Some (xs ! nat i)"
  by (simp add: py_get_def)

lemma py_set_in_range [simp]:
  "0 \<le> i \<Longrightarrow> i < int (length xs) \<Longrightarrow> py_set xs i v = Some (xs[nat i := v])"
  by (simp add: py_set_def)

text \<open>\<open>xs.remove(x)\<close> for an \<open>x\<close> that is present is \<^const>\<open>remove1\<close>.\<close>

section \<open>Order of occurrence\<close>

text \<open>\<open>precedes xs a b\<close>: both occur, and \<open>a\<close> occurs before the first \<open>b\<close>.\<close>

definition precedes :: "'a list \<Rightarrow> 'a \<Rightarrow> 'a \<Rightarrow> bool" where
  "precedes xs a b \<longleftrightarrow> b \<in> set xs \<and> a \<in> set (takeWhile (\<lambda>x. x \<noteq> b) xs)"

lemma precedes_mem: "precedes xs a b \<Longrightarrow> a \<in> set xs \<and> b \<in> set xs"
  by (auto simp: precedes_def dest: set_takeWhileD)

lemma precedes_irrefl: "\<not> precedes xs a a"
  by (auto simp: precedes_def dest: set_takeWhileD)

lemma precedes_append_left: "precedes xs a b \<Longrightarrow> precedes (xs @ ys) a b"
  by (auto simp: precedes_def)

lemma takeWhile_skip: "b \<notin> set xs \<Longrightarrow> takeWhile (\<lambda>x. x \<noteq> b) (xs @ ys) = xs @ takeWhile (\<lambda>x. x \<noteq> b) ys"
  by (induction xs) auto

lemma precedes_append_right: "b \<notin> set xs \<Longrightarrow> precedes ys a b \<Longrightarrow> precedes (xs @ ys) a b"
  by (simp add: precedes_def takeWhile_skip)

lemma precedes_append_across:
  "a \<in> set xs \<Longrightarrow> b \<notin> set xs \<Longrightarrow> b \<in> set ys \<Longrightarrow> precedes (xs @ ys) a b"
  by (simp add: precedes_def takeWhile_skip)

lemma precedes_Cons:
  "precedes (x # xs) a b \<longleftrightarrow> (x \<noteq> b \<and> (a = x \<and> b \<in> set xs \<or> precedes xs a b))"
proof (cases "x = b")
  case False
  then show ?thesis unfolding precedes_def by simp blast
qed (simp add: precedes_def)

lemma precedes_map:
  assumes "inj_on f (set xs)" and "precedes xs a b"
  shows "precedes (map f xs) (f a) (f b)"
  using assms
proof (induction xs)
  case (Cons x xs)
  have m: "a \<in> set (x # xs)" "b \<in> set (x # xs)"
    using precedes_mem[OF Cons.prems(2)] by auto
  have "x \<noteq> b" using Cons.prems(2) by (simp add: precedes_Cons)
  then have "f x \<noteq> f b" using Cons.prems(1) m by (auto simp: inj_on_def)
  with Cons show ?case by (auto simp: precedes_Cons)
qed (simp add: precedes_def)

lemma precedes_index:
  assumes "precedes xs a b"
  shows "\<exists>i j. i < j \<and> j < length xs \<and> xs ! i = a \<and> xs ! j = b"
  using assms
proof (induction xs)
  case (Cons x xs)
  from Cons.prems consider "a = x" "b \<in> set xs" | "precedes xs a b"
    by (auto simp: precedes_Cons)
  then show ?case
  proof cases
    case 1
    then obtain j where "j < length xs" "xs ! j = b" by (auto simp: in_set_conv_nth)
    with 1 show ?thesis by (intro exI[of _ 0] exI[of _ "Suc j"]) simp
  next
    case 2
    with Cons.IH obtain i j where "i < j" "j < length xs" "xs ! i = a" "xs ! j = b" by blast
    then show ?thesis by (intro exI[of _ "Suc i"] exI[of _ "Suc j"]) simp
  qed
qed (simp add: precedes_def)

section \<open>Decimal rendering of integers\<close>

fun str_nat :: "nat \<Rightarrow> string" where
  "str_nat n = (if n < 10 then [char_of (48 + n)] else str_nat (n div 10) @ [char_of (48 + n mod 10)])"

declare str_nat.simps [simp del]

definition str_int :: "int \<Rightarrow> string" where
  "str_int i = (if i < 0 then CHR ''-'' # str_nat (nat (- i)) else str_nat (nat i))"

definition val_digits :: "string \<Rightarrow> nat" where
  "val_digits s = foldl (\<lambda>v c. v * 10 + (of_char c - 48)) 0 s"

lemma val_digits_snoc [simp]: "val_digits (s @ [c]) = val_digits s * 10 + (of_char c - 48)"
  by (simp add: val_digits_def)

lemma val_digits_str_nat [simp]: "val_digits (str_nat n) = n"
proof (induction n rule: str_nat.induct)
  case (1 n)
  have "of_char (char_of (48 + n mod 10) :: char) = (48 + n mod 10 :: nat)"
    by (simp add: of_char_of)
  moreover have "n < 10 \<Longrightarrow> of_char (char_of (48 + n) :: char) = (48 + n :: nat)"
    by (simp add: of_char_of)
  ultimately show ?case
    using 1 val_digits_snoc[of "[]"] by (subst str_nat.simps) (auto simp: val_digits_def)
qed

lemma str_nat_digits: "c \<in> set (str_nat n) \<Longrightarrow> 48 \<le> (of_char c :: nat) \<and> (of_char c :: nat) < 58"
proof (induction n rule: str_nat.induct)
  case (1 n)
  have "of_char (char_of (48 + n mod 10) :: char) = (48 + n mod 10 :: nat)"
    by (simp add: of_char_of)
  moreover have "n < 10 \<Longrightarrow> of_char (char_of (48 + n) :: char) = (48 + n :: nat)"
    by (simp add: of_char_of)
  ultimately show ?case
    using 1 by (subst (asm) (2) str_nat.simps) (auto split: if_splits)
qed

lemma str_nat_inj: "str_nat m = str_nat n \<longleftrightarrow> m = n"
  by (metis val_digits_str_nat)

lemma str_nat_no_minus: "CHR ''-'' \<notin> set (str_nat n)"
  using str_nat_digits[of "CHR ''-''" n] by auto

lemma str_int_inj [simp]: "str_int i = str_int j \<longleftrightarrow> i = j"
proof -
  have "CHR ''-'' # xs \<noteq> str_nat n" for xs n
    using str_nat_no_minus[of n] by (metis list.set_intros(1))
  then show ?thesis
    by (auto simp: str_int_def str_nat_inj split: if_splits) metis+
qed

section \<open>Chunks\<close>

text \<open>\<open>chunk(iterable, size)\<close> of OPSI/Util: successive slices of \<open>n\<close> elements.\<close>

function chunk :: "nat \<Rightarrow> 'a list \<Rightarrow> 'a list list" where
  "chunk n xs = (if xs = [] \<or> n = 0 then [] else take n xs # chunk n (drop n xs))"
  by pat_completeness auto
termination by (relation "measure (\<lambda>(n, xs). length xs)") (auto simp: neq_Nil_conv)

declare chunk.simps [simp del]

lemma chunk_concat: "0 < n \<Longrightarrow> concat (chunk n xs) = xs"
proof (induction n xs rule: chunk.induct)
  case (1 n xs)
  then show ?case
    by (subst chunk.simps) auto
qed

lemma chunk_length: "c \<in> set (chunk n xs) \<Longrightarrow> 0 < length c \<and> length c \<le> n"
proof (induction n xs rule: chunk.induct)
  case (1 n xs)
  then show ?case
    by (subst (asm) (2) chunk.simps) (auto split: if_splits)
qed

section \<open>Insertion-ordered dictionaries\<close>

type_synonym ('k, 'v) dict = "('k \<times> 'v) list"

definition dict_keys :: "('k, 'v) dict \<Rightarrow> 'k list" where
  "dict_keys d = map fst d"

definition dict_values :: "('k, 'v) dict \<Rightarrow> 'v list" where
  "dict_values d = map snd d"

lemma map_of_update [dict_simps, simp]:
  "map_of (AList.update k v d) = (map_of d)(k \<mapsto> v)"
  by (simp add: update_conv')

lemma map_of_delete [dict_simps, simp]:
  "map_of (AList.delete k d) = (map_of d)(k := None)"
  by (simp add: delete_conv')

lemma dict_keys_update:
  "dict_keys (AList.update k v d) = (if k \<in> set (dict_keys d) then dict_keys d else dict_keys d @ [k])"
  by (induction d) (auto simp: dict_keys_def)

lemma dict_keys_delete: "dict_keys (AList.delete k d) = filter (\<lambda>x. x \<noteq> k) (dict_keys d)"
  by (induction d) (auto simp: dict_keys_def AList.delete_eq)

lemma distinct_keys_update [simp]: "distinct (dict_keys d) \<Longrightarrow> distinct (dict_keys (AList.update k v d))"
  by (auto simp: dict_keys_update)

lemma distinct_keys_delete [simp]: "distinct (dict_keys d) \<Longrightarrow> distinct (dict_keys (AList.delete k d))"
  by (simp add: dict_keys_delete)

lemma map_of_eq_None_keys: "map_of d k = None \<longleftrightarrow> k \<notin> set (dict_keys d)"
  by (simp add: map_of_eq_None_iff dict_keys_def)

text \<open>\<open>defaultdict(list)\<close>: appending to the list under a key, which is created when missing.\<close>

definition dict_append :: "'k \<Rightarrow> 'v \<Rightarrow> ('k, 'v list) dict \<Rightarrow> ('k, 'v list) dict" where
  "dict_append k v d = AList.update k ((case map_of d k of None \<Rightarrow> [] | Some vs \<Rightarrow> vs) @ [v]) d"

definition dict_list :: "('k, 'v list) dict \<Rightarrow> 'k \<Rightarrow> 'v list" where
  "dict_list d k = (case map_of d k of None \<Rightarrow> [] | Some vs \<Rightarrow> vs)"

definition group_by :: "('v \<Rightarrow> 'k) \<Rightarrow> ('v \<Rightarrow> 'w) \<Rightarrow> 'v list \<Rightarrow> ('k, 'w list) dict" where
  "group_by key val xs = foldl (\<lambda>d x. dict_append (key x) (val x) d) [] xs"

lemma dict_list_append [simp]:
  "dict_list (dict_append k v d) k' = (if k' = k then dict_list d k @ [v] else dict_list d k')"
  by (auto simp: dict_list_def dict_append_def split: option.splits)

lemma dict_list_group_by: "dict_list (group_by key val xs) k = map val (filter (\<lambda>x. key x = k) xs)"
  unfolding group_by_def
  by (induction xs rule: rev_induct) (auto simp: dict_list_def[of "[]"])

lemma group_by_snoc: "group_by key val (xs @ [x]) = dict_append (key x) (val x) (group_by key val xs)"
  by (simp add: group_by_def)

lemma keys_group_by: "set (dict_keys (group_by key val xs)) = key ` set xs"
  by (induction xs rule: rev_induct)
    (auto simp: group_by_snoc dict_append_def dict_keys_update, simp_all add: group_by_def dict_keys_def)

lemma distinct_keys_group_by: "distinct (dict_keys (group_by key val xs))"
  by (induction xs rule: rev_induct)
    (auto simp: group_by_snoc dict_append_def, simp add: group_by_def dict_keys_def)

lemma group_by_lookup:
  "map_of (group_by key val xs) k =
     (if k \<in> key ` set xs then Some (map val (filter (\<lambda>x. key x = k) xs)) else None)"
proof -
  have "map_of (group_by key val xs) k = None \<longleftrightarrow> k \<notin> key ` set xs"
    by (simp add: map_of_eq_None_keys keys_group_by)
  then show ?thesis
    using dict_list_group_by[of key val xs k] by (auto simp: dict_list_def split: option.splits)
qed

end
