(* ===== verification/Requirements.thy ===== *)
theory Requirements
  imports Prelude
begin

text \<open>
  The classes \<open>OrderRequirement\<close> and \<open>Requirements\<close> of OPSI/SharedAlgorithm.py: a list of ordering
  requirements with two index lists that present it ordered by prior and by posterior value.
  The lemmas show that both index lists stay sorted permutations, that the searches over them find
  exactly the open requirements, and that a prior which is no open posterior is found whenever
  there is one.
\<close>

section \<open>Data\<close>

record order_requirement =
  prior :: int
  posterior :: int
  fulfilled :: bool

record requirements =
  req_list :: "order_requirement list"
  orderByPrior :: "int list"
  orderByPosterior :: "int list"

datatype order_error =
    OpsiProductOrderingError "int list"
  | RequIndexError

definition new_order_requirement :: "int \<Rightarrow> int \<Rightarrow> bool \<Rightarrow> order_requirement" where
  "new_order_requirement pr po f = \<lparr>prior = pr, posterior = po, fulfilled = f\<rparr>"

definition new_requirements :: requirements where
  "new_requirements = \<lparr>req_list = [], orderByPrior = [], orderByPosterior = []\<rparr>"

section \<open>add\<close>

text \<open>\<open>while (i < len(self.list) - 1) and not located\<close>: the first place whose key is not smaller.\<close>

function locate ::
  "(order_requirement \<Rightarrow> int) \<Rightarrow> order_requirement list \<Rightarrow> int list \<Rightarrow> order_requirement \<Rightarrow> nat \<Rightarrow> nat \<times> bool" where
  "locate key rl ord r i =
     (if i < length rl - 1 then
        if key r > key (rl ! nat (ord ! i)) then locate key rl ord r (Suc i) else (i, True)
      else (i, False))"
  by pat_completeness auto
termination by (relation "measure (\<lambda>(key, rl, ord, r, i). length rl - 1 - i)") auto

declare locate.simps [simp del]

text \<open>\<open>while j > i: order[j] = order[j - 1]; j -= 1\<close>\<close>

fun shift_up :: "int list \<Rightarrow> nat \<Rightarrow> nat \<Rightarrow> int list" where
  "shift_up ord 0 i = ord"
| "shift_up ord (Suc j) i = (if Suc j > i then shift_up (ord[Suc j := ord ! j]) j i else ord)"

text \<open>One of the two passes of \<open>add\<close>, for the key \<open>prior\<close> or \<open>posterior\<close>.\<close>

definition place ::
  "(order_requirement \<Rightarrow> int) \<Rightarrow> order_requirement list \<Rightarrow> int list \<Rightarrow> order_requirement \<Rightarrow> int list" where
  "place key rl ord r =
     (let (i, located) = locate key rl ord r 0;
          ord1 = (if located then shift_up ord (length rl - 1) i else ord)
      in ord1[i := int (length rl - 1)])"

definition place_prior :: "order_requirement list \<Rightarrow> int list \<Rightarrow> order_requirement \<Rightarrow> int list" where
  "place_prior = place prior"

definition place_posterior :: "order_requirement list \<Rightarrow> int list \<Rightarrow> order_requirement \<Rightarrow> int list" where
  "place_posterior = place posterior"

definition add_requirement :: "requirements \<Rightarrow> order_requirement \<Rightarrow> requirements" where
  "add_requirement s r =
     (let rl = req_list s @ [r];
          obp = orderByPrior s @ [-1];
          obq = orderByPosterior s @ [-1]
      in \<lparr>req_list = rl, orderByPrior = place_prior rl obp r, orderByPosterior = place_posterior rl obq r\<rparr>)"

section \<open>Searches\<close>

definition by_prior :: "requirements \<Rightarrow> nat \<Rightarrow> order_requirement" where
  "by_prior s j = req_list s ! nat (orderByPrior s ! j)"

definition by_posterior :: "requirements \<Rightarrow> nat \<Rightarrow> order_requirement" where
  "by_posterior s j = req_list s ! nat (orderByPosterior s ! j)"

function posteriorIndexOf_from :: "requirements \<Rightarrow> int \<Rightarrow> nat \<Rightarrow> int" where
  "posteriorIndexOf_from s posti j =
     (if j < length (req_list s) then
        let candidate = by_posterior s j in
        if fulfilled candidate \<or> posterior candidate < posti then posteriorIndexOf_from s posti (Suc j)
        else if posterior candidate = posti then int j
        else -1
      else -1)"
  by pat_completeness auto
termination by (relation "measure (\<lambda>(s, posti, j). length (req_list s) - j)") auto

declare posteriorIndexOf_from.simps [simp del]

definition posteriorIndexOf :: "requirements \<Rightarrow> int \<Rightarrow> int" where
  "posteriorIndexOf s posti = posteriorIndexOf_from s posti 0"

function firstNotFulfilled_from :: "requirements \<Rightarrow> nat \<Rightarrow> int" where
  "firstNotFulfilled_from s i =
     (if i < length (req_list s) then
        if fulfilled (by_prior s i) then firstNotFulfilled_from s (Suc i) else int i
      else -1)"
  by pat_completeness auto
termination by (relation "measure (\<lambda>(s, i). length (req_list s) - i)") auto

declare firstNotFulfilled_from.simps [simp del]

definition indexOfFirstNotFulfilledRequirementOrderedByPrior :: "requirements \<Rightarrow> int" where
  "indexOfFirstNotFulfilledRequirementOrderedByPrior s = firstNotFulfilled_from s 0"

text \<open>
  The loop of \<open>firstPriorNotOccurringAsPosterior\<close>; the state is \<open>j\<close>, the candidate (the prior of
  requirement \<open>j\<close>), the last candidate that caused a problem and the list of those.
\<close>

function firstPrior_loop ::
  "requirements \<Rightarrow> nat \<Rightarrow> int \<Rightarrow> int \<Rightarrow> int list \<Rightarrow> (order_error, int \<times> nat) result" where
  "firstPrior_loop s j candidate lastcandidate problems =
     (if j < length (req_list s) then
        if \<not> fulfilled (by_prior s j) \<and> posteriorIndexOf s candidate = -1 then Inr (candidate, j)
        else
          let troubled = posteriorIndexOf s candidate > -1 \<and> lastcandidate \<noteq> candidate;
              problems' = (if troubled then problems @ [candidate] else problems);
              last' = (if troubled then candidate else lastcandidate);
              candidate' = (if Suc j < length (req_list s) then prior (by_prior s (Suc j)) else candidate)
          in firstPrior_loop s (Suc j) candidate' last' problems'
      else Inl (OpsiProductOrderingError problems))"
  by pat_completeness auto
termination by (relation "measure (\<lambda>(s, j, c, l, p). length (req_list s) - j)") auto

declare firstPrior_loop.simps [simp del]

definition firstPriorNotOccurringAsPosterior ::
  "requirements \<Rightarrow> int \<Rightarrow> (order_error, int \<times> nat) result" where
  "firstPriorNotOccurringAsPosterior s startI =
     (case py_pos (orderByPrior s) startI of
        None \<Rightarrow> Inl RequIndexError
      | Some j \<Rightarrow> firstPrior_loop s j (prior (by_prior s j)) (-1) [])"

definition getCount :: "requirements \<Rightarrow> nat" where
  "getCount s = length (req_list s)"

section \<open>The two index lists stay sorted permutations\<close>

definition sorted_index :: "(order_requirement \<Rightarrow> int) \<Rightarrow> order_requirement list \<Rightarrow> int list \<Rightarrow> bool" where
  "sorted_index key rl ord \<longleftrightarrow>
     mset ord = mset (map int [0..<length rl]) \<and> sorted (map (\<lambda>k. key (rl ! nat k)) ord)"

definition requ_inv :: "requirements \<Rightarrow> bool" where
  "requ_inv s \<longleftrightarrow> sorted_index prior (req_list s) (orderByPrior s) \<and>
     sorted_index posterior (req_list s) (orderByPosterior s)"

lemma shift_up_eq:
  "i \<le> j \<Longrightarrow> Suc j \<le> length ord \<Longrightarrow>
     shift_up ord j i = take (Suc i) ord @ take (j - i) (drop i ord) @ drop (Suc j) ord"
proof (induction ord j i rule: shift_up.induct)
  case (1 ord i)
  then show ?case by (cases ord) auto
next
  case (2 ord j i)
  show ?case
  proof (cases "i \<le> j")
    case True
    with 2 have "shift_up ord (Suc j) i =
        take (Suc i) (ord[Suc j := ord ! j]) @ take (j - i) (drop i (ord[Suc j := ord ! j])) @
        drop (Suc j) (ord[Suc j := ord ! j])" by simp
    also have "drop (Suc j) (ord[Suc j := ord ! j]) = ord ! j # drop (Suc (Suc j)) ord"
      using 2 by (metis Cons_nth_drop_Suc Suc_le_lessD drop_update_cancel length_list_update lessI nth_list_update_eq)
    also have "take (j - i) (drop i (ord[Suc j := ord ! j])) = take (j - i) (drop i ord)"
      using True by (simp add: drop_update_swap)
    also have "take (Suc i) (ord[Suc j := ord ! j]) = take (Suc i) ord"
      using True by simp
    also have "take (j - i) (drop i ord) @ ord ! j # drop (Suc (Suc j)) ord
        = take (Suc j - i) (drop i ord) @ drop (Suc (Suc j)) ord"
      using True 2 by (simp add: Suc_diff_le take_Suc_conv_app_nth)
    finally show ?thesis .
  next
    case False
    with 2 have "i = Suc j" by simp
    with 2 show ?thesis by simp
  qed
qed

lemma locate_bounds:
  "i \<le> length rl - 1 \<Longrightarrow> locate key rl ord r i = (k, b) \<Longrightarrow>
     i \<le> k \<and> k \<le> length rl - 1 \<and>
     (\<forall>x \<in> {i..<k}. key (rl ! nat (ord ! x)) < key r) \<and>
     (if b then k < length rl - 1 \<and> key r \<le> key (rl ! nat (ord ! k)) else k = length rl - 1)"
proof (induction key rl ord r i rule: locate.induct)
  case (1 key rl ord r i)
  show ?case
  proof (cases "i < length rl - 1 \<and> key r > key (rl ! nat (ord ! i))")
    case True
    then have "locate key rl ord r (Suc i) = (k, b)"
      using "1.prems"(2) by (subst (asm) locate.simps) simp
    with True 1 have IH: "Suc i \<le> k \<and> k \<le> length rl - 1 \<and>
       (\<forall>x \<in> {Suc i..<k}. key (rl ! nat (ord ! x)) < key r) \<and>
       (if b then k < length rl - 1 \<and> key r \<le> key (rl ! nat (ord ! k)) else k = length rl - 1)"
      by auto
    have "key (rl ! nat (ord ! x)) < key r" if "x \<in> {i..<k}" for x
      using that IH True by (cases "x = i") auto
    with IH show ?thesis by auto
  next
    case False
    then show ?thesis
      using "1.prems" locate.simps[of key rl ord r i] by (auto split: if_splits)
  qed
qed

text \<open>A pass inserts the new index at the located place.\<close>

lemma place_insert:
  assumes "length ord = length rl"
  shows "\<exists>i \<le> length rl. place key (rl @ [r]) (ord @ [-1]) r = take i ord @ [int (length rl)] @ drop i ord \<and>
     (\<forall>x < i. key ((rl @ [r]) ! nat (ord ! x)) < key r) \<and>
     (i < length rl \<longrightarrow> key r \<le> key ((rl @ [r]) ! nat (ord ! i)))"
proof -
  let ?rl = "rl @ [r]" and ?o = "ord @ [-1]"
  obtain i b where lo: "locate key ?rl ?o r 0 = (i, b)" by force
  have bd: "i \<le> length rl" "\<forall>x < i. key (?rl ! nat (?o ! x)) < key r"
    "if b then i < length rl \<and> key r \<le> key (?rl ! nat (?o ! i)) else i = length rl"
    using locate_bounds[OF _ lo] by auto
  have nth: "x < length rl \<Longrightarrow> ?o ! x = ord ! x" for x using assms by (simp add: nth_append)
  have "place key ?rl ?o r = take i ord @ [int (length rl)] @ drop i ord"
  proof (cases b)
    case True
    with bd have i: "i < length rl" by simp
    have "shift_up ?o (length rl) i = take (Suc i) ord @ drop i ord"
      using i assms by (subst shift_up_eq) auto
    moreover have "(take (Suc i) ord @ drop i ord)[i := int (length rl)] = take i ord @ [int (length rl)] @ drop i ord"
      using i assms by (simp add: take_Suc_conv_app_nth list_update_append)
    ultimately show ?thesis
      using lo True by (simp add: place_def)
  next
    case False
    with bd have "i = length rl" by simp
    then show ?thesis using lo False assms by (simp add: place_def list_update_append)
  qed
  with bd nth show ?thesis by (intro exI[of _ i]) (auto split: if_splits)
qed

lemma sorted_index_length: "sorted_index key rl ord \<Longrightarrow> length ord = length rl"
  unfolding sorted_index_def by (metis length_map length_upt minus_nat.diff_0 size_mset)

lemma sorted_index_set: "sorted_index key rl ord \<Longrightarrow> set ord = int ` {0..<length rl}"
  unfolding sorted_index_def by (metis image_set set_mset_mset set_upt)

lemma place_sorted_index:
  assumes "sorted_index key rl ord"
  shows "sorted_index key (rl @ [r]) (place key (rl @ [r]) (ord @ [-1]) r)"
proof -
  let ?rl = "rl @ [r]" let ?n = "length rl"
  let ?f = "\<lambda>k. key (?rl ! nat k)"
  have len: "length ord = ?n" using assms by (rule sorted_index_length)
  from place_insert[OF len] obtain i where i: "i \<le> ?n"
    and pl: "place key ?rl (ord @ [-1]) r = take i ord @ [int ?n] @ drop i ord"
    and lo: "\<forall>x < i. ?f (ord ! x) < key r" and hi: "i < ?n \<longrightarrow> key r \<le> ?f (ord ! i)" by blast
  have m: "mset (take i ord @ [int ?n] @ drop i ord) = mset (map int [0..<length ?rl])"
  proof -
    have "mset (take i ord @ [int ?n] @ drop i ord) = add_mset (int ?n) (mset (take i ord) + mset (drop i ord))"
      by simp
    also have "mset (take i ord) + mset (drop i ord) = mset ord"
      by (metis append_take_drop_id mset_append)
    finally show ?thesis using assms by (simp add: sorted_index_def)
  qed
  have "\<forall>k \<in> set ord. ?f k = key (rl ! nat k)"
    using sorted_index_set[OF assms] by (auto simp: nth_append)
  then have eq: "map ?f ord = map (\<lambda>k. key (rl ! nat k)) ord" by simp
  have so: "sorted (map ?f ord)" unfolding eq using assms unfolding sorted_index_def by blast
  have "\<forall>k \<in> set (drop i ord). key r \<le> ?f k"
  proof
    fix k assume "k \<in> set (drop i ord)"
    then obtain x where "x < length (drop i ord)" "k = drop i ord ! x"
      by (metis in_set_conv_nth)
    then have x: "i + x < ?n" "k = ord ! (i + x)" using len i by simp_all
    then have "?f (ord ! i) \<le> ?f k"
      using sorted_nth_mono[OF so, of i "i + x"] len by simp
    with hi x show "key r \<le> ?f k" by auto
  qed
  moreover have "\<forall>k \<in> set (take i ord). ?f k \<le> key r"
    using lo i len by (auto simp: in_set_conv_nth less_imp_le)
  moreover have "sorted (map ?f (take i ord))" "sorted (map ?f (drop i ord))"
    using so by (simp_all add: sorted_wrt_take sorted_wrt_drop flip: take_map drop_map)
  moreover have "\<forall>a \<in> set (take i ord). \<forall>b \<in> set (drop i ord). ?f a \<le> ?f b"
    using calculation(1,2) by force
  ultimately have "sorted (map ?f (take i ord @ [int ?n] @ drop i ord))"
    by (auto simp: sorted_append)
  with m pl show ?thesis by (simp add: sorted_index_def)
qed

lemma requ_inv_new: "requ_inv new_requirements"
  by (simp add: requ_inv_def new_requirements_def sorted_index_def)

lemma requ_inv_add: "requ_inv s \<Longrightarrow> requ_inv (add_requirement s r)"
  using place_sorted_index
  by (simp add: requ_inv_def add_requirement_def Let_def place_prior_def place_posterior_def)

lemma req_list_add [simp]: "req_list (add_requirement s r) = req_list s @ [r]"
  by (simp add: add_requirement_def Let_def)

section \<open>What the searches find\<close>

text \<open>The open requirements, as pairs (prior, posterior).\<close>

definition pending :: "requirements \<Rightarrow> (int \<times> int) set" where
  "pending s = {(prior r, posterior r) | r. r \<in> set (req_list s) \<and> \<not> fulfilled r}"

lemma finite_pending: "finite (pending s)"
proof -
  have "pending s \<subseteq> (\<lambda>r. (prior r, posterior r)) ` set (req_list s)"
    by (auto simp: pending_def)
  then show ?thesis by (rule finite_subset) simp
qed

lemma sorted_index_surj:
  assumes "sorted_index key rl ord" and "r \<in> set rl"
  shows "\<exists>j < length rl. rl ! nat (ord ! j) = r"
proof -
  obtain k where k: "k < length rl" "rl ! k = r" using assms(2) by (auto simp: in_set_conv_nth)
  then have "int k \<in> set ord" using sorted_index_set[OF assms(1)] by auto
  then obtain j where "j < length rl" "ord ! j = int k"
    using sorted_index_length[OF assms(1)] by (auto simp: in_set_conv_nth)
  with k show ?thesis by auto
qed

lemma sorted_index_mem:
  assumes "sorted_index key rl ord" and "j < length rl"
  shows "rl ! nat (ord ! j) \<in> set rl"
proof -
  have "ord ! j \<in> set ord" using assms sorted_index_length[OF assms(1)] by simp
  then show ?thesis using sorted_index_set[OF assms(1)] by auto
qed

lemma sorted_index_mono:
  assumes "sorted_index key rl ord" and "i \<le> j" and "j < length rl"
  shows "key (rl ! nat (ord ! i)) \<le> key (rl ! nat (ord ! j))"
  using assms sorted_nth_mono[of "map (\<lambda>k. key (rl ! nat k)) ord" i j] sorted_index_length[OF assms(1)]
  by (simp add: sorted_index_def)

lemma by_posterior_facts:
  assumes "requ_inv s"
  shows "j < length (req_list s) \<Longrightarrow> by_posterior s j \<in> set (req_list s)"
    and "i \<le> j \<Longrightarrow> j < length (req_list s) \<Longrightarrow> posterior (by_posterior s i) \<le> posterior (by_posterior s j)"
    and "r \<in> set (req_list s) \<Longrightarrow> \<exists>j < length (req_list s). by_posterior s j = r"
  using assms sorted_index_mem sorted_index_mono sorted_index_surj
  unfolding requ_inv_def by_posterior_def by metis+

lemma by_prior_facts:
  assumes "requ_inv s"
  shows "j < length (req_list s) \<Longrightarrow> by_prior s j \<in> set (req_list s)"
    and "i \<le> j \<Longrightarrow> j < length (req_list s) \<Longrightarrow> prior (by_prior s i) \<le> prior (by_prior s j)"
    and "r \<in> set (req_list s) \<Longrightarrow> \<exists>j < length (req_list s). by_prior s j = r"
  using assms sorted_index_mem sorted_index_mono sorted_index_surj
  unfolding requ_inv_def by_prior_def by metis+

lemma posteriorIndexOf_from_range:
  "posteriorIndexOf_from s p j = -1 \<or>
     (\<exists>k < length (req_list s). posteriorIndexOf_from s p j = int k \<and> \<not> fulfilled (by_posterior s k) \<and>
        posterior (by_posterior s k) = p)"
proof (induction s p j rule: posteriorIndexOf_from.induct)
  case (1 s p j)
  then show ?case by (subst (1 2) posteriorIndexOf_from.simps) (auto simp: Let_def)
qed

lemma posteriorIndexOf_from_none:
  assumes "requ_inv s"
  shows "posteriorIndexOf_from s p j = -1 \<Longrightarrow> j \<le> k \<Longrightarrow> k < length (req_list s) \<Longrightarrow>
     \<not> fulfilled (by_posterior s k) \<Longrightarrow> posterior (by_posterior s k) \<noteq> p"
  using assms
proof (induction s p j rule: posteriorIndexOf_from.induct)
  case (1 s p j)
  let ?c = "by_posterior s j"
  have j: "j < length (req_list s)" using "1.prems" by simp
  show ?case
  proof (cases "fulfilled ?c \<or> posterior ?c < p")
    case True
    then have "posteriorIndexOf_from s p (Suc j) = -1"
      using "1.prems"(1) j posteriorIndexOf_from.simps[of s p j] by simp
    then show ?thesis using "1.IH"[OF j refl True] "1.prems" True
      by (cases "j = k") auto
  next
    case False
    then have "posterior ?c \<noteq> p"
      using "1.prems"(1) j posteriorIndexOf_from.simps[of s p j] by (auto simp: Let_def)
    with False have "p < posterior ?c" by simp
    also have "\<dots> \<le> posterior (by_posterior s k)"
      using by_posterior_facts(2) "1.prems" by blast
    finally show ?thesis by simp
  qed
qed

lemma posteriorIndexOf_none_iff:
  assumes "requ_inv s"
  shows "posteriorIndexOf s p = -1 \<longleftrightarrow> p \<notin> snd ` pending s"
proof
  assume "posteriorIndexOf s p = -1"
  then have "posterior (by_posterior s k) \<noteq> p"
    if "k < length (req_list s)" "\<not> fulfilled (by_posterior s k)" for k
    using posteriorIndexOf_from_none[OF assms, of p 0 k] that by (simp add: posteriorIndexOf_def)
  then show "p \<notin> snd ` pending s"
    using by_posterior_facts(3)[OF assms] by (fastforce simp: pending_def)
next
  assume "p \<notin> snd ` pending s"
  then show "posteriorIndexOf s p = -1"
    using posteriorIndexOf_from_range[of s p 0] by_posterior_facts(1)[OF assms]
    by (force simp: posteriorIndexOf_def pending_def)
qed

lemma posteriorIndexOf_ge: "posteriorIndexOf s p > -1 \<longleftrightarrow> posteriorIndexOf s p \<noteq> -1"
  using posteriorIndexOf_from_range[of s p 0] by (auto simp: posteriorIndexOf_def)

lemma firstNotFulfilled_from_cases:
  "firstNotFulfilled_from s i = -1 \<and> (\<forall>k. i \<le> k \<and> k < length (req_list s) \<longrightarrow> fulfilled (by_prior s k)) \<or>
   (\<exists>k. firstNotFulfilled_from s i = int k \<and> i \<le> k \<and> k < length (req_list s) \<and> \<not> fulfilled (by_prior s k) \<and>
      (\<forall>x. i \<le> x \<and> x < k \<longrightarrow> fulfilled (by_prior s x)))"
proof (induction s i rule: firstNotFulfilled_from.induct)
  case (1 s i)
  show ?case
  proof (cases "i < length (req_list s) \<and> fulfilled (by_prior s i)")
    case True
    then have eq: "firstNotFulfilled_from s i = firstNotFulfilled_from s (Suc i)"
      using firstNotFulfilled_from.simps[of s i] by simp
    from 1 True show ?thesis unfolding eq by (metis Suc_leD Suc_leI le_neq_implies_less)
  next
    case False
    then show ?thesis using firstNotFulfilled_from.simps[of s i] by auto
  qed
qed

lemma first_open_cases:
  assumes "requ_inv s"
  shows "pending s = {} \<and> indexOfFirstNotFulfilledRequirementOrderedByPrior s = -1 \<or>
     (\<exists>i. indexOfFirstNotFulfilledRequirementOrderedByPrior s = int i \<and> i < length (req_list s) \<and>
        \<not> fulfilled (by_prior s i) \<and> (\<forall>x < i. fulfilled (by_prior s x)) \<and> pending s \<noteq> {})"
  (is "?A \<or> ?B")
proof (cases "\<exists>k < length (req_list s). \<not> fulfilled (by_prior s k)")
  case True
  then obtain k where k: "indexOfFirstNotFulfilledRequirementOrderedByPrior s = int k"
    "k < length (req_list s)" "\<not> fulfilled (by_prior s k)" "\<forall>x < k. fulfilled (by_prior s x)"
    using firstNotFulfilled_from_cases[of s 0]
    unfolding indexOfFirstNotFulfilledRequirementOrderedByPrior_def by auto
  moreover have "pending s \<noteq> {}"
    using by_prior_facts(1)[OF assms k(2)] k(3) by (auto simp: pending_def)
  ultimately show ?thesis by blast
next
  case False
  then have "indexOfFirstNotFulfilledRequirementOrderedByPrior s = -1"
    using firstNotFulfilled_from_cases[of s 0]
    unfolding indexOfFirstNotFulfilledRequirementOrderedByPrior_def by auto
  moreover have "pending s = {}"
    using False by_prior_facts(3)[OF assms] by (fastforce simp: pending_def)
  ultimately show ?thesis by blast
qed

text \<open>The loop returns the first open prior that is no open posterior, or raises when none is left.\<close>

lemma firstPrior_loop_cases:
  assumes "requ_inv s"
  shows "(j < length (req_list s) \<Longrightarrow> c = prior (by_prior s j)) \<Longrightarrow>
     (\<exists>k. firstPrior_loop s j c l ps = Inr (prior (by_prior s k), k) \<and> j \<le> k \<and> k < length (req_list s) \<and>
        \<not> fulfilled (by_prior s k) \<and> prior (by_prior s k) \<notin> snd ` pending s \<and>
        (\<forall>x. j \<le> x \<and> x < k \<and> \<not> fulfilled (by_prior s x) \<longrightarrow> prior (by_prior s x) \<in> snd ` pending s)) \<or>
     (\<exists>ps'. firstPrior_loop s j c l ps = Inl (OpsiProductOrderingError ps') \<and>
        (\<forall>k. j \<le> k \<and> k < length (req_list s) \<and> \<not> fulfilled (by_prior s k) \<longrightarrow>
           prior (by_prior s k) \<in> snd ` pending s))"
  using assms
proof (induction s j c l ps rule: firstPrior_loop.induct)
  case (1 s j c l ps)
  note iff = posteriorIndexOf_none_iff[OF "1.prems"(2)]
  show ?case
  proof (cases "j < length (req_list s)")
    case False
    then show ?thesis by (subst (1 2) firstPrior_loop.simps) auto
  next
    case j: True
    then have c: "c = prior (by_prior s j)" using "1.prems"(1) by simp
    show ?thesis
    proof (cases "\<not> fulfilled (by_prior s j) \<and> posteriorIndexOf s c = -1")
      case True
      with j c iff show ?thesis by (subst (1 2) firstPrior_loop.simps) auto
    next
      case False
      define tr where "tr = (posteriorIndexOf s c > -1 \<and> l \<noteq> c)"
      define c' where "c' = (if Suc j < length (req_list s) then prior (by_prior s (Suc j)) else c)"
      define p' where "p' = (if tr then ps @ [c] else ps)"
      define l' where "l' = (if tr then c else l)"
      have eq: "firstPrior_loop s j c l ps = firstPrior_loop s (Suc j) c' l' p'"
        by (subst firstPrior_loop.simps)
          (simp only: j False Let_def if_True if_False tr_def c'_def l'_def p'_def)
      have here: "\<not> fulfilled (by_prior s j) \<longrightarrow> prior (by_prior s j) \<in> snd ` pending s"
        using False iff c by auto
      have "(Suc j < length (req_list s) \<Longrightarrow> c' = prior (by_prior s (Suc j)))"
        by (simp add: c'_def)
      from "1.IH"[OF j False tr_def p'_def l'_def c'_def this "1.prems"(2)] here show ?thesis
        unfolding eq by (metis Suc_leD Suc_leI le_neq_implies_less)
    qed
  qed
qed

section \<open>The contract OrderBuild relies on\<close>

text \<open>
  \<open>OrderBuild\<close> asks for the first open requirement and for a prior to emit next. What it needs of
  the answers: nothing is open exactly when the index is -1, an emitted prior is open and is no open
  posterior, and an error means that every open prior is an open posterior.
\<close>

locale prior_chooser =
  fixes pend :: "'s \<Rightarrow> (int \<times> int) set"
    and ok :: "'s \<Rightarrow> bool"
    and first_open :: "'s \<Rightarrow> int"
    and pick :: "'s \<Rightarrow> int \<Rightarrow> (order_error, int \<times> nat) result"
  assumes pend_finite: "ok s \<Longrightarrow> finite (pend s)"
    and first_open_none: "ok s \<Longrightarrow> first_open s = -1 \<longleftrightarrow> pend s = {}"
    and choose_ok: "ok s \<Longrightarrow> pend s \<noteq> {} \<Longrightarrow> pick s (first_open s) = Inr (e, k) \<Longrightarrow>
      e \<in> fst ` pend s \<and> e \<notin> snd ` pend s"
    and choose_err: "ok s \<Longrightarrow> pend s \<noteq> {} \<Longrightarrow> pick s (first_open s) = Inl x \<Longrightarrow>
      fst ` pend s \<subseteq> snd ` pend s \<and> (\<exists>ps. x = OpsiProductOrderingError ps)"
begin

lemma closed_pend_cyclic:
  assumes "ok s" and "pend s \<noteq> {}" and "fst ` pend s \<subseteq> snd ` pend s"
  shows "\<not> acyclic (pend s)"
proof
  assume "acyclic (pend s)"
  with assms have "wf (pend s)" by (simp add: finite_acyclic_wf pend_finite)
  moreover obtain q where "q \<in> fst ` pend s" using assms(2) by auto
  ultimately obtain z where z: "z \<in> fst ` pend s" "\<And>y. (y, z) \<in> pend s \<Longrightarrow> y \<notin> fst ` pend s"
    by (metis wfE_min)
  with assms(3) show False by force
qed

lemma choose_error_cyclic:
  "ok s \<Longrightarrow> pend s \<noteq> {} \<Longrightarrow> pick s (first_open s) = Inl x \<Longrightarrow> \<not> acyclic (pend s)"
  using closed_pend_cyclic choose_err by blast

lemma acyclic_choose:
  assumes "ok s" and "pend s \<noteq> {}" and "acyclic (pend s)"
  shows "\<exists>e k. pick s (first_open s) = Inr (e, k)"
  using assms choose_error_cyclic by (cases "pick s (first_open s)") auto

end

lemma requ_choose_cases:
  assumes "requ_inv s" and "pending s \<noteq> {}"
  shows "(\<exists>k. firstPriorNotOccurringAsPosterior s (indexOfFirstNotFulfilledRequirementOrderedByPrior s)
             = Inr (prior (by_prior s k), k) \<and> k < length (req_list s) \<and> \<not> fulfilled (by_prior s k) \<and>
        prior (by_prior s k) \<notin> snd ` pending s \<and>
        (\<forall>x < k. \<not> fulfilled (by_prior s x) \<longrightarrow> prior (by_prior s x) \<in> snd ` pending s)) \<or>
     (\<exists>ps. firstPriorNotOccurringAsPosterior s (indexOfFirstNotFulfilledRequirementOrderedByPrior s)
             = Inl (OpsiProductOrderingError ps) \<and> fst ` pending s \<subseteq> snd ` pending s)"
proof -
  obtain i where i: "indexOfFirstNotFulfilledRequirementOrderedByPrior s = int i" "i < length (req_list s)"
    "\<forall>x < i. fulfilled (by_prior s x)"
    using first_open_cases[OF assms(1)] assms(2) by auto
  have len: "length (orderByPrior s) = length (req_list s)"
    using assms(1) sorted_index_length unfolding requ_inv_def by blast
  have eq: "firstPriorNotOccurringAsPosterior s (int i) = firstPrior_loop s i (prior (by_prior s i)) (-1) []"
    using i len by (simp add: firstPriorNotOccurringAsPosterior_def)
  have closed: "fst ` pending s \<subseteq> snd ` pending s"
    if all: "\<forall>k. i \<le> k \<and> k < length (req_list s) \<and> \<not> fulfilled (by_prior s k) \<longrightarrow> prior (by_prior s k) \<in> snd ` pending s"
  proof
    fix a assume "a \<in> fst ` pending s"
    then obtain r where r: "r \<in> set (req_list s)" "\<not> fulfilled r" "a = prior r" by (auto simp: pending_def)
    then obtain k where "k < length (req_list s)" "by_prior s k = r"
      using by_prior_facts(3)[OF assms(1)] by blast
    with all r i(3) show "a \<in> snd ` pending s" by (metis not_le)
  qed
  from firstPrior_loop_cases[OF assms(1), of i "prior (by_prior s i)" "-1" "[]"] show ?thesis
    unfolding i(1) eq using i(3) closed by (metis not_le)
qed

interpretation rq: prior_chooser pending requ_inv indexOfFirstNotFulfilledRequirementOrderedByPrior
  firstPriorNotOccurringAsPosterior
proof
  fix s
  assume inv: "requ_inv s"
  show "finite (pending s)" by (rule finite_pending)
  show "indexOfFirstNotFulfilledRequirementOrderedByPrior s = -1 \<longleftrightarrow> pending s = {}"
    using first_open_cases[OF inv] by auto
  assume ne: "pending s \<noteq> {}"
  show "fst ` pending s \<subseteq> snd ` pending s \<and> (\<exists>ps. x = OpsiProductOrderingError ps)"
    if "firstPriorNotOccurringAsPosterior s (indexOfFirstNotFulfilledRequirementOrderedByPrior s) = Inl x" for x
    using that requ_choose_cases[OF inv ne] by auto
  fix e k
  assume "firstPriorNotOccurringAsPosterior s (indexOfFirstNotFulfilledRequirementOrderedByPrior s) = Inr (e, k)"
  with requ_choose_cases[OF inv ne] have k: "e = prior (by_prior s k)" "k < length (req_list s)"
    "\<not> fulfilled (by_prior s k)" "e \<notin> snd ` pending s" by auto
  then have "(e, posterior (by_prior s k)) \<in> pending s"
    using by_prior_facts(1)[OF inv] by (auto simp: pending_def)
  with k show "e \<in> fst ` pending s \<and> e \<notin> snd ` pending s" by force
qed

end
