(* ===== verification/OrderBuild.thy ===== *)
theory OrderBuild
  imports Requirements
begin

text \<open>
  The class \<open>OrderBuild\<close> of OPSI/SharedAlgorithm.py, which builds the order of one priority class
  step by step. Every call of \<open>proceed\<close> emits one prior that no open requirement has as posterior;
  when nothing is open any more, one call emits the remaining posteriors, then the elements without
  requirements, and moves the sorted block to the end. The lemmas show that calling \<open>proceed\<close> as
  often as there are elements yields a permutation that respects all requirements, and that it
  raises exactly when the requirements have a cycle.
\<close>

section \<open>State and operations\<close>

record order_build =
  ordering :: "int list"
  elementCount :: nat
  completing :: bool
  errorFound :: bool
  allFulfilled :: bool
  requs :: requirements
  indexIsAmongPosteriors :: "bool list"
  indexUsed :: "bool list"
  usedCount :: nat

definition new_order_build :: "nat \<Rightarrow> requirements \<Rightarrow> bool \<Rightarrow> order_build" where
  "new_order_build n rs c =
     \<lparr>ordering = [], elementCount = n, completing = c, errorFound = False, allFulfilled = False,
      requs = rs, indexIsAmongPosteriors = replicate n False, indexUsed = replicate n False, usedCount = 0\<rparr>"

text \<open>Emit index \<open>j\<close>: \<open>ordering.append(j); indexUsed[j] = True; usedCount += 1\<close>.\<close>

definition use_index :: "nat \<Rightarrow> order_build \<Rightarrow> order_build" where
  "use_index j ob = ob\<lparr>ordering := ordering ob @ [int j], indexUsed := (indexUsed ob)[j := True],
     usedCount := usedCount ob + 1\<rparr>"

definition collect_posteriors :: "order_build \<Rightarrow> order_build" where
  "collect_posteriors ob =
     foldl (\<lambda>ob j. if indexIsAmongPosteriors ob ! j \<and> \<not> indexUsed ob ! j then use_index j ob else ob)
       ob [0..<elementCount ob]"

definition take_rest :: "order_build \<Rightarrow> order_build" where
  "take_rest ob = foldl (\<lambda>ob j. if \<not> indexUsed ob ! j then use_index j ob else ob) ob [0..<elementCount ob]"

text \<open>The two loops that write the unsorted elements first and the sorted ones last.\<close>

definition rearrange :: "nat \<Rightarrow> nat \<Rightarrow> int list \<Rightarrow> int list" where
  "rearrange n lastSortedCount ord =
     (let newordering = map int [0..<n];
          unsorted = foldl (\<lambda>no k. no[k := ord ! (lastSortedCount + k)]) newordering [0..<n - lastSortedCount]
      in foldl (\<lambda>no k. no[n - lastSortedCount + k := ord ! k]) unsorted [0..<lastSortedCount])"

definition finish :: "order_build \<Rightarrow> order_build" where
  "finish ob =
     (let ob1 = collect_posteriors (ob\<lparr>allFulfilled := True\<rparr>);
          lastSortedCount = usedCount ob1
      in if completing ob1 then
           let ob2 = take_rest ob1
           in if lastSortedCount > 0
              then ob2\<lparr>ordering := rearrange (elementCount ob2) lastSortedCount (ordering ob2)\<rparr>
              else ob2
         else ob1)"

definition set_fulfilled :: "requirements \<Rightarrow> nat \<Rightarrow> requirements" where
  "set_fulfilled s k =
     (let i = nat (orderByPrior s ! k)
      in s\<lparr>req_list := (req_list s)[i := (req_list s ! i)\<lparr>fulfilled := True\<rparr>]\<rparr>)"

lemma length_set_fulfilled [simp]: "length (req_list (set_fulfilled s k)) = length (req_list s)"
  by (simp add: set_fulfilled_def Let_def)

text \<open>
  \<open>while (k < self.requs.getCount()) and (newEntry == requK.prior)\<close>: marks the requirements with
  prior \<open>newEntry\<close> and their posteriors.
\<close>

function mark_prior ::
  "int \<Rightarrow> nat \<Rightarrow> requirements \<Rightarrow> bool list \<Rightarrow> (order_error, requirements \<times> bool list) result" where
  "mark_prior newEntry k s among =
     (if k < getCount s \<and> newEntry = prior (by_prior s k) then
        case py_set among (posterior (by_prior s k)) True of
          None \<Rightarrow> Inl RequIndexError
        | Some among' \<Rightarrow> mark_prior newEntry (Suc k) (set_fulfilled s k) among'
      else Inr (s, among))"
  by pat_completeness auto
termination by (relation "measure (\<lambda>(e, k, s, am). getCount s - k)") (auto simp: getCount_def)

declare mark_prior.simps [simp del]

definition proceed :: "order_build \<Rightarrow> (order_error, order_build \<times> bool) result" where
  "proceed ob =
     (if usedCount ob \<ge> elementCount ob then Inr (ob, True)
      else
        let indexRequToFulfill = indexOfFirstNotFulfilledRequirementOrderedByPrior (requs ob)
        in if indexRequToFulfill = -1 then Inr (finish ob, True)
           else
             bindE (firstPriorNotOccurringAsPosterior (requs ob) indexRequToFulfill)
               (\<lambda>(newEntry, k).
                  if newEntry = -1 then Inr (ob, False)
                  else
                    let ob1 = ob\<lparr>ordering := ordering ob @ [newEntry], usedCount := usedCount ob + 1\<rparr>
                    in bindE (mark_prior newEntry k (requs ob1) (indexIsAmongPosteriors ob1))
                         (\<lambda>(s, among).
                            case py_set (indexUsed ob1) newEntry True of
                              None \<Rightarrow> Inl RequIndexError
                            | Some used \<Rightarrow>
                                Inr (ob1\<lparr>requs := s, indexIsAmongPosteriors := among, indexUsed := used\<rparr>, True))))"

text \<open>\<open>for _ in prioclass: order_build.proceed()\<close>\<close>

definition proceed_times :: "nat \<Rightarrow> order_build \<Rightarrow> (order_error, order_build) result" where
  "proceed_times m = foldE (\<lambda>_ ob. bindE (proceed ob) (\<lambda>(ob', _). Inr ob')) [0..<m]"

definition requirements_of :: "(int \<times> int) list \<Rightarrow> requirements" where
  "requirements_of ps = foldl (\<lambda>s (a, b). add_requirement s (new_order_requirement a b False)) new_requirements ps"

definition order_class :: "nat \<Rightarrow> (int \<times> int) list \<Rightarrow> (order_error, int list) result" where
  "order_class n ps =
     bindE (proceed_times n (new_order_build n (requirements_of ps) True)) (\<lambda>ob. Inr (ordering ob))"

section \<open>Marking\<close>

definition set_all_fulfilled :: "int \<Rightarrow> order_requirement list \<Rightarrow> order_requirement list" where
  "set_all_fulfilled e rl = map (\<lambda>r. if prior r = e then r\<lparr>fulfilled := True\<rparr> else r) rl"

lemma set_fulfilled_nth:
  "i < length (req_list s) \<Longrightarrow> req_list (set_fulfilled s k) ! i =
     (if i = nat (orderByPrior s ! k) then (req_list s ! i)\<lparr>fulfilled := True\<rparr> else req_list s ! i)"
  by (auto simp: set_fulfilled_def Let_def)

lemma order_set_fulfilled [simp]:
  "orderByPrior (set_fulfilled s k) = orderByPrior s"
  "orderByPosterior (set_fulfilled s k) = orderByPosterior s"
  by (simp_all add: set_fulfilled_def Let_def)

lemma orderByPrior_range:
  "requ_inv s \<Longrightarrow> x < length (req_list s) \<Longrightarrow> nat (orderByPrior s ! x) < length (req_list s)"
  using sorted_index_length[of prior "req_list s" "orderByPrior s"]
    sorted_index_set[of prior "req_list s" "orderByPrior s"]
  unfolding requ_inv_def by (metis atLeastLessThan_iff imageE nat_int nth_mem)

lemma by_prior_set_fulfilled:
  assumes "requ_inv s" and "x < length (req_list s)"
  shows "by_prior (set_fulfilled s k) x =
     (if nat (orderByPrior s ! x) = nat (orderByPrior s ! k) then (by_prior s x)\<lparr>fulfilled := True\<rparr>
      else by_prior s x)"
  using set_fulfilled_nth[OF orderByPrior_range[OF assms]] by (simp add: by_prior_def)

lemma sorted_index_cong:
  assumes "length rl' = length rl" and "\<And>i. i < length rl \<Longrightarrow> key (rl' ! i) = key (rl ! i)"
  shows "sorted_index key rl' ord = sorted_index key rl ord"
proof -
  have "map (\<lambda>k. key (rl' ! nat k)) ord = map (\<lambda>k. key (rl ! nat k)) ord"
    if "mset ord = mset (map int [0..<length rl])"
  proof -
    have "set ord = int ` {0..<length rl}"
      using that by (metis image_set set_mset_mset set_upt)
    then show ?thesis using assms(2) by auto
  qed
  then show ?thesis unfolding sorted_index_def assms(1) by metis
qed

lemma requ_inv_set_fulfilled: "requ_inv s \<Longrightarrow> requ_inv (set_fulfilled s k)"
  unfolding requ_inv_def order_set_fulfilled
  by (simp add: sorted_index_cong[of "req_list (set_fulfilled s k)" "req_list s"] set_fulfilled_nth)

lemma length_set_all_fulfilled [simp]: "length (set_all_fulfilled e rl) = length rl"
  by (simp add: set_all_fulfilled_def)

lemma set_all_fulfilled_set_fulfilled:
  assumes "requ_inv s" and "k < length (req_list s)" and "prior (by_prior s k) = e"
  shows "set_all_fulfilled e (req_list (set_fulfilled s k)) = set_all_fulfilled e (req_list s)"
  using assms(3) by (intro nth_equalityI) (auto simp: set_all_fulfilled_def set_fulfilled_nth by_prior_def)

lemma set_all_fulfilled_id:
  "(\<And>r. r \<in> set rl \<Longrightarrow> prior r = e \<Longrightarrow> fulfilled r) \<Longrightarrow> set_all_fulfilled e rl = rl"
  by (simp add: set_all_fulfilled_def map_idI)

lemma set_fulfilled_pairs:
  "(\<lambda>r. (prior r, posterior r)) ` set (req_list (set_fulfilled s k)) = (\<lambda>r. (prior r, posterior r)) ` set (req_list s)"
proof -
  have "map (\<lambda>r. (prior r, posterior r)) (req_list (set_fulfilled s k)) = map (\<lambda>r. (prior r, posterior r)) (req_list s)"
    by (intro nth_equalityI) (auto simp: set_fulfilled_nth)
  then show ?thesis by (metis list.set_map)
qed

lemma set_fulfilled_ex:
  "(\<exists>r \<in> set (req_list (set_fulfilled s k)). P (prior r) (posterior r)) \<longleftrightarrow>
   (\<exists>r \<in> set (req_list s). P (prior r) (posterior r))"
proof -
  have "(\<exists>r \<in> X. P (prior r) (posterior r)) \<longleftrightarrow> (\<exists>(a, b) \<in> (\<lambda>r. (prior r, posterior r)) ` X. P a b)"
    for X :: "order_requirement set" by simp
  note eq = this[of "set (req_list (set_fulfilled s k))"] this[of "set (req_list s)"]
  show ?thesis unfolding eq set_fulfilled_pairs ..
qed

lemma set_fulfilled_mem:
  "r \<in> set (req_list (set_fulfilled s k)) \<Longrightarrow> \<exists>r' \<in> set (req_list s). prior r = prior r' \<and> posterior r = posterior r'"
  using set_fulfilled_ex[of s k "\<lambda>a b. prior r = a \<and> posterior r = b"] by blast

text \<open>
  From the first requirement with prior \<open>e\<close> on, the loop marks all of them: they are contiguous in
  the order by prior.
\<close>

lemma mark_prior_spec:
  assumes "requ_inv s" and "\<And>r. r \<in> set (req_list s) \<Longrightarrow> 0 \<le> posterior r \<and> posterior r < int (length am)"
    and "\<And>x. k \<le> x \<Longrightarrow> x < length (req_list s) \<Longrightarrow> e \<le> prior (by_prior s x)"
    and "\<And>x. x < k \<Longrightarrow> x < length (req_list s) \<Longrightarrow> prior (by_prior s x) = e \<Longrightarrow>
       fulfilled (by_prior s x) \<and> am ! nat (posterior (by_prior s x))"
  shows "\<exists>am'. mark_prior e k s am = Inr (s\<lparr>req_list := set_all_fulfilled e (req_list s)\<rparr>, am') \<and>
     length am' = length am \<and>
     (\<forall>j < length am. am' ! j \<longleftrightarrow> am ! j \<or> (\<exists>r \<in> set (req_list s). prior r = e \<and> posterior r = int j))"
  using assms
proof (induction e k s am rule: mark_prior.induct)
  case (1 e k s am)
  note inv = "1.prems"(1)
  show ?case
  proof (cases "k < getCount s \<and> e = prior (by_prior s k)")
    case False
    have all: "fulfilled r \<and> am ! nat (posterior r)" if r: "r \<in> set (req_list s)" "prior r = e" for r
    proof -
      obtain x where x: "x < length (req_list s)" "by_prior s x = r"
        using by_prior_facts(3)[OF inv r(1)] by blast
      have "x < k"
      proof (rule ccontr)
        assume "\<not> x < k"
        then have "k \<le> x" by simp
        with x have "k < length (req_list s)" "prior (by_prior s k) \<le> prior (by_prior s x)"
          using by_prior_facts(2)[OF inv] by auto
        with False x r "1.prems"(3)[of k] show False by (auto simp: getCount_def)
      qed
      with x r "1.prems"(4) show ?thesis by blast
    qed
    then have "set_all_fulfilled e (req_list s) = req_list s" by (simp add: set_all_fulfilled_id)
    moreover have "am ! j" if "r \<in> set (req_list s)" "prior r = e" "posterior r = int j" for r j
      using all[OF that(1,2)] that(3) by simp
    ultimately show ?thesis using False by (subst mark_prior.simps) auto
  next
    case True
    then have k: "k < length (req_list s)" and e: "prior (by_prior s k) = e" by (simp_all add: getCount_def)
    let ?p = "posterior (by_prior s k)" and ?s = "set_fulfilled s k"
    let ?am = "am[nat ?p := True]"
    have p: "0 \<le> ?p" "?p < int (length am)"
      using "1.prems"(2) by_prior_facts(1)[OF inv k] by auto
    then have st: "py_set am ?p True = Some ?am" by simp
    have "mark_prior e k s am = mark_prior e (Suc k) ?s ?am"
      using True st by (subst mark_prior.simps) simp
    moreover have "\<exists>am'. mark_prior e (Suc k) ?s ?am = Inr (?s\<lparr>req_list := set_all_fulfilled e (req_list ?s)\<rparr>, am') \<and>
        length am' = length ?am \<and> (\<forall>j < length ?am. am' ! j \<longleftrightarrow> ?am ! j \<or>
          (\<exists>r \<in> set (req_list ?s). prior r = e \<and> posterior r = int j))"
    proof (rule "1.IH"[OF True st])
      show "requ_inv ?s" using inv by (rule requ_inv_set_fulfilled)
      show "0 \<le> posterior r \<and> posterior r < int (length ?am)" if "r \<in> set (req_list ?s)" for r
        using set_fulfilled_mem[OF that] "1.prems"(2) by fastforce
      show "e \<le> prior (by_prior ?s x)" if "Suc k \<le> x" "x < length (req_list ?s)" for x
        using "1.prems"(3)[of x] that inv by (simp add: by_prior_set_fulfilled)
      show "fulfilled (by_prior ?s x) \<and> ?am ! nat (posterior (by_prior ?s x))"
        if x: "x < Suc k" "x < length (req_list ?s)" "prior (by_prior ?s x) = e" for x
      proof (cases "x = k")
        case True
        then show ?thesis using x inv p by (simp add: by_prior_set_fulfilled)
      next
        case False
        with x inv have "x < k" "prior (by_prior s x) = e" by (auto simp: by_prior_set_fulfilled split: if_splits)
        then have "fulfilled (by_prior s x)" "am ! nat (posterior (by_prior s x))"
          using "1.prems"(4)[of x] k by auto
        then show ?thesis using x inv p by (cases "nat (posterior (by_prior s x)) = nat ?p")
          (auto simp: by_prior_set_fulfilled)
      qed
    qed
    moreover have "?s\<lparr>req_list := set_all_fulfilled e (req_list ?s)\<rparr> = s\<lparr>req_list := set_all_fulfilled e (req_list s)\<rparr>"
      using set_all_fulfilled_set_fulfilled[OF inv k e] by (simp add: set_fulfilled_def Let_def)
    moreover have "(?am ! j \<or> (\<exists>r \<in> set (req_list ?s). prior r = e \<and> posterior r = int j)) \<longleftrightarrow>
        (am ! j \<or> (\<exists>r \<in> set (req_list s). prior r = e \<and> posterior r = int j))" if "j < length am" for j
      using e p by_prior_facts(1)[OF inv k] set_fulfilled_ex[of s k "\<lambda>a b. a = e \<and> b = int j"] that
      by (cases "j = nat ?p") auto
    ultimately show ?thesis by simp
  qed
qed

section \<open>The last step\<close>

lemma foldl_write:
  "c + m \<le> length no \<Longrightarrow> foldl (\<lambda>no k. no[c + k := f k]) no [0..<m] = take c no @ map f [0..<m] @ drop (c + m) no"
proof (induction m)
  case (Suc m)
  then have "foldl (\<lambda>no k. no[c + k := f k]) no [0..<Suc m]
      = (take c no @ map f [0..<m] @ drop (c + m) no)[c + m := f m]" by simp
  also have "\<dots> = take c no @ map f [0..<m] @ (drop (c + m) no)[0 := f m]"
    using Suc.prems by (simp add: list_update_append)
  also have "drop (c + m) no = no ! (c + m) # drop (c + Suc m) no"
    using Suc.prems by (simp add: Cons_nth_drop_Suc)
  finally show ?case by simp
qed simp

text \<open>The two loops rotate the list.\<close>

lemma rearrange_rotate:
  assumes "length ord = n" and "l \<le> n"
  shows "rearrange n l ord = drop l ord @ take l ord"
proof -
  let ?u = "foldl (\<lambda>no k. no[k := ord ! (l + k)]) (map int [0..<n]) [0..<n - l]"
  have u: "?u = map (\<lambda>k. ord ! (l + k)) [0..<n - l] @ drop (n - l) (map int [0..<n])"
    using foldl_write[of 0 "n - l" "map int [0..<n]" "\<lambda>k. ord ! (l + k)"] by simp
  have "map (\<lambda>k. ord ! (l + k)) [0..<n - l] = drop l ord"
    using assms by (intro nth_equalityI) auto
  then have "?u = drop l ord @ drop (n - l) (map int [0..<n])" using u by simp
  moreover have "foldl (\<lambda>no k. no[n - l + k := ord ! k]) xs [0..<l] = take (n - l) xs @ map ((!) ord) [0..<l]"
    if "length xs = n" for xs
    using foldl_write[of "n - l" l xs "(!) ord"] that assms(2) by simp
  moreover have "map ((!) ord) [0..<l] = take l ord"
    using assms by (intro nth_equalityI) simp_all
  ultimately show ?thesis using assms by (simp add: rearrange_def Let_def)
qed

abbreviation use_fold :: "(bool list \<Rightarrow> nat \<Rightarrow> bool) \<Rightarrow> order_build \<Rightarrow> nat list \<Rightarrow> order_build" where
  "use_fold Q \<equiv> foldl (\<lambda>ob j. if Q (indexIsAmongPosteriors ob) j \<and> \<not> indexUsed ob ! j then use_index j ob else ob)"

lemma use_fold_spec:
  fixes ob :: order_build and Q :: "bool list \<Rightarrow> nat \<Rightarrow> bool"
  assumes "distinct js" and "\<forall>j \<in> set js. j < length (indexUsed ob)"
  defines "sel \<equiv> filter (\<lambda>j. Q (indexIsAmongPosteriors ob) j \<and> \<not> indexUsed ob ! j) js"
  shows "ordering (use_fold Q ob js) = ordering ob @ map int sel \<and>
     usedCount (use_fold Q ob js) = usedCount ob + length sel \<and>
     length (indexUsed (use_fold Q ob js)) = length (indexUsed ob) \<and>
     (\<forall>i < length (indexUsed ob). indexUsed (use_fold Q ob js) ! i \<longleftrightarrow> indexUsed ob ! i \<or> i \<in> set sel) \<and>
     indexIsAmongPosteriors (use_fold Q ob js) = indexIsAmongPosteriors ob \<and>
     elementCount (use_fold Q ob js) = elementCount ob \<and> completing (use_fold Q ob js) = completing ob"
  using assms(1,2) unfolding sel_def
proof (induction js arbitrary: ob)
  case (Cons j js)
  show ?case
  proof (cases "Q (indexIsAmongPosteriors ob) j \<and> \<not> indexUsed ob ! j")
    case True
    let ?ob = "use_index j ob"
    have f: "indexIsAmongPosteriors ?ob = indexIsAmongPosteriors ob" "elementCount ?ob = elementCount ob"
      "completing ?ob = completing ob" "indexUsed ?ob = (indexUsed ob)[j := True]"
      "ordering ?ob = ordering ob @ [int j]" "usedCount ?ob = usedCount ob + 1"
      by (simp_all add: use_index_def)
    have sel: "filter (\<lambda>i. Q (indexIsAmongPosteriors ?ob) i \<and> \<not> indexUsed ?ob ! i) js =
        filter (\<lambda>i. Q (indexIsAmongPosteriors ob) i \<and> \<not> indexUsed ob ! i) js"
    proof (rule filter_cong)
      fix i assume "i \<in> set js"
      with Cons.prems have "i \<noteq> j" by auto
      then show "(Q (indexIsAmongPosteriors ?ob) i \<and> \<not> indexUsed ?ob ! i) =
          (Q (indexIsAmongPosteriors ob) i \<and> \<not> indexUsed ob ! i)" by (simp add: f)
    qed simp
    have "\<forall>i \<in> set js. i < length (indexUsed ?ob)" using Cons.prems f by simp
    with Cons.IH[of ?ob] Cons.prems(1) show ?thesis
      unfolding sel using True Cons.prems(2) by (auto simp: f nth_list_update)
  next
    case False
    with Cons show ?thesis by auto
  qed
qed simp

text \<open>What an order of a class has to satisfy.\<close>

definition class_order :: "nat \<Rightarrow> (int \<times> int) set \<Rightarrow> int list \<Rightarrow> bool" where
  "class_order n R xs \<longleftrightarrow> distinct xs \<and> set xs = int ` {0..<n} \<and> (\<forall>(a, b) \<in> R. precedes xs a b)"

definition ob_inv :: "nat \<Rightarrow> (int \<times> int) set \<Rightarrow> order_build \<Rightarrow> bool" where
  "ob_inv n R ob \<longleftrightarrow>
     elementCount ob = n \<and> completing ob \<and> requ_inv (requs ob) \<and>
     (\<lambda>r. (prior r, posterior r)) ` set (req_list (requs ob)) = R \<and>
     (\<forall>(a, b) \<in> R. 0 \<le> a \<and> a < int n \<and> 0 \<le> b \<and> b < int n) \<and>
     (\<forall>r \<in> set (req_list (requs ob)). fulfilled r \<longleftrightarrow> prior r \<in> set (ordering ob)) \<and>
     length (indexUsed ob) = n \<and> length (indexIsAmongPosteriors ob) = n \<and>
     (\<forall>j < n. indexUsed ob ! j \<longleftrightarrow> int j \<in> set (ordering ob)) \<and>
     (\<forall>j < n. indexIsAmongPosteriors ob ! j \<longleftrightarrow> (\<exists>a \<in> set (ordering ob). (a, int j) \<in> R)) \<and>
     distinct (ordering ob) \<and> set (ordering ob) \<subseteq> fst ` R \<and> usedCount ob = length (ordering ob) \<and>
     (\<forall>(a, b) \<in> R. b \<in> set (ordering ob) \<longrightarrow> precedes (ordering ob) a b)"

lemma ob_invD:
  assumes "ob_inv n R ob"
  shows "elementCount ob = n" and "completing ob" and "requ_inv (requs ob)"
    and "(\<lambda>r. (prior r, posterior r)) ` set (req_list (requs ob)) = R"
    and "\<forall>(a, b) \<in> R. 0 \<le> a \<and> a < int n \<and> 0 \<le> b \<and> b < int n"
    and "\<forall>r \<in> set (req_list (requs ob)). fulfilled r \<longleftrightarrow> prior r \<in> set (ordering ob)"
    and "length (indexUsed ob) = n" and "length (indexIsAmongPosteriors ob) = n"
    and "\<forall>j < n. indexUsed ob ! j \<longleftrightarrow> int j \<in> set (ordering ob)"
    and "\<forall>j < n. indexIsAmongPosteriors ob ! j \<longleftrightarrow> (\<exists>a \<in> set (ordering ob). (a, int j) \<in> R)"
    and "distinct (ordering ob)" and "set (ordering ob) \<subseteq> fst ` R" and "usedCount ob = length (ordering ob)"
    and "\<forall>(a, b) \<in> R. b \<in> set (ordering ob) \<longrightarrow> precedes (ordering ob) a b"
  by (insert assms[unfolded ob_inv_def], (elim conjE, assumption)+)

lemma ob_inv_pending:
  assumes "ob_inv n R ob"
  shows "pending (requs ob) = {(a, b) \<in> R. a \<notin> set (ordering ob)}"
proof -
  have "pending (requs ob) = {(a, b) \<in> (\<lambda>r. (prior r, posterior r)) ` set (req_list (requs ob)). a \<notin> set (ordering ob)}"
    using ob_invD(6)[OF assms] by (auto simp: pending_def)
  then show ?thesis unfolding ob_invD(4)[OF assms] .
qed

lemma ob_inv_bounds:
  assumes "ob_inv n R ob" and "(a, b) \<in> R"
  shows "0 \<le> a" and "a < int n" and "0 \<le> b" and "b < int n"
  using ob_invD(5)[OF assms(1)] assms(2) by auto

lemma finish_class_order:
  assumes inv: "ob_inv n R ob" and "pending (requs ob) = {}"
  shows "class_order n R (ordering (finish ob)) \<and> elementCount (finish ob) = n \<and> usedCount (finish ob) = n"
proof -
  let ?O = "ordering ob"
  have open0: "a \<in> set ?O" if "(a, b) \<in> R" for a b
    using that assms(2) ob_inv_pending[OF inv] by blast
  define ob0 where "ob0 = ob\<lparr>allFulfilled := True\<rparr>"
  define ob1 where "ob1 = collect_posteriors ob0"
  define ob2 where "ob2 = take_rest ob1"
  note O = ob_invD(11-13,1,2,7,9,10,14)[OF inv]
  have On: "set ?O \<subseteq> int ` {0..<n}"
  proof
    fix a assume "a \<in> set ?O"
    with O(2) obtain b where "(a, b) \<in> R" by auto
    then have "0 \<le> a" "a < int n" by (rule ob_inv_bounds[OF inv])+
    then show "a \<in> int ` {0..<n}" by (intro image_eqI[of _ _ "nat a"]) auto
  qed
  define ps where "ps = filter (\<lambda>j. indexIsAmongPosteriors ob ! j \<and> \<not> indexUsed ob ! j) [0..<n]"
  have ob1: "ordering ob1 = ?O @ map int ps" "usedCount ob1 = usedCount ob + length ps"
    "length (indexUsed ob1) = n" "\<forall>i < n. indexUsed ob1 ! i \<longleftrightarrow> indexUsed ob ! i \<or> i \<in> set ps"
    "elementCount ob1 = n" "completing ob1"
    using use_fold_spec[of "[0..<n]" ob0 "(!)"] O(4-6)
    by (simp_all add: ob1_def ob0_def collect_posteriors_def ps_def)
  define rs where "rs = filter (\<lambda>j. \<not> indexUsed ob1 ! j) [0..<n]"
  have ob2: "ordering ob2 = ?O @ map int ps @ map int rs" "usedCount ob2 = usedCount ob1 + length rs"
    "elementCount ob2 = n"
    using use_fold_spec[of "[0..<n]" ob1 "\<lambda>_ _. True"] ob1
    by (simp_all add: ob2_def take_rest_def rs_def)
  let ?S = "?O @ map int ps" and ?T = "map int rs"
  have dist: "distinct (?S @ ?T)"
    using O(1,7) ob1(4) by (auto simp: ps_def rs_def distinct_map)
  have set: "set (?S @ ?T) = int ` {0..<n}"
    using On O(7) ob1(4) by (auto simp: ps_def rs_def)
  have len: "length (?S @ ?T) = n"
    using distinct_card[OF dist] unfolding set by (simp add: card_image)
  have prec: "precedes ?S a b" if R: "(a, b) \<in> R" for a b
  proof (cases "b \<in> set ?O")
    case True
    with R O(9) show ?thesis by (auto intro: precedes_append_left)
  next
    case False
    moreover obtain j where "b = int j" "j < n" using ob_inv_bounds[OF inv R]
      by (metis of_nat_less_iff zero_le_imp_eq_int)
    moreover then have "j \<in> set ps" using False O(7,8) R open0[OF R] by (auto simp: ps_def)
    ultimately show ?thesis using open0[OF R] by (intro precedes_append_across) auto
  qed
  have fin: "finish ob = (if usedCount ob1 > 0 then ob2\<lparr>ordering := rearrange n (usedCount ob1) (ordering ob2)\<rparr> else ob2)"
    using ob1 ob2 by (simp add: finish_def Let_def ob0_def ob1_def ob2_def)
  have l: "usedCount ob1 = length ?S" using ob1 O(3) by simp
  have "ordering (finish ob) = ?T @ ?S"
  proof (cases "usedCount ob1 > 0")
    case True
    have "rearrange n (usedCount ob1) (?S @ ?T) = drop (length ?S) (?S @ ?T) @ take (length ?S) (?S @ ?T)"
      unfolding l using len by (intro rearrange_rotate) auto
    with True fin ob2 show ?thesis by simp
  next
    case False
    with l fin ob2 show ?thesis by simp
  qed
  moreover have "precedes (?T @ ?S) a b" if "(a, b) \<in> R" for a b
  proof (rule precedes_append_right[OF _ prec[OF that]])
    have "set ?S \<inter> set ?T = {}" using dist by (simp only: distinct_append)
    with precedes_mem[OF prec[OF that]] show "b \<notin> set ?T" by blast
  qed
  ultimately have "class_order n R (ordering (finish ob))"
    using dist set unfolding class_order_def by auto
  moreover have "usedCount ob2 = n" using ob2 l len by simp
  ultimately show ?thesis using fin ob2 by simp
qed

section \<open>One call of proceed\<close>

lemma set_all_fulfilled_pairs:
  "(\<lambda>r. (prior r, posterior r)) ` set (set_all_fulfilled e rl) = (\<lambda>r. (prior r, posterior r)) ` set rl"
  unfolding set_all_fulfilled_def set_map image_image by (rule image_cong) auto

lemma set_all_fulfilled_nth [simp]:
  "i < length rl \<Longrightarrow> prior (set_all_fulfilled e rl ! i) = prior (rl ! i)"
  "i < length rl \<Longrightarrow> posterior (set_all_fulfilled e rl ! i) = posterior (rl ! i)"
  by (simp_all add: set_all_fulfilled_def)

lemma requ_inv_set_all_fulfilled:
  "requ_inv s \<Longrightarrow> requ_inv (s\<lparr>req_list := set_all_fulfilled e (req_list s)\<rparr>)"
  unfolding requ_inv_def
  by (simp add: sorted_index_cong[of "set_all_fulfilled e (req_list s)" "req_list s"])

lemma pending_subset: "ob_inv n R ob \<Longrightarrow> pending (requs ob) \<subseteq> R"
  by (auto simp: ob_inv_pending)

text \<open>The step that emits a prior keeps the invariant.\<close>

lemma emit_ob_inv:
  assumes inv: "ob_inv n R ob" and e: "e \<notin> set (ordering ob)" "e \<in> fst ` R"
    and pr: "\<And>a. (a, e) \<in> R \<Longrightarrow> a \<in> set (ordering ob)"
    and am: "length am = n" "\<forall>j < n. am ! j \<longleftrightarrow> indexIsAmongPosteriors ob ! j \<or>
      (\<exists>r \<in> set (req_list (requs ob)). prior r = e \<and> posterior r = int j)"
  shows "ob_inv n R (ob\<lparr>ordering := ordering ob @ [e], usedCount := usedCount ob + 1,
     requs := (requs ob)\<lparr>req_list := set_all_fulfilled e (req_list (requs ob))\<rparr>,
     indexIsAmongPosteriors := am, indexUsed := (indexUsed ob)[nat e := True]\<rparr>)"
proof -
  note I = ob_invD[OF inv]
  have en: "0 \<le> e" "e < int n" using e(2) ob_inv_bounds[OF inv] by auto
  have R: "(\<exists>r \<in> set (req_list (requs ob)). prior r = e \<and> posterior r = int j) \<longleftrightarrow> (e, int j) \<in> R" for j
    using I(4) by (auto simp: image_iff)
  have ful: "\<forall>r \<in> set (set_all_fulfilled e (req_list (requs ob))).
      fulfilled r \<longleftrightarrow> prior r \<in> set (ordering ob @ [e])"
    using I(6) by (auto simp: set_all_fulfilled_def)
  have used: "\<forall>j < n. (indexUsed ob)[nat e := True] ! j \<longleftrightarrow> int j \<in> set (ordering ob @ [e])"
    using I(7,9) en by (auto simp: nth_list_update)
  have among: "\<forall>j < n. am ! j \<longleftrightarrow> (\<exists>a \<in> set (ordering ob @ [e]). (a, int j) \<in> R)"
    using am(2) I(10) unfolding R by auto
  have prec: "\<forall>(a, b) \<in> R. b \<in> set (ordering ob @ [e]) \<longrightarrow> precedes (ordering ob @ [e]) a b"
    using I(14) e(1) pr by (auto intro: precedes_append_left precedes_append_across)
  show ?thesis
    unfolding ob_inv_def using I(1-5,7,11-13) e am(1) ful used among prec
    by (simp add: requ_inv_set_all_fulfilled set_all_fulfilled_pairs)
qed

lemma proceed_open:
  assumes inv: "ob_inv n R ob" and lt: "usedCount ob < n" and ne: "pending (requs ob) \<noteq> {}"
  shows "(\<exists>ob'. proceed ob = Inr (ob', True) \<and> ob_inv n R ob' \<and> length (ordering ob') = Suc (length (ordering ob))) \<or>
     (\<exists>ps. proceed ob = Inl (OpsiProductOrderingError ps) \<and> \<not> acyclic R)"
proof -
  let ?s = "requs ob"
  note I = ob_invD[OF inv]
  have rinv: "requ_inv ?s" by (rule I(3))
  have idx: "indexOfFirstNotFulfilledRequirementOrderedByPrior ?s \<noteq> -1"
    using rq.first_open_none[OF rinv] ne by simp
  have lt': "\<not> usedCount ob \<ge> elementCount ob" using lt I(1) by simp
  from requ_choose_cases[OF rinv ne] show ?thesis
  proof (elim disjE exE conjE)
    fix ps
    assume err: "firstPriorNotOccurringAsPosterior ?s (indexOfFirstNotFulfilledRequirementOrderedByPrior ?s)
       = Inl (OpsiProductOrderingError ps)"
    have "\<not> acyclic (pending ?s)" by (rule rq.choose_error_cyclic[OF rinv ne err])
    then have "\<not> acyclic R" using pending_subset[OF inv] acyclic_subset by blast
    with err lt' idx show ?thesis by (simp add: proceed_def Let_def)
  next
    fix k
    let ?e = "prior (by_prior ?s k)"
    assume ok: "firstPriorNotOccurringAsPosterior ?s (indexOfFirstNotFulfilledRequirementOrderedByPrior ?s) = Inr (?e, k)"
      and k: "k < length (req_list ?s)" "\<not> fulfilled (by_prior ?s k)" "?e \<notin> snd ` pending ?s"
      and before: "\<forall>x < k. \<not> fulfilled (by_prior ?s x) \<longrightarrow> prior (by_prior ?s x) \<in> snd ` pending ?s"
    have mem: "by_prior ?s k \<in> set (req_list ?s)" by (rule by_prior_facts(1)[OF rinv k(1)])
    have eO: "?e \<notin> set (ordering ob)" using I(6) mem k(2) by blast
    have eR: "(?e, posterior (by_prior ?s k)) \<in> R" using mem by (simp flip: I(4))
    note en = ob_inv_bounds(1,2)[OF inv eR]
    have pos: "0 \<le> posterior r \<and> posterior r < int (length (indexIsAmongPosteriors ob))" if "r \<in> set (req_list ?s)" for r
      using ob_inv_bounds(3,4)[OF inv, of "prior r" "posterior r"] that I(8) by (auto simp flip: I(4))
    have ge: "?e \<le> prior (by_prior ?s x)" if "k \<le> x" "x < length (req_list ?s)" for x
      using by_prior_facts(2)[OF rinv] that by blast
    have lt_k: "prior (by_prior ?s x) \<noteq> ?e" if "x < k" for x
    proof
      assume eq: "prior (by_prior ?s x) = ?e"
      have "fulfilled (by_prior ?s x)" using before k(3) that unfolding eq[symmetric] by blast
      moreover have "by_prior ?s x \<in> set (req_list ?s)" using by_prior_facts(1)[OF rinv] that k(1) by simp
      ultimately show False using I(6) eO eq by auto
    qed
    obtain am' where am': "mark_prior ?e k ?s (indexIsAmongPosteriors ob)
        = Inr (?s\<lparr>req_list := set_all_fulfilled ?e (req_list ?s)\<rparr>, am')"
      "length am' = length (indexIsAmongPosteriors ob)"
      "\<forall>j < length (indexIsAmongPosteriors ob). am' ! j \<longleftrightarrow> indexIsAmongPosteriors ob ! j \<or>
         (\<exists>r \<in> set (req_list ?s). prior r = ?e \<and> posterior r = int j)"
      using mark_prior_spec[OF rinv pos ge] lt_k by blast
    have prs: "a \<in> set (ordering ob)" if "(a, ?e) \<in> R" for a
      using that k(3) by (force simp: ob_inv_pending[OF inv])
    let ?ob' = "ob\<lparr>ordering := ordering ob @ [?e], usedCount := usedCount ob + 1,
       requs := ?s\<lparr>req_list := set_all_fulfilled ?e (req_list ?s)\<rparr>,
       indexIsAmongPosteriors := am', indexUsed := (indexUsed ob)[nat ?e := True]\<rparr>"
    have "proceed ob = Inr (?ob', True)"
      using lt' idx ok en am'(1) I(7) by (simp add: proceed_def Let_def)
    moreover have "ob_inv n R ?ob'"
      using am'(2,3) I(8) eR prs by (intro emit_ob_inv[OF inv eO]) force+
    ultimately show ?thesis by auto
  qed
qed

lemma proceed_closed:
  assumes "ob_inv n R ob" and "usedCount ob < n" and "pending (requs ob) = {}"
  shows "proceed ob = Inr (finish ob, True)"
  using assms rq.first_open_none[OF ob_invD(3)[OF assms(1)]] ob_invD(1)[OF assms(1)]
  by (simp add: proceed_def Let_def)

section \<open>A whole class\<close>

lemma precedes_takeWhile_less:
  assumes "precedes xs a b"
  shows "length (takeWhile (\<lambda>x. x \<noteq> a) xs) < length (takeWhile (\<lambda>x. x \<noteq> b) xs)"
  using assms by (induction xs) (auto simp: precedes_Cons precedes_def)

lemma class_order_acyclic: "class_order n R xs \<Longrightarrow> acyclic R"
proof -
  assume c: "class_order n R xs"
  have "R \<subseteq> measure (\<lambda>x. length (takeWhile (\<lambda>y. y \<noteq> x) xs))"
    using c precedes_takeWhile_less by (fastforce simp: class_order_def)
  then show ?thesis using acyclic_subset wf_acyclic wf_measure by blast
qed

definition build_done :: "nat \<Rightarrow> (int \<times> int) set \<Rightarrow> order_build \<Rightarrow> bool" where
  "build_done n R ob \<longleftrightarrow> class_order n R (ordering ob) \<and> elementCount ob = n \<and> usedCount ob = n"

lemma ob_inv_range: "ob_inv n R ob \<Longrightarrow> set (ordering ob) \<subseteq> int ` {0..<n}"
proof
  fix a assume inv: "ob_inv n R ob" and "a \<in> set (ordering ob)"
  then obtain b where "(a, b) \<in> R" using ob_invD(12)[OF inv] by auto
  then have "0 \<le> a" "a < int n" by (rule ob_inv_bounds[OF inv])+
  then show "a \<in> int ` {0..<n}" by (intro image_eqI[of _ _ "nat a"]) auto
qed

lemma ob_inv_full:
  assumes inv: "ob_inv n R ob" and "n \<le> usedCount ob"
  shows "build_done n R ob"
proof -
  note I = ob_invD[OF inv]
  have le: "card (set (ordering ob)) = usedCount ob" using I(11,13) by (simp add: distinct_card)
  have cn: "card (int ` {0..<n}) = n" by (simp add: card_image)
  have "set (ordering ob) = int ` {0..<n}"
    using ob_inv_range[OF inv] assms(2) le cn by (intro card_seteq) auto
  moreover then have "usedCount ob = n" using le cn by simp
  moreover have "b \<in> int ` {0..<n}" if "(a, b) \<in> R" for a b
    using ob_inv_bounds(3,4)[OF inv that] by (intro image_eqI[of _ _ "nat b"]) auto
  ultimately show ?thesis
    using I(1,11,14) by (auto simp: build_done_def class_order_def)
qed

abbreviation proceed_state :: "order_build \<Rightarrow> (order_error, order_build) result" where
  "proceed_state ob \<equiv> bindE (proceed ob) (\<lambda>(ob', _). Inr ob')"

lemma build_done_stays: "build_done n R ob \<Longrightarrow> foldE (\<lambda>_. proceed_state) us ob = Inr ob"
  by (induction us) (auto simp: build_done_def proceed_def)

lemma proceed_run:
  assumes "ob_inv n R ob"
  shows "(\<exists>ob'. foldE (\<lambda>_. proceed_state) us ob = Inr ob' \<and>
       (build_done n R ob' \<or> ob_inv n R ob' \<and> length (ordering ob') = length (ordering ob) + length us)) \<or>
     (\<exists>ps. foldE (\<lambda>_. proceed_state) us ob = Inl (OpsiProductOrderingError ps) \<and> \<not> acyclic R)"
  using assms
proof (induction us arbitrary: ob)
  case (Cons u us)
  consider "n \<le> usedCount ob" | "usedCount ob < n" "pending (requs ob) = {}"
    | "usedCount ob < n" "pending (requs ob) \<noteq> {}" by linarith
  then show ?case
  proof cases
    case 1
    then show ?thesis using ob_inv_full[OF Cons.prems] build_done_stays by blast
  next
    case 2
    have d: "build_done n R (finish ob)"
      using finish_class_order[OF Cons.prems 2(2)] by (simp add: build_done_def)
    then show ?thesis
      using proceed_closed[OF Cons.prems 2] build_done_stays[OF d, of us] by simp
  next
    case 3
    then show ?thesis
      using proceed_open[OF Cons.prems 3] Cons.IH by fastforce
  qed
qed simp

lemma req_list_requirements_of:
  "req_list (requirements_of ps) = map (\<lambda>(a, b). new_order_requirement a b False) ps \<and> requ_inv (requirements_of ps)"
  unfolding requirements_of_def
proof (induction ps rule: rev_induct)
  case Nil
  then show ?case by (simp add: requ_inv_new) (simp add: new_requirements_def)
next
  case (snoc p ps)
  then show ?case by (cases p) (simp add: requ_inv_add)
qed

lemma ob_inv_new:
  assumes "\<forall>(a, b) \<in> set ps. 0 \<le> a \<and> a < int n \<and> 0 \<le> b \<and> b < int n"
  shows "ob_inv n (set ps) (new_order_build n (requirements_of ps) True)"
  using assms req_list_requirements_of[of ps]
  by (auto simp: ob_inv_def new_order_build_def new_order_requirement_def image_image case_prod_beta)

text \<open>The requirements of a class can be met exactly when they have no cycle.\<close>

lemma order_class_cases:
  assumes "\<forall>(a, b) \<in> set ps. 0 \<le> a \<and> a < int n \<and> 0 \<le> b \<and> b < int n"
  shows "(\<exists>xs. order_class n ps = Inr xs \<and> class_order n (set ps) xs \<and> acyclic (set ps)) \<or>
     (\<exists>es. order_class n ps = Inl (OpsiProductOrderingError es) \<and> \<not> acyclic (set ps))"
proof -
  let ?ob = "new_order_build n (requirements_of ps) True"
  have inv: "ob_inv n (set ps) ?ob" using assms by (rule ob_inv_new)
  have len: "length (ordering ?ob) + length [0..<n] = n" by (simp add: new_order_build_def)
  have run: "proceed_times n ?ob = foldE (\<lambda>_. proceed_state) [0..<n] ?ob" by (simp add: proceed_times_def)
  from proceed_run[OF inv, of "[0..<n]"] show ?thesis
  proof (elim disjE exE conjE)
    fix ob' assume "foldE (\<lambda>_. proceed_state) [0..<n] ?ob = Inr ob'" "build_done n (set ps) ob'"
    then show ?thesis using run class_order_acyclic by (auto simp: order_class_def build_done_def)
  next
    fix ob'
    assume r: "foldE (\<lambda>_. proceed_state) [0..<n] ?ob = Inr ob'" and inv': "ob_inv n (set ps) ob'"
      and "length (ordering ob') = length (ordering ?ob) + length [0..<n]"
    then have "n \<le> usedCount ob'" using len ob_invD(13)[OF inv'] by linarith
    then have "build_done n (set ps) ob'" by (rule ob_inv_full[OF inv'])
    then show ?thesis using run r class_order_acyclic by (auto simp: order_class_def build_done_def)
  next
    fix es assume "foldE (\<lambda>_. proceed_state) [0..<n] ?ob = Inl (OpsiProductOrderingError es)" "\<not> acyclic (set ps)"
    then show ?thesis using run by (auto simp: order_class_def)
  qed
qed

end
