(* ===== verification/ProductData.thy ===== *)
theory ProductData
  imports Prelude
begin

text \<open>
  The attributes of the product objects the code reads and writes. The classes themselves belong to
  the package \<open>opsicommon\<close>, which is not part of the repository: only attribute access is modelled,
  their constructors and setters are parameters of the operations that use them.
  An attribute that may be \<open>None\<close> is an option.
\<close>

record product =
  p_id :: string
  p_type :: string
  p_productVersion :: string
  p_packageVersion :: string
  p_priority :: "int option"

record product_dependency =
  d_productId :: string
  d_productAction :: string
  d_requiredProductId :: string
  d_requiredProductVersion :: "string option"
  d_requiredPackageVersion :: "string option"
  d_requiredAction :: "string option"
  d_requiredInstallationStatus :: "string option"
  d_requirementType :: "string option"

record product_on_client =
  c_productId :: string
  c_productType :: string
  c_clientId :: string
  c_installationStatus :: "string option"
  c_actionRequest :: "string option"
  c_actionSequence :: int

section \<open>The objects of each client\<close>

text \<open>\<open>pocsByClientIdAndProductId\<close>: a dictionary of dictionaries; a later object replaces an earlier one.\<close>

definition client_dict ::
  "(string, (string, product_on_client) dict) dict \<Rightarrow> string \<Rightarrow> (string, product_on_client) dict" where
  "client_dict d k = (case map_of d k of None \<Rightarrow> [] | Some e \<Rightarrow> e)"

definition pocsByClientIdAndProductId ::
  "product_on_client list \<Rightarrow> (string, (string, product_on_client) dict) dict" where
  "pocsByClientIdAndProductId pocs =
     foldl (\<lambda>d c. AList.update (c_clientId c) (AList.update (c_productId c) c (client_dict d (c_clientId c))) d) [] pocs"

definition last_poc :: "product_on_client list \<Rightarrow> string \<Rightarrow> string \<Rightarrow> product_on_client option" where
  "last_poc pocs k p = find (\<lambda>c. c_clientId c = k \<and> c_productId c = p) (rev pocs)"

definition client_products :: "product_on_client list \<Rightarrow> string \<Rightarrow> string list" where
  "client_products pocs k = rev (remdups (rev (map c_productId (filter (\<lambda>c. c_clientId c = k) pocs))))"

lemma pocs_snoc:
  "pocsByClientIdAndProductId (cs @ [c]) =
     AList.update (c_clientId c) (AList.update (c_productId c) c (client_dict (pocsByClientIdAndProductId cs) (c_clientId c)))
       (pocsByClientIdAndProductId cs)"
  by (simp add: pocsByClientIdAndProductId_def)

lemma client_dict_snoc:
  "client_dict (pocsByClientIdAndProductId (cs @ [c])) k =
     (if k = c_clientId c then AList.update (c_productId c) c (client_dict (pocsByClientIdAndProductId cs) k)
      else client_dict (pocsByClientIdAndProductId cs) k)"
  by (simp add: pocs_snoc client_dict_def)

lemma client_dict_lookup: "map_of (client_dict (pocsByClientIdAndProductId pocs) k) p = last_poc pocs k p"
proof (induction pocs rule: rev_induct)
  case Nil
  show ?case by (simp add: client_dict_def pocsByClientIdAndProductId_def last_poc_def)
next
  case (snoc c cs)
  then show ?case by (auto simp: client_dict_snoc last_poc_def)
qed

lemma client_products_snoc:
  "client_products (cs @ [c]) k =
     (if c_clientId c \<noteq> k \<or> c_productId c \<in> set (client_products cs k) then client_products cs k
      else client_products cs k @ [c_productId c])"
  by (simp add: client_products_def)

lemma client_dict_keys: "dict_keys (client_dict (pocsByClientIdAndProductId pocs) k) = client_products pocs k"
proof (induction pocs rule: rev_induct)
  case Nil
  show ?case by (simp add: client_dict_def pocsByClientIdAndProductId_def client_products_def dict_keys_def)
next
  case (snoc c cs)
  then show ?case
    by (cases "k = c_clientId c") (simp_all add: client_dict_snoc client_products_snoc dict_keys_update)
qed

lemma distinct_client_products [simp]: "distinct (client_products pocs k)"
  by (simp add: client_products_def)

lemma pocs_keys: "dict_keys (pocsByClientIdAndProductId pocs) = rev (remdups (rev (map c_clientId pocs)))"
proof (induction pocs rule: rev_induct)
  case Nil
  show ?case by (simp add: pocsByClientIdAndProductId_def dict_keys_def)
next
  case (snoc c cs)
  then show ?case by (simp add: pocs_snoc dict_keys_update)
qed

lemma last_poc_Some: "last_poc pocs k p = Some c \<Longrightarrow> c \<in> set pocs \<and> c_clientId c = k \<and> c_productId c = p"
  by (auto simp: last_poc_def find_Some_iff in_set_conv_nth rev_nth) (metis Suc_pred diff_less_Suc length_greater_0_conv list.size(3) not_less_zero rev_nth diff_Suc_less)

end
