(* ===== verification/ProductOrder.thy ===== *)
theory ProductOrder
  imports OrderBuild ProductData
begin

text \<open>
  The two sort algorithms of OPSI/SharedAlgorithm.py over products and setup requirements, and the
  numbering of product-on-client objects along a sorted list. Algorithm 2 splits the products into
  priority classes and orders each class with \<open>OrderBuild\<close>; algorithm 1 first raises priorities
  until no requirement contradicts them.
\<close>

section \<open>Setup requirements\<close>

text \<open>Pairs (install first, install later), from the dependencies on the action \<open>setup\<close>.\<close>

fun getSetupRequirements :: "product_dependency list \<Rightarrow> (string \<times> string) list" where
  "getSetupRequirements [] = []"
| "getSetupRequirements (d # ds) =
     (if d_productAction d \<noteq> ''setup'' then getSetupRequirements ds
      else if d_requiredInstallationStatus d \<noteq> Some ''installed'' \<and> d_requiredAction d \<noteq> Some ''setup''
        then getSetupRequirements ds
      else if d_requirementType d = Some ''before''
        then (d_requiredProductId d, d_productId d) # getSetupRequirements ds
      else if d_requirementType d = Some ''after''
        then (d_productId d, d_requiredProductId d) # getSetupRequirements ds
      else getSetupRequirements ds)"

section \<open>Algorithm 2\<close>

datatype sort_error =
    OrderingConflict "string list"   \<comment> \<open>OpsiProductOrderingError naming these products\<close>
  | SortKeyError
  | SortIndexError

definition BOTTOM :: int where "BOTTOM = -100"

text \<open>\<open>reversed(range(BOTTOM, 101))\<close> and \<open>range(BOTTOM, 101)\<close>\<close>

definition levels_up :: "int list" where "levels_up = [BOTTOM..100]"
definition levels_down :: "int list" where "levels_down = rev [BOTTOM..100]"

definition prio_or_zero :: "product \<Rightarrow> int" where
  "prio_or_zero p = (case p_priority p of None \<Rightarrow> 0 | Some i \<Rightarrow> i)"

record class_tables =
  priorityClasses :: "(string, string list) dict"
  productIndexInClass :: "(string, nat) dict"
  productById :: "(string, product) dict"

definition add_to_class :: "product \<Rightarrow> class_tables \<Rightarrow> class_tables" where
  "add_to_class p t =
     (let prio = str_int (prio_or_zero p);
          classes = dict_append prio (p_id p) (priorityClasses t)
      in \<lparr>priorityClasses = classes,
          productIndexInClass = AList.update (p_id p) (length (dict_list classes prio) - 1) (productIndexInClass t),
          productById = AList.update (p_id p) p (productById t)\<rparr>)"

definition class_tables_of :: "product list \<Rightarrow> class_tables" where
  "class_tables_of ps =
     foldl (\<lambda>t p. add_to_class p t) \<lparr>priorityClasses = [], productIndexInClass = [], productById = []\<rparr> ps"

text \<open>\<open>requirementsByClasses[prioclasskey].append([productIndexInClass[prod1], productIndexInClass[prod2]])\<close>\<close>

definition add_class_requirement ::
  "class_tables \<Rightarrow> string \<times> string \<Rightarrow> (string, (int \<times> int) list) dict \<Rightarrow> (string, (int \<times> int) list) dict" where
  "add_class_requirement t = (\<lambda>(prod1, prod2) rbc.
     (case (map_of (productById t) prod1, map_of (productById t) prod2) of
        (Some p1, Some p2) \<Rightarrow>
          (if prio_or_zero p1 > prio_or_zero p2 then rbc
           else if prio_or_zero p1 < prio_or_zero p2 then rbc
           else dict_append (str_int (prio_or_zero p1))
             (int (the (map_of (productIndexInClass t) prod1)), int (the (map_of (productIndexInClass t) prod2))) rbc)
      | _ \<Rightarrow> rbc))"

definition requirementsByClasses ::
  "class_tables \<Rightarrow> (string \<times> string) list \<Rightarrow> (string, (int \<times> int) list) dict" where
  "requirementsByClasses t reqs = foldl (\<lambda>rbc r. add_class_requirement t r rbc) [] reqs"

text \<open>The body of the loop over the priorities: orders one class, or raises naming its products.\<close>

definition order_priority ::
  "class_tables \<Rightarrow> (string, (int \<times> int) list) dict \<Rightarrow> int \<Rightarrow> string list \<times> (string, int list) dict \<Rightarrow>
     (sort_error, string list \<times> (string, int list) dict) result" where
  "order_priority t rbc priority = (\<lambda>(foundClasses, orderingsByClasses).
     (let prioclasskey = str_int priority
      in case map_of (priorityClasses t) prioclasskey of
           None \<Rightarrow> Inr (foundClasses, orderingsByClasses)
         | Some prioclass \<Rightarrow>
             (let found = foundClasses @ [prioclasskey]
              in case map_of rbc prioclasskey of
                   None \<Rightarrow> Inr (found, orderingsByClasses)
                 | Some rqs \<Rightarrow>
                     (case order_class (length prioclass) rqs of
                        Inl (OpsiProductOrderingError problems) \<Rightarrow>
                          Inl (OrderingConflict (map (\<lambda>index. prioclass ! nat index) problems))
                      | Inl RequIndexError \<Rightarrow> Inl SortIndexError
                      | Inr ord \<Rightarrow> Inr (found, AList.update prioclasskey ord orderingsByClasses)))))"

definition emit_class :: "class_tables \<Rightarrow> (string, int list) dict \<Rightarrow> string \<Rightarrow> string list" where
  "emit_class t orderingsByClasses prioclasskey =
     (let prioclass = dict_list (priorityClasses t) prioclasskey
      in case map_of orderingsByClasses prioclasskey of
           Some ord \<Rightarrow> map (\<lambda>idx. prioclass ! nat idx) ord
         | None \<Rightarrow> prioclass)"

definition generateProductSequenceFromRequPairs_algorithm2 ::
  "product list \<Rightarrow> (string \<times> string) list \<Rightarrow> (sort_error, string list) result" where
  "generateProductSequenceFromRequPairs_algorithm2 availableProducts setupRequirements =
     (let t = class_tables_of availableProducts;
          rbc = requirementsByClasses t setupRequirements
      in bindE (foldE (order_priority t rbc) levels_down ([], []))
           (\<lambda>(foundClasses, orderingsByClasses). Inr (concat (map (emit_class t orderingsByClasses) foundClasses))))"

section \<open>Algorithm 1\<close>

record xclassified =
  x_id :: string
  x_priority :: "int option"
  revisedPriority :: "int option"
  x_product :: product

definition new_xclassified :: "product \<Rightarrow> xclassified" where
  "new_xclassified p = \<lparr>x_id = p_id p, x_priority = p_priority p, revisedPriority = p_priority p, x_product = p\<rparr>"

text \<open>\<open>fId2Prod\<close>: the last object with an id, as its position in the list of objects.\<close>

definition fId2Prod :: "xclassified list \<Rightarrow> (string, nat) dict" where
  "fId2Prod products = foldl (\<lambda>d i. AList.update (x_id (products ! i)) i d) [] [0..<length products]"

text \<open>
  \<open>fLevel2Prodlist\<close>: positions of the objects by their revised priority when the sweep starts;
  a priority that is no key of the dictionary raises \<open>KeyError\<close>.
\<close>

definition level_of :: "xclassified \<Rightarrow> (sort_error, int) result" where
  "level_of p = (case revisedPriority p of None \<Rightarrow> Inl SortKeyError
     | Some l \<Rightarrow> if BOTTOM \<le> l \<and> l \<le> 100 then Inr l else Inl SortKeyError)"

definition fLevel2Prodlist :: "xclassified list \<Rightarrow> (sort_error, int \<Rightarrow> nat list) result" where
  "fLevel2Prodlist products =
     foldE (\<lambda>i lv. bindE (level_of (products ! i)) (\<lambda>l. Inr (lv(l := lv l @ [i])))) [0..<length products] (\<lambda>_. [])"

record sweep =
  sw_products :: "xclassified list"
  sw_requs :: "(string, (string \<times> string) list) dict"
  sw_changed :: bool

text \<open>The inner loop over the requirements of one product, collecting the ones to remove.\<close>

definition push_requ ::
  "(string, nat) dict \<Rightarrow> int \<Rightarrow> string \<times> string \<Rightarrow> xclassified list \<times> bool \<times> (string \<times> string) list \<Rightarrow>
     xclassified list \<times> bool \<times> (string \<times> string) list" where
  "push_requ ids level requ = (\<lambda>(products, changed, removeRequs).
     (case map_of ids (fst requ) of
        None \<Rightarrow> (products, changed, removeRequs @ [requ])
      | Some i \<Rightarrow>
          (case revisedPriority (products ! i) of
             Some l \<Rightarrow> if l < level then (products[i := (products ! i)\<lparr>revisedPriority := Some level\<rparr>], True, removeRequs)
                       else (products, changed, removeRequs)
           | None \<Rightarrow> (products, changed, removeRequs))))"

definition push_product :: "(string, nat) dict \<Rightarrow> int \<Rightarrow> nat \<Rightarrow> sweep \<Rightarrow> sweep" where
  "push_product ids level i s =
     (let posti = x_id (sw_products s ! i)
      in case map_of (sw_requs s) posti of
           None \<Rightarrow> s
         | Some rs \<Rightarrow>
             (let (ps, ch, rm) = foldl (\<lambda>st r. push_requ ids level r st) (sw_products s, sw_changed s, []) rs
              in \<lparr>sw_products = ps, sw_requs = AList.update posti (foldl (\<lambda>l r. remove1 r l) rs rm) (sw_requs s),
                  sw_changed = ch\<rparr>))"

definition modifySortingClassesForAlgorithm1 ::
  "xclassified list \<Rightarrow> (string \<times> string) list \<Rightarrow> (sort_error, xclassified list \<times> bool) result" where
  "modifySortingClassesForAlgorithm1 products setupRequirements =
     (let ids = fId2Prod products
      in bindE (fLevel2Prodlist products)
           (\<lambda>lv. let s = foldl (\<lambda>s level. foldl (\<lambda>s i. push_product ids level i s) s (lv level))
                       \<lparr>sw_products = products, sw_requs = group_by snd (\<lambda>r. r) setupRequirements, sw_changed = False\<rparr>
                       levels_up
                 in Inr (sw_products s, sw_changed s)))"

subsection \<open>One sweep\<close>

definition rp :: "xclassified \<Rightarrow> int" where
  "rp p = (case revisedPriority p of None \<Rightarrow> 0 | Some l \<Rightarrow> l)"

definition in_levels :: "xclassified \<Rightarrow> bool" where
  "in_levels p \<longleftrightarrow> (\<exists>l. revisedPriority p = Some l \<and> BOTTOM \<le> l \<and> l \<le> 100)"

definition slack :: "xclassified list \<Rightarrow> nat" where
  "slack ps = sum_list (map (\<lambda>p. nat (100 - rp p)) ps)"

lemma level_of_in_levels: "level_of p = (if in_levels p then Inr (rp p) else Inl SortKeyError)"
  by (auto simp: level_of_def in_levels_def rp_def split: option.splits)

lemma in_levels_rp: "in_levels p \<Longrightarrow> revisedPriority p = Some (rp p) \<and> BOTTOM \<le> rp p \<and> rp p \<le> 100"
  by (auto simp: in_levels_def rp_def)

lemma levels_error:
  assumes "\<exists>i \<in> set is. \<not> in_levels (ps ! i)"
  shows "foldE (\<lambda>i lv. bindE (level_of (ps ! i)) (\<lambda>l. Inr (lv(l := lv l @ [i])))) is lv = Inl SortKeyError"
  using assms by (induction "is" arbitrary: lv) (auto simp: level_of_in_levels)

lemma levels_ok:
  assumes "\<forall>i \<in> set is. in_levels (ps ! i)"
  shows "foldE (\<lambda>i lv. bindE (level_of (ps ! i)) (\<lambda>l. Inr (lv(l := lv l @ [i])))) is lv
     = Inr (\<lambda>l. lv l @ filter (\<lambda>i. rp (ps ! i) = l) is)"
  using assms by (induction "is" arbitrary: lv) (auto simp: level_of_in_levels fun_eq_iff)

lemma fLevel2Prodlist_eq:
  "fLevel2Prodlist ps =
     (if \<forall>p \<in> set ps. in_levels p then Inr (\<lambda>l. filter (\<lambda>i. rp (ps ! i) = l) [0..<length ps]) else Inl SortKeyError)"
proof (cases "\<forall>p \<in> set ps. in_levels p")
  case True
  then show ?thesis using levels_ok[of "[0..<length ps]" ps] by (simp add: fLevel2Prodlist_def)
next
  case False
  then obtain i where "i < length ps" "\<not> in_levels (ps ! i)" by (auto simp: in_set_conv_nth)
  then have ex: "\<exists>i \<in> set [0..<length ps]. \<not> in_levels (ps ! i)" by auto
  show ?thesis unfolding fLevel2Prodlist_def levels_error[OF ex] using False by simp
qed

lemma fId2Prod_sound: "map_of (fId2Prod ps) a = Some i \<Longrightarrow> i < length ps \<and> x_id (ps ! i) = a"
proof -
  have "map_of (foldl (\<lambda>d i. AList.update (x_id (ps ! i)) i d) [] [0..<m]) a = Some i \<Longrightarrow> i < m \<and> x_id (ps ! i) = a" for m
    by (induction m) (auto split: if_splits)
  then show "map_of (fId2Prod ps) a = Some i \<Longrightarrow> ?thesis" by (simp add: fId2Prod_def)
qed

lemma fId2Prod_dom: "map_of (fId2Prod ps) a = None \<longleftrightarrow> a \<notin> x_id ` set ps"
proof -
  have "map_of (foldl (\<lambda>d i. AList.update (x_id (ps ! i)) i d) [] [0..<m]) a = None \<longleftrightarrow> (\<forall>i < m. x_id (ps ! i) \<noteq> a)" for m
    by (induction m) (auto simp: less_Suc_eq)
  moreover have "(\<forall>i < length ps. x_id (ps ! i) \<noteq> a) \<longleftrightarrow> a \<notin> x_id ` set ps"
    by (metis imageE image_eqI in_set_conv_nth)
  ultimately show ?thesis by (simp add: fId2Prod_def)
qed

text \<open>How a sweep may change the objects: same ids, priorities within the levels.\<close>

definition same_objects :: "xclassified list \<Rightarrow> xclassified list \<Rightarrow> bool" where
  "same_objects ps qs \<longleftrightarrow> map (\<lambda>p. (x_id p, x_product p)) ps = map (\<lambda>p. (x_id p, x_product p)) qs"

lemma same_objects_length: "same_objects ps qs \<Longrightarrow> length ps = length qs"
  unfolding same_objects_def by (metis length_map)

lemma same_objects_id: "same_objects ps qs \<Longrightarrow> i < length qs \<Longrightarrow> x_id (ps ! i) = x_id (qs ! i)"
  unfolding same_objects_def by (metis (no_types, lifting) length_map nth_map prod.inject)

lemma slack_update_less:
  assumes "i < length ps" and "rp (ps ! i) < l" and "l \<le> 100"
  shows "slack (ps[i := (ps ! i)\<lparr>revisedPriority := Some l\<rparr>]) < slack ps"
proof -
  have "slack (ps[i := q]) + nat (100 - rp (ps ! i)) = slack ps + nat (100 - rp q)" for q
    using assms(1) unfolding slack_def
  proof (induction ps arbitrary: i)
    case (Cons p ps)
    then show ?case by (cases i) auto
  qed simp
  from this[of "(ps ! i)\<lparr>revisedPriority := Some l\<rparr>"] assms show ?thesis by (simp add: rp_def)
qed

lemma same_objects_update:
  "same_objects ps qs \<Longrightarrow> same_objects (ps[i := (ps ! i)\<lparr>revisedPriority := l\<rparr>]) qs"
proof -
  have "map (\<lambda>p. (x_id p, x_product p)) (ps[i := (ps ! i)\<lparr>revisedPriority := l\<rparr>]) = map (\<lambda>p. (x_id p, x_product p)) ps"
    by (cases "i < length ps") (auto intro!: nth_equalityI simp: nth_list_update list_update_beyond)
  then show "same_objects ps qs \<Longrightarrow> ?thesis" by (simp add: same_objects_def)
qed

text \<open>What a group of pushes to one level does to the objects and to the flag.\<close>

definition pushes ::
  "(string, nat) dict \<Rightarrow> int \<Rightarrow> (string \<times> string) set \<Rightarrow> xclassified list \<Rightarrow> bool \<Rightarrow> xclassified list \<Rightarrow> bool \<Rightarrow> bool" where
  "pushes ids level A ps ch ps' ch' \<longleftrightarrow>
     (\<forall>p \<in> set ps'. in_levels p) \<and> same_objects ps' ps \<and> (ch \<longrightarrow> ch') \<and>
     (\<not> ch' \<longrightarrow> ps' = ps \<and> (\<forall>r \<in> A. \<forall>i. map_of ids (fst r) = Some i \<longrightarrow> level \<le> rp (ps ! i))) \<and>
     slack ps' \<le> slack ps \<and> (ch' \<and> \<not> ch \<longrightarrow> slack ps' < slack ps) \<and>
     (\<forall>i < length ps. rp (ps ! i) \<le> rp (ps' ! i)) \<and>
     (\<forall>i < length ps. rp (ps' ! i) = rp (ps ! i) \<or> (\<exists>r \<in> A. map_of ids (fst r) = Some i \<and> rp (ps' ! i) = level))"

lemma pushes_refl: "\<forall>p \<in> set ps. in_levels p \<Longrightarrow> pushes ids level {} ps ch ps ch"
  by (simp add: pushes_def same_objects_def)

lemma pushes_trans:
  assumes "pushes ids level A ps ch ps1 ch1" and "pushes ids level B ps1 ch1 ps2 ch2"
  shows "pushes ids level (A \<union> B) ps ch ps2 ch2"
proof -
  have so: "same_objects ps1 ps" "same_objects ps2 ps1" and so2: "same_objects ps2 ps"
    using assms unfolding pushes_def same_objects_def by simp_all
  have "rp (ps2 ! i) = rp (ps ! i) \<or> (\<exists>r \<in> A \<union> B. map_of ids (fst r) = Some i \<and> rp (ps2 ! i) = level)"
    if "i < length ps" for i
    using assms that same_objects_length[OF so(1)] unfolding pushes_def by (metis Un_iff)
  moreover have "slack ps2 \<le> slack ps" "ch2 \<and> \<not> ch \<longrightarrow> slack ps2 < slack ps"
    using assms unfolding pushes_def by (linarith, metis le_less_trans less_le_trans)
  moreover have "rp (ps ! i) \<le> rp (ps2 ! i)" if "i < length ps" for i
    using assms that same_objects_length[OF so(1)] unfolding pushes_def by (metis order_trans)
  ultimately show ?thesis
    using assms so2 unfolding pushes_def by blast
qed

lemma push_requ_pushes:
  assumes "\<forall>p \<in> set ps. in_levels p" and "BOTTOM \<le> level" "level \<le> 100"
    and "\<forall>a i. map_of ids a = Some i \<longrightarrow> i < length ps"
  shows "\<exists>ps' ch' rm'. push_requ ids level r (ps, ch, rm) = (ps', ch', rm') \<and> pushes ids level {r} ps ch ps' ch' \<and>
     set rm' \<subseteq> set rm \<union> (if map_of ids (fst r) = None then {r} else {})"
proof (cases "map_of ids (fst r)")
  case None
  then show ?thesis using assms(1) by (simp add: push_requ_def pushes_def same_objects_def)
next
  case (Some i)
  then have i: "i < length ps" using assms(4) by blast
  then have lv: "revisedPriority (ps ! i) = Some (rp (ps ! i))" using assms(1) in_levels_rp by auto
  show ?thesis
  proof (cases "rp (ps ! i) < level")
    case True
    let ?q = "(ps ! i)\<lparr>revisedPriority := Some level\<rparr>"
    have "in_levels ?q" using assms(2,3) by (simp add: in_levels_def)
    then have "\<forall>p \<in> set (ps[i := ?q]). in_levels p" using assms(1) set_update_subset_insert by fastforce
    moreover have "slack (ps[i := ?q]) < slack ps" using slack_update_less[OF i True assms(3)] .
    moreover have "same_objects (ps[i := ?q]) ps" using same_objects_update[of ps ps] by (simp add: same_objects_def)
    moreover have "rp (ps[i := ?q] ! x) = rp (ps ! x) \<or> x = i \<and> rp (ps[i := ?q] ! x) = level" if "x < length ps" for x
      using that i by (cases "x = i") (simp_all add: rp_def)
    moreover have "rp (ps ! x) \<le> rp (ps[i := ?q] ! x)" if "x < length ps" for x
      using that i True by (cases "x = i") (simp_all add: rp_def)
    ultimately have "pushes ids level {r} ps ch (ps[i := ?q]) True"
      using Some unfolding pushes_def by simp blast
    then show ?thesis using Some lv True by (auto simp: push_requ_def intro!: exI[of _ True])
  next
    case False
    then show ?thesis using Some lv assms(1) by (simp add: push_requ_def pushes_def same_objects_def)
  qed
qed

lemma push_requs_pushes:
  assumes "\<forall>p \<in> set ps. in_levels p" and "BOTTOM \<le> level" "level \<le> 100"
    and "\<forall>a i. map_of ids a = Some i \<longrightarrow> i < length ps"
  shows "\<exists>ps' ch' rm'. foldl (\<lambda>st r. push_requ ids level r st) (ps, ch, rm) rs = (ps', ch', rm') \<and>
     pushes ids level (set rs) ps ch ps' ch' \<and> set rm' \<subseteq> set rm \<union> {r \<in> set rs. map_of ids (fst r) = None}"
  using assms(1,4)
proof (induction rs arbitrary: ps ch rm)
  case Nil
  then show ?case by (simp add: pushes_refl)
next
  case (Cons r rs)
  obtain ps1 ch1 rm1 where 1: "push_requ ids level r (ps, ch, rm) = (ps1, ch1, rm1)"
    "pushes ids level {r} ps ch ps1 ch1" "set rm1 \<subseteq> set rm \<union> (if map_of ids (fst r) = None then {r} else {})"
    using push_requ_pushes[OF Cons.prems(1) assms(2,3) Cons.prems(2), where r = r and ch = ch and rm = rm] by blast
  have p1: "\<forall>p \<in> set ps1. in_levels p" and "same_objects ps1 ps"
    using 1(2) by (simp_all add: pushes_def)
  then have "length ps1 = length ps" using same_objects_length by blast
  then have ids1: "\<forall>a i. map_of ids a = Some i \<longrightarrow> i < length ps1" using Cons.prems(2) by simp
  from Cons.IH[where ps = ps1 and ch = ch1 and rm = rm1, OF p1 ids1] obtain ps2 ch2 rm2 where
    2: "foldl (\<lambda>st r. push_requ ids level r st) (ps1, ch1, rm1) rs = (ps2, ch2, rm2)"
    "pushes ids level (set rs) ps1 ch1 ps2 ch2" "set rm2 \<subseteq> set rm1 \<union> {r \<in> set rs. map_of ids (fst r) = None}"
    by blast
  have "pushes ids level (set (r # rs)) ps ch ps2 ch2" using pushes_trans[OF 1(2) 2(2)] by simp
  moreover have "set rm2 \<subseteq> set rm \<union> {r' \<in> set (r # rs). map_of ids (fst r') = None}"
    using 1(3) 2(3) by (auto split: if_splits)
  ultimately show ?case using 1(1) 2(1) by simp
qed

lemma set_remove_all:
  "set (foldl (\<lambda>l r. remove1 r l) rs rm) \<subseteq> set rs"
  "x \<in> set rs \<Longrightarrow> x \<notin> set rm \<Longrightarrow> x \<in> set (foldl (\<lambda>l r. remove1 r l) rs rm)"
proof (induction rm arbitrary: rs)
  case (Cons r rm)
  {
    case 1
    then show ?case using Cons.IH(1)[of "remove1 r rs"] set_remove1_subset[of r rs] by auto
  next
    case 2
    then show ?case using Cons.IH(2)[of "remove1 r rs"] by simp
  }
qed simp_all

text \<open>
  The invariant of a sweep that started with the objects \<open>ps0\<close> and the requirements \<open>R\<close>. Every
  revised priority is one a transitive dependant had at the start.
\<close>

definition available_requs :: "xclassified list \<Rightarrow> (string \<times> string) set \<Rightarrow> (string \<times> string) set" where
  "available_requs ps R = {(a, b) \<in> R. a \<in> x_id ` set ps \<and> b \<in> x_id ` set ps}"

definition sw_inv :: "xclassified list \<Rightarrow> (string \<times> string) set \<Rightarrow> sweep \<Rightarrow> bool" where
  "sw_inv ps0 R s \<longleftrightarrow>
     (\<forall>p \<in> set (sw_products s). in_levels p) \<and> same_objects (sw_products s) ps0 \<and>
     slack (sw_products s) \<le> slack ps0 \<and> (sw_changed s \<longrightarrow> slack (sw_products s) < slack ps0) \<and>
     (\<not> sw_changed s \<longrightarrow> sw_products s = ps0) \<and>
     (\<forall>b. set (dict_list (sw_requs s) b) \<subseteq> {r \<in> R. snd r = b}) \<and>
     (\<forall>(a, b) \<in> R. a \<in> x_id ` set ps0 \<longrightarrow> (a, b) \<in> set (dict_list (sw_requs s) b)) \<and>
     (\<forall>i < length ps0. rp (ps0 ! i) \<le> rp (sw_products s ! i)) \<and>
     (\<forall>i < length ps0. \<exists>j < length ps0. (x_id (ps0 ! i), x_id (ps0 ! j)) \<in> (available_requs ps0 R)\<^sup>* \<and>
        rp (sw_products s ! i) = rp (ps0 ! j))"

lemma sw_invD:
  assumes "sw_inv ps0 R s"
  shows "\<forall>p \<in> set (sw_products s). in_levels p" and "same_objects (sw_products s) ps0"
    and "slack (sw_products s) \<le> slack ps0" and "sw_changed s \<longrightarrow> slack (sw_products s) < slack ps0"
    and "\<not> sw_changed s \<longrightarrow> sw_products s = ps0"
    and "\<forall>b. set (dict_list (sw_requs s) b) \<subseteq> {r \<in> R. snd r = b}"
    and "\<forall>(a, b) \<in> R. a \<in> x_id ` set ps0 \<longrightarrow> (a, b) \<in> set (dict_list (sw_requs s) b)"
    and "\<forall>i < length ps0. rp (ps0 ! i) \<le> rp (sw_products s ! i)"
    and "\<forall>i < length ps0. \<exists>j < length ps0. (x_id (ps0 ! i), x_id (ps0 ! j)) \<in> (available_requs ps0 R)\<^sup>* \<and>
        rp (sw_products s ! i) = rp (ps0 ! j)"
  by (insert assms[unfolded sw_inv_def], (elim conjE, assumption)+)

definition requ_met :: "xclassified list \<Rightarrow> (string \<times> string) set \<Rightarrow> nat \<Rightarrow> bool" where
  "requ_met ps R i \<longleftrightarrow>
     (\<forall>a k. (a, x_id (ps ! i)) \<in> R \<and> map_of (fId2Prod ps) a = Some k \<longrightarrow> rp (ps ! i) \<le> rp (ps ! k))"

text \<open>Pushing the products one product depends on, from the level it has at the start.\<close>

lemma push_product_inv:
  assumes inv: "sw_inv ps0 R s" and i: "i < length ps0" and lv0: "in_levels (ps0 ! i)"
  defines "t \<equiv> push_product (fId2Prod ps0) (rp (ps0 ! i)) i s"
  shows "sw_inv ps0 R t \<and> (sw_changed s \<longrightarrow> sw_changed t) \<and> (\<not> sw_changed t \<longrightarrow> requ_met ps0 R i)"
proof -
  note I = sw_invD[OF inv]
  let ?ids = "fId2Prod ps0" and ?level = "rp (ps0 ! i)" and ?b = "x_id (ps0 ! i)"
  have idi: "x_id (sw_products s ! i) = ?b" using same_objects_id[OF I(2) i] .
  have avail: "a \<in> x_id ` set ps0" if "map_of ?ids a = Some k" for a k
    using fId2Prod_dom[of ps0 a] that by simp
  show ?thesis
  proof (cases "map_of (sw_requs s) ?b")
    case None
    then have "t = s" using idi by (simp add: t_def push_product_def)
    moreover have "(a, ?b) \<notin> R" if "map_of ?ids a = Some k" for a k
      using I(7) avail[OF that] None by (force simp: dict_list_def)
    ultimately show ?thesis using inv by (auto simp: requ_met_def)
  next
    case (Some rs)
    have ids: "\<forall>a k. map_of ?ids a = Some k \<longrightarrow> k < length (sw_products s)"
      using fId2Prod_sound same_objects_length[OF I(2)] by metis
    have lv: "BOTTOM \<le> ?level" "?level \<le> 100" using in_levels_rp[OF lv0] by simp_all
    obtain ps' ch' rm where push: "foldl (\<lambda>st r. push_requ ?ids ?level r st) (sw_products s, sw_changed s, []) rs = (ps', ch', rm)"
      "pushes ?ids ?level (set rs) (sw_products s) (sw_changed s) ps' ch'"
      "set rm \<subseteq> set [] \<union> {r \<in> set rs. map_of ?ids (fst r) = None}"
      using push_requs_pushes[OF I(1) lv ids, where ch = "sw_changed s" and rm = "[]" and rs = rs] by blast
    let ?rs' = "foldl (\<lambda>l r. remove1 r l) rs rm"
    have t: "t = \<lparr>sw_products = ps', sw_requs = AList.update ?b ?rs' (sw_requs s), sw_changed = ch'\<rparr>"
      using Some push(1) idi by (simp add: t_def push_product_def)
    note P = push(2)[unfolded pushes_def]
    have rs: "set rs \<subseteq> {r \<in> R. snd r = ?b}" using I(6)[rule_format, of ?b] Some by (simp add: dict_list_def)
    have so: "same_objects ps' ps0" using P I(2) unfolding same_objects_def by simp
    have requs: "set (dict_list (sw_requs t) b) \<subseteq> {r \<in> R. snd r = b}" for b
      using I(6) set_remove_all(1)[of rs rm] rs by (auto simp: t dict_list_def)
    have keep: "(a, b) \<in> set (dict_list (sw_requs t) b)" if "(a, b) \<in> R" "a \<in> x_id ` set ps0" for a b
    proof -
      have "(a, b) \<in> set (dict_list (sw_requs s) b)" using I(7) that by auto
      moreover have "(a, b) \<notin> set rm" using push(3) fId2Prod_dom[of ps0 a] that(2) by auto
      ultimately show ?thesis
        using set_remove_all(2)[of "(a, b)" rs rm] Some by (auto simp: t dict_list_def)
    qed
    have mono: "rp (ps0 ! k) \<le> rp (ps' ! k)" if "k < length ps0" for k
      using P I(8) that same_objects_length[OF I(2)] by (metis order_trans)
    have just: "\<exists>j < length ps0. (x_id (ps0 ! k), x_id (ps0 ! j)) \<in> (available_requs ps0 R)\<^sup>* \<and> rp (ps' ! k) = rp (ps0 ! j)"
      if k: "k < length ps0" for k
    proof -
      have "k < length (sw_products s)" using k same_objects_length[OF I(2)] by simp
      then consider "rp (ps' ! k) = rp (sw_products s ! k)"
        | r where "r \<in> set rs" "map_of ?ids (fst r) = Some k" "rp (ps' ! k) = ?level" using P by blast
      then show ?thesis
      proof cases
        case 1
        then show ?thesis using I(9) k by simp
      next
        case 2
        then have "x_id (ps0 ! k) = fst r" "r \<in> R" "snd r = ?b" using fId2Prod_sound rs by blast+
        then have "(x_id (ps0 ! k), ?b) \<in> R" by (metis prod.collapse)
        then have "(x_id (ps0 ! k), ?b) \<in> available_requs ps0 R" using k i by (simp add: available_requs_def)
        with 2(3) i show ?thesis by blast
      qed
    qed
    have "sw_inv ps0 R t"
      unfolding sw_inv_def using P I so requs keep mono just by (auto simp: t)
    moreover have "requ_met ps0 R i" if "\<not> ch'"
    proof -
      have ps: "sw_products s = ps0" using that P I(5) by auto
      have "?level \<le> rp (ps0 ! k)" if "(a, ?b) \<in> R" "map_of ?ids a = Some k" for a k
      proof -
        have "(a, ?b) \<in> set rs" using I(7) that avail[OF that(2)] Some by (fastforce simp: dict_list_def)
        then show ?thesis using P \<open>\<not> ch'\<close> that(2) ps by fastforce
      qed
      then show ?thesis by (auto simp: requ_met_def)
    qed
    ultimately show ?thesis using P by (auto simp: t)
  qed
qed

lemma foldl_nested:
  "foldl (\<lambda>s l. foldl (\<lambda>s i. f l i s) s (g l)) s ls = foldl (\<lambda>s (l, i). f l i s) s (concat (map (\<lambda>l. map (Pair l) (g l)) ls))"
proof (induction ls arbitrary: s)
  case (Cons l ls)
  have "foldl (\<lambda>s (l, i). f l i s) s (map (Pair l) xs) = foldl (\<lambda>s i. f l i s) s xs" for s xs
    by (induction xs arbitrary: s) auto
  with Cons show ?case by simp
qed simp

lemma sweep_run:
  assumes "sw_inv ps0 R s" and "\<forall>(l, i) \<in> set ag. i < length ps0 \<and> l = rp (ps0 ! i) \<and> in_levels (ps0 ! i)"
  defines "t \<equiv> foldl (\<lambda>s (l, i). push_product (fId2Prod ps0) l i s) s ag"
  shows "sw_inv ps0 R t \<and> (sw_changed s \<longrightarrow> sw_changed t) \<and> (\<not> sw_changed t \<longrightarrow> (\<forall>(l, i) \<in> set ag. requ_met ps0 R i))"
  using assms(1,2) unfolding t_def
proof (induction ag arbitrary: s)
  case (Cons x ag)
  obtain l i where x: "x = (l, i)" by force
  with Cons.prems have i: "i < length ps0" "l = rp (ps0 ! i)" "in_levels (ps0 ! i)" by auto
  let ?u = "push_product (fId2Prod ps0) l i s"
  have u: "sw_inv ps0 R ?u" "sw_changed s \<longrightarrow> sw_changed ?u" "\<not> sw_changed ?u \<longrightarrow> requ_met ps0 R i"
    using push_product_inv[OF Cons.prems(1) i(1,3)] i(2) by simp_all
  have "\<forall>(l, i) \<in> set ag. i < length ps0 \<and> l = rp (ps0 ! i) \<and> in_levels (ps0 ! i)" using Cons.prems(2) by simp
  from Cons.IH[OF u(1) this] u(2,3) show ?case unfolding x by auto
qed simp

lemma agenda_set:
  assumes "\<forall>p \<in> set ps. in_levels p"
  shows "set (concat (map (\<lambda>l. map (Pair l) (filter (\<lambda>i. rp (ps ! i) = l) [0..<length ps])) levels_up))
     = {(rp (ps ! i), i) | i. i < length ps}"
  using assms in_levels_rp by (fastforce simp: levels_up_def)

text \<open>
  A sweep raises priorities and reports whether it did; when it did not, every available
  requirement is met by the priorities.
\<close>

lemma modifySortingClasses_spec:
  assumes "\<forall>p \<in> set ps. in_levels p"
  shows "\<exists>qs ch. modifySortingClassesForAlgorithm1 ps reqs = Inr (qs, ch) \<and> (\<forall>p \<in> set qs. in_levels p) \<and>
     same_objects qs ps \<and> (ch \<longrightarrow> slack qs < slack ps) \<and>
     (\<not> ch \<longrightarrow> qs = ps \<and> (\<forall>i < length ps. requ_met ps (set reqs) i)) \<and>
     (\<forall>i < length ps. rp (ps ! i) \<le> rp (qs ! i)) \<and>
     (\<forall>i < length ps. \<exists>j < length ps. (x_id (ps ! i), x_id (ps ! j)) \<in> (available_requs ps (set reqs))\<^sup>* \<and>
        rp (qs ! i) = rp (ps ! j))"
proof -
  let ?lv = "\<lambda>l. filter (\<lambda>i. rp (ps ! i) = l) [0..<length ps]"
  let ?ag = "concat (map (\<lambda>l. map (Pair l) (?lv l)) levels_up)"
  let ?s = "\<lparr>sw_products = ps, sw_requs = group_by snd (\<lambda>r. r) reqs, sw_changed = False\<rparr>"
  let ?t = "foldl (\<lambda>s (l, i). push_product (fId2Prod ps) l i s) ?s ?ag"
  have ag: "set ?ag = {(rp (ps ! i), i) | i. i < length ps}" using agenda_set[OF assms] .
  have inv: "sw_inv ps (set reqs) ?s"
    using assms by (auto simp: sw_inv_def same_objects_def dict_list_group_by)
  have "modifySortingClassesForAlgorithm1 ps reqs = Inr (sw_products ?t, sw_changed ?t)"
    using assms by (simp add: modifySortingClassesForAlgorithm1_def fLevel2Prodlist_eq foldl_nested Let_def)
  moreover have "sw_inv ps (set reqs) ?t \<and> (\<not> sw_changed ?t \<longrightarrow> (\<forall>(l, i) \<in> set ?ag. requ_met ps (set reqs) i))"
    using sweep_run[OF inv, of ?ag] assms unfolding ag by auto
  ultimately show ?thesis unfolding ag using sw_invD[of ps "set reqs" ?t]
    by (intro exI[of _ "sw_products ?t"] exI[of _ "sw_changed ?t"]) auto
qed

lemma modifySortingClasses_error:
  "\<not> (\<forall>p \<in> set ps. in_levels p) \<Longrightarrow> modifySortingClassesForAlgorithm1 ps reqs = Inl SortKeyError"
  by (simp only: modifySortingClassesForAlgorithm1_def Let_def fLevel2Prodlist_eq if_False bindE_Inl)

lemma modifySortingClasses_slack:
  assumes "modifySortingClassesForAlgorithm1 ps reqs = Inr (qs, True)"
  shows "slack qs < slack ps"
proof -
  have "\<forall>p \<in> set ps. in_levels p"
    using assms modifySortingClasses_error[of ps reqs] by (cases "\<forall>p \<in> set ps. in_levels p") simp_all
  from modifySortingClasses_spec[OF this, of reqs] assms show ?thesis by auto
qed

subsection \<open>The loop and the algorithm\<close>

text \<open>\<open>while not ready\<close>: sweeps until nothing changes. Every changing sweep uses up slack.\<close>

function raise_priorities ::
  "(string \<times> string) list \<Rightarrow> xclassified list \<Rightarrow> (sort_error, xclassified list) result" where
  "raise_priorities reqs xs =
     (case modifySortingClassesForAlgorithm1 xs reqs of
        Inl e \<Rightarrow> Inl e
      | Inr (xs', changed) \<Rightarrow> if changed then raise_priorities reqs xs' else Inr xs')"
  by pat_completeness auto
termination
  by (relation "measure (\<lambda>(reqs, xs). slack xs)") (auto dest: modifySortingClasses_slack)

declare raise_priorities.simps [simp del]

text \<open>\<open>product.priority = product.revisedPriority\<close>; algorithm 2 reads the id and the priority.\<close>

definition as_product :: "xclassified \<Rightarrow> product" where
  "as_product x = (x_product x)\<lparr>p_id := x_id x, p_priority := revisedPriority x\<rparr>"

definition generateProductSequenceFromRequPairs_algorithm1 ::
  "product list \<Rightarrow> (string \<times> string) list \<Rightarrow> (sort_error, string list) result" where
  "generateProductSequenceFromRequPairs_algorithm1 availableProducts setupRequirements =
     bindE (raise_priorities setupRequirements (map new_xclassified availableProducts))
       (\<lambda>xs. generateProductSequenceFromRequPairs_algorithm2 (map as_product xs) setupRequirements)"

definition generateProductSequence_algorithm1 ::
  "product list \<Rightarrow> product_dependency list \<Rightarrow> (sort_error, string list) result" where
  "generateProductSequence_algorithm1 availableProducts productDependencies =
     generateProductSequenceFromRequPairs_algorithm1 availableProducts (getSetupRequirements productDependencies)"

end
