(* ===== verification/ProductSort.thy ===== *)
theory ProductSort
  imports ProductOrder
begin

text \<open>
  Correctness of the two sort algorithms: what the priorities become in algorithm 1, and that the
  list algorithm 2 returns holds every product once, higher priorities first, and meets every
  requirement within a priority, or that it raises because of a cycle.
\<close>

section \<open>Algorithm 1 raises every product to its dependants\<close>

lemma available_requs_same: "same_objects ys xs \<Longrightarrow> available_requs ys R = available_requs xs R"
proof -
  assume "same_objects ys xs"
  then have "map fst (map (\<lambda>p. (x_id p, x_product p)) ys) = map fst (map (\<lambda>p. (x_id p, x_product p)) xs)"
    by (simp only: same_objects_def)
  then have "x_id ` set ys = x_id ` set xs" by (simp flip: set_map add: comp_def)
  then show ?thesis by (simp add: available_requs_def)
qed

text \<open>The outcome of the loop: total for priorities within the levels, an error otherwise.\<close>

lemma raise_priorities_spec:
  assumes "\<forall>p \<in> set xs. in_levels p"
  shows "\<exists>ys. raise_priorities reqs xs = Inr ys \<and> (\<forall>p \<in> set ys. in_levels p) \<and> same_objects ys xs \<and>
     (\<forall>i < length ys. requ_met ys (set reqs) i) \<and> (\<forall>i < length xs. rp (xs ! i) \<le> rp (ys ! i)) \<and>
     (\<forall>i < length xs. \<exists>j < length xs. (x_id (xs ! i), x_id (xs ! j)) \<in> (available_requs xs (set reqs))\<^sup>* \<and>
        rp (ys ! i) = rp (xs ! j))"
  using assms
proof (induction reqs xs rule: raise_priorities.induct)
  case (1 reqs xs)
  obtain qs ch where m: "modifySortingClassesForAlgorithm1 xs reqs = Inr (qs, ch)" "\<forall>p \<in> set qs. in_levels p"
    "same_objects qs xs" "\<not> ch \<longrightarrow> qs = xs \<and> (\<forall>i < length xs. requ_met xs (set reqs) i)"
    "\<forall>i < length xs. rp (xs ! i) \<le> rp (qs ! i)"
    "\<forall>i < length xs. \<exists>j < length xs. (x_id (xs ! i), x_id (xs ! j)) \<in> (available_requs xs (set reqs))\<^sup>* \<and>
       rp (qs ! i) = rp (xs ! j)"
    using modifySortingClasses_spec[OF "1.prems", of reqs] by blast
  have len: "length qs = length xs" using same_objects_length[OF m(3)] .
  show ?case
  proof (cases ch)
    case False
    then have "raise_priorities reqs xs = Inr xs" using m(1,4) by (simp add: raise_priorities.simps[of reqs xs])
    then show ?thesis using False m(4,6) "1.prems" by (auto simp: same_objects_def)
  next
    case True
    have eq: "raise_priorities reqs xs = raise_priorities reqs qs"
      using m(1) True by (simp add: raise_priorities.simps[of reqs xs])
    obtain ys where y: "raise_priorities reqs qs = Inr ys" "\<forall>p \<in> set ys. in_levels p" "same_objects ys qs"
      "\<forall>i < length ys. requ_met ys (set reqs) i" "\<forall>i < length qs. rp (qs ! i) \<le> rp (ys ! i)"
      "\<forall>i < length qs. \<exists>j < length qs. (x_id (qs ! i), x_id (qs ! j)) \<in> (available_requs qs (set reqs))\<^sup>* \<and>
         rp (ys ! i) = rp (qs ! j)"
      using "1.IH"[OF m(1) refl True m(2)] by blast
    have "\<exists>j < length xs. (x_id (xs ! i), x_id (xs ! j)) \<in> (available_requs xs (set reqs))\<^sup>* \<and> rp (ys ! i) = rp (xs ! j)"
      if i: "i < length xs" for i
    proof -
      obtain k where k: "k < length xs" "(x_id (xs ! i), x_id (xs ! k)) \<in> (available_requs xs (set reqs))\<^sup>*"
        "rp (ys ! i) = rp (qs ! k)"
        using y(6) i len same_objects_id[OF m(3)] available_requs_same[OF m(3)] by auto
      with m(6) show ?thesis by (metis rtrancl_trans)
    qed
    moreover have "same_objects ys xs" using y(3) m(3) by (simp add: same_objects_def)
    moreover have "\<forall>i < length xs. rp (xs ! i) \<le> rp (ys ! i)" using m(5) y(5) len by (metis order_trans)
    ultimately show ?thesis using eq y by metis
  qed
qed

text \<open>A requirement that is met relates the priorities of its two products.\<close>

lemma distinct_nth_eq: "distinct (map f xs) \<Longrightarrow> i < length xs \<Longrightarrow> j < length xs \<Longrightarrow> f (xs ! i) = f (xs ! j) \<longleftrightarrow> i = j"
  by (metis length_map nth_eq_iff_index_eq nth_map)

lemma requ_met_chain:
  assumes "distinct (map x_id ys)" and "\<forall>i < length ys. requ_met ys R i"
    and "(a, b) \<in> (available_requs ys R)\<^sup>*" and "i < length ys" "x_id (ys ! i) = a" "j < length ys" "x_id (ys ! j) = b"
  shows "rp (ys ! j) \<le> rp (ys ! i)"
  using assms(3,6,7)
proof (induction arbitrary: j rule: rtrancl_induct)
  case base
  then show ?case using assms(1,4,5) distinct_nth_eq[of x_id ys i j] by auto
next
  case (step b c)
  then obtain k where k: "k < length ys" "x_id (ys ! k) = b" by (auto simp: available_requs_def in_set_conv_nth)
  have "map_of (fId2Prod ys) b = Some k"
  proof (cases "map_of (fId2Prod ys) b")
    case None
    with k show ?thesis using fId2Prod_dom[of ys b] by auto
  next
    case (Some l)
    with fId2Prod_sound[OF Some] k show ?thesis using distinct_nth_eq[OF assms(1), of k l] by simp
  qed
  then have "rp (ys ! j) \<le> rp (ys ! k)"
    using step assms(2) by (auto simp: requ_met_def available_requs_def)
  also have "\<dots> \<le> rp (ys ! i)" using step.IH k by blast
  finally show ?case .
qed

lemma raise_priorities_max:
  assumes "\<forall>p \<in> set xs. in_levels p" and dist: "distinct (map x_id xs)" and "raise_priorities reqs xs = Inr ys"
    and i: "i < length xs"
  shows "rp (ys ! i) = Max {rp (xs ! j) | j. j < length xs \<and>
           (x_id (xs ! i), x_id (xs ! j)) \<in> (available_requs xs (set reqs))\<^sup>*}"
    (is "_ = Max ?S")
proof -
  obtain y: "same_objects ys xs" "\<forall>i < length ys. requ_met ys (set reqs) i" "\<forall>i < length xs. rp (xs ! i) \<le> rp (ys ! i)"
    "\<forall>i < length xs. \<exists>j < length xs. (x_id (xs ! i), x_id (xs ! j)) \<in> (available_requs xs (set reqs))\<^sup>* \<and>
       rp (ys ! i) = rp (xs ! j)"
    using raise_priorities_spec[OF assms(1), of reqs] assms(3) by auto
  have len: "length ys = length xs" by (rule same_objects_length[OF y(1)])
  have ids: "x_id (ys ! j) = x_id (xs ! j)" if "j < length xs" for j using same_objects_id[OF y(1) that] .
  have "map x_id ys = map x_id xs" using len ids by (intro nth_equalityI) auto
  then have dy: "distinct (map x_id ys)" using dist by simp
  have "?S \<subseteq> (\<lambda>j. rp (xs ! j)) ` {..<length xs}" by auto
  then have fin: "finite ?S" by (rule finite_subset) simp
  have "rp (ys ! i) \<in> ?S" using y(4) i by blast
  moreover have "v \<le> rp (ys ! i)" if "v \<in> ?S" for v
  proof -
    from that obtain j where j: "v = rp (xs ! j)" "j < length xs"
      "(x_id (xs ! i), x_id (xs ! j)) \<in> (available_requs xs (set reqs))\<^sup>*" by blast
    then have "rp (ys ! j) \<le> rp (ys ! i)"
      using requ_met_chain[OF dy y(2), of "x_id (xs ! i)" "x_id (xs ! j)" i j] ids i len
        available_requs_same[OF y(1)] by simp
    with y(3) j show ?thesis by force
  qed
  ultimately show ?thesis using fin by (intro Max_eqI[symmetric]) auto
qed

section \<open>The tables of algorithm 2\<close>

definition prio_class :: "product list \<Rightarrow> int \<Rightarrow> string list" where
  "prio_class ps k = map p_id (filter (\<lambda>p. prio_or_zero p = k) ps)"

lemma class_tables_snoc: "class_tables_of (ps @ [p]) = add_to_class p (class_tables_of ps)"
  by (simp add: class_tables_of_def)

lemma class_tables_Nil: "class_tables_of [] = \<lparr>priorityClasses = [], productIndexInClass = [], productById = []\<rparr>"
  by (simp add: class_tables_of_def)

lemma tables_classes: "dict_list (priorityClasses (class_tables_of ps)) (str_int k) = prio_class ps k"
  by (induction ps rule: rev_induct)
    (auto simp: class_tables_snoc class_tables_Nil add_to_class_def Let_def prio_class_def dict_list_def[of "[]"])

lemma tables_classes_None:
  "map_of (priorityClasses (class_tables_of ps)) (str_int k) = None \<longleftrightarrow> prio_class ps k = []"
  by (induction ps rule: rev_induct)
    (auto simp: class_tables_snoc class_tables_Nil add_to_class_def Let_def prio_class_def dict_append_def)

lemma tables_classes_Some:
  "map_of (priorityClasses (class_tables_of ps)) (str_int k) = Some c \<Longrightarrow> c = prio_class ps k \<and> c \<noteq> []"
  using tables_classes[of ps k] tables_classes_None[of ps k] by (auto simp: dict_list_def)

lemma tables_byId:
  assumes "distinct (map p_id ps)"
  shows "map_of (productById (class_tables_of ps)) a = Some p \<longleftrightarrow> p \<in> set ps \<and> p_id p = a"
  using assms
proof (induction ps rule: rev_induct)
  case (snoc q ps)
  then have "p_id p \<noteq> p_id q" if "p \<in> set ps" for p using that by (force simp: image_iff)
  with snoc show ?case by (auto simp: class_tables_snoc add_to_class_def Let_def)
qed (simp add: class_tables_Nil)

lemma tables_index:
  assumes "distinct (map p_id ps)" and "p \<in> set ps"
  shows "\<exists>i. map_of (productIndexInClass (class_tables_of ps)) (p_id p) = Some i \<and>
     i < length (prio_class ps (prio_or_zero p)) \<and> prio_class ps (prio_or_zero p) ! i = p_id p"
  using assms
proof (induction ps rule: rev_induct)
  case (snoc q ps)
  have len: "length (dict_list (dict_append (str_int (prio_or_zero q)) (p_id q) (priorityClasses (class_tables_of ps)))
      (str_int (prio_or_zero q))) = Suc (length (prio_class ps (prio_or_zero q)))"
    by (simp add: tables_classes)
  show ?case
  proof (cases "p = q")
    case True
    then show ?thesis
      using len by (simp add: class_tables_snoc add_to_class_def Let_def prio_class_def nth_append)
  next
    case False
    with snoc.prems have "p \<in> set ps" by simp
    moreover have "p_id p \<noteq> p_id q" using snoc.prems(1) \<open>p \<in> set ps\<close> by (force simp: image_iff)
    ultimately have "p \<in> set ps" "p_id p \<noteq> p_id q" by simp_all
    with snoc obtain i where "map_of (productIndexInClass (class_tables_of ps)) (p_id p) = Some i"
      "i < length (prio_class ps (prio_or_zero p))" "prio_class ps (prio_or_zero p) ! i = p_id p" by auto
    then show ?thesis
      using \<open>p_id p \<noteq> p_id q\<close>
      by (intro exI[of _ i]) (auto simp: class_tables_snoc add_to_class_def Let_def prio_class_def nth_append)
  qed
qed simp

section \<open>The requirements of a class\<close>

definition class_requs :: "product list \<Rightarrow> (string \<times> string) list \<Rightarrow> int \<Rightarrow> (string \<times> string) set" where
  "class_requs ps reqs k = {(a, b) \<in> set reqs. a \<in> set (prio_class ps k) \<and> b \<in> set (prio_class ps k)}"

definition class_pos :: "product list \<Rightarrow> string \<Rightarrow> int" where
  "class_pos ps a = int (the (map_of (productIndexInClass (class_tables_of ps)) a))"

lemma class_pos:
  assumes "distinct (map p_id ps)" and "a \<in> set (prio_class ps k)"
  shows "0 \<le> class_pos ps a \<and> class_pos ps a < int (length (prio_class ps k)) \<and>
     prio_class ps k ! nat (class_pos ps a) = a"
proof -
  from assms(2) obtain p where "p \<in> set ps" "prio_or_zero p = k" "a = p_id p" by (auto simp: prio_class_def)
  with tables_index[OF assms(1), of p] show ?thesis by (auto simp: class_pos_def)
qed

lemma distinct_prio_class: "distinct (map p_id ps) \<Longrightarrow> distinct (prio_class ps k)"
  unfolding prio_class_def by (rule distinct_map_filter)

lemma requirementsByClasses_eq:
  assumes d: "distinct (map p_id ps)"
  shows "dict_list (requirementsByClasses (class_tables_of ps) reqs) (str_int k) =
     map (\<lambda>(a, b). (class_pos ps a, class_pos ps b))
       (filter (\<lambda>(a, b). a \<in> set (prio_class ps k) \<and> b \<in> set (prio_class ps k)) reqs)"
proof (induction reqs rule: rev_induct)
  case Nil
  show ?case by (simp add: requirementsByClasses_def dict_list_def)
next
  case (snoc r reqs)
  obtain a b where r: "r = (a, b)" by force
  have none: "map_of (productById (class_tables_of ps)) c = None \<longleftrightarrow> c \<notin> p_id ` set ps" for c
    using tables_byId[OF d, of c] by (cases "map_of (productById (class_tables_of ps)) c") (auto, metis imageI)
  have mem: "c \<in> set (prio_class ps k) \<longleftrightarrow> (\<exists>p. map_of (productById (class_tables_of ps)) c = Some p \<and> prio_or_zero p = k)" for c
    using tables_byId[OF d, of c] by (auto simp: prio_class_def)
  show ?case
    using snoc mem[of a] mem[of b]
    by (auto simp: r requirementsByClasses_def add_class_requirement_def class_pos_def split: option.splits)
qed

lemma acyclic_hom:
  assumes "\<forall>(a, b) \<in> R. (f a, f b) \<in> S" and "acyclic S"
  shows "acyclic R"
proof -
  have "(a, b) \<in> R\<^sup>+ \<Longrightarrow> (f a, f b) \<in> S\<^sup>+" for a b
    by (induction rule: trancl_induct) (use assms(1) in \<open>auto intro: trancl_into_trancl\<close>)
  then show ?thesis using assms(2) unfolding acyclic_def by blast
qed

text \<open>What the emitted list of a class must be.\<close>

definition class_spec :: "product list \<Rightarrow> (string \<times> string) list \<Rightarrow> int \<Rightarrow> string list \<Rightarrow> bool" where
  "class_spec ps reqs k ys \<longleftrightarrow> distinct ys \<and> set ys = set (prio_class ps k) \<and>
     (\<forall>(a, b) \<in> class_requs ps reqs k. precedes ys a b)"

lemma order_class_names:
  fixes k :: int and reqs :: "(string \<times> string) list"
  assumes d: "distinct (map p_id ps)"
  defines "n \<equiv> length (prio_class ps k)"
    and "rqs \<equiv> dict_list (requirementsByClasses (class_tables_of ps) reqs) (str_int k)"
  shows "(\<exists>xs. order_class n rqs = Inr xs \<and> class_spec ps reqs k (map (\<lambda>i. prio_class ps k ! nat i) xs) \<and>
       acyclic (class_requs ps reqs k)) \<or>
     (\<exists>es. order_class n rqs = Inl (OpsiProductOrderingError es) \<and> \<not> acyclic (class_requs ps reqs k))"
proof -
  let ?c = "prio_class ps k" and ?R = "class_requs ps reqs k"
  let ?nm = "\<lambda>i. ?c ! nat i"
  have rqs: "set rqs = (\<lambda>(a, b). (class_pos ps a, class_pos ps b)) ` ?R"
    by (auto simp: rqs_def requirementsByClasses_eq[OF d] class_requs_def)
  have pos: "0 \<le> class_pos ps a \<and> class_pos ps a < int n \<and> ?nm (class_pos ps a) = a" if "a \<in> set ?c" for a
    using class_pos[OF d that] by (simp add: n_def)
  have Rc: "a \<in> set ?c \<and> b \<in> set ?c" if "(a, b) \<in> ?R" for a b using that by (simp add: class_requs_def)
  have range: "\<forall>(a, b) \<in> set rqs. 0 \<le> a \<and> a < int n \<and> 0 \<le> b \<and> b < int n"
    unfolding rqs using pos Rc by fastforce
  have hom1: "\<forall>(i, j) \<in> set rqs. (?nm i, ?nm j) \<in> ?R"
    unfolding rqs using pos Rc by force
  have hom2: "\<forall>(a, b) \<in> ?R. (class_pos ps a, class_pos ps b) \<in> set rqs" unfolding rqs by auto
  have ac: "acyclic (set rqs) \<longleftrightarrow> acyclic ?R" using acyclic_hom[OF hom1] acyclic_hom[OF hom2] by blast
  have inj: "inj_on ?nm (int ` {0..<n})"
    using distinct_prio_class[OF d, of k] by (auto simp: inj_on_def n_def nth_eq_iff_index_eq)
  from order_class_cases[OF range] show ?thesis
  proof (elim disjE exE conjE)
    fix xs assume xs: "order_class n rqs = Inr xs" "class_order n (set rqs) xs" "acyclic (set rqs)"
    note C = xs(2)[unfolded class_order_def]
    have "set (map ?nm xs) = set ?c"
    proof -
      have "set (map ?nm xs) = (\<lambda>i. ?c ! i) ` {0..<length ?c}" using C by (simp add: n_def image_image)
      also have "\<dots> = set ?c" using set_conv_nth[of ?c] by auto
      finally show ?thesis .
    qed
    moreover have "distinct (map ?nm xs)" using C inj by (simp add: distinct_map)
    moreover have "precedes (map ?nm xs) a b" if "(a, b) \<in> ?R" for a b
    proof -
      have "precedes xs (class_pos ps a) (class_pos ps b)" using C hom2 that by blast
      then have "precedes (map ?nm xs) (?nm (class_pos ps a)) (?nm (class_pos ps b))"
        using inj C by (intro precedes_map) simp_all
      then show ?thesis using pos Rc[OF that] by simp
    qed
    ultimately show ?thesis using xs(1,3) ac by (auto simp: class_spec_def)
  qed (use ac in auto)
qed

section \<open>Algorithm 2 over all priorities\<close>

definition done_ok :: "product list \<Rightarrow> (string \<times> string) list \<Rightarrow> int set \<Rightarrow> (string, int list) dict \<Rightarrow> bool" where
  "done_ok ps reqs K ords \<longleftrightarrow>
     (\<forall>k \<in> K. class_spec ps reqs k (emit_class (class_tables_of ps) ords (str_int k)) \<and> acyclic (class_requs ps reqs k)) \<and>
     (\<forall>k. k \<notin> K \<longrightarrow> map_of ords (str_int k) = None)"

lemma emit_class_cong:
  "map_of ords k = map_of ords' k \<Longrightarrow> emit_class t ords k = emit_class t ords' k"
  by (simp add: emit_class_def)

text \<open>One priority.\<close>

lemma order_priority_step:
  fixes found :: "string list"
  assumes d: "distinct (map p_id ps)" and K: "done_ok ps reqs K ords" "k \<notin> K"
  defines "r \<equiv> order_priority (class_tables_of ps) (requirementsByClasses (class_tables_of ps) reqs) k (found, ords)"
  shows "(\<exists>ords'. r = Inr (found @ (if prio_class ps k = [] then [] else [str_int k]), ords') \<and>
       done_ok ps reqs (insert k K) ords') \<or>
     (\<exists>es. r = Inl (OrderingConflict es) \<and> \<not> acyclic (class_requs ps reqs k))"
proof -
  let ?t = "class_tables_of ps" and ?rbc = "requirementsByClasses (class_tables_of ps) reqs" and ?c = "prio_class ps k"
  have ext: "done_ok ps reqs (insert k K) ords'"
    if "\<forall>k'. k' \<noteq> k \<longrightarrow> map_of ords' (str_int k') = map_of ords (str_int k')"
      "class_spec ps reqs k (emit_class ?t ords' (str_int k))" "acyclic (class_requs ps reqs k)" for ords'
  proof -
    have "emit_class ?t ords' (str_int k') = emit_class ?t ords (str_int k')" if "k' \<in> K" for k'
      using that K(2) \<open>\<forall>k'. k' \<noteq> k \<longrightarrow> _\<close> by (intro emit_class_cong) metis
    then show ?thesis using that K by (auto simp: done_ok_def)
  qed
  have none: "map_of ords (str_int k) = None" using K by (simp add: done_ok_def)
  consider "?c = []" | "?c \<noteq> []" "map_of ?rbc (str_int k) = None" | rqs where "?c \<noteq> []" "map_of ?rbc (str_int k) = Some rqs"
    by fastforce
  then show ?thesis
  proof cases
    case 1
    then have "map_of (priorityClasses ?t) (str_int k) = None" by (simp only: tables_classes_None)
    then have "r = Inr (found, ords)" by (simp add: r_def order_priority_def Let_def)
    moreover have "class_requs ps reqs k = {}" using 1 by (auto simp: class_requs_def)
    moreover have "emit_class ?t ords (str_int k) = []" using none 1 by (simp add: emit_class_def tables_classes)
    ultimately show ?thesis using ext[of ords] 1 by (simp add: class_spec_def acyclic_def)
  next
    case 2
    have "map_of (priorityClasses ?t) (str_int k) = Some ?c"
      using 2(1) tables_classes_None[of ps k] tables_classes_Some[of ps k] by (cases "map_of (priorityClasses ?t) (str_int k)") auto
    then have "r = Inr (found @ [str_int k], ords)" using 2 by (simp add: r_def order_priority_def Let_def)
    moreover have "class_requs ps reqs k = {}"
    proof -
      have "filter (\<lambda>(a, b). a \<in> set ?c \<and> b \<in> set ?c) reqs = []"
        using 2(2) requirementsByClasses_eq[OF d, of reqs k] by (simp add: dict_list_def)
      then show ?thesis by (auto simp: class_requs_def filter_empty_conv)
    qed
    moreover have "emit_class ?t ords (str_int k) = ?c" using none by (simp add: emit_class_def tables_classes)
    ultimately show ?thesis using ext[of ords] 2 distinct_prio_class[OF d] by (simp add: class_spec_def acyclic_def)
  next
    case (3 rqs)
    have cl: "map_of (priorityClasses ?t) (str_int k) = Some ?c"
      using 3(1) tables_classes_None[of ps k] tables_classes_Some[of ps k] by (cases "map_of (priorityClasses ?t) (str_int k)") auto
    have rqs: "dict_list ?rbc (str_int k) = rqs" using 3(2) by (simp add: dict_list_def)
    from order_class_names[OF d, where k = k and reqs = reqs] show ?thesis unfolding rqs
    proof (elim disjE exE conjE)
      fix xs assume xs: "order_class (length ?c) rqs = Inr xs" "class_spec ps reqs k (map (\<lambda>i. ?c ! nat i) xs)"
        "acyclic (class_requs ps reqs k)"
      have "r = Inr (found @ [str_int k], AList.update (str_int k) xs ords)"
        using 3 cl xs(1) by (simp add: r_def order_priority_def Let_def)
      moreover have "emit_class ?t (AList.update (str_int k) xs ords) (str_int k) = map (\<lambda>i. ?c ! nat i) xs"
        by (simp add: emit_class_def tables_classes)
      ultimately show ?thesis using ext[of "AList.update (str_int k) xs ords"] xs(2,3) 3(1) by simp
    next
      fix es assume "order_class (length ?c) rqs = Inl (OpsiProductOrderingError es)" "\<not> acyclic (class_requs ps reqs k)"
      then show ?thesis using 3 cl by (simp add: r_def order_priority_def Let_def)
    qed
  qed
qed

lemma order_priorities:
  fixes found :: "string list"
  assumes d: "distinct (map p_id ps)" and "done_ok ps reqs K ords" "set ks \<inter> K = {}" "distinct ks"
  defines "r \<equiv> foldE (order_priority (class_tables_of ps) (requirementsByClasses (class_tables_of ps) reqs)) ks (found, ords)"
  shows "(\<exists>ords'. r = Inr (found @ map str_int (filter (\<lambda>k. prio_class ps k \<noteq> []) ks), ords') \<and> done_ok ps reqs (set ks \<union> K) ords') \<or>
     (\<exists>es. r = Inl (OrderingConflict es) \<and> (\<exists>k \<in> set ks. \<not> acyclic (class_requs ps reqs k)))"
  using assms(2-4) unfolding r_def
proof (induction ks arbitrary: found ords K)
  case (Cons k ks)
  let ?f = "order_priority (class_tables_of ps) (requirementsByClasses (class_tables_of ps) reqs)"
  have "k \<notin> K" using Cons.prems(2) by simp
  from order_priority_step[OF d Cons.prems(1) this, where found = found] show ?case
  proof (elim disjE exE conjE)
    fix ords'
    let ?fd = "found @ (if prio_class ps k = [] then [] else [str_int k])"
    assume s: "?f k (found, ords) = Inr (?fd, ords')" and ok: "done_ok ps reqs (insert k K) ords'"
    have "set ks \<inter> insert k K = {}" "distinct ks" using Cons.prems by auto
    from Cons.IH[OF ok this, of ?fd] s show ?thesis by auto
  qed auto
qed simp

text \<open>Concatenating lists with disjoint elements keeps the order within and across them.\<close>

lemma precedes_concat_within:
  assumes "ys \<in> set yss" and "precedes ys a b" and "\<forall>zs \<in> set yss. b \<in> set zs \<longrightarrow> zs = ys"
  shows "precedes (concat yss) a b"
  using assms
proof (induction yss)
  case (Cons zs yss)
  show ?case
  proof (cases "zs = ys")
    case True
    then show ?thesis using Cons.prems(2) by (simp add: precedes_append_left)
  next
    case False
    then have "b \<notin> set zs" using Cons.prems(3) by auto
    then show ?thesis using Cons False by (simp add: precedes_append_right)
  qed
qed simp

lemma precedes_concat_across:
  assumes "sorted_wrt (>) (ks :: int list)" and "k \<in> set ks" "a \<in> set (g k)" "l \<in> set ks" "b \<in> set (g l)" "l < k"
    and "\<forall>k \<in> set ks. b \<in> set (g k) \<longrightarrow> k = l"
  shows "precedes (concat (map g ks)) a b"
  using assms
proof (induction ks)
  case Nil
  from Nil.prems(2) show ?case by simp
next
  case (Cons m ks)
  show ?case
  proof (cases "m = k")
    case True
    then have "l \<in> set ks" using Cons.prems(4,6) by auto
    moreover have "b \<notin> set (g m)" using Cons.prems(6,7) True by auto
    moreover have "b \<in> set (concat (map g ks))" using \<open>l \<in> set ks\<close> Cons.prems(5) by auto
    ultimately show ?thesis using Cons.prems(3) True by (simp add: precedes_append_across)
  next
    case False
    then have "k \<in> set ks" using Cons.prems(2) by simp
    then have "l \<in> set ks" using Cons.prems(1,4,6) by force
    moreover have "m \<noteq> l" using Cons.prems(1,4) \<open>l \<in> set ks\<close> by auto
    then have "b \<notin> set (g m)" using Cons.prems(7) by auto
    moreover have "precedes (concat (map g ks)) a b"
    proof (rule Cons.IH)
      show "sorted_wrt (>) ks" using Cons.prems(1) by simp
      show "\<forall>k \<in> set ks. b \<in> set (g k) \<longrightarrow> k = l" using Cons.prems(7) by (metis list.set_intros(2))
    qed (fact \<open>k \<in> set ks\<close> \<open>l \<in> set ks\<close> Cons.prems)+
    ultimately show ?thesis by (simp add: precedes_append_right)
  qed
qed

section \<open>Properties of the sort\<close>

definition available :: "product list \<Rightarrow> string set" where
  "available ps = {p_id p | p. p \<in> set ps \<and> prio_or_zero p \<in> {BOTTOM..100}}"

text \<open>The sorted list: every available product once, higher priority first, requirements met.\<close>

definition sorted_products :: "product list \<Rightarrow> (string \<times> string) list \<Rightarrow> string list \<Rightarrow> bool" where
  "sorted_products ps reqs xs \<longleftrightarrow> distinct xs \<and> set xs = available ps \<and>
     (\<forall>p q. p \<in> set ps \<and> q \<in> set ps \<and> p_id p \<in> available ps \<and> p_id q \<in> available ps \<and>
        (prio_or_zero p > prio_or_zero q \<or> (p_id p, p_id q) \<in> set reqs \<and> prio_or_zero p = prio_or_zero q)
        \<longrightarrow> precedes xs (p_id p) (p_id q))"

lemma algorithm2_cases:
  assumes d: "distinct (map p_id ps)"
  shows "(\<exists>xs. generateProductSequenceFromRequPairs_algorithm2 ps reqs = Inr xs \<and> sorted_products ps reqs xs \<and>
       (\<forall>k \<in> {BOTTOM..100}. acyclic (class_requs ps reqs k))) \<or>
     (\<exists>es. generateProductSequenceFromRequPairs_algorithm2 ps reqs = Inl (OrderingConflict es) \<and>
       (\<exists>k \<in> {BOTTOM..100}. \<not> acyclic (class_requs ps reqs k)))"
proof -
  define ks where "ks = filter (\<lambda>k. prio_class ps k \<noteq> []) levels_down"
  let ?t = "class_tables_of ps"
  have lv: "set levels_down = {BOTTOM..100}" "distinct levels_down" "sorted_wrt (>) levels_down"
    by (simp_all add: levels_down_def sorted_wrt_rev)
  have ok: "done_ok ps reqs {} []" by (simp add: done_ok_def)
  have uniq: "prio_or_zero p = k" if "p \<in> set ps" "p_id p \<in> set (prio_class ps k)" for p k
    using that d by (auto simp: prio_class_def distinct_map dest: inj_onD)
  from order_priorities[OF d ok Int_empty_right lv(2), of "[]", folded ks_def] show ?thesis
  proof (elim disjE exE conjE)
    fix ords
    assume r: "foldE (order_priority ?t (requirementsByClasses ?t reqs)) levels_down ([], []) = Inr ([] @ map str_int ks, ords)"
      and ok': "done_ok ps reqs (set levels_down \<union> {}) ords"
    define g where "g = (\<lambda>k. emit_class ?t ords (str_int k))"
    let ?xs = "concat (map g ks)"
    have gF: "distinct (g k)" "set (g k) = set (prio_class ps k)" "\<forall>(a, b) \<in> class_requs ps reqs k. precedes (g k) a b"
      "acyclic (class_requs ps reqs k)" if "k \<in> {BOTTOM..100}" for k
      using ok' that lv(1) by (auto simp: done_ok_def class_spec_def g_def)
    have eq: "generateProductSequenceFromRequPairs_algorithm2 ps reqs = Inr ?xs"
      using r by (simp add: generateProductSequenceFromRequPairs_algorithm2_def comp_def g_def)
    have ksF: "set ks \<subseteq> {BOTTOM..100}" "sorted_wrt (>) ks"
      using lv(1) sorted_wrt_filter[OF lv(3)] unfolding ks_def by (simp_all only: set_filter) blast
    have disj: "k = l" if "a \<in> set (prio_class ps k)" "a \<in> set (prio_class ps l)" for a k l
    proof -
      from that(1) obtain p where "p \<in> set ps" "prio_or_zero p = k" "p_id p = a" by (auto simp: prio_class_def)
      with uniq[of p l] that(2) show ?thesis by blast
    qed
    have mem: "k \<in> set ks \<and> p_id p \<in> set (g k)" if "p \<in> set ps" "prio_or_zero p = k" "p_id p \<in> available ps" for p k
    proof -
      have in_c: "p_id p \<in> set (prio_class ps k)" using that by (auto simp: prio_class_def)
      from that(3) obtain q where "q \<in> set ps" "p_id q = p_id p" "prio_or_zero q \<in> {BOTTOM..100}" by (auto simp: available_def)
      then have "k \<in> {BOTTOM..100}" using uniq[of q k] in_c by simp
      moreover have "k \<in> set ks" using in_c lv(1) calculation by (auto simp: ks_def)
      ultimately show ?thesis using in_c gF(2) by blast
    qed
    have "set ?xs = available ps"
    proof
      show "available ps \<subseteq> set ?xs"
      proof
        fix a assume a: "a \<in> available ps"
        then obtain p where "p \<in> set ps" "p_id p = a" by (auto simp: available_def)
        with mem[of p] a show "a \<in> set ?xs" by auto
      qed
      show "set ?xs \<subseteq> available ps"
      proof
        fix a assume "a \<in> set ?xs"
        then obtain k where k: "k \<in> set ks" "a \<in> set (g k)" by auto
        then have "k \<in> {BOTTOM..100}" using ksF(1) by blast
        with k gF(2) show "a \<in> available ps" by (auto simp: prio_class_def available_def)
      qed
    qed
    moreover have "distinct ?xs"
    proof (rule distinct_concat)
      show "distinct (map g ks)"
        unfolding distinct_map
      proof
        show "distinct ks" using lv(2) unfolding ks_def by (rule distinct_filter)
        show "inj_on g (set ks)"
        proof (rule inj_onI)
          fix k l assume kl: "k \<in> set ks" "l \<in> set ks" "g k = g l"
          then have kr: "k \<in> {BOTTOM..100}" "l \<in> {BOTTOM..100}" using ksF(1) by blast+
          have "set (prio_class ps k) = set (prio_class ps l)" using gF(2)[OF kr(1)] gF(2)[OF kr(2)] kl(3) by simp
          moreover have "prio_class ps k \<noteq> []" using kl(1) by (simp add: ks_def)
          ultimately show "k = l" using disj[of "hd (prio_class ps k)" k l] hd_in_set by blast
        qed
      qed
      show "distinct ys" if "ys \<in> set (map g ks)" for ys using that ksF(1) gF(1) by auto
      show "set ys \<inter> set zs = {}" if yz: "ys \<in> set (map g ks)" "zs \<in> set (map g ks)" "ys \<noteq> zs" for ys zs
      proof -
        from yz obtain k l where kl: "k \<in> set ks" "l \<in> set ks" "ys = g k" "zs = g l" by auto
        then have "set ys = set (prio_class ps k)" "set zs = set (prio_class ps l)" "k \<noteq> l"
          using ksF(1) gF(2) yz(3) by blast+
        then show ?thesis using disj by blast
      qed
    qed
    moreover have "precedes ?xs (p_id p) (p_id q)"
      if pq: "p \<in> set ps" "q \<in> set ps" "p_id p \<in> available ps" "p_id q \<in> available ps" "prio_or_zero p > prio_or_zero q" for p q
    proof (rule precedes_concat_across[OF ksF(2), where k = "prio_or_zero p" and l = "prio_or_zero q"])
      show "\<forall>k \<in> set ks. p_id q \<in> set (g k) \<longrightarrow> k = prio_or_zero q"
        using ksF(1) gF(2) uniq[OF pq(2)] by blast
    qed (use mem pq in auto)
    moreover have "precedes ?xs (p_id p) (p_id q)"
      if pq: "p \<in> set ps" "q \<in> set ps" "p_id p \<in> available ps" "p_id q \<in> available ps" "(p_id p, p_id q) \<in> set reqs"
        "prio_or_zero p = prio_or_zero q" for p q
    proof -
      let ?k = "prio_or_zero q"
      have k: "?k \<in> set ks" "p_id p \<in> set (g ?k)" "p_id q \<in> set (g ?k)" using mem pq by auto
      then have kr: "?k \<in> {BOTTOM..100}" using ksF(1) by blast
      then have "(p_id p, p_id q) \<in> class_requs ps reqs ?k" using k pq(5) gF(2)[OF kr] by (simp add: class_requs_def)
      then have "precedes (g ?k) (p_id p) (p_id q)" using gF(3)[OF kr] by blast
      moreover have "\<forall>zs \<in> set (map g ks). p_id q \<in> set zs \<longrightarrow> zs = g ?k"
        using ksF(1) gF(2) uniq[OF pq(2)] by auto
      ultimately show ?thesis using k(1) by (intro precedes_concat_within[of "g ?k"]) auto
    qed
    ultimately have "sorted_products ps reqs ?xs" unfolding sorted_products_def by blast
    then show ?thesis using eq gF(4) by blast
  next
    fix es
    assume "foldE (order_priority ?t (requirementsByClasses ?t reqs)) levels_down ([], []) = Inl (OrderingConflict es)"
      "\<exists>k \<in> set levels_down. \<not> acyclic (class_requs ps reqs k)"
    then show ?thesis using lv(1) by (simp add: generateProductSequenceFromRequPairs_algorithm2_def)
  qed
qed

text \<open>A list in which every requirement is respected shows that there is no cycle.\<close>

lemma precedes_acyclic:
  assumes "\<forall>(a, b) \<in> R. precedes xs a b"
  shows "acyclic R"
proof -
  let ?f = "\<lambda>a. length (takeWhile (\<lambda>x. x \<noteq> a) xs)"
  have "?f a < ?f b" if "precedes xs a b" for a b
    using precedes_takeWhile_less[OF that] .
  then have "\<forall>(a, b) \<in> R. (?f a, ?f b) \<in> {(m, n). m < n}" using assms by fast
  moreover have "acyclic {(m, n). (m::nat) < n}" using wf_less by (rule wf_acyclic)
  ultimately show ?thesis by (rule acyclic_hom[where f = ?f])
qed

text \<open>Algorithm 1 on products whose priorities are valid.\<close>

definition available_pairs :: "product list \<Rightarrow> (string \<times> string) list \<Rightarrow> (string \<times> string) set" where
  "available_pairs ps reqs = {(a, b) \<in> set reqs. a \<in> p_id ` set ps \<and> b \<in> p_id ` set ps}"

definition valid_priority :: "product \<Rightarrow> bool" where
  "valid_priority p \<longleftrightarrow> (\<exists>l. p_priority p = Some l \<and> BOTTOM \<le> l \<and> l \<le> 100)"

lemma valid_priority_in_levels: "in_levels (new_xclassified p) \<longleftrightarrow> valid_priority p"
  by (simp add: in_levels_def new_xclassified_def valid_priority_def)

lemma as_product_simps [simp]: "p_id (as_product x) = x_id x" "prio_or_zero (as_product x) = rp x"
  by (simp_all add: as_product_def prio_or_zero_def rp_def split: option.splits)

lemma requ_met_all:
  assumes "distinct (map x_id ys)" and "\<forall>i < length ys. requ_met ys R i"
    and "p \<in> set ys" "q \<in> set ys" "(x_id p, x_id q) \<in> R"
  shows "rp q \<le> rp p"
proof -
  from assms(3,4) obtain i j where ij: "i < length ys" "ys ! i = p" "j < length ys" "ys ! j = q"
    by (auto simp: in_set_conv_nth)
  have "(x_id p, x_id q) \<in> (available_requs ys R)\<^sup>*" using assms(3-5) by (auto simp: available_requs_def)
  from requ_met_chain[OF assms(1,2) this, of i j] ij show ?thesis by simp
qed

lemma algorithm1_cases:
  assumes d: "distinct (map p_id ps)" and v: "\<forall>p \<in> set ps. valid_priority p"
  shows "(\<exists>xs. generateProductSequenceFromRequPairs_algorithm1 ps reqs = Inr xs \<and> distinct xs \<and> set xs = p_id ` set ps \<and>
       (\<forall>(a, b) \<in> available_pairs ps reqs. precedes xs a b) \<and> acyclic (available_pairs ps reqs)) \<or>
     (\<exists>es. generateProductSequenceFromRequPairs_algorithm1 ps reqs = Inl (OrderingConflict es) \<and>
       \<not> acyclic (available_pairs ps reqs))"
proof -
  let ?xs = "map new_xclassified ps" and ?R = "available_pairs ps reqs"
  have "\<forall>x \<in> set ?xs. in_levels x" using v by (simp add: valid_priority_in_levels)
  from raise_priorities_spec[OF this, of reqs] obtain ys where ys: "raise_priorities reqs ?xs = Inr ys"
    "\<forall>y \<in> set ys. in_levels y" "same_objects ys ?xs" "\<forall>i < length ys. requ_met ys (set reqs) i" by blast
  let ?qs = "map as_product ys"
  have len: "length ys = length ps" using same_objects_length[OF ys(3)] by simp
  have ids: "map x_id ys = map p_id ps"
    using len same_objects_id[OF ys(3)] by (intro nth_equalityI) (simp_all add: new_xclassified_def)
  then have ids_set: "x_id ` set ys = p_id ` set ps" by (metis set_map)
  have dq: "distinct (map p_id ?qs)" and dy: "distinct (map x_id ys)" using d ids by (simp_all add: comp_def)
  have avail: "available ?qs = p_id ` set ps"
  proof -
    have "rp y \<in> {BOTTOM..100}" if "y \<in> set ys" for y using ys(2) in_levels_rp that by auto
    then have "p_id (as_product y) \<in> available ?qs" if "y \<in> set ys" for y
      unfolding available_def using that by fastforce
    then have "available ?qs = x_id ` set ys" by (auto simp: available_def)
    then show ?thesis using ids_set by simp
  qed
  have eq: "generateProductSequenceFromRequPairs_algorithm1 ps reqs = generateProductSequenceFromRequPairs_algorithm2 ?qs reqs"
    using ys(1) by (simp add: generateProductSequenceFromRequPairs_algorithm1_def)
  from algorithm2_cases[OF dq, of reqs] show ?thesis
  proof (elim disjE exE conjE)
    fix xs assume r: "generateProductSequenceFromRequPairs_algorithm2 ?qs reqs = Inr xs" "sorted_products ?qs reqs xs"
    note S = r(2)[unfolded sorted_products_def avail]
    have "precedes xs a b" if ab: "(a, b) \<in> ?R" for a b
    proof -
      from ab obtain y z where yz: "y \<in> set ys" "z \<in> set ys" "a = x_id y" "b = x_id z" "(a, b) \<in> set reqs"
        unfolding available_pairs_def ids_set[symmetric] by auto
      then have le: "rp z \<le> rp y" using requ_met_all[OF dy ys(4)] by simp
      have "as_product y \<in> set ?qs" "as_product z \<in> set ?qs" "x_id y \<in> p_id ` set ps" "x_id z \<in> p_id ` set ps"
        using yz ids_set by auto
      with S yz le have "precedes xs (p_id (as_product y)) (p_id (as_product z))"
        by (metis as_product_simps order_le_less)
      with yz show ?thesis by simp
    qed
    then have *: "\<forall>(a, b) \<in> ?R. precedes xs a b" by blast
    then have "acyclic ?R" by (rule precedes_acyclic)
    then show ?thesis using * S eq r(1) by simp
  next
    fix es assume r: "generateProductSequenceFromRequPairs_algorithm2 ?qs reqs = Inl (OrderingConflict es)"
      "\<exists>k \<in> {BOTTOM..100}. \<not> acyclic (class_requs ?qs reqs k)"
    then obtain k where k: "\<not> acyclic (class_requs ?qs reqs k)" by blast
    have "class_requs ?qs reqs k \<subseteq> ?R"
      unfolding class_requs_def available_pairs_def ids_set[symmetric] prio_class_def by auto
    then have "\<not> acyclic ?R" using k acyclic_subset by blast
    then show ?thesis using r(1) eq by simp
  qed
qed

lemma algorithm1_key_error:
  "\<not> (\<forall>p \<in> set ps. valid_priority p) \<Longrightarrow> generateProductSequenceFromRequPairs_algorithm1 ps reqs = Inl SortKeyError"
  using modifySortingClasses_error[of "map new_xclassified ps" reqs]
  by (simp add: generateProductSequenceFromRequPairs_algorithm1_def raise_priorities.simps valid_priority_in_levels)

section \<open>Properties\<close>

text \<open>
  C1: Algorithm 1, for products with distinct ids and valid priorities, never loops or fails with
  another error: it returns every product once, with every setup requirement between available
  products respected, when these requirements have no cycle, and raises
  \<open>OpsiProductOrderingError\<close> exactly when they have one.
\<close>

theorem algorithm1_correct:
  assumes "distinct (map p_id ps)" and "\<forall>p \<in> set ps. valid_priority p"
  shows "if acyclic (available_pairs ps reqs)
     then \<exists>xs. generateProductSequenceFromRequPairs_algorithm1 ps reqs = Inr xs \<and> distinct xs \<and>
       set xs = p_id ` set ps \<and> (\<forall>(a, b) \<in> available_pairs ps reqs. precedes xs a b)
     else \<exists>es. generateProductSequenceFromRequPairs_algorithm1 ps reqs = Inl (OrderingConflict es)"
  using algorithm1_cases[OF assms, of reqs] by auto

abbreviation sample_products :: "product list" where
  "sample_products \<equiv>
     [\<lparr>p_id = ''office'', p_type = ''LocalbootProduct'', p_productVersion = ''1'', p_packageVersion = ''1'', p_priority = Some 5\<rparr>,
      \<lparr>p_id = ''runtime'', p_type = ''LocalbootProduct'', p_productVersion = ''1'', p_packageVersion = ''1'', p_priority = Some (-3)\<rparr>]"

theorem algorithm1_correct_witness:
  "if acyclic (available_pairs sample_products [(''runtime'', ''office'')])
   then \<exists>xs. generateProductSequenceFromRequPairs_algorithm1 sample_products [(''runtime'', ''office'')] = Inr xs \<and> distinct xs \<and>
     set xs = p_id ` set sample_products \<and>
     (\<forall>(a, b) \<in> available_pairs sample_products [(''runtime'', ''office'')]. precedes xs a b)
   else \<exists>es. generateProductSequenceFromRequPairs_algorithm1 sample_products [(''runtime'', ''office'')] = Inl (OrderingConflict es)"
  by (rule algorithm1_correct) (simp_all add: valid_priority_def BOTTOM_def)

text \<open>
  C20: Algorithm 2, for products with distinct ids, returns every product whose priority lies in the
  levels once, products of higher priority first and the requirements within a priority
  respected, when the requirements within each priority have no cycle; it raises otherwise.
\<close>

theorem algorithm2_correct:
  assumes "distinct (map p_id ps)"
  shows "if \<forall>k \<in> {BOTTOM..100}. acyclic (class_requs ps reqs k)
     then \<exists>xs. generateProductSequenceFromRequPairs_algorithm2 ps reqs = Inr xs \<and> sorted_products ps reqs xs
     else \<exists>es. generateProductSequenceFromRequPairs_algorithm2 ps reqs = Inl (OrderingConflict es)"
  using algorithm2_cases[OF assms, of reqs] by auto

theorem algorithm2_correct_witness:
  "if \<forall>k \<in> {BOTTOM..100}. acyclic (class_requs sample_products [(''office'', ''runtime'')] k)
   then \<exists>xs. generateProductSequenceFromRequPairs_algorithm2 sample_products [(''office'', ''runtime'')] = Inr xs \<and>
     sorted_products sample_products [(''office'', ''runtime'')] xs
   else \<exists>es. generateProductSequenceFromRequPairs_algorithm2 sample_products [(''office'', ''runtime'')] = Inl (OrderingConflict es)"
  by (rule algorithm2_correct) simp

text \<open>
  The priority algorithm 1 gives a product is the highest priority among the product itself and
  the available products that directly or indirectly require it first.
\<close>

theorem revised_priority_is_max:
  assumes "\<forall>x \<in> set xs. in_levels x" and "distinct (map x_id xs)" and "i < length xs"
  shows "\<exists>ys. raise_priorities reqs xs = Inr ys \<and>
     rp (ys ! i) = Max {rp (xs ! j) | j. j < length xs \<and> (x_id (xs ! i), x_id (xs ! j)) \<in> (available_requs xs (set reqs))\<^sup>*}"
proof -
  obtain ys where ys: "raise_priorities reqs xs = Inr ys" using raise_priorities_spec[OF assms(1), of reqs] by blast
  show ?thesis using raise_priorities_max[OF assms(1,2) ys assms(3)] ys by blast
qed

theorem revised_priority_is_max_witness:
  "\<exists>ys. raise_priorities [(''runtime'', ''office'')] (map new_xclassified sample_products) = Inr ys \<and>
     rp (ys ! 1) = Max {rp (map new_xclassified sample_products ! j) | j. j < length (map new_xclassified sample_products) \<and>
       (x_id (map new_xclassified sample_products ! 1), x_id (map new_xclassified sample_products ! j))
         \<in> (available_requs (map new_xclassified sample_products) (set [(''runtime'', ''office'')]))\<^sup>*}"
  by (rule revised_priority_is_max) (simp_all add: in_levels_def new_xclassified_def BOTTOM_def)

end
