(* ===== verification/ClientSequence.thy ===== *)
theory ClientSequence
  imports ProductSort
begin

text \<open>
  Numbering the product-on-client objects of every client along the sorted product list
  (\<open>generateProductOnClientSequence\<close> and its callers in OPSI/SharedAlgorithm.py), and the properties
  of the whole sort as the backend uses it.
\<close>

section \<open>Operations\<close>

text \<open>The loop over \<open>sortedList\<close>: (sequence, remaining dictionary, emitted objects).\<close>

definition take_sorted ::
  "string \<Rightarrow> nat \<times> (string, product_on_client) dict \<times> product_on_client list \<Rightarrow>
     nat \<times> (string, product_on_client) dict \<times> product_on_client list" where
  "take_sorted productId = (\<lambda>(sequence, d, out).
     (case map_of d productId of
        None \<Rightarrow> (sequence, d, out)
      | Some c \<Rightarrow> (sequence + 1, AList.delete productId d, out @ [c\<lparr>c_actionSequence := int sequence\<rparr>])))"

definition take_remaining ::
  "string \<times> product_on_client \<Rightarrow> nat \<times> product_on_client list \<Rightarrow> nat \<times> product_on_client list" where
  "take_remaining = (\<lambda>(productId, c) (sequence, out). (sequence + 1, out @ [c\<lparr>c_actionSequence := int sequence\<rparr>]))"

definition client_sequence :: "string list \<Rightarrow> (string, product_on_client) dict \<Rightarrow> product_on_client list" where
  "client_sequence sortedList d =
     (let (sequence, d', out) = foldl (\<lambda>st p. take_sorted p st) (0, d, []) sortedList
      in if sortedList \<noteq> [] then snd (foldl (\<lambda>st e. take_remaining e st) (sequence, out) d') else out)"

definition generateProductOnClientSequence ::
  "product_on_client list \<Rightarrow> string list \<Rightarrow> product_on_client list" where
  "generateProductOnClientSequence productOnClients sortedList =
     concat (map (client_sequence sortedList) (dict_values (pocsByClientIdAndProductId productOnClients)))"

definition generateProductOnClientSequence_algorithm1 ::
  "product_on_client list \<Rightarrow> product list \<Rightarrow> product_dependency list \<Rightarrow> (sort_error, product_on_client list) result" where
  "generateProductOnClientSequence_algorithm1 productOnClients availableProducts productDependencies =
     bindE (generateProductSequenceFromRequPairs_algorithm1 availableProducts (getSetupRequirements productDependencies))
       (\<lambda>sortedProductList. Inr (generateProductOnClientSequence productOnClients sortedProductList))"

text \<open>
  \<open>generateProductOnClientSequenceX\<close> groups the objects in lists and then calls \<open>.values()\<close> on such
  a list, which no list has.
\<close>

datatype sequence_x_error = XKeyError | XAttributeError

definition list_values :: "'a list \<Rightarrow> (sequence_x_error, 'a list) result" where
  "list_values l = Inl XAttributeError"

definition emit_x ::
  "(string, product_on_client list) dict \<Rightarrow> string \<Rightarrow> product_on_client list \<Rightarrow>
     (sequence_x_error, product_on_client list) result" where
  "emit_x groups productId out =
     (case map_of groups productId of
        None \<Rightarrow> Inl XKeyError
      | Some l \<Rightarrow> bindE (list_values l) (\<lambda>vs. Inr (out @ vs)))"

definition generateProductOnClientSequenceX ::
  "product_on_client list \<Rightarrow> string list \<Rightarrow> (sequence_x_error, product_on_client list) result" where
  "generateProductOnClientSequenceX productOnClients sortedList =
     (let groups = group_by c_productId (\<lambda>c. c) productOnClients
      in bindE (foldE (\<lambda>p (out, givenIds). bindE (emit_x groups p out) (\<lambda>out'. Inr (out', remove1 p givenIds)))
                 sortedList ([], dict_keys groups))
           (\<lambda>(out, givenIds). foldE (emit_x groups) givenIds out))"

section \<open>What a client gets\<close>

definition number_from :: "nat \<Rightarrow> product_on_client list \<Rightarrow> product_on_client list" where
  "number_from n cs = map (\<lambda>(i, c). c\<lparr>c_actionSequence := int i\<rparr>) (enumerate n cs)"

lemma number_from_simps [simp]:
  "number_from n [] = []" "number_from n (c # cs) = c\<lparr>c_actionSequence := int n\<rparr> # number_from (Suc n) cs"
  "number_from n (cs @ [c]) = number_from n cs @ [c\<lparr>c_actionSequence := int (n + length cs)\<rparr>]"
  by (simp_all add: number_from_def enumerate_append_eq)

text \<open>The order in which the products of a client are numbered.\<close>

definition numbering_order :: "product_on_client list \<Rightarrow> string list \<Rightarrow> string \<Rightarrow> string list" where
  "numbering_order pocs sl k =
     filter (\<lambda>p. p \<in> set (client_products pocs k)) sl @ filter (\<lambda>p. p \<notin> set sl) (client_products pocs k)"

lemma number_from_append: "number_from n (xs @ ys) = number_from n xs @ number_from (n + length xs) ys"
  by (induction xs arbitrary: n) simp_all

lemma take_sorted_run:
  assumes "distinct sl"
  shows "foldl (\<lambda>st p. take_sorted p st) (n, d, out) sl =
     (let hits = map (\<lambda>p. the (map_of d p)) (filter (\<lambda>p. p \<in> set (dict_keys d)) sl)
      in (n + length hits, filter (\<lambda>e. fst e \<notin> set sl) d, out @ number_from n hits))"
  using assms
proof (induction sl arbitrary: n d out)
  case (Cons p sl)
  show ?case
  proof (cases "map_of d p")
    case None
    then have "p \<notin> set (dict_keys d)" by (simp add: map_of_eq_None_keys)
    moreover then have "filter (\<lambda>e. fst e \<notin> set sl) d = filter (\<lambda>e. fst e \<notin> set (p # sl)) d"
      by (intro filter_cong) (auto simp: dict_keys_def)
    ultimately show ?thesis using None Cons by (simp add: take_sorted_def Let_def)
  next
    case (Some c)
    then have p: "p \<in> set (dict_keys d)" using map_of_eq_None_keys[of d p] by simp
    let ?d = "AList.delete p d"
    have "q \<noteq> p" if "q \<in> set sl" for q using Cons.prems that by auto
    then have hits: "map (\<lambda>q. the (map_of ?d q)) (filter (\<lambda>q. q \<in> set (dict_keys ?d)) sl) =
        map (\<lambda>q. the (map_of d q)) (filter (\<lambda>q. q \<in> set (dict_keys d)) sl)"
      by (intro map_cong filter_cong) (auto simp: dict_keys_delete)
    have rest: "filter (\<lambda>e. fst e \<notin> set sl) ?d = filter (\<lambda>e. fst e \<notin> set (p # sl)) d"
      by (auto simp: AList.delete_eq intro: filter_cong)
    have "distinct sl" using Cons.prems by simp
    from Cons.IH[OF this, of "n + 1" ?d "out @ [c\<lparr>c_actionSequence := int n\<rparr>]"] Some p show ?thesis
      unfolding hits rest by (simp add: take_sorted_def Let_def)
  qed
qed simp

lemma take_remaining_run:
  "foldl (\<lambda>st e. take_remaining e st) (n, out) d = (n + length d, out @ number_from n (map snd d))"
  by (induction d arbitrary: n out) (auto simp: take_remaining_def)

lemma client_sequence_eq:
  assumes "distinct sl" and "sl \<noteq> []"
  shows "client_sequence sl d = number_from 0
     (map (\<lambda>p. the (map_of d p)) (filter (\<lambda>p. p \<in> set (dict_keys d)) sl) @ map snd (filter (\<lambda>e. fst e \<notin> set sl) d))"
  using assms by (simp add: client_sequence_def take_sorted_run Let_def take_remaining_run number_from_append)

lemma values_by_keys: "distinct (dict_keys d) \<Longrightarrow> map snd (filter (\<lambda>e. P (fst e)) d) = map (\<lambda>p. the (map_of d p)) (filter P (dict_keys d))"
proof (induction d)
  case (Cons e d)
  obtain k v where e: "e = (k, v)" by force
  with Cons.prems have "k \<notin> set (dict_keys d)" "distinct (dict_keys d)" by (simp_all add: dict_keys_def)
  then have "map (\<lambda>p. the (map_of (e # d) p)) (filter P (dict_keys d)) = map (\<lambda>p. the (map_of d p)) (filter P (dict_keys d))"
    by (intro map_cong) (auto simp: e)
  then show ?case using Cons.IH \<open>distinct (dict_keys d)\<close> by (simp add: e dict_keys_def)
qed (simp add: dict_keys_def)

text \<open>The objects a client gets, in order and numbered from 0.\<close>

lemma client_sequence_of_client:
  assumes "distinct sl" and "sl \<noteq> []"
  shows "client_sequence sl (client_dict (pocsByClientIdAndProductId pocs) k) =
     number_from 0 (map (\<lambda>p. the (last_poc pocs k p)) (numbering_order pocs sl k))"
  using values_by_keys[of "client_dict (pocsByClientIdAndProductId pocs) k" "\<lambda>p. p \<notin> set sl"]
  by (simp add: client_sequence_eq[OF assms] numbering_order_def client_dict_keys client_dict_lookup)

lemma number_from_clientId: "map c_clientId (number_from n cs) = map c_clientId cs"
  by (induction cs arbitrary: n) simp_all

lemma filter_concat_single:
  assumes "distinct ks" and "\<forall>l \<in> set ks. \<forall>c \<in> set (f l). g c = l"
  shows "filter (\<lambda>c. g c = k) (concat (map f ks)) = (if k \<in> set ks then f k else [])"
  using assms
proof (induction ks)
  case (Cons l ks)
  have l: "filter (\<lambda>c. g c = k) (f l) = (if l = k then f l else [])"
    using Cons.prems(2) by (auto simp: filter_empty_conv intro: filter_True)
  show ?case
    using Cons by (auto simp: l)
qed simp

lemma client_dicts: "dict_values (pocsByClientIdAndProductId pocs) =
    map (client_dict (pocsByClientIdAndProductId pocs)) (dict_keys (pocsByClientIdAndProductId pocs))"
proof -
  let ?d = "pocsByClientIdAndProductId pocs"
  have "distinct (dict_keys ?d)" by (simp add: pocs_keys)
  from values_by_keys[OF this, of "\<lambda>_. True"]
  have "dict_values ?d = map (\<lambda>p. the (map_of ?d p)) (dict_keys ?d)" by (simp add: dict_values_def)
  also have "\<dots> = map (client_dict ?d) (dict_keys ?d)"
  proof (rule map_cong[OF refl])
    fix k assume "k \<in> set (dict_keys ?d)"
    then have "map_of ?d k \<noteq> None" by (simp add: map_of_eq_None_keys)
    then show "the (map_of ?d k) = client_dict ?d k" by (auto simp: client_dict_def)
  qed
  finally show ?thesis .
qed

lemma client_block:
  assumes "distinct sl" and "sl \<noteq> []"
  shows "filter (\<lambda>c. c_clientId c = k) (generateProductOnClientSequence pocs sl) =
     number_from 0 (map (\<lambda>p. the (last_poc pocs k p)) (numbering_order pocs sl k))"
proof -
  let ?d = "pocsByClientIdAndProductId pocs"
  let ?f = "\<lambda>l. client_sequence sl (client_dict ?d l)"
  have member: "last_poc pocs l p \<noteq> None" if "p \<in> set (numbering_order pocs sl l)" for l p
  proof -
    have "p \<in> set (client_products pocs l)" using that by (auto simp: numbering_order_def)
    then show ?thesis using client_dict_keys client_dict_lookup map_of_eq_None_keys by metis
  qed
  have cl: "c_clientId c = l" if "c \<in> set (?f l)" for c l
  proof -
    have "set (map c_clientId (?f l)) = c_clientId ` (\<lambda>p. the (last_poc pocs l p)) ` set (numbering_order pocs sl l)"
      unfolding client_sequence_of_client[OF assms] number_from_clientId by (simp add: image_image)
    moreover have "c_clientId (the (last_poc pocs l p)) = l" if "p \<in> set (numbering_order pocs sl l)" for p
      using member[OF that] last_poc_Some[of pocs l p] by fastforce
    moreover have "c_clientId c \<in> set (map c_clientId (?f l))" using that by simp
    ultimately show ?thesis by auto
  qed
  have "generateProductOnClientSequence pocs sl = concat (map ?f (dict_keys ?d))"
    by (simp add: generateProductOnClientSequence_def client_dicts comp_def)
  moreover have "distinct (dict_keys ?d)" by (simp add: pocs_keys)
  ultimately have "filter (\<lambda>c. c_clientId c = k) (generateProductOnClientSequence pocs sl) =
      (if k \<in> set (dict_keys ?d) then ?f k else [])"
    using filter_concat_single[of "dict_keys ?d" ?f c_clientId k] cl by simp
  moreover have "?f k = []" if "k \<notin> set (dict_keys ?d)"
  proof -
    have "client_dict ?d k = []" using that map_of_eq_None_keys[of ?d k] by (simp add: client_dict_def)
    then show ?thesis using client_sequence_eq[OF assms, of "[]"] by (simp add: dict_keys_def)
  qed
  ultimately show ?thesis by (simp add: client_sequence_of_client[OF assms])
qed

text \<open>Positions in the numbering order follow the sorted list.\<close>

lemma precedes_filter: "precedes xs a b \<Longrightarrow> P a \<Longrightarrow> P b \<Longrightarrow> precedes (filter P xs) a b"
  by (induction xs) (auto simp: precedes_Cons)

lemma numbering_order_distinct: "distinct sl \<Longrightarrow> distinct (numbering_order pocs sl k)"
  by (auto simp: numbering_order_def)

lemma numbering_order_precedes:
  "precedes sl a b \<Longrightarrow> a \<in> set (client_products pocs k) \<Longrightarrow> b \<in> set (client_products pocs k) \<Longrightarrow>
     precedes (numbering_order pocs sl k) a b"
  by (simp add: numbering_order_def precedes_append_left precedes_filter)

lemma number_from_member: "c \<in> set (number_from n cs) \<Longrightarrow> \<exists>i < length cs. c = (cs ! i)\<lparr>c_actionSequence := int (n + i)\<rparr>"
  by (auto simp: number_from_def in_set_conv_nth nth_enumerate_eq) blast

lemma sequenced_object:
  assumes "distinct sl" and "sl \<noteq> []" and "c \<in> set (generateProductOnClientSequence pocs sl)" and "c_clientId c = k"
  shows "\<exists>i < length (numbering_order pocs sl k). c_actionSequence c = int i \<and>
     numbering_order pocs sl k ! i = c_productId c \<and> c_productId c \<in> set (client_products pocs k)"
proof -
  let ?o = "numbering_order pocs sl k"
  have "c \<in> set (filter (\<lambda>e. c_clientId e = k) (generateProductOnClientSequence pocs sl))" using assms(3,4) by simp
  then have "c \<in> set (number_from 0 (map (\<lambda>p. the (last_poc pocs k p)) ?o))"
    by (simp only: client_block[OF assms(1,2)])
  from number_from_member[OF this] obtain i where i: "i < length ?o"
    "c = (the (last_poc pocs k (?o ! i)))\<lparr>c_actionSequence := int i\<rparr>" by auto
  have "?o ! i \<in> set ?o" using i(1) by simp
  then have m: "?o ! i \<in> set (client_products pocs k)" by (auto simp: numbering_order_def)
  then have "last_poc pocs k (?o ! i) \<noteq> None" using client_dict_keys client_dict_lookup map_of_eq_None_keys by metis
  then have "c_productId (the (last_poc pocs k (?o ! i))) = ?o ! i" using last_poc_Some[of pocs k "?o ! i"] by auto
  then show ?thesis using i m by (intro exI[of _ i]) simp
qed

section \<open>Properties\<close>

text \<open>
  For a sorted product list without repetitions, the objects of every client in the result are
  the last object given for each of its products, first the products in the sorted list in that
  order, then its other products in order of appearance, and they are numbered 0, 1, 2, ...
\<close>

theorem client_numbering:
  assumes "distinct sl" and "sl \<noteq> []"
  shows "filter (\<lambda>c. c_clientId c = k) (generateProductOnClientSequence pocs sl) =
     map (\<lambda>(i, p). (the (last_poc pocs k p))\<lparr>c_actionSequence := int i\<rparr>) (enumerate 0 (numbering_order pocs sl k))"
proof -
  have "map (\<lambda>(i, p). (the (last_poc pocs k p))\<lparr>c_actionSequence := int i\<rparr>) (enumerate n xs) =
      number_from n (map (\<lambda>p. the (last_poc pocs k p)) xs)" for n xs
    by (induction xs arbitrary: n) simp_all
  then show ?thesis by (simp add: client_block[OF assms])
qed

theorem client_numbering_witness:
  "filter (\<lambda>c. c_clientId c = ''c1'') (generateProductOnClientSequence
       [\<lparr>c_productId = ''b'', c_productType = ''LocalbootProduct'', c_clientId = ''c1'', c_installationStatus = None,
         c_actionRequest = Some ''setup'', c_actionSequence = -1\<rparr>] [''a'', ''b'']) =
     map (\<lambda>(i, p). (the (last_poc
       [\<lparr>c_productId = ''b'', c_productType = ''LocalbootProduct'', c_clientId = ''c1'', c_installationStatus = None,
         c_actionRequest = Some ''setup'', c_actionSequence = -1\<rparr>] ''c1'' p))\<lparr>c_actionSequence := int i\<rparr>)
       (enumerate 0 (numbering_order
       [\<lparr>c_productId = ''b'', c_productType = ''LocalbootProduct'', c_clientId = ''c1'', c_installationStatus = None,
         c_actionRequest = Some ''setup'', c_actionSequence = -1\<rparr>] [''a'', ''b''] ''c1''))"
  by (rule client_numbering) simp_all

text \<open>The variant X raises on every input except two empty lists.\<close>

theorem sequenceX_raises:
  "generateProductOnClientSequenceX pocs sl =
     (if pocs = [] \<and> sl = [] then Inr []
      else Inl (if \<exists>p sl'. sl = p # sl' \<and> p \<notin> c_productId ` set pocs then XKeyError else XAttributeError))"
proof -
  have keys: "set (dict_keys (group_by c_productId (\<lambda>c. c) pocs)) = c_productId ` set pocs" by (rule keys_group_by)
  have emit: "emit_x (group_by c_productId (\<lambda>c. c) pocs) p out =
      Inl (if p \<in> c_productId ` set pocs then XAttributeError else XKeyError)" for p out
    by (simp add: emit_x_def group_by_lookup list_values_def)
  show ?thesis
  proof (cases sl)
    case (Cons p sl')
    then show ?thesis by (simp add: generateProductOnClientSequenceX_def Let_def emit)
  next
    case Nil
    show ?thesis
    proof (cases "dict_keys (group_by c_productId (\<lambda>c. c) pocs)")
      case (Cons q qs)
      then have "q \<in> c_productId ` set pocs" and "pocs \<noteq> []" using keys by auto
      then show ?thesis using Cons Nil by (simp add: generateProductOnClientSequenceX_def Let_def emit)
    next
      case Nil': Nil
      then have "pocs = []" using keys by simp
      then show ?thesis using Nil Nil' by (simp add: generateProductOnClientSequenceX_def Let_def)
    qed
  qed
qed

section \<open>The sort as the backend uses it\<close>

lemma client_sequence_requirements:
  assumes "distinct (map p_id ps)" and "\<forall>p \<in> set ps. valid_priority p"
  shows "if acyclic (available_pairs ps (getSetupRequirements deps))
     then \<exists>cs. generateProductOnClientSequence_algorithm1 pocs ps deps = Inr cs \<and>
       (\<forall>c \<in> set cs. \<forall>e \<in> set cs. c_clientId c = c_clientId e \<and>
          (c_productId c, c_productId e) \<in> available_pairs ps (getSetupRequirements deps) \<longrightarrow>
          c_actionSequence c < c_actionSequence e)
     else \<exists>es. generateProductOnClientSequence_algorithm1 pocs ps deps = Inl (OrderingConflict es)"
proof -
  let ?R = "available_pairs ps (getSetupRequirements deps)"
  have less: "c_actionSequence c < c_actionSequence e"
    if sl: "distinct sl" "precedes sl (c_productId c) (c_productId e)"
      "c \<in> set (generateProductOnClientSequence pocs sl)" "e \<in> set (generateProductOnClientSequence pocs sl)"
      "c_clientId c = c_clientId e" for sl c e
  proof -
    have ne: "sl \<noteq> []" using precedes_mem[OF sl(2)] by auto
    let ?o = "numbering_order pocs sl (c_clientId e)"
    obtain i where i: "i < length ?o" "c_actionSequence c = int i" "?o ! i = c_productId c"
      "c_productId c \<in> set (client_products pocs (c_clientId e))"
      using sequenced_object[OF sl(1) ne sl(3) sl(5)] by blast
    obtain j where j: "j < length ?o" "c_actionSequence e = int j" "?o ! j = c_productId e"
      "c_productId e \<in> set (client_products pocs (c_clientId e))"
      using sequenced_object[OF sl(1) ne sl(4) refl] by blast
    have "precedes ?o (c_productId c) (c_productId e)" using numbering_order_precedes[OF sl(2) i(4) j(4)] .
    then obtain i' j' where ij: "i' < j'" "j' < length ?o" "?o ! i' = c_productId c" "?o ! j' = c_productId e"
      using precedes_index by metis
    have "distinct ?o" by (rule numbering_order_distinct[OF sl(1)])
    then have "i' = i" "j' = j"
      using i(1,3) j(1,3) ij nth_eq_iff_index_eq[of ?o i' i] nth_eq_iff_index_eq[of ?o j' j] by simp_all
    then show ?thesis using i(2) j(2) ij(1) by simp
  qed
  from algorithm1_cases[OF assms, of "getSetupRequirements deps"] show ?thesis
  proof (elim disjE exE conjE)
    fix sl assume r: "generateProductSequenceFromRequPairs_algorithm1 ps (getSetupRequirements deps) = Inr sl"
      and S: "distinct sl" "\<forall>(a, b) \<in> ?R. precedes sl a b" and ac: "acyclic ?R"
    have "generateProductOnClientSequence_algorithm1 pocs ps deps = Inr (generateProductOnClientSequence pocs sl)"
      using r by (simp add: generateProductOnClientSequence_algorithm1_def)
    moreover have "c_actionSequence c < c_actionSequence e"
      if "c \<in> set (generateProductOnClientSequence pocs sl)" "e \<in> set (generateProductOnClientSequence pocs sl)"
        "c_clientId c = c_clientId e" "(c_productId c, c_productId e) \<in> ?R" for c e
      using less[OF S(1) _ that(1-3)] S(2) that(4) by blast
    ultimately show ?thesis using ac by simp
  next
    fix es assume "generateProductSequenceFromRequPairs_algorithm1 ps (getSetupRequirements deps) = Inl (OrderingConflict es)"
      "\<not> acyclic ?R"
    then show ?thesis by (simp add: generateProductOnClientSequence_algorithm1_def)
  qed
qed

end
