(* ===== verification/ProductDeps.thy ===== *)
theory ProductDeps
  imports ProductData
begin

text \<open>
  \<open>addActionRequest\<close> and \<open>addDependentProductOnClients\<close> of OPSI/SharedAlgorithm.py: following the
  dependencies of a requested action and setting the actions they require. The objects of a client
  are a dictionary by product id, whose entries are the shared objects the code mutates. The
  constructor \<open>ProductOnClient(...)\<close> (\<open>mk\<close>: product id, type, client id) and the method
  \<open>setActionRequest\<close> (\<open>setr\<close>; None when it raises) belong to opsicommon and are parameters.
  The recursion is bounded by a fuel argument; \<open>add_fuel\<close> shows that one more than the number of
  available products is enough.
\<close>

section \<open>Checking one dependency\<close>

definition truthy :: "string option \<Rightarrow> bool" where
  "truthy s \<longleftrightarrow> s \<noteq> None \<and> s \<noteq> Some []"

type_synonym pocs = "(string, product_on_client) dict"

definition status_of :: "pocs \<Rightarrow> string \<Rightarrow> string option" where
  "status_of pocs q = (case map_of pocs q of None \<Rightarrow> Some ''not_installed'' | Some c \<Rightarrow> c_installationStatus c)"

definition request_of :: "pocs \<Rightarrow> string \<Rightarrow> string option" where
  "request_of pocs q = (case map_of pocs q of None \<Rightarrow> Some ''none'' | Some c \<Rightarrow> c_actionRequest c)"

definition required_action :: "product_dependency \<Rightarrow> string option" where
  "required_action d =
     (if truthy (d_requiredAction d) then d_requiredAction d
      else if d_requiredInstallationStatus d = Some ''installed'' then Some ''setup''
      else if d_requiredInstallationStatus d = Some ''not_installed'' then Some ''uninstall''
      else d_requiredAction d)"

definition version_available :: "(string, product) dict \<Rightarrow> product_dependency \<Rightarrow> bool" where
  "version_available avail d =
     (case map_of avail (d_requiredProductId d) of
        None \<Rightarrow> False
      | Some p \<Rightarrow>
          (d_requiredProductVersion d = None \<or> d_requiredProductVersion d = Some (p_productVersion p)) \<and>
          (d_requiredPackageVersion d = None \<or> d_requiredPackageVersion d = Some (p_packageVersion p)))"

datatype verdict = Ignore | Fulfilled | Unavailable | AlreadyRequested | Conflicting | DependencyLoop | AddAction "string option"

definition judge ::
  "(string, product) dict \<Rightarrow> pocs \<Rightarrow> string list \<Rightarrow> string option \<Rightarrow> product_dependency \<Rightarrow> verdict" where
  "judge avail pocs added request d =
     (let q = d_requiredProductId d
      in if Some (d_productAction d) \<noteq> request then Ignore
         else if \<not> truthy (d_requiredAction d) \<and> d_requiredInstallationStatus d = status_of pocs q then Fulfilled
         else if \<not> version_available avail d then Unavailable
         else if request_of pocs q = required_action d then AlreadyRequested
         else if request_of pocs q \<noteq> None \<and> request_of pocs q \<noteq> Some ''none'' then Conflicting
         else if q \<in> set added then DependencyLoop
         else AddAction (required_action d))"

section \<open>The recursion\<close>

record added_entry =
  addedForProduct :: string
  a_requiredAction :: "string option"
  a_requirementType :: "string option"

datatype dep_error = DepKeyError | DepValueError | DepOutOfFuel

type_synonym dep_state = "pocs \<times> (string, added_entry) dict"

definition set_request_none :: "string \<Rightarrow> pocs \<Rightarrow> pocs" where
  "set_request_none p pocs =
     (case map_of pocs p of None \<Rightarrow> pocs
      | Some c \<Rightarrow> AList.update p (c\<lparr>c_actionRequest := Some ''none''\<rparr>) pocs)"

definition ensure_poc ::
  "(string \<Rightarrow> string \<Rightarrow> string \<Rightarrow> product_on_client) \<Rightarrow> (string, product) dict \<Rightarrow> string \<Rightarrow> string \<Rightarrow> pocs \<Rightarrow> pocs" where
  "ensure_poc mk avail client q pocs =
     (case map_of pocs q of
        Some _ \<Rightarrow> pocs
      | None \<Rightarrow> AList.update q (mk q (case map_of avail q of Some p \<Rightarrow> p_type p | None \<Rightarrow> []) client) pocs)"

text \<open>The body of the loop; \<open>again\<close> is the recursive call.\<close>

definition add_step ::
  "(string \<Rightarrow> string \<Rightarrow> string \<Rightarrow> product_on_client) \<Rightarrow> (string option \<Rightarrow> product_on_client \<Rightarrow> product_on_client option) \<Rightarrow>
     (string, product) dict \<Rightarrow> string \<Rightarrow> (string \<Rightarrow> dep_state \<Rightarrow> (dep_error, dep_state) result) \<Rightarrow>
     product_dependency \<Rightarrow> dep_state \<Rightarrow> (dep_error, dep_state) result" where
  "add_step mk setr avail productId again d = (\<lambda>(pocs, added).
     (case map_of pocs productId of
        None \<Rightarrow> Inl DepKeyError
      | Some poc \<Rightarrow>
          (case judge avail pocs (dict_keys added) (c_actionRequest poc) d of
             Unavailable \<Rightarrow> Inr (set_request_none productId pocs, added)
           | AddAction r \<Rightarrow>
               (let q = d_requiredProductId d;
                    pocs1 = ensure_poc mk avail (c_clientId poc) q pocs;
                    added1 = AList.update q \<lparr>addedForProduct = productId, a_requiredAction = r,
                      a_requirementType = d_requirementType d\<rparr> added
                in case map_of pocs1 q of
                     None \<Rightarrow> Inl DepKeyError
                   | Some c \<Rightarrow>
                       (case setr r c of
                          None \<Rightarrow> Inl DepValueError
                        | Some c' \<Rightarrow> again q (AList.update q c' pocs1, added1)))
           | _ \<Rightarrow> Inr (pocs, added))))"

text \<open>
  \<open>addedInfo\<close> is shared by the calls of one recursion. The first call always starts with an empty
  dictionary: an empty one that is passed in is replaced by a new one.
\<close>

primrec add_requests ::
  "nat \<Rightarrow> (string \<Rightarrow> string \<Rightarrow> string \<Rightarrow> product_on_client) \<Rightarrow> (string option \<Rightarrow> product_on_client \<Rightarrow> product_on_client option) \<Rightarrow>
     (string, product) dict \<Rightarrow> (string, product_dependency list) dict \<Rightarrow> string \<Rightarrow> dep_state \<Rightarrow>
     (dep_error, dep_state) result" where
  "add_requests 0 mk setr avail deps productId st = Inl DepOutOfFuel"
| "add_requests (Suc n) mk setr avail deps productId st =
     (case map_of (fst st) productId of
        None \<Rightarrow> Inl DepKeyError
      | Some poc \<Rightarrow>
          (if c_actionRequest poc = Some ''none'' \<or> dict_list deps productId = [] then Inr st
           else foldE (add_step mk setr avail productId (add_requests n mk setr avail deps)) (dict_list deps productId) st))"

definition addActionRequest ::
  "(string \<Rightarrow> string \<Rightarrow> string \<Rightarrow> product_on_client) \<Rightarrow> (string option \<Rightarrow> product_on_client \<Rightarrow> product_on_client option) \<Rightarrow>
     pocs \<Rightarrow> string \<Rightarrow> (string, product_dependency list) dict \<Rightarrow> (string, product) dict \<Rightarrow> (dep_error, pocs) result" where
  "addActionRequest mk setr pocs productId deps avail =
     bindE (add_requests (Suc (length avail)) mk setr avail deps productId (pocs, [])) (\<lambda>(pocs', _). Inr pocs')"

section \<open>All clients\<close>

definition add_for_client ::
  "(string \<Rightarrow> string \<Rightarrow> string \<Rightarrow> product_on_client) \<Rightarrow> (string option \<Rightarrow> product_on_client \<Rightarrow> product_on_client option) \<Rightarrow>
     (string, product_dependency list) dict \<Rightarrow> (string, product) dict \<Rightarrow> pocs \<Rightarrow> (dep_error, pocs) result" where
  "add_for_client mk setr deps avail pocs =
     foldE (\<lambda>p ps. addActionRequest mk setr ps p deps avail) (dict_keys pocs) pocs"

definition addDependentProductOnClients ::
  "(string \<Rightarrow> string \<Rightarrow> string \<Rightarrow> product_on_client) \<Rightarrow> (string option \<Rightarrow> product_on_client \<Rightarrow> product_on_client option) \<Rightarrow>
     product_on_client list \<Rightarrow> product list \<Rightarrow> product_dependency list \<Rightarrow> (dep_error, product_on_client list) result" where
  "addDependentProductOnClients mk setr productOnClients availableProducts productDependencies =
     (let avail = foldl (\<lambda>d p. AList.update (p_id p) p d) [] availableProducts;
          deps = group_by d_productId (\<lambda>d. d) productDependencies
      in foldE (\<lambda>pocs out. bindE (add_for_client mk setr deps avail pocs) (\<lambda>pocs'. Inr (out @ dict_values pocs')))
           (dict_values (pocsByClientIdAndProductId productOnClients)) [])"

section \<open>The recursion ends\<close>

lemma add_step_rule:
  assumes "case map_of (fst st) p of None \<Rightarrow> Q DepKeyError | Some poc \<Rightarrow>
     (case judge avail (fst st) (dict_keys (snd st)) (c_actionRequest poc) d of
        Unavailable \<Rightarrow> R (set_request_none p (fst st), snd st)
      | AddAction r \<Rightarrow> (\<forall>e. e \<noteq> DepOutOfFuel \<longrightarrow> Q e) \<and>
          (\<forall>c c' entry. map_of (ensure_poc mk avail (c_clientId poc) (d_requiredProductId d) (fst st)) (d_requiredProductId d) = Some c \<longrightarrow>
             setr r c = Some c' \<longrightarrow>
             (case again (d_requiredProductId d)
                 (AList.update (d_requiredProductId d) c' (ensure_poc mk avail (c_clientId poc) (d_requiredProductId d) (fst st)),
                  AList.update (d_requiredProductId d) entry (snd st)) of Inl e \<Rightarrow> Q e | Inr u \<Rightarrow> R u))
      | _ \<Rightarrow> R st)"
  shows "case add_step mk setr avail p again d st of Inl e \<Rightarrow> Q e | Inr u \<Rightarrow> R u"
  using assms
  by (cases st) (auto simp: add_step_def Let_def split: option.splits verdict.splits)

lemma judge_add:
  "judge avail pocs added req d = AddAction r \<Longrightarrow> version_available avail d \<and> d_requiredProductId d \<notin> set added \<and>
     Some (d_productAction d) = req \<and> (request_of pocs (d_requiredProductId d) = None \<or> request_of pocs (d_requiredProductId d) = Some ''none'')"
  by (auto simp: judge_def Let_def split: if_splits)

lemma version_available_mem: "version_available avail d \<Longrightarrow> d_requiredProductId d \<in> set (dict_keys avail)"
  using map_of_eq_None_keys[of avail "d_requiredProductId d"] by (auto simp: version_available_def split: option.splits)

definition missing :: "(string, product) dict \<Rightarrow> (string, added_entry) dict \<Rightarrow> nat" where
  "missing avail added = card (set (dict_keys avail) - set (dict_keys added))"

lemma missing_less:
  assumes "q \<in> set (dict_keys avail)" "q \<notin> set (dict_keys added)" "set (dict_keys added) \<union> {q} \<subseteq> set (dict_keys added')"
  shows "missing avail added' < missing avail added"
  using assms unfolding missing_def by (intro psubset_card_mono) auto

lemma missing_mono: "set (dict_keys added) \<subseteq> set (dict_keys added') \<Longrightarrow> missing avail added' \<le> missing avail added"
  unfolding missing_def by (intro card_mono) auto

lemma set_dict_keys_update [simp]: "set (dict_keys (AList.update k v d)) = insert k (set (dict_keys d))"
  by (auto simp: dict_keys_update)

lemma add_fuel:
  "missing avail (snd st) < n \<Longrightarrow>
   case add_requests n mk setr avail deps p st of Inl e \<Rightarrow> e \<noteq> DepOutOfFuel
   | Inr st' \<Rightarrow> set (dict_keys (snd st)) \<subseteq> set (dict_keys (snd st'))"
proof (induction n arbitrary: p st)
  case (Suc n)
  let ?P = "\<lambda>u. set (dict_keys (snd st)) \<subseteq> set (dict_keys (snd (u :: dep_state)))"
  let ?again = "add_requests n mk setr avail deps"
  have step: "case add_step mk setr avail p ?again d u of Inl e \<Rightarrow> e \<noteq> DepOutOfFuel | Inr v \<Rightarrow> ?P v" if u: "?P u" for d u
  proof -
    let ?q = "d_requiredProductId d"
    have "case ?again ?q (x, AList.update ?q entry (snd u)) of Inl e \<Rightarrow> e \<noteq> DepOutOfFuel | Inr v \<Rightarrow> ?P v"
      if "judge avail (fst u) (dict_keys (snd u)) req d = AddAction r" for r x entry req
    proof -
      have q: "?q \<in> set (dict_keys avail)" "?q \<notin> set (dict_keys (snd u))"
        using judge_add[OF that] version_available_mem by auto
      have "missing avail (AList.update ?q entry (snd u)) < missing avail (snd u)"
        by (intro missing_less[OF q]) auto
      also have "\<dots> \<le> missing avail (snd st)" using u by (rule missing_mono)
      finally have "missing avail (snd (x, AList.update ?q entry (snd u))) < n" using Suc.prems by simp
      from Suc.IH[OF this, of ?q] u show ?thesis by (auto split: sum.splits)
    qed
    then show ?thesis
      by (intro add_step_rule) (use u in \<open>simp split: option.splits verdict.splits\<close>)
  qed
  have "case foldE (add_step mk setr avail p ?again) ds st of Inr v \<Rightarrow> ?P v | Inl e \<Rightarrow> e \<noteq> DepOutOfFuel" for ds
    using step by (intro foldE_rule) (auto split: sum.splits)
  then show ?case by (auto split: option.splits sum.splits)
qed simp

lemma missing_le: "missing avail added \<le> length avail"
proof -
  have "missing avail added \<le> card (set (map fst avail))"
    unfolding missing_def dict_keys_def by (intro card_mono) auto
  also have "\<dots> \<le> length avail" using card_length[of "map fst avail"] by simp
  finally show ?thesis .
qed

lemma addActionRequest_fuel: "addActionRequest mk setr pocs p deps avail \<noteq> Inl DepOutOfFuel"
  using add_fuel[of avail "(pocs, [])" "Suc (length avail)" mk setr deps p] missing_le[of avail "[]"]
  by (auto simp: addActionRequest_def bindE_eq_Inl split: sum.splits)

section \<open>What a call may change\<close>

definition idle :: "string option \<Rightarrow> bool" where
  "idle r \<longleftrightarrow> r = None \<or> r = Some ''none''"

text \<open>
  A dependency can be met: the required product is available in the required version, or nothing
  but an installation status is required, which the product had before (\<open>st0\<close>).
\<close>

definition meets :: "(string, product) dict \<Rightarrow> (string \<Rightarrow> string option) \<Rightarrow> product_dependency \<Rightarrow> bool" where
  "meets avail st0 d \<longleftrightarrow> version_available avail d \<or>
     \<not> truthy (d_requiredAction d) \<and>
       (d_requiredInstallationStatus d = None \<or> d_requiredInstallationStatus d = st0 (d_requiredProductId d))"

definition ok_request ::
  "(string, product) dict \<Rightarrow> (string, product_dependency list) dict \<Rightarrow> (string \<Rightarrow> string option) \<Rightarrow> string \<Rightarrow> string option \<Rightarrow> bool" where
  "ok_request avail deps st0 x r \<longleftrightarrow> (\<forall>d \<in> set (dict_list deps x). Some (d_productAction d) = r \<longrightarrow> meets avail st0 d)"

definition status_inv :: "(string \<Rightarrow> string option) \<Rightarrow> pocs \<Rightarrow> bool" where
  "status_inv st0 pocs \<longleftrightarrow> (\<forall>x. status_of pocs x = st0 x \<or> status_of pocs x = None)"

definition kept_or_met ::
  "(string, product) dict \<Rightarrow> (string, product_dependency list) dict \<Rightarrow> (string \<Rightarrow> string option) \<Rightarrow> pocs \<Rightarrow> pocs \<Rightarrow> string \<Rightarrow> bool" where
  "kept_or_met avail deps st0 pocs pocs' x \<longleftrightarrow>
     request_of pocs' x = request_of pocs x \<or> idle (request_of pocs x) \<and> ok_request avail deps st0 x (request_of pocs' x)"

definition good_call ::
  "(string, product) dict \<Rightarrow> (string, product_dependency list) dict \<Rightarrow> (string \<Rightarrow> string option) \<Rightarrow> string \<Rightarrow> pocs \<Rightarrow> pocs \<Rightarrow> bool" where
  "good_call avail deps st0 p pocs pocs' \<longleftrightarrow> status_inv st0 pocs' \<and>
     (\<forall>x. x \<noteq> p \<longrightarrow> kept_or_met avail deps st0 pocs pocs' x) \<and>
     (request_of pocs' p = request_of pocs p \<or> request_of pocs' p = Some ''none'') \<and>
     ok_request avail deps st0 p (request_of pocs' p)"

text \<open>What the package \<open>opsicommon\<close> promises: a new object has no status, setting a request keeps it.\<close>

definition poc_api ::
  "(string \<Rightarrow> string \<Rightarrow> string \<Rightarrow> product_on_client) \<Rightarrow> (string option \<Rightarrow> product_on_client \<Rightarrow> product_on_client option) \<Rightarrow> bool" where
  "poc_api mk setr \<longleftrightarrow>
     (\<forall>i t k. c_installationStatus (mk i t k) = None \<and> c_actionRequest (mk i t k) = Some ''none'') \<and>
     (\<forall>r c c'. setr r c = Some c' \<longrightarrow> c_installationStatus c' = c_installationStatus c)"

lemma kept_or_met_trans:
  "kept_or_met avail deps st0 a b x \<Longrightarrow> kept_or_met avail deps st0 b c x \<Longrightarrow> kept_or_met avail deps st0 a c x"
  unfolding kept_or_met_def by metis

lemma status_of_update: "status_of (AList.update q c pocs) x = (if x = q then c_installationStatus c else status_of pocs x)"
  by (simp add: status_of_def)

lemma request_of_update: "request_of (AList.update q c pocs) x = (if x = q then c_actionRequest c else request_of pocs x)"
  by (simp add: request_of_def)

lemma set_request_none_facts:
  assumes "map_of pocs p = Some c"
  shows "request_of (set_request_none p pocs) x = (if x = p then Some ''none'' else request_of pocs x)"
    and "status_of (set_request_none p pocs) x = status_of pocs x"
  using assms by (auto simp: set_request_none_def request_of_update status_of_update) (auto simp: status_of_def)

lemma ensure_poc_facts:
  assumes "poc_api mk setr" and "map_of (ensure_poc mk avail client q pocs) q = Some c" and "setr r c = Some c'"
  defines "pocs2 \<equiv> AList.update q c' (ensure_poc mk avail client q pocs)"
  shows "x \<noteq> q \<Longrightarrow> request_of pocs2 x = request_of pocs x"
    and "status_inv st0 pocs \<Longrightarrow> status_inv st0 pocs2"
proof -
  show "x \<noteq> q \<Longrightarrow> request_of pocs2 x = request_of pocs x"
    by (simp add: pocs2_def request_of_update ensure_poc_def split: option.splits)
  have "c_installationStatus c' = c_installationStatus c" using assms(1,3) by (simp add: poc_api_def)
  moreover have "status_of pocs q = c_installationStatus c \<or> c_installationStatus c = None"
    using assms(1,2) by (auto simp: ensure_poc_def poc_api_def status_of_def split: option.splits)
  moreover have "status_of pocs2 x = status_of pocs x" if "x \<noteq> q" for x
    using that by (simp add: pocs2_def status_of_update ensure_poc_def split: option.splits)
  ultimately show "status_inv st0 pocs \<Longrightarrow> status_inv st0 pocs2"
    unfolding status_inv_def by (metis pocs2_def status_of_update)
qed

lemma judge_meets:
  assumes "status_inv st0 pocs" and "Some (d_productAction d) = req"
    and "judge avail pocs added req d \<noteq> Unavailable"
  shows "meets avail st0 d"
proof (cases "\<not> truthy (d_requiredAction d) \<and> d_requiredInstallationStatus d = status_of pocs (d_requiredProductId d)")
  case True
  with assms(1) show ?thesis unfolding meets_def status_inv_def by metis
next
  case False
  with assms(2,3) have "version_available avail d" by (auto simp: judge_def Let_def split: if_splits)
  then show ?thesis by (simp add: meets_def)
qed

text \<open>One dependency.\<close>

lemma add_step_good:
  assumes api: "poc_api mk setr" and inv: "status_inv st0 (fst st)" and act: "d_productAction d \<noteq> ''none''"
    and again: "\<forall>q u v. status_inv st0 (fst u) \<longrightarrow> again q u = Inr v \<longrightarrow> good_call avail deps st0 q (fst u) (fst v)"
    and r: "add_step mk setr avail p again d st = Inr st'"
  shows "status_inv st0 (fst st') \<and> (\<forall>x. x \<noteq> p \<longrightarrow> kept_or_met avail deps st0 (fst st) (fst st') x) \<and>
     (request_of (fst st') p = request_of (fst st) p \<and> (Some (d_productAction d) = request_of (fst st) p \<longrightarrow> meets avail st0 d) \<or>
      request_of (fst st') p = Some ''none'' \<and> Some (d_productAction d) = request_of (fst st) p)"
proof -
  obtain pocs added where st: "st = (pocs, added)" by force
  from r obtain poc where poc: "map_of pocs p = Some poc" by (auto simp: add_step_def st split: option.splits)
  have req: "c_actionRequest poc = request_of pocs p" using poc by (simp add: request_of_def)
  let ?j = "judge avail pocs (dict_keys added) (c_actionRequest poc) d"
  have keep: ?thesis if "st' = st" "?j \<noteq> Unavailable"
    using inv that judge_meets[of st0 pocs d "request_of pocs p" avail "dict_keys added"] req
    by (simp add: st kept_or_met_def)
  show ?thesis
  proof (cases ?j)
    case Unavailable
    then have st': "st' = (set_request_none p pocs, added)" using r poc by (simp add: add_step_def st)
    have "Some (d_productAction d) = request_of pocs p"
      using Unavailable req by (auto simp: judge_def Let_def split: if_splits)
    then show ?thesis
      using inv set_request_none_facts[OF poc] by (simp add: st st' kept_or_met_def status_inv_def)
  next
    case (AddAction a)
    let ?q = "d_requiredProductId d" and ?pocs1 = "ensure_poc mk avail (c_clientId poc) (d_requiredProductId d) pocs"
    from r poc AddAction obtain c c' entry where c: "map_of ?pocs1 ?q = Some c" "setr a c = Some c'"
      "again ?q (AList.update ?q c' ?pocs1, AList.update ?q entry added) = Inr st'"
      by (auto simp: add_step_def st Let_def split: option.splits)
    note E = ensure_poc_facts[OF api c(1,2)]
    have "status_inv st0 (AList.update ?q c' ?pocs1)" using E(2) inv by (simp add: st)
    then have G: "good_call avail deps st0 ?q (AList.update ?q c' ?pocs1) (fst st')"
      using again[rule_format, OF _ c(3)] by simp
    have J: "Some (d_productAction d) = request_of pocs p" "idle (request_of pocs ?q)"
      using judge_add[OF AddAction] req by (auto simp: idle_def)
    then have pq: "p \<noteq> ?q" using act by (auto simp: idle_def)
    have "request_of pocs p \<noteq> None" "\<not> idle (request_of pocs p)" using J(1)[symmetric] act by (simp_all add: idle_def)
    then have p: "request_of (fst st') p = request_of pocs p"
      using G pq E(1)[OF pq] by (auto simp: good_call_def kept_or_met_def)
    have "kept_or_met avail deps st0 pocs (fst st') x" for x
    proof (cases "x = ?q")
      case True
      then show ?thesis using G J(2) by (auto simp: good_call_def kept_or_met_def)
    next
      case False
      then show ?thesis using G E(1)[OF False] by (auto simp: good_call_def kept_or_met_def)
    qed
    moreover have "meets avail st0 d" using judge_add[OF AddAction] by (simp add: meets_def)
    ultimately show ?thesis using p G by (simp add: st good_call_def)
  qed (use r poc keep in \<open>auto simp: add_step_def st\<close>)
qed

text \<open>The loop over the dependencies of one product.\<close>

lemma add_loop_good:
  assumes api: "poc_api mk setr"
    and again: "\<forall>q u v. status_inv st0 (fst u) \<longrightarrow> again q u = Inr v \<longrightarrow> good_call avail deps st0 q (fst u) (fst v)"
    and "\<forall>d \<in> set ds. d_productAction d \<noteq> ''none''" and "status_inv st0 (fst st)"
    and "foldE (add_step mk setr avail p again) ds st = Inr st'"
  shows "status_inv st0 (fst st') \<and> (\<forall>x. x \<noteq> p \<longrightarrow> kept_or_met avail deps st0 (fst st) (fst st') x) \<and>
     (request_of (fst st') p = Some ''none'' \<or> request_of (fst st') p = request_of (fst st) p \<and>
        (\<forall>d \<in> set ds. Some (d_productAction d) = request_of (fst st) p \<longrightarrow> meets avail st0 d))"
  using assms(3-5)
proof (induction ds arbitrary: st)
  case Nil
  then show ?case by (simp add: kept_or_met_def)
next
  case (Cons d ds)
  then obtain u where u: "add_step mk setr avail p again d st = Inr u"
    "foldE (add_step mk setr avail p again) ds u = Inr st'" by (auto simp: bindE_eq_Inr)
  note S = add_step_good[OF api Cons.prems(2) _ again u(1)]
  have act: "d_productAction d \<noteq> ''none''" "\<forall>d \<in> set ds. d_productAction d \<noteq> ''none''" using Cons.prems(1) by simp_all
  have I: "status_inv st0 (fst st') \<and> (\<forall>x. x \<noteq> p \<longrightarrow> kept_or_met avail deps st0 (fst u) (fst st') x) \<and>
     (request_of (fst st') p = Some ''none'' \<or> request_of (fst st') p = request_of (fst u) p \<and>
        (\<forall>d \<in> set ds. Some (d_productAction d) = request_of (fst u) p \<longrightarrow> meets avail st0 d))"
    using Cons.IH[OF act(2) _ u(2)] S[OF act(1)] by blast
  show ?case using I S[OF act(1)] kept_or_met_trans[of avail deps st0 "fst st" "fst u"] by auto
qed

lemma add_requests_good:
  assumes api: "poc_api mk setr" and act: "\<forall>x. \<forall>d \<in> set (dict_list deps x). d_productAction d \<noteq> ''none''"
  shows "status_inv st0 (fst st) \<Longrightarrow> add_requests n mk setr avail deps p st = Inr st' \<Longrightarrow>
    good_call avail deps st0 p (fst st) (fst st')"
proof (induction n arbitrary: p st st')
  case (Suc n)
  then obtain poc where poc: "map_of (fst st) p = Some poc" by (auto split: option.splits)
  then have req: "c_actionRequest poc = request_of (fst st) p" by (simp add: request_of_def)
  have none: "ok_request avail deps st0 p (Some ''none'')" using act by (auto simp: ok_request_def)
  show ?case
  proof (cases "c_actionRequest poc = Some ''none'' \<or> dict_list deps p = []")
    case True
    then have "st' = st" using Suc.prems(2) poc by simp
    moreover have "ok_request avail deps st0 p (request_of (fst st) p)" using True none req by (auto simp: ok_request_def)
    ultimately show ?thesis using Suc.prems(1) by (simp add: good_call_def kept_or_met_def)
  next
    case False
    then have run: "foldE (add_step mk setr avail p (add_requests n mk setr avail deps)) (dict_list deps p) st = Inr st'"
      using Suc.prems(2) poc by simp
    have again: "\<forall>q u v. status_inv st0 (fst u) \<longrightarrow> add_requests n mk setr avail deps q u = Inr v \<longrightarrow>
        good_call avail deps st0 q (fst u) (fst v)" using Suc.IH by blast
    from add_loop_good[OF api again spec[OF act, of p] Suc.prems(1) run] none
    show ?thesis by (auto simp: good_call_def ok_request_def)
  qed
qed simp

lemma addActionRequest_good:
  assumes "poc_api mk setr" and "\<forall>x. \<forall>d \<in> set (dict_list deps x). d_productAction d \<noteq> ''none''"
    and "addActionRequest mk setr pocs p deps avail = Inr pocs'"
  shows "good_call avail deps (status_of pocs) p pocs pocs'"
  using assms(3) add_requests_good[OF assms(1,2), of "status_of pocs" "(pocs, [])" "Suc (length avail)" avail p]
  by (auto simp: addActionRequest_def bindE_eq_Inr status_inv_def)

section \<open>Properties\<close>

text \<open>
  C36: Following the dependencies always ends: neither the call for one product nor the run over
  all clients uses up the bound on the recursion, which is the number of available products plus one.
\<close>

theorem dependencies_terminate:
  "addActionRequest mk setr pocs p deps avail \<noteq> Inl DepOutOfFuel \<and>
   addDependentProductOnClients mk setr productOnClients availableProducts productDependencies \<noteq> Inl DepOutOfFuel"
proof
  show "addActionRequest mk setr pocs p deps avail \<noteq> Inl DepOutOfFuel" by (rule addActionRequest_fuel)
  have client: "add_for_client mk setr ds av ps \<noteq> Inl DepOutOfFuel" for ds av ps
  proof -
    have "case foldE (\<lambda>p ps. addActionRequest mk setr ps p ds av) ks ps of Inr t \<Rightarrow> True | Inl e \<Rightarrow> e \<noteq> DepOutOfFuel" for ks
    proof (rule foldE_rule)
      fix x s
      show "case addActionRequest mk setr s x ds av of Inr t \<Rightarrow> True | Inl e \<Rightarrow> e \<noteq> DepOutOfFuel"
        using addActionRequest_fuel[of mk setr s x ds av] by (cases "addActionRequest mk setr s x ds av") auto
    qed simp
    from this[of "dict_keys ps"] show ?thesis
      unfolding add_for_client_def by (cases "foldE (\<lambda>p ps. addActionRequest mk setr ps p ds av) (dict_keys ps) ps") auto
  qed
  let ?d = "group_by d_productId (\<lambda>d. d) productDependencies"
  let ?a = "foldl (\<lambda>d p. AList.update (p_id p) p d) [] availableProducts"
  let ?f = "\<lambda>pocs out. bindE (add_for_client mk setr ?d ?a pocs) (\<lambda>pocs'. Inr (out @ dict_values pocs'))"
  have "case foldE ?f cs out of Inr t \<Rightarrow> True | Inl e \<Rightarrow> e \<noteq> DepOutOfFuel" for cs out
  proof (rule foldE_rule)
    fix x s
    show "case ?f x s of Inr t \<Rightarrow> True | Inl e \<Rightarrow> e \<noteq> DepOutOfFuel"
      using client[of ?d ?a x] by (cases "add_for_client mk setr ?d ?a x") auto
  qed simp
  from this[of "dict_values (pocsByClientIdAndProductId productOnClients)" "[]"]
  show "addDependentProductOnClients mk setr productOnClients availableProducts productDependencies \<noteq> Inl DepOutOfFuel"
    unfolding addDependentProductOnClients_def Let_def
    by (cases "foldE ?f (dict_values (pocsByClientIdAndProductId productOnClients)) []") simp_all
qed

text \<open>
  C24: After the dependencies of a product have been followed, the action of that product, and every
  action that was set on the way, can be met: each dependency declared for the action names an
  available product in an available version, or it requires no action and either no status or the one
  its product had, and then the product need not be available. An action whose dependencies cannot be
  met has been set to \<open>none\<close>. No dependency may be declared for the action \<open>none\<close> itself.
\<close>

theorem left_actions_can_be_met:
  assumes "poc_api mk setr" and "\<forall>x. \<forall>d \<in> set (dict_list deps x). d_productAction d \<noteq> ''none''"
    and "addActionRequest mk setr pocs p deps avail = Inr pocs'"
    and "x = p \<or> request_of pocs' x \<noteq> request_of pocs x"
    and "d \<in> set (dict_list deps x)" and "Some (d_productAction d) = request_of pocs' x"
  shows "version_available avail d \<or> \<not> truthy (d_requiredAction d) \<and>
    (d_requiredInstallationStatus d = None \<or> d_requiredInstallationStatus d = status_of pocs (d_requiredProductId d))"
proof -
  have "ok_request avail deps (status_of pocs) x (request_of pocs' x)"
    using addActionRequest_good[OF assms(1-3)] assms(4)
    by (cases "x = p") (simp add: good_call_def, auto simp: good_call_def kept_or_met_def)
  then show ?thesis using assms(5,6) by (simp add: ok_request_def meets_def)
qed

text \<open>
  C23: Following the dependencies of a product never overwrites an action that another product
  already has, and the product itself keeps its action or ends up with \<open>none\<close>.
\<close>

theorem requested_actions_kept:
  assumes "poc_api mk setr" and "\<forall>x. \<forall>d \<in> set (dict_list deps x). d_productAction d \<noteq> ''none''"
    and "addActionRequest mk setr pocs p deps avail = Inr pocs'"
  shows "if x = p then request_of pocs' p \<in> {request_of pocs p, Some ''none''}
     else request_of pocs x \<in> {None, Some ''none''} \<or> request_of pocs' x = request_of pocs x"
  using addActionRequest_good[OF assms] by (auto simp: good_call_def kept_or_met_def idle_def)

section \<open>Examples\<close>

text \<open>An instance of the interface of product-on-client objects, and a product that requires another.\<close>

definition plain_poc :: "string \<Rightarrow> string \<Rightarrow> string \<Rightarrow> product_on_client" where
  "plain_poc i t k = \<lparr>c_productId = i, c_productType = t, c_clientId = k, c_installationStatus = None,
     c_actionRequest = Some ''none'', c_actionSequence = -1\<rparr>"

definition plain_setr :: "string option \<Rightarrow> product_on_client \<Rightarrow> product_on_client option" where
  "plain_setr r c = Some (c\<lparr>c_actionRequest := r\<rparr>)"

lemma plain_api: "poc_api plain_poc plain_setr"
  by (auto simp: poc_api_def plain_poc_def plain_setr_def)

definition sample_deps :: "(string, product_dependency list) dict" where
  "sample_deps = [(''office'', [\<lparr>d_productId = ''office'', d_productAction = ''setup'', d_requiredProductId = ''runtime'',
     d_requiredProductVersion = None, d_requiredPackageVersion = None, d_requiredAction = Some ''setup'',
     d_requiredInstallationStatus = None, d_requirementType = Some ''before''\<rparr>])]"

definition sample_avail :: "(string, product) dict" where
  "sample_avail = [(''runtime'', \<lparr>p_id = ''runtime'', p_type = ''LocalbootProduct'', p_productVersion = ''1'',
     p_packageVersion = ''1'', p_priority = None\<rparr>)]"

definition sample_pocs :: pocs where
  "sample_pocs = [(''office'', (plain_poc ''office'' ''LocalbootProduct'' ''c1'')\<lparr>c_actionRequest := Some ''setup''\<rparr>)]"

lemma sample_run:
  "addActionRequest plain_poc plain_setr sample_pocs ''office'' sample_deps sample_avail =
     Inr [(''office'', (plain_poc ''office'' ''LocalbootProduct'' ''c1'')\<lparr>c_actionRequest := Some ''setup''\<rparr>),
          (''runtime'', (plain_poc ''runtime'' ''LocalbootProduct'' ''c1'')\<lparr>c_actionRequest := Some ''setup''\<rparr>)]"
  by code_simp

lemma sample_deps_no_none: "\<forall>x. \<forall>d \<in> set (dict_list sample_deps x). d_productAction d \<noteq> ''none''"
  by (simp add: sample_deps_def dict_list_def)

theorem left_actions_can_be_met_witness:
  "version_available sample_avail (hd (dict_list sample_deps ''office'')) \<or>
     \<not> truthy (d_requiredAction (hd (dict_list sample_deps ''office''))) \<and>
    (d_requiredInstallationStatus (hd (dict_list sample_deps ''office'')) = None \<or>
     d_requiredInstallationStatus (hd (dict_list sample_deps ''office'')) = status_of sample_pocs ''runtime'')"
  using left_actions_can_be_met[OF plain_api sample_deps_no_none sample_run, of "''office''" "hd (dict_list sample_deps ''office'')"]
  by (simp add: sample_deps_def dict_list_def request_of_def)

theorem requested_actions_kept_witness:
  "(if ''runtime'' = ''office''
     then request_of [(''office'', (plain_poc ''office'' ''LocalbootProduct'' ''c1'')\<lparr>c_actionRequest := Some ''setup''\<rparr>),
          (''runtime'', (plain_poc ''runtime'' ''LocalbootProduct'' ''c1'')\<lparr>c_actionRequest := Some ''setup''\<rparr>)] ''office''
       \<in> {request_of sample_pocs ''office'', Some ''none''}
     else request_of sample_pocs ''runtime'' \<in> {None, Some ''none''} \<or>
       request_of [(''office'', (plain_poc ''office'' ''LocalbootProduct'' ''c1'')\<lparr>c_actionRequest := Some ''setup''\<rparr>),
          (''runtime'', (plain_poc ''runtime'' ''LocalbootProduct'' ''c1'')\<lparr>c_actionRequest := Some ''setup''\<rparr>)] ''runtime''
       = request_of sample_pocs ''runtime'')"
  by (rule requested_actions_kept[OF plain_api sample_deps_no_none sample_run])

end
