(* ===== verification/Subjects.thy ===== *)
theory Subjects
  imports Prelude Complex_Main
begin

text \<open>
  The subjects of OPSI/Util/Message.py: objects that carry a message, a choice or the progress of a
  task and tell their observers about changes. The class hierarchy is a hierarchy of records. An
  observer is a number (its identity); a method that notifies returns the notifications in the
  order they are made. Arguments have the types the \<open>force...\<close> functions of opsicommon give them.
  Floating-point values (times, percentages) are exact rationals, the clock is an argument.
\<close>

section \<open>Subject\<close>

record subject =
  s_id :: string
  s_type :: string
  s_title :: string
  s_observers :: "nat list"

definition new_subject :: "string \<Rightarrow> string \<Rightarrow> string \<Rightarrow> subject" where
  "new_subject i ty ti = \<lparr>s_id = i, s_type = ty, s_title = ti, s_observers = []\<rparr>"

definition setTitle :: "string \<Rightarrow> 'a subject_scheme \<Rightarrow> 'a subject_scheme" where
  "setTitle t s = s\<lparr>s_title := t\<rparr>"

definition attachObserver :: "nat \<Rightarrow> 'a subject_scheme \<Rightarrow> 'a subject_scheme" where
  "attachObserver ob s = (if ob \<notin> set (s_observers s) then s\<lparr>s_observers := s_observers s @ [ob]\<rparr> else s)"

definition detachObserver :: "nat \<Rightarrow> 'a subject_scheme \<Rightarrow> 'a subject_scheme" where
  "detachObserver ob s = (if ob \<in> set (s_observers s) then s\<lparr>s_observers := remove1 ob (s_observers s)\<rparr> else s)"

datatype event =
    MessageChanged string
  | SelectedIndexesChanged "int list"
  | ChoicesChanged "string list"
  | EndChanged int
  | ProgressChanged int rat rat int int

type_synonym events = "(nat \<times> event) list"

definition notify_all :: "event \<Rightarrow> 'a subject_scheme \<Rightarrow> events" where
  "notify_all e s = map (\<lambda>ob. (ob, e)) (s_observers s)"

section \<open>MessageSubject\<close>

record message_subject = subject +
  s_message :: string
  s_severity :: int

definition message_reset :: "'a message_subject_scheme \<Rightarrow> 'a message_subject_scheme" where
  "message_reset s = s\<lparr>s_message := [], s_severity := 0\<rparr>"

definition message_args :: "string option \<Rightarrow> int option \<Rightarrow> 'a message_subject_scheme \<Rightarrow> 'a message_subject_scheme" where
  "message_args msg sev s =
     (let s1 = (case msg of Some m \<Rightarrow> s\<lparr>s_message := m\<rparr> | None \<Rightarrow> s)
      in case sev of Some v \<Rightarrow> s1\<lparr>s_severity := v\<rparr> | None \<Rightarrow> s1)"

definition new_message_subject ::
  "string \<Rightarrow> string \<Rightarrow> string \<Rightarrow> string option \<Rightarrow> int option \<Rightarrow> message_subject" where
  "new_message_subject i ty ti msg sev =
     message_args msg sev (message_reset (subject.extend (new_subject i ty ti) (message_subject.fields [] 0)))"

definition setMessage :: "string \<Rightarrow> int \<Rightarrow> 'a message_subject_scheme \<Rightarrow> 'a message_subject_scheme \<times> events" where
  "setMessage m sev s =
     (let s1 = s\<lparr>s_message := m, s_severity := sev\<rparr> in (s1, notify_all (MessageChanged m) s1))"

section \<open>ChoiceSubject\<close>

record choice_subject = message_subject +
  c_choices :: "string list"
  c_selected :: "int list"
  c_multiValue :: bool
  c_callbacks :: "nat list"

definition choice_reset :: "'a choice_subject_scheme \<Rightarrow> 'a choice_subject_scheme" where
  "choice_reset s = (message_reset s)\<lparr>c_choices := [], c_selected := [], c_multiValue := True\<rparr>"

text \<open>The constructor runs \<open>reset\<close> twice: in \<open>MessageSubject.__init__\<close> and after it.\<close>

definition new_choice_subject ::
  "string \<Rightarrow> string \<Rightarrow> string \<Rightarrow> string option \<Rightarrow> int option \<Rightarrow> bool option \<Rightarrow> string list option \<Rightarrow>
     int list option \<Rightarrow> nat list option \<Rightarrow> choice_subject" where
  "new_choice_subject i ty ti msg sev multi chs sel cbs =
     (let s0 = message_subject.extend (subject.extend (new_subject i ty ti) (message_subject.fields [] 0))
                 (choice_subject.fields [] [] True []);
          s1 = choice_reset (message_args msg sev (choice_reset s0));
          s2 = s1\<lparr>c_callbacks := []\<rparr>;
          s3 = (case multi of Some b \<Rightarrow> s2\<lparr>c_multiValue := b\<rparr> | None \<Rightarrow> s2);
          s4 = (case chs of Some cs \<Rightarrow> s3\<lparr>c_choices := cs\<rparr> | None \<Rightarrow> s3);
          s5 = (case sel of Some is \<Rightarrow> s4\<lparr>c_selected := is\<rparr> | None \<Rightarrow> s4)
      in case cbs of Some cb \<Rightarrow> s5\<lparr>c_callbacks := cb\<rparr> | None \<Rightarrow> s5)"

text \<open>The loop of \<open>setSelectedIndexes\<close>.\<close>

definition select_index :: "nat \<Rightarrow> bool \<Rightarrow> int \<Rightarrow> int list \<Rightarrow> int list" where
  "select_index n multi selectedIndex selected =
     (if selectedIndex < 0 \<or> selectedIndex > int n - 1 \<or> selectedIndex \<in> set selected then selected
      else if multi then [selectedIndex] else selected @ [selectedIndex])"

definition setSelectedIndexes :: "int list \<Rightarrow> 'a choice_subject_scheme \<Rightarrow> 'a choice_subject_scheme \<times> events" where
  "setSelectedIndexes idxs s =
     (let s1 = s\<lparr>c_selected := fold (select_index (length (c_choices s)) (c_multiValue s)) idxs []\<rparr>
      in (s1, notify_all (SelectedIndexesChanged (c_selected s1)) s1))"

definition setChoices :: "string list \<Rightarrow> 'a choice_subject_scheme \<Rightarrow> 'a choice_subject_scheme \<times> events" where
  "setChoices cs s =
     (let s1 = s\<lparr>c_choices := cs\<rparr>;
          s2 = (if cs \<noteq> [] \<and> c_selected s1 = [] then s1\<lparr>c_selected := [0]\<rparr> else s1)
      in (s2, notify_all (ChoicesChanged cs) s2))"

definition setCallbacks :: "nat list \<Rightarrow> 'a choice_subject_scheme \<Rightarrow> 'a choice_subject_scheme" where
  "setCallbacks cbs s = s\<lparr>c_callbacks := cbs\<rparr>"

text \<open>\<open>selectChoice\<close>: the callbacks it calls, in order.\<close>

definition selectChoice :: "'a choice_subject_scheme \<Rightarrow> nat list" where
  "selectChoice s =
     map (\<lambda>i. c_callbacks s ! nat i)
       (filter (\<lambda>i. i \<ge> 0 \<and> i < int (length (c_callbacks s))) (c_selected s))"

section \<open>ProgressSubject\<close>

record progress_subject = message_subject +
  fireAlways :: bool
  endChangable :: bool
  p_end :: int
  percent :: rat
  p_state :: int
  timeStarted :: rat
  timeSpend :: rat
  timeLeft :: int
  timeFired :: int
  speed :: int

text \<open>\<open>int(x)\<close> of a float\<close>

definition trunc :: "rat \<Rightarrow> int" where
  "trunc r = (if r \<ge> 0 then \<lfloor>r\<rfloor> else \<lceil>r\<rceil>)"

definition notify_progress :: "'a progress_subject_scheme \<Rightarrow> events" where
  "notify_progress s = notify_all (ProgressChanged (p_state s) (percent s) (timeSpend s) (timeLeft s) (speed s)) s"

definition progress_reset :: "rat \<Rightarrow> 'a progress_subject_scheme \<Rightarrow> 'a progress_subject_scheme \<times> events" where
  "progress_reset now s =
     (let s1 = (message_reset s)\<lparr>p_end := 0, endChangable := True, percent := 0, p_state := 0, timeStarted := now,
                  timeSpend := 0, timeLeft := 0, timeFired := 0, speed := 0\<rparr>
      in (s1, notify_all (EndChanged 0) s1 @ notify_progress s1))"

record progress_args =
  arg_end :: "int option"
  arg_percent :: "rat option"
  arg_state :: "int option"
  arg_timeStarted :: "rat option"
  arg_timeSpend :: "rat option"
  arg_timeLeft :: "int option"
  arg_timeFired :: "int option"
  arg_speed :: "int option"
  arg_fireAlways :: "bool option"

definition or_arg :: "'a option \<Rightarrow> 'a \<Rightarrow> 'a" where
  "or_arg a v = (case a of Some w \<Rightarrow> w | None \<Rightarrow> v)"

definition new_progress_subject ::
  "rat \<Rightarrow> string \<Rightarrow> string \<Rightarrow> string \<Rightarrow> string option \<Rightarrow> int option \<Rightarrow> progress_args \<Rightarrow> progress_subject" where
  "new_progress_subject now i ty ti msg sev args =
     (let s0 = message_subject.extend (subject.extend (new_subject i ty ti) (message_subject.fields [] 0))
                 (progress_subject.fields True True 0 0 0 0 0 0 0 0);
          s1 = fst (progress_reset now (message_args msg sev (fst (progress_reset now s0))));
          s2 = s1\<lparr>fireAlways := True, endChangable := True\<rparr>
      in s2\<lparr>p_end := (case arg_end args of Some e \<Rightarrow> if e < 0 then 0 else e | None \<Rightarrow> p_end s2),
            percent := or_arg (arg_percent args) (percent s2),
            p_state := or_arg (arg_state args) (p_state s2),
            timeStarted := or_arg (arg_timeStarted args) (timeStarted s2),
            timeSpend := or_arg (arg_timeSpend args) (timeSpend s2),
            timeLeft := or_arg (arg_timeLeft args) (timeLeft s2),
            timeFired := or_arg (arg_timeFired args) (timeFired s2),
            speed := or_arg (arg_speed args) (speed s2),
            fireAlways := or_arg (arg_fireAlways args) (fireAlways s2)\<rparr>)"

definition setEndChangable :: "bool \<Rightarrow> 'a progress_subject_scheme \<Rightarrow> 'a progress_subject_scheme" where
  "setEndChangable b s = s\<lparr>endChangable := b\<rparr>"

text \<open>Clamping the state: \<open>state <= 0\<close> gives 0 and percent 0, above the end gives the end and 100.\<close>

definition clamp_state :: "int \<Rightarrow> 'a progress_subject_scheme \<Rightarrow> 'a progress_subject_scheme" where
  "clamp_state st s =
     (let (st1, s1) = (if st \<le> 0 then (0, s\<lparr>percent := 0\<rparr>) else (st, s));
          (st2, s2) = (if st1 > p_end s1 then (p_end s1, s1\<lparr>percent := 100\<rparr>) else (st1, s1))
      in s2\<lparr>p_state := st2\<rparr>)"

definition fire :: "int \<Rightarrow> 'a progress_subject_scheme \<Rightarrow> 'a progress_subject_scheme" where
  "fire now s =
     (let s1 = s\<lparr>percent := (if p_state s = 0 then 0 else if p_end s = 0 then 100
                   else 100 * (of_int (p_state s) / of_int (p_end s))), timeSpend := of_int now - timeStarted s\<rparr>;
          s2 = (if timeSpend s1 \<noteq> 0 then
                  let sp = trunc (of_int (p_state s1) / timeSpend s1)
                  in if sp < 0 then s1\<lparr>speed := 0\<rparr>
                     else if sp > 0 then
                       s1\<lparr>speed := sp,
                          timeLeft := trunc ((of_int (timeLeft s1) * 2 + of_int (p_end s1 - p_state s1) / of_int sp) / 3)\<rparr>
                     else s1\<lparr>speed := sp\<rparr>
                else s1)
      in s2\<lparr>timeFired := now\<rparr>)"

definition setState :: "rat \<Rightarrow> int \<Rightarrow> 'a progress_subject_scheme \<Rightarrow> 'a progress_subject_scheme \<times> events" where
  "setState clock st s =
     (let s1 = clamp_state st s; now = trunc clock
      in if fireAlways s1 \<or> timeFired s1 \<noteq> now \<or> p_state s1 = 0 \<or> p_state s1 = p_end s1
         then (let s2 = fire now s1 in (s2, notify_progress s2))
         else (s1, []))"

definition setEnd :: "rat \<Rightarrow> int \<Rightarrow> 'a progress_subject_scheme \<Rightarrow> 'a progress_subject_scheme \<times> events" where
  "setEnd clock e s =
     (if \<not> endChangable s then (s, [])
      else
        let s1 = s\<lparr>p_end := (if e < 0 then 0 else e)\<rparr>;
            (s2, ev) = setState clock (p_state s1) s1
        in (s2, ev @ notify_all (EndChanged (p_end s2)) s2))"

definition addToState :: "rat \<Rightarrow> int \<Rightarrow> 'a progress_subject_scheme \<Rightarrow> 'a progress_subject_scheme \<times> events" where
  "addToState clock amount s = setState clock (p_state s + amount) s"

section \<open>The values of a progress subject\<close>

definition percent_done :: "'a progress_subject_scheme \<Rightarrow> rat" where
  "percent_done s = (if p_state s = 0 then 0 else 100 * (of_int (p_state s) / of_int (p_end s)))"

definition progress_inv :: "'a progress_subject_scheme \<Rightarrow> bool" where
  "progress_inv s \<longleftrightarrow> 0 \<le> p_state s \<and> p_state s \<le> p_end s \<and> 0 \<le> percent s \<and> percent s \<le> 100 \<and>
     0 \<le> speed s \<and> 0 \<le> timeLeft s \<and> (fireAlways s \<longrightarrow> percent s = percent_done s)"

text \<open>What the operations of a subject can do to it after it has been created.\<close>

inductive progress_step :: "progress_subject \<Rightarrow> progress_subject \<Rightarrow> bool" where
  step_reset: "progress_step s (fst (progress_reset now s))"
| step_message: "progress_step s (fst (setMessage m sev s))"
| step_title: "progress_step s (setTitle ti s)"
| step_attach: "progress_step s (attachObserver ob s)"
| step_detach: "progress_step s (detachObserver ob s)"
| step_changable: "progress_step s (setEndChangable b s)"
| step_end: "progress_step s (fst (setEnd now e s))"
| step_state: "progress_step s (fst (setState now st s))"
| step_add: "progress_step s (fst (addToState now amount s))"

inductive_cases progress_stepE: "progress_step s t"

inductive progress_reachable :: "progress_subject \<Rightarrow> bool" where
  created: "arg_percent args = None \<Longrightarrow> arg_state args = None \<Longrightarrow> arg_timeLeft args = None \<Longrightarrow> arg_speed args = None \<Longrightarrow>
    progress_reachable (new_progress_subject now i ty ti msg sev args)"
| stepped: "progress_reachable s \<Longrightarrow> progress_step s t \<Longrightarrow> progress_reachable t"

lemma trunc_nonneg: "0 \<le> r \<Longrightarrow> 0 \<le> trunc r"
  by (simp add: trunc_def)

lemma fire_fields:
  "p_state (fire now s) = p_state s" "p_end (fire now s) = p_end s" "fireAlways (fire now s) = fireAlways s"
  "percent (fire now s) = (if p_state s = 0 then 0 else if p_end s = 0 then 100 else 100 * (of_int (p_state s) / of_int (p_end s)))"
  by (simp_all add: fire_def Let_def)

lemma fire_speed:
  assumes "0 \<le> speed s"
  shows "0 \<le> speed (fire now s)"
  using assms by (simp add: fire_def Let_def)

lemma fire_timeLeft:
  assumes "0 \<le> timeLeft s" and "p_state s \<le> p_end s"
  shows "0 \<le> timeLeft (fire now s)"
  using assms by (auto simp: fire_def Let_def intro!: trunc_nonneg)

lemma ratio_bounds:
  assumes "0 < (a :: int)" and "a \<le> b"
  shows "0 \<le> 100 * (of_int a / of_int b :: rat) \<and> 100 * (of_int a / of_int b :: rat) \<le> 100"
proof -
  have "(of_int a :: rat) \<le> of_int b" "0 < (of_int b :: rat)" using assms by simp_all
  then show ?thesis using assms by (simp add: divide_le_eq)
qed

text \<open>What the other operations keep: everything but the end and the percentage.\<close>

lemma clamp_state_fields:
  assumes "0 \<le> p_end s"
  shows "0 \<le> p_state (clamp_state st s) \<and> p_state (clamp_state st s) \<le> p_end s"
    and "p_end (clamp_state st s) = p_end s" "speed (clamp_state st s) = speed s" "timeLeft (clamp_state st s) = timeLeft s"
    and "fireAlways (clamp_state st s) = fireAlways s" and "percent (clamp_state st s) \<in> {0, 100, percent s}"
  using assms by (auto simp: clamp_state_def Let_def)

lemma setState_inv:
  assumes "0 \<le> p_end s" "0 \<le> percent s" "percent s \<le> 100" "0 \<le> speed s" "0 \<le> timeLeft s"
  shows "progress_inv (fst (setState now st s))"
proof -
  let ?c = "clamp_state st s"
  note C = clamp_state_fields[OF assms(1), of st]
  have pc: "0 \<le> percent ?c \<and> percent ?c \<le> 100" using C(6) assms(2,3) by auto
  have fired: "progress_inv (fire n ?c)" for n
  proof -
    have "0 \<le> percent (fire n ?c) \<and> percent (fire n ?c) \<le> 100"
      using ratio_bounds[of "p_state ?c" "p_end s"] C(1,2) by (auto simp: fire_fields)
    moreover have "percent (fire n ?c) = percent_done (fire n ?c)"
      using C(1,2) by (auto simp: fire_fields percent_done_def)
    ultimately show ?thesis
      using C assms(4,5) fire_speed[of ?c n] fire_timeLeft[of ?c n] by (simp add: progress_inv_def fire_fields)
  qed
  show ?thesis
  proof (cases "fireAlways ?c \<or> timeFired ?c \<noteq> trunc now \<or> p_state ?c = 0 \<or> p_state ?c = p_end ?c")
    case True
    then show ?thesis using fired by (simp add: setState_def Let_def)
  next
    case False
    then show ?thesis using C pc assms(4,5) by (simp add: setState_def Let_def progress_inv_def)
  qed
qed

lemma progress_inv_step: "progress_step s t \<Longrightarrow> progress_inv s \<Longrightarrow> progress_inv t"
proof (erule progress_stepE)
  fix now e assume inv: "progress_inv s" and t: "t = fst (setEnd now e s)"
  show "progress_inv t"
  proof (cases "endChangable s")
    case True
    let ?s1 = "s\<lparr>p_end := (if e < 0 then 0 else e)\<rparr>"
    have "t = fst (setState now (p_state ?s1) ?s1)" using True by (simp add: t setEnd_def Let_def case_prod_beta)
    moreover have "progress_inv (fst (setState now (p_state ?s1) ?s1))"
      using inv by (intro setState_inv) (auto simp: progress_inv_def)
    ultimately show ?thesis by simp
  qed (use inv t in \<open>simp add: setEnd_def\<close>)
next
  fix now st assume inv: "progress_inv s" and t: "t = fst (setState now st s)"
  show "progress_inv t" unfolding t using inv by (intro setState_inv) (auto simp: progress_inv_def)
next
  fix now a assume inv: "progress_inv s" and t: "t = fst (addToState now a s)"
  show "progress_inv t" unfolding t addToState_def using inv by (intro setState_inv) (auto simp: progress_inv_def)
qed (auto simp: progress_inv_def percent_done_def progress_reset_def message_reset_def setMessage_def setTitle_def
  attachObserver_def detachObserver_def setEndChangable_def Let_def)

lemma progress_inv_created:
  "arg_percent args = None \<Longrightarrow> arg_state args = None \<Longrightarrow> arg_timeLeft args = None \<Longrightarrow> arg_speed args = None \<Longrightarrow>
    progress_inv (new_progress_subject now i ty ti msg sev args)"
  by (simp add: new_progress_subject_def Let_def progress_inv_def percent_done_def progress_reset_def message_reset_def
      or_arg_def split: option.splits)

lemma progress_inv_reachable: "progress_reachable s \<Longrightarrow> progress_inv s"
  by (induction rule: progress_reachable.induct) (auto intro: progress_inv_created progress_inv_step)

section \<open>The selection of a choice\<close>

abbreviation in_choices :: "nat \<Rightarrow> int \<Rightarrow> bool" where
  "in_choices n i \<equiv> 0 \<le> i \<and> i < int n"

lemma select_multi:
  "fold (select_index n True) is [] = (case filter (in_choices n) is of [] \<Rightarrow> [] | js \<Rightarrow> [last js])"
proof (induction "is" rule: rev_induct)
  case (snoc i "is")
  then show ?case by (auto simp: select_index_def split: list.splits)
qed simp

lemma select_single: "fold (select_index n False) is [] = rev (remdups (rev (filter (in_choices n) is)))"
proof (induction "is" rule: rev_induct)
  case (snoc i "is")
  then show ?case by (auto simp: select_index_def)
qed simp

section \<open>Proxies\<close>

text \<open>
  \<open>MessageSubjectProxy\<close> is a progress and a choice subject. Its method resolution order finds
  \<open>ProgressSubject.reset\<close> first, which calls \<open>MessageSubject.reset\<close> directly, so that
  \<open>ChoiceSubject.reset\<close> never runs: an attribute of the choice exists only when the constructor
  got it as an argument. A missing attribute is None.
\<close>

record proxy = progress_subject +
  x_choices :: "string list option"
  x_selected :: "int list option"
  x_multiValue :: "bool option"
  x_callbacks :: "nat list"

datatype proxy_error = AttributeError

definition new_proxy ::
  "rat \<Rightarrow> string \<Rightarrow> string \<Rightarrow> string \<Rightarrow> string option \<Rightarrow> int option \<Rightarrow> progress_args \<Rightarrow> bool option \<Rightarrow>
     string list option \<Rightarrow> int list option \<Rightarrow> nat list option \<Rightarrow> proxy" where
  "new_proxy now i ty ti msg sev args multi chs sel cbs =
     progress_subject.extend (new_progress_subject now i ty ti msg sev args)
       (proxy.fields chs sel multi (or_arg cbs []))"

definition proxy_setSelectedIndexes :: "int list \<Rightarrow> proxy \<Rightarrow> (proxy_error, proxy \<times> events) result" where
  "proxy_setSelectedIndexes idxs s =
     bindE (foldE (\<lambda>i sel.
         if i < 0 then Inr sel
         else case x_choices s of
           None \<Rightarrow> Inl AttributeError
         | Some cs \<Rightarrow>
             if i > int (length cs) - 1 \<or> i \<in> set sel then Inr sel
             else case x_multiValue s of
               None \<Rightarrow> Inl AttributeError
             | Some multi \<Rightarrow> Inr (if multi then [i] else sel @ [i])) idxs [])
       (\<lambda>sel. let s1 = s\<lparr>x_selected := Some sel\<rparr> in Inr (s1, notify_all (SelectedIndexesChanged sel) s1))"

definition proxy_setChoices :: "string list \<Rightarrow> proxy \<Rightarrow> (proxy_error, proxy \<times> events) result" where
  "proxy_setChoices cs s =
     (let s1 = s\<lparr>x_choices := Some cs\<rparr>
      in if cs = [] then Inr (s1, notify_all (ChoicesChanged cs) s1)
         else case x_selected s1 of
           None \<Rightarrow> Inl AttributeError
         | Some sel \<Rightarrow>
             (let s2 = (if sel = [] then s1\<lparr>x_selected := Some [0]\<rparr> else s1)
              in Inr (s2, notify_all (ChoicesChanged cs) s2)))"

text \<open>The observer methods of a proxy pass the change on.\<close>

definition proxy_notified :: "rat \<Rightarrow> int \<Rightarrow> event \<Rightarrow> proxy \<Rightarrow> (proxy_error, proxy \<times> events) result" where
  "proxy_notified now severity e s =
     (case e of
        MessageChanged m \<Rightarrow> Inr (setMessage m severity s)
      | SelectedIndexesChanged idxs \<Rightarrow> proxy_setSelectedIndexes idxs s
      | ChoicesChanged cs \<Rightarrow> proxy_setChoices cs s
      | EndChanged en \<Rightarrow> Inr (setEnd now en s)
      | ProgressChanged st _ _ _ _ \<Rightarrow> Inr (setState now st s))"

lemma new_proxy_fields:
  "x_choices (new_proxy now i ty ti msg sev args multi chs sel cbs) = chs"
  "x_selected (new_proxy now i ty ti msg sev args multi chs sel cbs) = sel"
  by (simp_all add: new_proxy_def progress_subject.defs proxy.defs)

section \<open>Properties\<close>

text \<open>
  Whatever sequence of operations a progress subject goes through after its creation, its state
  lies between 0 and its end, its percentage between 0 and 100, speed and remaining time are not
  negative, and a subject that fires always shows the exact percentage of its state.
\<close>

theorem progress_always_consistent:
  assumes "progress_reachable s"
  shows "0 \<le> p_state s \<and> p_state s \<le> p_end s \<and> 0 \<le> percent s \<and> percent s \<le> 100 \<and> 0 \<le> speed s \<and>
     0 \<le> timeLeft s \<and> (fireAlways s \<longrightarrow> percent s = percent_done s)"
  using progress_inv_reachable[OF assms] by (simp add: progress_inv_def)

definition no_args :: progress_args where
  "no_args = \<lparr>arg_end = None, arg_percent = None, arg_state = None, arg_timeStarted = None, arg_timeSpend = None,
     arg_timeLeft = None, arg_timeFired = None, arg_speed = None, arg_fireAlways = None\<rparr>"

definition sample_progress :: progress_subject where
  "sample_progress = fst (setState 12 4 (fst (setEnd 11 10 (new_progress_subject 10 ''copy'' [] [] None None no_args))))"

lemma sample_progress_reachable: "progress_reachable sample_progress"
  unfolding sample_progress_def
  by (rule stepped[OF _ step_state], rule stepped[OF _ step_end], rule created) (simp_all add: no_args_def)

theorem progress_always_consistent_witness:
  "0 \<le> p_state sample_progress \<and> p_state sample_progress \<le> p_end sample_progress \<and> 0 \<le> percent sample_progress \<and>
     percent sample_progress \<le> 100 \<and> 0 \<le> speed sample_progress \<and> 0 \<le> timeLeft sample_progress \<and>
     (if fireAlways sample_progress then percent sample_progress = percent_done sample_progress else True)"
  using progress_always_consistent[OF sample_progress_reachable] by simp

text \<open>
  Selecting indexes keeps only indexes of existing choices: all of them once, in order, when the
  subject is not multi-valued, and the last one alone when it is; every observer is told the result.
\<close>

theorem selection_result:
  "setSelectedIndexes idxs s =
     (let valid = filter (\<lambda>i. 0 \<le> i \<and> i < int (length (c_choices s))) idxs;
          sel = (if c_multiValue s then (if valid = [] then [] else [last valid]) else rev (remdups (rev valid)));
          s' = s\<lparr>c_selected := sel\<rparr>
      in (s', map (\<lambda>ob. (ob, SelectedIndexesChanged sel)) (s_observers s)))"
  by (auto simp: setSelectedIndexes_def Let_def select_multi select_single notify_all_def split: list.splits)

text \<open>
  The message and the severity given to the constructor of a choice or progress subject are
  lost: a new subject has the empty message and severity 0.
\<close>

theorem constructor_message_lost:
  "s_message (new_choice_subject i ty ti msg sev multi chs sel cbs) = [] \<and>
   s_severity (new_choice_subject i ty ti msg sev multi chs sel cbs) = 0 \<and>
   s_message (new_progress_subject now i ty ti msg sev args) = [] \<and>
   s_severity (new_progress_subject now i ty ti msg sev args) = 0 \<and>
   s_message (new_message_subject i ty ti (Some m) sev) = m"
  by (simp add: new_choice_subject_def new_progress_subject_def new_message_subject_def Let_def choice_reset_def
      progress_reset_def message_reset_def message_args_def subject.defs message_subject.defs split: option.splits)

text \<open>
  A proxy that was not created with choices, selection and kind of value as arguments fails on
  the first choices or the first valid selection its subject reports.
\<close>

theorem proxy_choice_fails:
  "proxy_notified now' v (ChoicesChanged (c # cs)) (new_proxy now i ty ti msg sev args multi chs None cbs) = Inl AttributeError \<and>
   proxy_notified now' v (SelectedIndexesChanged [int n]) (new_proxy now i ty ti msg sev args multi None sel cbs) = Inl AttributeError"
  by (simp add: proxy_notified_def proxy_setChoices_def proxy_setSelectedIndexes_def new_proxy_fields)

end
