(* ===== verification/Json.thy ===== *)
theory Json
  imports Prelude Complex_Main
begin

text \<open>
  JSON values as Python has them after parsing, and what the code does with them: truth, indexing by
  a key or a position, use as a dictionary key.
\<close>

datatype json = JNull | JBool bool | JInt int | JRat rat | JStr string | JList "json list" | JDict "(string \<times> json) list"

fun json_true :: "json \<Rightarrow> bool" where
  "json_true JNull = False"
| "json_true (JBool b) = b"
| "json_true (JInt i) = (i \<noteq> 0)"
| "json_true (JRat r) = (r \<noteq> 0)"
| "json_true (JStr s) = (s \<noteq> [])"
| "json_true (JList l) = (l \<noteq> [])"
| "json_true (JDict d) = (d \<noteq> [])"

text \<open>Indexing a parsed value by a string or by a position; None when Python raises.\<close>

fun json_key :: "string \<Rightarrow> json \<Rightarrow> json option" where
  "json_key k (JDict d) = map_of d k"
| "json_key k _ = None"

fun json_nth :: "nat \<Rightarrow> json \<Rightarrow> json option" where
  "json_nth n (JList l) = (if n < length l then Some (l ! n) else None)"
| "json_nth n (JStr s) = (if n < length s then Some (JStr [s ! n]) else None)"
| "json_nth n _ = None"

fun hashable :: "json \<Rightarrow> bool" where
  "hashable (JList l) = False"
| "hashable (JDict d) = False"
| "hashable v = True"

end
