(* ===== verification/Notifications.thy ===== *)
theory Notifications
  imports Subjects Json
begin

text \<open>
  The observer that collects subjects (\<open>SubjectsObserver\<close>), the notification server built on it and
  the notification client of OPSI/Util/Message.py. Subjects live in a store and are referred to by
  their address; clients and observers are identities. JSON parsing (\<open>loads\<close>), \<open>forceIntList\<close> and
  the network (the outcome of listening on a port) are parameters.
\<close>

section \<open>Serialised subjects\<close>

datatype any_subject = MessageS message_subject | ChoiceS choice_subject | ProgressS progress_subject

definition subject_dict :: "string \<Rightarrow> 'a subject_scheme \<Rightarrow> (string \<times> json) list" where
  "subject_dict cls s = [(''id'', JStr (s_id s)), (''type'', JStr (s_type s)), (''title'', JStr (s_title s)), (''class'', JStr cls)]"

definition message_dict :: "string \<Rightarrow> 'a message_subject_scheme \<Rightarrow> (string \<times> json) list" where
  "message_dict cls s = subject_dict cls s @ [(''message'', JStr (s_message s)), (''severity'', JInt (s_severity s))]"

definition choice_dict :: "'a choice_subject_scheme \<Rightarrow> (string \<times> json) list" where
  "choice_dict s = message_dict ''ChoiceSubject'' s @
     [(''choices'', JList (map JStr (c_choices s))), (''selectedIndexes'', JList (map JInt (c_selected s)))]"

definition progress_dict :: "'a progress_subject_scheme \<Rightarrow> (string \<times> json) list" where
  "progress_dict s = message_dict ''ProgressSubject'' s @
     [(''end'', JInt (p_end s)), (''state'', JInt (p_state s)), (''percent'', JRat (percent s)),
      (''timeSpend'', JRat (timeSpend s)), (''timeLeft'', JInt (timeLeft s)), (''speed'', JInt (speed s))]"

definition serializable :: "any_subject \<Rightarrow> json" where
  "serializable x = JDict (case x of MessageS s \<Rightarrow> message_dict ''MessageSubject'' s
     | ChoiceS s \<Rightarrow> choice_dict s | ProgressS s \<Rightarrow> progress_dict s)"

definition any_observers :: "any_subject \<Rightarrow> nat list" where
  "any_observers x = (case x of MessageS s \<Rightarrow> s_observers s | ChoiceS s \<Rightarrow> s_observers s | ProgressS s \<Rightarrow> s_observers s)"

definition any_attach :: "nat \<Rightarrow> any_subject \<Rightarrow> any_subject" where
  "any_attach ob x = (case x of MessageS s \<Rightarrow> MessageS (attachObserver ob s)
     | ChoiceS s \<Rightarrow> ChoiceS (attachObserver ob s) | ProgressS s \<Rightarrow> ProgressS (attachObserver ob s))"

definition any_detach :: "nat \<Rightarrow> any_subject \<Rightarrow> any_subject" where
  "any_detach ob x = (case x of MessageS s \<Rightarrow> MessageS (detachObserver ob s)
     | ChoiceS s \<Rightarrow> ChoiceS (detachObserver ob s) | ProgressS s \<Rightarrow> ProgressS (detachObserver ob s))"

section \<open>SubjectsObserver and the server's factory\<close>

type_synonym store = "nat \<Rightarrow> any_subject"

record hub =
  h_self :: nat
  h_store :: store
  h_subjects :: "nat list"
  h_clients :: "nat list"

type_synonym sends = "(nat \<times> json) list"

definition notification :: "string \<Rightarrow> json list \<Rightarrow> json" where
  "notification name params = JDict [(''id'', JNull), (''method'', JStr name), (''params'', JList params)]"

text \<open>\<open>notify\<close> without an explicit list of clients: a failed send does not keep the others from getting the line.\<close>

definition hub_notify :: "string \<Rightarrow> json list \<Rightarrow> hub \<Rightarrow> sends" where
  "hub_notify name params h = map (\<lambda>c. (c, notification name params)) (h_clients h)"

definition subjectsChanged :: "hub \<Rightarrow> sends" where
  "subjectsChanged h = hub_notify ''subjectsChanged'' [JList (map (\<lambda>r. serializable (h_store h r)) (h_subjects h))] h"

definition detach_ref :: "nat \<Rightarrow> hub \<Rightarrow> hub" where
  "detach_ref r h = h\<lparr>h_store := (h_store h)(r := any_detach (h_self h) (h_store h r))\<rparr>"

definition attach_ref :: "nat \<Rightarrow> hub \<Rightarrow> hub" where
  "attach_ref r h = h\<lparr>h_store := (h_store h)(r := any_attach (h_self h) (h_store h r))\<rparr>"

definition setSubjects :: "nat list \<Rightarrow> hub \<Rightarrow> hub \<times> sends" where
  "setSubjects rs h =
     (let h1 = fold detach_ref (h_subjects h) h;
          h2 = fold attach_ref rs (h1\<lparr>h_subjects := rs\<rparr>)
      in (h2, subjectsChanged h2))"

definition addSubject :: "nat \<Rightarrow> hub \<Rightarrow> hub \<times> sends" where
  "addSubject r h =
     (let h1 = (if r \<notin> set (h_subjects h) then attach_ref r (h\<lparr>h_subjects := h_subjects h @ [r]\<rparr>) else h)
      in (h1, subjectsChanged h1))"

definition removeSubject :: "nat \<Rightarrow> hub \<Rightarrow> hub \<times> sends" where
  "removeSubject r h =
     (let h1 = (if r \<in> set (h_subjects h) then (detach_ref r h)\<lparr>h_subjects := remove1 r (h_subjects h)\<rparr> else h)
      in (h1, subjectsChanged h1))"

definition connectionMade :: "nat \<Rightarrow> hub \<Rightarrow> hub \<times> sends" where
  "connectionMade c h = (let h1 = h\<lparr>h_clients := h_clients h @ [c]\<rparr> in (h1, subjectsChanged h1))"

definition connectionLost :: "nat \<Rightarrow> hub \<Rightarrow> hub option" where
  "connectionLost c h = (if c \<in> set (h_clients h) then Some (h\<lparr>h_clients := remove1 c (h_clients h)\<rparr>) else None)"

definition requestEndConnections :: "json \<Rightarrow> hub \<Rightarrow> sends" where
  "requestEndConnections clientIds h = (if h_clients h = [] then [] else hub_notify ''endConnection'' [clientIds] h)"

text \<open>The five observer methods: an unknown subject is added first.\<close>

definition event_line :: "json \<Rightarrow> event \<Rightarrow> string \<times> json list" where
  "event_line subj e =
     (case e of
        MessageChanged m \<Rightarrow> (''messageChanged'', [subj, JStr m])
      | SelectedIndexesChanged is \<Rightarrow> (''selectedIndexesChanged'', [subj, JList (map JInt is)])
      | ChoicesChanged cs \<Rightarrow> (''choicesChanged'', [subj, JList (map JStr cs)])
      | ProgressChanged st pc ts left sp \<Rightarrow> (''progressChanged'', [subj, JInt st, JRat pc, JRat ts, JInt left, JInt sp])
      | EndChanged en \<Rightarrow> (''endChanged'', [subj, JInt en]))"

definition hub_event :: "nat \<Rightarrow> event \<Rightarrow> hub \<Rightarrow> hub \<times> sends" where
  "hub_event r e h =
     (let (h1, s1) = (if r \<notin> set (h_subjects h) then addSubject r h else (h, []));
          (name, params) = event_line (serializable (h_store h1 r)) e
      in (h1, s1 @ hub_notify name params h1))"

text \<open>Delivering the notifications of subject \<open>r\<close>; other observers are outside the hub.\<close>

definition deliver :: "nat \<Rightarrow> events \<Rightarrow> hub \<Rightarrow> hub \<times> sends" where
  "deliver r evs h =
     fold (\<lambda>(ob, e) (h, s). if ob = h_self h then (let (h', s') = hub_event r e h in (h', s @ s')) else (h, s)) evs (h, [])"

section \<open>Remote calls\<close>

text \<open>The first choice subject with the id.\<close>

definition find_choice :: "json \<Rightarrow> hub \<Rightarrow> nat option" where
  "find_choice sid h =
     find (\<lambda>r. case h_store h r of ChoiceS s \<Rightarrow> JStr (s_id s) = sid | _ \<Rightarrow> False) (h_subjects h)"

definition run_callbacks :: "(nat \<Rightarrow> bool) \<Rightarrow> nat list \<Rightarrow> nat list" where
  "run_callbacks raises cbs = takeWhile (\<lambda>c. \<not> raises c) cbs @ take 1 (dropWhile (\<lambda>c. \<not> raises c) cbs)"

text \<open>
  \<open>rpc\<close>: the new state, the lines sent and the callbacks called. Every exception is logged and
  swallowed. \<open>ints\<close> is \<open>forceIntList\<close>, \<open>raises\<close> tells which callbacks raise.
\<close>

definition hub_rpc ::
  "('l \<Rightarrow> json option) \<Rightarrow> (json \<Rightarrow> int list option) \<Rightarrow> (nat \<Rightarrow> bool) \<Rightarrow> 'l \<Rightarrow> hub \<Rightarrow> hub \<times> sends \<times> nat list" where
  "hub_rpc loads ints raises line h =
     (case loads line of
        None \<Rightarrow> (h, [], [])
      | Some rpc \<Rightarrow>
          (case (json_key ''method'' rpc, json_key ''params'' rpc) of
             (Some method, Some params) \<Rightarrow>
               (if method = JStr ''setSelectedIndexes'' then
                  (case (json_nth 0 params, json_nth 1 params) of
                     (Some subjectId, Some selectedIndexes) \<Rightarrow>
                       (case find_choice subjectId h of
                          None \<Rightarrow> (h, [], [])
                        | Some r \<Rightarrow>
                            (case (h_store h r, ints selectedIndexes) of
                               (ChoiceS s, Some idxs) \<Rightarrow>
                                 (let (s', evs) = setSelectedIndexes idxs s;
                                      (h', out) = deliver r evs (h\<lparr>h_store := (h_store h)(r := ChoiceS s')\<rparr>)
                                  in (h', out, []))
                             | (ChoiceS s, None) \<Rightarrow> (h\<lparr>h_store := (h_store h)(r := ChoiceS (s\<lparr>c_selected := []\<rparr>))\<rparr>, [], [])
                             | _ \<Rightarrow> (h, [], [])))
                   | _ \<Rightarrow> (h, [], []))
                else if method = JStr ''selectChoice'' then
                  (case json_nth 0 params of
                     None \<Rightarrow> (h, [], [])
                   | Some subjectId \<Rightarrow>
                       (case find_choice subjectId h of
                          None \<Rightarrow> (h, [], [])
                        | Some r \<Rightarrow>
                            (case h_store h r of
                               ChoiceS s \<Rightarrow> (h, [], run_callbacks raises (selectChoice s))
                             | _ \<Rightarrow> (h, [], []))))
                else (h, [], []))
           | _ \<Rightarrow> (h, [], [])))"

section \<open>Listening\<close>

datatype attempt = Listening | ListenError string | ReactorError string

record server =
  sv_port :: int
  sv_listening :: bool
  sv_error :: "string option"

definition new_server :: server where
  "new_server = \<lparr>sv_port = 0, sv_listening = False, sv_error = None\<rparr>"

text \<open>\<open>NotificationServer.run\<close>: up to 20 attempts on ascending ports.\<close>

function server_loop :: "(nat \<Rightarrow> int \<Rightarrow> attempt) \<Rightarrow> nat \<Rightarrow> int \<Rightarrow> server \<Rightarrow> server" where
  "server_loop listen tried port sv =
     (let trynum = tried + 1
      in case listen trynum port of
           Listening \<Rightarrow> sv\<lparr>sv_port := port, sv_listening := True\<rparr>
         | ListenError e \<Rightarrow>
             if trynum \<ge> 20 then sv\<lparr>sv_error := Some e\<rparr> else server_loop listen trynum (port + 1) sv
         | ReactorError e \<Rightarrow>
             (let sv1 = sv\<lparr>sv_port := port, sv_listening := True\<rparr>
              in if trynum \<ge> 20 then sv1\<lparr>sv_error := Some e\<rparr> else server_loop listen trynum (port + 1) sv1))"
  by pat_completeness auto
termination by (relation "measure (\<lambda>(l, tried, p, sv). 20 - tried)") auto

declare server_loop.simps [simp del]

definition server_run :: "(nat \<Rightarrow> int \<Rightarrow> attempt) \<Rightarrow> int \<Rightarrow> server" where
  "server_run listen start_port = server_loop listen 0 start_port new_server"

section \<open>The client\<close>

record client_state =
  cl_id :: "string option"
  cl_rpcs :: "(json \<times> json) list"
  cl_callbacks :: "nat list"

definition addEndConnectionRequestedCallback :: "nat \<Rightarrow> client_state \<Rightarrow> client_state" where
  "addEndConnectionRequestedCallback cb c =
     (if cb \<notin> set (cl_callbacks c) then c\<lparr>cl_callbacks := cl_callbacks c @ [cb]\<rparr> else c)"

definition removeEndConnectionRequestedCallback :: "nat \<Rightarrow> client_state \<Rightarrow> client_state" where
  "removeEndConnectionRequestedCallback cb c =
     (if cb \<in> set (cl_callbacks c) then c\<lparr>cl_callbacks := remove1 cb (cl_callbacks c)\<rparr> else c)"

text \<open>\<open>eval(source, globals)\<close> with a string for the globals raises \<open>TypeError\<close>.\<close>

datatype client_error = BadMessage | TypeError

definition eval_with_string_globals :: "string \<Rightarrow> json \<Rightarrow> (client_error, string \<times> json list) result" where
  "eval_with_string_globals source globals = Inl TypeError"

datatype reaction = AnswerStored | EndRequested "nat list" | NotConcerned | ObserverCalled string "json list" | ErrorLogged client_error

text \<open>\<open>receive\<close>; \<open>force_list\<close> is the \<open>forceList\<close> of opsicommon.\<close>

definition client_receive ::
  "('l \<Rightarrow> json option) \<Rightarrow> (json \<Rightarrow> json list) \<Rightarrow> 'l \<Rightarrow> client_state \<Rightarrow> client_state \<times> reaction" where
  "client_receive loads force_list line c =
     (case loads line of
        None \<Rightarrow> (c, ErrorLogged BadMessage)
      | Some rpc \<Rightarrow>
          (case json_key ''id'' rpc of
             None \<Rightarrow> (c, ErrorLogged BadMessage)
           | Some i \<Rightarrow>
               (if json_true i \<and> \<not> hashable i then (c, ErrorLogged TypeError)
                else if json_true i then (c\<lparr>cl_rpcs := AList.update i rpc (cl_rpcs c)\<rparr>, AnswerStored)
                else
                  (case (json_key ''method'' rpc, json_key ''params'' rpc) of
                     (Some method, Some params) \<Rightarrow>
                       (if method = JStr ''endConnection'' then
                          (if \<not> json_true params then (c, EndRequested (cl_callbacks c))
                           else
                             (case json_nth 0 params of
                                None \<Rightarrow> (c, ErrorLogged BadMessage)
                              | Some ids \<Rightarrow>
                                  (if \<not> json_true ids \<or> cl_id c = None \<or> cl_id c = Some [] \<or>
                                      JStr (the (cl_id c)) \<in> set (force_list ids)
                                   then (c, EndRequested (cl_callbacks c)) else (c, NotConcerned))))
                        else
                          (case eval_with_string_globals ''self._observer.%s(*params)'' method of
                             Inl e \<Rightarrow> (c, ErrorLogged e)
                           | Inr (name, ps) \<Rightarrow> (c, ObserverCalled name ps)))
                   | _ \<Rightarrow> (c, ErrorLogged BadMessage)))))"

section \<open>Attached exactly to its subjects\<close>

lemma any_observers_attach: "set (any_observers (any_attach ob x)) = insert ob (set (any_observers x))"
  by (auto simp: any_observers_def any_attach_def attachObserver_def split: any_subject.splits)

lemma any_observers_detach:
  "distinct (any_observers x) \<Longrightarrow> set (any_observers (any_detach ob x)) = set (any_observers x) - {ob}"
  by (auto simp: any_observers_def any_detach_def detachObserver_def split: any_subject.splits)

lemma distinct_any_attach: "distinct (any_observers x) \<Longrightarrow> distinct (any_observers (any_attach ob x))"
  by (auto simp: any_observers_def any_attach_def attachObserver_def split: any_subject.splits)

lemma distinct_any_detach: "distinct (any_observers x) \<Longrightarrow> distinct (any_observers (any_detach ob x))"
  by (auto simp: any_observers_def any_detach_def detachObserver_def split: any_subject.splits)

definition observed :: "hub \<Rightarrow> nat \<Rightarrow> bool" where
  "observed h r \<longleftrightarrow> h_self h \<in> set (any_observers (h_store h r))"

definition distinct_observers :: "hub \<Rightarrow> bool" where
  "distinct_observers h \<longleftrightarrow> (\<forall>r. distinct (any_observers (h_store h r)))"

definition hub_inv :: "hub \<Rightarrow> bool" where
  "hub_inv h \<longleftrightarrow> distinct_observers h \<and> distinct (h_subjects h) \<and> (\<forall>r. observed h r \<longleftrightarrow> r \<in> set (h_subjects h))"

lemma attach_ref_simps:
  "h_self (attach_ref r h) = h_self h" "h_subjects (attach_ref r h) = h_subjects h" "h_clients (attach_ref r h) = h_clients h"
  "observed (attach_ref r h) x \<longleftrightarrow> x = r \<or> observed h x"
  "distinct_observers h \<Longrightarrow> distinct_observers (attach_ref r h)"
  by (auto simp: attach_ref_def observed_def any_observers_attach distinct_observers_def distinct_any_attach)

lemma detach_ref_simps:
  "h_self (detach_ref r h) = h_self h" "h_subjects (detach_ref r h) = h_subjects h" "h_clients (detach_ref r h) = h_clients h"
  "distinct_observers h \<Longrightarrow> observed (detach_ref r h) x \<longleftrightarrow> x \<noteq> r \<and> observed h x"
  "distinct_observers h \<Longrightarrow> distinct_observers (detach_ref r h)"
  by (auto simp: detach_ref_def observed_def any_observers_detach distinct_observers_def distinct_any_detach)

lemma fold_attach_ref:
  "h_self (fold attach_ref rs h) = h_self h \<and> h_subjects (fold attach_ref rs h) = h_subjects h \<and>
   h_clients (fold attach_ref rs h) = h_clients h \<and>
   (observed (fold attach_ref rs h) x \<longleftrightarrow> x \<in> set rs \<or> observed h x) \<and>
   (distinct_observers h \<longrightarrow> distinct_observers (fold attach_ref rs h))"
  by (induction rs arbitrary: h) (auto simp: attach_ref_simps)

lemma fold_detach_ref:
  "distinct_observers h \<Longrightarrow>
   h_self (fold detach_ref rs h) = h_self h \<and> h_clients (fold detach_ref rs h) = h_clients h \<and>
   (observed (fold detach_ref rs h) x \<longleftrightarrow> x \<notin> set rs \<and> observed h x) \<and> distinct_observers (fold detach_ref rs h)"
  by (induction rs arbitrary: h) (auto simp: detach_ref_simps)

lemma observed_subjects_update [simp]:
  "observed (h\<lparr>h_subjects := rs\<rparr>) r = observed h r" "distinct_observers (h\<lparr>h_subjects := rs\<rparr>) = distinct_observers h"
  by (simp_all add: observed_def distinct_observers_def)

lemma hub_inv_setSubjects: "hub_inv h \<Longrightarrow> distinct rs \<Longrightarrow> hub_inv (fst (setSubjects rs h))"
  using fold_attach_ref[of rs "(fold detach_ref (h_subjects h) h)\<lparr>h_subjects := rs\<rparr>"] fold_detach_ref[of h "h_subjects h"]
  by (simp add: hub_inv_def setSubjects_def Let_def)

lemma hub_inv_addSubject: "hub_inv h \<Longrightarrow> hub_inv (fst (addSubject r h))"
  by (auto simp: hub_inv_def addSubject_def Let_def attach_ref_simps)

lemma hub_inv_removeSubject: "hub_inv h \<Longrightarrow> hub_inv (fst (removeSubject r h))"
  by (auto simp: hub_inv_def removeSubject_def Let_def detach_ref_simps)

lemma hub_inv_event: "hub_inv h \<Longrightarrow> hub_inv (fst (hub_event r e h))"
  using hub_inv_addSubject[of h r] by (auto simp: hub_event_def Let_def case_prod_beta)

lemma hub_inv_clients: "hub_inv (h\<lparr>h_clients := cs\<rparr>) = hub_inv h"
  by (simp add: hub_inv_def observed_def distinct_observers_def)

lemma hub_inv_deliver: "hub_inv h \<Longrightarrow> hub_inv (fst (deliver r evs h))"
proof -
  have "hub_inv h \<Longrightarrow> hub_inv (fst (fold (\<lambda>(ob, e) (h, s). if ob = h_self h then (let (h', s') = hub_event r e h in (h', s @ s')) else (h, s)) evs (h, s)))" for s
  proof (induction evs arbitrary: h s)
    case (Cons x evs)
    obtain ob e where x: "x = (ob, e)" by force
    show ?case
    proof (cases "ob = h_self h")
      case True
      obtain h' s' where h': "hub_event r e h = (h', s')" by force
      then have "hub_inv h'" using hub_inv_event[OF Cons.prems, of r e] by simp
      then show ?thesis using Cons.IH[of h' "s @ s'"] True by (simp add: x h')
    qed (use Cons x in simp)
  qed simp
  then show "hub_inv h \<Longrightarrow> ?thesis" by (simp add: deliver_def)
qed

lemma hub_inv_choice:
  assumes "hub_inv h" and "h_store h r = ChoiceS s" and "s_observers s' = s_observers s"
  shows "hub_inv (h\<lparr>h_store := (h_store h)(r := ChoiceS s')\<rparr>)"
proof -
  have "any_observers (((h_store h)(r := ChoiceS s')) x) = any_observers (h_store h x)" for x
    using assms(2,3) by (simp add: any_observers_def)
  then show ?thesis using assms(1) by (simp add: hub_inv_def observed_def distinct_observers_def del: fun_upd_apply)
qed

lemma hub_inv_rpc: "hub_inv h \<Longrightarrow> hub_inv (fst (hub_rpc loads ints raises line h))"
  by (auto simp: hub_rpc_def Let_def case_prod_beta setSelectedIndexes_def hub_inv_choice hub_inv_deliver
      split: option.split any_subject.split)

section \<open>Reachable hubs\<close>

inductive hub_step :: "hub \<Rightarrow> hub \<Rightarrow> bool" where
  hub_set: "distinct rs \<Longrightarrow> hub_step h (fst (setSubjects rs h))"
| hub_add: "hub_step h (fst (addSubject r h))"
| hub_remove: "hub_step h (fst (removeSubject r h))"
| hub_notified: "hub_step h (fst (hub_event r e h))"
| hub_connect: "hub_step h (fst (connectionMade c h))"
| hub_disconnect: "connectionLost c h = Some h' \<Longrightarrow> hub_step h h'"
| hub_call: "hub_step h (fst (hub_rpc loads ints raises (line :: nat list) h))"

inductive_cases hub_stepE: "hub_step h h'"

inductive hub_reachable :: "hub \<Rightarrow> bool" where
  hub_new: "h_subjects h = [] \<Longrightarrow> h_clients h = [] \<Longrightarrow> distinct_observers h \<Longrightarrow> (\<And>r. \<not> observed h r) \<Longrightarrow> hub_reachable h"
| hub_then: "hub_reachable h \<Longrightarrow> hub_step h h' \<Longrightarrow> hub_reachable h'"

lemma hub_inv_step: "hub_step h h' \<Longrightarrow> hub_inv h \<Longrightarrow> hub_inv h'"
proof (erule hub_stepE)
  fix rs assume "hub_inv h" "h' = fst (setSubjects rs h)" "distinct rs"
  then show "hub_inv h'" by (simp add: hub_inv_setSubjects)
qed (auto simp: hub_inv_addSubject hub_inv_removeSubject hub_inv_event hub_inv_rpc connectionMade_def connectionLost_def
  Let_def hub_inv_clients split: if_splits)

lemma hub_inv_reachable: "hub_reachable h \<Longrightarrow> hub_inv h"
proof (induction rule: hub_reachable.induct)
  case (hub_new h)
  then show ?case by (simp add: hub_inv_def)
qed (rule hub_inv_step)

section \<open>The attempts to listen\<close>

lemma server_loop_skip:
  assumes "\<forall>i < m. \<exists>e. listen (tried + i + 1) (port + int i) = ListenError e" and "tried + m < 20"
  shows "server_loop listen tried port sv = server_loop listen (tried + m) (port + int m) sv"
  using assms
proof (induction m arbitrary: tried port)
  case (Suc m)
  from Suc.prems(1) obtain e where e: "listen (Suc tried) port = ListenError e"
    by (metis add.right_neutral add_Suc_right of_nat_0 plus_1_eq_Suc add.commute zero_less_Suc)
  have "\<forall>i < m. \<exists>e. listen (Suc tried + i + 1) (port + 1 + int i) = ListenError e"
  proof (intro allI impI)
    fix i assume "i < m"
    with Suc.prems(1) have "\<exists>e. listen (tried + Suc i + 1) (port + int (Suc i)) = ListenError e" by blast
    then show "\<exists>e. listen (Suc tried + i + 1) (port + 1 + int i) = ListenError e" by (simp add: algebra_simps)
  qed
  from Suc.IH[OF this] Suc.prems(2) e show ?case
    by (subst server_loop.simps) (simp add: algebra_simps)
qed simp

section \<open>Properties\<close>

text \<open>
  C4: In every state the notification server's factory can reach it is attached to a subject exactly
  when the subject is in its list, whatever subjects are set, added or removed, whichever unknown
  subjects report changes, and whatever clients connect or call. The lists of subjects that are set have
  no repetitions.
\<close>

theorem attached_exactly_to_subjects:
  assumes "hub_reachable h"
  shows "(h_self h \<in> set (any_observers (h_store h r)) \<longleftrightarrow> r \<in> set (h_subjects h)) \<and> distinct (h_subjects h)"
  using hub_inv_reachable[OF assms] by (simp add: hub_inv_def observed_def)

definition sample_hub :: hub where
  "sample_hub = fst (addSubject 3 \<lparr>h_self = 7, h_store = (\<lambda>_. ChoiceS (new_choice_subject ''choice'' [] [] None None None None None None)),
     h_subjects = [], h_clients = []\<rparr>)"

lemma sample_hub_reachable: "hub_reachable sample_hub"
  unfolding sample_hub_def
  by (rule hub_then[OF _ hub_add], rule hub_new)
    (simp_all add: distinct_observers_def observed_def any_observers_def new_choice_subject_def Let_def
      choice_reset_def message_reset_def message_args_def new_subject_def subject.defs message_subject.defs)

theorem attached_exactly_to_subjects_witness:
  "(h_self sample_hub \<in> set (any_observers (h_store sample_hub 3)) \<longleftrightarrow> 3 \<in> set (h_subjects sample_hub)) \<and>
   distinct (h_subjects sample_hub)"
  by (rule attached_exactly_to_subjects[OF sample_hub_reachable])

text \<open>
  The server makes at most 20 attempts on ascending ports. It listens on the first port that can
  be opened, and reports the error of the twentieth attempt when none can.
\<close>

theorem server_listens_on_first_free_port:
  assumes "\<forall>i < k. \<exists>e. listen (i + 1) (start_port + int i) = ListenError e" and "k < 20"
  shows "(listen (k + 1) (start_port + int k) = Listening \<longrightarrow>
      server_run listen start_port = \<lparr>sv_port = start_port + int k, sv_listening = True, sv_error = None\<rparr>) \<and>
    (k = 19 \<and> listen 20 (start_port + 19) = ListenError e \<longrightarrow>
      server_run listen start_port = \<lparr>sv_port = 0, sv_listening = False, sv_error = Some e\<rparr>)"
proof -
  have "server_run listen start_port = server_loop listen k (start_port + int k) new_server"
    using server_loop_skip[of k listen 0 start_port new_server] assms by (simp add: server_run_def)
  then show ?thesis by (auto simp: server_loop.simps[of listen k] server_loop.simps[of listen 19] new_server_def)
qed

theorem server_listens_on_first_free_port_witness:
  "server_run (\<lambda>n p. if p < 4443 then ListenError ''in use'' else Listening) 4441
     = \<lparr>sv_port = 4443, sv_listening = True, sv_error = None\<rparr>"
  using server_listens_on_first_free_port[of 2 "\<lambda>n p. if p < 4443 then ListenError ''in use'' else Listening" 4441 "[]"] by simp

text \<open>
  A remote \<open>setSelectedIndexes\<close> changes the selection of the first choice subject with the given
  id and of nothing else, and each connected client is sent the change as often as the factory is
  attached to the subject.
\<close>

theorem remote_selection:
  assumes "loads line = Some (JDict [(''id'', JNull), (''method'', JStr ''setSelectedIndexes''), (''params'', JList [JStr sid, sel])])"
    and "ints sel = Some idxs" and "find_choice (JStr sid) h = Some r" and "h_store h r = ChoiceS s"
    and "r \<in> set (h_subjects h)" and "s_observers s = [h_self h]"
  shows "hub_rpc loads ints raises line h =
    (let s' = fst (setSelectedIndexes idxs s)
     in (h\<lparr>h_store := (h_store h)(r := ChoiceS s')\<rparr>,
         map (\<lambda>c. (c, notification ''selectedIndexesChanged'' [serializable (ChoiceS s'), JList (map JInt (c_selected s'))])) (h_clients h),
         []))"
  using assms
  by (simp add: hub_rpc_def Let_def setSelectedIndexes_def notify_all_def deliver_def hub_event_def event_line_def hub_notify_def)

definition sample_choice :: choice_subject where
  "sample_choice = attachObserver 7 (new_choice_subject ''choice'' [] [] None None (Some False) (Some [''a'', ''b'']) None None)"

theorem remote_selection_witness:
  "hub_rpc (\<lambda>_. Some (JDict [(''id'', JNull), (''method'', JStr ''setSelectedIndexes''), (''params'', JList [JStr ''choice'', JList [JInt 1]])]))
       (\<lambda>_. Some [1]) (\<lambda>_. False) () \<lparr>h_self = 7, h_store = (\<lambda>_. ChoiceS sample_choice), h_subjects = [3], h_clients = [100]\<rparr> =
    (let s' = fst (setSelectedIndexes [1] sample_choice)
     in (\<lparr>h_self = 7, h_store = (\<lambda>_. ChoiceS sample_choice)(3 := ChoiceS s'), h_subjects = [3], h_clients = [100]\<rparr>,
         map (\<lambda>c. (c, notification ''selectedIndexesChanged'' [serializable (ChoiceS s'), JList (map JInt (c_selected s'))])) [100],
         []))"
  using remote_selection[of "\<lambda>_. Some (JDict [(''id'', JNull), (''method'', JStr ''setSelectedIndexes''),
        (''params'', JList [JStr ''choice'', JList [JInt 1]])])" "()" "''choice''" "JList [JInt 1]" "\<lambda>_. Some [1]" "[1]"
      "\<lparr>h_self = 7, h_store = (\<lambda>_. ChoiceS sample_choice), h_subjects = [3], h_clients = [100]\<rparr>" 3 sample_choice "\<lambda>_. False"]
  by (simp add: find_choice_def sample_choice_def attachObserver_def new_choice_subject_def Let_def choice_reset_def
      message_reset_def message_args_def new_subject_def subject.defs message_subject.defs)

text \<open>
  The notification client never calls its observer: any notification other than
  \<open>endConnection\<close> ends in a logged error.
\<close>

theorem client_never_calls_observer: "snd (client_receive loads force_list line c) \<noteq> ObserverCalled name ps"
  by (simp add: client_receive_def eval_with_string_globals_def split: option.splits)

end
