(* ===== verification/AccessControl.thy ===== *)
theory AccessControl
  imports PyStr Json
begin

text \<open>
  \<open>BackendAccessControl\<close> of OPSI/Backend/Manager/AccessControl.py: authenticating a user and deciding,
  by the first access control list whose pattern matches the method, whether a call is allowed,
  with which parameters, and which parts of the result the user may see.
  Parameters of the model: the backend's methods, the authentication module, compiled patterns
  (their search function) and the opsicommon functions \<open>forceUnicodeLowerList\<close>,
  \<open>mandatoryConstructorArgs\<close> and \<open>fromHash\<close>.
\<close>

section \<open>Authentication\<close>

record host =
  h_id :: string
  h_isDepotserver :: bool
  h_isClient :: bool
  h_opsiHostKey :: string
  h_oneTimePassword :: string

record user_store =
  us_username :: "string option"
  us_password :: "string option"
  us_userGroups :: "string list"
  us_host :: "host option"
  us_authenticated :: bool
  us_isAdmin :: bool
  us_isReadOnly :: bool

definition new_user_store :: user_store where
  "new_user_store = \<lparr>us_username = None, us_password = None, us_userGroups = [], us_host = None,
     us_authenticated = False, us_isAdmin = False, us_isReadOnly = False\<rparr>"

text \<open>\<open>^[^.]+\.[^.]+\.\S+$\<close> and \<open>^[a-fA-F0-9]{2}(:[a-fA-F0-9]{2}){5}$\<close>\<close>

definition is_fqdn :: "string \<Rightarrow> bool" where
  "is_fqdn s =
     (let nodot = (\<lambda>c. c \<noteq> CHR ''.''); a = takeWhile nodot s; r = drop 1 (dropWhile nodot s);
          b = takeWhile nodot r; c = drop 1 (dropWhile nodot r);
          rest = (\<lambda>t. t \<noteq> [] \<and> (\<forall>x \<in> set t. \<not> is_space x))
      in a \<noteq> [] \<and> dropWhile nodot s \<noteq> [] \<and> b \<noteq> [] \<and> dropWhile nodot r \<noteq> [] \<and> (rest c \<or> rest (before_newline c)))"

definition is_mac :: "string \<Rightarrow> bool" where
  "is_mac s =
     (let ps = split_char (CHR '':'') (before_newline s)
      in length ps = 6 \<and> (\<forall>p \<in> set ps. length p = 2 \<and> (\<forall>c \<in> set p. is_hex c)))"

datatype host_filter = ByAddress string | ById string

record auth_module =
  am_authenticate :: "string \<Rightarrow> string \<Rightarrow> bool"
  am_groupnames :: "string \<Rightarrow> string list option"
  am_is_admin :: "string \<Rightarrow> bool option"
  am_is_read_only :: "string \<Rightarrow> string list option \<Rightarrow> bool option"

record auth_context =
  cx_hosts :: "host_filter \<Rightarrow> host list option"
  cx_update_host :: "host \<Rightarrow> bool"
  cx_credentials :: "string \<Rightarrow> string option option"
  cx_module :: "auth_module option"

definition isOpsiDepotserver :: "(string list \<Rightarrow> string list) \<Rightarrow> string list \<Rightarrow> user_store \<Rightarrow> bool" where
  "isOpsiDepotserver lowers ids us =
     (case us_host us of
        None \<Rightarrow> False
      | Some h \<Rightarrow> h_isDepotserver h \<and> (ids = [] \<or> h_id h \<in> set (lowers ids)))"

definition isOpsiClient :: "(string list \<Rightarrow> string list) \<Rightarrow> string list \<Rightarrow> user_store \<Rightarrow> bool" where
  "isOpsiClient lowers ids us =
     (case us_host us of
        None \<Rightarrow> False
      | Some h \<Rightarrow> h_isClient h \<and> (ids = [] \<or> h_id h \<in> set (lowers ids)))"

definition isMemberOfGroup :: "(string list \<Rightarrow> string list) \<Rightarrow> string list \<Rightarrow> user_store \<Rightarrow> bool" where
  "isMemberOfGroup lowers ids us = list_ex (\<lambda>g. g \<in> set (us_userGroups us)) (lowers ids)"

definition isUser :: "(string list \<Rightarrow> string list) \<Rightarrow> string list \<Rightarrow> user_store \<Rightarrow> bool" where
  "isUser lowers ids us = (case us_username us of None \<Rightarrow> False | Some u \<Rightarrow> u \<in> set (lowers ids))"

text \<open>The outcome: whether the call returned, and the user store it leaves.\<close>

type_synonym auth_result = "bool \<times> user_store"

definition authenticate_host :: "auth_context \<Rightarrow> string \<Rightarrow> string \<Rightarrow> user_store \<Rightarrow> auth_result" where
  "authenticate_host cx username password us =
     (let name = lower username;
          (name', host_filter) = (if is_mac name then (name, ByAddress name)
                                  else (rstrip (CHR ''.'') name, ById (rstrip (CHR ''.'') name)));
          us1 = us\<lparr>us_username := Some name'\<rparr>
      in case cx_hosts cx host_filter of
           None \<Rightarrow> (False, us1)
         | Some [] \<Rightarrow> (False, us1)
         | Some (h # _) \<Rightarrow>
             (let us2 = us1\<lparr>us_host := Some h, us_username := Some (h_id h)\<rparr>;
                  finish = (\<lambda>u. (True, u\<lparr>us_authenticated := True, us_isAdmin := isOpsiDepotserver (\<lambda>l. l) [] u, us_isReadOnly := False\<rparr>))
              in if h_opsiHostKey h = [] then (False, us2)
                 else if password = h_opsiHostKey h then finish us2
                 else if h_oneTimePassword h \<noteq> [] \<and> password = h_oneTimePassword h then
                   (let h' = h\<lparr>h_oneTimePassword := []\<rparr>; us3 = us2\<lparr>us_host := Some h'\<rparr>
                    in if cx_update_host cx h' then finish us3 else (False, us3))
                 else (False, us2)))"

definition authenticate_passwd :: "auth_context \<Rightarrow> string \<Rightarrow> string \<Rightarrow> user_store \<Rightarrow> auth_result" where
  "authenticate_passwd cx username password us =
     (case cx_credentials cx username of
        Some (Some pw) \<Rightarrow> if password = pw then (True, us\<lparr>us_authenticated := True\<rparr>) else (False, us)
      | _ \<Rightarrow> (False, us))"

definition authenticate_module :: "auth_context \<Rightarrow> string \<Rightarrow> string \<Rightarrow> string list option \<Rightarrow> user_store \<Rightarrow> auth_result" where
  "authenticate_module cx username password forceGroups us =
     (case cx_module cx of
        None \<Rightarrow> (False, us)
      | Some am \<Rightarrow>
          (if \<not> am_authenticate am username password then (False, us)
           else
             (let us1 = us\<lparr>us_authenticated := True\<rparr>;
                  forced = (case forceGroups of None \<Rightarrow> None | Some [] \<Rightarrow> None | Some gs \<Rightarrow> Some gs)
              in case (case forced of Some gs \<Rightarrow> Some gs | None \<Rightarrow> am_groupnames am username) of
                   None \<Rightarrow> (False, us1)
                 | Some gs \<Rightarrow>
                     (let us2 = us1\<lparr>us_userGroups := gs\<rparr>
                      in case am_is_admin am username of
                           None \<Rightarrow> (False, us2)
                         | Some adm \<Rightarrow>
                             (let us3 = us2\<lparr>us_isAdmin := adm\<rparr>
                              in case am_is_read_only am username forced of
                                   None \<Rightarrow> (False, us3)
                                 | Some ro \<Rightarrow> (True, us3\<lparr>us_isReadOnly := ro\<rparr>))))))"

definition auth_type_of :: "string option \<Rightarrow> string \<Rightarrow> string" where
  "auth_type_of auth_type username =
     (case auth_type of
        Some (c # cs) \<Rightarrow> c # cs
      | _ \<Rightarrow> if is_fqdn username \<or> is_mac username then ''opsi-hostkey'' else ''auth-module'')"

definition authenticate ::
  "auth_context \<Rightarrow> string \<Rightarrow> string \<Rightarrow> string list option \<Rightarrow> string option \<Rightarrow> user_store \<Rightarrow> auth_result" where
  "authenticate cx username password forceGroups auth_type us =
     (let ty = auth_type_of auth_type username;
          us1 = us\<lparr>us_authenticated := False, us_username := Some username, us_password := Some password\<rparr>
      in if username = [] \<or> password = [] then (False, us1)
         else if ty = ''opsi-hostkey'' then authenticate_host cx username password us1
         else if ty = ''opsi-passwd'' then authenticate_passwd cx username password us1
         else if ty = ''auth-module'' then authenticate_module cx username password forceGroups us1
         else (False, us1))"

section \<open>Filtering by attributes\<close>

record acl_entry =
  e_type :: "string option"
  e_ids :: "string list"
  e_denyAttributes :: "string list"
  e_allowAttributes :: "string list"

text \<open>A dictionary, or an object given by its class name and its hash (\<open>toHash\<close>).\<close>

type_synonym hash = "(string \<times> json) list"

datatype item = DictItem hash | ObjectItem string hash

datatype access_error = PermissionDenied | ItemIndexError | RebuildError | BackendError string

fun item_hash :: "item \<Rightarrow> hash" where
  "item_hash (DictItem h) = h"
| "item_hash (ObjectItem c h) = h"

definition identifiers :: "string list" where
  "identifiers = [''id'', ''objectId'', ''hostId'', ''clientId'', ''depotId'', ''serverId'']"

text \<open>The value of the first identifier present is the user's name.\<close>

definition is_self :: "user_store \<Rightarrow> hash \<Rightarrow> bool" where
  "is_self us h =
     (case filter (\<lambda>i. map_of h i \<noteq> None) identifiers of
        [] \<Rightarrow> False
      | i # _ \<Rightarrow>
          (let v = the (map_of h i)
           in json_true v \<and> (case us_username us of Some u \<Rightarrow> v = JStr u | None \<Rightarrow> False)))"

definition entry_attributes :: "acl_entry \<Rightarrow> hash \<Rightarrow> string list" where
  "entry_attributes e h =
     (if e_allowAttributes e \<noteq> [] then e_allowAttributes e
      else if e_denyAttributes e \<noteq> [] then filter (\<lambda>a. a \<notin> set (e_denyAttributes e)) (dict_keys h)
      else dict_keys h)"

definition allowedAttributes :: "user_store \<Rightarrow> acl_entry list \<Rightarrow> hash \<Rightarrow> string list" where
  "allowedAttributes us acls h =
     concat (map (\<lambda>e. if e_type e = Some ''self'' \<and> \<not> is_self us h then [] else entry_attributes e h) acls)"

text \<open>One round of the loop: None when the object is dropped.\<close>

definition filter_item ::
  "(string \<Rightarrow> string list) \<Rightarrow> (string \<Rightarrow> hash \<Rightarrow> item option) \<Rightarrow> user_store \<Rightarrow> acl_entry list \<Rightarrow> bool \<Rightarrow> item \<Rightarrow>
     (access_error, item option) result" where
  "filter_item mandatory rebuild us acls exceptionOnTruncate obj =
     (let h = item_hash obj; allowed = allowedAttributes us acls h
      in if allowed = [] then Inr None
         else
           (let allowed' = (case obj of DictItem _ \<Rightarrow> allowed | ObjectItem c _ \<Rightarrow> allowed @ ''type'' # mandatory c);
                kept = filter (\<lambda>(k, v). k \<in> set allowed') h
            in if exceptionOnTruncate \<and> (\<exists>k \<in> set (dict_keys h). k \<notin> set allowed') then Inl PermissionDenied
               else case obj of
                      DictItem _ \<Rightarrow> Inr (Some (DictItem kept))
                    | ObjectItem c _ \<Rightarrow> (case rebuild c kept of None \<Rightarrow> Inl RebuildError | Some ob \<Rightarrow> Inr (Some ob))))"

definition filter_items ::
  "(string \<Rightarrow> string list) \<Rightarrow> (string \<Rightarrow> hash \<Rightarrow> item option) \<Rightarrow> user_store \<Rightarrow> acl_entry list \<Rightarrow> bool \<Rightarrow> item list \<Rightarrow>
     (access_error, item list) result" where
  "filter_items mandatory rebuild us acls exceptionOnTruncate objs =
     foldE (\<lambda>obj out. bindE (filter_item mandatory rebuild us acls exceptionOnTruncate obj)
              (\<lambda>r. Inr (case r of None \<Rightarrow> out | Some ob \<Rightarrow> out @ [ob]))) objs []"

text \<open>Values passed to or returned by a method: one object, a non-empty list of objects, anything else.\<close>

datatype val = One item | Many "item list" | Plain json

definition filterObjects ::
  "(string \<Rightarrow> string list) \<Rightarrow> (string \<Rightarrow> hash \<Rightarrow> item option) \<Rightarrow> user_store \<Rightarrow> acl_entry list \<Rightarrow> bool \<Rightarrow> bool \<Rightarrow> val \<Rightarrow>
     (access_error, val) result" where
  "filterObjects mandatory rebuild us acls exceptionOnTruncate exceptionIfAllRemoved objects =
     (let objs = (case objects of One i \<Rightarrow> [i] | Many is \<Rightarrow> is | Plain _ \<Rightarrow> [])
      in bindE (filter_items mandatory rebuild us acls exceptionOnTruncate objs)
           (\<lambda>new. if length new < length objs \<and> new = [] \<and> exceptionIfAllRemoved then Inl PermissionDenied
                  else case objects of
                         One _ \<Rightarrow> (case new of [] \<Rightarrow> Inl ItemIndexError | n # _ \<Rightarrow> Inr (One n))
                       | _ \<Rightarrow> Inr (Many new)))"

definition filterResult ::
  "(string \<Rightarrow> string list) \<Rightarrow> (string \<Rightarrow> hash \<Rightarrow> item option) \<Rightarrow> user_store \<Rightarrow> acl_entry list \<Rightarrow> val \<Rightarrow> (access_error, val) result" where
  "filterResult mandatory rebuild us acls res =
     (case res of
        Plain j \<Rightarrow> Inr (Plain j)
      | One (DictItem []) \<Rightarrow> Inr res
      | _ \<Rightarrow> filterObjects mandatory rebuild us acls False False res)"

text \<open>\<open>_filterParams\<close>: the list form of a parameter is filtered; an empty result raises.\<close>

definition filter_param ::
  "(string \<Rightarrow> string list) \<Rightarrow> (string \<Rightarrow> hash \<Rightarrow> item option) \<Rightarrow> user_store \<Rightarrow> acl_entry list \<Rightarrow> string \<times> val \<Rightarrow>
     (string \<times> val) list \<Rightarrow> (access_error, (string \<times> val) list) result" where
  "filter_param mandatory rebuild us acls = (\<lambda>(key, value) params.
     (case value of
        Plain _ \<Rightarrow> Inr params
      | Many is \<Rightarrow> bindE (filterObjects mandatory rebuild us acls False True (Many is)) (\<lambda>v. Inr (AList.update key v params))
      | One i \<Rightarrow>
          bindE (filterObjects mandatory rebuild us acls False True (Many [i]))
            (\<lambda>v. Inr (case v of Many (n # _) \<Rightarrow> AList.update key (One n) params | _ \<Rightarrow> AList.delete key params))))"

definition filterParams ::
  "(string \<Rightarrow> string list) \<Rightarrow> (string \<Rightarrow> hash \<Rightarrow> item option) \<Rightarrow> user_store \<Rightarrow> acl_entry list \<Rightarrow> (string \<times> val) list \<Rightarrow>
     (access_error, (string \<times> val) list) result" where
  "filterParams mandatory rebuild us acls params = foldE (filter_param mandatory rebuild us acls) params params"

section \<open>Deciding on a call\<close>

datatype grant = NotGranted | FullAccess | PartialObject | PartialAttributes

text \<open>What an entry grants by its type; None for an unknown type.\<close>

definition entry_grant :: "(string list \<Rightarrow> string list) \<Rightarrow> user_store \<Rightarrow> acl_entry \<Rightarrow> grant option" where
  "entry_grant lowers us e =
     (let b = (\<lambda>x. Some (if x then FullAccess else NotGranted))
      in if e_type e = Some ''all'' then Some FullAccess
         else if e_type e = Some ''opsi_depotserver'' then b (isOpsiDepotserver lowers (e_ids e) us)
         else if e_type e = Some ''opsi_client'' then b (isOpsiClient lowers (e_ids e) us)
         else if e_type e = Some ''sys_group'' then b (isMemberOfGroup lowers (e_ids e) us)
         else if e_type e = Some ''sys_user'' then b (isUser lowers (e_ids e) us)
         else if e_type e = Some ''self'' then Some PartialObject
         else None)"

fun scan_entries ::
  "(string list \<Rightarrow> string list) \<Rightarrow> user_store \<Rightarrow> acl_entry list \<Rightarrow> grant \<Rightarrow> acl_entry list \<Rightarrow> grant \<times> acl_entry list" where
  "scan_entries lowers us [] granted acls = (granted, acls)"
| "scan_entries lowers us (e # es) granted acls =
     (case entry_grant lowers us e of
        None \<Rightarrow> scan_entries lowers us es granted acls
      | Some NotGranted \<Rightarrow> scan_entries lowers us es granted acls
      | Some g \<Rightarrow>
          (let g' = (if e_denyAttributes e \<noteq> [] \<or> e_allowAttributes e \<noteq> [] then PartialAttributes else g)
           in if g' = FullAccess then (g', acls @ [e]) else scan_entries lowers us es g' (acls @ [e])))"

type_synonym acl_table = "((string \<Rightarrow> bool) \<times> acl_entry list) list"

definition grant_for ::
  "(string list \<Rightarrow> string list) \<Rightarrow> user_store \<Rightarrow> acl_table \<Rightarrow> string \<Rightarrow> grant \<times> acl_entry list" where
  "grant_for lowers us table methodName =
     (case find (\<lambda>(search, _). search methodName) table of
        None \<Rightarrow> (NotGranted, [])
      | Some (_, entries) \<Rightarrow> scan_entries lowers us entries NotGranted [])"

fun val_true :: "val option \<Rightarrow> bool" where
  "val_true None = False"
| "val_true (Some (Plain j)) = json_true j"
| "val_true (Some (One (DictItem h))) = (h \<noteq> [])"
| "val_true (Some (One (ObjectItem c h))) = True"
| "val_true (Some (Many is)) = (is \<noteq> [])"

definition licensing_denied :: "user_store \<Rightarrow> string \<Rightarrow> (string \<times> val) list \<Rightarrow> bool" where
  "licensing_denied us methodName kwargs \<longleftrightarrow>
     methodName = ''backend_getLicensingInfo'' \<and> \<not> us_isAdmin us \<and>
     (val_true (map_of kwargs ''licenses'') \<or> val_true (map_of kwargs ''legacy_modules'') \<or> val_true (map_of kwargs ''dates''))"

text \<open>The parameters the backend method is called with, or the refusal.\<close>

definition checked_params ::
  "(string list \<Rightarrow> string list) \<Rightarrow> (string \<Rightarrow> string list) \<Rightarrow> (string \<Rightarrow> hash \<Rightarrow> item option) \<Rightarrow> user_store \<Rightarrow> acl_table \<Rightarrow>
     string \<Rightarrow> (string \<times> val) list \<Rightarrow> (access_error, (string \<times> val) list) result" where
  "checked_params lowers mandatory rebuild us table methodName kwargs =
     (let (granted, acls) = grant_for lowers us table methodName
      in bindE
           (if granted = FullAccess then Inr kwargs
            else if granted = NotGranted then Inl PermissionDenied
            else (case filterParams mandatory rebuild us acls kwargs of
                    Inl _ \<Rightarrow> Inl PermissionDenied
                  | Inr [] \<Rightarrow> Inl PermissionDenied
                  | Inr kw \<Rightarrow> Inr kw))
           (\<lambda>newKwargs. if licensing_denied us methodName newKwargs then Inl PermissionDenied else Inr newKwargs))"

definition executeMethodProtected ::
  "(string list \<Rightarrow> string list) \<Rightarrow> (string \<Rightarrow> string list) \<Rightarrow> (string \<Rightarrow> hash \<Rightarrow> item option) \<Rightarrow> user_store \<Rightarrow> acl_table \<Rightarrow>
     ((string \<times> val) list \<Rightarrow> (access_error, val) result) \<Rightarrow> string \<Rightarrow> (string \<times> val) list \<Rightarrow> (access_error, val) result" where
  "executeMethodProtected lowers mandatory rebuild us table meth methodName kwargs =
     bindE (checked_params lowers mandatory rebuild us table methodName kwargs)
       (\<lambda>newKwargs. bindE (meth newKwargs)
          (\<lambda>res. if fst (grant_for lowers us table methodName) = FullAccess then Inr res
                 else filterResult mandatory rebuild us (snd (grant_for lowers us table methodName)) res))"

section \<open>What is granted\<close>

definition grants :: "(string list \<Rightarrow> string list) \<Rightarrow> user_store \<Rightarrow> acl_entry \<Rightarrow> bool" where
  "grants lowers us e \<longleftrightarrow> entry_grant lowers us e \<noteq> None \<and> entry_grant lowers us e \<noteq> Some NotGranted"

lemma scan_entries_none:
  "(\<forall>e \<in> set es. \<not> grants lowers us e) \<Longrightarrow> scan_entries lowers us es granted acls = (granted, acls)"
  by (induction es) (auto simp: grants_def split: option.splits)

lemma scan_entries_Some:
  "grants lowers us e \<Longrightarrow>
   scan_entries lowers us (e # es) granted acls =
     (let g = (if e_denyAttributes e \<noteq> [] \<or> e_allowAttributes e \<noteq> [] then PartialAttributes else the (entry_grant lowers us e))
      in if g = FullAccess then (g, acls @ [e]) else scan_entries lowers us es g (acls @ [e]))"
  by (cases "entry_grant lowers us e"; cases "the (entry_grant lowers us e)") (auto simp: grants_def Let_def)

lemma scan_entries_used:
  "set (snd (scan_entries lowers us es granted acls)) \<subseteq> set acls \<union> {e \<in> set es. grants lowers us e}"
proof (induction es arbitrary: granted acls)
  case (Cons e es)
  show ?case
  proof (cases "grants lowers us e")
    case True
    then show ?thesis
      unfolding scan_entries_Some[OF True] by (auto simp: Let_def dest!: subsetD[OF Cons.IH])
  next
    case False
    then have "scan_entries lowers us (e # es) granted acls = scan_entries lowers us es granted acls"
      by (auto simp: grants_def split: option.splits)
    then show ?thesis using Cons.IH[of granted acls] by auto
  qed
qed simp

definition matching_entries :: "acl_table \<Rightarrow> string \<Rightarrow> acl_entry list" where
  "matching_entries table m = (case find (\<lambda>(search, _). search m) table of None \<Rightarrow> [] | Some (_, es) \<Rightarrow> es)"

lemma grant_for_scan: "grant_for lowers us table m = scan_entries lowers us (matching_entries table m) NotGranted []"
  by (auto simp: grant_for_def matching_entries_def split: option.splits)

lemma grant_for_used: "e \<in> set (snd (grant_for lowers us table m)) \<Longrightarrow> e \<in> set (matching_entries table m) \<and> grants lowers us e"
  using scan_entries_used[of lowers us "matching_entries table m" NotGranted "[]"] by (auto simp: grant_for_scan)

text \<open>What is left of a dictionary.\<close>

definition visible_part :: "user_store \<Rightarrow> acl_entry list \<Rightarrow> hash \<Rightarrow> hash" where
  "visible_part us acls h = filter (\<lambda>(k, v). k \<in> set (allowedAttributes us acls h)) h"

lemma filter_items_dicts:
  "filter_items mandatory rebuild us acls False (map DictItem hs) =
     Inr (map DictItem (map (visible_part us acls) (filter (\<lambda>h. allowedAttributes us acls h \<noteq> []) hs)))"
proof -
  have "foldE (\<lambda>obj out. bindE (filter_item mandatory rebuild us acls False obj)
              (\<lambda>r. Inr (case r of None \<Rightarrow> out | Some ob \<Rightarrow> out @ [ob]))) (map DictItem hs) out =
     Inr (out @ map DictItem (map (visible_part us acls) (filter (\<lambda>h. allowedAttributes us acls h \<noteq> []) hs)))" for out
    by (induction hs arbitrary: out) (auto simp: filter_item_def Let_def visible_part_def)
  then show ?thesis by (simp add: filter_items_def)
qed

lemma allowedAttributes_mem:
  "a \<in> set (allowedAttributes us acls h) \<longleftrightarrow>
     (\<exists>e \<in> set acls. (e_type e = Some ''self'' \<longrightarrow> is_self us h) \<and> a \<in> set (entry_attributes e h))"
  by (auto simp: allowedAttributes_def)

lemma authenticate_host_sound:
  assumes "authenticate_host cx username password us = (ok, us')" and "us_authenticated us'" and "\<not> us_authenticated us"
  shows "\<exists>f h hs. cx_hosts cx f = Some (h # hs) \<and> us_username us' = Some (h_id h) \<and> h_opsiHostKey h \<noteq> [] \<and>
    us_isAdmin us' = h_isDepotserver h \<and>
    (password = h_opsiHostKey h \<or> h_oneTimePassword h \<noteq> [] \<and> password = h_oneTimePassword h \<and>
       us_host us' = Some (h\<lparr>h_oneTimePassword := []\<rparr>) \<and> cx_update_host cx (h\<lparr>h_oneTimePassword := []\<rparr>))"
proof -
  let ?f = "if is_mac (lower username) then ByAddress (lower username) else ById (rstrip (CHR ''.'') (lower username))"
  consider "cx_hosts cx ?f = None" | "cx_hosts cx ?f = Some []" | h hs where "cx_hosts cx ?f = Some (h # hs)"
    by (metis list.exhaust option.exhaust)
  then show ?thesis
  proof cases
    case (3 h hs)
    show ?thesis
      by (intro exI[of _ ?f] exI[of _ h] exI[of _ hs])
        (use 3 assms in \<open>auto simp: authenticate_host_def isOpsiDepotserver_def Let_def split: if_splits\<close>)
  qed (use assms in \<open>auto simp: authenticate_host_def Let_def split: if_splits\<close>)
qed

section \<open>Properties\<close>

text \<open>
  C28: A user store is authenticated after \<open>authenticate\<close> only if a name and a password were given and
  the password is the key or the unused one-time password of the first host found for the name (a
  one-time password is then cleared, in the store and in the backend), the password stored for the
  user, or one the authentication module accepts, according to the kind of authentication.
\<close>

theorem authenticated_only_with_credentials:
  assumes "authenticate cx username password forceGroups auth_type us = (ok, us')" and "us_authenticated us'"
  shows "username \<noteq> [] \<and> password \<noteq> [] \<and>
    (auth_type_of auth_type username = ''opsi-hostkey'' \<and>
       (\<exists>f h hs. cx_hosts cx f = Some (h # hs) \<and> us_username us' = Some (h_id h) \<and> h_opsiHostKey h \<noteq> [] \<and>
          us_isAdmin us' = h_isDepotserver h \<and>
          (password = h_opsiHostKey h \<or> h_oneTimePassword h \<noteq> [] \<and> password = h_oneTimePassword h \<and>
             us_host us' = Some (h\<lparr>h_oneTimePassword := []\<rparr>) \<and> cx_update_host cx (h\<lparr>h_oneTimePassword := []\<rparr>))) \<or>
     auth_type_of auth_type username = ''opsi-passwd'' \<and> cx_credentials cx username = Some (Some password) \<or>
     auth_type_of auth_type username = ''auth-module'' \<and>
       (\<exists>am. cx_module cx = Some am \<and> am_authenticate am username password))"
proof (cases "username = [] \<or> password = []")
  case True
  then show ?thesis using assms by (auto simp: authenticate_def Let_def)
next
  case False
  let ?us1 = "us\<lparr>us_authenticated := False, us_username := Some username, us_password := Some password\<rparr>"
  consider "auth_type_of auth_type username = ''opsi-hostkey''" "authenticate_host cx username password ?us1 = (ok, us')"
    | "auth_type_of auth_type username = ''opsi-passwd''" "authenticate_passwd cx username password ?us1 = (ok, us')"
    | "auth_type_of auth_type username = ''auth-module''" "authenticate_module cx username password forceGroups ?us1 = (ok, us')"
    using False assms by (auto simp: authenticate_def Let_def split: if_splits)
  then show ?thesis
  proof cases
    case 1
    then show ?thesis using False authenticate_host_sound[OF 1(2) assms(2)] by simp
  next
    case 2
    then show ?thesis using False assms(2) by (auto simp: authenticate_passwd_def split: if_splits option.splits)
  next
    case 3
    then show ?thesis using False assms(2) by (auto simp: authenticate_module_def split: if_splits option.splits)
  qed
qed

definition sample_host :: host where
  "sample_host = \<lparr>h_id = ''depot.opsi.test'', h_isDepotserver = True, h_isClient = False, h_opsiHostKey = ''key'', h_oneTimePassword = []\<rparr>"

definition sample_context :: auth_context where
  "sample_context = \<lparr>cx_hosts = (\<lambda>f. Some [sample_host]), cx_update_host = (\<lambda>h. True), cx_credentials = (\<lambda>u. None), cx_module = None\<rparr>"

lemma sample_login:
  "authenticate sample_context ''depot.opsi.test'' ''key'' None (Some ''opsi-hostkey'') new_user_store =
     (True, \<lparr>us_username = Some ''depot.opsi.test'', us_password = Some ''key'', us_userGroups = [], us_host = Some sample_host,
        us_authenticated = True, us_isAdmin = True, us_isReadOnly = False\<rparr>)"
  by (simp add: authenticate_def auth_type_of_def authenticate_host_def sample_context_def sample_host_def new_user_store_def
      isOpsiDepotserver_def Let_def)

theorem authenticated_only_with_credentials_witness:
  "auth_type_of (Some ''opsi-hostkey'') ''depot.opsi.test'' = ''opsi-hostkey'' \<and>
     (\<exists>f h hs. cx_hosts sample_context f = Some (h # hs) \<and> h_opsiHostKey h \<noteq> [])"
  using authenticated_only_with_credentials[OF sample_login] by (auto simp: auth_type_of_def)

text \<open>
  C27: A call is refused, without calling the backend's method, unless some entry of the first list
  whose pattern matches the method grants access to the user.
\<close>

theorem refused_without_grant:
  assumes "\<forall>e \<in> set (matching_entries table m). \<not> grants lowers us e"
  shows "executeMethodProtected lowers mandatory rebuild us table meth m kwargs = Inl PermissionDenied"
  using scan_entries_none[OF assms, of NotGranted "[]"]
  by (simp add: executeMethodProtected_def checked_params_def grant_for_scan)

theorem refused_without_grant_witness:
  "executeMethodProtected id (\<lambda>_. []) (\<lambda>_ _. None) new_user_store
     [(\<lambda>m. m = ''host_getObjects'', [\<lparr>e_type = Some ''sys_group'', e_ids = [''opsiadmin''], e_denyAttributes = [], e_allowAttributes = []\<rparr>])]
     (\<lambda>kw. Inr (Plain JNull)) ''host_getObjects'' [] = Inl PermissionDenied"
  by (rule refused_without_grant)
    (simp add: matching_entries_def grants_def entry_grant_def isMemberOfGroup_def new_user_store_def)

text \<open>
  C26: With less than full access, a method that returns a list of dictionaries yields exactly the
  dictionaries some used entry says something about, each cut down to the attributes that an entry
  of the matching list which grants the user access allows, entries of type \<open>self\<close> counting only for
  the user's own objects.
\<close>

theorem partial_result_is_cut_down:
  assumes "checked_params lowers mandatory rebuild us table m kwargs = Inr kw" and "meth kw = Inr (Many (map DictItem hs))"
    and "fst (grant_for lowers us table m) \<noteq> FullAccess"
  shows "\<exists>acls. set acls \<subseteq> {e \<in> set (matching_entries table m). grants lowers us e} \<and>
     executeMethodProtected lowers mandatory rebuild us table meth m kwargs =
       Inr (Many (map (\<lambda>h. DictItem (filter (\<lambda>(k, v). \<exists>e \<in> set acls. (e_type e = Some ''self'' \<longrightarrow> is_self us h) \<and>
            k \<in> set (entry_attributes e h)) h)) (filter (\<lambda>h. allowedAttributes us acls h \<noteq> []) hs)))"
proof -
  let ?acls = "snd (grant_for lowers us table m)"
  have "filterResult mandatory rebuild us ?acls (Many (map DictItem hs)) =
      Inr (Many (map (\<lambda>h. DictItem (visible_part us ?acls h)) (filter (\<lambda>h. allowedAttributes us ?acls h \<noteq> []) hs)))"
    by (simp add: filterResult_def filterObjects_def filter_items_dicts Let_def comp_def)
  then have "executeMethodProtected lowers mandatory rebuild us table meth m kwargs =
      Inr (Many (map (\<lambda>h. DictItem (visible_part us ?acls h)) (filter (\<lambda>h. allowedAttributes us ?acls h \<noteq> []) hs)))"
    using assms by (simp add: executeMethodProtected_def)
  then show ?thesis
    using grant_for_used[of _ lowers us table m]
    by (intro exI[of _ ?acls]) (auto simp: visible_part_def allowedAttributes_mem)
qed

definition self_table :: acl_table where
  "self_table = [(\<lambda>m. True, [\<lparr>e_type = Some ''self'', e_ids = [], e_denyAttributes = [''opsiHostKey''], e_allowAttributes = []\<rparr>])]"

definition client_store :: user_store where
  "client_store = new_user_store\<lparr>us_username := Some ''pc1''\<rparr>"

theorem partial_result_is_cut_down_witness:
  "\<exists>acls. set acls \<subseteq> {e \<in> set (matching_entries self_table ''host_getHashes''). grants id client_store e} \<and>
     executeMethodProtected id (\<lambda>_. []) (\<lambda>_ _. None) client_store self_table
       (\<lambda>kw. Inr (Many (map DictItem [[(''id'', JStr ''pc1''), (''opsiHostKey'', JStr ''x'')], [(''id'', JStr ''pc2'')]])))
       ''host_getHashes'' [(''filter'', Plain JNull)] =
       Inr (Many (map (\<lambda>h. DictItem (filter (\<lambda>(k, v). \<exists>e \<in> set acls. (e_type e = Some ''self'' \<longrightarrow> is_self client_store h) \<and>
            k \<in> set (entry_attributes e h)) h)) (filter (\<lambda>h. allowedAttributes client_store acls h \<noteq> [])
              [[(''id'', JStr ''pc1''), (''opsiHostKey'', JStr ''x'')], [(''id'', JStr ''pc2'')]])))"
  by (rule partial_result_is_cut_down[where kw = "[(''filter'', Plain JNull)]"])
    (simp_all add: checked_params_def grant_for_def self_table_def entry_grant_def filterParams_def filter_param_def licensing_denied_def)

text \<open>
  The name of a host and a wrong password are enough for the rights of the host's type: the failed
  call leaves the host in the user store, and the check of a protected method does not look at
  whether the user is authenticated.
\<close>

theorem failed_host_login_keeps_host:
  assumes "auth_type_of auth_type username = ''opsi-hostkey''" and "username \<noteq> []" and "password \<noteq> []"
    and "\<forall>f. cx_hosts cx f = Some (h # hs)" and "h_isDepotserver h" and "h_opsiHostKey h \<noteq> []"
    and "password \<noteq> h_opsiHostKey h" and "password \<noteq> h_oneTimePassword h"
  shows "\<exists>us'. authenticate cx username password forceGroups auth_type us = (False, us') \<and> \<not> us_authenticated us' \<and>
    executeMethodProtected lowers mandatory rebuild us'
      [(\<lambda>m. True, [\<lparr>e_type = Some ''opsi_depotserver'', e_ids = [], e_denyAttributes = [], e_allowAttributes = []\<rparr>])]
      meth ''host_getObjects'' kwargs = meth kwargs"
  using assms
  by (auto simp: authenticate_def authenticate_host_def Let_def executeMethodProtected_def checked_params_def grant_for_def
      entry_grant_def isOpsiDepotserver_def licensing_denied_def bindE_def split: sum.splits)

theorem failed_host_login_keeps_host_witness:
  "\<exists>us'. authenticate sample_context ''depot.opsi.test'' ''wrong'' None (Some ''opsi-hostkey'') new_user_store = (False, us') \<and>
    \<not> us_authenticated us' \<and>
    executeMethodProtected id (\<lambda>_. []) (\<lambda>_ _. None) us'
      [(\<lambda>m. True, [\<lparr>e_type = Some ''opsi_depotserver'', e_ids = [], e_denyAttributes = [], e_allowAttributes = []\<rparr>])]
      (\<lambda>kw. Inr (Plain JNull)) ''host_getObjects'' [] = (\<lambda>kw. Inr (Plain JNull)) ([] :: (string \<times> val) list)"
  by (rule failed_host_login_keeps_host[where h = sample_host and hs = "[]"])
    (simp_all add: auth_type_of_def sample_context_def sample_host_def)

text \<open>
  A single dictionary of which the user may see nothing makes the filtered call fail with an
  \<open>IndexError\<close>, where a list yields the empty list.
\<close>

theorem hidden_single_result_fails:
  assumes "allowedAttributes us acls h = []" and "h \<noteq> []"
  shows "filterResult mandatory rebuild us acls (One (DictItem h)) = Inl ItemIndexError \<and>
    filterResult mandatory rebuild us acls (Many [DictItem h]) = Inr (Many [])"
  using assms by (cases h) (auto simp: filterResult_def filterObjects_def filter_items_def filter_item_def Let_def)

theorem hidden_single_result_fails_witness:
  "filterResult (\<lambda>_. []) (\<lambda>_ _. None) client_store [\<lparr>e_type = Some ''self'', e_ids = [], e_denyAttributes = [], e_allowAttributes = []\<rparr>]
      (One (DictItem [(''id'', JStr ''pc2'')])) = Inl ItemIndexError \<and>
   filterResult (\<lambda>_. []) (\<lambda>_ _. None) client_store [\<lparr>e_type = Some ''self'', e_ids = [], e_denyAttributes = [], e_allowAttributes = []\<rparr>]
      (Many [DictItem [(''id'', JStr ''pc2'')]]) = Inr (Many [])"
  by (rule hidden_single_result_fails)
    (simp_all add: allowedAttributes_def is_self_def identifiers_def client_store_def new_user_store_def)

end
