(* ===== verification/Sessions.thy ===== *)
theory Sessions
  imports PyStr Complex_Main
begin

text \<open>
  Sessions and their handler (OPSI/Service/Session.py). All session objects ever created live in
  \<open>objs\<close> under their random uid; \<open>live\<close> are the keys of the handler's dictionary, in order. A
  session's timer is the time at which it will fire. Times are exact rationals, the clock and the
  random uids are arguments. The wait of \<open>sessionExpired\<close> for a session in use lets other threads
  run between two polls: what they do is the argument \<open>env\<close>.
\<close>

section \<open>Session\<close>

record session =
  uid :: string
  maxInactive :: int
  lastModified :: rat
  timer :: "rat option"
  ip :: "string option"
  userAgent :: string
  authenticated :: bool
  usageCount :: int
  marked :: bool
  deleted :: bool

definition touch :: "rat \<Rightarrow> session \<Rightarrow> session" where
  "touch now s = (if deleted s then s else s\<lparr>lastModified := now, timer := Some (now + of_int (maxInactive s))\<rparr>)"

definition new_session :: "rat \<Rightarrow> string \<Rightarrow> int \<Rightarrow> session" where
  "new_session now u interval =
     touch now \<lparr>uid = u, maxInactive = interval, lastModified = now, timer = None, ip = Some [], userAgent = [],
       authenticated = False, usageCount = 0, marked = False, deleted = False\<rparr>"

definition decreaseUsageCount :: "session \<Rightarrow> session" where
  "decreaseUsageCount s = (if deleted s then s else s\<lparr>usageCount := usageCount s - 1\<rparr>)"

definition increaseUsageCount :: "rat \<Rightarrow> session \<Rightarrow> session" where
  "increaseUsageCount now s = (if deleted s then s else touch now (s\<lparr>usageCount := usageCount s + 1\<rparr>))"

definition setMarkedForDeletion :: "session \<Rightarrow> session" where
  "setMarkedForDeletion s = s\<lparr>marked := True\<rparr>"

definition getValidity :: "rat \<Rightarrow> session \<Rightarrow> int" where
  "getValidity now s =
     (if deleted s then 0
      else let v = lastModified s - now + of_int (maxInactive s) in if v \<ge> 0 then \<lfloor>v\<rfloor> else \<lceil>v\<rceil>)"

definition delete_session :: "session \<Rightarrow> session" where
  "delete_session s = (if deleted s then s else s\<lparr>deleted := True, timer := None\<rparr>)"

section \<open>SessionHandler\<close>

record handler =
  sessionMaxInactiveInterval :: int
  maxSessionsPerIp :: int
  sessionDeletionTimeout :: int
  live :: "string list"
  objs :: "string \<rightharpoonup> session"

datatype session_error = SessionLimit

definition new_handler :: "int \<Rightarrow> int \<Rightarrow> int \<Rightarrow> handler" where
  "new_handler interval per_ip timeout =
     \<lparr>sessionMaxInactiveInterval = interval, maxSessionsPerIp = per_ip, sessionDeletionTimeout = timeout, live = [], objs = Map.empty\<rparr>"

definition session_of :: "handler \<Rightarrow> string \<Rightarrow> session" where
  "session_of h u = the (objs h u)"

definition modify :: "string \<Rightarrow> (session \<Rightarrow> session) \<Rightarrow> handler \<Rightarrow> handler" where
  "modify u f h = h\<lparr>objs := (objs h)(u := map_option f (objs h u))\<rparr>"

definition getSessions :: "string option \<Rightarrow> handler \<Rightarrow> string list" where
  "getSessions a h = (if a = None \<or> a = Some [] then live h else filter (\<lambda>u. ip (session_of h u) = a) (live h))"

definition createSession :: "rat \<Rightarrow> string \<Rightarrow> handler \<Rightarrow> handler" where
  "createSession now fresh h =
     h\<lparr>objs := (objs h)(fresh \<mapsto> new_session now fresh (sessionMaxInactiveInterval h)),
       live := (if fresh \<in> set (live h) then live h else live h @ [fresh])\<rparr>"

definition deleteSession :: "string \<Rightarrow> handler \<Rightarrow> handler" where
  "deleteSession u h = (if u \<in> set (live h) then (modify u delete_session h)\<lparr>live := remove1 u (live h)\<rparr> else h)"

definition delete_unused :: "string list \<Rightarrow> handler \<Rightarrow> handler" where
  "delete_unused us h = foldl (\<lambda>h u. if usageCount (session_of h u) > 0 then h else deleteSession u h) h us"

definition fresh_session :: "rat \<Rightarrow> string \<Rightarrow> handler \<Rightarrow> string \<times> handler" where
  "fresh_session now fresh h = (fresh, modify fresh (increaseUsageCount now) (createSession now fresh h))"

definition getSession ::
  "rat \<Rightarrow> string \<Rightarrow> string option \<Rightarrow> string option \<Rightarrow> handler \<Rightarrow> (session_error \<times> handler, string \<times> handler) result" where
  "getSession now fresh u a h =
     (if u \<noteq> None \<and> u \<noteq> Some [] \<and> the u \<in> set (live h) \<and> \<not> marked (session_of h (the u))
      then Inr (the u, modify (the u) (increaseUsageCount now) h)
      else if a \<noteq> None \<and> a \<noteq> Some [] \<and> maxSessionsPerIp h > 0 \<and> int (length (getSessions a h)) \<ge> maxSessionsPerIp h
      then
        (let h1 = delete_unused (getSessions a h) h
         in if int (length (getSessions a h1)) \<ge> maxSessionsPerIp h1 then Inl (SessionLimit, h1)
            else Inr (fresh_session now fresh h1))
      else Inr (fresh_session now fresh h))"

text \<open>The polling loop of \<open>sessionExpired\<close>: True when it deletes the session itself.\<close>

function expire_wait :: "(nat \<Rightarrow> handler \<Rightarrow> handler) \<Rightarrow> nat \<Rightarrow> rat \<Rightarrow> string \<Rightarrow> handler \<Rightarrow> handler \<times> bool" where
  "expire_wait env n timeout u h =
     (if usageCount (session_of h u) > 0 \<and> timeout > 0 then
        if u \<notin> set (live h) then (h, False)
        else expire_wait env (Suc n) (timeout - 1 / 100) u (env n h)
      else (deleteSession u h, True))"
  by pat_completeness auto
termination
proof (relation "measure (\<lambda>(env, n, timeout, u, h). nat \<lceil>timeout * 100\<rceil>)")
  fix env :: "nat \<Rightarrow> handler \<Rightarrow> handler" and n :: nat and timeout :: rat and u h
  assume "0 < usageCount (session_of h u) \<and> 0 < timeout"
  moreover have "(timeout - 1 / 100) * 100 = timeout * 100 - 1" by (simp add: algebra_simps)
  ultimately show "((env, Suc n, timeout - 1 / 100, u, env n h), (env, n, timeout, u, h))
      \<in> measure (\<lambda>(env, n, timeout, u, h). nat \<lceil>timeout * 100\<rceil>)"
    by (simp add: nat_less_eq_zless)
qed simp

declare expire_wait.simps [simp del]

definition sessionExpired :: "(nat \<Rightarrow> handler \<Rightarrow> handler) \<Rightarrow> string \<Rightarrow> handler \<Rightarrow> handler \<times> bool" where
  "sessionExpired env u h = expire_wait env 0 (of_int (sessionDeletionTimeout h)) u (modify u setMarkedForDeletion h)"

definition deleteAllSessions :: "handler \<Rightarrow> handler" where
  "deleteAllSessions h = (fold deleteSession (live h) h)\<lparr>live := []\<rparr>"

end
