(* ===== verification/Worker.thy ===== *)
theory Worker
  imports Sessions
begin

text \<open>
  How a request worker (OPSI/Service/Worker.py) uses sessions: reading the session id and the
  credentials from the request headers, getting or replacing the session, authenticating and
  freeing the session on every path. The base64 decoding of the header is a parameter; what the
  later steps of a request do is a parameter (whether they raise).
\<close>

section \<open>Headers\<close>

text \<open>\<open>s.split(c, 1)\<close> for a string that contains \<open>c\<close>\<close>

definition split_once :: "char \<Rightarrow> string \<Rightarrow> string \<times> string" where
  "split_once c s = (takeWhile (\<lambda>x. x \<noteq> c) s, drop 1 (dropWhile (\<lambda>x. x \<noteq> c) s))"

definition cookie_value :: "string \<Rightarrow> string \<Rightarrow> string option" where
  "cookie_value name cookie =
     (if CHR ''='' \<notin> set cookie then None
      else let (n, v) = split_once (CHR ''='') cookie in if strip n = name then Some (strip v) else None)"

fun first_cookie :: "string \<Rightarrow> string list \<Rightarrow> string" where
  "first_cookie name [] = []"
| "first_cookie name (c # cs) = (case cookie_value name c of Some v \<Rightarrow> v | None \<Rightarrow> first_cookie name cs)"

definition getSessionId :: "string \<Rightarrow> string option \<Rightarrow> string" where
  "getSessionId sessionName cookies =
     (case cookies of None \<Rightarrow> [] | Some cs \<Rightarrow> first_cookie sessionName (split_char (CHR '';'') cs))"

text \<open>The decoded part of the header: up to six colons belong to a MAC address used as the name.\<close>

definition split_credentials :: "string \<Rightarrow> string \<times> string" where
  "split_credentials decoded =
     (let parts = split_char (CHR '':'') decoded;
          n = (if length parts > 6 then 6 else 1)
      in (lower (strip (join_char (CHR '':'') (take n parts))), join_char (CHR '':'') (drop n parts)))"

text \<open>
  \<open>words\<close> is \<open>str.split()\<close>; an error while decoding leaves both empty, as no header does. A header
  of white space raises (None).
\<close>

definition getAuthorization ::
  "(string \<Rightarrow> string list) \<Rightarrow> (string \<Rightarrow> string option) \<Rightarrow> string option \<Rightarrow> (string \<times> string) option" where
  "getAuthorization words base64 header =
     (case header of
        None \<Rightarrow> Some ([], [])
      | Some [] \<Rightarrow> Some ([], [])
      | Some auth \<Rightarrow>
          (case words auth of
             [] \<Rightarrow> None
           | [_] \<Rightarrow> Some ([], [])
           | _ # enc # _ \<Rightarrow> Some (case base64 enc of None \<Rightarrow> ([], []) | Some d \<Rightarrow> split_credentials d)))"

section \<open>A request\<close>

definition set_client :: "string option \<Rightarrow> string \<Rightarrow> session \<Rightarrow> session" where
  "set_client a agent s = s\<lparr>ip := a, userAgent := agent\<rparr>"

definition worker_getSession ::
  "rat \<Rightarrow> string \<Rightarrow> string \<Rightarrow> string \<Rightarrow> string option \<Rightarrow> string \<Rightarrow> handler \<Rightarrow> (session_error \<times> handler, string \<times> handler) result" where
  "worker_getSession now fresh1 fresh2 sessionId request_ip agent h =
     bindE (getSession now fresh1 (Some sessionId) request_ip h)
       (\<lambda>(u, h1).
          let own = ip (session_of h1 u)
          in if own \<noteq> None \<and> own \<noteq> Some [] \<and> own \<noteq> request_ip
             then bindE (getSession now fresh2 None None (deleteSession u h1))
                    (\<lambda>(u2, h2). Inr (u2, modify u2 (set_client request_ip agent) h2))
             else Inr (u, modify u (set_client request_ip agent) h1))"

definition freeSession :: "string \<Rightarrow> handler \<Rightarrow> handler" where
  "freeSession u h = modify u decreaseUsageCount h"

text \<open>\<open>_authenticate\<close>; \<open>ok\<close> tells whether the credentials are accepted.\<close>

definition worker_authenticate :: "bool \<Rightarrow> string \<Rightarrow> handler \<Rightarrow> (handler, handler) result" where
  "worker_authenticate ok u h =
     (if authenticated (session_of h u) then Inr h
      else if ok then Inr (modify u (\<lambda>s. s\<lparr>authenticated := True\<rparr>) h)
      else Inl (deleteSession u (freeSession u h)))"

text \<open>
  The error callback frees the session, again where \<open>_authenticate\<close> has done so, and chooses the response code by the
  class of the error.
\<close>

datatype request_error = OpsiServiceAuthenticationError | OpsiBadRpcError | OtherRequestError

definition errback :: "request_error \<Rightarrow> string \<Rightarrow> handler \<Rightarrow> handler \<times> nat" where
  "errback e u h =
     (freeSession u h, case e of OpsiServiceAuthenticationError \<Rightarrow> 401 | OpsiBadRpcError \<Rightarrow> 400 | OtherRequestError \<Rightarrow> 500)"

text \<open>
  \<open>process\<close> after the session has been found: the handler it leaves and the response code. \<open>rest\<close>
  is what reading and executing the query and writing the response raise, if they raise anything.
\<close>

definition worker_process :: "bool \<Rightarrow> request_error option \<Rightarrow> string \<Rightarrow> handler \<Rightarrow> handler \<times> nat" where
  "worker_process auth_ok rest u h =
     (case worker_authenticate auth_ok u h of
        Inl h' \<Rightarrow> errback OpsiServiceAuthenticationError u h'
      | Inr h' \<Rightarrow> (case rest of None \<Rightarrow> (freeSession u h', 200) | Some e \<Rightarrow> errback e u h'))"

section \<open>Invariants of the handler\<close>

definition handler_inv :: "handler \<Rightarrow> bool" where
  "handler_inv h \<longleftrightarrow> distinct (live h) \<and>
     (\<forall>u \<in> set (live h). \<exists>s. objs h u = Some s \<and> \<not> deleted s) \<and>
     (\<forall>u s. objs h u = Some s \<longrightarrow> u \<notin> set (live h) \<longrightarrow> deleted s)"

lemma modify_simps [simp]:
  "live (modify u f h) = live h" "maxSessionsPerIp (modify u f h) = maxSessionsPerIp h"
  "sessionDeletionTimeout (modify u f h) = sessionDeletionTimeout h"
  "objs (modify u f h) v = (if v = u then map_option f (objs h u) else objs h v)"
  by (simp_all add: modify_def)

lemma obj_modify: "objs h u \<noteq> None \<Longrightarrow> session_of (modify u f h) v = (if v = u then f (session_of h u) else session_of h v)"
  by (auto simp: session_of_def)

lemma delete_session_simps [simp]: "deleted (delete_session s)" "ip (delete_session s) = ip s" "usageCount (delete_session s) = usageCount s"
  by (simp_all add: delete_session_def)

lemma touch_simps [simp]:
  "deleted (touch now s) = deleted s" "ip (touch now s) = ip s" "marked (touch now s) = marked s" "usageCount (touch now s) = usageCount s"
  by (simp_all add: touch_def)

lemma increase_simps [simp]:
  "deleted (increaseUsageCount now s) = deleted s" "ip (increaseUsageCount now s) = ip s" "marked (increaseUsageCount now s) = marked s"
  "usageCount (increaseUsageCount now s) = (if deleted s then usageCount s else usageCount s + 1)"
  by (simp_all add: increaseUsageCount_def)

lemma decrease_simps [simp]:
  "deleted (decreaseUsageCount s) = deleted s" "ip (decreaseUsageCount s) = ip s"
  "usageCount (decreaseUsageCount s) = (if deleted s then usageCount s else usageCount s - 1)"
  by (simp_all add: decreaseUsageCount_def)

lemma handler_invD:
  assumes "handler_inv h"
  shows "distinct (live h)" and "u \<in> set (live h) \<Longrightarrow> objs h u \<noteq> None \<and> \<not> deleted (session_of h u)"
    and "objs h u = Some s \<Longrightarrow> u \<notin> set (live h) \<Longrightarrow> deleted s"
  using assms by (fastforce simp: handler_inv_def session_of_def)+

lemma handler_invI:
  assumes "distinct (live h)" and "\<And>u. u \<in> set (live h) \<Longrightarrow> objs h u \<noteq> None \<and> \<not> deleted (session_of h u)"
    and "\<And>u s. objs h u = Some s \<Longrightarrow> u \<notin> set (live h) \<Longrightarrow> deleted s"
  shows "handler_inv h"
  using assms by (fastforce simp: handler_inv_def session_of_def)

lemma handler_inv_modify:
  assumes "handler_inv h" and "\<And>s. deleted (f s) = deleted s"
  shows "handler_inv (modify u f h)"
proof (cases "objs h u")
  case None
  then have "modify u f h = h" by (simp add: modify_def fun_upd_idem)
  then show ?thesis using assms(1) by simp
next
  case (Some s)
  have "u \<in> set (live h) \<Longrightarrow> \<not> deleted s" using handler_invD(2)[OF assms(1), of u] Some by (simp add: session_of_def)
  then show ?thesis using Some handler_invD[OF assms(1)] assms(2)
    by (intro handler_invI) (auto simp: session_of_def split: if_splits)
qed

lemma handler_inv_deleteSession: "handler_inv h \<Longrightarrow> handler_inv (deleteSession u h)"
proof -
  assume inv: "handler_inv h"
  note D = handler_invD[OF inv]
  show ?thesis
  proof (cases "u \<in> set (live h)")
    case True
    show ?thesis
      by (rule handler_invI) (use D True in \<open>auto simp: deleteSession_def session_of_def split: if_splits\<close>)
  qed (simp add: inv deleteSession_def)
qed

lemma handler_inv_create:
  "handler_inv h \<Longrightarrow> objs h fresh = None \<Longrightarrow> handler_inv (createSession now fresh h)"
  by (auto simp: handler_inv_def createSession_def new_session_def)

lemma obj_deleteSession_ip [simp]: "ip (session_of (deleteSession u h) v) = ip (session_of h v)"
  by (cases "objs h u") (auto simp: deleteSession_def session_of_def)

lemma live_deleteSession: "live (deleteSession u h) = remove1 u (live h)"
  by (simp add: deleteSession_def remove1_idem)

lemma max_deleteSession [simp]: "maxSessionsPerIp (deleteSession u h) = maxSessionsPerIp h"
  by (simp add: deleteSession_def)

lemma objs_deleteSession_None [simp]: "objs (deleteSession u h) v = None \<longleftrightarrow> objs h v = None"
  by (simp add: deleteSession_def)

text \<open>The number of live sessions of an address.\<close>

definition count_ip :: "string \<Rightarrow> handler \<Rightarrow> nat" where
  "count_ip a h = length (filter (\<lambda>u. ip (session_of h u) = Some a) (live h))"

lemma getSessions_count: "a \<noteq> [] \<Longrightarrow> length (getSessions (Some a) h) = count_ip a h"
  by (simp add: getSessions_def count_ip_def)

lemma count_ip_delete: "count_ip a (deleteSession u h) \<le> count_ip a h"
proof -
  have "length (filter P (remove1 u xs)) \<le> length (filter P xs)" for P and xs :: "string list"
    by (induction xs) auto
  then show ?thesis by (simp add: count_ip_def live_deleteSession)
qed

lemma count_ip_modify:
  assumes "\<And>s. ip (f s) = ip s"
  shows "count_ip a (modify u f h) = count_ip a h"
proof -
  have "ip (session_of (modify u f h) v) = ip (session_of h v)" for v
    using assms by (cases "objs h u") (auto simp: session_of_def)
  then show ?thesis by (simp add: count_ip_def)
qed

definition sessions_ok :: "handler \<Rightarrow> bool" where
  "sessions_ok h \<longleftrightarrow> handler_inv h \<and> (\<forall>u \<in> set (live h). ip (session_of h u) \<noteq> None \<and> ip (session_of h u) \<noteq> Some []) \<and>
     (maxSessionsPerIp h > 0 \<longrightarrow> (\<forall>a. a \<noteq> [] \<longrightarrow> int (count_ip a h) \<le> maxSessionsPerIp h))"

lemma sessions_ok_delete:
  assumes "sessions_ok h"
  shows "sessions_ok (deleteSession u h)"
proof -
  have "int (count_ip a (deleteSession u h)) \<le> maxSessionsPerIp h" if "maxSessionsPerIp h > 0" "a \<noteq> []" for a
    using assms that count_ip_delete[of a u h] unfolding sessions_ok_def by (meson of_nat_mono order_trans)
  moreover have "v \<in> set (live h)" if "v \<in> set (live (deleteSession u h))" for v
    using that notin_set_remove1[of v "live h" u] by (auto simp: live_deleteSession)
  ultimately show ?thesis using assms by (auto simp: sessions_ok_def handler_inv_deleteSession)
qed

lemma sessions_ok_modify:
  assumes "sessions_ok h" and "\<And>s. deleted (f s) = deleted s" and "\<And>s. ip (f s) = ip s"
  shows "sessions_ok (modify u f h)"
proof -
  have "ip (session_of (modify u f h) v) = ip (session_of h v)" for v
    using assms(3) by (cases "objs h u") (auto simp: session_of_def)
  then show ?thesis using assms by (simp add: sessions_ok_def handler_inv_modify count_ip_modify)
qed

lemma delete_unused_facts:
  "sessions_ok h \<Longrightarrow> sessions_ok (delete_unused us h) \<and> set (live (delete_unused us h)) \<subseteq> set (live h) \<and>
     maxSessionsPerIp (delete_unused us h) = maxSessionsPerIp h \<and>
     (\<forall>v. objs (delete_unused us h) v = None \<longleftrightarrow> objs h v = None) \<and> (\<forall>v. ip (session_of (delete_unused us h) v) = ip (session_of h v))"
proof (induction us arbitrary: h)
  case (Cons u us)
  show ?case
  proof (cases "usageCount (session_of h u) > 0")
    case True
    then have "delete_unused (u # us) h = delete_unused us h" by (simp add: delete_unused_def)
    then show ?thesis using Cons by simp
  next
    case False
    then have eq: "delete_unused (u # us) h = delete_unused us (deleteSession u h)" by (simp add: delete_unused_def)
    have "set (live (deleteSession u h)) \<subseteq> set (live h)" by (simp add: live_deleteSession set_remove1_subset)
    then show ?thesis using Cons.IH[OF sessions_ok_delete[OF Cons.prems, of u]] unfolding eq by auto
  qed
qed (simp add: delete_unused_def)

text \<open>A new session, once it has been given the address of a client that is below the limit.\<close>

lemma fresh_session_facts:
  fixes now :: rat
  assumes "objs h fresh = None" and "handler_inv h"
  defines "h' \<equiv> snd (fresh_session now fresh h)"
  shows "live h' = live h @ [fresh]" and "handler_inv h'" and "maxSessionsPerIp h' = maxSessionsPerIp h"
    and "objs h' v = (if v = fresh then Some (increaseUsageCount now (new_session now fresh (sessionMaxInactiveInterval h))) else objs h v)"
proof -
  have nl: "fresh \<notin> set (live h)" using handler_invD(2)[OF assms(2), of fresh] assms(1) by auto
  show "live h' = live h @ [fresh]" "maxSessionsPerIp h' = maxSessionsPerIp h"
    "objs h' v = (if v = fresh then Some (increaseUsageCount now (new_session now fresh (sessionMaxInactiveInterval h))) else objs h v)"
    using nl by (simp_all add: h'_def fresh_session_def createSession_def)
  show "handler_inv h'"
    unfolding h'_def fresh_session_def using assms(1,2) by (simp add: handler_inv_modify handler_inv_create)
qed

lemma sessions_ok_new:
  assumes ok: "sessions_ok h" and "objs h fresh = None" and "a \<noteq> []"
    and limit: "maxSessionsPerIp h > 0 \<longrightarrow> int (count_ip a h) < maxSessionsPerIp h"
  shows "sessions_ok (modify fresh (set_client (Some a) agent) (snd (fresh_session now fresh h)))"
proof -
  let ?h1 = "snd (fresh_session now fresh h)" and ?h2 = "modify fresh (set_client (Some a) agent) (snd (fresh_session now fresh h))"
  have inv: "handler_inv h" using ok by (simp add: sessions_ok_def)
  note F = fresh_session_facts[OF assms(2) inv, of now]
  have nl: "fresh \<notin> set (live h)" using handler_invD(2)[OF inv, of fresh] assms(2) by auto
  have ips: "ip (session_of ?h2 v) = (if v = fresh then Some a else ip (session_of h v))" for v
    using F(4) by (simp add: session_of_def set_client_def)
  have live2: "live ?h2 = live h @ [fresh]" using F(1) by simp
  have "filter (\<lambda>u. ip (session_of ?h2 u) = Some b) (live h) = filter (\<lambda>u. ip (session_of h u) = Some b) (live h)" for b
    using nl by (intro filter_cong) (auto simp: ips)
  then have cnt: "count_ip b ?h2 = count_ip b h + (if b = a then 1 else 0)" for b
    unfolding count_ip_def live2 filter_append by (simp add: ips)
  have "handler_inv ?h2" using F(2) by (simp add: handler_inv_modify set_client_def)
  moreover have "\<forall>u \<in> set (live ?h2). ip (session_of ?h2 u) \<noteq> None \<and> ip (session_of ?h2 u) \<noteq> Some []"
    using ok assms(3) live2 ips by (auto simp: sessions_ok_def)
  moreover have "int (count_ip b ?h2) \<le> maxSessionsPerIp h" if "maxSessionsPerIp h > 0" "b \<noteq> []" for b
  proof (cases "b = a")
    case True
    then show ?thesis using limit that(1) cnt[of b] by simp
  next
    case False
    then show ?thesis using ok that cnt[of b] by (simp add: sessions_ok_def)
  qed
  ultimately show ?thesis using F(3) by (simp add: sessions_ok_def)
qed

text \<open>A session that is presented again comes from the address it belongs to.\<close>

definition same_address :: "string \<Rightarrow> string \<Rightarrow> handler \<Rightarrow> bool" where
  "same_address sessionId a h \<longleftrightarrow>
     (sessionId \<in> set (live h) \<and> \<not> marked (session_of h sessionId) \<longrightarrow> ip (session_of h sessionId) = Some a)"

lemma getSession_cases:
  assumes "getSession now fresh u a h = r"
  obtains (reused) v where "u = Some v" "v \<in> set (live h)" "\<not> marked (session_of h v)" "r = Inr (v, modify v (increaseUsageCount now) h)"
  | (limit) h1 where "a \<noteq> None" "a \<noteq> Some []" "maxSessionsPerIp h > 0" "h1 = delete_unused (getSessions a h) h" "r = Inl (SessionLimit, h1)"
      "int (length (getSessions a h1)) \<ge> maxSessionsPerIp h1"
  | (below) "a = None \<or> a = Some [] \<or> maxSessionsPerIp h \<le> 0 \<or> int (length (getSessions a h)) < maxSessionsPerIp h"
      "r = Inr (fresh_session now fresh h)"
  | (made_room) h1 where "h1 = delete_unused (getSessions a h) h" "r = Inr (fresh_session now fresh h1)"
      "int (length (getSessions a h1)) < maxSessionsPerIp h1"
  using assms unfolding getSession_def
  by (cases u) (auto simp: Let_def not_le split: if_splits)

lemma worker_getSession_ok:
  assumes ok: "sessions_ok h" and fresh: "objs h f1 = None" and a: "a \<noteq> []" and same: "same_address sid a h"
    and r: "worker_getSession now f1 f2 sid (Some a) agent h = Inr (u, h')"
  shows "sessions_ok h'"
proof -
  from r obtain v h1 where g: "getSession now f1 (Some sid) (Some a) h = Inr (v, h1)"
    by (auto simp: worker_getSession_def bindE_eq_Inr)
  have inv: "handler_inv h" using ok by (simp add: sessions_ok_def)
  from g show ?thesis
  proof (cases rule: getSession_cases)
    case (reused w)
    then have w: "w = sid" "v = sid" "h1 = modify sid (increaseUsageCount now) h" by simp_all
    have "objs h sid \<noteq> None" using handler_invD(2)[OF inv] reused(2) w by simp
    then have "ip (session_of h1 sid) = Some a" using same reused(2,3) w by (simp add: same_address_def obj_modify)
    then have h': "h' = modify sid (set_client (Some a) agent) h1"
      using r g w by (auto simp: worker_getSession_def Let_def)
    have ip: "ip (set_client (Some a) agent (increaseUsageCount now (session_of h sid))) = ip (session_of h sid)"
      using \<open>ip (session_of h1 sid) = Some a\<close> w \<open>objs h sid \<noteq> None\<close> by (simp add: set_client_def obj_modify)
    have "ip (session_of h' x) = ip (session_of h x)" for x
      using ip \<open>objs h sid \<noteq> None\<close> by (auto simp: h' w session_of_def)
    moreover have "live h' = live h" "maxSessionsPerIp h' = maxSessionsPerIp h" by (simp_all add: h' w)
    moreover have "handler_inv h'" unfolding h' w by (intro handler_inv_modify inv) (simp_all add: set_client_def)
    ultimately show ?thesis using ok by (simp add: sessions_ok_def count_ip_def)
  next
    case below
    then have h1: "v = f1" "h1 = snd (fresh_session now f1 h)" by (simp_all add: fresh_session_def)
    have "ip (session_of h1 f1) = Some []"
      using fresh_session_facts(4)[OF fresh inv, of now f1] by (simp add: h1 session_of_def new_session_def)
    then have "h' = modify f1 (set_client (Some a) agent) h1" using r g h1 by (auto simp: worker_getSession_def Let_def)
    moreover have "maxSessionsPerIp h > 0 \<longrightarrow> int (count_ip a h) < maxSessionsPerIp h"
      using below(1) a getSessions_count[OF a] by auto
    ultimately show ?thesis using sessions_ok_new[OF ok fresh a] h1 by simp
  next
    case (made_room h0)
    have D: "sessions_ok h0" "maxSessionsPerIp h0 = maxSessionsPerIp h" "objs h0 f1 = None"
      using delete_unused_facts[OF ok, of "getSessions (Some a) h"] fresh made_room(1) by simp_all
    then have inv0: "handler_inv h0" by (simp add: sessions_ok_def)
    have h1: "v = f1" "h1 = snd (fresh_session now f1 h0)" using made_room(2) by (simp_all add: fresh_session_def)
    have "ip (session_of h1 f1) = Some []"
      using fresh_session_facts(4)[OF D(3) inv0, of now f1] by (simp add: h1 session_of_def new_session_def)
    then have "h' = modify f1 (set_client (Some a) agent) h1" using r g h1 by (auto simp: worker_getSession_def Let_def)
    then show ?thesis using sessions_ok_new[OF D(1) D(3) a] h1 made_room(3) getSessions_count[OF a] by simp
  qed simp
qed

lemma worker_getSession_refused:
  assumes ok: "sessions_ok h" and a: "a \<noteq> []" and fresh: "objs h f1 = None" and same: "same_address sid a h"
    and r: "worker_getSession now f1 f2 sid (Some a) agent h = Inl (e, h')"
  shows "sessions_ok h'"
proof -
  have inv: "handler_inv h" using ok by (simp add: sessions_ok_def)
  obtain g where g: "getSession now f1 (Some sid) (Some a) h = g" by simp
  then show ?thesis
  proof (cases rule: getSession_cases)
    case (reused w)
    then have "objs h sid \<noteq> None" using handler_invD(2)[OF inv] by simp
    then have "ip (session_of (modify sid (increaseUsageCount now) h) sid) = Some a"
      using same reused by (simp add: same_address_def obj_modify)
    then show ?thesis using r g reused by (auto simp: worker_getSession_def Let_def)
  next
    case (limit h1)
    then show ?thesis using r g delete_unused_facts[OF ok] by (auto simp: worker_getSession_def)
  next
    case below
    have "ip (session_of (snd (fresh_session now f1 h)) f1) = Some []"
      using fresh_session_facts(4)[OF fresh inv, of now f1] by (simp add: session_of_def new_session_def)
    then show ?thesis using r g below by (auto simp: worker_getSession_def Let_def fresh_session_def)
  next
    case (made_room h1)
    have D: "handler_inv h1" "objs h1 f1 = None"
      using delete_unused_facts[OF ok, of "getSessions (Some a) h"] fresh made_room(1) by (simp_all add: sessions_ok_def)
    have "ip (session_of (snd (fresh_session now f1 h1)) f1) = Some []"
      using fresh_session_facts(4)[OF D(2,1), of now f1] by (simp add: session_of_def new_session_def)
    then show ?thesis using r g made_room by (auto simp: worker_getSession_def Let_def fresh_session_def)
  qed
qed

lemma fold_deleteSession:
  "sessions_ok h \<Longrightarrow> sessions_ok (fold deleteSession us h) \<and>
     (\<forall>u \<in> set us. u \<notin> set (live (fold deleteSession us h))) \<and> set (live (fold deleteSession us h)) \<subseteq> set (live h)"
proof (induction us arbitrary: h)
  case (Cons u us)
  note I = Cons.IH[OF sessions_ok_delete[OF Cons.prems, of u]]
  have "distinct (live h)" using Cons.prems by (simp add: sessions_ok_def handler_inv_def)
  then have "u \<notin> set (live (deleteSession u h))" "set (live (deleteSession u h)) \<subseteq> set (live h)"
    by (simp_all add: live_deleteSession set_remove1_subset)
  then show ?case using I by auto
qed simp

lemma sessions_ok_deleteAll:
  assumes "sessions_ok h"
  shows "sessions_ok (deleteAllSessions h)"
proof -
  let ?h = "fold deleteSession (live h) h"
  have "live ?h = []" using fold_deleteSession[OF assms, of "live h"] by (metis subset_iff set_empty equals0I)
  then have "deleteAllSessions h = ?h" by (simp add: deleteAllSessions_def)
  then show ?thesis using fold_deleteSession[OF assms, of "live h"] by simp
qed

section \<open>Reachable handlers\<close>

text \<open>
  What can happen: requests with an address and, when they present a session that exists, the address
  it belongs to; the processing of a request; expiry (marking, then deleting); deletion.
\<close>

inductive worker_step :: "handler \<Rightarrow> handler \<Rightarrow> bool" where
  request: "objs h f1 = None \<Longrightarrow> a \<noteq> [] \<Longrightarrow> same_address sid a h \<Longrightarrow>
    worker_getSession now f1 f2 sid (Some a) agent h = Inr (u, h') \<Longrightarrow> worker_step h h'"
| refuse: "objs h f1 = None \<Longrightarrow> a \<noteq> [] \<Longrightarrow> same_address sid a h \<Longrightarrow>
    worker_getSession now f1 f2 sid (Some a) agent h = Inl (e, h') \<Longrightarrow> worker_step h h'"
| work: "worker_step h (fst (worker_process auth_ok rest u h))"
| mark: "worker_step h (modify u setMarkedForDeletion h)"
| remove: "worker_step h (deleteSession u h)"
| remove_all: "worker_step h (deleteAllSessions h)"

inductive_cases worker_stepE: "worker_step h h'"

inductive handler_reachable :: "handler \<Rightarrow> bool" where
  start: "handler_reachable (new_handler interval per_ip timeout)"
| move: "handler_reachable h \<Longrightarrow> worker_step h h' \<Longrightarrow> handler_reachable h'"

lemma sessions_ok_process: "sessions_ok h \<Longrightarrow> sessions_ok (fst (worker_process auth_ok rest u h))"
  by (auto simp: worker_process_def worker_authenticate_def errback_def freeSession_def sessions_ok_modify sessions_ok_delete split: option.split)

lemma sessions_ok_reachable: "handler_reachable h \<Longrightarrow> sessions_ok h"
proof (induction rule: handler_reachable.induct)
  case (start interval per_ip timeout)
  then show ?case by (simp add: sessions_ok_def new_handler_def handler_inv_def count_ip_def)
next
  case (move h h')
  from \<open>worker_step h h'\<close> show ?case
    by (rule worker_stepE)
      (use move.IH in \<open>auto intro: worker_getSession_ok worker_getSession_refused sessions_ok_process sessions_ok_modify
        sessions_ok_delete sessions_ok_deleteAll simp: setMarkedForDeletion_def\<close>)
qed

section \<open>Properties\<close>

text \<open>
  C12: As long as no session id is presented from another address than the session's, the number of
  live sessions of an address never exceeds the limit per address, whatever requests arrive,
  succeed or fail and whichever sessions expire or are deleted; a session is live exactly when it
  has not been deleted.
\<close>

theorem session_limit_kept:
  assumes "handler_reachable h" and "maxSessionsPerIp h > 0" and "a \<noteq> []"
  shows "int (length (getSessions (Some a) h)) \<le> maxSessionsPerIp h \<and>
    (\<forall>u s. objs h u = Some s \<longrightarrow> (u \<in> set (live h) \<longleftrightarrow> \<not> deleted s))"
proof -
  have ok: "sessions_ok h" by (rule sessions_ok_reachable[OF assms(1)])
  then have "u \<in> set (live h) \<longleftrightarrow> \<not> deleted s" if "objs h u = Some s" for u s
    using handler_invD(2)[of h u] handler_invD(3)[of h u s] that by (auto simp: sessions_ok_def session_of_def)
  then show ?thesis using ok assms(2,3) getSessions_count[OF assms(3)] by (simp add: sessions_ok_def)
qed

definition full_handler :: handler where
  "full_handler = (case worker_getSession 0 ''s1'' ''s2'' [] (Some ''10.0.0.1'') ''x'' (new_handler 120 1 60) of
     Inr (u, h) \<Rightarrow> h | Inl (e, h) \<Rightarrow> h)"

lemma full_handler_reachable: "handler_reachable full_handler"
proof (rule move[OF start])
  obtain h where h: "worker_getSession 0 ''s1'' ''s2'' [] (Some ''10.0.0.1'') ''x'' (new_handler 120 1 60) = Inr (''s1'', h)"
    by (simp add: new_handler_def worker_getSession_def getSession_def getSessions_def fresh_session_def createSession_def
        session_of_def modify_def increaseUsageCount_def new_session_def Let_def bindE_def)
  then have "full_handler = h" by (simp add: full_handler_def)
  with h show "worker_step (new_handler 120 1 60) full_handler"
    by (intro request[of _ "''s1''" "''10.0.0.1''" "[]" 0 "''s2''" "''x''" "''s1''"])
      (simp_all add: new_handler_def same_address_def)
qed

theorem session_limit_kept_witness:
  "int (length (getSessions (Some ''10.0.0.1'') full_handler)) \<le> 1"
proof -
  have "maxSessionsPerIp full_handler = 1" by code_simp
  then show ?thesis using session_limit_kept[OF full_handler_reachable, of "''10.0.0.1''"] by simp
qed

text \<open>
  A client that presents the session id of another address gets a session beyond the limit, and
  the other client's session is deleted.
\<close>

theorem foreign_session_id_bypasses_limit:
  "\<exists>h h'. worker_getSession 0 ''s2'' ''s3'' ''s1'' (Some ''10.0.0.1'') ''x'' h = Inr (''s3'', h') \<and>
    maxSessionsPerIp h = 1 \<and> live h = [''s0'', ''s1''] \<and> getSessions (Some ''10.0.0.1'') h = [''s0''] \<and>
    getSessions (Some ''10.0.0.1'') h' = [''s0'', ''s3''] \<and> ''s1'' \<notin> set (live h')"
proof -
  let ?s = "\<lambda>u a. (increaseUsageCount 0 (new_session 0 u 120))\<lparr>ip := Some a\<rparr>"
  let ?h = "(new_handler 120 1 60)\<lparr>live := [''s0'', ''s1''],
      objs := [''s0'' \<mapsto> ?s ''s0'' ''10.0.0.1'', ''s1'' \<mapsto> ?s ''s1'' ''10.0.0.2'']\<rparr>"
  show ?thesis
    by (intro exI[of _ ?h] exI[of _ "snd (case worker_getSession 0 ''s2'' ''s3'' ''s1'' (Some ''10.0.0.1'') ''x'' ?h of Inr p \<Rightarrow> p | Inl p \<Rightarrow> ([], snd p))"])
      (simp add: worker_getSession_def getSession_def getSessions_def new_handler_def session_of_def modify_def new_session_def touch_def
        increaseUsageCount_def deleteSession_def delete_session_def fresh_session_def createSession_def set_client_def Let_def)
qed

text \<open>The environment's steps during a wait.\<close>

fun env_run :: "(nat \<Rightarrow> handler \<Rightarrow> handler) \<Rightarrow> nat \<Rightarrow> nat \<Rightarrow> handler \<Rightarrow> handler" where
  "env_run env n 0 h = h"
| "env_run env n (Suc k) h = env_run env (Suc n) k (env n h)"

lemma expire_wait_run:
  "\<exists>k. (let h' = env_run env n k h
        in expire_wait env n timeout u h = (h', False) \<and> u \<notin> set (live h') \<or>
           expire_wait env n timeout u h = (deleteSession u h', True) \<and>
             (usageCount (session_of h' u) \<le> 0 \<or> timeout * 100 \<le> of_nat k))"
proof (induction env n timeout u h rule: expire_wait.induct)
  case (1 env n timeout u h)
  show ?case
  proof (cases "usageCount (session_of h u) > 0 \<and> timeout > 0 \<and> u \<in> set (live h)")
    case True
    with 1 obtain k where k: "(let h' = env_run env (Suc n) k (env n h)
        in expire_wait env (Suc n) (timeout - 1 / 100) u (env n h) = (h', False) \<and> u \<notin> set (live h') \<or>
           expire_wait env (Suc n) (timeout - 1 / 100) u (env n h) = (deleteSession u h', True) \<and>
             (usageCount (session_of h' u) \<le> 0 \<or> (timeout - 1 / 100) * 100 \<le> of_nat k))" by blast
    have "(timeout - 1 / 100) * 100 \<le> of_nat k \<longleftrightarrow> timeout * 100 \<le> of_nat (Suc k)" by (simp add: algebra_simps)
    then show ?thesis using k True
      by (intro exI[of _ "Suc k"]) (simp add: expire_wait.simps[of env n] Let_def)
  next
    case False
    then show ?thesis
      by (intro exI[of _ 0]) (auto simp: expire_wait.simps[of env n] Let_def)
  qed
qed

text \<open>
  C38: When a session expires it is gone afterwards whatever other threads do meanwhile (as long as
  they keep the list of sessions free of repetitions), and the handler deletes it itself only when
  it is no longer in use or the deletion timeout has been waited for in polls of a hundredth of a second.
\<close>

theorem expired_session_is_deleted:
  assumes "distinct (live h)" and "\<forall>n h. distinct (live h) \<longrightarrow> distinct (live (env n h))"
    and "sessionExpired env u h = (h', by_handler)"
  shows "u \<notin> set (live h') \<and>
    (by_handler \<longrightarrow> (\<exists>k. let h1 = env_run env 0 k (modify u setMarkedForDeletion h)
       in h' = deleteSession u h1 \<and> (usageCount (session_of h1 u) \<le> 0 \<or> int k \<ge> 100 * sessionDeletionTimeout h)))"
proof -
  let ?h = "modify u setMarkedForDeletion h"
  obtain k where k: "(let h1 = env_run env 0 k ?h
      in sessionExpired env u h = (h1, False) \<and> u \<notin> set (live h1) \<or>
         sessionExpired env u h = (deleteSession u h1, True) \<and>
           (usageCount (session_of h1 u) \<le> 0 \<or> (of_int (sessionDeletionTimeout h) :: rat) * 100 \<le> of_nat k))"
    using expire_wait_run[of env 0 ?h "of_int (sessionDeletionTimeout h)" u] by (auto simp: sessionExpired_def)
  have run: "distinct (live g) \<Longrightarrow> distinct (live (env_run env n j g))" for n j g
    using assms(2) by (induction env n j g rule: env_run.induct) auto
  have d: "distinct (live (env_run env 0 k ?h))" by (rule run) (simp add: assms(1))
  have conv: "(of_int (sessionDeletionTimeout h) :: rat) * 100 \<le> of_nat k \<longleftrightarrow> 100 * sessionDeletionTimeout h \<le> int k"
  proof -
    have "(of_int (sessionDeletionTimeout h) :: rat) * 100 \<le> of_nat k \<longleftrightarrow>
        (of_int (sessionDeletionTimeout h * 100) :: rat) \<le> of_int (int k)" by simp
    also have "\<dots> \<longleftrightarrow> sessionDeletionTimeout h * 100 \<le> int k" by (rule of_int_le_iff)
    finally show ?thesis by (simp add: mult.commute)
  qed
  show ?thesis using k assms(3) d conv by (auto simp: Let_def live_deleteSession)
qed

definition one_session :: handler where
  "one_session = snd (fresh_session 0 ''s1'' (new_handler 120 0 60))"

theorem expired_session_is_deleted_witness:
  "''s1'' \<notin> set (live (fst (sessionExpired (\<lambda>n h. deleteSession ''s1'' h) ''s1'' one_session)))"
  using expired_session_is_deleted[of one_session "\<lambda>n h. deleteSession ''s1'' h" "''s1''"
      "fst (sessionExpired (\<lambda>n h. deleteSession ''s1'' h) ''s1'' one_session)"
      "snd (sessionExpired (\<lambda>n h. deleteSession ''s1'' h) ''s1'' one_session)"]
  by (simp add: live_deleteSession one_session_def fresh_session_def createSession_def new_handler_def)

text \<open>
  C39: A session obtained from the handler is live, not marked for deletion and in use: its usage count
  is one more than before, or one for a new session.
\<close>

theorem obtained_session_is_usable:
  assumes "sessions_ok h" and "objs h fresh = None" and "getSession now fresh u a h = Inr (v, h')"
  shows "v \<in> set (live h') \<and> \<not> deleted (session_of h' v) \<and> \<not> marked (session_of h' v) \<and>
    usageCount (session_of h' v) = (if v = fresh then 1 else usageCount (session_of h v) + 1)"
proof -
  have inv: "handler_inv h" using assms(1) by (simp add: sessions_ok_def)
  have new: "v \<in> set (live g') \<and> \<not> deleted (session_of g' v) \<and> \<not> marked (session_of g' v) \<and> usageCount (session_of g' v) = 1"
    if "v = fresh" "g' = snd (fresh_session now fresh g)" "handler_inv g" "objs g fresh = None" for g g'
    using fresh_session_facts(1)[OF that(4,3), of now] fresh_session_facts(4)[OF that(4,3), of now fresh] that(1,2)
    by (simp add: session_of_def new_session_def)
  from assms(3) show ?thesis
  proof (cases rule: getSession_cases)
    case (reused w)
    then have "objs h w \<noteq> None \<and> \<not> deleted (session_of h w)" "w \<noteq> fresh" using handler_invD(2)[OF inv, of w] assms(2) by auto
    then show ?thesis using reused by (simp add: obj_modify)
  next
    case below
    then show ?thesis using new[of h' h] inv assms(2) by (simp add: fresh_session_def)
  next
    case (made_room h1)
    have "handler_inv h1" "objs h1 fresh = None"
      using delete_unused_facts[OF assms(1), of "getSessions a h"] assms(2) made_room(1) by (simp_all add: sessions_ok_def)
    then show ?thesis using new[of h' h1] made_room(2) by (simp add: fresh_session_def)
  qed simp
qed

theorem obtained_session_is_usable_witness:
  "''s1'' \<in> set (live one_session) \<and> \<not> deleted (session_of one_session ''s1'') \<and> \<not> marked (session_of one_session ''s1'') \<and>
    usageCount (session_of one_session ''s1'') = (if ''s1'' = ''s1'' then 1 else usageCount (session_of (new_handler 120 0 60) ''s1'') + 1)"
  by (rule obtained_session_is_usable[of "new_handler 120 0 60" "''s1''" 0 None None "''s1''"])
    (simp_all add: sessions_ok_def handler_inv_def new_handler_def count_ip_def getSession_def one_session_def fresh_session_def)

text \<open>
  C35: Processing a request frees its session exactly once, whether the query succeeds or raises, and answers with the
  code of what was raised: 400 for a bad rpc, 401 for an authentication error, 500 for anything else; a
  session whose authentication fails is deleted and 401 is answered; no other session is touched.
\<close>

theorem session_freed_once:
  assumes "handler_inv h" and "u \<in> set (live h)" and "worker_process auth_ok rest u h = (h', code)"
  shows "(if authenticated (session_of h u) \<or> auth_ok
      then u \<in> set (live h') \<and> usageCount (session_of h' u) = usageCount (session_of h u) - 1 \<and>
        code = (case rest of None \<Rightarrow> 200 | Some OpsiServiceAuthenticationError \<Rightarrow> 401 | Some OpsiBadRpcError \<Rightarrow> 400 | Some OtherRequestError \<Rightarrow> 500)
      else u \<notin> set (live h') \<and> code = 401) \<and>
    (\<forall>v. v \<noteq> u \<longrightarrow> objs h' v = objs h v)"
proof -
  have u: "objs h u \<noteq> None" "\<not> deleted (session_of h u)" "distinct (live h)"
    using handler_invD[OF assms(1)] assms(2) by auto
  then show ?thesis using assms(2,3)
    by (auto simp: worker_process_def worker_authenticate_def errback_def freeSession_def obj_modify live_deleteSession
        deleteSession_def split: if_splits option.splits request_error.splits)
qed

theorem session_freed_once_witness:
  "''s1'' \<in> set (live (fst (worker_process True (Some OpsiBadRpcError) ''s1'' one_session))) \<and>
    usageCount (session_of (fst (worker_process True (Some OpsiBadRpcError) ''s1'' one_session)) ''s1'') = 0 \<and>
    snd (worker_process True (Some OpsiBadRpcError) ''s1'' one_session) = 400 \<and>
    objs (fst (worker_process True (Some OpsiBadRpcError) ''s1'' one_session)) ''s2'' = None"
proof -
  have s: "handler_inv one_session" "''s1'' \<in> set (live one_session)"
    by (simp_all add: one_session_def fresh_session_def createSession_def new_handler_def handler_inv_def new_session_def)
  have "usageCount (session_of one_session ''s1'') = 1" "objs one_session ''s2'' = None" by code_simp+
  then show ?thesis using session_freed_once[OF s, of True "Some OpsiBadRpcError" "fst (worker_process True (Some OpsiBadRpcError) ''s1'' one_session)"
      "snd (worker_process True (Some OpsiBadRpcError) ''s1'' one_session)"] by simp
qed

text \<open>
  The credentials of the header are read back as they were joined when the name has no colon and
  the password has at most four; a password with five colons or more is cut.
\<close>

theorem credentials_roundtrip:
  assumes "CHR '':'' \<notin> set name"
  shows "if count_list pw (CHR '':'') \<le> 4 then split_credentials (name @ CHR '':'' # pw) = (lower (strip name), pw)
     else length (snd (split_credentials (name @ CHR '':'' # pw))) < length pw"
proof -
  let ?c = "CHR '':''"
  let ?ps = "split_char ?c pw"
  have sp: "split_char ?c (name @ ?c # pw) = name # ?ps" by (simp add: split_char_append split_char_single[OF assms])
  have len: "length ?ps = Suc (count_list pw ?c)" by (rule length_split_char)
  show ?thesis
  proof (cases "count_list pw ?c \<le> 4")
    case True
    then show ?thesis using len by (simp add: split_credentials_def sp join_split_char, simp add: join_char_def)
  next
    case False
    have shorter: "length (join_char ?c (drop n ps)) < length (join_char ?c ps)" if np: "0 < n" "n < length ps" for n and ps :: "string list"
    proof -
      obtain m where m: "n = Suc m" using np(1) by (cases n) auto
      obtain q qs where ps: "ps = q # qs" using np by (cases ps) auto
      then obtain r rs where r: "drop n ps = r # rs" using np by (cases "drop n ps") auto
      then have qs: "qs = take m qs @ r # rs" using ps m append_take_drop_id[of m qs] by simp
      have "length (join_char ?c (r # rs)) < length (join_char ?c (q # (take m qs @ r # rs)))"
        by (simp add: join_char_def)
      then show ?thesis using r ps qs by simp
    qed
    have "5 < length ?ps" using False len by simp
    then have "length (join_char ?c (drop 5 ?ps)) < length (join_char ?c ?ps)" using shorter[of 5 ?ps] by simp
    then show ?thesis using False len by (simp add: split_credentials_def sp join_split_char)
  qed
qed

theorem credentials_roundtrip_witness:
  "if count_list ''a:b'' (CHR '':'') \<le> 4 then split_credentials (''admin'' @ CHR '':'' # ''a:b'') = (lower (strip ''admin''), ''a:b'')
     else length (snd (split_credentials (''admin'' @ CHR '':'' # ''a:b''))) < length ''a:b''"
  by (rule credentials_roundtrip) simp

end
