(* ===== verification/ThreadPool.thy ===== *)
theory ThreadPool
  imports Prelude
begin

text \<open>
  The thread pool of OPSI/Util/Thread.py. Workers are numbered in the order they are created; the
  state of a worker says where its loop is: before the check of \<open>stopped\<close>, waiting for a job, running
  one, ended by an exception of a callback, or left. The steps of the workers interleave with the
  calls on the pool.
\<close>

section \<open>State\<close>

datatype 'j wstate = AtCheck | Waiting | Running 'j | Crashed 'j | Exited

record 'j pool =
  tp_size :: int
  tp_started :: bool
  tp_worker :: "nat list"
  tp_next :: nat
  tp_queue :: "'j list"
  tp_usage :: int
  tp_state :: "nat \<Rightarrow> 'j wstate"
  tp_stopped :: "nat list"
  tp_added :: "'j list"
  tp_done :: "('j \<times> bool) list"

datatype pool_error = InvalidSize | NotRunning

definition busy :: "'j pool \<Rightarrow> nat \<Rightarrow> bool" where
  "busy p w = (case tp_state p w of Running _ \<Rightarrow> True | Crashed _ \<Rightarrow> True | _ \<Rightarrow> False)"

section \<open>Creating and deleting workers\<close>

fun createWorkers :: "nat \<Rightarrow> 'j pool \<Rightarrow> 'j pool" where
  "createWorkers 0 p = p"
| "createWorkers (Suc n) p =
     createWorkers n (p\<lparr>tp_worker := tp_worker p @ [tp_next p], tp_next := tp_next p + 1,
       tp_state := (tp_state p)(tp_next p := AtCheck)\<rparr>)"

text \<open>One of the two loops of \<open>__deleteWorkers\<close>: the workers chosen and how many are still to be chosen.\<close>

fun pick_workers :: "(nat \<Rightarrow> bool) \<Rightarrow> nat list \<Rightarrow> nat list \<Rightarrow> int \<Rightarrow> nat list \<times> int" where
  "pick_workers ok [] chosen num = (chosen, num)"
| "pick_workers ok (w # ws) chosen num =
     (if ok w \<and> w \<notin> set chosen then
        (if num - 1 = 0 then (chosen @ [w], 0) else pick_workers ok ws (chosen @ [w]) (num - 1))
      else pick_workers ok ws chosen num)"

definition workers_to_delete :: "'j pool \<Rightarrow> int \<Rightarrow> nat list" where
  "workers_to_delete p num =
     (let (chosen, left) = pick_workers (\<lambda>w. \<not> busy p w) (tp_worker p) [] num
      in if left > 0 then fst (pick_workers (\<lambda>w. True) (tp_worker p) chosen left) else chosen)"

definition deleteWorkers :: "int \<Rightarrow> 'j pool \<Rightarrow> 'j pool" where
  "deleteWorkers num p =
     (let del = workers_to_delete p num
      in p\<lparr>tp_stopped := tp_stopped p @ del, tp_worker := filter (\<lambda>w. w \<notin> set del) (tp_worker p)\<rparr>)"

section \<open>Operations of the pool\<close>

definition adjustSize :: "int \<Rightarrow> 'j pool \<Rightarrow> (pool_error, 'j pool) result" where
  "adjustSize n p =
     (if n < 1 then Inl InvalidSize
      else
        let p1 = p\<lparr>tp_size := n\<rparr>
        in if tp_started p1 then
             let p2 = (if int (length (tp_worker p1)) > n then deleteWorkers (int (length (tp_worker p1)) - n) p1 else p1)
             in Inr (if int (length (tp_worker p2)) < n then createWorkers (nat (n - int (length (tp_worker p2)))) p2 else p2)
           else Inr p1)"

definition start :: "'j pool \<Rightarrow> (pool_error, 'j pool) result" where
  "start p = adjustSize (tp_size p) (p\<lparr>tp_started := True\<rparr>)"

definition new_pool :: "int \<Rightarrow> bool \<Rightarrow> (pool_error, 'j pool) result" where
  "new_pool n autostart =
     (let p = \<lparr>tp_size = n, tp_started = False, tp_worker = [], tp_next = 0, tp_queue = [], tp_usage = 1,
               tp_state = (\<lambda>_. Exited), tp_stopped = [], tp_added = [], tp_done = []\<rparr>
      in if autostart then start p else Inr p)"

definition stop :: "'j pool \<Rightarrow> 'j pool" where
  "stop p = deleteWorkers (int (length (tp_worker p))) (p\<lparr>tp_started := False\<rparr>)"

definition increaseUsage :: "'j pool \<Rightarrow> 'j pool" where
  "increaseUsage p = p\<lparr>tp_usage := tp_usage p + 1\<rparr>"

definition decreaseUsage :: "'j pool \<Rightarrow> 'j pool" where
  "decreaseUsage p =
     (let p1 = p\<lparr>tp_usage := tp_usage p - 1\<rparr> in if tp_usage p1 \<le> 0 then stop p1 else p1)"

definition addJob :: "'j \<Rightarrow> 'j pool \<Rightarrow> (pool_error, 'j pool) result" where
  "addJob j p =
     (if \<not> tp_started p then Inl NotRunning
      else Inr (p\<lparr>tp_queue := tp_queue p @ [j], tp_added := tp_added p @ [j]\<rparr>))"

text \<open>The pool all callers share; \<open>None\<close> before the first call.\<close>

definition getGlobalThreadPool :: "int option \<Rightarrow> 'j pool option \<Rightarrow> (pool_error, 'j pool) result" where
  "getGlobalThreadPool n global =
     (case global of
        None \<Rightarrow> new_pool (case n of Some k \<Rightarrow> k | None \<Rightarrow> 20) True
      | Some p \<Rightarrow>
          (let k = (case n of Some k \<Rightarrow> k | None \<Rightarrow> 0); p1 = increaseUsage p
           in if tp_size p1 < k then adjustSize k p1 else Inr p1))"

section \<open>The loop of a worker\<close>

definition set_state :: "nat \<Rightarrow> 'j wstate \<Rightarrow> 'j pool \<Rightarrow> 'j pool" where
  "set_state w s p = p\<lparr>tp_state := (tp_state p)(w := s)\<rparr>"

definition worker_check :: "nat \<Rightarrow> 'j pool \<Rightarrow> 'j pool" where
  "worker_check w p =
     (if tp_state p w = AtCheck then set_state w (if w \<in> set (tp_stopped p) then Exited else Waiting) p else p)"

text \<open>\<open>jobQueue.get\<close>: takes the first job, or times out when there is none.\<close>

definition worker_get :: "nat \<Rightarrow> 'j pool \<Rightarrow> 'j pool" where
  "worker_get w p =
     (if tp_state p w = Waiting then
        (case tp_queue p of
           [] \<Rightarrow> set_state w AtCheck p
         | j # js \<Rightarrow> set_state w (Running j) (p\<lparr>tp_queue := js\<rparr>))
      else p)"

text \<open>
  The function has returned (\<open>success\<close>) or raised; the callback is told, and when it raises itself the
  exception ends the thread.
\<close>

definition worker_finish :: "bool \<Rightarrow> bool \<Rightarrow> nat \<Rightarrow> 'j pool \<Rightarrow> 'j pool" where
  "worker_finish success callback_raises w p =
     (case tp_state p w of
        Running j \<Rightarrow>
          (let p1 = p\<lparr>tp_done := tp_done p @ [(j, success)]\<rparr>
           in set_state w (if callback_raises then Crashed j else AtCheck) p1)
      | _ \<Rightarrow> p)"

section \<open>Reachable pools\<close>

inductive pool_step :: "'j pool \<Rightarrow> 'j pool \<Rightarrow> bool" where
  do_adjust: "adjustSize n p = Inr p' \<Longrightarrow> pool_step p p'"
| do_start: "start p = Inr p' \<Longrightarrow> pool_step p p'"
| do_failed_start: "start p = Inl e \<Longrightarrow> pool_step p (p\<lparr>tp_started := True\<rparr>)"
| do_stop: "pool_step p (stop p)"
| do_increase: "pool_step p (increaseUsage p)"
| do_decrease: "pool_step p (decreaseUsage p)"
| do_add: "addJob j p = Inr p' \<Longrightarrow> pool_step p p'"
| do_check: "pool_step p (worker_check w p)"
| do_get: "pool_step p (worker_get w p)"
| do_finish: "pool_step p (worker_finish success callback_raises w p)"

inductive_cases pool_stepE: "pool_step p p'"

inductive pool_reachable :: "'j pool \<Rightarrow> bool" where
  pool_new: "new_pool n autostart = Inr p \<Longrightarrow> pool_reachable p"
| pool_next: "pool_reachable p \<Longrightarrow> pool_step p p' \<Longrightarrow> pool_reachable p'"

text \<open>
  The invariant: the workers of a running pool are as many as its size, a stopped pool has none; the
  workers of the pool have not been stopped, all others have.
\<close>

definition pool_inv :: "'j pool \<Rightarrow> bool" where
  "pool_inv p \<longleftrightarrow> distinct (tp_worker p) \<and> (\<forall>w \<in> set (tp_worker p). w < tp_next p \<and> w \<notin> set (tp_stopped p)) \<and>
     (\<forall>w < tp_next p. w \<notin> set (tp_worker p) \<longrightarrow> w \<in> set (tp_stopped p)) \<and> (\<forall>w \<in> set (tp_stopped p). w < tp_next p) \<and>
     (tp_started p \<longrightarrow> length (tp_worker p) = nat (tp_size p)) \<and> (\<not> tp_started p \<longrightarrow> tp_worker p = [])"

definition workers_wf :: "'j pool \<Rightarrow> bool" where
  "workers_wf p \<longleftrightarrow> distinct (tp_worker p) \<and> (\<forall>w \<in> set (tp_worker p). w < tp_next p \<and> w \<notin> set (tp_stopped p)) \<and>
     (\<forall>w < tp_next p. w \<notin> set (tp_worker p) \<longrightarrow> w \<in> set (tp_stopped p)) \<and> (\<forall>w \<in> set (tp_stopped p). w < tp_next p)"

lemma pool_inv_wf: "pool_inv p \<longleftrightarrow> workers_wf p \<and> (tp_started p \<longrightarrow> length (tp_worker p) = nat (tp_size p)) \<and>
    (\<not> tp_started p \<longrightarrow> tp_worker p = [])"
  by (auto simp: pool_inv_def workers_wf_def)

lemma createWorkers_facts:
  "workers_wf p \<Longrightarrow> workers_wf (createWorkers n p) \<and> length (tp_worker (createWorkers n p)) = length (tp_worker p) + n \<and>
     tp_size (createWorkers n p) = tp_size p \<and> tp_started (createWorkers n p) = tp_started p"
proof (induction n arbitrary: p)
  case (Suc n)
  let ?q = "p\<lparr>tp_worker := tp_worker p @ [tp_next p], tp_next := tp_next p + 1, tp_state := (tp_state p)(tp_next p := AtCheck)\<rparr>"
  have "workers_wf ?q" using Suc.prems by (auto simp: workers_wf_def less_Suc_eq)
  from Suc.IH[OF this] show ?case by simp
qed simp

text \<open>What the two loops choose.\<close>

lemma pick_workers_facts:
  assumes "distinct ws" "set ws \<inter> set chosen = {}" "distinct chosen" "0 < num"
  shows "\<exists>new. fst (pick_workers ok ws chosen num) = chosen @ new \<and> set new \<subseteq> {w \<in> set ws. ok w} \<and> distinct new \<and>
     int (length new) = min num (int (length (filter ok ws))) \<and>
     snd (pick_workers ok ws chosen num) = num - int (length new)"
  using assms
proof (induction ws arbitrary: chosen num)
  case (Cons w ws)
  show ?case
  proof (cases "ok w")
    case True
    have w: "w \<notin> set chosen" using Cons.prems by auto
    show ?thesis
    proof (cases "num = 1")
      case True
      then show ?thesis using w \<open>ok w\<close> by (intro exI[of _ "[w]"]) simp
    next
      case False
      have "set ws \<inter> set (chosen @ [w]) = {}" "distinct (chosen @ [w])" "distinct ws" "0 < num - 1"
        using Cons.prems False w by auto
      from Cons.IH[OF this(3,1,2,4)] obtain new where
        new: "fst (pick_workers ok ws (chosen @ [w]) (num - 1)) = (chosen @ [w]) @ new" "set new \<subseteq> {w \<in> set ws. ok w}" "distinct new"
          "int (length new) = min (num - 1) (int (length (filter ok ws)))"
          "snd (pick_workers ok ws (chosen @ [w]) (num - 1)) = num - 1 - int (length new)" by blast
      show ?thesis
        by (intro exI[of _ "w # new"]) (use new True w False Cons.prems(1) in auto)
    qed
  next
    case False
    have "distinct ws" "set ws \<inter> set chosen = {}" using Cons.prems by auto
    from Cons.IH[OF this Cons.prems(3,4)] obtain new where
      "fst (pick_workers ok ws chosen num) = chosen @ new" "set new \<subseteq> {w \<in> set ws. ok w}" "distinct new"
      "int (length new) = min num (int (length (filter ok ws)))" "snd (pick_workers ok ws chosen num) = num - int (length new)" by blast
    then show ?thesis using False by (intro exI[of _ new]) auto
  qed
qed simp

lemma pick_workers_skip:
  "C \<subseteq> set chosen \<Longrightarrow> pick_workers ok ws chosen num = pick_workers ok (filter (\<lambda>w. w \<notin> C) ws) chosen num"
proof (induction ws arbitrary: chosen num)
  case (Cons w ws)
  have "C \<subseteq> set (chosen @ [w])" using Cons.prems by auto
  from Cons.IH[OF this] Cons.IH[OF Cons.prems] Cons.prems show ?case by auto
qed simp

lemma workers_to_delete_facts:
  assumes d: "distinct (tp_worker p)" and n: "0 < num" "num \<le> int (length (tp_worker p))"
  defines "del \<equiv> workers_to_delete p num"
  shows "distinct del \<and> set del \<subseteq> set (tp_worker p) \<and> int (length del) = num \<and>
    ((\<forall>w \<in> set del. \<not> busy p w) \<or> (\<forall>w \<in> set (tp_worker p). \<not> busy p w \<longrightarrow> w \<in> set del))"
proof -
  let ?idle = "\<lambda>w. \<not> busy p w" and ?ws = "tp_worker p"
  obtain a where a: "fst (pick_workers ?idle ?ws [] num) = a" "set a \<subseteq> {w \<in> set ?ws. ?idle w}" "distinct a"
    "int (length a) = min num (int (length (filter ?idle ?ws)))" "snd (pick_workers ?idle ?ws [] num) = num - int (length a)"
    using pick_workers_facts[OF d, of "[]" num ?idle] n by auto
  show ?thesis
  proof (cases "num - int (length a) > 0")
    case False
    then have "int (length a) = num" using a(4) by linarith
    moreover have "del = a" using a(1,5) False by (simp add: del_def workers_to_delete_def case_prod_beta)
    ultimately show ?thesis using a(2,3) by auto
  next
    case True
    let ?rest = "filter (\<lambda>w. w \<notin> set a) ?ws"
    have la: "int (length a) = int (length (filter ?idle ?ws))" using a(4) True by linarith
    have all_idle: "set a = {w \<in> set ?ws. ?idle w}"
    proof (rule card_seteq[OF _ a(2)])
      show "card {w \<in> set ?ws. ?idle w} \<le> card (set a)"
        using la a(3) d distinct_card[of "filter ?idle ?ws"] by (simp add: distinct_card)
    qed simp
    have "pick_workers (\<lambda>w. True) ?ws a (num - int (length a)) = pick_workers (\<lambda>w. True) ?rest a (num - int (length a))"
      by (rule pick_workers_skip) simp
    moreover obtain b where b: "fst (pick_workers (\<lambda>w. True) ?rest a (num - int (length a))) = a @ b" "set b \<subseteq> set ?rest" "distinct b"
      "int (length b) = min (num - int (length a)) (int (length ?rest))"
      using pick_workers_facts[of ?rest a "num - int (length a)" "\<lambda>w. True"] d a(3) True by auto
    ultimately have del: "del = a @ b"
      using a(1,5) True by (simp add: del_def workers_to_delete_def case_prod_beta)
    have "length ?rest + length a = length ?ws"
    proof -
      have "length (filter (\<lambda>w. w \<in> set a) ?ws) = card (set a)"
      proof -
        have "set (filter (\<lambda>w. w \<in> set a) ?ws) = set a" using a(2) by auto
        then show ?thesis using d distinct_card[of "filter (\<lambda>w. w \<in> set a) ?ws"] by simp
      qed
      then show ?thesis using sum_length_filter_compl[of "\<lambda>w. w \<in> set a" ?ws] a(3) by (simp add: distinct_card)
    qed
    then have "int (length del) = num" using b(4) n(2) True by (simp add: del)
    then show ?thesis using a(2,3) b(2,3) all_idle by (auto simp: del)
  qed
qed

lemma deleteWorkers_facts:
  assumes wf: "workers_wf p" and n: "0 < num" "num \<le> int (length (tp_worker p))"
  shows "workers_wf (deleteWorkers num p) \<and> int (length (tp_worker (deleteWorkers num p))) = int (length (tp_worker p)) - num \<and>
    tp_size (deleteWorkers num p) = tp_size p \<and> tp_started (deleteWorkers num p) = tp_started p \<and>
    ((\<forall>w \<in> set (tp_worker p). busy p w \<longrightarrow> w \<in> set (tp_worker (deleteWorkers num p))) \<or>
     (\<forall>w \<in> set (tp_worker (deleteWorkers num p)). busy p w))"
proof -
  have d: "distinct (tp_worker p)" using wf by (simp add: workers_wf_def)
  let ?del = "workers_to_delete p num"
  note D = workers_to_delete_facts[OF d n]
  have "length (filter (\<lambda>w. w \<in> set ?del) (tp_worker p)) = length ?del"
  proof -
    have "set (filter (\<lambda>w. w \<in> set ?del) (tp_worker p)) = set ?del" using D by auto
    then show ?thesis using d D distinct_card[of "filter (\<lambda>w. w \<in> set ?del) (tp_worker p)"] by (simp add: distinct_card)
  qed
  then have "int (length (filter (\<lambda>w. w \<notin> set ?del) (tp_worker p))) = int (length (tp_worker p)) - num"
    using sum_length_filter_compl[of "\<lambda>w. w \<in> set ?del" "tp_worker p"] D by linarith
  then show ?thesis using wf D by (auto simp: deleteWorkers_def workers_wf_def Let_def)
qed

lemma pool_inv_adjust:
  assumes "workers_wf p" and "adjustSize n p = Inr p'" and "\<not> tp_started p \<longrightarrow> tp_worker p = []"
  shows "pool_inv p'"
proof -
  have n: "1 \<le> n" using assms(2) by (simp add: adjustSize_def split: if_splits)
  let ?p1 = "p\<lparr>tp_size := n\<rparr>"
  have wf1: "workers_wf ?p1" using assms(1) by (simp add: workers_wf_def)
  let ?p2 = "if int (length (tp_worker p)) > n then deleteWorkers (int (length (tp_worker p)) - n) ?p1 else ?p1"
  have p2: "workers_wf ?p2 \<and> int (length (tp_worker ?p2)) \<le> n \<and> tp_size ?p2 = n \<and> tp_started ?p2 = tp_started p"
    using deleteWorkers_facts[OF wf1, of "int (length (tp_worker p)) - n"] wf1 n by simp
  show ?thesis
  proof (cases "tp_started p")
    case True
    then have "p' = (if int (length (tp_worker ?p2)) < n then createWorkers (nat (n - int (length (tp_worker ?p2)))) ?p2 else ?p2)"
      using assms(2) n by (auto simp: adjustSize_def Let_def split: if_splits)
    then show ?thesis
      using p2 True createWorkers_facts[of ?p2 "nat (n - int (length (tp_worker ?p2)))"] unfolding pool_inv_wf by auto
  next
    case False
    then have p': "p' = p\<lparr>tp_size := n\<rparr>" using assms(2) n by (auto simp: adjustSize_def split: if_splits)
    show ?thesis using assms(1,3) False unfolding p' by (simp add: pool_inv_wf workers_wf_def)
  qed
qed

lemma pool_inv_stop: "pool_inv p \<Longrightarrow> pool_inv (stop p)"
proof -
  assume inv: "pool_inv p"
  let ?p1 = "p\<lparr>tp_started := False\<rparr>"
  have wf: "workers_wf ?p1" using inv by (simp add: pool_inv_def workers_wf_def)
  show "pool_inv (stop p)"
  proof (cases "tp_worker p = []")
    case True
    then show ?thesis using inv by (simp add: stop_def deleteWorkers_def workers_to_delete_def pool_inv_def)
  next
    case False
    then have "pool_inv (deleteWorkers (int (length (tp_worker ?p1))) ?p1)"
      using deleteWorkers_facts[OF wf, of "int (length (tp_worker ?p1))"] by (simp add: pool_inv_wf)
    then show ?thesis by (simp add: stop_def)
  qed
qed

lemma pool_inv_fields [simp]:
  "pool_inv (set_state w s p) = pool_inv p" "pool_inv (p\<lparr>tp_queue := q\<rparr>) = pool_inv p"
  "pool_inv (p\<lparr>tp_done := d\<rparr>) = pool_inv p" "pool_inv (p\<lparr>tp_usage := u\<rparr>) = pool_inv p"
  "pool_inv (p\<lparr>tp_queue := q, tp_added := a\<rparr>) = pool_inv p"
  by (simp_all add: pool_inv_def set_state_def)

lemma pool_inv_step: "pool_step p p' \<Longrightarrow> pool_inv p \<Longrightarrow> pool_inv p'"
proof (erule pool_stepE)
  fix n assume "pool_inv p" "adjustSize n p = Inr p'"
  then show "pool_inv p'" by (intro pool_inv_adjust) (auto simp: pool_inv_wf)
next
  assume inv: "pool_inv p" and st: "start p = Inr p'"
  have "workers_wf (p\<lparr>tp_started := True\<rparr>)" using inv by (simp add: pool_inv_def workers_wf_def)
  then show "pool_inv p'" by (rule pool_inv_adjust[where n = "tp_size p"]) (use st in \<open>simp_all add: start_def\<close>)
next
  fix j assume "pool_inv p" "addJob j p = Inr p'"
  then show "pool_inv p'" by (auto simp: addJob_def split: if_splits)
next
  fix e assume "pool_inv p" "p' = p\<lparr>tp_started := True\<rparr>" "start p = Inl e"
  then show "pool_inv p'" by (cases "tp_started p") (auto simp: start_def adjustSize_def pool_inv_def Let_def split: if_splits)
qed (simp_all add: pool_inv_stop increaseUsage_def decreaseUsage_def worker_check_def worker_get_def worker_finish_def Let_def
  split: list.split wstate.split)

lemma pool_inv_reachable: "pool_reachable p \<Longrightarrow> pool_inv p"
proof (induction rule: pool_reachable.induct)
  case (pool_new n autostart p)
  let ?p0 = "\<lparr>tp_size = n, tp_started = True, tp_worker = [], tp_next = 0, tp_queue = [], tp_usage = 1,
     tp_state = (\<lambda>_. Exited), tp_stopped = [], tp_added = [], tp_done = []\<rparr>"
  have "workers_wf ?p0" by (simp add: workers_wf_def)
  then have "adjustSize n ?p0 = Inr p \<Longrightarrow> pool_inv p" using pool_inv_adjust[of ?p0 n p] by simp
  moreover have "adjustSize n ?p0 = Inr p" if autostart using pool_new that by (simp add: new_pool_def start_def)
  moreover have "pool_inv p" if "\<not> autostart" using pool_new that by (auto simp: new_pool_def pool_inv_def)
  ultimately show ?case by blast
qed (rule pool_inv_step)

section \<open>No job is lost or run twice\<close>

text \<open>The jobs workers have taken and not reported yet.\<close>

definition in_work :: "'j pool \<Rightarrow> 'j list" where
  "in_work p = concat (map (\<lambda>w. case tp_state p w of Running j \<Rightarrow> [j] | _ \<Rightarrow> []) [0..<tp_next p])"

definition jobs_inv :: "'j pool \<Rightarrow> bool" where
  "jobs_inv p \<longleftrightarrow> mset (tp_added p) = mset (tp_queue p) + mset (in_work p) + mset (map fst (tp_done p)) \<and>
     (\<forall>w \<ge> tp_next p. tp_state p w = Exited)"

lemma in_work_update:
  assumes "w < tp_next p"
  shows "mset (in_work (set_state w s p)) + mset (case tp_state p w of Running j \<Rightarrow> [j] | _ \<Rightarrow> []) =
    mset (in_work p) + mset (case s of Running j \<Rightarrow> [j] | _ \<Rightarrow> [])"
proof -
  let ?f = "\<lambda>p w. case tp_state p w of Running j \<Rightarrow> [j] | _ \<Rightarrow> []"
  have "[0..<tp_next p] = [0..<w] @ w # [Suc w..<tp_next p]"
    using assms upt_add_eq_append[of 0 w "tp_next p - w"] by (simp add: upt_conv_Cons)
  then have parts: "in_work q = concat (map (?f q) [0..<w]) @ ?f q w @ concat (map (?f q) [Suc w..<tp_next p])"
    if "tp_next q = tp_next p" for q using that by (simp add: in_work_def)
  have "concat (map (?f (set_state w s p)) [0..<w]) = concat (map (?f p) [0..<w])"
    "concat (map (?f (set_state w s p)) [Suc w..<tp_next p]) = concat (map (?f p) [Suc w..<tp_next p])"
    by (rule arg_cong[where f = concat], rule map_cong, simp, simp add: set_state_def)+
  moreover have "?f (set_state w s p) w = (case s of Running j \<Rightarrow> [j] | _ \<Rightarrow> [])" by (simp add: set_state_def)
  moreover have "tp_next (set_state w s p) = tp_next p" by (simp add: set_state_def)
  ultimately show ?thesis using parts[of p] parts[of "set_state w s p"] by simp
qed

lemma in_work_simps [simp]:
  "in_work (p\<lparr>tp_queue := q\<rparr>) = in_work p" "in_work (p\<lparr>tp_done := d\<rparr>) = in_work p" "in_work (p\<lparr>tp_size := n\<rparr>) = in_work p"
  "in_work (p\<lparr>tp_usage := u\<rparr>) = in_work p" "in_work (p\<lparr>tp_started := b\<rparr>) = in_work p"
  "in_work (p\<lparr>tp_queue := q, tp_added := a\<rparr>) = in_work p"
  "in_work (p\<lparr>tp_stopped := st, tp_worker := ws\<rparr>) = in_work p"
  by (simp_all add: in_work_def)

lemma jobs_inv_create: "jobs_inv p \<Longrightarrow> jobs_inv (createWorkers n p)"
proof (induction n arbitrary: p)
  case (Suc n)
  let ?q = "p\<lparr>tp_worker := tp_worker p @ [tp_next p], tp_next := tp_next p + 1, tp_state := (tp_state p)(tp_next p := AtCheck)\<rparr>"
  let ?f = "\<lambda>p w. case tp_state p w of Running j \<Rightarrow> [j] | _ \<Rightarrow> []"
  have "concat (map (?f ?q) [0..<tp_next p]) = concat (map (?f p) [0..<tp_next p])"
    by (rule arg_cong[where f = concat], rule map_cong) simp_all
  then have "in_work ?q = in_work p" by (simp add: in_work_def)
  then have "jobs_inv ?q" using Suc.prems by (simp add: jobs_inv_def)
  then show ?case using Suc.IH by simp
qed simp

lemma jobs_inv_delete: "jobs_inv p \<Longrightarrow> jobs_inv (deleteWorkers n p)"
  by (simp add: deleteWorkers_def jobs_inv_def Let_def)

lemma jobs_inv_fields [simp]:
  "jobs_inv (p\<lparr>tp_size := n\<rparr>) = jobs_inv p" "jobs_inv (p\<lparr>tp_usage := u\<rparr>) = jobs_inv p" "jobs_inv (p\<lparr>tp_started := b\<rparr>) = jobs_inv p"
  by (simp_all add: jobs_inv_def)

lemma jobs_inv_adjust: "jobs_inv p \<Longrightarrow> adjustSize n p = Inr p' \<Longrightarrow> jobs_inv p'"
  by (auto simp: adjustSize_def Let_def jobs_inv_create jobs_inv_delete split: if_splits)

lemma jobs_inv_get:
  assumes inv: "jobs_inv p"
  shows "jobs_inv (worker_get w p)"
proof (cases "tp_state p w = Waiting")
  case True
  then have w: "w < tp_next p" using inv by (metis jobs_inv_def leI wstate.distinct(13))
  show ?thesis
  proof (cases "tp_queue p")
    case Nil
    then show ?thesis using inv True w in_work_update[OF w, of AtCheck]
      by (simp add: worker_get_def jobs_inv_def) (simp add: set_state_def)
  next
    case (Cons j js)
    let ?p = "p\<lparr>tp_queue := js\<rparr>"
    have "mset (in_work (set_state w (Running j) ?p)) = mset (in_work p) + {#j#}"
      using in_work_update[of w ?p "Running j"] w True by simp
    then show ?thesis using inv True Cons w by (simp add: worker_get_def jobs_inv_def) (simp add: set_state_def)
  qed
qed (simp add: worker_get_def inv)

lemma jobs_inv_finish:
  assumes inv: "jobs_inv p"
  shows "jobs_inv (worker_finish success cr w p)"
proof (cases "tp_state p w")
  case (Running j)
  then have w: "w < tp_next p" using inv by (metis jobs_inv_def leI wstate.distinct(17))
  let ?p = "p\<lparr>tp_done := tp_done p @ [(j, success)]\<rparr>" and ?s = "if cr then Crashed j else AtCheck"
  have "mset (in_work (set_state w ?s ?p)) + {#j#} = mset (in_work p)"
    using in_work_update[of w ?p ?s] w Running by simp
  moreover have "worker_finish success cr w p = set_state w ?s ?p" using Running by (simp add: worker_finish_def Let_def)
  ultimately show ?thesis using inv w unfolding jobs_inv_def by (simp add: set_state_def)
qed (simp_all add: worker_finish_def inv)

lemma jobs_inv_check:
  assumes inv: "jobs_inv p"
  shows "jobs_inv (worker_check w p)"
proof (cases "tp_state p w = AtCheck")
  case True
  then have w: "w < tp_next p" using inv by (metis jobs_inv_def leI wstate.distinct(7))
  then show ?thesis using inv True in_work_update[OF w, of "if w \<in> set (tp_stopped p) then Exited else Waiting"]
    by (simp add: worker_check_def jobs_inv_def) (simp add: set_state_def)
qed (simp add: worker_check_def inv)

lemma jobs_inv_step: "pool_step p p' \<Longrightarrow> jobs_inv p \<Longrightarrow> jobs_inv p'"
proof (erule pool_stepE)
  fix j assume "jobs_inv p" "addJob j p = Inr p'"
  then show "jobs_inv p'" by (auto simp: addJob_def jobs_inv_def split: if_splits)
next
  assume "jobs_inv p" "start p = Inr p'"
  then show "jobs_inv p'" unfolding start_def using jobs_inv_adjust[of "p\<lparr>tp_started := True\<rparr>"] by simp
qed (auto simp: jobs_inv_adjust jobs_inv_get jobs_inv_finish jobs_inv_check stop_def increaseUsage_def decreaseUsage_def
  jobs_inv_delete Let_def)

lemma jobs_inv_reachable: "pool_reachable p \<Longrightarrow> jobs_inv p"
proof (induction rule: pool_reachable.induct)
  case (pool_new n autostart p)
  let ?p0 = "\<lparr>tp_size = n, tp_started = False, tp_worker = [], tp_next = 0, tp_queue = [], tp_usage = 1,
     tp_state = (\<lambda>_. Exited), tp_stopped = [], tp_added = [], tp_done = []\<rparr>"
  have z: "jobs_inv ?p0" by (simp add: jobs_inv_def in_work_def)
  have z1: "jobs_inv (?p0\<lparr>tp_started := True\<rparr>)" by (simp add: jobs_inv_def in_work_def)
  have "start ?p0 = Inr p \<Longrightarrow> jobs_inv p" unfolding start_def by (rule jobs_inv_adjust[OF z1])
  then show ?case using pool_new z by (cases autostart) (auto simp: new_pool_def Let_def)
qed (rule jobs_inv_step)

section \<open>What the pool guarantees\<close>

text \<open>
  C22: However calls on the pool and steps of its workers interleave, a started pool lists exactly as
  many workers as its size, a stopped one none, and a worker has been told to stop exactly when
  it is not listed.
\<close>

theorem pool_size_is_kept:
  assumes "pool_reachable p"
  shows "distinct (tp_worker p) \<and> (tp_started p \<longrightarrow> length (tp_worker p) = nat (tp_size p)) \<and>
    (\<not> tp_started p \<longrightarrow> tp_worker p = []) \<and> (\<forall>w < tp_next p. w \<in> set (tp_worker p) \<longleftrightarrow> w \<notin> set (tp_stopped p))"
  using pool_inv_reachable[OF assms] unfolding pool_inv_def by blast

definition sample_pool :: "nat pool" where
  "sample_pool = (case new_pool 3 True of Inr p \<Rightarrow> p | Inl _ \<Rightarrow> undefined)"

lemma sample_pool_new: "new_pool 3 True = Inr sample_pool"
  by (simp add: sample_pool_def new_pool_def start_def adjustSize_def)

lemma sample_pool_reachable: "pool_reachable sample_pool"
  by (rule pool_new[OF sample_pool_new])

theorem pool_size_is_kept_witness:
  "distinct (tp_worker sample_pool) \<and> length (tp_worker sample_pool) = 3 \<and> set (tp_worker sample_pool) \<inter> set (tp_stopped sample_pool) = {}"
proof -
  have p: "tp_started sample_pool" "tp_size sample_pool = 3" "tp_next sample_pool = 3" "tp_worker sample_pool = [0, 1, 2]" by code_simp+
  show ?thesis using pool_size_is_kept[OF sample_pool_reachable] p(1-3) by (auto simp: p(4) numeral_3_eq_3 numeral_2_eq_2 All_less_Suc)
qed

text \<open>
  C13: No job is lost and none is run twice: at every moment the jobs ever added are, counted with
  multiplicity, those queued, those a worker is running and those whose function has ended.
\<close>

theorem no_job_lost:
  assumes "pool_reachable p"
  shows "mset (tp_added p) = mset (tp_queue p) + mset (in_work p) + mset (map fst (tp_done p))"
  using jobs_inv_reachable[OF assms] by (simp add: jobs_inv_def)

theorem no_job_lost_witness:
  "mset (tp_added (worker_get 0 sample_pool)) =
     mset (tp_queue (worker_get 0 sample_pool)) + mset (in_work (worker_get 0 sample_pool)) + mset (map fst (tp_done (worker_get 0 sample_pool)))"
  by (rule no_job_lost[OF pool_next[OF sample_pool_reachable do_get]])

text \<open>
  Shrinking a started pool stops idle workers first: a busy worker loses its place only when
  every worker that stays is busy.
\<close>

theorem shrinking_prefers_idle_workers:
  assumes "pool_reachable p" and "tp_started p" and "n < int (length (tp_worker p))" and "adjustSize n p = Inr p'"
  shows "set (tp_worker p') \<subseteq> set (tp_worker p) \<and> int (length (tp_worker p')) = n \<and>
    ((\<forall>w \<in> set (tp_worker p). busy p w \<longrightarrow> w \<in> set (tp_worker p')) \<or> (\<forall>w \<in> set (tp_worker p'). busy p w))"
proof -
  let ?p1 = "p\<lparr>tp_size := n\<rparr>" and ?k = "int (length (tp_worker p)) - n"
  have n: "1 \<le> n" using assms(4) by (simp add: adjustSize_def split: if_splits)
  have wf: "workers_wf ?p1" using pool_inv_reachable[OF assms(1)] by (simp add: pool_inv_wf workers_wf_def)
  note D = deleteWorkers_facts[OF wf, of ?k]
  have len: "int (length (tp_worker (deleteWorkers ?k ?p1))) = n" using D assms(3) n by simp
  then have "p' = deleteWorkers ?k ?p1" using assms(2,3,4) n by (auto simp: adjustSize_def Let_def)
  moreover have "set (tp_worker (deleteWorkers ?k ?p1)) \<subseteq> set (tp_worker p)" by (auto simp: deleteWorkers_def Let_def)
  moreover have "busy ?p1 = busy p" by (auto simp: busy_def fun_eq_iff)
  ultimately show ?thesis using D assms(3) n len by auto
qed

theorem shrinking_prefers_idle_workers_witness:
  "\<exists>p'. adjustSize 1 sample_pool = Inr p' \<and> set (tp_worker p') \<subseteq> set (tp_worker sample_pool) \<and> int (length (tp_worker p')) = 1 \<and>
    ((\<forall>w \<in> set (tp_worker sample_pool). busy sample_pool w \<longrightarrow> w \<in> set (tp_worker p')) \<or> (\<forall>w \<in> set (tp_worker p'). busy sample_pool w))"
proof -
  have s: "tp_started sample_pool" "1 < int (length (tp_worker sample_pool))"
    by (simp_all add: sample_pool_def new_pool_def start_def adjustSize_def eval_nat_numeral)
  obtain p' where "adjustSize 1 sample_pool = Inr p'"
    by (cases "adjustSize 1 sample_pool") (auto simp: adjustSize_def Let_def split: if_splits)
  with shrinking_prefers_idle_workers[OF sample_pool_reachable s this] show ?thesis by blast
qed

text \<open>
  Once the last user has freed the shared pool it stays stopped: every later
  \<open>getGlobalThreadPool\<close> succeeds with a pool that refuses each job.
\<close>

theorem freed_global_pool_refuses_jobs:
  assumes "tp_usage p \<le> 1" and "1 \<le> tp_size p"
  shows "\<exists>q. getGlobalThreadPool n (Some (decreaseUsage p)) = Inr q \<and> addJob j q = Inl NotRunning"
proof -
  have st: "\<not> tp_started (decreaseUsage p)" and sz: "tp_size (decreaseUsage p) = tp_size p"
    using assms by (simp_all add: decreaseUsage_def stop_def deleteWorkers_def Let_def)
  then show ?thesis using assms(2)
    by (cases "tp_size p < (case n of Some k \<Rightarrow> k | None \<Rightarrow> 0)")
       (simp_all add: getGlobalThreadPool_def increaseUsage_def adjustSize_def addJob_def Let_def)
qed

theorem freed_global_pool_refuses_jobs_witness:
  "\<exists>q. getGlobalThreadPool None (Some (decreaseUsage sample_pool)) = Inr q \<and> addJob 7 q = Inl NotRunning"
  by (rule freed_global_pool_refuses_jobs) (simp_all add: sample_pool_def new_pool_def start_def adjustSize_def eval_nat_numeral)

end
