(* ===== verification/Ini.thy ===== *)
theory Ini
  imports PyStr "HOL-Library.List_Lexorder" "HOL-Library.Char_ord"
begin

text \<open>
  The ini files of OPSI/Util/File/__init__.py: the standard library's \<open>RawConfigParser\<close> as a list of
  sections with their options, reading (\<open>IniFile.parse\<close>) and writing (\<open>IniFile.generate\<close>) without
  comments and without \<open>keepOrdering\<close>, as the file backend uses them. A file is its text.
\<close>

section \<open>RawConfigParser\<close>

text \<open>
  Option names are lower-cased by every operation; the section \<open>DEFAULT\<close> is no section of its own but
  its options show in every other one.
\<close>

type_synonym ini = "(string \<times> (string \<times> string) list) list"

datatype ini_error = NoSection | DuplicateSection | ParseFailed

definition defaults :: "ini \<Rightarrow> (string \<times> string) list" where
  "defaults cp = (case map_of cp ''DEFAULT'' of Some d \<Rightarrow> d | None \<Rightarrow> [])"

definition sections :: "ini \<Rightarrow> string list" where
  "sections cp = filter (\<lambda>s. s \<noteq> ''DEFAULT'') (map fst cp)"

definition has_section :: "ini \<Rightarrow> string \<Rightarrow> bool" where
  "has_section cp s \<longleftrightarrow> s \<in> set (sections cp)"

definition own_options :: "ini \<Rightarrow> string \<Rightarrow> (string \<times> string) list" where
  "own_options cp s = (if has_section cp s then the (map_of cp s) else [])"

definition ini_options :: "ini \<Rightarrow> string \<Rightarrow> string list" where
  "ini_options cp s = map fst (own_options cp s) @ filter (\<lambda>k. k \<notin> fst ` set (own_options cp s)) (map fst (defaults cp))"

definition ini_get :: "ini \<Rightarrow> string \<Rightarrow> string \<Rightarrow> string option" where
  "ini_get cp s k =
     (if has_section cp s then
        (case map_of (own_options cp s) (lower k) of Some v \<Rightarrow> Some v | None \<Rightarrow> map_of (defaults cp) (lower k))
      else None)"

definition has_option :: "ini \<Rightarrow> string \<Rightarrow> string \<Rightarrow> bool" where
  "has_option cp s k \<longleftrightarrow> ini_get cp s k \<noteq> None"

definition add_section :: "string \<Rightarrow> ini \<Rightarrow> (ini_error, ini) result" where
  "add_section s cp = (if has_section cp s \<or> s = ''DEFAULT'' then Inl DuplicateSection else Inr (cp @ [(s, [])]))"

definition ini_set :: "string \<Rightarrow> string \<Rightarrow> string \<Rightarrow> ini \<Rightarrow> (ini_error, ini) result" where
  "ini_set s k v cp =
     (if has_section cp s then Inr (AList.update s (AList.update (lower k) v (own_options cp s)) cp) else Inl NoSection)"

definition remove_section :: "string \<Rightarrow> ini \<Rightarrow> ini" where
  "remove_section s cp = (if has_section cp s then AList.delete s cp else cp)"

definition remove_option :: "string \<Rightarrow> string \<Rightarrow> ini \<Rightarrow> ini" where
  "remove_option s k cp = (if has_section cp s then AList.update s (AList.delete (lower k) (own_options cp s)) cp else cp)"

section \<open>Reading\<close>

definition is_break :: "char \<Rightarrow> bool" where
  "is_break c = (let n = of_char c :: nat in n \<in> {10, 11, 12, 13, 28, 29, 30, 133})"

function splitlines :: "string \<Rightarrow> string list" where
  "splitlines s =
     (if s = [] then []
      else let l = takeWhile (\<lambda>c. \<not> is_break c) s
           in case dropWhile (\<lambda>c. \<not> is_break c) s of
                [] \<Rightarrow> [l]
              | b # r \<Rightarrow> l # splitlines (if b = CHR 0x0D \<and> r \<noteq> [] \<and> hd r = CHR 0x0A then tl r else r))"
  by pat_completeness auto
termination
proof (relation "measure length", goal_cases)
  case (2 s l b r)
  have "length (b # r) \<le> length s" using length_dropWhile_le[of "\<lambda>c. \<not> is_break c" s] 2(3) by simp
  then show ?case by (cases r) auto
qed simp

declare splitlines.simps [simp del]

text \<open>
  Where a comment starts: after the first part that leaves no quote open and does not end in a
  backslash. The last part is never looked at.
\<close>

fun cut_index :: "nat \<Rightarrow> nat \<Rightarrow> nat \<Rightarrow> string list \<Rightarrow> nat option" where
  "cut_index i q dq [] = None"
| "cut_index i q dq [p] = None"
| "cut_index i q dq (p # p' # ps) =
     (let q' = q + count_list p (CHR 0x27); dq' = dq + count_list p (CHR 0x22)
      in if p \<noteq> [] \<and> last p = CHR 0x5C then cut_index (Suc i) q' dq' (p' # ps)
         else if even q' \<and> even dq' then Some i
         else cut_index (Suc i) q' dq' (p' # ps))"

definition cut_comment :: "char \<Rightarrow> string \<Rightarrow> string" where
  "cut_comment cc line =
     (if cc \<notin> set line then line
      else let parts = split_char cc line
           in case cut_index 0 0 0 parts of None \<Rightarrow> line | Some i \<Rightarrow> join_char cc (take (Suc i) parts))"

definition is_delim :: "char \<Rightarrow> bool" where
  "is_delim c \<longleftrightarrow> c = CHR ''='' \<or> c = CHR '':''"

definition lower_option :: "string \<Rightarrow> string" where
  "lower_option line =
     (let k = takeWhile (\<lambda>c. \<not> is_delim c) line; r = dropWhile (\<lambda>c. \<not> is_delim c) line
      in if k \<noteq> [] \<and> r \<noteq> [] then lower k @ r else line)"

definition prepare_line :: "bool \<Rightarrow> string \<Rightarrow> string option" where
  "prepare_line ignoreCase line =
     (let l = strip line
      in if l = [] then None
         else let l1 = (if hd l = CHR ''['' \<and> ignoreCase then lower l else l)
              in if hd l1 \<in> {CHR '';'', CHR ''#''} then None
                 else let l2 = cut_comment (CHR ''#'') (cut_comment (CHR '';'') l1);
                          l3 = (if ignoreCase then lower_option l2 else l2)
                      in if l3 = [] then None else Some l3)"

text \<open>\<open>RawConfigParser.read_file\<close> on lines without indentation.\<close>

definition header_of :: "string \<Rightarrow> string option" where
  "header_of v =
     (case v of
        [] \<Rightarrow> None
      | c # body \<Rightarrow>
          if c \<noteq> CHR ''['' then None
          else (case dropWhile (\<lambda>c. c \<noteq> CHR '']'') (rev body) of [] \<Rightarrow> None | _ # h \<Rightarrow> if h = [] then None else Some (rev h)))"

definition option_of :: "string \<Rightarrow> (string \<times> string) option" where
  "option_of v =
     (case dropWhile (\<lambda>c. \<not> is_delim c) v of
        [] \<Rightarrow> None
      | _ # x \<Rightarrow>
          (let k = strip (takeWhile (\<lambda>c. \<not> is_delim c) v) in if k = [] then None else Some (lower k, strip x)))"

fun read_line :: "string \<Rightarrow> string option \<times> ini \<Rightarrow> (ini_error, string option \<times> ini) result" where
  "read_line line (cur, cp) =
     (let v = strip line
      in case header_of v of
           Some h \<Rightarrow>
             if h = ''DEFAULT'' then Inr (Some h, if map_of cp h = None then cp @ [(h, [])] else cp)
             else if has_section cp h then Inl ParseFailed
             else Inr (Some h, cp @ [(h, [])])
         | None \<Rightarrow>
             (case cur of
                None \<Rightarrow> Inl ParseFailed
              | Some s \<Rightarrow>
                  (case option_of v of
                     None \<Rightarrow> Inl ParseFailed
                   | Some (k, x) \<Rightarrow>
                       if k \<in> fst ` set (the (map_of cp s)) then Inl ParseFailed
                       else Inr (cur, AList.update s (the (map_of cp s) @ [(k, x)]) cp))))"

definition ini_read :: "string list \<Rightarrow> (ini_error, ini) result" where
  "ini_read lines = bindE (foldE read_line lines (None, [])) (\<lambda>(cur, cp). Inr cp)"

definition ini_parse :: "bool \<Rightarrow> string \<Rightarrow> (ini_error, ini) result" where
  "ini_parse ignoreCase text = ini_read (List.map_filter (prepare_line ignoreCase) (splitlines text))"

section \<open>Writing\<close>

definition arranged_sections :: "string list \<Rightarrow> ini \<Rightarrow> string list" where
  "arranged_sections seq cp =
     foldl (\<lambda>ss s. if s \<in> set ss then s # remove1 s ss else ss) (sort (sections cp)) (rev seq)"

definition section_lines :: "ini \<Rightarrow> string \<Rightarrow> string list" where
  "section_lines cp s =
     (CHR ''['' # s @ '']'') # map (\<lambda>k. k @ '' = '' @ the (ini_get cp s k)) (sort (ini_options cp s)) @ [[]]"

definition ini_generate :: "string list \<Rightarrow> ini \<Rightarrow> string" where
  "ini_generate seq cp = concat (map (\<lambda>l. l @ [newline]) (concat (map (section_lines cp) (arranged_sections seq cp))))"


section \<open>What is written is read back\<close>

text \<open>Lines that reading leaves alone, and ini data all of whose lines are such.\<close>

definition line_ok :: "string \<Rightarrow> bool" where
  "line_ok l \<longleftrightarrow> l \<noteq> [] \<and> strip l = l \<and> (\<forall>c \<in> set l. \<not> is_break c) \<and> hd l \<notin> {CHR '';'', CHR ''#''} \<and>
     cut_comment (CHR '';'') l = l \<and> cut_comment (CHR ''#'') l = l"

definition clean_option :: "string \<Rightarrow> string \<Rightarrow> bool" where
  "clean_option k v \<longleftrightarrow> k \<noteq> [] \<and> lower k = k \<and> strip k = k \<and> (\<forall>c \<in> set k. \<not> is_delim c) \<and> hd k \<noteq> CHR ''['' \<and>
     strip v = v \<and> line_ok (strip (k @ '' = '' @ v))"

definition clean_ini :: "ini \<Rightarrow> bool" where
  "clean_ini cp \<longleftrightarrow> distinct (map fst cp) \<and>
     (\<forall>(s, os) \<in> set cp. s \<noteq> [] \<and> s \<noteq> ''DEFAULT'' \<and> line_ok (CHR ''['' # s @ '']'') \<and> distinct (map fst os) \<and>
        (\<forall>(k, v) \<in> set os. clean_option k v))"

definition arranged :: "string list \<Rightarrow> ini \<Rightarrow> ini" where
  "arranged seq cp =
     map (\<lambda>s. (s, map (\<lambda>k. (k, the (ini_get cp s k))) (sort (ini_options cp s)))) (arranged_sections seq cp)"

lemma map_filter_append: "List.map_filter f (xs @ ys) = List.map_filter f xs @ List.map_filter f ys"
  by (simp add: List.map_filter_def)

lemma splitlines_step:
  assumes "\<forall>c \<in> set l. \<not> is_break c"
  shows "splitlines (l @ newline # r) = l # splitlines r"
proof -
  have nl: "is_break newline" "newline \<noteq> CHR 0x0D" by (simp_all add: newline_def is_break_def)
  then have "takeWhile (\<lambda>c. \<not> is_break c) (l @ newline # r) = l" "dropWhile (\<lambda>c. \<not> is_break c) (l @ newline # r) = newline # r"
    using assms by (simp_all add: takeWhile_append dropWhile_append)
  then show ?thesis using nl by (subst splitlines.simps) (simp add: Let_def)
qed

lemma splitlines_lines:
  "\<forall>l \<in> set ls. \<forall>c \<in> set l. \<not> is_break c \<Longrightarrow> splitlines (concat (map (\<lambda>l. l @ [newline]) ls)) = ls"
proof (induction ls)
  case Nil
  then show ?case by (simp add: splitlines.simps)
next
  case (Cons l ls)
  have "splitlines (l @ newline # concat (map (\<lambda>l. l @ [newline]) ls)) = l # splitlines (concat (map (\<lambda>l. l @ [newline]) ls))"
    using Cons.prems by (intro splitlines_step) simp
  then show ?case using Cons by simp
qed

lemma prepare_line_ok: "line_ok (strip l) \<Longrightarrow> prepare_line False l = Some (strip l)"
  by (auto simp: prepare_line_def line_ok_def Let_def)

lemma prepare_line_empty: "prepare_line False [] = None"
  by (simp add: prepare_line_def strip_def)

lemma header_of_header: "s \<noteq> [] \<Longrightarrow> header_of (CHR ''['' # s @ '']'') = Some s"
  by (simp add: header_of_def)

lemma header_of_other: "v = [] \<or> hd v \<noteq> CHR ''['' \<Longrightarrow> header_of v = None"
  by (cases v) (simp_all add: header_of_def)


lemma strip_rendered:
  assumes k: "k \<noteq> []" "strip k = k" and v: "strip v = v"
  shows "strip (k @ '' = '' @ v) = (if v = [] then k @ '' ='' else k @ '' = '' @ v)"
proof -
  have sp: "is_space (CHR '' '')" "\<not> is_space (CHR ''='')" by (simp_all add: is_space_def)
  have k': "\<not> is_space (hd k)" "\<not> is_space (last k)" using k by (simp_all add: strip_eq_self)
  show ?thesis
  proof (cases "v = []")
    case True
    have "dropWhile is_space (k @ '' = '') = k @ '' = ''" using k k' by (simp add: dropWhile_eq_self_iff)
    then show ?thesis using True sp by (simp add: strip_def)
  next
    case False
    then have "strip (k @ '' = '' @ v) = k @ '' = '' @ v" using k k' v by (simp add: strip_eq_self)
    then show ?thesis using False by simp
  qed
qed

lemma option_of_rendered:
  assumes "clean_option k v"
  shows "option_of (strip (k @ '' = '' @ v)) = Some (k, v)"
proof -
  have c: "k \<noteq> []" "strip k = k" "strip v = v" "lower k = k" "\<forall>c \<in> set k. \<not> is_delim c"
    using assms by (auto simp: clean_option_def)
  have d: "\<not> is_delim (CHR '' '')" "is_delim (CHR ''='')" by (simp_all add: is_delim_def)
  have sp: "is_space (CHR '' '')" by (simp add: is_space_def)
  have k'': "\<not> is_space (hd k)" "\<not> is_space (last k)" using c(1,2) by (simp_all add: strip_eq_self)
  then have "dropWhile is_space (k @ '' '') = k @ '' ''" "dropWhile is_space (rev k) = rev k"
    using c(1) by (simp_all add: dropWhile_eq_self_iff hd_rev)
  then have "strip (k @ '' '') = k" using sp by (simp add: strip_def)
  moreover have "strip (CHR '' '' # v) = v" using c(3) sp by (simp add: strip_def)
  ultimately show ?thesis
    using c d strip_rendered[OF c(1-3)] by (simp add: option_of_def takeWhile_append dropWhile_append strip_def)
qed


lemma update_last: "s \<notin> fst ` set cp \<Longrightarrow> AList.update s x (cp @ [(s, d)]) = cp @ [(s, x)]"
  by (induction cp) auto

lemma map_of_last: "s \<notin> fst ` set cp \<Longrightarrow> map_of (cp @ [(s, d)]) s = Some d"
  using map_of_eq_None_iff[of cp s] by (simp add: map_add_def)

lemma read_options:
  assumes "\<forall>(k, v) \<in> set os. clean_option k v" and "distinct (map fst (ds @ os))" and "s \<notin> fst ` set cp"
  shows "foldE read_line (map (\<lambda>(k, v). strip (k @ '' = '' @ v)) os) (Some s, cp @ [(s, ds)]) = Inr (Some s, cp @ [(s, ds @ os)])"
  using assms
proof (induction os arbitrary: ds)
  case (Cons kv os)
  obtain k v where kv: "kv = (k, v)" by (cases kv)
  have c: "clean_option k v" using Cons.prems(1) kv by simp
  let ?l = "strip (k @ '' = '' @ v)"
  have l: "strip ?l = ?l" "hd ?l = hd k"
    using c strip_rendered[of k v] by (auto simp: clean_option_def line_ok_def)
  have "header_of ?l = None" using c l(2) by (intro header_of_other) (simp add: clean_option_def)
  moreover have "k \<notin> fst ` set ds" using Cons.prems(2) kv by auto
  ultimately have "read_line ?l (Some s, cp @ [(s, ds)]) = Inr (Some s, cp @ [(s, ds @ [(k, v)])])"
    using l(1) option_of_rendered[OF c] Cons.prems(3) by (simp add: update_last map_of_last del: map_of_append)
  moreover have "foldE read_line (map (\<lambda>(k, v). strip (k @ '' = '' @ v)) os) (Some s, cp @ [(s, ds @ [(k, v)])]) =
      Inr (Some s, cp @ [(s, (ds @ [(k, v)]) @ os)])"
    using Cons.prems kv by (intro Cons.IH) auto
  ultimately show ?case by (simp add: kv)
qed simp

text \<open>The lines of a section as they are left after reading.\<close>

definition kept_lines :: "string \<Rightarrow> (string \<times> string) list \<Rightarrow> string list" where
  "kept_lines s os = (CHR ''['' # s @ '']'') # map (\<lambda>(k, v). strip (k @ '' = '' @ v)) os"

definition clean_section :: "string \<Rightarrow> (string \<times> string) list \<Rightarrow> bool" where
  "clean_section s os \<longleftrightarrow> s \<noteq> [] \<and> s \<noteq> ''DEFAULT'' \<and> line_ok (CHR ''['' # s @ '']'') \<and> distinct (map fst os) \<and>
     (\<forall>(k, v) \<in> set os. clean_option k v)"

lemma read_sections:
  assumes "\<forall>(s, os) \<in> set ss. clean_section s os" and "distinct (map fst (cp @ ss))"
  shows "\<exists>cur'. foldE read_line (concat (map (\<lambda>(s, os). kept_lines s os) ss)) (cur, cp) = Inr (cur', cp @ ss)"
  using assms
proof (induction ss arbitrary: cp cur)
  case (Cons so ss)
  obtain s os where so: "so = (s, os)" by (cases so)
  have c: "clean_section s os" and s: "s \<notin> fst ` set cp" using Cons.prems so by auto
  then have "strip (CHR ''['' # s @ '']'') = CHR ''['' # s @ '']''" "header_of (CHR ''['' # s @ '']'') = Some s"
    by (auto simp: clean_section_def line_ok_def header_of_header)
  moreover have "\<not> has_section cp s" using s by (auto simp: has_section_def sections_def)
  ultimately have "read_line (CHR ''['' # s @ '']'') (cur, cp) = Inr (Some s, cp @ [(s, [])])"
    using c by (simp add: clean_section_def)
  moreover have "foldE read_line (map (\<lambda>(k, v). strip (k @ '' = '' @ v)) os) (Some s, cp @ [(s, [])]) = Inr (Some s, cp @ [(s, [] @ os)])"
    using c s by (intro read_options) (auto simp: clean_section_def)
  moreover obtain cur' where "foldE read_line (concat (map (\<lambda>(s, os). kept_lines s os) ss)) (Some s, cp @ [(s, os)]) = Inr (cur', (cp @ [(s, os)]) @ ss)"
    using Cons.IH[of "cp @ [(s, os)]" "Some s"] Cons.prems so by auto
  ultimately show ?case by (simp add: so kept_lines_def foldE_append)
qed simp

lemma arranged_sections_perm: "mset (arranged_sections seq cp) = mset (sections cp)"
proof -
  have "mset (foldl (\<lambda>ss s. if s \<in> set ss then s # remove1 s ss else ss) xs ys) = mset xs" for xs ys :: "string list"
    by (induction ys arbitrary: xs) auto
  then show ?thesis by (simp add: arranged_sections_def)
qed

lemma arranged_sections_set: "set (arranged_sections seq cp) = set (sections cp)"
  by (metis arranged_sections_perm set_mset_mset)

lemma arranged_sections_distinct: "distinct (arranged_sections seq cp) = distinct (sections cp)"
  by (metis arranged_sections_perm mset_eq_imp_distinct_iff)

lemma clean_lookup:
  assumes c: "clean_ini cp" and s: "s \<in> set (sections cp)"
  obtains os where "map_of cp s = Some os" "clean_section s os" "ini_options cp s = map fst os" "\<And>k. ini_get cp s k = map_of os (lower k)"
proof -
  obtain os where so: "(s, os) \<in> set cp" using s by (auto simp: sections_def)
  have d: "distinct (map fst cp)" using c by (simp add: clean_ini_def)
  then have m: "map_of cp s = Some os" using so by simp
  have "''DEFAULT'' \<notin> fst ` set cp" using c by (auto simp: clean_ini_def)
  then have df: "defaults cp = []" by (simp add: defaults_def map_of_eq_None_iff[symmetric])
  have hs: "has_section cp s" using s by (simp add: has_section_def)
  have cs: "clean_section s os" using c so by (auto simp: clean_ini_def clean_section_def)
  show thesis
  proof (rule that[OF m cs])
    show "ini_options cp s = map fst os" using hs m df by (simp add: ini_options_def own_options_def)
    show "ini_get cp s k = map_of os (lower k)" for k
      using hs m df by (simp add: ini_get_def own_options_def split: option.split)
  qed
qed

lemma ini_roundtrip_aux:
  assumes "clean_ini cp"
  shows "ini_parse False (ini_generate seq cp) = Inr (arranged seq cp)"
proof -
  let ?os = "\<lambda>s. map (\<lambda>k. (k, the (ini_get cp s k))) (sort (ini_options cp s))"
  have sec: "clean_section s (?os s)" if s: "s \<in> set (sections cp)" for s
  proof -
    obtain os where os: "clean_section s os" "ini_options cp s = map fst os" "\<And>k. ini_get cp s k = map_of os (lower k)"
      using clean_lookup[OF assms s] by metis
    have "the (ini_get cp s k) = v" if kv: "(k, v) \<in> set os" for k v
    proof -
      have "lower k = k" "distinct (map fst os)" using os(1) kv by (auto simp: clean_section_def clean_option_def)
      then show ?thesis using os(3) kv by simp
    qed
    then show ?thesis using os(1,2) unfolding clean_section_def by (fastforce simp: comp_def)
  qed
  have line: "List.map_filter (prepare_line False) (section_lines cp s) = kept_lines s (?os s)" if s: "s \<in> set (sections cp)" for s
  proof -
    have c: "line_ok (CHR ''['' # s @ '']'')" "\<forall>k \<in> set (ini_options cp s). line_ok (strip (k @ '' = '' @ the (ini_get cp s k)))"
      using sec[OF s] by (auto simp: clean_section_def clean_option_def)
    have "prepare_line False (CHR ''['' # s @ '']'') = Some (CHR ''['' # s @ '']'')"
      using prepare_line_ok c(1) by (metis line_ok_def)
    moreover have "List.map_filter (prepare_line False) (map (\<lambda>k. k @ '' = '' @ the (ini_get cp s k)) ks) =
        map (\<lambda>k. strip (k @ '' = '' @ the (ini_get cp s k))) ks" if "set ks \<subseteq> set (ini_options cp s)" for ks
      using that c(2) by (induction ks) (auto simp: map_filter_def prepare_line_ok)
    ultimately show ?thesis
      by (simp add: section_lines_def kept_lines_def prepare_line_empty List.map_filter_def)
  qed
  have breaks: "\<forall>c \<in> set l. \<not> is_break c" if s: "s \<in> set (sections cp)" and l: "l \<in> set (section_lines cp s)" for s l
  proof -
    have nb: "\<forall>c \<in> set (k @ '' = '' @ v). \<not> is_break c" if kv: "clean_option k v" for k v
    proof -
      have "set (k @ '' = '' @ v) \<subseteq> set (strip (k @ '' = '' @ v)) \<union> {CHR '' ''}"
        using strip_rendered[of k v] kv by (auto simp: clean_option_def)
      moreover have "\<not> is_break (CHR '' '')" by (simp add: is_break_def)
      ultimately show ?thesis using kv unfolding clean_option_def line_ok_def by blast
    qed
    have h: "\<forall>c \<in> set (CHR ''['' # s @ '']''). \<not> is_break c" using sec[OF s] unfolding clean_section_def line_ok_def by blast
    have o: "clean_option k (the (ini_get cp s k))" if "k \<in> set (ini_options cp s)" for k
      using sec[OF s] that by (auto simp: clean_section_def)
    from l consider "l = CHR ''['' # s @ '']''" | k where "k \<in> set (ini_options cp s)" "l = k @ '' = '' @ the (ini_get cp s k)" | "l = []"
      by (auto simp: section_lines_def)
    then show ?thesis
    proof cases
      case (2 k)
      then show ?thesis using nb[OF o[OF 2(1)]] by simp
    qed (use h in simp_all)
  qed
  let ?ss = "arranged_sections seq cp"
  have "splitlines (ini_generate seq cp) = concat (map (section_lines cp) ?ss)"
    unfolding ini_generate_def by (rule splitlines_lines) (use breaks in \<open>auto simp: arranged_sections_set\<close>)
  moreover have "List.map_filter (prepare_line False) (concat (map (section_lines cp) xs)) = concat (map (\<lambda>s. kept_lines s (?os s)) xs)"
    if "set xs \<subseteq> set (sections cp)" for xs
    using that by (induction xs) (auto simp: map_filter_append line)
  moreover have "concat (map (\<lambda>s. kept_lines s (?os s)) ?ss) = concat (map (\<lambda>(s, os). kept_lines s os) (arranged seq cp))"
    by (simp add: arranged_def comp_def)
  moreover have "distinct (map fst ([] @ arranged seq cp))"
    using assms by (simp add: arranged_def comp_def arranged_sections_distinct clean_ini_def sections_def)
  moreover have "\<forall>(s, os) \<in> set (arranged seq cp). clean_section s os"
    using sec by (auto simp: arranged_def arranged_sections_set)
  ultimately show ?thesis
    using read_sections[of "arranged seq cp" "[]" None] by (auto simp: ini_parse_def ini_read_def arranged_sections_set)
qed


text \<open>
  C21: An ini file written by \<open>generate\<close> is read back by \<open>parse\<close> with the same sections, options and values,
  sections and options in the order written, when names and values are clean: no line breaks, no blanks at
  the ends of names and values, no delimiter in a name, and no comment character that would cut a line.
\<close>

theorem ini_roundtrip:
  assumes "clean_ini cp"
  shows "ini_parse False (ini_generate seq cp) = Inr (arranged seq cp)"
  by (rule ini_roundtrip_aux[OF assms])

theorem ini_roundtrip_witness:
  "ini_parse False (ini_generate [] [(''generalconfig'', [(''a.list'', (CHR 0x22 # ''x;y'' @ [CHR 0x22])), (''b'', [])]), (''info'', [])]) =
     Inr (arranged [] [(''generalconfig'', [(''a.list'', (CHR 0x22 # ''x;y'' @ [CHR 0x22])), (''b'', [])]), (''info'', [])])"
  by (rule ini_roundtrip) code_simp

text \<open>Rearranging changes nothing but the order.\<close>

lemma map_of_keyed: "map_of (map (\<lambda>k. (k, f k)) xs) x = (if x \<in> set xs then Some (f x) else None)"
  by (induction xs) auto

lemma sections_arranged [simp]: "sections (arranged seq cp) = arranged_sections seq cp"
proof -
  have "''DEFAULT'' \<notin> set (arranged_sections seq cp)" by (simp add: arranged_sections_set sections_def)
  then show ?thesis by (auto simp: sections_def arranged_def comp_def filter_id_conv)
qed

lemma has_section_arranged [simp]: "has_section (arranged seq cp) s = has_section cp s"
  by (simp add: has_section_def arranged_sections_set)

lemma defaults_arranged [simp]: "defaults (arranged seq cp) = []"
proof -
  have "''DEFAULT'' \<notin> fst ` set (arranged seq cp)"
    using sections_arranged[of seq cp] by (auto simp: arranged_def arranged_sections_set sections_def)
  then show ?thesis by (simp add: defaults_def map_of_eq_None_iff[symmetric])
qed

lemma own_options_arranged:
  assumes "clean_ini cp" and "has_section cp s"
  shows "own_options (arranged seq cp) s = map (\<lambda>k. (k, the (ini_get cp s k))) (sort (ini_options cp s))"
proof -
  have "distinct (arranged_sections seq cp)"
    using assms(1) by (simp add: arranged_sections_distinct clean_ini_def sections_def)
  moreover have "s \<in> set (arranged_sections seq cp)" using assms(2) by (simp add: arranged_sections_set has_section_def)
  ultimately have "map_of (arranged seq cp) s = Some (map (\<lambda>k. (k, the (ini_get cp s k))) (sort (ini_options cp s)))"
    by (simp add: arranged_def map_of_keyed)
  then show ?thesis using assms(2) by (simp add: own_options_def)
qed

lemma options_arranged:
  assumes "clean_ini cp" and "has_section cp s"
  shows "ini_options (arranged seq cp) s = sort (ini_options cp s)"
  using own_options_arranged[OF assms] by (simp add: ini_options_def comp_def)

lemma ini_get_arranged:
  assumes c: "clean_ini cp"
  shows "ini_get (arranged seq cp) s k = ini_get cp s k"
proof (cases "has_section cp s")
  case True
  obtain os where os: "ini_options cp s = map fst os" "\<And>k. ini_get cp s k = map_of os (lower k)" "clean_section s os"
    using clean_lookup[OF c, of s] True by (metis has_section_def)
  have "map_of (map (\<lambda>k. (k, the (ini_get cp s k))) (sort (ini_options cp s))) (lower k) =
      (if lower k \<in> set (ini_options cp s) then Some (the (ini_get cp s (lower k))) else None)"
    by (simp add: map_of_keyed)
  moreover have "ini_get cp s k = (if lower k \<in> set (ini_options cp s) then Some (the (ini_get cp s (lower k))) else None)"
    using os(1,2) by (cases "map_of os (lower k)") (auto simp: map_of_eq_None_iff, force dest: map_of_SomeD)
  ultimately show ?thesis
    using True own_options_arranged[OF c True] by (simp add: ini_get_def[of "arranged seq cp"] split: option.split)
qed (simp add: ini_get_def)

lemma clean_arranged:
  assumes c: "clean_ini cp"
  shows "clean_ini (arranged seq cp)"
proof -
  have d: "distinct (arranged_sections seq cp)"
    using c by (simp add: arranged_sections_distinct clean_ini_def sections_def)
  have "clean_section s (map (\<lambda>k. (k, the (ini_get cp s k))) (sort (ini_options cp s)))" if s: "s \<in> set (sections cp)" for s
  proof -
    obtain os where os: "clean_section s os" "ini_options cp s = map fst os" "\<And>k. ini_get cp s k = map_of os (lower k)"
      using clean_lookup[OF c s] by metis
    have "the (ini_get cp s k) = v" if kv: "(k, v) \<in> set os" for k v
    proof -
      have "lower k = k" "distinct (map fst os)" using os(1) kv by (auto simp: clean_section_def clean_option_def)
      then show ?thesis using os(3) kv by simp
    qed
    then show ?thesis using os(1,2) unfolding clean_section_def by (fastforce simp: comp_def)
  qed
  then show ?thesis using d
    by (auto simp: clean_ini_def clean_section_def arranged_def comp_def arranged_sections_set)
qed


lemma clean_options:
  assumes c: "clean_ini cp" and s: "has_section cp s"
  shows "distinct (ini_options cp s)" "lower k = k \<Longrightarrow> k \<in> set (ini_options cp s) \<longleftrightarrow> ini_get cp s k \<noteq> None"
proof -
  obtain os where os: "clean_section s os" "ini_options cp s = map fst os" "\<And>k. ini_get cp s k = map_of os (lower k)"
    using clean_lookup[OF c, of s] s by (metis has_section_def)
  show "distinct (ini_options cp s)" using os(1,2) by (simp add: clean_section_def)
  show "k \<in> set (ini_options cp s) \<longleftrightarrow> ini_get cp s k \<noteq> None" if "lower k = k"
    using os(2,3) that by (simp add: map_of_eq_None_iff)
qed


section \<open>Changing clean data\<close>

lemma clean_defaults: "clean_ini cp \<Longrightarrow> defaults cp = []"
proof -
  assume "clean_ini cp"
  then have "''DEFAULT'' \<notin> fst ` set cp" by (auto simp: clean_ini_def)
  then show ?thesis by (simp add: defaults_def map_of_eq_None_iff[symmetric])
qed

lemma clean_own_options:
  assumes "clean_ini cp" and "has_section cp s"
  shows "clean_section s (own_options cp s)" "map_of cp s = Some (own_options cp s)"
proof -
  obtain os where os: "map_of cp s = Some os" "clean_section s os"
    using clean_lookup[OF assms(1), of s] assms(2) by (metis has_section_def)
  then show "clean_section s (own_options cp s)" "map_of cp s = Some (own_options cp s)"
    using assms(2) by (simp_all add: own_options_def)
qed

lemma clean_iniI:
  "distinct (map fst cp) \<Longrightarrow> (\<And>s os. (s, os) \<in> set cp \<Longrightarrow> clean_section s os) \<Longrightarrow> clean_ini cp"
  unfolding clean_ini_def clean_section_def by fast

lemma clean_iniD: "clean_ini cp \<Longrightarrow> (s, os) \<in> set cp \<Longrightarrow> clean_section s os"
  by (auto simp: clean_ini_def clean_section_def)

lemma set_update_dict: "(a, b) \<in> set (AList.update k v d) \<Longrightarrow> (a = k \<and> b = v) \<or> (a, b) \<in> set d"
  by (induction d) (auto split: if_splits)

lemma replace_section:
  assumes c: "clean_ini cp" and s: "has_section cp s" and new: "clean_section s os"
  shows "clean_ini (AList.update s os cp)" "sections (AList.update s os cp) = sections cp"
    "ini_get (AList.update s os cp) s' k = (if s' = s then map_of os (lower k) else ini_get cp s' k)"
proof -
  have d: "distinct (dict_keys cp)" using c by (simp add: clean_ini_def dict_keys_def)
  have "s \<in> set (dict_keys cp)" using s by (auto simp: has_section_def sections_def dict_keys_def)
  then have keys: "map fst (AList.update s os cp) = map fst cp"
    using dict_keys_update[of s os cp] by (simp add: dict_keys_def)
  show cl: "clean_ini (AList.update s os cp)"
  proof (rule clean_iniI)
    show "distinct (map fst (AList.update s os cp))" using d by (simp add: keys dict_keys_def)
    show "clean_section a b" if "(a, b) \<in> set (AList.update s os cp)" for a b
      using set_update_dict[OF that] new clean_iniD[OF c] by auto
  qed
  show sec: "sections (AList.update s os cp) = sections cp" by (simp add: sections_def keys)
  have hs: "has_section (AList.update s os cp) t = has_section cp t" for t by (simp add: has_section_def sec)
  show "ini_get (AList.update s os cp) s' k = (if s' = s then map_of os (lower k) else ini_get cp s' k)"
    using s by (simp add: ini_get_def hs own_options_def clean_defaults[OF cl] clean_defaults[OF c] split: option.split)
qed

lemma clean_set:
  assumes c: "clean_ini cp" and s: "has_section cp s" and o: "clean_option k v"
  obtains cp' where "ini_set s k v cp = Inr cp'" "clean_ini cp'" "sections cp' = sections cp"
    "\<And>s' k'. ini_get cp' s' k' = (if s' = s \<and> lower k' = k then Some v else ini_get cp s' k')"
proof -
  have low: "lower k = k" using o by (simp add: clean_option_def)
  let ?os = "AList.update k v (own_options cp s)"
  have own: "clean_section s (own_options cp s)" by (rule clean_own_options(1)[OF c s])
  have "distinct (dict_keys ?os)" using own by (simp add: clean_section_def dict_keys_def distinct_update)
  then have new: "clean_section s ?os"
    using own o set_update_dict unfolding clean_section_def by (fastforce simp: dict_keys_def)
  have "ini_get cp s k' = map_of (own_options cp s) (lower k')" for k'
    using s clean_defaults[OF c] by (simp add: ini_get_def split: option.split)
  then show thesis
    using that[of "AList.update s ?os cp"] replace_section[OF c s new] s low by (simp add: ini_set_def)
qed

lemma clean_add_section:
  assumes c: "clean_ini cp" and s: "\<not> has_section cp s" "clean_section s []"
  shows "add_section s cp = Inr (cp @ [(s, [])])" "clean_ini (cp @ [(s, [])])" "sections (cp @ [(s, [])]) = sections cp @ [s]"
    "ini_get (cp @ [(s, [])]) s' k = ini_get cp s' k"
proof -
  have nd: "s \<noteq> ''DEFAULT''" using s by (simp add: clean_section_def)
  then have ns: "s \<notin> fst ` set cp" using s by (auto simp: has_section_def sections_def)
  show "add_section s cp = Inr (cp @ [(s, [])])" using s nd by (simp add: add_section_def)
  show cl: "clean_ini (cp @ [(s, [])])"
    using c ns s(2) clean_iniD[OF c] by (intro clean_iniI) (auto simp: clean_ini_def)
  show sec: "sections (cp @ [(s, [])]) = sections cp @ [s]" using nd by (simp add: sections_def)
  have m: "map_of (cp @ [(s, [])]) t = (if t = s then Some [] else map_of cp t)" for t
    using ns by (auto simp: map_add_def map_of_eq_None_iff[symmetric] split: option.split)
  have "own_options (cp @ [(s, [])]) s' = own_options cp s'"
    using s(1) by (simp add: own_options_def has_section_def sec m del: map_of_append)
  then show "ini_get (cp @ [(s, [])]) s' k = ini_get cp s' k"
    using s(1) by (auto simp: ini_get_def has_section_def sec clean_defaults[OF cl] clean_defaults[OF c] own_options_def[of cp]
        split: option.split)
qed

lemma clean_remove_option:
  assumes c: "clean_ini cp" and s: "has_section cp s"
  shows "clean_ini (remove_option s k cp)" "sections (remove_option s k cp) = sections cp"
    "ini_get (remove_option s k cp) s' k' = (if s' = s \<and> lower k' = lower k then None else ini_get cp s' k')"
proof -
  have own: "clean_section s (own_options cp s)" by (rule clean_own_options(1)[OF c s])
  then have new: "clean_section s (AList.delete (lower k) (own_options cp s))"
    by (auto simp: clean_section_def AList.delete_eq distinct_map_filter)
  have "ini_get cp s k' = map_of (own_options cp s) (lower k')" for k'
    using s clean_defaults[OF c] by (simp add: ini_get_def split: option.split)
  then show "clean_ini (remove_option s k cp)" "sections (remove_option s k cp) = sections cp"
    "ini_get (remove_option s k cp) s' k' = (if s' = s \<and> lower k' = lower k then None else ini_get cp s' k')"
    using replace_section[OF c s new] s by (simp_all add: remove_option_def)
qed

lemma clean_remove_section:
  assumes c: "clean_ini cp"
  shows "clean_ini (remove_section s cp)" "has_section (remove_section s cp) t \<longleftrightarrow> t \<noteq> s \<and> has_section cp t"
proof -
  have "clean_ini (AList.delete s cp)"
    using c clean_iniD[OF c] by (intro clean_iniI) (auto simp: clean_ini_def AList.delete_eq distinct_map_filter)
  then show "clean_ini (remove_section s cp)" using c by (simp add: remove_section_def)
  show "has_section (remove_section s cp) t \<longleftrightarrow> t \<noteq> s \<and> has_section cp t"
    by (auto simp: remove_section_def has_section_def sections_def AList.delete_eq)
qed

end
