(* ===== verification/Objects.thy ===== *)
theory Objects
  imports PyStr Json
begin

text \<open>
  The objects backends store and what OPSI/Backend/Base/Backend.py does with them: the test of an
  object hash against a filter (\<open>_objectHashMatches\<close>) and the options of a backend
  (\<open>BackendOptions\<close>, \<open>backend_setOptions\<close>). The object classes belong to the package opsicommon: an
  object is its class name, its hash and the mark \<open>generatedDefault\<close>, and what the code uses of opsicommon, of the regular
  expressions and of the evaluation of class names is collected in a record of parameters.
\<close>

type_synonym hash = "(string \<times> json) list"

record obj =
  o_class :: string
  o_hash :: hash
  o_generated :: bool

definition attr :: "obj \<Rightarrow> string \<Rightarrow> json" where
  "attr ob k = (case map_of (o_hash ob) k of Some v \<Rightarrow> v | None \<Rightarrow> JNull)"

definition set_attr :: "string \<Rightarrow> json \<Rightarrow> obj \<Rightarrow> obj" where
  "set_attr k v ob = ob\<lparr>o_hash := AList.update k v (o_hash ob)\<rparr>"

lemma attr_set_attr: "attr (set_attr k v ob) k' = (if k' = k then v else attr ob k')"
  by (simp add: attr_def set_attr_def)

text \<open>
  The functions of opsicommon and of the standard library the backends call: \<open>forceUnicode\<close>,
  \<open>forceHostId\<close> (None when it raises), \<open>compareVersions\<close>, \<open>toJson\<close> and \<open>fromJson\<close>, the constructor
  \<open>Class.fromHash\<close>, the subclasses of a class (None for a name that is no class), \<open>re.search\<close>, the
  operator at the start of a filter value, \<open>forceBool\<close> and \<open>forceProductId\<close> of a string, and
  \<open>getIdent\<close> and \<open>update\<close> of an object, the latter with or without values that are None.
\<close>

record lib =
  forceUnicode :: "json \<Rightarrow> string"
  forceHostId :: "string \<Rightarrow> string option"
  compareVersions :: "json \<Rightarrow> string \<Rightarrow> string \<Rightarrow> bool option"
  toJson :: "json \<Rightarrow> string"
  fromJson :: "string \<Rightarrow> json option"
  fromHash :: "string \<Rightarrow> hash \<Rightarrow> obj option"
  subClasses :: "string \<Rightarrow> string list option"
  re_search :: "string \<Rightarrow> string \<Rightarrow> bool"
  operator_of :: "string \<Rightarrow> (string \<times> string) option"
  forceBool :: "string \<Rightarrow> bool option"
  forceProductId :: "string \<Rightarrow> string option"
  getIdent :: "obj \<Rightarrow> hash"
  mergeObject :: "bool \<Rightarrow> obj \<Rightarrow> obj \<Rightarrow> obj"

datatype backend_error =
    BackendError
  | BackendIOError
  | BackendBadValueError
  | BackendMissingDataError
  | BackendReferentialIntegrityError
  | BackendUnaccomplishableError
  | BackendConfigurationError
  | LicenseConfigurationError
  | LicenseMissingError
  | ValueError
  | KeyError
  | OtherError

section \<open>Filters\<close>

definition forceList :: "json \<Rightarrow> json list" where
  "forceList v = (case v of JList l \<Rightarrow> l | _ \<Rightarrow> [v])"

definition forceUnicodeList :: "lib \<Rightarrow> json \<Rightarrow> string list" where
  "forceUnicodeList L v = map (forceUnicode L) (forceList v)"

definition is_number :: "json \<Rightarrow> bool" where
  "is_number v = (case v of JInt _ \<Rightarrow> True | JRat _ \<Rightarrow> True | _ \<Rightarrow> False)"

text \<open>
  One value of the filter against one attribute other than the type: \<open>None\<close> when the test raises. A
  wildcard needs a string to search in.
\<close>

definition value_matches :: "lib \<Rightarrow> json \<Rightarrow> string \<Rightarrow> bool option" where
  "value_matches L v fv =
     (case v of
        JList l \<Rightarrow> Some (JStr fv \<in> set l)
      | JNull \<Rightarrow> Some False
      | JBool _ \<Rightarrow> Some False
      | _ \<Rightarrow>
          if is_number v \<or> operator_of L fv \<noteq> None then
            (case operator_of L fv of
               Some (op, val) \<Rightarrow> Some (compareVersions L v op val = Some True)
             | None \<Rightarrow> Some (compareVersions L v ''=='' fv = Some True))
          else if CHR ''*'' \<in> set fv then
            (case v of JStr s \<Rightarrow> Some (re_search L (CHR ''^'' # replace_char (CHR ''*'') ''.*'' fv @ ''$'') s) | _ \<Rightarrow> None)
          else Some False)"

fun any_value :: "(string \<Rightarrow> bool option) \<Rightarrow> string list \<Rightarrow> bool option" where
  "any_value f [] = Some False"
| "any_value f (x # xs) = (case f x of None \<Rightarrow> None | Some True \<Rightarrow> Some True | Some False \<Rightarrow> any_value f xs)"

text \<open>For the type the values are all evaluated as class names, also after a match.\<close>

definition type_matches :: "lib \<Rightarrow> json \<Rightarrow> string list \<Rightarrow> bool option" where
  "type_matches L v fvs =
     (if list_ex (\<lambda>fv. subClasses L fv = None) fvs then None
      else Some (list_ex (\<lambda>fv. list_ex (\<lambda>c. v = JStr c) (the (subClasses L fv))) fvs))"

definition attribute_matches :: "lib \<Rightarrow> string \<Rightarrow> json \<Rightarrow> json \<Rightarrow> bool option" where
  "attribute_matches L attribute v f =
     (let fvs = forceUnicodeList L f
      in if forceUnicodeList L v = fvs \<or> forceUnicode L v \<in> set fvs then Some True
         else if attribute = ''type'' then type_matches L v fvs
         else any_value (value_matches L v) fvs)"

fun objectHashMatches :: "lib \<Rightarrow> hash \<Rightarrow> hash \<Rightarrow> (backend_error, bool) result" where
  "objectHashMatches L [] f = Inr True"
| "objectHashMatches L ((a, v) # h) f =
     (case map_of f a of
        None \<Rightarrow> objectHashMatches L h f
      | Some x \<Rightarrow>
          if \<not> json_true x then objectHashMatches L h f
          else (case attribute_matches L a v x of
                  None \<Rightarrow> Inl BackendError
                | Some m \<Rightarrow> if m then objectHashMatches L h f else Inr False))"

text \<open>\<open>filter.get(k)\<close> is true; the comprehensions that test each element.\<close>

definition filter_true :: "hash \<Rightarrow> string \<Rightarrow> bool" where
  "filter_true f k = (case map_of f k of Some v \<Rightarrow> json_true v | None \<Rightarrow> False)"

fun filterE :: "('a \<Rightarrow> ('e, bool) result) \<Rightarrow> 'a list \<Rightarrow> ('e, 'a list) result" where
  "filterE p [] = Inr []"
| "filterE p (x # xs) = bindE (p x) (\<lambda>b. bindE (filterE p xs) (\<lambda>ys. Inr (if b then x # ys else ys)))"

text \<open>A filter of plain strings: each attribute named by the filter equals a value given for it.\<close>

definition exact_filter :: "lib \<Rightarrow> hash \<Rightarrow> bool" where
  "exact_filter L f \<longleftrightarrow>
     (\<forall>(a, x) \<in> set f. a \<noteq> ''type'' \<and> (\<exists>s. x = JStr s \<and> operator_of L s = None \<and> CHR ''*'' \<notin> set s))"

definition str_lib :: "lib \<Rightarrow> bool" where
  "str_lib L \<longleftrightarrow> (\<forall>s. forceUnicode L (JStr s) = s)"

lemma matches_exact:
  assumes L: "str_lib L" and f: "exact_filter L f" and d: "distinct (map fst h)"
    and strs: "\<forall>(a, v) \<in> set h. a \<in> fst ` set f \<longrightarrow> (\<exists>s. v = JStr s)"
  shows "objectHashMatches L h f =
    Inr (\<forall>(a, v) \<in> set h. \<forall>s. map_of f a = Some (JStr s) \<and> s \<noteq> [] \<longrightarrow> v = JStr s)"
  using d strs
proof (induction h)
  case (Cons av h)
  obtain a v where av: "av = (a, v)" by (cases av)
  have IH: "objectHashMatches L h f = Inr (\<forall>(a, v) \<in> set h. \<forall>s. map_of f a = Some (JStr s) \<and> s \<noteq> [] \<longrightarrow> v = JStr s)"
    using Cons by auto
  show ?case
  proof (cases "map_of f a")
    case None
    then show ?thesis using IH by (simp add: av)
  next
    case (Some x)
    then obtain s where x: "x = JStr s" "a \<noteq> ''type''" "operator_of L s = None" "CHR ''*'' \<notin> set s"
      using f by (auto simp: exact_filter_def dest!: map_of_SomeD)
    have "a \<in> fst ` set f" using Some map_of_SomeD[of f a x] by force
    then obtain t where t: "v = JStr t" using Cons.prems av by auto
    have u: "forceUnicode L (JStr s) = s" "forceUnicode L (JStr t) = t" using L by (auto simp: str_lib_def)
    have "attribute_matches L a v x = Some (t = s)"
      using x t u by (auto simp: attribute_matches_def forceUnicodeList_def forceList_def value_matches_def is_number_def Let_def)
    then show ?thesis using IH Some x t by (auto simp: av)
  qed
qed simp

section \<open>Options\<close>

text \<open>\<open>BackendOptions\<close>: the changed options over the defaults.\<close>

record options =
  option_defaults :: hash
  option_store :: hash

definition get_option :: "options \<Rightarrow> string \<Rightarrow> json option" where
  "get_option p k = (case map_of (option_store p) k of Some v \<Rightarrow> Some v | None \<Rightarrow> map_of (option_defaults p) k)"

definition set_option :: "string \<Rightarrow> json \<Rightarrow> options \<Rightarrow> options" where
  "set_option k v p = p\<lparr>option_store := AList.update k v (option_store p)\<rparr>"

definition has_key :: "options \<Rightarrow> string \<Rightarrow> bool" where
  "has_key p k \<longleftrightarrow> k \<in> fst ` set (option_defaults p)"

definition option_items :: "options \<Rightarrow> hash" where
  "option_items p = foldl (\<lambda>d (k, v). AList.update k v d) (option_defaults p) (option_store p)"

text \<open>\<open>isinstance(value, self._options[key].__class__)\<close>; a bool is an int.\<close>

fun same_type :: "json \<Rightarrow> json \<Rightarrow> bool" where
  "same_type JNull JNull = True"
| "same_type (JBool _) (JBool _) = True"
| "same_type (JInt _) (JInt _) = True"
| "same_type (JBool _) (JInt _) = True"
| "same_type (JRat _) (JRat _) = True"
| "same_type (JStr _) (JStr _) = True"
| "same_type (JList _) (JList _) = True"
| "same_type (JDict _) (JDict _) = True"
| "same_type _ _ = False"

definition set_one_option :: "string \<times> json \<Rightarrow> options \<Rightarrow> options" where
  "set_one_option kv p =
     (case kv of (k, v) \<Rightarrow>
        if \<not> has_key p k then p
        else case get_option p k of
               Some c \<Rightarrow> if same_type v c then set_option k v p else p
             | None \<Rightarrow> p)"

definition backend_setOptions :: "hash \<Rightarrow> options \<Rightarrow> options" where
  "backend_setOptions new p = foldl (\<lambda>q kv. set_one_option kv q) p new"

definition backend_getOptions :: "options \<Rightarrow> hash" where
  "backend_getOptions p = option_items p"

definition true_option :: "options \<Rightarrow> string \<Rightarrow> bool" where
  "true_option p k = (case get_option p k of Some v \<Rightarrow> json_true v | None \<Rightarrow> False)"

text \<open>A concrete library for the witnesses: texts stand for themselves, the empty list is the only other value.\<close>

definition sample_lib :: lib where
  "sample_lib = \<lparr>forceUnicode = (\<lambda>v. case v of JStr s \<Rightarrow> s | _ \<Rightarrow> []), forceHostId = Some, compareVersions = (\<lambda>_ _ _. None),
     toJson = (\<lambda>v. if v = JList [] then ''[]'' else []), fromJson = (\<lambda>s. if s = ''[]'' then Some (JList []) else None),
     fromHash = (\<lambda>c h. Some \<lparr>o_class = c, o_hash = (if length h = 2 then h @ [(''values'', JNull)] else h), o_generated = False\<rparr>),
     subClasses = (\<lambda>_. None), re_search = (\<lambda>_ _. False), operator_of = (\<lambda>_. None), forceBool = (\<lambda>_. Some True),
     forceProductId = Some, getIdent = (\<lambda>ob. take 2 (o_hash ob)), mergeObject = (\<lambda>_ old new. new)\<rparr>"

end
