(* ===== verification/FileBackend.thy ===== *)
theory FileBackend
  imports Ini Objects
begin

text \<open>
  The file backend, OPSI/Backend/File.py, for the objects it keeps in ini files: configs, config
  states, products on depots and clients, product property states, groups and their members. The
  state is the files with their texts. Host keys, package control files and the audit files are not
  modelled; the directories exist, and the rights of files are left out.
\<close>

section \<open>Files\<close>

datatype path =
    HostKeysPath
  | ConfigPath
  | ProductGroupsPath
  | ClientGroupsPath
  | ClientPath string
  | DepotPath string
  | ProductPath string
  | AuditPath string
  | TemplatePath string

type_synonym files = "(path, string) dict"

definition is_file :: "files \<Rightarrow> path \<Rightarrow> bool" where
  "is_file fs p \<longleftrightarrow> p \<in> fst ` set fs"

definition read_ini :: "files \<Rightarrow> path \<Rightarrow> (backend_error, ini) result" where
  "read_ini fs p =
     (case map_of fs p of
        None \<Rightarrow> Inl OtherError
      | Some t \<Rightarrow> (case ini_parse False t of Inl _ \<Rightarrow> Inl OtherError | Inr cp \<Rightarrow> Inr cp))"

definition client_entries :: "files \<Rightarrow> string list" where
  "client_entries fs = List.map_filter (\<lambda>(p, t). case p of ClientPath e \<Rightarrow> Some e | _ \<Rightarrow> None) fs"

definition depot_entries :: "files \<Rightarrow> string list" where
  "depot_entries fs = List.map_filter (\<lambda>(p, t). case p of DepotPath e \<Rightarrow> Some e | _ \<Rightarrow> None) fs"

section \<open>Escaping\<close>

definition escape :: "string \<Rightarrow> string" where
  "escape s =
     replace_char (CHR ''%'') ''%%'' (replace_char (CHR ''#'') [CHR 0x5C, CHR ''#'']
       (replace_char (CHR '';'') [CHR 0x5C, CHR '';''] (replace_char newline [CHR 0x5C, CHR ''n''] s)))"

definition unescape :: "string \<Rightarrow> string" where
  "unescape s =
     replace_pair (CHR ''%'') (CHR ''%'') ''%'' (replace_pair (CHR 0x5C) (CHR ''#'') ''#''
       (replace_pair (CHR 0x5C) (CHR '';'') '';'' (replace_pair (CHR 0x5C) (CHR ''n'') [newline] s)))"

section \<open>The file of an object\<close>

definition need :: "hash \<Rightarrow> string \<Rightarrow> (backend_error, string) result" where
  "need ident k = (case map_of ident k of Some (JStr s) \<Rightarrow> Inr s | _ \<Rightarrow> Inl KeyError)"

definition ini_name :: "string \<Rightarrow> string" where
  "ini_name i = i @ ''.ini''"

definition host_path :: "string \<Rightarrow> files \<Rightarrow> path" where
  "host_path i fs = (if is_file fs (DepotPath (ini_name i)) then DepotPath (ini_name i) else ClientPath (ini_name i))"

definition group_path :: "string \<Rightarrow> json option \<Rightarrow> (backend_error, path) result" where
  "group_path objType t =
     (if objType = ''ProductGroup'' \<or> (objType = ''Group'' \<and> t = Some (JStr ''ProductGroup'')) then Inr ProductGroupsPath
      else if objType = ''HostGroup'' \<or> (objType = ''Group'' \<and> t = Some (JStr ''HostGroup'')) then Inr ClientGroupsPath
      else Inl BackendUnaccomplishableError)"

definition member_path :: "json option \<Rightarrow> (backend_error, path) result" where
  "member_path t =
     (if t = Some (JStr ''ProductGroup'') then Inr ProductGroupsPath
      else if t = Some (JStr ''HostGroup'') then Inr ClientGroupsPath
      else Inl BackendUnaccomplishableError)"

definition ini_path :: "string \<Rightarrow> hash \<Rightarrow> files \<Rightarrow> (backend_error, path option) result" where
  "ini_path objType ident fs =
     (if objType \<in> {''Config'', ''UnicodeConfig'', ''BoolConfig''} then Inr (Some ConfigPath)
      else if objType = ''OpsiClient'' then bindE (need ident ''id'') (\<lambda>i. Inr (Some (ClientPath (ini_name i))))
      else if objType \<in> {''OpsiDepotserver'', ''OpsiConfigserver''} then
        bindE (need ident ''id'') (\<lambda>i. Inr (Some (DepotPath (ini_name i))))
      else if objType = ''ConfigState'' then bindE (need ident ''objectId'') (\<lambda>i. Inr (Some (host_path i fs)))
      else if objType = ''ProductOnDepot'' then bindE (need ident ''depotId'') (\<lambda>i. Inr (Some (DepotPath (ini_name i))))
      else if objType = ''ProductOnClient'' then bindE (need ident ''clientId'') (\<lambda>i. Inr (Some (ClientPath (ini_name i))))
      else if objType = ''ProductPropertyState'' then bindE (need ident ''objectId'') (\<lambda>i. Inr (Some (host_path i fs)))
      else if objType \<in> {''Group'', ''HostGroup'', ''ProductGroup''} then
        bindE (group_path objType (map_of ident ''type'')) (\<lambda>p. Inr (Some p))
      else if objType = ''ObjectToGroup'' then bindE (member_path (map_of ident ''groupType'')) (\<lambda>p. Inr (Some p))
      else Inr None)"

definition pro_path :: "string \<Rightarrow> hash \<Rightarrow> files \<Rightarrow> (backend_error, path option) result" where
  "pro_path objType ident fs =
     bindE (need ident ''productVersion'') (\<lambda>pv. bindE (need ident ''packageVersion'') (\<lambda>kv.
       let ver = ''_'' @ pv @ ''-'' @ kv
       in if objType = ''LocalbootProduct'' then bindE (need ident ''id'') (\<lambda>i. Inr (Some (ProductPath (i @ ver @ ''.localboot''))))
          else if objType = ''NetbootProduct'' then bindE (need ident ''id'') (\<lambda>i. Inr (Some (ProductPath (i @ ver @ ''.netboot''))))
          else if objType \<in> {''Product'', ''ProductProperty'', ''UnicodeProductProperty'', ''BoolProductProperty'', ''ProductDependency''} then
            bindE (need ident (if objType = ''Product'' then ''id'' else ''productId'')) (\<lambda>i.
              Inr (if is_file fs (ProductPath (i @ ver @ ''.localboot'')) then Some (ProductPath (i @ ver @ ''.localboot''))
                   else if is_file fs (ProductPath (i @ ver @ ''.netboot'')) then Some (ProductPath (i @ ver @ ''.netboot''))
                   else None))
          else Inr None))"

definition audit_path :: "string \<Rightarrow> string \<Rightarrow> hash \<Rightarrow> (backend_error, path option) result" where
  "audit_path objType fileType ident =
     (if fileType = ''sw'' \<and> objType = ''AuditSoftware'' then Inr (Some (AuditPath ''global.sw''))
      else if fileType = ''sw'' \<and> objType = ''AuditSoftwareOnClient'' then
        bindE (need ident ''clientId'') (\<lambda>i. Inr (Some (AuditPath (i @ ''.sw''))))
      else if fileType = ''hw'' \<and> objType = ''AuditHardware'' then Inr (Some (AuditPath ''global.hw''))
      else if fileType = ''hw'' \<and> objType = ''AuditHardwareOnHost'' then
        bindE (need ident ''hostId'') (\<lambda>i. Inr (Some (AuditPath (i @ ''.hw''))))
      else Inr None)"

definition getConfigFile :: "string \<Rightarrow> hash \<Rightarrow> string \<Rightarrow> files \<Rightarrow> (backend_error, path) result" where
  "getConfigFile objType ident fileType fs =
     bindE (if fileType = ''key'' then Inr (Some HostKeysPath)
            else if fileType = ''ini'' then ini_path objType ident fs
            else if fileType = ''pro'' then pro_path objType ident fs
            else audit_path objType fileType ident)
       (\<lambda>p. case p of
          None \<Rightarrow> Inl BackendError
        | Some p \<Rightarrow>
            if objType \<in> {''ConfigState'', ''ProductOnDepot'', ''ProductOnClient'', ''ProductPropertyState''} \<and> \<not> is_file fs p
            then Inl BackendIOError else Inr p)"

section \<open>Where the attributes are kept\<close>

text \<open>A template is the text before a placeholder, the attribute it stands for, and the text after it.\<close>

datatype template = Fixed string | Placed string string string

record mapping =
  m_attribute :: string
  m_section :: template
  m_option :: template
  m_json :: bool

definition mapping_of :: "string \<Rightarrow> template \<Rightarrow> template \<Rightarrow> bool \<Rightarrow> mapping" where
  "mapping_of a s k j = \<lparr>m_attribute = a, m_section = s, m_option = k, m_json = j\<rparr>"

definition config_mappings :: "mapping list" where
  "config_mappings =
     (let sec = Placed [] ''id'' []
      in [mapping_of ''type'' sec (Fixed ''type'') False, mapping_of ''description'' sec (Fixed ''description'') False,
          mapping_of ''editable'' sec (Fixed ''editable'') True, mapping_of ''multiValue'' sec (Fixed ''multivalue'') True,
          mapping_of ''possibleValues'' sec (Fixed ''possiblevalues'') True,
          mapping_of ''defaultValues'' sec (Fixed ''defaultvalues'') True])"

definition configState_mappings :: "mapping list" where
  "configState_mappings = [mapping_of ''values'' (Fixed ''generalconfig'') (Placed [] ''configId'' []) True]"

definition productOnDepot_mappings :: "mapping list" where
  "productOnDepot_mappings =
     (let sec = Placed [] ''productId'' ''-state''
      in [mapping_of ''productType'' sec (Fixed ''producttype'') False, mapping_of ''productVersion'' sec (Fixed ''productversion'') False,
          mapping_of ''packageVersion'' sec (Fixed ''packageversion'') False, mapping_of ''locked'' sec (Fixed ''locked'') False])"

definition productOnClient_mappings :: "mapping list" where
  "productOnClient_mappings =
     (let sec = Placed [] ''productId'' ''-state''; st = Placed [] ''productType'' ''_product_states''
      in [mapping_of ''productType'' sec (Fixed ''producttype'') False, mapping_of ''actionProgress'' sec (Fixed ''actionprogress'') False,
          mapping_of ''productVersion'' sec (Fixed ''productversion'') False,
          mapping_of ''packageVersion'' sec (Fixed ''packageversion'') False,
          mapping_of ''modificationTime'' sec (Fixed ''modificationtime'') False,
          mapping_of ''lastAction'' sec (Fixed ''lastaction'') False, mapping_of ''actionResult'' sec (Fixed ''actionresult'') False,
          mapping_of ''targetConfiguration'' sec (Fixed ''targetconfiguration'') False,
          mapping_of ''installationStatus'' st (Placed [] ''productId'' []) False,
          mapping_of ''actionRequest'' st (Placed [] ''productId'' []) False])"

definition productPropertyState_mappings :: "mapping list" where
  "productPropertyState_mappings =
     [mapping_of ''values'' (Placed [] ''productId'' ''-install'') (Placed [] ''propertyId'' []) True]"

definition group_mappings :: "mapping list" where
  "group_mappings =
     (let sec = Placed [] ''id'' []
      in [mapping_of ''description'' sec (Fixed ''description'') False, mapping_of ''parentGroupId'' sec (Fixed ''parentgroupid'') False,
          mapping_of ''notes'' sec (Fixed ''notes'') False])"

definition objectToGroup_mappings :: "mapping list" where
  "objectToGroup_mappings = [mapping_of ''*'' (Placed [] ''groupId'' []) (Placed [] ''objectId'' []) False]"

definition ini_mappings :: "string \<Rightarrow> mapping list option" where
  "ini_mappings objType =
     (if objType \<in> {''Config'', ''UnicodeConfig'', ''BoolConfig''} then Some config_mappings
      else if objType = ''ConfigState'' then Some configState_mappings
      else if objType = ''ProductOnDepot'' then Some productOnDepot_mappings
      else if objType = ''ProductOnClient'' then Some productOnClient_mappings
      else if objType = ''ProductPropertyState'' then Some productPropertyState_mappings
      else if objType \<in> {''Group'', ''HostGroup'', ''ProductGroup''} then Some group_mappings
      else if objType = ''ObjectToGroup'' then Some objectToGroup_mappings
      else None)"

definition fill :: "lib \<Rightarrow> hash \<Rightarrow> template \<Rightarrow> (backend_error, string) result" where
  "fill L h t =
     (case t of
        Fixed s \<Rightarrow> Inr s
      | Placed a k b \<Rightarrow> (case map_of h k of Some v \<Rightarrow> Inr (a @ forceUnicode L v @ b) | None \<Rightarrow> Inl KeyError))"

definition state_section :: "string \<Rightarrow> string" where
  "state_section s = replace_str ''NetbootProduct'' ''netboot'' (replace_str ''LocalbootProduct'' ''localboot'' s)"

definition section_for :: "lib \<Rightarrow> string \<Rightarrow> hash \<Rightarrow> mapping \<Rightarrow> (backend_error, string) result" where
  "section_for L objType h m =
     bindE (fill L h (m_section m)) (\<lambda>s.
       Inr (case m_section m of Placed _ _ _ \<Rightarrow> if objType = ''ProductOnClient'' then state_section s else s | Fixed _ \<Rightarrow> s))"


section \<open>The identities of the stored objects\<close>

text \<open>\<open>idFilter\<close>: the values given for one attribute, under another name.\<close>

definition id_filter :: "hash \<Rightarrow> string \<Rightarrow> string \<Rightarrow> hash" where
  "id_filter f k k' = (if filter_true f k then [(k', the (map_of f k))] else [])"

text \<open>The hosts whose files are in a directory: entries that end in \<open>.ini\<close> and start with a host id.\<close>

definition entry_host :: "lib \<Rightarrow> string \<Rightarrow> string option" where
  "entry_host L e = (if endswith (lower e) ''.ini'' then forceHostId L (take (length e - 4) e) else None)"

definition require :: "ini \<Rightarrow> string \<Rightarrow> string \<Rightarrow> (backend_error, json) result" where
  "require cp s k = (case ini_get cp s k of Some v \<Rightarrow> Inr (JStr v) | None \<Rightarrow> Inl OtherError)"

definition drop_end :: "nat \<Rightarrow> string \<Rightarrow> string" where
  "drop_end n s = take (length s - n) s"

definition poc_idents :: "string \<Rightarrow> ini \<Rightarrow> (backend_error, hash list) result" where
  "poc_idents hostId cp =
     foldE (\<lambda>s acc. if endswith s ''-state'' then
         bindE (require cp s ''productType'') (\<lambda>t.
           Inr (acc @ [[(''productId'', JStr (drop_end 6 s)), (''productType'', t), (''clientId'', JStr hostId)]]))
       else Inr acc) (sections cp) []"

definition pod_idents :: "string \<Rightarrow> ini \<Rightarrow> (backend_error, hash list) result" where
  "pod_idents hostId cp =
     foldE (\<lambda>s acc. if endswith s ''-state'' then
         bindE (require cp s ''producttype'') (\<lambda>t. bindE (require cp s ''productversion'') (\<lambda>pv. bindE (require cp s ''packageversion'') (\<lambda>kv.
           Inr (acc @ [[(''productId'', JStr (drop_end 6 s)), (''productType'', t), (''productVersion'', pv), (''packageVersion'', kv),
             (''depotId'', JStr hostId)]]))))
       else Inr acc) (sections cp) []"

definition client_idents :: "lib \<Rightarrow> string \<Rightarrow> hash \<Rightarrow> files \<Rightarrow> (backend_error, hash list) result" where
  "client_idents L objType f fs =
     (let idf = (if objType = ''OpsiClient'' then id_filter f ''id'' ''id'' else id_filter f ''clientId'' ''id'')
      in foldE (\<lambda>e acc.
           case entry_host L e of
             None \<Rightarrow> Inr acc
           | Some h \<Rightarrow>
               bindE (if idf = [] then Inr True else objectHashMatches L [(''id'', JStr h)] idf) (\<lambda>m.
                 if \<not> m then Inr acc
                 else if objType = ''ProductOnClient'' then
                   bindE (getConfigFile objType [(''clientId'', JStr h)] ''ini'' fs) (\<lambda>p.
                     bindE (read_ini fs p) (\<lambda>cp. bindE (poc_idents h cp) (\<lambda>is. Inr (acc @ is))))
                 else Inr (acc @ [[(''id'', JStr h)]])))
         (client_entries fs) [])"

definition depot_idents :: "lib \<Rightarrow> string \<Rightarrow> string \<Rightarrow> hash \<Rightarrow> files \<Rightarrow> (backend_error, hash list) result" where
  "depot_idents L serverId objType f fs =
     (let idf = (if objType \<noteq> ''ProductOnDepot'' then id_filter f ''id'' ''id'' else id_filter f ''depotId'' ''id'')
      in foldE (\<lambda>e acc.
           case entry_host L e of
             None \<Rightarrow> Inr acc
           | Some h \<Rightarrow>
               bindE (if idf = [] then Inr True else objectHashMatches L [(''id'', JStr h)] idf) (\<lambda>m.
                 if \<not> m \<or> (objType = ''OpsiConfigserver'' \<and> h \<noteq> serverId) then Inr acc
                 else if objType = ''ProductOnDepot'' then
                   bindE (getConfigFile objType [(''depotId'', JStr h)] ''ini'' fs) (\<lambda>p.
                     bindE (read_ini fs p) (\<lambda>cp. bindE (pod_idents h cp) (\<lambda>is. Inr (acc @ is))))
                 else Inr (acc @ [[(''id'', JStr h)]])))
         (depot_entries fs) [])"

definition state_idents :: "string \<Rightarrow> string \<Rightarrow> ini \<Rightarrow> hash list" where
  "state_idents objType h cp =
     (if objType = ''ConfigState'' then
        (if has_section cp ''generalconfig''
         then map (\<lambda>k. [(''configId'', JStr k), (''objectId'', JStr h)]) (ini_options cp ''generalconfig'') else [])
      else concat (map (\<lambda>s. if endswith s ''-install''
             then map (\<lambda>k. [(''productId'', JStr (drop_end 8 s)), (''propertyId'', JStr k), (''objectId'', JStr h)]) (ini_options cp s)
             else []) (sections cp)))"

text \<open>Config states and product property states of depots, then of clients.\<close>

definition host_state_idents :: "lib \<Rightarrow> string \<Rightarrow> hash \<Rightarrow> files \<Rightarrow> (backend_error, hash list) result" where
  "host_state_idents L objType f fs =
     foldE (\<lambda>(p, e) acc.
         case entry_host L e of
           None \<Rightarrow> Inr acc
         | Some h \<Rightarrow>
             bindE (objectHashMatches L [(''objectId'', JStr h)] f) (\<lambda>m.
               if \<not> m then Inr acc
               else bindE (read_ini fs p) (\<lambda>cp. Inr (acc @ state_idents objType h cp))))
       (map (\<lambda>e. (DepotPath e, e)) (depot_entries fs) @ map (\<lambda>e. (ClientPath e, e)) (client_entries fs)) []"

definition member_ident :: "lib \<Rightarrow> string \<Rightarrow> ini \<Rightarrow> string \<Rightarrow> string \<Rightarrow> hash list" where
  "member_ident L groupType cp s k =
     (if k \<in> {''description'', ''notes'', ''parentgroupid''} then []
      else case ini_get cp s k of
             None \<Rightarrow> []
           | Some v \<Rightarrow>
               (if forceBool L v \<noteq> Some True then []
                else case (if groupType = ''HostGroup'' then forceHostId L k
                           else if groupType = ''ProductGroup'' then forceProductId L k else Some k) of
                       None \<Rightarrow> []
                     | Some i \<Rightarrow> [[(''groupType'', JStr groupType), (''groupId'', JStr s), (''objectId'', JStr i)]]))"

definition group_passes :: "string \<Rightarrow> hash \<Rightarrow> (backend_error, (path \<times> string) list) result" where
  "group_passes objType f =
     (let k = (if objType = ''ObjectToGroup'' then ''groupType'' else ''type'');
          both = [(ProductGroupsPath, ''ProductGroup''), (ClientGroupsPath, ''HostGroup'')]
      in if objType = ''HostGroup'' then Inr [(ClientGroupsPath, ''HostGroup'')]
         else if objType = ''ProductGroup'' then Inr [(ProductGroupsPath, ''ProductGroup'')]
         else if filter_true f k then
           bindE (if objType = ''ObjectToGroup'' then member_path (map_of f k) else group_path objType (map_of f k)) (\<lambda>p.
             case map_of f k of Some (JStr t) \<Rightarrow> Inr [(p, t)] | _ \<Rightarrow> Inl OtherError)
         else Inr both)"

definition group_idents :: "lib \<Rightarrow> string \<Rightarrow> hash \<Rightarrow> files \<Rightarrow> (backend_error, hash list) result" where
  "group_idents L objType f fs =
     bindE (group_passes objType f) (\<lambda>passes.
       foldE (\<lambda>(p, t) acc. bindE (read_ini fs p) (\<lambda>cp.
           Inr (acc @ concat (map (\<lambda>s.
             if objType = ''ObjectToGroup'' then concat (map (member_ident L t cp s) (ini_options cp s))
             else [[(''id'', JStr s), (''type'', JStr t)]]) (sections cp)))))
         passes [])"

definition config_idents :: "files \<Rightarrow> (backend_error, hash list) result" where
  "config_idents fs =
     (if is_file fs ConfigPath
      then bindE (read_ini fs ConfigPath) (\<lambda>cp. Inr (map (\<lambda>s. [(''id'', JStr s)]) (sections cp)))
      else Inr [])"

definition all_idents :: "lib \<Rightarrow> string \<Rightarrow> string \<Rightarrow> hash \<Rightarrow> files \<Rightarrow> (backend_error, hash list) result" where
  "all_idents L serverId objType f fs =
     (if objType \<in> {''Config'', ''UnicodeConfig'', ''BoolConfig''} then config_idents fs
      else if objType \<in> {''OpsiClient'', ''ProductOnClient''} then client_idents L objType f fs
      else if objType \<in> {''OpsiDepotserver'', ''OpsiConfigserver'', ''ProductOnDepot''} then depot_idents L serverId objType f fs
      else if objType \<in> {''ConfigState'', ''ProductPropertyState''} then host_state_idents L objType f fs
      else if objType \<in> {''Group'', ''HostGroup'', ''ProductGroup'', ''ObjectToGroup''} then group_idents L objType f fs
      else Inr [])"

definition getIdents :: "lib \<Rightarrow> string \<Rightarrow> string \<Rightarrow> hash \<Rightarrow> files \<Rightarrow> (backend_error, hash list) result" where
  "getIdents L serverId objType f fs =
     bindE (all_idents L serverId objType f fs) (\<lambda>is.
       if is = [] then Inr []
       else if list_ex (\<lambda>(a, v). filter_true f a) (hd is) then filterE (\<lambda>i. objectHashMatches L i f) is
       else Inr is)"

section \<open>Reading\<close>

definition json_is :: "bool \<Rightarrow> json \<Rightarrow> bool" where
  "json_is b v \<longleftrightarrow> v = JBool b \<or> v = JInt (of_bool b)"

definition type_filter :: "lib \<Rightarrow> string \<Rightarrow> json \<Rightarrow> (backend_error, bool) result" where
  "type_filter L objType v =
     foldE (\<lambda>t m. if m then Inr True
         else case t of
             JStr c \<Rightarrow>
               if c = objType then Inr True
               else (case subClasses L c of
                       None \<Rightarrow> Inl OtherError
                     | Some cs \<Rightarrow>
                         if objType \<in> set cs then Inr True
                         else (case subClasses L objType of None \<Rightarrow> Inl OtherError | Some ds \<Rightarrow> Inr (c \<in> set ds)))
           | _ \<Rightarrow> Inl OtherError)
       (forceList v) False"

text \<open>Section names of older versions are replaced in the file.\<close>

definition move_section :: "string \<Rightarrow> string \<Rightarrow> ini \<Rightarrow> (ini_error, ini) result" where
  "move_section old new cp =
     (if \<not> has_section cp old then Inr cp
      else bindE (if has_section cp new then Inr cp else add_section new cp) (\<lambda>cp1.
             bindE (foldE (\<lambda>k c. ini_set new k (the (ini_get cp1 old k)) c) (ini_options cp1 old) cp1) (\<lambda>cp2.
               Inr (remove_section old cp2))))"

definition migrate :: "path \<Rightarrow> ini \<times> files \<Rightarrow> (backend_error, ini \<times> files) result" where
  "migrate p s =
     (case s of (cp, fs) \<Rightarrow>
        if \<not> has_section cp ''LocalbootProduct_product_states'' \<and> \<not> has_section cp ''NetbootProduct_product_states'' then Inr (cp, fs)
        else case bindE (move_section ''LocalbootProduct_product_states'' ''localboot_product_states'' cp)
                   (move_section ''NetbootProduct_product_states'' ''netboot_product_states'') of
               Inl _ \<Rightarrow> Inl OtherError
             | Inr cp' \<Rightarrow> Inr (cp', AList.update p (ini_generate [] cp') fs))"

definition split_at :: "char \<Rightarrow> string \<Rightarrow> (string \<times> string) option" where
  "split_at c s =
     (if c \<in> set s then Some (takeWhile (\<lambda>x. x \<noteq> c) s, tl (dropWhile (\<lambda>x. x \<noteq> c) s)) else None)"

definition read_value :: "lib \<Rightarrow> string \<Rightarrow> string \<Rightarrow> mapping \<Rightarrow> string \<Rightarrow> (backend_error, json) result" where
  "read_value L objType sec m raw =
     (if m_json m then (case fromJson L raw of Some v \<Rightarrow> Inr v | None \<Rightarrow> Inl OtherError)
      else let v = unescape raw
           in if objType = ''ProductOnClient'' \<and> endswith sec ''_product_states'' then
                (case split_at (CHR '':'') v of
                   None \<Rightarrow> Inl BackendBadValueError
                 | Some (st, rq) \<Rightarrow>
                     Inr (JStr (if m_attribute m = ''installationStatus'' then st
                                else if m_attribute m = ''actionRequest'' then rq else v)))
              else Inr (JStr v))"

definition read_attribute :: "lib \<Rightarrow> string \<Rightarrow> ini \<Rightarrow> mapping \<Rightarrow> hash \<Rightarrow> (backend_error, hash) result" where
  "read_attribute L objType cp m h =
     bindE (section_for L objType h m) (\<lambda>sec. bindE (fill L h (m_option m)) (\<lambda>k.
       case ini_get cp sec k of
         Some raw \<Rightarrow> bindE (read_value L objType sec m raw) (\<lambda>v. Inr (AList.update (m_attribute m) v h))
       | None \<Rightarrow>
           if objType = ''ProductOnClient'' \<and> m_attribute m = ''installationStatus''
           then Inr (AList.update (m_attribute m) (JStr ''not_installed'') h)
           else if objType = ''ProductOnClient'' \<and> m_attribute m = ''actionRequest''
           then Inr (AList.update (m_attribute m) (JStr ''none'') h)
           else Inr h))"

definition adaptObjectHashAttributes :: "hash \<Rightarrow> hash \<Rightarrow> string list \<Rightarrow> hash" where
  "adaptObjectHashAttributes h ident attributes =
     (if attributes = [] then h else filter (\<lambda>(a, v). a \<in> set attributes \<or> a \<in> fst ` set ident) h)"

text \<open>The class of a config and of a group is found from what is stored.\<close>

definition bool_values :: "hash \<Rightarrow> (backend_error, bool) result" where
  "bool_values h =
     (case map_of h ''possibleValues'' of
        Some (JList vs) \<Rightarrow>
          if length vs = 2 \<and> list_ex (json_is True) vs \<and> list_ex (json_is False) vs then
            (case map_of h ''editable'' of
               None \<Rightarrow> Inl KeyError
             | Some e \<Rightarrow> if json_true e then Inr False
                 else (case map_of h ''multiValue'' of None \<Rightarrow> Inl KeyError | Some m \<Rightarrow> Inr (\<not> json_true m)))
          else Inr False
      | _ \<Rightarrow> Inl OtherError)"

definition stored_class :: "string \<Rightarrow> hash \<Rightarrow> hash \<Rightarrow> files \<Rightarrow> (backend_error, string) result" where
  "stored_class objType ident h fs =
     (if objType = ''Config'' \<and> filter_true h ''possibleValues'' then
        bindE (bool_values h) (\<lambda>b. Inr (if b then ''BoolConfig'' else ''UnicodeConfig''))
      else if objType = ''Group'' then
        bindE (getConfigFile objType ident ''ini'' fs) (\<lambda>p. Inr (if p = ClientGroupsPath then ''HostGroup'' else ''ProductGroup''))
      else Inr objType)"

type_synonym read_state = "obj list \<times> (path, ini) dict \<times> files"

definition read_ident :: "lib \<Rightarrow> string \<Rightarrow> string list \<Rightarrow> mapping list \<Rightarrow> hash \<Rightarrow> hash \<Rightarrow> read_state \<Rightarrow> (backend_error, read_state) result" where
  "read_ident L objType attributes ms f ident st =
     (case st of (objs, cache, fs) \<Rightarrow>
        bindE (if ms = [] then Inr (ident, cache, fs)
               else bindE (getConfigFile objType ident ''ini'' fs) (\<lambda>p.
                    bindE (case map_of cache p of Some cp \<Rightarrow> Inr cp | None \<Rightarrow> read_ini fs p) (\<lambda>cp0.
                    bindE (migrate p (cp0, fs)) (\<lambda>(cp, fs').
                    bindE (foldE (read_attribute L objType cp) ms ident) (\<lambda>h. Inr (h, AList.update p cp cache, fs')))))) (\<lambda>(h, cache', fs').
        case fromHash L objType h of
          None \<Rightarrow> Inl OtherError
        | Some ob \<Rightarrow>
            bindE (objectHashMatches L (o_hash ob) f) (\<lambda>m.
              if \<not> m then Inr (objs, cache', fs')
              else bindE (stored_class objType ident h fs') (\<lambda>cls.
                     case fromHash L cls (adaptObjectHashAttributes h ident attributes) of
                       None \<Rightarrow> Inl OtherError
                     | Some ob' \<Rightarrow> Inr (objs @ [ob'], cache', fs')))))"

definition read_objects :: "lib \<Rightarrow> string \<Rightarrow> string \<Rightarrow> string list \<Rightarrow> hash \<Rightarrow> files \<Rightarrow> (backend_error, obj list \<times> files) result" where
  "read_objects L serverId objType attributes f fs =
     bindE (if filter_true f ''type'' then type_filter L objType (the (map_of f ''type'')) else Inr True) (\<lambda>m.
       if \<not> m then Inr ([], fs)
       else case ini_mappings objType of
              None \<Rightarrow> Inl BackendUnaccomplishableError
            | Some ms \<Rightarrow>
                let used = filter (\<lambda>m. attributes = [] \<or> m_attribute m \<in> set attributes \<or> m_attribute m \<in> fst ` set f) ms
                in bindE (getIdents L serverId objType f fs) (\<lambda>is.
                   bindE (foldE (read_ident L objType attributes used f) is ([], [], fs)) (\<lambda>(objs, cache, fs'). Inr (objs, fs'))))"


section \<open>Writing\<close>

datatype write_mode = Create | Update

definition lift_ini :: "(ini_error, 'a) result \<Rightarrow> (backend_error, 'a) result" where
  "lift_ini r = (case r of Inl _ \<Rightarrow> Inl OtherError | Inr a \<Rightarrow> Inr a)"

definition touch_file :: "path \<Rightarrow> files \<Rightarrow> files" where
  "touch_file p fs = (if is_file fs p then fs else fs @ [(p, [])])"

text \<open>What a new object replaces is removed first.\<close>

definition remove_options :: "string \<Rightarrow> string list \<Rightarrow> ini \<Rightarrow> ini" where
  "remove_options s ks cp = foldl (\<lambda>c k. if has_option c s k then remove_option s k c else c) cp ks"

definition option_text :: "mapping \<Rightarrow> string" where
  "option_text m = (case m_option m of Fixed k \<Rightarrow> k | Placed a k b \<Rightarrow> a @ CHR ''<'' # k @ CHR ''>'' # b)"

definition clear_for_create :: "lib \<Rightarrow> mapping list \<Rightarrow> obj \<Rightarrow> ini \<Rightarrow> ini" where
  "clear_for_create L ms ob cp =
     (if o_class ob \<in> {''Config'', ''UnicodeConfig'', ''BoolConfig''} then remove_section (forceUnicode L (attr ob ''id'')) cp
      else if o_class ob \<in> {''Group'', ''HostGroup'', ''ProductGroup''} then
        remove_options (forceUnicode L (attr ob ''id'')) (map option_text ms) cp
      else if o_class ob \<in> {''ProductOnDepot'', ''ProductOnClient''} then
        remove_section (forceUnicode L (attr ob ''productId'') @ ''-state'') cp
      else cp)"

definition mapping_for :: "mapping list \<Rightarrow> string \<Rightarrow> mapping option" where
  "mapping_for ms a =
     (case find (\<lambda>m. m_attribute m = a) ms of Some m \<Rightarrow> Some m | None \<Rightarrow> find (\<lambda>m. m_attribute m = ''*'') ms)"

text \<open>Installation status and action request of a product share one option.\<close>

definition state_value :: "lib \<Rightarrow> string option \<Rightarrow> string \<Rightarrow> json \<Rightarrow> string" where
  "state_value L combined attribute v =
     (let c = (case combined of Some x \<Rightarrow> x | None \<Rightarrow> []);
          (st, rq) = (case split_at (CHR '':'') c of
                        Some p \<Rightarrow> p
                      | None \<Rightarrow> (if c = [] then ''not_installed'' else c, ''none''));
          st' = (if v \<noteq> JNull \<and> attribute = ''installationStatus'' then forceUnicode L v else st);
          rq' = (if v \<noteq> JNull \<and> attribute = ''actionRequest'' then forceUnicode L v else rq)
      in st' @ CHR '':'' # rq')"

definition written_value :: "lib \<Rightarrow> string \<Rightarrow> ini \<Rightarrow> string \<Rightarrow> string \<Rightarrow> string \<Rightarrow> json \<Rightarrow> json" where
  "written_value L objType cp sec k attribute v =
     (if objType = ''ProductOnClient'' \<and> attribute \<in> {''installationStatus'', ''actionRequest''}
      then JStr (state_value L (ini_get cp sec k) attribute v)
      else if objType = ''ObjectToGroup'' then JInt 1
      else v)"

definition value_text :: "lib \<Rightarrow> mapping \<Rightarrow> json \<Rightarrow> string" where
  "value_text L m v = (if m_json m then toJson L v else case v of JStr s \<Rightarrow> escape s | _ \<Rightarrow> forceUnicode L v)"

definition write_attribute :: "lib \<Rightarrow> string \<Rightarrow> hash \<Rightarrow> mapping list \<Rightarrow> write_mode \<Rightarrow> string \<times> json \<Rightarrow> ini \<Rightarrow> (backend_error, ini) result" where
  "write_attribute L objType h ms mode av cp =
     (case av of (a, v) \<Rightarrow>
        if v = JNull \<and> mode = Update then Inr cp
        else case mapping_for ms a of
               None \<Rightarrow> Inr cp
             | Some m \<Rightarrow>
                 bindE (section_for L objType h m) (\<lambda>sec. bindE (fill L h (m_option m)) (\<lambda>k.
                 bindE (if has_section cp sec then Inr cp else lift_ini (add_section sec cp)) (\<lambda>cp1.
                   let w = written_value L objType cp1 sec k a v
                   in if w = JNull then Inr cp1 else lift_ini (ini_set sec k (value_text L m w) cp1)))))"

definition section_sequence :: "string list" where
  "section_sequence = [''info'', ''generalconfig'', ''localboot_product_states'', ''netboot_product_states'']"

definition write_object :: "lib \<Rightarrow> write_mode \<Rightarrow> obj \<Rightarrow> files \<Rightarrow> (backend_error, files) result" where
  "write_object L mode ob fs =
     (case ini_mappings (o_class ob) of
        None \<Rightarrow> Inl BackendUnaccomplishableError
      | Some ms \<Rightarrow>
          bindE (getConfigFile (o_class ob) (getIdent L ob) ''ini'' fs) (\<lambda>p.
            let fs1 = (if mode = Create then touch_file p fs else fs)
            in bindE (read_ini fs1 p) (\<lambda>cp.
               let cp1 = (if mode = Create then clear_for_create L ms ob cp else cp)
               in bindE (foldE (write_attribute L (o_class ob) (o_hash ob) ms mode) (o_hash ob) cp1) (\<lambda>cp2.
                  Inr (AList.update p (ini_generate section_sequence cp2) fs1)))))"

section \<open>Deleting\<close>

text \<open>The files of all objects, each once.\<close>

definition config_files :: "lib \<Rightarrow> obj list \<Rightarrow> files \<Rightarrow> (backend_error, path list) result" where
  "config_files L obs fs =
     foldE (\<lambda>ob ps. bindE (getConfigFile (o_class ob) (getIdent L ob) ''ini'' fs) (\<lambda>p.
         Inr (if p \<in> set ps then ps else ps @ [p]))) obs []"

definition change_file :: "(ini \<Rightarrow> (backend_error, ini) result) \<Rightarrow> path \<Rightarrow> files \<Rightarrow> (backend_error, files) result" where
  "change_file f p fs = bindE (read_ini fs p) (\<lambda>cp. bindE (f cp) (\<lambda>cp'. Inr (AList.update p (ini_generate [] cp') fs)))"

definition base_host :: "path \<Rightarrow> string" where
  "base_host p = (case p of ClientPath e \<Rightarrow> drop_end 4 e | DepotPath e \<Rightarrow> drop_end 4 e | _ \<Rightarrow> [])"

definition drop_config_states :: "lib \<Rightarrow> obj list \<Rightarrow> path \<Rightarrow> ini \<Rightarrow> ini" where
  "drop_config_states L obs p cp =
     foldl (\<lambda>c ob. if attr ob ''objectId'' \<noteq> JStr (base_host p) then c
                    else if has_option c ''generalconfig'' (forceUnicode L (attr ob ''configId''))
                    then remove_option ''generalconfig'' (forceUnicode L (attr ob ''configId'')) c else c) cp obs"

definition drop_product_states :: "lib \<Rightarrow> obj list \<Rightarrow> ini \<Rightarrow> ini" where
  "drop_product_states L obs cp = foldl (\<lambda>c ob. remove_section (forceUnicode L (attr ob ''productId'') @ ''-state'') c) cp obs"

definition drop_configs :: "lib \<Rightarrow> obj list \<Rightarrow> ini \<Rightarrow> ini" where
  "drop_configs L obs cp = foldl (\<lambda>c ob. remove_section (forceUnicode L (attr ob ''id'')) c) cp obs"

definition drop_property_state :: "lib \<Rightarrow> obj \<Rightarrow> ini \<Rightarrow> ini" where
  "drop_property_state L ob cp =
     (let s = forceUnicode L (attr ob ''productId'') @ ''-install''; k = forceUnicode L (attr ob ''propertyId'');
          cp1 = (if has_option cp s k then remove_option s k cp else cp)
      in if has_section cp1 s \<and> ini_options cp1 s = [] then remove_section s cp1 else cp1)"

definition drop_group :: "lib \<Rightarrow> string \<Rightarrow> obj \<Rightarrow> ini \<Rightarrow> (backend_error, ini) result" where
  "drop_group L groupType ob cp =
     (if o_class ob = ''ObjectToGroup'' then
        (if attr ob ''groupType'' \<notin> {JStr ''HostGroup'', JStr ''ProductGroup''} then Inl BackendBadValueError
         else if attr ob ''groupType'' \<noteq> JStr groupType then Inr cp
         else let s = forceUnicode L (attr ob ''groupId''); k = forceUnicode L (attr ob ''objectId'')
              in Inr (if has_option cp s k then remove_option s k cp else cp))
      else if o_class ob \<noteq> groupType then Inr cp
      else Inr (remove_section (forceUnicode L (attr ob ''id'')) cp))"

definition delete_objects :: "lib \<Rightarrow> obj list \<Rightarrow> files \<Rightarrow> (backend_error, files) result" where
  "delete_objects L obs fs =
     (case obs of
        [] \<Rightarrow> Inr fs
      | ob # _ \<Rightarrow>
          (let t = o_class ob
           in if t \<in> {''Config'', ''UnicodeConfig'', ''BoolConfig''} then
                change_file (\<lambda>cp. Inr (drop_configs L obs cp)) ConfigPath fs
              else if t = ''ConfigState'' then
                bindE (config_files L obs fs) (\<lambda>ps. foldE (\<lambda>p. change_file (\<lambda>cp. Inr (drop_config_states L obs p cp)) p) ps fs)
              else if t \<in> {''ProductOnDepot'', ''ProductOnClient''} then
                bindE (config_files L obs fs) (\<lambda>ps. foldE (change_file (\<lambda>cp. Inr (drop_product_states L obs cp))) ps fs)
              else if t = ''ProductPropertyState'' then
                foldE (\<lambda>ob fs. bindE (getConfigFile (o_class ob) (getIdent L ob) ''ini'' fs)
                         (\<lambda>p. change_file (\<lambda>cp. Inr (drop_property_state L ob cp)) p fs)) obs fs
              else if t \<in> {''Group'', ''HostGroup'', ''ProductGroup'', ''ObjectToGroup''} then
                foldE (\<lambda>(p, g). change_file (foldE (drop_group L g) obs) p)
                  [(ProductGroupsPath, ''ProductGroup''), (ClientGroupsPath, ''HostGroup'')] fs
              else Inr fs))"


section \<open>Escaping and unescaping\<close>

fun has_pair :: "char \<Rightarrow> char \<Rightarrow> string \<Rightarrow> bool" where
  "has_pair a b (x # y # s) \<longleftrightarrow> (x = a \<and> y = b) \<or> has_pair a b (y # s)"
| "has_pair a b _ \<longleftrightarrow> False"

text \<open>What each character of the original has become after some of the replacements have been undone.\<close>

definition esc_char :: "char list \<Rightarrow> char \<Rightarrow> string" where
  "esc_char open_chars c =
     (if c \<notin> set open_chars then [c]
      else if c = newline then [CHR 0x5C, CHR ''n''] else if c = CHR ''%'' then ''%%'' else [CHR 0x5C, c])"

lemma escape_chars: "escape s = concat (map (esc_char [newline, CHR '';'', CHR ''#'', CHR ''%'']) s)"
  by (induction s) (auto simp: escape_def replace_char_def esc_char_def newline_def)

lemma replace_pair_Cons:
  "x \<noteq> a \<or> s = [] \<or> hd s \<noteq> b \<Longrightarrow> replace_pair a b r (x # s) = x # replace_pair a b r s"
  by (cases s) auto

definition esc_text :: "char list \<Rightarrow> string \<Rightarrow> string" where
  "esc_text cs s = concat (map (esc_char cs) s)"

lemma esc_text_Cons [simp]: "esc_text cs (c # s) = esc_char cs c @ esc_text cs s" "esc_text cs [] = []"
  by (simp_all add: esc_text_def)

lemma hd_esc_text:
  assumes "esc_text cs s \<noteq> []"
  shows "hd (esc_text cs s) = (if hd s \<in> set cs then (if hd s = CHR ''%'' then CHR ''%'' else CHR 0x5C) else hd s)"
  using assms by (cases s) (auto simp: esc_char_def newline_def)

lemma esc_text_Nil [simp]: "esc_text cs s = [] \<longleftrightarrow> s = []"
  by (cases s) (auto simp: esc_char_def)

lemma undo_newline:
  "\<not> has_pair (CHR 0x5C) (CHR ''n'') s \<Longrightarrow>
     replace_pair (CHR 0x5C) (CHR ''n'') [newline] (esc_text [newline, CHR '';'', CHR ''#'', CHR ''%''] s) =
     esc_text [CHR '';'', CHR ''#'', CHR ''%''] s"
proof (induction s)
  case (Cons c s)
  have "\<not> has_pair (CHR 0x5C) (CHR ''n'') s" using Cons.prems by (cases s) auto
  moreover have "c = CHR 0x5C \<Longrightarrow> s = [] \<or> hd (esc_text [newline, CHR '';'', CHR ''#'', CHR ''%''] s) \<noteq> CHR ''n''"
    using Cons.prems by (cases s) (auto simp: esc_char_def newline_def)
  ultimately show ?case using Cons.IH by (auto simp: esc_char_def newline_def replace_pair_Cons)
qed simp

lemma undo_semicolon:
  "replace_pair (CHR 0x5C) (CHR '';'') '';'' (esc_text [CHR '';'', CHR ''#'', CHR ''%''] s) = esc_text [CHR ''#'', CHR ''%''] s"
proof (induction s)
  case (Cons c s)
  have "s = [] \<or> hd (esc_text [CHR '';'', CHR ''#'', CHR ''%''] s) \<noteq> CHR '';''"
    by (cases s) (auto simp: esc_char_def newline_def)
  then show ?case using Cons.IH by (auto simp: esc_char_def newline_def replace_pair_Cons)
qed simp

lemma undo_hash:
  "replace_pair (CHR 0x5C) (CHR ''#'') ''#'' (esc_text [CHR ''#'', CHR ''%''] s) = esc_text [CHR ''%''] s"
proof (induction s)
  case (Cons c s)
  have "s = [] \<or> hd (esc_text [CHR ''#'', CHR ''%''] s) \<noteq> CHR ''#''"
    by (cases s) (auto simp: esc_char_def newline_def)
  then show ?case using Cons.IH by (auto simp: esc_char_def newline_def replace_pair_Cons)
qed simp

lemma undo_percent: "replace_pair (CHR ''%'') (CHR ''%'') ''%'' (esc_text [CHR ''%''] s) = s"
proof (induction s)
  case (Cons c s)
  show ?case
  proof (cases "c = CHR ''%''")
    case True
    then have "esc_text [CHR ''%''] (c # s) = CHR ''%'' # CHR ''%'' # esc_text [CHR ''%''] s"
      by (simp add: esc_char_def newline_def)
    then show ?thesis using Cons True by simp
  next
    case False
    then have "esc_text [CHR ''%''] (c # s) = c # esc_text [CHR ''%''] s" by (simp add: esc_char_def)
    then show ?thesis using Cons False by (simp only: replace_pair_Cons simp_thms)
  qed
qed simp

lemma count_replace_pair:
  assumes "a \<noteq> c" and "count_list r c = (if b = c then 1 else 0)"
  shows "count_list (replace_pair a b r s) c = count_list s c"
proof (induction "length s" arbitrary: s rule: less_induct)
  case less
  show ?case
  proof (cases "\<exists>x y t. s = x # y # t")
    case True
    then obtain x y t where s: "s = x # y # t" by blast
    have "count_list (replace_pair a b r t) c = count_list t c"
      "count_list (replace_pair a b r (y # t)) c = count_list (y # t) c"
      using less[of t] less[of "y # t"] s by simp_all
    then show ?thesis using assms unfolding s by (cases "x = a \<and> y = b"; cases "y = c"; auto)
  next
    case False
    then show ?thesis by (cases s; cases "tl s") auto
  qed
qed

lemma count_undo_newline:
  "count_list s newline + (if has_pair (CHR 0x5C) (CHR ''n'') s then 1 else 0) \<le>
     count_list (replace_pair (CHR 0x5C) (CHR ''n'') [newline] (esc_text [newline, CHR '';'', CHR ''#'', CHR ''%''] s)) newline"
proof (induction "length s" arbitrary: s rule: less_induct)
  case less
  let ?e = "esc_text [newline, CHR '';'', CHR ''#'', CHR ''%'']" and ?r = "replace_pair (CHR 0x5C) (CHR ''n'') [newline]"
  show ?case
  proof (cases s)
    case (Cons c t)
    have IH: "count_list t newline + (if has_pair (CHR 0x5C) (CHR ''n'') t then 1 else 0) \<le> count_list (?r (?e t)) newline"
      using less[of t] Cons by simp
    show ?thesis
    proof (cases "c = CHR 0x5C \<and> t \<noteq> [] \<and> hd t = CHR ''n''")
      case True
      then obtain u where u: "t = CHR ''n'' # u" by (cases t) auto
      have "count_list u newline + (if has_pair (CHR 0x5C) (CHR ''n'') u then 1 else 0) \<le> count_list (?r (?e u)) newline"
        using less[of u] Cons u by simp
      then show ?thesis using Cons True u by (simp add: esc_char_def newline_def)
    next
      case False
      have "has_pair (CHR 0x5C) (CHR ''n'') s = has_pair (CHR 0x5C) (CHR ''n'') t"
        using Cons False by (cases t) auto
      moreover have "?r (?e s) = (if c \<in> {CHR '';'', CHR ''#'', CHR ''%''} then esc_char [CHR '';'', CHR ''#'', CHR ''%''] c else [c]) @ ?r (?e t)"
      proof (cases "c = CHR 0x5C")
        case True
        then have "t = [] \<or> hd (?e t) \<noteq> CHR ''n''" using False by (cases t) (auto simp: esc_char_def newline_def)
        then show ?thesis using Cons True by (auto simp: esc_char_def newline_def replace_pair_Cons)
      qed (use Cons in \<open>auto simp: esc_char_def newline_def replace_pair_Cons\<close>)
      ultimately show ?thesis using IH Cons by (auto simp: esc_char_def newline_def)
    qed
  qed simp
qed

text \<open>
  A text is read back as it was written exactly when it does not contain a backslash followed by
  the letter n.
\<close>

theorem escape_roundtrip: "unescape (escape s) = s \<longleftrightarrow> \<not> has_pair (CHR 0x5C) (CHR ''n'') s"
proof
  assume "unescape (escape s) = s"
  moreover have "count_list (unescape (escape s)) newline =
      count_list (replace_pair (CHR 0x5C) (CHR ''n'') [newline] (esc_text [newline, CHR '';'', CHR ''#'', CHR ''%''] s)) newline"
    by (simp add: unescape_def escape_chars esc_text_def count_replace_pair newline_def)
  ultimately show "\<not> has_pair (CHR 0x5C) (CHR ''n'') s" using count_undo_newline[of s] by auto
next
  assume "\<not> has_pair (CHR 0x5C) (CHR ''n'') s"
  then show "unescape (escape s) = s"
    unfolding unescape_def escape_chars esc_text_def[symmetric]
    by (simp add: undo_newline undo_semicolon undo_hash undo_percent)
qed

end
