(* ===== verification/FileProducts.thy ===== *)
theory FileProducts
  imports FileBackend
begin

text \<open>
  Products on clients in the file backend: the option shared by installation status and action request,
  and what deleting states of several clients does to their files.
\<close>

section \<open>Status and request\<close>

lemma split_at_first: "c \<notin> set a \<Longrightarrow> split_at c (a @ c # b) = Some (a, b)"
  by (simp add: split_at_def takeWhile_append dropWhile_append)

lemma split_at_cases:
  obtains "split_at c x = None" "c \<notin> set x" | a b where "split_at c x = Some (a, b)" "c \<notin> set a" "x = a @ c # b"
proof (cases "c \<in> set x")
  case True
  let ?a = "takeWhile (\<lambda>y. y \<noteq> c) x" and ?b = "dropWhile (\<lambda>y. y \<noteq> c) x"
  have "?b \<noteq> []" using True by (simp add: dropWhile_eq_Nil_conv)
  moreover have "hd ?b = c" using hd_dropWhile[OF calculation] by simp
  ultimately have "?b = c # tl ?b" by (cases ?b) auto
  then have "x = ?a @ c # tl ?b" by (metis takeWhile_dropWhile_id)
  moreover have "c \<notin> set ?a" by (auto dest: set_takeWhileD)
  ultimately show thesis using that(2)[of ?a "tl ?b"] True by (simp add: split_at_def)
qed (use that(1) in \<open>simp add: split_at_def\<close>)

text \<open>What an option stands for: a text without colon is a status alone.\<close>

definition stored_pair :: "string option \<Rightarrow> string \<times> string" where
  "stored_pair c =
     (case c of
        None \<Rightarrow> (''not_installed'', ''none'')
      | Some x \<Rightarrow> (case split_at (CHR '':'') x of Some p \<Rightarrow> p | None \<Rightarrow> (if x = [] then ''not_installed'' else x, ''none'')))"

lemma stored_pair_fst: "CHR '':'' \<notin> set (fst (stored_pair c))"
proof (cases c)
  case (Some x)
  then show ?thesis by (cases rule: split_at_cases[of "CHR '':''" x]) (auto simp: stored_pair_def)
qed (simp add: stored_pair_def)

lemma state_value_pair:
  "state_value L c attribute v =
     (if v \<noteq> JNull \<and> attribute = ''installationStatus'' then forceUnicode L v else fst (stored_pair c)) @
     CHR '':'' # (if v \<noteq> JNull \<and> attribute = ''actionRequest'' then forceUnicode L v else snd (stored_pair c))"
  by (simp add: state_value_def stored_pair_def split_at_def Let_def split: option.splits prod.splits)

text \<open>
  Writing the installation status of a product leaves the action request that is stored with it, and the
  other way round, whatever the option held before: nothing, a status alone, or both.
\<close>

theorem status_and_request_kept:
  assumes "v \<noteq> JNull" and "CHR '':'' \<notin> set (forceUnicode L v)"
  shows "stored_pair (Some (state_value L c attribute v)) =
     (if attribute = ''installationStatus'' then (forceUnicode L v, snd (stored_pair c))
      else if attribute = ''actionRequest'' then (fst (stored_pair c), forceUnicode L v)
      else stored_pair c)"
  using assms split_at_first[OF assms(2)] split_at_first[OF stored_pair_fst, of c]
  by (simp add: state_value_pair stored_pair_def[of "Some _"])

theorem status_and_request_kept_witness:
  "stored_pair (Some (state_value sample_lib (Some ''installed:setup'') ''actionRequest'' (JStr ''none''))) =
     (if ''actionRequest'' = ''installationStatus'' then (forceUnicode sample_lib (JStr ''none''), snd (stored_pair (Some ''installed:setup'')))
      else if ''actionRequest'' = ''actionRequest'' then (fst (stored_pair (Some ''installed:setup'')), forceUnicode sample_lib (JStr ''none''))
      else stored_pair (Some ''installed:setup''))"
  by (rule status_and_request_kept) (simp_all add: sample_lib_def)

section \<open>Deleting\<close>

lemma drop_states_section:
  assumes "clean_ini cp"
  shows "clean_ini (drop_product_states L obs cp) \<and>
    (has_section (drop_product_states L obs cp) s \<longleftrightarrow>
       has_section cp s \<and> s \<notin> (\<lambda>ob. forceUnicode L (attr ob ''productId'') @ ''-state'') ` set obs)"
  using assms
  by (induction obs arbitrary: cp) (auto simp: drop_product_states_def clean_remove_section)

text \<open>Several files changed one after the other.\<close>

lemma change_files:
  assumes "distinct ps" and "\<And>p. p \<in> set ps \<Longrightarrow> \<exists>cp. read_ini fs p = Inr cp \<and> clean_ini cp"
    and f: "\<And>cp. clean_ini cp \<Longrightarrow> clean_ini (f cp)"
  shows "\<exists>fs'. foldE (change_file (\<lambda>cp. Inr (f cp))) ps fs = Inr fs' \<and>
    (\<forall>p. read_ini fs' p = (if p \<in> set ps then (case read_ini fs p of Inl e \<Rightarrow> Inl e | Inr cp \<Rightarrow> Inr (arranged [] (f cp))) else read_ini fs p))"
  using assms(1,2)
proof (induction ps arbitrary: fs)
  case (Cons q ps)
  obtain cp where cp: "read_ini fs q = Inr cp" "clean_ini cp" using Cons.prems(2)[of q] by auto
  let ?fs1 = "AList.update q (ini_generate [] (f cp)) fs"
  have one: "change_file (\<lambda>cp. Inr (f cp)) q fs = Inr ?fs1" using cp(1) by (simp add: change_file_def)
  have rd: "read_ini ?fs1 p = (if p = q then Inr (arranged [] (f cp)) else read_ini fs p)" for p
    using ini_roundtrip_aux[OF f[OF cp(2)], of "[]"] by (simp add: read_ini_def)
  have "\<exists>cp. read_ini ?fs1 p = Inr cp \<and> clean_ini cp" if "p \<in> set ps" for p
    using Cons.prems that rd by auto
  then obtain fs' where fs': "foldE (change_file (\<lambda>cp. Inr (f cp))) ps ?fs1 = Inr fs'"
      "\<forall>p. read_ini fs' p = (if p \<in> set ps then (case read_ini ?fs1 p of Inl e \<Rightarrow> Inl e | Inr cp \<Rightarrow> Inr (arranged [] (f cp))) else read_ini ?fs1 p)"
    using Cons.IH[of ?fs1] Cons.prems(1) by auto
  have "read_ini fs' p = (if p \<in> set (q # ps) then (case read_ini fs p of Inl e \<Rightarrow> Inl e | Inr cp \<Rightarrow> Inr (arranged [] (f cp))) else read_ini fs p)" for p
    using fs'(2) rd[of p] cp(1) Cons.prems(1) by auto
  then show ?case using one fs'(1) by (intro exI[of _ fs']) simp
qed simp

lemma collect_files:
  assumes "\<And>ob. ob \<in> set obs \<Longrightarrow> getConfigFile (o_class ob) (getIdent L ob) ''ini'' fs = Inr (pf ob)"
  shows "\<exists>ps. config_files L obs fs = Inr ps \<and> distinct ps \<and> set ps = pf ` set obs"
  using assms
proof (induction obs rule: rev_induct)
  case (snoc ob obs)
  then obtain ps where "config_files L obs fs = Inr ps" "distinct ps" "set ps = pf ` set obs" by auto
  then show ?case using snoc.prems[of ob] by (auto simp: config_files_def foldE_append)
qed (simp add: config_files_def)

text \<open>
  Deleting the states of products on several clients removes from the file of each of the clients the
  states of all the products named, those named for another client included: what is deleted for one client
  is lost for the others in the list.
\<close>

theorem deleting_states_of_several_clients:
  assumes "obs \<noteq> []" and "\<forall>ob \<in> set obs. o_class ob = ''ProductOnClient'' \<and> getConfigFile (o_class ob) (getIdent L ob) ''ini'' fs = Inr (pf ob)"
    and "\<forall>ob \<in> set obs. \<exists>cp. read_ini fs (pf ob) = Inr cp \<and> clean_ini cp"
  shows "\<exists>fs'. delete_objects L obs fs = Inr fs' \<and>
    (\<forall>a \<in> set obs. \<exists>cp. read_ini fs' (pf a) = Inr cp \<and> (\<forall>b \<in> set obs. \<not> has_section cp (forceUnicode L (attr b ''productId'') @ ''-state'')))"
proof -
  have "\<And>ob. ob \<in> set obs \<Longrightarrow> getConfigFile (o_class ob) (getIdent L ob) ''ini'' fs = Inr (pf ob)" using assms(2) by blast
  from collect_files[where obs = obs, OF this] obtain ps where ps: "config_files L obs fs = Inr ps" "distinct ps" "set ps = pf ` set obs" by auto
  have "\<And>p. p \<in> set ps \<Longrightarrow> \<exists>cp. read_ini fs p = Inr cp \<and> clean_ini cp" using assms(3) ps(3) by auto
  from change_files[OF ps(2) this, of "drop_product_states L obs"] drop_states_section obtain fs' where
    fs': "foldE (change_file (\<lambda>cp. Inr (drop_product_states L obs cp))) ps fs = Inr fs'"
      "\<forall>p. read_ini fs' p = (if p \<in> set ps then (case read_ini fs p of Inl e \<Rightarrow> Inl e
          | Inr cp \<Rightarrow> Inr (arranged [] (drop_product_states L obs cp))) else read_ini fs p)"
    by blast
  have "\<exists>cp. read_ini fs' (pf a) = Inr cp \<and> (\<forall>b \<in> set obs. \<not> has_section cp (forceUnicode L (attr b ''productId'') @ ''-state''))"
    if a: "a \<in> set obs" for a
  proof -
    obtain cp where cp: "read_ini fs (pf a) = Inr cp" "clean_ini cp" using assms(3) a by blast
    have "read_ini fs' (pf a) = Inr (arranged [] (drop_product_states L obs cp))" using fs'(2) cp(1) ps(3) a by simp
    then show ?thesis using drop_states_section[OF cp(2)] by auto
  qed
  moreover have "delete_objects L obs fs = Inr fs'"
    using assms(1,2) ps(1) fs'(1) by (cases obs) (auto simp: delete_objects_def)
  ultimately show ?thesis by blast
qed

definition two_pocs :: "obj list" where
  "two_pocs =
     [\<lparr>o_class = ''ProductOnClient'', o_hash = [(''productId'', JStr ''p''), (''clientId'', JStr ''pc1'')], o_generated = False\<rparr>,
      \<lparr>o_class = ''ProductOnClient'', o_hash = [(''productId'', JStr ''q''), (''clientId'', JStr ''pc2'')], o_generated = False\<rparr>]"

definition sample_clients :: files where
  "sample_clients =
     (let text = concat (map (\<lambda>l. l @ [newline]) [''[p-state]'', ''producttype = x'', ''[q-state]'', ''producttype = x''])
      in [(ClientPath ''pc1.ini'', text), (ClientPath ''pc2.ini'', text)])"

theorem deleting_states_of_several_clients_witness:
  "\<exists>fs'. delete_objects sample_lib two_pocs sample_clients = Inr fs' \<and>
    (\<forall>a \<in> set two_pocs. \<exists>cp. read_ini fs' (case attr a ''clientId'' of JStr c \<Rightarrow> ClientPath (ini_name c) | _ \<Rightarrow> ConfigPath) = Inr cp \<and>
       (\<forall>b \<in> set two_pocs. \<not> has_section cp (forceUnicode sample_lib (attr b ''productId'') @ ''-state'')))"
proof (rule deleting_states_of_several_clients)
  have "ini_parse False (concat (map (\<lambda>l. l @ [newline]) [''[p-state]'', ''producttype = x'', ''[q-state]'', ''producttype = x''])) =
      Inr [(''p-state'', [(''producttype'', ''x'')]), (''q-state'', [(''producttype'', ''x'')])]"
    by code_simp
  moreover have "clean_ini [(''p-state'', [(''producttype'', ''x'')]), (''q-state'', [(''producttype'', ''x'')])]" by code_simp
  ultimately show "\<forall>ob \<in> set two_pocs. \<exists>cp. read_ini sample_clients (case attr ob ''clientId'' of JStr c \<Rightarrow> ClientPath (ini_name c) | _ \<Rightarrow> ConfigPath) = Inr cp \<and> clean_ini cp"
    by (simp add: two_pocs_def sample_clients_def attr_def read_ini_def ini_name_def Let_def)
qed (simp_all add: two_pocs_def sample_clients_def sample_lib_def attr_def getConfigFile_def ini_path_def need_def is_file_def ini_name_def Let_def)

end
