(* ===== verification/ExtendedBackend.thy ===== *)
theory ExtendedBackend
  imports Objects
begin

text \<open>
  The extended backend, OPSI/Backend/Base/Extended.py: creating, updating and deleting lists of
  objects of every class on top of the backend it extends. Operations return their result or the
  exception together with the state left behind; the backend is a record of its methods, by the prefix
  of their names.
\<close>

section \<open>Operations with a state\<close>

type_synonym ('s, 'a) act = "'s \<Rightarrow> (backend_error, 'a) result \<times> 's"

definition ret :: "'a \<Rightarrow> ('s, 'a) act" where
  "ret a s = (Inr a, s)"

definition fail :: "backend_error \<Rightarrow> ('s, 'a) act" where
  "fail e s = (Inl e, s)"

definition bindS :: "('s, 'a) act \<Rightarrow> ('a \<Rightarrow> ('s, 'b) act) \<Rightarrow> ('s, 'b) act" where
  "bindS m f s = (case m s of (Inl e, s') \<Rightarrow> (Inl e, s') | (Inr a, s') \<Rightarrow> f a s')"

fun foldS :: "('a \<Rightarrow> 'b \<Rightarrow> ('s, 'b) act) \<Rightarrow> 'a list \<Rightarrow> 'b \<Rightarrow> ('s, 'b) act" where
  "foldS f [] b = ret b"
| "foldS f (x # xs) b = bindS (f x b) (foldS f xs)"

lemma act_simps [simp]:
  "ret a s = (Inr a, s)" "fail e s = (Inl e, s)"
  by (simp_all add: ret_def fail_def)

lemma bindS_Inr: "m s = (Inr a, s') \<Longrightarrow> bindS m f s = f a s'"
  by (simp add: bindS_def)

lemma bindS_Inl: "m s = (Inl e, s') \<Longrightarrow> bindS m f s = (Inl e, s')"
  by (simp add: bindS_def)

lemma foldS_append: "foldS f (xs @ ys) b s = bindS (foldS f xs b) (foldS f ys) s"
proof (induction xs arbitrary: b s)
  case (Cons x xs)
  show ?case
  proof (cases "f x b s")
    case (Pair r s')
    then show ?thesis using Cons by (cases r) (simp_all add: bindS_def)
  qed
qed (simp add: bindS_def)

section \<open>The backend that is extended\<close>

text \<open>
  \<open>b_get prefix attributes filter\<close> is \<open><prefix>_getObjects\<close>, and so on. A method that raises is taken to
  leave the state as it was.
\<close>

record 's backend =
  b_get :: "string \<Rightarrow> string list \<Rightarrow> hash \<Rightarrow> 's \<Rightarrow> (backend_error, obj list \<times> 's) result"
  b_insert :: "string \<Rightarrow> obj \<Rightarrow> 's \<Rightarrow> (backend_error, 's) result"
  b_update :: "string \<Rightarrow> obj \<Rightarrow> 's \<Rightarrow> (backend_error, 's) result"
  b_delete :: "string \<Rightarrow> obj list \<Rightarrow> 's \<Rightarrow> (backend_error, 's) result"
  b_setOptions :: "hash \<Rightarrow> 's \<Rightarrow> 's"
  b_getOptions :: "'s \<Rightarrow> hash"

record 's ext =
  e_options :: options
  e_backend :: 's

definition do_get :: "('s \<Rightarrow> (backend_error, obj list \<times> 's) result) \<Rightarrow> ('s ext, obj list) act" where
  "do_get op x = (case op (e_backend x) of Inl e \<Rightarrow> (Inl e, x) | Inr (obs, s) \<Rightarrow> (Inr obs, x\<lparr>e_backend := s\<rparr>))"

definition do_set :: "('s \<Rightarrow> (backend_error, 's) result) \<Rightarrow> ('s ext, unit) act" where
  "do_set op x = (case op (e_backend x) of Inl e \<Rightarrow> (Inl e, x) | Inr s \<Rightarrow> (Inr (), x\<lparr>e_backend := s\<rparr>))"

definition option_on :: "'s ext \<Rightarrow> string \<Rightarrow> bool" where
  "option_on x k = true_option (e_options x) k"

section \<open>Creating and updating lists of objects\<close>

text \<open>
  Most classes return each object as it is stored after its own step; classes with a single identifier
  return them all at the end. \<open>ins\<close> and \<open>upd\<close> store one object, \<open>get\<close> finds the objects an object stands for,
  \<open>has\<close> the objects that decide between update and insert.
\<close>

definition create_each ::
  "(obj \<Rightarrow> ('s ext, unit) act) \<Rightarrow> (obj \<Rightarrow> ('s ext, obj list) act) \<Rightarrow> obj list \<Rightarrow> ('s ext, obj list) act" where
  "create_each ins get obs x =
     foldS (\<lambda>ob res. bindS (ins ob) (\<lambda>_.
         if option_on x ''returnObjectsOnUpdateAndCreate'' then bindS (get ob) (\<lambda>os. ret (res @ os)) else ret res)) obs [] x"

definition update_each ::
  "(obj \<Rightarrow> ('s ext, unit) act) \<Rightarrow> (obj \<Rightarrow> ('s ext, unit) act) \<Rightarrow> (obj \<Rightarrow> ('s ext, obj list) act) \<Rightarrow>
   (obj \<Rightarrow> ('s ext, obj list) act) \<Rightarrow> obj list \<Rightarrow> ('s ext, obj list) act" where
  "update_each ins upd has get obs x =
     foldS (\<lambda>ob res. bindS (has ob) (\<lambda>hs. bindS (if hs \<noteq> [] then upd ob else ins ob) (\<lambda>_.
         if option_on x ''returnObjectsOnUpdateAndCreate'' then bindS (get ob) (\<lambda>os. ret (res @ os)) else ret res))) obs [] x"

definition return_by_id :: "'s backend \<Rightarrow> string \<Rightarrow> obj list \<Rightarrow> ('s ext, obj list) act" where
  "return_by_id B pre obs x =
     (if option_on x ''returnObjectsOnUpdateAndCreate''
      then do_get (b_get B pre [] [(''id'', JList (map (\<lambda>ob. attr ob ''id'') obs))]) x else ret [] x)"

definition create_by_id :: "'s backend \<Rightarrow> string \<Rightarrow> obj list \<Rightarrow> ('s ext, obj list) act" where
  "create_by_id B pre obs =
     bindS (foldS (\<lambda>ob _. do_set (b_insert B pre ob)) obs ()) (\<lambda>_. return_by_id B pre obs)"

definition update_by_id :: "'s backend \<Rightarrow> string \<Rightarrow> obj list \<Rightarrow> ('s ext, obj list) act" where
  "update_by_id B pre obs =
     bindS (foldS (\<lambda>ob _. bindS (do_get (b_get B pre [''id''] [(''id'', attr ob ''id'')])) (\<lambda>hs.
         do_set (if hs \<noteq> [] then b_update B pre ob else b_insert B pre ob))) obs ())
       (\<lambda>_. return_by_id B pre obs)"

text \<open>The filter that asks for the values an object has for some attributes.\<close>

definition filter_by :: "string list \<Rightarrow> obj \<Rightarrow> hash" where
  "filter_by as ob = map (\<lambda>a. (a, attr ob a)) as"

definition plain_create :: "'s backend \<Rightarrow> string \<Rightarrow> string list \<Rightarrow> obj list \<Rightarrow> ('s ext, obj list) act" where
  "plain_create B pre as = create_each (\<lambda>ob. do_set (b_insert B pre ob)) (\<lambda>ob. do_get (b_get B pre [] (filter_by as ob)))"

definition plain_update :: "'s backend \<Rightarrow> string \<Rightarrow> string list \<Rightarrow> string list \<Rightarrow> obj list \<Rightarrow> ('s ext, obj list) act" where
  "plain_update B pre ident as =
     update_each (\<lambda>ob. do_set (b_insert B pre ob)) (\<lambda>ob. do_set (b_update B pre ob))
       (\<lambda>ob. do_get (b_get B pre ident (filter_by as ob))) (\<lambda>ob. do_get (b_get B pre [] (filter_by as ob)))"

section \<open>The classes\<close>

definition host_createObjects :: "'s backend \<Rightarrow> obj list \<Rightarrow> ('s ext, obj list) act" where
  "host_createObjects B = create_by_id B ''host''"

definition host_updateObjects :: "'s backend \<Rightarrow> obj list \<Rightarrow> ('s ext, obj list) act" where
  "host_updateObjects B = update_by_id B ''host''"

definition config_createObjects :: "'s backend \<Rightarrow> obj list \<Rightarrow> ('s ext, obj list) act" where
  "config_createObjects B = create_by_id B ''config''"

definition config_updateObjects :: "'s backend \<Rightarrow> obj list \<Rightarrow> ('s ext, obj list) act" where
  "config_updateObjects B = update_by_id B ''config''"

definition product_createObjects :: "'s backend \<Rightarrow> obj list \<Rightarrow> ('s ext, obj list) act" where
  "product_createObjects B = plain_create B ''product'' [''id'', ''productVersion'', ''packageVersion'']"

definition product_updateObjects :: "'s backend \<Rightarrow> obj list \<Rightarrow> ('s ext, obj list) act" where
  "product_updateObjects B = plain_update B ''product'' [''id''] [''id'', ''productVersion'', ''packageVersion'']"

definition productProperty_createObjects :: "'s backend \<Rightarrow> obj list \<Rightarrow> ('s ext, obj list) act" where
  "productProperty_createObjects B =
     plain_create B ''productProperty'' [''productId'', ''productVersion'', ''packageVersion'', ''propertyId'']"

definition productProperty_updateObjects :: "'s backend \<Rightarrow> obj list \<Rightarrow> ('s ext, obj list) act" where
  "productProperty_updateObjects B =
     plain_update B ''productProperty'' [''productId'', ''productVersion'', ''packageVersion'', ''propertyId'']
       [''productId'', ''productVersion'', ''packageVersion'', ''propertyId'']"

definition productDependency_createObjects :: "'s backend \<Rightarrow> obj list \<Rightarrow> ('s ext, obj list) act" where
  "productDependency_createObjects B =
     plain_create B ''productDependency'' [''productId'', ''productVersion'', ''packageVersion'', ''productAction'', ''requiredProductId'']"

definition productDependency_updateObjects :: "'s backend \<Rightarrow> obj list \<Rightarrow> ('s ext, obj list) act" where
  "productDependency_updateObjects B =
     (let as = [''productId'', ''productVersion'', ''packageVersion'', ''productAction'', ''requiredProductId'']
      in plain_update B ''productDependency'' as as)"

definition group_createObjects :: "'s backend \<Rightarrow> obj list \<Rightarrow> ('s ext, obj list) act" where
  "group_createObjects B = create_by_id B ''group''"

definition group_updateObjects :: "'s backend \<Rightarrow> obj list \<Rightarrow> ('s ext, obj list) act" where
  "group_updateObjects B = update_by_id B ''group''"

definition objectToGroup_createObjects :: "'s backend \<Rightarrow> obj list \<Rightarrow> ('s ext, obj list) act" where
  "objectToGroup_createObjects B = plain_create B ''objectToGroup'' [''groupType'', ''groupId'', ''objectId'']"

definition objectToGroup_updateObjects :: "'s backend \<Rightarrow> obj list \<Rightarrow> ('s ext, obj list) act" where
  "objectToGroup_updateObjects B =
     (let as = [''groupType'', ''groupId'', ''objectId''] in plain_update B ''objectToGroup'' as as)"

definition licenseContract_createObjects :: "'s backend \<Rightarrow> obj list \<Rightarrow> ('s ext, obj list) act" where
  "licenseContract_createObjects B = create_by_id B ''licenseContract''"

definition licenseContract_updateObjects :: "'s backend \<Rightarrow> obj list \<Rightarrow> ('s ext, obj list) act" where
  "licenseContract_updateObjects B = update_by_id B ''licenseContract''"

text \<open>Whether a license exists is asked with two attributes, its own identifier in the filter.\<close>

definition softwareLicense_createObjects :: "'s backend \<Rightarrow> obj list \<Rightarrow> ('s ext, obj list) act" where
  "softwareLicense_createObjects B = create_by_id B ''softwareLicense''"

definition softwareLicense_updateObjects :: "'s backend \<Rightarrow> obj list \<Rightarrow> ('s ext, obj list) act" where
  "softwareLicense_updateObjects B obs =
     bindS (foldS (\<lambda>ob _. bindS (do_get (b_get B ''softwareLicense'' [''id'', ''licenseContractId''] [(''id'', attr ob ''id'')])) (\<lambda>hs.
         do_set (if hs \<noteq> [] then b_update B ''softwareLicense'' ob else b_insert B ''softwareLicense'' ob))) obs ())
       (\<lambda>_. return_by_id B ''softwareLicense'' obs)"

definition licensePool_createObjects :: "'s backend \<Rightarrow> obj list \<Rightarrow> ('s ext, obj list) act" where
  "licensePool_createObjects B = create_by_id B ''licensePool''"

definition licensePool_updateObjects :: "'s backend \<Rightarrow> obj list \<Rightarrow> ('s ext, obj list) act" where
  "licensePool_updateObjects B = update_by_id B ''licensePool''"

definition softwareLicenseToLicensePool_createObjects :: "'s backend \<Rightarrow> obj list \<Rightarrow> ('s ext, obj list) act" where
  "softwareLicenseToLicensePool_createObjects B =
     plain_create B ''softwareLicenseToLicensePool'' [''softwareLicenseId'', ''licensePoolId'']"

definition softwareLicenseToLicensePool_updateObjects :: "'s backend \<Rightarrow> obj list \<Rightarrow> ('s ext, obj list) act" where
  "softwareLicenseToLicensePool_updateObjects B =
     (let as = [''softwareLicenseId'', ''licensePoolId''] in plain_update B ''softwareLicenseToLicensePool'' as as)"

definition licenseOnClient_createObjects :: "'s backend \<Rightarrow> obj list \<Rightarrow> ('s ext, obj list) act" where
  "licenseOnClient_createObjects B = plain_create B ''licenseOnClient'' [''softwareLicenseId'', ''licensePoolId'', ''clientId'']"

definition licenseOnClient_updateObjects :: "'s backend \<Rightarrow> obj list \<Rightarrow> ('s ext, obj list) act" where
  "licenseOnClient_updateObjects B =
     (let as = [''softwareLicenseId'', ''licensePoolId'', ''clientId''] in plain_update B ''licenseOnClient'' as as)"

definition software_ident :: "string list" where
  "software_ident = [''name'', ''version'', ''subVersion'', ''language'', ''architecture'']"

definition auditSoftware_createObjects :: "'s backend \<Rightarrow> obj list \<Rightarrow> ('s ext, obj list) act" where
  "auditSoftware_createObjects B = plain_create B ''auditSoftware'' software_ident"

definition auditSoftware_updateObjects :: "'s backend \<Rightarrow> obj list \<Rightarrow> ('s ext, obj list) act" where
  "auditSoftware_updateObjects B = plain_update B ''auditSoftware'' software_ident software_ident"

text \<open>The license pool is part of the identity asked for, but not of the filter.\<close>

definition auditSoftwareToLicensePool_createObjects :: "'s backend \<Rightarrow> obj list \<Rightarrow> ('s ext, obj list) act" where
  "auditSoftwareToLicensePool_createObjects B = plain_create B ''auditSoftwareToLicensePool'' software_ident"

definition auditSoftwareToLicensePool_updateObjects :: "'s backend \<Rightarrow> obj list \<Rightarrow> ('s ext, obj list) act" where
  "auditSoftwareToLicensePool_updateObjects B =
     plain_update B ''auditSoftwareToLicensePool'' (software_ident @ [''licensePoolId'']) software_ident"

definition auditSoftwareOnClient_createObjects :: "'s backend \<Rightarrow> obj list \<Rightarrow> ('s ext, obj list) act" where
  "auditSoftwareOnClient_createObjects B = plain_create B ''auditSoftwareOnClient'' (software_ident @ [''clientId''])"

definition auditSoftwareOnClient_updateObjects :: "'s backend \<Rightarrow> obj list \<Rightarrow> ('s ext, obj list) act" where
  "auditSoftwareOnClient_updateObjects B =
     plain_update B ''auditSoftwareOnClient'' (software_ident @ [''clientId'']) (software_ident @ [''clientId''])"


section \<open>Deleting\<close>

text \<open>An argument that is None stands for all values; for some classes every false value does.\<close>

definition all_if_none :: "json \<Rightarrow> json" where
  "all_if_none v = (if v = JNull then JList [] else v)"

definition all_if_false :: "json \<Rightarrow> json" where
  "all_if_false v = (if json_true v then v else JList [])"

definition delete_matching :: "'s backend \<Rightarrow> string \<Rightarrow> hash \<Rightarrow> ('s ext, unit) act" where
  "delete_matching B pre f = bindS (do_get (b_get B pre [] f)) (\<lambda>obs. do_set (b_delete B pre obs))"

definition host_delete :: "'s backend \<Rightarrow> json \<Rightarrow> ('s ext, unit) act" where
  "host_delete B i = delete_matching B ''host'' [(''id'', all_if_none i)]"

definition config_delete :: "'s backend \<Rightarrow> json \<Rightarrow> ('s ext, unit) act" where
  "config_delete B i = delete_matching B ''config'' [(''id'', all_if_none i)]"

definition configState_delete :: "'s backend \<Rightarrow> json \<Rightarrow> json \<Rightarrow> ('s ext, unit) act" where
  "configState_delete B configId objectId =
     delete_matching B ''configState'' [(''configId'', all_if_none configId), (''objectId'', all_if_none objectId)]"

definition product_delete :: "'s backend \<Rightarrow> json \<Rightarrow> json \<Rightarrow> json \<Rightarrow> ('s ext, unit) act" where
  "product_delete B i pv kv =
     delete_matching B ''product'' [(''id'', all_if_none i), (''productVersion'', all_if_none pv), (''packageVersion'', all_if_none kv)]"

definition productProperty_delete :: "'s backend \<Rightarrow> json \<Rightarrow> json \<Rightarrow> json \<Rightarrow> json \<Rightarrow> ('s ext, unit) act" where
  "productProperty_delete B i pv kv pp =
     delete_matching B ''productProperty'' [(''productId'', all_if_none i), (''productVersion'', all_if_none pv),
       (''packageVersion'', all_if_none kv), (''propertyId'', all_if_none pp)]"

definition productDependency_delete :: "'s backend \<Rightarrow> json \<Rightarrow> json \<Rightarrow> json \<Rightarrow> json \<Rightarrow> json \<Rightarrow> ('s ext, unit) act" where
  "productDependency_delete B i pv kv pa rq =
     delete_matching B ''productDependency'' [(''productId'', all_if_none i), (''productVersion'', all_if_none pv),
       (''packageVersion'', all_if_none kv), (''productAction'', all_if_none pa), (''requiredProductId'', all_if_none rq)]"

definition productOnDepot_delete :: "'s backend \<Rightarrow> json \<Rightarrow> json \<Rightarrow> json \<Rightarrow> json \<Rightarrow> ('s ext, unit) act" where
  "productOnDepot_delete B i depotId pv kv =
     delete_matching B ''productOnDepot'' [(''productId'', all_if_none i), (''productVersion'', all_if_none pv),
       (''packageVersion'', all_if_none kv), (''depotId'', all_if_none depotId)]"

definition productOnClient_delete :: "'s backend \<Rightarrow> json \<Rightarrow> json \<Rightarrow> ('s ext, unit) act" where
  "productOnClient_delete B i clientId =
     delete_matching B ''productOnClient'' [(''productId'', all_if_none i), (''clientId'', all_if_none clientId)]"

definition productPropertyState_delete :: "'s backend \<Rightarrow> json \<Rightarrow> json \<Rightarrow> json \<Rightarrow> ('s ext, unit) act" where
  "productPropertyState_delete B i pp objectId =
     delete_matching B ''productPropertyState'' [(''productId'', all_if_none i), (''propertyId'', all_if_none pp),
       (''objectId'', all_if_none objectId)]"

definition group_delete :: "'s backend \<Rightarrow> json \<Rightarrow> ('s ext, unit) act" where
  "group_delete B i = delete_matching B ''group'' [(''id'', all_if_none i)]"

definition objectToGroup_delete :: "'s backend \<Rightarrow> json \<Rightarrow> json \<Rightarrow> json \<Rightarrow> ('s ext, unit) act" where
  "objectToGroup_delete B gt g ob =
     delete_matching B ''objectToGroup'' [(''groupType'', all_if_false gt), (''groupId'', all_if_false g), (''objectId'', all_if_false ob)]"

definition licenseContract_delete :: "'s backend \<Rightarrow> json \<Rightarrow> ('s ext, unit) act" where
  "licenseContract_delete B i = delete_matching B ''licenseContract'' [(''id'', all_if_none i)]"

definition softwareLicense_delete :: "'s backend \<Rightarrow> json \<Rightarrow> ('s ext, unit) act" where
  "softwareLicense_delete B i = delete_matching B ''softwareLicense'' [(''id'', all_if_none i)]"

definition licensePool_delete :: "'s backend \<Rightarrow> json \<Rightarrow> ('s ext, unit) act" where
  "licensePool_delete B i = delete_matching B ''licensePool'' [(''id'', all_if_none i)]"

definition softwareLicenseToLicensePool_delete :: "'s backend \<Rightarrow> json \<Rightarrow> json \<Rightarrow> ('s ext, unit) act" where
  "softwareLicenseToLicensePool_delete B i p =
     delete_matching B ''softwareLicenseToLicensePool'' [(''softwareLicenseId'', all_if_false i), (''licensePoolId'', all_if_false p)]"

definition licenseOnClient_delete :: "'s backend \<Rightarrow> json \<Rightarrow> json \<Rightarrow> json \<Rightarrow> ('s ext, unit) act" where
  "licenseOnClient_delete B i p c =
     delete_matching B ''licenseOnClient'' [(''softwareLicenseId'', all_if_none i), (''licensePoolId'', all_if_none p),
       (''clientId'', all_if_none c)]"

definition software_filter :: "json list \<Rightarrow> hash" where
  "software_filter vs = zip software_ident (map all_if_none vs)"

definition auditSoftware_delete :: "'s backend \<Rightarrow> json \<Rightarrow> json \<Rightarrow> json \<Rightarrow> json \<Rightarrow> json \<Rightarrow> ('s ext, unit) act" where
  "auditSoftware_delete B n v sv l a = delete_matching B ''auditSoftware'' (software_filter [n, v, sv, l, a])"

definition auditSoftwareToLicensePool_delete ::
  "'s backend \<Rightarrow> json \<Rightarrow> json \<Rightarrow> json \<Rightarrow> json \<Rightarrow> json \<Rightarrow> json \<Rightarrow> ('s ext, unit) act" where
  "auditSoftwareToLicensePool_delete B n v sv l a p =
     delete_matching B ''auditSoftwareToLicensePool'' (software_filter [n, v, sv, l, a] @ [(''licensePoolId'', all_if_none p)])"

definition auditSoftwareOnClient_delete ::
  "'s backend \<Rightarrow> json \<Rightarrow> json \<Rightarrow> json \<Rightarrow> json \<Rightarrow> json \<Rightarrow> json \<Rightarrow> ('s ext, unit) act" where
  "auditSoftwareOnClient_delete B n v sv l a c =
     delete_matching B ''auditSoftwareOnClient'' (software_filter [n, v, sv, l, a] @ [(''clientId'', all_if_none c)])"

end
