(* ===== verification/ExtendedConfig.thy ===== *)
theory ExtendedConfig
  imports ExtendedBackend "HOL-Library.List_Lexorder" "HOL-Library.Char_ord"
begin

text \<open>
  Config states in the extended backend: the defaults added to what is stored, the checks before a
  state is stored, the depot of each client with its alternatives, and the property states clients
  take from their depot.
\<close>

section \<open>Config states with their defaults\<close>

definition filter_value :: "hash \<Rightarrow> string \<Rightarrow> json \<Rightarrow> json" where
  "filter_value f k d = (case map_of f k of Some v \<Rightarrow> v | None \<Rightarrow> d)"

definition host_getIdents :: "'s backend \<Rightarrow> hash \<Rightarrow> ('s ext, json list) act" where
  "host_getIdents B f = bindS (do_get (b_get B ''host'' [''id''] f)) (\<lambda>hs. ret (map (\<lambda>h. attr h ''id'') hs))"

text \<open>The config states a client lacks, in the order the loops visit them.\<close>

definition missing_states :: "obj list \<Rightarrow> json list \<Rightarrow> (json, json list) dict \<Rightarrow> (obj \<times> json) list" where
  "missing_states configs clientIds css =
     concat (map (\<lambda>c. map (\<lambda>i. (c, i)) (filter (\<lambda>i. attr c ''id'' \<notin> set (dict_list css i)) clientIds)) configs)"

definition default_state :: "lib \<Rightarrow> obj \<times> json \<Rightarrow> obj list \<Rightarrow> (backend_error, obj list) result" where
  "default_state L ci states =
     (case fromHash L ''ConfigState'' [(''configId'', attr (fst ci) ''id''), (''objectId'', snd ci), (''values'', attr (fst ci) ''defaultValues'')] of
        None \<Rightarrow> Inl OtherError
      | Some ob \<Rightarrow> Inr (states @ [ob\<lparr>o_generated := True\<rparr>]))"

definition liftE :: "(backend_error, 'a) result \<Rightarrow> ('s, 'a) act" where
  "liftE r s = (r, s)"

definition configState_getObjects :: "lib \<Rightarrow> 's backend \<Rightarrow> string list \<Rightarrow> hash \<Rightarrow> ('s ext, obj list) act" where
  "configState_getObjects L B attributes f =
     bindS (do_get (b_get B ''configState'' attributes f)) (\<lambda>states x.
       if \<not> option_on x ''addConfigStateDefaults'' then (Inr states, x)
       else bindS (do_get (b_get B ''configState'' [''objectId'', ''configId'']
                    [(''objectId'', filter_value f ''objectId'' (JList [])), (''configId'', filter_value f ''configId'' (JList []))])) (\<lambda>known.
            bindS (host_getIdents B [(''id'', filter_value f ''objectId'' JNull)]) (\<lambda>clientIds.
            bindS (do_get (b_get B ''config'' [] [(''id'', filter_value f ''configId'' JNull)])) (\<lambda>configs.
              let css = group_by (\<lambda>cs. attr cs ''objectId'') (\<lambda>cs. attr cs ''configId'') known
              in liftE (foldE (default_state L) (missing_states configs clientIds css) states)))) x)"

section \<open>Storing config states\<close>

definition list_length :: "json \<Rightarrow> nat option" where
  "list_length v = (case v of JList l \<Rightarrow> Some (length l) | JStr s \<Rightarrow> Some (length s) | JDict d \<Rightarrow> Some (length d) | _ \<Rightarrow> None)"

text \<open>
  The code asks that the default values are \<^emph>\<open>empty\<close> and as many as the values of the state; the loop over
  the values has then nothing to compare.
\<close>

definition configStateMatchesDefault :: "'s backend \<Rightarrow> obj \<Rightarrow> ('s ext, bool) act" where
  "configStateMatchesDefault B cs =
     bindS (do_get (b_get B ''config'' [''defaultValues''] [(''id'', attr cs ''configId'')])) (\<lambda>configs.
       case configs of
         [] \<Rightarrow> ret False
       | c # _ \<Rightarrow>
           if json_true (attr c ''defaultValues'') then ret False
           else (case (list_length (attr c ''defaultValues''), list_length (attr cs ''values'')) of
                   (Some n, Some m) \<Rightarrow>
                     ret (n = m \<and> (case attr cs ''values'' of JList vs \<Rightarrow> vs = [] \<or> set vs \<subseteq> set (forceList (attr c ''defaultValues'')) | _ \<Rightarrow> m = 0))
                 | _ \<Rightarrow> fail OtherError))"

definition depot_config :: string where "depot_config = ''clientconfig.depot.id''"

definition configState_checkValid :: "lib \<Rightarrow> 's backend \<Rightarrow> obj \<Rightarrow> ('s ext, unit) act" where
  "configState_checkValid L B cs =
     (if attr cs ''configId'' \<noteq> JStr depot_config then ret ()
      else case attr cs ''values'' of
             JList (v # _) \<Rightarrow>
               if \<not> json_true v then fail ValueError
               else (case v of
                       JStr d \<Rightarrow>
                         (case forceHostId L d of
                            None \<Rightarrow> fail ValueError
                          | Some i \<Rightarrow>
                              bindS (host_getIdents B [(''type'', JStr ''OpsiDepotserver''), (''id'', JStr i), (''isMasterDepot'', JBool True)])
                                (\<lambda>is. if is = [] then fail ValueError else ret ()))
                     | _ \<Rightarrow> fail ValueError)
           | _ \<Rightarrow> fail ValueError)"

definition configState_insertObject :: "lib \<Rightarrow> 's backend \<Rightarrow> obj \<Rightarrow> ('s ext, unit) act" where
  "configState_insertObject L B cs x =
     bindS (if option_on x ''deleteConfigStateIfDefault'' then configStateMatchesDefault B cs else ret False) (\<lambda>d.
       if d then ret ()
       else bindS (configState_checkValid L B cs) (\<lambda>_. do_set (b_insert B ''configState'' cs))) x"

definition configState_updateObject :: "lib \<Rightarrow> 's backend \<Rightarrow> obj \<Rightarrow> ('s ext, unit) act" where
  "configState_updateObject L B cs x =
     bindS (if option_on x ''deleteConfigStateIfDefault'' then configStateMatchesDefault B cs else ret False) (\<lambda>d.
       if d then do_set (b_delete B ''configState'' [cs])
       else bindS (configState_checkValid L B cs) (\<lambda>_. do_set (b_update B ''configState'' cs))) x"

definition same_state :: "'s backend \<Rightarrow> obj \<Rightarrow> ('s ext, obj list) act" where
  "same_state B cs = do_get (b_get B ''configState'' [] (filter_by [''configId'', ''objectId''] cs))"

definition configState_createObjects :: "lib \<Rightarrow> 's backend \<Rightarrow> obj list \<Rightarrow> ('s ext, obj list) act" where
  "configState_createObjects L B = create_each (configState_insertObject L B) (same_state B)"

definition configState_updateObjects :: "lib \<Rightarrow> 's backend \<Rightarrow> obj list \<Rightarrow> ('s ext, obj list) act" where
  "configState_updateObjects L B =
     update_each (configState_insertObject L B) (configState_updateObject L B)
       (\<lambda>cs. configState_getObjects L B [''configId'', ''objectId''] (filter_by [''configId'', ''objectId''] cs)) (same_state B)"

section \<open>The depot of each client\<close>

record client_depot =
  cd_depotId :: json
  cd_clientId :: json
  cd_alternatives :: "json list"

definition setOptions :: "'s backend \<Rightarrow> hash \<Rightarrow> 's ext \<Rightarrow> 's ext" where
  "setOptions B new x = x\<lparr>e_options := backend_setOptions new (e_options x), e_backend := b_setOptions B new (e_backend x)\<rparr>"

definition getOptions :: "'s backend \<Rightarrow> 's ext \<Rightarrow> hash" where
  "getOptions B x = foldl (\<lambda>d (k, v). AList.update k v d) (backend_getOptions (e_options x)) (b_getOptions B (e_backend x))"

definition force_host_ids :: "lib \<Rightarrow> json \<Rightarrow> (backend_error, json list) result" where
  "force_host_ids L v =
     foldE (\<lambda>i acc. case i of JStr s \<Rightarrow> (case forceHostId L s of Some h \<Rightarrow> Inr (acc @ [JStr h]) | None \<Rightarrow> Inl ValueError) | _ \<Rightarrow> Inl ValueError)
       (forceList v) []"

definition assign_depot :: "json list \<Rightarrow> obj \<Rightarrow> client_depot list \<Rightarrow> (backend_error, client_depot list) result" where
  "assign_depot depotIds cs acc =
     (case attr cs ''values'' of
        JList [] \<Rightarrow> Inr acc
      | JList (d # _) \<Rightarrow>
          if \<not> json_true d \<or> d \<notin> set depotIds then Inr acc
          else Inr (acc @ [\<lparr>cd_depotId = d, cd_clientId = attr cs ''objectId'', cd_alternatives = []\<rparr>])
      | _ \<Rightarrow> Inl OtherError)"

text \<open>What is installed on a depot, as one text: the last object of each product, by product id.\<close>

definition depot_products :: "obj list \<Rightarrow> json \<Rightarrow> (json, obj) dict" where
  "depot_products pods d =
     foldl (\<lambda>acc p. if attr p ''depotId'' = d then AList.update (attr p ''productId'') p acc else acc) [] pods"

definition product_text :: "lib \<Rightarrow> obj \<Rightarrow> string" where
  "product_text L p =
     CHR ''|'' # forceUnicode L (attr p ''productId'') @ '';'' @ forceUnicode L (attr p ''productVersion'') @ '';'' @
     forceUnicode L (attr p ''packageVersion'')"

definition depot_text :: "lib \<Rightarrow> obj list \<Rightarrow> json \<Rightarrow> string" where
  "depot_text L pods d =
     concat (map (product_text L) (sort_key (\<lambda>p. forceUnicode L (attr p ''productId'')) (map snd (depot_products pods d))))"

definition depots_of :: "obj list \<Rightarrow> json list" where
  "depots_of pods = foldl (\<lambda>ds p. if attr p ''depotId'' \<in> set ds then ds else ds @ [attr p ''depotId'']) [] pods"

definition alternative_depots :: "lib \<Rightarrow> obj list \<Rightarrow> json \<Rightarrow> json list" where
  "alternative_depots L pods used =
     filter (\<lambda>d. d \<noteq> used \<and> used \<in> set (depots_of pods) \<and> depot_text L pods d = depot_text L pods used) (depots_of pods)"

definition add_defaults_option :: string where "add_defaults_option = ''addConfigStateDefaults''"

text \<open>The states are read with the option set; it is set back whether this succeeds or not.\<close>

definition with_defaults :: "'s backend \<Rightarrow> ('s ext, 'a) act \<Rightarrow> ('s ext, 'a) act" where
  "with_defaults B m x =
     (let saved = (case map_of (getOptions B x) add_defaults_option of Some v \<Rightarrow> v | None \<Rightarrow> JBool False);
          (r, x') = m (setOptions B [(add_defaults_option, JBool True)] x)
      in (r, setOptions B [(add_defaults_option, saved)] x'))"

definition configState_getClientToDepotserver ::
  "lib \<Rightarrow> 's backend \<Rightarrow> json \<Rightarrow> json \<Rightarrow> bool \<Rightarrow> json \<Rightarrow> ('s ext, client_depot list) act" where
  "configState_getClientToDepotserver L B depotIds clientIds masterOnly productIds =
     bindS (liftE (force_host_ids L depotIds)) (\<lambda>dids.
     bindS (host_getIdents B [(''type'', JStr ''OpsiDepotserver''), (''id'', JList dids)]) (\<lambda>depots.
       if depots = [] then ret []
       else
         bindS (liftE (force_host_ids L clientIds)) (\<lambda>cids.
         bindS (host_getIdents B [(''type'', JStr ''OpsiClient''), (''id'', JList cids)]) (\<lambda>clients.
           if clients = [] then ret []
           else
             bindS (with_defaults B (bindS (configState_getObjects L B [] [(''configId'', JStr depot_config), (''objectId'', JList clients)])
                 (\<lambda>states. liftE (foldE (assign_depot depots) states [])))) (\<lambda>result.
               if masterOnly then ret result
               else bindS (do_get (b_get B ''productOnDepot'' [] [(''productId'', productIds)])) (\<lambda>pods.
                      ret (map (\<lambda>e. e\<lparr>cd_alternatives := alternative_depots L pods (cd_depotId e)\<rparr>) result)))))))"

section \<open>Property states taken from the depot\<close>

definition depot_groups :: "client_depot list \<Rightarrow> (json, json list) dict" where
  "depot_groups cds = group_by cd_depotId cd_clientId cds"

definition states_of_depot :: "lib \<Rightarrow> (json \<Rightarrow> json \<Rightarrow> json list) \<Rightarrow> json list \<Rightarrow> obj list \<Rightarrow> obj list \<Rightarrow> (backend_error, obj list) result" where
  "states_of_depot L known clientIds depotStates acc =
     foldE (\<lambda>(p, c) acc.
         if attr p ''propertyId'' \<in> set (known c (attr p ''productId'')) then Inr acc
         else case fromHash L ''ProductPropertyState'' [(''productId'', attr p ''productId''), (''propertyId'', attr p ''propertyId''),
                  (''objectId'', c), (''values'', attr p ''values'')] of
                None \<Rightarrow> Inl OtherError
              | Some ob \<Rightarrow> Inr (acc @ [ob]))
       (concat (map (\<lambda>p. map (\<lambda>c. (p, c)) clientIds) depotStates)) acc"

definition productPropertyState_getObjects :: "lib \<Rightarrow> 's backend \<Rightarrow> string list \<Rightarrow> hash \<Rightarrow> ('s ext, obj list) act" where
  "productPropertyState_getObjects L B attributes f =
     bindS (do_get (b_get B ''productPropertyState'' attributes f)) (\<lambda>states x.
       if \<not> option_on x ''addProductPropertyStateDefaults'' then (Inr states, x)
       else bindS (configState_getClientToDepotserver L B (JList []) (filter_value f ''objectId'' (JList [])) True (JList [])) (\<lambda>cds.
            bindS (do_get (b_get B ''productPropertyState'' [''objectId'', ''productId'', ''propertyId'']
                (map (\<lambda>k. (k, filter_value f k (JList []))) [''objectId'', ''productId'', ''propertyId'']))) (\<lambda>stored.
              let known = (\<lambda>c p. map (\<lambda>s. attr s ''propertyId'') (filter (\<lambda>s. attr s ''objectId'' = c \<and> attr s ''productId'' = p) stored))
              in foldS (\<lambda>(d, clients) acc.
                     bindS (do_get (b_get B ''productPropertyState'' attributes (AList.update ''objectId'' d f))) (\<lambda>ds.
                       liftE (states_of_depot L known clients ds acc)))
                   (depot_groups cds) states)) x)"

definition productPropertyState_createObjects :: "'s backend \<Rightarrow> obj list \<Rightarrow> ('s ext, obj list) act" where
  "productPropertyState_createObjects B = plain_create B ''productPropertyState'' [''productId'', ''objectId'', ''propertyId'']"

definition productPropertyState_updateObjects :: "lib \<Rightarrow> 's backend \<Rightarrow> obj list \<Rightarrow> ('s ext, obj list) act" where
  "productPropertyState_updateObjects L B =
     update_each (\<lambda>ob. do_set (b_insert B ''productPropertyState'' ob)) (\<lambda>ob. do_set (b_update B ''productPropertyState'' ob))
       (\<lambda>ob. productPropertyState_getObjects L B [''productId'', ''propertyId'', ''objectId'']
          (filter_by [''productId'', ''objectId'', ''propertyId''] ob))
       (\<lambda>ob. do_get (b_get B ''productPropertyState'' [] (filter_by [''productId'', ''objectId'', ''propertyId''] ob)))"

section \<open>Config states as opsicommon builds them\<close>

text \<open>
  An instance of the library for concrete data: ids are written in lower case, values are made a list and sorted.
\<close>

definition value_key :: "json \<Rightarrow> string" where
  "value_key v = (case v of JStr s \<Rightarrow> s | JBool b \<Rightarrow> if b then ''1'' else ''0'' | _ \<Rightarrow> [])"

definition new_config_state :: "hash \<Rightarrow> obj option" where
  "new_config_state h =
     (case (map_of h ''configId'', map_of h ''objectId'') of
        (Some (JStr c), Some (JStr i)) \<Rightarrow>
          Some \<lparr>o_class = ''ConfigState'', o_hash = [(''configId'', JStr (lower c)), (''objectId'', JStr (lower i)),
             (''values'', case map_of h ''values'' of None \<Rightarrow> JNull | Some v \<Rightarrow> if v = JNull then JNull else JList (sort_key value_key (forceList v)))],
             o_generated = False\<rparr>
      | _ \<Rightarrow> None)"

definition state_sample_lib :: lib where
  "state_sample_lib = sample_lib\<lparr>fromHash := (\<lambda>c h. if c = ''ConfigState'' then new_config_state h else fromHash sample_lib c h)\<rparr>"

end
