(* ===== verification/DataBackend.thy ===== *)
theory DataBackend
  imports ExtendedBackend
begin

text \<open>
  The base class of the backends that hold data, OPSI/Backend/Base/ConfigData.py: what a backend checks before
  it stores an object, and what it deletes together with an object. The methods of the concrete backend
  are those of its context, a record of methods as in ExtendedBackend; a method of the base class returns the object it has
  changed. \<open>setDefaults\<close> of opsicommon is the parameter \<open>sd\<close>.
\<close>

section \<open>Calls of the context\<close>

definition ask :: "'s backend \<Rightarrow> string \<Rightarrow> string list \<Rightarrow> hash \<Rightarrow> ('s, obj list) act" where
  "ask B pre as f s = (case b_get B pre as f s of Inl e \<Rightarrow> (Inl e, s) | Inr (obs, s') \<Rightarrow> (Inr obs, s'))"

definition insert_into :: "'s backend \<Rightarrow> string \<Rightarrow> obj \<Rightarrow> ('s, unit) act" where
  "insert_into B pre ob s = (case b_insert B pre ob s of Inl e \<Rightarrow> (Inl e, s) | Inr s' \<Rightarrow> (Inr (), s'))"

definition erase :: "'s backend \<Rightarrow> string \<Rightarrow> obj list \<Rightarrow> ('s, unit) act" where
  "erase B pre obs s = (case b_delete B pre obs s of Inl e \<Rightarrow> (Inl e, s) | Inr s' \<Rightarrow> (Inr (), s'))"

text \<open>\<open>x_deleteObjects(x_getObjects(filter))\<close>\<close>

definition erase_found :: "'s backend \<Rightarrow> string \<Rightarrow> hash \<Rightarrow> ('s, unit) act" where
  "erase_found B pre f = bindS (ask B pre [] f) (erase B pre)"

text \<open>\<open>if not x_getObjects(filter): raise BackendReferentialIntegrityError\<close>\<close>

definition demand :: "'s backend \<Rightarrow> string \<Rightarrow> string list \<Rightarrow> hash \<Rightarrow> ('s, unit) act" where
  "demand B pre as f = bindS (ask B pre as f) (\<lambda>obs. if obs = [] then fail BackendReferentialIntegrityError else ret ())"

definition checked :: "options \<Rightarrow> bool" where
  "checked p = true_option p ''additionalReferentialIntegrityChecks''"

section \<open>Getting objects\<close>

text \<open>\<open>poss\<close> are the attributes of the class; the list of the base class is empty.\<close>

definition testFilterAndAttributes :: "string list \<Rightarrow> string list \<Rightarrow> hash \<Rightarrow> (backend_error, unit) result" where
  "testFilterAndAttributes poss attributes f =
     (if attributes = [] \<and> f = [] then Inr ()
      else if list_all (\<lambda>a. a \<in> set poss) attributes \<and> list_all (\<lambda>(a, v). a \<in> set poss) f then Inr ()
      else Inl BackendBadValueError)"

definition base_getObjects :: "string list \<Rightarrow> string list \<Rightarrow> hash \<Rightarrow> (backend_error, obj list) result" where
  "base_getObjects poss attributes f = bindE (testFilterAndAttributes poss attributes f) (\<lambda>_. Inr [])"

definition base_getHashes :: "'s backend \<Rightarrow> string \<Rightarrow> string list \<Rightarrow> hash \<Rightarrow> ('s, hash list) act" where
  "base_getHashes B pre attributes f = bindS (ask B pre attributes f) (\<lambda>obs. ret (map o_hash obs))"

section \<open>Checks before an object is stored\<close>

definition base_insertObject :: "(obj \<Rightarrow> obj) \<Rightarrow> obj \<Rightarrow> ('s, obj) act" where
  "base_insertObject sd ob = ret (sd ob)"

definition base_configState_insertObject :: "(obj \<Rightarrow> obj) \<Rightarrow> options \<Rightarrow> 's backend \<Rightarrow> obj \<Rightarrow> ('s, obj) act" where
  "base_configState_insertObject sd p B ob =
     (let ob = sd ob
      in if checked p then
           bindS (ask B ''config'' [''id''] []) (\<lambda>configs.
             if attr ob ''configId'' \<notin> set (map (\<lambda>c. attr c ''id'') configs) then fail BackendReferentialIntegrityError else ret ob)
         else ret ob)"

definition product_version_of :: "obj \<Rightarrow> hash" where
  "product_version_of ob =
     [(''id'', attr ob ''productId''), (''productVersion'', attr ob ''productVersion''), (''packageVersion'', attr ob ''packageVersion'')]"

definition demand_product :: "'s backend \<Rightarrow> obj \<Rightarrow> ('s, unit) act" where
  "demand_product B ob = demand B ''product'' [''id'', ''productVersion'', ''packageVersion''] (product_version_of ob)"

definition base_productProperty_insertObject :: "(obj \<Rightarrow> obj) \<Rightarrow> options \<Rightarrow> 's backend \<Rightarrow> obj \<Rightarrow> ('s, obj) act" where
  "base_productProperty_insertObject sd p B ob =
     (let ob = sd ob in if checked p then bindS (demand_product B ob) (\<lambda>_. ret ob) else ret ob)"

definition base_productDependency_insertObject :: "(obj \<Rightarrow> obj) \<Rightarrow> options \<Rightarrow> 's backend \<Rightarrow> obj \<Rightarrow> ('s, obj) act" where
  "base_productDependency_insertObject sd p B ob =
     (let ob = sd ob
      in if \<not> json_true (attr ob ''requiredAction'') \<and> \<not> json_true (attr ob ''requiredInstallationStatus'') then fail BackendBadValueError
         else if checked p then bindS (demand_product B ob) (\<lambda>_. ret ob) else ret ob)"

definition base_productOnDepot_insertObject :: "(obj \<Rightarrow> obj) \<Rightarrow> options \<Rightarrow> 's backend \<Rightarrow> obj \<Rightarrow> ('s, obj) act" where
  "base_productOnDepot_insertObject sd p B ob =
     (let ob = sd ob in if checked p then bindS (demand_product B ob) (\<lambda>_. ret ob) else ret ob)"

definition base_productOnDepot_updateObject :: "options \<Rightarrow> 's backend \<Rightarrow> obj \<Rightarrow> ('s, obj) act" where
  "base_productOnDepot_updateObject p B ob = (if checked p then bindS (demand_product B ob) (\<lambda>_. ret ob) else ret ob)"

definition base_productOnClient_insertObject :: "(obj \<Rightarrow> obj) \<Rightarrow> obj \<Rightarrow> ('s, obj) act" where
  "base_productOnClient_insertObject sd ob =
     (let ob = sd ob
      in if attr ob ''installationStatus'' = JStr ''installed'' then
           (if \<not> json_true (attr ob ''productVersion'') \<or> \<not> json_true (attr ob ''packageVersion'')
            then fail BackendReferentialIntegrityError else ret ob)
         else ret (set_attr ''packageVersion'' JNull (set_attr ''productVersion'' JNull ob)))"

definition base_productPropertyState_insertObject :: "(obj \<Rightarrow> obj) \<Rightarrow> options \<Rightarrow> 's backend \<Rightarrow> obj \<Rightarrow> ('s, obj) act" where
  "base_productPropertyState_insertObject sd p B ob =
     (let ob = sd ob
      in if checked p
         then bindS (demand B ''productProperty'' [''productId'', ''propertyId''] (filter_by [''productId'', ''propertyId''] ob)) (\<lambda>_. ret ob)
         else ret ob)"

definition base_group_insertObject :: "(obj \<Rightarrow> obj) \<Rightarrow> options \<Rightarrow> 's backend \<Rightarrow> obj \<Rightarrow> ('s, obj) act" where
  "base_group_insertObject sd p B ob =
     (let ob = sd ob
      in if checked p \<and> json_true (attr ob ''parentGroupId'')
         then bindS (demand B ''group'' [''id''] [(''id'', attr ob ''parentGroupId'')]) (\<lambda>_. ret ob) else ret ob)"

definition base_softwareLicense_insertObject :: "(obj \<Rightarrow> obj) \<Rightarrow> options \<Rightarrow> 's backend \<Rightarrow> obj \<Rightarrow> ('s, obj) act" where
  "base_softwareLicense_insertObject sd p B ob =
     (let ob = sd ob
      in if \<not> json_true (attr ob ''licenseContractId'') then fail BackendBadValueError
         else if checked p
         then bindS (demand B ''licenseContract'' [''id''] [(''id'', attr ob ''licenseContractId'')]) (\<lambda>_. ret ob) else ret ob)"

definition base_softwareLicenseToLicensePool_insertObject :: "(obj \<Rightarrow> obj) \<Rightarrow> options \<Rightarrow> 's backend \<Rightarrow> obj \<Rightarrow> ('s, obj) act" where
  "base_softwareLicenseToLicensePool_insertObject sd p B ob =
     (let ob = sd ob
      in if checked p
         then bindS (demand B ''softwareLicense'' [''id''] [(''id'', attr ob ''softwareLicenseId'')]) (\<lambda>_.
              bindS (demand B ''licensePool'' [''id''] [(''id'', attr ob ''licensePoolId'')]) (\<lambda>_. ret ob))
         else ret ob)"

text \<open>\<open>hw\<close> are the attributes of each hardware class.\<close>

definition checkHardwareClass :: "(json \<Rightarrow> string list) \<Rightarrow> obj \<Rightarrow> (backend_error, unit) result" where
  "checkHardwareClass hw ob = (if hw (attr ob ''hardwareClass'') = [] then Inl ValueError else Inr ())"

definition base_auditHardware_insertObject :: "(obj \<Rightarrow> obj) \<Rightarrow> (json \<Rightarrow> string list) \<Rightarrow> obj \<Rightarrow> ('s, obj) act" where
  "base_auditHardware_insertObject sd hw ob =
     (\<lambda>s. case checkHardwareClass hw (sd ob) of Inl e \<Rightarrow> (Inl e, s) | Inr _ \<Rightarrow> (Inr (sd ob), s))"

definition base_auditHardwareOnHost_insertObject ::
  "lib \<Rightarrow> (obj \<Rightarrow> obj) \<Rightarrow> (json \<Rightarrow> string list) \<Rightarrow> 's backend \<Rightarrow> obj \<Rightarrow> ('s, obj) act" where
  "base_auditHardwareOnHost_insertObject L sd hw B ob =
     bindS (base_auditHardware_insertObject sd hw ob) (\<lambda>ob.
       case fromHash L ''AuditHardware'' (o_hash ob) of
         None \<Rightarrow> fail OtherError
       | Some a \<Rightarrow> bindS (insert_into B ''auditHardware'' a) (\<lambda>_. ret ob))"

section \<open>What goes with an object\<close>

definition is_client :: "obj \<Rightarrow> bool" where
  "is_client h \<longleftrightarrow> o_class h = ''OpsiClient''"

definition is_depot :: "obj \<Rightarrow> bool" where
  "is_depot h \<longleftrightarrow> o_class h = ''OpsiDepotserver'' \<or> o_class h = ''OpsiConfigserver''"

definition free_licenses :: "'s backend \<Rightarrow> obj \<Rightarrow> ('s, unit) act" where
  "free_licenses B h =
     bindS (ask B ''softwareLicense'' [] [(''boundToHost'', attr h ''id'')]) (\<lambda>ls.
       foldS (\<lambda>l _. insert_into B ''softwareLicense'' (set_attr ''boundToHost'' JNull l)) ls ())"

text \<open>What refers to a host, in the order it is deleted.\<close>

definition host_references :: "obj \<Rightarrow> (string \<times> hash) list" where
  "host_references h =
     (let i = attr h ''id''
      in [(''objectToGroup'', [(''groupType'', JStr ''HostGroup''), (''objectId'', i)])] @
         (if is_client h then [(''productOnClient'', [(''clientId'', i)])]
          else if is_depot h then [(''productOnDepot'', [(''depotId'', i)])] else []) @
         [(''productPropertyState'', [(''objectId'', i)]), (''configState'', [(''objectId'', i)])] @
         (if is_client h then [(''auditSoftwareOnClient'', [(''clientId'', i)])] else []) @
         [(''auditHardwareOnHost'', [(''hostId'', i)])] @
         (if is_client h then [(''licenseOnClient'', [(''clientId'', i)])] else []))"

definition release_host :: "'s backend \<Rightarrow> obj \<Rightarrow> ('s, unit) act" where
  "release_host B h =
     bindS (foldS (\<lambda>(pre, f) _. erase_found B pre f) (host_references h) ()) (\<lambda>_. if is_client h then free_licenses B h else ret ())"

definition base_host_deleteObjects :: "'s backend \<Rightarrow> obj list \<Rightarrow> ('s, unit) act" where
  "base_host_deleteObjects B hosts = foldS (\<lambda>h _. release_host B h) hosts ()"

definition base_config_deleteObjects :: "'s backend \<Rightarrow> obj list \<Rightarrow> ('s, unit) act" where
  "base_config_deleteObjects B configs =
     (if configs = [] then ret ()
      else erase_found B ''configState'' [(''configId'', JList (map (\<lambda>c. attr c ''id'') configs)), (''objectId'', JList [])])"

definition product_filter :: "obj \<Rightarrow> hash" where
  "product_filter p =
     [(''productId'', attr p ''id''), (''productVersion'', attr p ''productVersion''), (''packageVersion'', attr p ''packageVersion'')]"

definition release_product_version :: "'s backend \<Rightarrow> obj \<Rightarrow> ('s, unit) act" where
  "release_product_version B p =
     foldS (\<lambda>pre _. erase_found B pre (product_filter p)) [''productProperty'', ''productDependency'', ''productOnDepot''] ()"

definition release_product :: "'s backend \<Rightarrow> (json \<times> json) list \<Rightarrow> json \<Rightarrow> ('s, unit) act" where
  "release_product B versions i =
     bindS (ask B ''product'' [''id'', ''productVersion'', ''packageVersion''] [(''id'', i)]) (\<lambda>ps.
       if list_all (\<lambda>p. (attr p ''productVersion'', attr p ''packageVersion'') \<in> set versions) ps
       then foldS (\<lambda>(pre, f) _. erase_found B pre f)
              [(''objectToGroup'', [(''groupType'', JStr ''ProductGroup''), (''objectId'', i)]),
               (''productOnClient'', [(''productId'', i)]), (''productPropertyState'', [(''productId'', i)])] ()
       else ret ())"

definition base_product_deleteObjects :: "'s backend \<Rightarrow> obj list \<Rightarrow> ('s, unit) act" where
  "base_product_deleteObjects B products =
     bindS (foldS (\<lambda>p _. release_product_version B p) products ()) (\<lambda>_.
       foldS (\<lambda>(i, versions) _. release_product B versions i)
         (group_by (\<lambda>p. attr p ''id'') (\<lambda>p. (attr p ''productVersion'', attr p ''packageVersion'')) products) ())"

definition base_group_deleteObjects :: "'s backend \<Rightarrow> obj list \<Rightarrow> ('s, unit) act" where
  "base_group_deleteObjects B groups =
     foldS (\<lambda>g _. erase_found B ''objectToGroup'' [(''groupType'', attr g ''type''), (''groupId'', attr g ''id'')]) groups ()"

definition base_softwareLicense_deleteObjects :: "'s backend \<Rightarrow> obj list \<Rightarrow> ('s, unit) act" where
  "base_softwareLicense_deleteObjects B licenses =
     erase_found B ''softwareLicenseToLicensePool'' [(''softwareLicenseId'', JList (map (\<lambda>l. attr l ''id'') licenses))]"

definition base_licensePool_deleteObjects :: "'s backend \<Rightarrow> obj list \<Rightarrow> ('s, unit) act" where
  "base_licensePool_deleteObjects B pools =
     (if pools = [] then ret ()
      else let is = JList (map (\<lambda>p. attr p ''id'') pools)
           in bindS (ask B ''softwareLicenseToLicensePool'' [] [(''licensePoolId'', is)]) (\<lambda>links.
                if links \<noteq> [] then fail BackendReferentialIntegrityError
                else erase_found B ''auditSoftwareToLicensePool''
                       (map (\<lambda>a. (a, JList [])) software_ident @ [(''licensePoolId'', is)])))"

definition base_softwareLicenseToLicensePool_deleteObjects :: "'s backend \<Rightarrow> obj list \<Rightarrow> ('s, unit) act" where
  "base_softwareLicenseToLicensePool_deleteObjects B links =
     (if links = [] then ret ()
      else bindS (ask B ''licenseOnClient'' [] [(''softwareLicenseId'', JList (map (\<lambda>l. attr l ''softwareLicenseId'') links))]) (\<lambda>used.
             if used \<noteq> [] then fail BackendReferentialIntegrityError else ret ()))"

end
