(* ===== verification/ConfigStateFiles.thy ===== *)
theory ConfigStateFiles
  imports FileBackend DataBackend
begin

text \<open>
  Config states in the file backend as a store of objects: what a store of objects of one class
  promises to the extended backend (the locale), and that inserting, updating, deleting and finding
  config states in the files keep this promise.
\<close>

section \<open>The promise\<close>

text \<open>
  \<open>getObjects ob\<close> gets the objects with the identity of \<open>ob\<close>; \<open>content\<close> is what is stored under each identity,
  \<open>merge old new\<close> what an update leaves; \<open>ok s ob\<close> says that the store can hold the object.
\<close>

locale object_store =
  fixes insertObject :: "obj \<Rightarrow> 's \<Rightarrow> (backend_error, 's) result"
    and updateObject :: "obj \<Rightarrow> 's \<Rightarrow> (backend_error, 's) result"
    and deleteObjects :: "obj list \<Rightarrow> 's \<Rightarrow> (backend_error, 's) result"
    and getObjects :: "obj \<Rightarrow> 's \<Rightarrow> (backend_error, obj list \<times> 's) result"
    and ident :: "obj \<Rightarrow> 'k"
    and content :: "'s \<Rightarrow> 'k \<Rightarrow> obj option"
    and merge :: "obj \<Rightarrow> obj \<Rightarrow> obj"
    and inv :: "'s \<Rightarrow> bool"
    and ok :: "'s \<Rightarrow> obj \<Rightarrow> bool"
  assumes insert_law: "inv s \<Longrightarrow> ok s ob \<Longrightarrow>
      \<exists>s'. insertObject ob s = Inr s' \<and> inv s' \<and> content s' = (content s)(ident ob \<mapsto> ob) \<and> ok s' = ok s"
    and update_law: "inv s \<Longrightarrow> ok s ob \<Longrightarrow> content s (ident ob) = Some old \<Longrightarrow>
      \<exists>s'. updateObject ob s = Inr s' \<and> inv s' \<and> content s' = (content s)(ident ob \<mapsto> merge old ob) \<and> ok s' = ok s"
    and delete_law: "inv s \<Longrightarrow> \<forall>ob \<in> set obs. ok s ob \<Longrightarrow>
      \<exists>s'. deleteObjects obs s = Inr s' \<and> inv s' \<and> (\<forall>k. content s' k = (if k \<in> ident ` set obs then None else content s k)) \<and> ok s' = ok s"
    and get_law: "inv s \<Longrightarrow> ok s ob \<Longrightarrow>
      getObjects ob s = Inr (case content s (ident ob) of None \<Rightarrow> [] | Some old \<Rightarrow> [old], s)"

section \<open>Config states\<close>

definition config_state :: "string \<Rightarrow> string \<Rightarrow> json \<Rightarrow> obj" where
  "config_state c h v = \<lparr>o_class = ''ConfigState'', o_hash = [(''configId'', JStr c), (''objectId'', JStr h), (''values'', v)], o_generated = False\<rparr>"

text \<open>What is used of opsicommon: strings stay strings, and a config state is identified by its configuration and its host.\<close>

definition config_state_lib :: "lib \<Rightarrow> bool" where
  "config_state_lib L \<longleftrightarrow> str_lib L \<and>
     (\<forall>c h v. getIdent L (config_state c h v) = [(''configId'', JStr c), (''objectId'', JStr h)])"

text \<open>
  A config state as opsicommon builds it: its ids have been put into lower case and its values been made a
  list, so that building it again from its attributes, or from its identity alone, changes nothing.
\<close>

definition built_state :: "lib \<Rightarrow> string \<Rightarrow> string \<Rightarrow> json \<Rightarrow> bool" where
  "built_state L c h v \<longleftrightarrow>
     fromHash L ''ConfigState'' [(''configId'', JStr c), (''objectId'', JStr h), (''values'', v)] = Some (config_state c h v) \<and>
     fromHash L ''ConfigState'' [(''configId'', JStr c), (''objectId'', JStr h)] = Some (config_state c h JNull)"

definition stored_value :: "lib \<Rightarrow> string \<Rightarrow> string \<Rightarrow> string \<Rightarrow> bool" where
  "stored_value L h k t \<longleftrightarrow> (\<exists>v. fromJson L t = Some v \<and> built_state L k h v)"

definition plain_name :: "lib \<Rightarrow> string \<Rightarrow> bool" where
  "plain_name L s \<longleftrightarrow> s \<noteq> [] \<and> operator_of L s = None \<and> CHR ''*'' \<notin> set s"

definition clean_file :: "lib \<Rightarrow> string \<Rightarrow> string \<Rightarrow> bool" where
  "clean_file L h t \<longleftrightarrow>
     (case ini_parse False t of
        Inl _ \<Rightarrow> False
      | Inr cp \<Rightarrow> clean_ini cp \<and> \<not> has_section cp ''LocalbootProduct_product_states'' \<and> \<not> has_section cp ''NetbootProduct_product_states'' \<and>
          (\<forall>k \<in> set (ini_options cp ''generalconfig''). stored_value L h k (the (ini_get cp ''generalconfig'' k))))"

definition host_listed :: "files \<Rightarrow> string \<Rightarrow> bool" where
  "host_listed fs h \<longleftrightarrow> is_file fs (DepotPath (ini_name h)) \<or> is_file fs (ClientPath (ini_name h))"

definition files_inv :: "lib \<Rightarrow> files \<Rightarrow> bool" where
  "files_inv L fs \<longleftrightarrow> distinct (map fst fs) \<and>
     (\<forall>p t. map_of fs p = Some t \<longrightarrow>
        (case p of
           ClientPath e \<Rightarrow> \<exists>h. e = ini_name h \<and> forceHostId L h = Some h \<and> \<not> is_file fs (DepotPath e) \<and> clean_file L h t
         | DepotPath e \<Rightarrow> \<exists>h. e = ini_name h \<and> forceHostId L h = Some h \<and> clean_file L h t
         | _ \<Rightarrow> True))"

definition state_ok :: "lib \<Rightarrow> files \<Rightarrow> obj \<Rightarrow> bool" where
  "state_ok L fs ob \<longleftrightarrow>
     (\<exists>c h v. ob = config_state c h v \<and> plain_name L c \<and> plain_name L h \<and> host_listed fs h \<and> v \<noteq> JNull \<and>
        clean_option c (toJson L v) \<and> fromJson L (toJson L v) = Some v \<and> built_state L c h v)"

definition state_ident :: "obj \<Rightarrow> json \<times> json" where
  "state_ident ob = (attr ob ''configId'', attr ob ''objectId'')"

definition state_text :: "files \<Rightarrow> string \<Rightarrow> string \<Rightarrow> string option" where
  "state_text fs c h =
     (if lower c = c \<and> host_listed fs h then
        (case read_ini fs (host_path h fs) of Inl _ \<Rightarrow> None | Inr cp \<Rightarrow> ini_get cp ''generalconfig'' c)
      else None)"

fun state_content :: "lib \<Rightarrow> files \<Rightarrow> json \<times> json \<Rightarrow> obj option" where
  "state_content L fs (JStr c, JStr h) =
     (case state_text fs c h of None \<Rightarrow> None | Some t \<Rightarrow> map_option (config_state c h) (fromJson L t))"
| "state_content L fs _ = None"

section \<open>Finding a config state\<close>

definition state_filter :: "string \<Rightarrow> string \<Rightarrow> hash" where
  "state_filter c h = [(''configId'', JStr c), (''objectId'', JStr h)]"

lemma state_filter_exact: "plain_name L c \<Longrightarrow> plain_name L h \<Longrightarrow> exact_filter L (state_filter c h)"
  by (auto simp: exact_filter_def state_filter_def plain_name_def)

lemma match_host:
  assumes "str_lib L" and "plain_name L c" and "plain_name L h"
  shows "objectHashMatches L [(''objectId'', JStr h')] (state_filter c h) = Inr (h' = h)"
  using matches_exact[OF assms(1) state_filter_exact[OF assms(2,3)], of "[(''objectId'', JStr h')]"] assms(3)
  by (auto simp: state_filter_def plain_name_def)

lemma match_state:
  assumes "str_lib L" and "plain_name L c" and "plain_name L h"
  shows "objectHashMatches L ((''configId'', JStr c') # (''objectId'', JStr h') # (if b then [(''values'', v)] else [])) (state_filter c h) =
    Inr (c' = c \<and> h' = h)"
  using matches_exact[OF assms(1) state_filter_exact[OF assms(2,3)],
      of "(''configId'', JStr c') # (''objectId'', JStr h') # (if b then [(''values'', v)] else [])"] assms(2,3)
  by (auto simp: state_filter_def plain_name_def split: if_splits)

lemma entry_host_ini: "forceHostId L h = Some h \<Longrightarrow> entry_host L (ini_name h) = Some h"
  by (simp add: entry_host_def ini_name_def endswith_def startswith_def lower_def to_lower_def Let_def)

definition host_entries :: "files \<Rightarrow> (path \<times> string) list" where
  "host_entries fs = map (\<lambda>e. (DepotPath e, e)) (depot_entries fs) @ map (\<lambda>e. (ClientPath e, e)) (client_entries fs)"

lemma set_entries: "set (client_entries fs) = {e. is_file fs (ClientPath e)}" "set (depot_entries fs) = {e. is_file fs (DepotPath e)}"
  by (force simp: client_entries_def depot_entries_def is_file_def List.map_filter_def split: path.splits)+

lemma distinct_entries:
  assumes "distinct (map fst fs)"
  shows "distinct (client_entries fs)" "distinct (depot_entries fs)"
  using assms
proof (induction fs)
  case (Cons pt fs)
  obtain p t where pt: "pt = (p, t)" by (cases pt)
  {
    case 1
    then show ?case using Cons pt set_entries(1)[of fs]
      by (cases p) (auto simp: client_entries_def List.map_filter_def is_file_def)
  next
    case 2
    then show ?case using Cons pt set_entries(2)[of fs]
      by (cases p) (auto simp: depot_entries_def List.map_filter_def is_file_def)
  }
qed (simp_all add: client_entries_def depot_entries_def List.map_filter_def)

lemma distinct_host_entries: "distinct (map fst fs) \<Longrightarrow> distinct (host_entries fs)"
  by (auto simp: host_entries_def distinct_map distinct_entries inj_on_def)

lemma clean_fileE:
  assumes "clean_file L h t"
  obtains cp where "ini_parse False t = Inr cp" "clean_ini cp" "\<not> has_section cp ''LocalbootProduct_product_states''"
    "\<not> has_section cp ''NetbootProduct_product_states''"
    "\<And>k. k \<in> set (ini_options cp ''generalconfig'') \<Longrightarrow> stored_value L h k (the (ini_get cp ''generalconfig'' k))"
  using assms by (auto simp: clean_file_def split: sum.splits)

text \<open>Every file of a host is listed under the host's name and is clean.\<close>

lemma host_entryE:
  assumes inv: "files_inv L fs" and m: "(p, e) \<in> set (host_entries fs)"
  obtains h t where "e = ini_name h" "forceHostId L h = Some h" "p = host_path h fs" "host_listed fs h" "map_of fs p = Some t" "clean_file L h t"
proof -
  have d: "distinct (map fst fs)" using inv by (simp add: files_inv_def)
  from m have pe: "p = DepotPath e \<or> p = ClientPath e" and f: "is_file fs p"
    by (auto simp: host_entries_def set_entries)
  then obtain t where t: "map_of fs p = Some t" by (metis is_file_def map_of_eq_None_iff not_None_eq)
  from inv t have "case p of
           ClientPath e \<Rightarrow> \<exists>h. e = ini_name h \<and> forceHostId L h = Some h \<and> \<not> is_file fs (DepotPath e) \<and> clean_file L h t
         | DepotPath e \<Rightarrow> \<exists>h. e = ini_name h \<and> forceHostId L h = Some h \<and> clean_file L h t
         | _ \<Rightarrow> True"
    unfolding files_inv_def by blast
  then show thesis using pe f that[of _ t] t by (auto simp: host_path_def host_listed_def)
qed

lemma host_listed_entry: "host_listed fs h \<Longrightarrow> (host_path h fs, ini_name h) \<in> set (host_entries fs)"
  by (auto simp: host_listed_def host_path_def host_entries_def set_entries)

lemma ini_name_inj [simp]: "ini_name a = ini_name b \<longleftrightarrow> a = b"
  by (simp add: ini_name_def)

lemma listed_file:
  assumes "files_inv L fs" and "host_listed fs h"
  obtains t where "map_of fs (host_path h fs) = Some t" "clean_file L h t"
proof -
  obtain h' t where "ini_name h = ini_name h'" "map_of fs (host_path h fs) = Some t" "clean_file L h' t"
    by (rule host_entryE[OF assms(1) host_listed_entry[OF assms(2)]])
  then show thesis using that[of t] by simp
qed

lemma listed_states:
  assumes L: "str_lib L" and inv: "files_inv L fs" and n: "plain_name L c" "plain_name L h" and l: "host_listed fs h"
    and cp: "read_ini fs (host_path h fs) = Inr cp"
  shows "host_state_idents L ''ConfigState'' (state_filter c h) fs = Inr (state_idents ''ConfigState'' h cp)"
proof -
  let ?r = "\<lambda>(p, e). if e = ini_name h then state_idents ''ConfigState'' h cp else []"
  have "host_state_idents L ''ConfigState'' (state_filter c h) fs = Inr ([] @ concat (map ?r (host_entries fs)))"
    unfolding host_state_idents_def host_entries_def[symmetric]
  proof (rule foldE_collect)
    fix x :: "path \<times> string" and a :: "hash list"
    assume x: "x \<in> set (host_entries fs)"
    obtain p e where pe: "x = (p, e)" by (cases x)
    obtain h' where h': "e = ini_name h'" "forceHostId L h' = Some h'" "p = host_path h' fs"
      using host_entryE[OF inv] x pe by metis
    show "(case x of (p, e) \<Rightarrow> \<lambda>acc. case entry_host L e of None \<Rightarrow> Inr acc
        | Some h' \<Rightarrow> bindE (objectHashMatches L [(''objectId'', JStr h')] (state_filter c h)) (\<lambda>m.
            if \<not> m then Inr acc else bindE (read_ini fs p) (\<lambda>cp. Inr (acc @ state_idents ''ConfigState'' h' cp)))) a = Inr (a @ ?r x)"
      using h' pe cp match_host[OF L n] entry_host_ini[OF h'(2)] by auto
  qed
  also have "concat (map ?r (host_entries fs)) = ?r (host_path h fs, ini_name h)"
  proof (rule concat_map_single)
    show "distinct (host_entries fs)" using inv by (simp add: files_inv_def distinct_host_entries)
    show "(host_path h fs, ini_name h) \<in> set (host_entries fs)" by (rule host_listed_entry[OF l])
    show "?r y = []" if y: "y \<in> set (host_entries fs)" "y \<noteq> (host_path h fs, ini_name h)" for y
    proof -
      obtain p e where pe: "y = (p, e)" by (cases y)
      obtain h' where h': "e = ini_name h'" "p = host_path h' fs" using host_entryE[OF inv] y(1) pe by metis
      then show ?thesis using y(2) pe by auto
    qed
  qed
  finally show ?thesis by simp
qed


lemma filterE_total: "(\<And>x. x \<in> set xs \<Longrightarrow> p x = Inr (q x)) \<Longrightarrow> filterE p xs = Inr (filter q xs)"
  by (induction xs) auto

lemma filter_eq_single: "distinct xs \<Longrightarrow> filter (\<lambda>x. x = a) xs = (if a \<in> set xs then [a] else [])"
  by (induction xs) auto

lemma state_idents_of:
  assumes L: "str_lib L" and inv: "files_inv L fs" and n: "plain_name L c" "plain_name L h" and l: "host_listed fs h"
    and cp: "read_ini fs (host_path h fs) = Inr cp" and clean: "clean_ini cp" and low: "lower c = c"
  shows "getIdents L srv ''ConfigState'' (state_filter c h) fs =
    Inr (if ini_get cp ''generalconfig'' c = None then [] else [[(''configId'', JStr c), (''objectId'', JStr h)]])"
proof -
  let ?i = "\<lambda>k. [(''configId'', JStr k), (''objectId'', JStr h)]"
  have all: "all_idents L srv ''ConfigState'' (state_filter c h) fs = Inr (state_idents ''ConfigState'' h cp)"
    using listed_states[OF L inv n l cp] by (simp add: all_idents_def)
  show ?thesis
  proof (cases "has_section cp ''generalconfig''")
    case False
    then show ?thesis using all by (simp add: getIdents_def state_idents_def ini_get_def)
  next
    case True
    let ?os = "ini_options cp ''generalconfig''"
    have ids: "state_idents ''ConfigState'' h cp = map ?i ?os" using True by (simp add: state_idents_def)
    have f: "filterE (\<lambda>i. objectHashMatches L i (state_filter c h)) (map ?i ks) = Inr (map ?i (filter (\<lambda>k. k = c) ks))" for ks
      using match_state[OF L n, of _ h False] by (induction ks) simp_all
    have "filter (\<lambda>k. k = c) ?os = (if ini_get cp ''generalconfig'' c = None then [] else [c])"
      using clean_options[OF clean True] low by (simp add: filter_eq_single)
    moreover have "filter_true (state_filter c h) ''configId''" using n(1) by (simp add: filter_true_def state_filter_def plain_name_def)
    ultimately show ?thesis using f[of ?os] all ids by (cases ?os) (auto simp: getIdents_def split: if_splits)
  qed
qed

lemma find_state:
  assumes L: "config_state_lib L" and inv: "files_inv L fs" and n: "plain_name L c" "plain_name L h" and l: "host_listed fs h"
    and low: "lower c = c"
  shows "read_objects L srv ''ConfigState'' [] (state_filter c h) fs =
    Inr (case state_content L fs (JStr c, JStr h) of None \<Rightarrow> [] | Some old \<Rightarrow> [old], fs)"
proof -
  have sl: "str_lib L" using L by (simp add: config_state_lib_def)
  obtain t where t: "map_of fs (host_path h fs) = Some t" "clean_file L h t" by (rule listed_file[OF inv l])
  then obtain cp where cp: "ini_parse False t = Inr cp" "clean_ini cp" "\<not> has_section cp ''LocalbootProduct_product_states''"
    "\<not> has_section cp ''NetbootProduct_product_states''"
    "\<And>k. k \<in> set (ini_options cp ''generalconfig'') \<Longrightarrow> stored_value L h k (the (ini_get cp ''generalconfig'' k))"
    using clean_fileE by metis
  have rd: "read_ini fs (host_path h fs) = Inr cp" using t cp by (simp add: read_ini_def)
  note ids = state_idents_of[OF sl inv n l rd cp(2) low]
  have ty: "\<not> filter_true (state_filter c h) ''type''" by (simp add: filter_true_def state_filter_def)
  have ms: "ini_mappings ''ConfigState'' = Some configState_mappings" by (simp add: ini_mappings_def)
  show ?thesis
  proof (cases "ini_get cp ''generalconfig'' c")
    case None
    then have "state_content L fs (JStr c, JStr h) = None" using rd low l by (simp add: state_text_def)
    then show ?thesis using None ids ty ms by (simp add: read_objects_def)
  next
    case (Some x)
    then have "c \<in> set (ini_options cp ''generalconfig'')"
      using clean_options(2)[OF cp(2), of "''generalconfig''" c] low by (auto simp: ini_get_def split: if_splits)
    then obtain v where v: "fromJson L x = Some v" "built_state L c h v" using cp(5)[of c] Some by (auto simp: stored_value_def)
    have con: "state_content L fs (JStr c, JStr h) = Some (config_state c h v)"
      using rd low l Some v(1) by (simp add: state_text_def)
    let ?i = "[(''configId'', JStr c), (''objectId'', JStr h)]"
    have gc: "getConfigFile ''ConfigState'' ?i ''ini'' fs = Inr (host_path h fs)"
      using l by (auto simp: getConfigFile_def ini_path_def need_def host_listed_def host_path_def)
    have "read_attribute L ''ConfigState'' cp (mapping_of ''values'' (Fixed ''generalconfig'') (Placed [] ''configId'' []) True) ?i =
        Inr (?i @ [(''values'', v)])"
      using Some v(1) sl
      by (simp add: read_attribute_def section_for_def fill_def mapping_of_def read_value_def str_lib_def)
    moreover have "migrate p (cp, fs) = Inr (cp, fs)" for p using cp(3,4) by (simp add: migrate_def)
    moreover have "objectHashMatches L (o_hash (config_state c h v)) (state_filter c h) = Inr True"
      using match_state[OF sl n, of c h True v] by (simp add: config_state_def)
    moreover have "stored_class ''ConfigState'' ?i g fs = Inr ''ConfigState''" for g by (simp add: stored_class_def)
    ultimately have "read_ident L ''ConfigState'' [] configState_mappings (state_filter c h) ?i ([], [], fs) =
        Inr ([config_state c h v], [(host_path h fs, cp)], fs)"
      using gc rd v(2) by (simp add: read_ident_def configState_mappings_def adaptObjectHashAttributes_def built_state_def)
    then show ?thesis using ids ty ms Some con by (simp add: read_objects_def)
  qed
qed


text \<open>Asked for its identity only, a state is found without its values.\<close>

lemma find_state_ident:
  assumes L: "config_state_lib L" and inv: "files_inv L fs" and n: "plain_name L c" "plain_name L h" and l: "host_listed fs h"
    and low: "lower c = c"
  shows "read_objects L srv ''ConfigState'' [''configId'', ''objectId''] (state_filter c h) fs =
    Inr (if state_content L fs (JStr c, JStr h) = None then [] else [config_state c h JNull], fs)"
proof -
  have sl: "str_lib L" using L by (simp add: config_state_lib_def)
  obtain t where t: "map_of fs (host_path h fs) = Some t" "clean_file L h t" by (rule listed_file[OF inv l])
  then obtain cp where cp: "ini_parse False t = Inr cp" "clean_ini cp"
    "\<And>k. k \<in> set (ini_options cp ''generalconfig'') \<Longrightarrow> stored_value L h k (the (ini_get cp ''generalconfig'' k))"
    using clean_fileE by metis
  have rd: "read_ini fs (host_path h fs) = Inr cp" using t cp by (simp add: read_ini_def)
  note ids = state_idents_of[OF sl inv n l rd cp(2) low]
  have ty: "\<not> filter_true (state_filter c h) ''type''" by (simp add: filter_true_def state_filter_def)
  have ms: "ini_mappings ''ConfigState'' = Some configState_mappings" by (simp add: ini_mappings_def)
  have unused: "filter (\<lambda>m. [''configId'', ''objectId''] = [] \<or> m_attribute m \<in> set [''configId'', ''objectId''] \<or>
      m_attribute m \<in> fst ` set (state_filter c h)) configState_mappings = []"
    by (simp add: configState_mappings_def mapping_of_def state_filter_def)
  have con: "state_content L fs (JStr c, JStr h) = None \<longleftrightarrow> ini_get cp ''generalconfig'' c = None"
  proof (cases "ini_get cp ''generalconfig'' c")
    case (Some x)
    then have "c \<in> set (ini_options cp ''generalconfig'')"
      using clean_options(2)[OF cp(2), of "''generalconfig''" c] low by (auto simp: ini_get_def split: if_splits)
    then show ?thesis using Some cp(3)[of c] rd low l by (auto simp: state_text_def stored_value_def)
  qed (use rd low l in \<open>simp add: state_text_def\<close>)
  have built: "\<exists>v. built_state L c h v" if "ini_get cp ''generalconfig'' c \<noteq> None"
  proof -
    have "c \<in> set (ini_options cp ''generalconfig'')"
      using that clean_options(2)[OF cp(2), of "''generalconfig''" c] low by (auto simp: ini_get_def split: if_splits)
    then show ?thesis using cp(3)[of c] by (auto simp: stored_value_def)
  qed
  have "objectHashMatches L (o_hash (config_state c h JNull)) (state_filter c h) = Inr True"
    using match_state[OF sl n, of c h True JNull] by (simp add: config_state_def)
  then have "read_ident L ''ConfigState'' [''configId'', ''objectId''] [] (state_filter c h)
      [(''configId'', JStr c), (''objectId'', JStr h)] ([], [], fs) = Inr ([config_state c h JNull], [], fs)"
    if "ini_get cp ''generalconfig'' c \<noteq> None"
    using built[OF that] by (auto simp: read_ident_def adaptObjectHashAttributes_def built_state_def stored_class_def)
  then show ?thesis using ids ty ms con unused by (simp add: read_objects_def)
qed

section \<open>Changing one file\<close>

definition state_file :: "lib \<Rightarrow> string \<Rightarrow> ini \<Rightarrow> bool" where
  "state_file L h cp \<longleftrightarrow> clean_ini cp \<and> \<not> has_section cp ''LocalbootProduct_product_states'' \<and> \<not> has_section cp ''NetbootProduct_product_states'' \<and>
     (\<forall>k. lower k = k \<longrightarrow> (case ini_get cp ''generalconfig'' k of None \<Rightarrow> True | Some t \<Rightarrow> stored_value L h k t))"

lemma clean_file_iff: "clean_file L h t \<longleftrightarrow> (\<exists>cp. ini_parse False t = Inr cp \<and> state_file L h cp)"
proof -
  have "(\<forall>k \<in> set (ini_options cp ''generalconfig''). stored_value L h k (the (ini_get cp ''generalconfig'' k))) \<longleftrightarrow>
      (\<forall>k. lower k = k \<longrightarrow> (case ini_get cp ''generalconfig'' k of None \<Rightarrow> True | Some t \<Rightarrow> stored_value L h k t))"
    if c: "clean_ini cp" for cp
  proof (cases "has_section cp ''generalconfig''")
    case True
    have low: "lower k = k" if "k \<in> set (ini_options cp ''generalconfig'')" for k
      using that clean_own_options(1)[OF c True] clean_defaults[OF c] by (auto simp: ini_options_def clean_section_def clean_option_def)
    have "ini_get cp ''generalconfig'' k = None" if "lower k = k" "k \<notin> set (ini_options cp ''generalconfig'')" for k
      using clean_options(2)[OF c True that(1)] that(2) by simp
    then show ?thesis using low clean_options(2)[OF c True] by (fastforce split: option.split)
  next
    case False
    then show ?thesis using clean_defaults[OF c] by (simp add: ini_options_def own_options_def ini_get_def)
  qed
  then show ?thesis by (auto simp: clean_file_def state_file_def split: sum.split)
qed

lemma read_host_file:
  assumes inv: "files_inv L fs" and l: "host_listed fs h"
  obtains cp where "read_ini fs (host_path h fs) = Inr cp" "state_file L h cp"
proof -
  obtain t where t: "map_of fs (host_path h fs) = Some t" "clean_file L h t" by (rule listed_file[OF inv l])
  then show thesis using that by (auto simp: clean_file_iff read_ini_def)
qed

lemma change_host_file:
  fixes seq :: "string list"
  assumes inv: "files_inv L fs" and l: "host_listed fs h" and cp: "state_file L h cp"
  defines "fs' \<equiv> AList.update (host_path h fs) (ini_generate seq cp) fs"
  shows "files_inv L fs'" "is_file fs' = is_file fs" "map_of fs' = (map_of fs)(host_path h fs \<mapsto> ini_generate seq cp)"
    "state_text fs' c h' = (if h' = h then (if lower c = c then ini_get cp ''generalconfig'' c else None) else state_text fs c h')"
proof -
  have clean: "clean_ini cp" using cp by (simp add: state_file_def)
  have p: "is_file fs (host_path h fs)" using l by (auto simp: host_path_def host_listed_def)
  have d: "distinct (dict_keys fs)" using inv by (simp add: files_inv_def dict_keys_def)
  show m: "map_of fs' = (map_of fs)(host_path h fs \<mapsto> ini_generate seq cp)" by (simp add: fs'_def)
  show f: "is_file fs' = is_file fs"
    using p dict_keys_update[of "host_path h fs" "ini_generate seq cp" fs]
    by (auto simp: is_file_def fs'_def dict_keys_def fun_eq_iff simp flip: set_map)
  have parse: "ini_parse False (ini_generate seq cp) = Inr (arranged seq cp)" by (rule ini_roundtrip_aux[OF clean])
  have new: "state_file L h (arranged seq cp)"
    using cp clean_arranged[OF clean] by (simp add: state_file_def ini_get_arranged)
  obtain t where old: "map_of fs (host_path h fs) = Some t" using p by (metis is_file_def map_of_eq_None_iff not_None_eq)
  have "case q of
           ClientPath e \<Rightarrow> \<exists>h. e = ini_name h \<and> forceHostId L h = Some h \<and> \<not> is_file fs' (DepotPath e) \<and> clean_file L h t
         | DepotPath e \<Rightarrow> \<exists>h. e = ini_name h \<and> forceHostId L h = Some h \<and> clean_file L h t
         | _ \<Rightarrow> True" if q: "map_of fs' q = Some t" for q t
  proof -
    obtain u where u: "map_of fs q = Some u" "q = host_path h fs \<and> t = ini_generate seq cp \<or> t = u"
      using q m old by (auto split: if_splits)
    have new_file: "clean_file L h (ini_generate seq cp)" using parse new by (auto simp: clean_file_iff)
    have "case q of
           ClientPath e \<Rightarrow> \<exists>h. e = ini_name h \<and> forceHostId L h = Some h \<and> \<not> is_file fs (DepotPath e) \<and> clean_file L h u
         | DepotPath e \<Rightarrow> \<exists>h. e = ini_name h \<and> forceHostId L h = Some h \<and> clean_file L h u
         | _ \<Rightarrow> True"
      using inv u(1) unfolding files_inv_def by blast
    then show ?thesis using u(2) f new_file by (auto simp: host_path_def split: path.splits if_splits)
  qed
  moreover have "distinct (map fst fs')" using d distinct_keys_update[of fs] by (simp add: fs'_def dict_keys_def)
  ultimately show "files_inv L fs'" unfolding files_inv_def by blast
  have hp: "host_path g fs' = host_path g fs" "host_listed fs' g = host_listed fs g" for g
    by (simp_all add: host_path_def host_listed_def f)
  have "read_ini fs' (host_path h fs) = Inr (arranged seq cp)" using m parse by (simp add: read_ini_def)
  moreover have "read_ini fs' (host_path g fs) = read_ini fs (host_path g fs)" if "g \<noteq> h" for g
    using m that by (auto simp: read_ini_def host_path_def)
  ultimately show "state_text fs' c h' = (if h' = h then (if lower c = c then ini_get cp ''generalconfig'' c else None) else state_text fs c h')"
    using l by (auto simp: state_text_def hp ini_get_arranged[OF clean])
qed

lemma header_line_ok: "line_ok (CHR ''['' # ''generalconfig'' @ '']'')"
  by (simp add: line_ok_def strip_eq_self is_space_def is_break_def cut_comment_def)

lemma state_section_clean: "clean_section ''generalconfig'' []"
  using header_line_ok by (simp add: clean_section_def)

definition put_state :: "string \<Rightarrow> string \<Rightarrow> ini \<Rightarrow> (ini_error, ini) result" where
  "put_state c t cp =
     bindE (if has_section cp ''generalconfig'' then Inr cp else add_section ''generalconfig'' cp) (ini_set ''generalconfig'' c t)"

lemma put_state:
  assumes cp: "state_file L h cp" and o: "clean_option c t" and j: "stored_value L h c t"
  obtains cp' where "put_state c t cp = Inr cp'" "state_file L h cp'"
    "\<And>k. lower k = k \<Longrightarrow> ini_get cp' ''generalconfig'' k = (if k = c then Some t else ini_get cp ''generalconfig'' k)"
proof -
  have clean: "clean_ini cp" using cp by (simp add: state_file_def)
  obtain cp1 where cp1: "(if has_section cp ''generalconfig'' then Inr cp else add_section ''generalconfig'' cp) = Inr cp1"
    "clean_ini cp1" "has_section cp1 ''generalconfig''" "\<And>s k. ini_get cp1 s k = ini_get cp s k"
    "\<And>s. s \<noteq> ''generalconfig'' \<Longrightarrow> has_section cp1 s = has_section cp s"
  proof (cases "has_section cp ''generalconfig''")
    case False
    note a = clean_add_section[OF clean False state_section_clean]
    show thesis using that[of "cp @ [(''generalconfig'', [])]"] a False by (auto simp: has_section_def)
  qed (use that[of cp] clean in auto)
  obtain cp' where cp': "ini_set ''generalconfig'' c t cp1 = Inr cp'" "clean_ini cp'" "sections cp' = sections cp1"
    "\<And>s' k'. ini_get cp' s' k' = (if s' = ''generalconfig'' \<and> lower k' = c then Some t else ini_get cp1 s' k')"
    using clean_set[OF cp1(2,3) o] by blast
  have "put_state c t cp = Inr cp'" using cp1(1) cp'(1) by (simp add: put_state_def)
  moreover have "has_section cp' s = has_section cp s" if "s \<noteq> ''generalconfig''" for s
    using cp1(5)[OF that] cp'(3) by (simp add: has_section_def)
  then have "state_file L h cp'" using cp cp'(2,4) cp1(4) j by (auto simp: state_file_def)
  ultimately show thesis using that[of cp'] cp'(4) cp1(4) by simp
qed


section \<open>The operations keep the promise\<close>

lemma state_path:
  assumes "config_state_lib L" and "host_listed fs h"
  shows "getConfigFile ''ConfigState'' (getIdent L (config_state c h v)) ''ini'' fs = Inr (host_path h fs)"
  using assms
  by (auto simp: getConfigFile_def ini_path_def need_def host_listed_def host_path_def config_state_lib_def)

lemma host_path_is_file: "host_listed fs h \<Longrightarrow> is_file fs (host_path h fs)"
  by (auto simp: host_listed_def host_path_def)

lemma state_okE:
  assumes "state_ok L fs ob"
  obtains c h v where "ob = config_state c h v" "plain_name L c" "plain_name L h" "host_listed fs h" "v \<noteq> JNull"
    "clean_option c (toJson L v)" "fromJson L (toJson L v) = Some v" "lower c = c" "built_state L c h v"
  using assms by (auto simp: state_ok_def clean_option_def)

lemma write_state:
  assumes L: "config_state_lib L" and inv: "files_inv L fs" and ok: "state_ok L fs ob"
  shows "\<exists>fs'. write_object L mode ob fs = Inr fs' \<and> files_inv L fs' \<and>
    state_content L fs' = (state_content L fs)(state_ident ob \<mapsto> ob) \<and> state_ok L fs' = state_ok L fs \<and>
    map_of fs' ConfigPath = map_of fs ConfigPath"
proof -
  obtain c h v where ob: "ob = config_state c h v" "host_listed fs h" "v \<noteq> JNull" "clean_option c (toJson L v)"
    "fromJson L (toJson L v) = Some v" "lower c = c" "built_state L c h v" using state_okE[OF ok] by metis
  obtain cp where cp: "read_ini fs (host_path h fs) = Inr cp" "state_file L h cp" using read_host_file[OF inv ob(2)] .
  have sv: "stored_value L h c (toJson L v)" using ob(5,7) by (simp add: stored_value_def)
  obtain cp' where cp': "put_state c (toJson L v) cp = Inr cp'" "state_file L h cp'"
    "\<And>k. lower k = k \<Longrightarrow> ini_get cp' ''generalconfig'' k = (if k = c then Some (toJson L v) else ini_get cp ''generalconfig'' k)"
    using put_state[OF cp(2) ob(4) sv] by blast
  let ?fs' = "AList.update (host_path h fs) (ini_generate section_sequence cp') fs"
  note ch = change_host_file[OF inv ob(2) cp'(2), of section_sequence]
  have sl: "forceUnicode L (JStr s) = s" for s using L by (simp add: config_state_lib_def str_lib_def)
  have m: "mapping_for configState_mappings ''configId'' = None" "mapping_for configState_mappings ''objectId'' = None"
    "mapping_for configState_mappings ''values'' = Some (mapping_of ''values'' (Fixed ''generalconfig'') (Placed [] ''configId'' []) True)"
    by (simp_all add: mapping_for_def configState_mappings_def mapping_of_def)
  have "write_attribute L ''ConfigState'' (o_hash ob) configState_mappings mode (''values'', v) cp = Inr cp'"
    using ob(1,3) m(3) cp'(1) sl
    by (auto simp: write_attribute_def section_for_def fill_def mapping_of_def written_value_def value_text_def config_state_def
        put_state_def lift_ini_def bindE_def split: sum.splits if_splits)
  then have "foldE (write_attribute L ''ConfigState'' (o_hash ob) configState_mappings mode) (o_hash ob) cp = Inr cp'"
    using m(1,2) ob(1) by (simp add: config_state_def write_attribute_def[of _ _ _ _ _ "(''configId'', _)"]
        write_attribute_def[of _ _ _ _ _ "(''objectId'', _)"])
  moreover have cls: "o_class (config_state c h v) = ''ConfigState''" by (simp add: config_state_def)
  ultimately have "write_object L mode ob fs = Inr ?fs'"
    using cls cp(1) state_path[OF L ob(2), of c v] host_path_is_file[OF ob(2)]
    by (cases mode) (simp_all add: write_object_def ob(1) ini_mappings_def touch_file_def clear_for_create_def Let_def del: foldE.simps)
  moreover have "state_content L ?fs' = (state_content L fs)(state_ident ob \<mapsto> ob)"
  proof
    fix x
    show "state_content L ?fs' x = ((state_content L fs)(state_ident ob \<mapsto> ob)) x"
    proof (cases "\<exists>a b. x = (JStr a, JStr b)")
      case True
      then obtain a b where x: "x = (JStr a, JStr b)" by blast
      have id: "state_ident ob = (JStr c, JStr h)" by (simp add: ob(1) state_ident_def config_state_def attr_def)
      have "state_text fs a h = (if lower a = a then ini_get cp ''generalconfig'' a else None)"
        using cp(1) ob(2) by (simp add: state_text_def)
      then show ?thesis using ch(4)[of a b] cp'(3)[of a] ob(1,5,6) x id by (auto split: option.split)
    next
      case False
      then have "state_content L g x = None" for g by (cases "(L, g, x)" rule: state_content.cases) auto
      moreover have "x \<noteq> state_ident ob" using False by (auto simp: ob(1) state_ident_def config_state_def attr_def)
      ultimately show ?thesis by simp
    qed
  qed
  moreover have "state_ok L ?fs' = state_ok L fs" by (simp add: state_ok_def host_listed_def ch(2) fun_eq_iff)
  moreover have "map_of ?fs' ConfigPath = map_of fs ConfigPath" using ch(3) by (auto simp: host_path_def)
  ultimately show ?thesis using ch(1) by blast
qed


lemma base_host_path [simp]: "base_host (host_path h fs) = h"
  by (simp add: base_host_def host_path_def drop_end_def ini_name_def)

lemma drop_states:
  assumes L: "str_lib L" and "state_file L g cp" and "\<forall>ob \<in> set obs. \<exists>c h v. ob = config_state c h v \<and> lower c = c"
  shows "state_file L g (drop_config_states L obs p cp) \<and>
    (\<forall>k. lower k = k \<longrightarrow> ini_get (drop_config_states L obs p cp) ''generalconfig'' k =
       (if \<exists>v. config_state k (base_host p) v \<in> set obs then None else ini_get cp ''generalconfig'' k))"
  using assms(2,3)
proof (induction obs arbitrary: cp)
  case (Cons ob obs)
  obtain c h v where ob: "ob = config_state c h v" "lower c = c" using Cons.prems by auto
  let ?cp1 = "if h \<noteq> base_host p then cp else if has_option cp ''generalconfig'' c then remove_option ''generalconfig'' c cp else cp"
  have step: "drop_config_states L (ob # obs) p cp = drop_config_states L obs p ?cp1"
    using L by (simp add: drop_config_states_def ob(1) config_state_def attr_def str_lib_def)
  have cp1: "state_file L g ?cp1 \<and> (\<forall>k. lower k = k \<longrightarrow> ini_get ?cp1 ''generalconfig'' k =
      (if h = base_host p \<and> k = c then None else ini_get cp ''generalconfig'' k))"
  proof (cases "h = base_host p \<and> has_option cp ''generalconfig'' c")
    case True
    have clean: "clean_ini cp" using Cons.prems(1) by (simp add: state_file_def)
    have hs: "has_section cp ''generalconfig''" using True by (auto simp: has_option_def ini_get_def split: if_splits)
    note r = clean_remove_option[OF clean hs, of c]
    have "has_section (remove_option ''generalconfig'' c cp) s = has_section cp s" for s using r(2) by (simp add: has_section_def)
    then have "state_file L g (remove_option ''generalconfig'' c cp)"
      using Cons.prems(1) r(1,3) by (auto simp: state_file_def split: option.split)
    then show ?thesis using True r(3) ob(2) by simp
  next
    case False
    then show ?thesis using Cons.prems(1) by (auto simp: has_option_def)
  qed
  have "config_state k b w = config_state c h v \<longleftrightarrow> k = c \<and> b = h \<and> w = v" for k b w by (simp add: config_state_def)
  then show ?case using Cons.IH[of ?cp1] cp1 Cons.prems(2) unfolding step by (auto simp: ob(1))
qed (simp add: drop_config_states_def)

lemma delete_in_files:
  assumes L: "str_lib L" and obs: "\<forall>ob \<in> set obs. \<exists>c h v. ob = config_state c h v \<and> lower c = c"
    and "files_inv L fs" and "distinct ps" and "\<forall>p \<in> set ps. \<exists>h. host_listed fs h \<and> p = host_path h fs"
  shows "\<exists>fs'. foldE (\<lambda>p. change_file (\<lambda>cp. Inr (drop_config_states L obs p cp)) p) ps fs = Inr fs' \<and> files_inv L fs' \<and>
    is_file fs' = is_file fs \<and> map_of fs' ConfigPath = map_of fs ConfigPath \<and>
    (\<forall>a b. state_text fs' a b = (if host_path b fs \<in> set ps \<and> (\<exists>v. config_state a b v \<in> set obs) then None else state_text fs a b))"
  using assms(3-5)
proof (induction ps arbitrary: fs)
  case (Cons p ps)
  obtain h where h: "host_listed fs h" "p = host_path h fs" using Cons.prems by auto
  obtain cp where cp: "read_ini fs p = Inr cp" "state_file L h cp" using read_host_file[OF Cons.prems(1) h(1)] h(2) by metis
  note d = drop_states[OF L cp(2) obs, of p]
  let ?fs1 = "AList.update p (ini_generate [] (drop_config_states L obs p cp)) fs"
  have step: "change_file (\<lambda>cp. Inr (drop_config_states L obs p cp)) p fs = Inr ?fs1"
    using cp(1) by (simp add: change_file_def)
  note ch = change_host_file[OF Cons.prems(1) h(1) conjunct1[OF d], of "[]", folded h(2)]
  have hp: "host_path b ?fs1 = host_path b fs" "host_listed ?fs1 b = host_listed fs b" for b
    using ch(2) by (simp_all add: host_path_def host_listed_def)
  have inj: "host_path b fs = host_path g fs \<longleftrightarrow> b = g" for b g by (auto simp: host_path_def split: if_splits)
  have "state_text fs a h = (if lower a = a then ini_get cp ''generalconfig'' a else None)" for a
    using cp(1) h by (simp add: state_text_def)
  then have t1: "state_text ?fs1 a b = (if b = h \<and> (\<exists>v. config_state a b v \<in> set obs) then None else state_text fs a b)" for a b
    using ch(4)[of a b] d h(2) by auto
  obtain fs' where fs': "foldE (\<lambda>p. change_file (\<lambda>cp. Inr (drop_config_states L obs p cp)) p) ps ?fs1 = Inr fs'" "files_inv L fs'"
    "is_file fs' = is_file ?fs1" "map_of fs' ConfigPath = map_of ?fs1 ConfigPath"
    "\<And>a b. state_text fs' a b = (if host_path b ?fs1 \<in> set ps \<and> (\<exists>v. config_state a b v \<in> set obs) then None else state_text ?fs1 a b)"
    using Cons.IH[OF ch(1)] Cons.prems(2,3) hp by auto
  have "foldE (\<lambda>p. change_file (\<lambda>cp. Inr (drop_config_states L obs p cp)) p) (p # ps) fs = Inr fs'"
    using step fs'(1) by simp
  moreover have "is_file fs' = is_file fs" using fs'(3) ch(2) by simp
  moreover have "map_of fs' ConfigPath = map_of fs ConfigPath" using fs'(4) ch(3) h(2) by (auto simp: host_path_def)
  moreover have "state_text fs' a b = (if host_path b fs \<in> set (p # ps) \<and> (\<exists>v. config_state a b v \<in> set obs) then None else state_text fs a b)" for a b
    using fs'(5)[of a b] t1[of a b] hp(1) h(2) inj by auto
  ultimately show ?case using fs'(2) by blast
qed simp

lemma state_files:
  assumes L: "config_state_lib L" and "\<forall>ob \<in> set obs. state_ok L fs ob"
  shows "\<exists>ps. config_files L obs fs = Inr ps \<and> distinct ps \<and>
    set ps = {host_path h fs | c h v. config_state c h v \<in> set obs} \<and> (\<forall>p \<in> set ps. \<exists>h. host_listed fs h \<and> p = host_path h fs)"
  using assms(2)
proof (induction obs rule: rev_induct)
  case (snoc ob obs)
  have "state_ok L fs ob" using snoc.prems by simp
  then obtain c h v where ob: "ob = config_state c h v" "host_listed fs h" by (rule state_okE)
  obtain ps where ps: "config_files L obs fs = Inr ps" "distinct ps" "set ps = {host_path h fs | c h v. config_state c h v \<in> set obs}"
    "\<forall>p \<in> set ps. \<exists>h. host_listed fs h \<and> p = host_path h fs" using snoc by auto
  let ?p = "host_path h fs"
  have "config_files L (obs @ [ob]) fs = Inr (if ?p \<in> set ps then ps else ps @ [?p])"
    using ps(1) state_path[OF L ob(2), of c v] ob(1) by (simp add: config_files_def foldE_append) (simp add: config_state_def)
  moreover have "config_state a b w = config_state c h v \<longleftrightarrow> a = c \<and> b = h \<and> w = v" for a b w by (simp add: config_state_def)
  then have "{host_path h fs | c h v. config_state c h v \<in> set (obs @ [ob])} = insert ?p (set ps)"
    using ps(3) ob(1) by auto
  ultimately show ?case using ps ob(2) by auto
qed (simp add: config_files_def)

lemma delete_states:
  assumes L: "config_state_lib L" and inv: "files_inv L fs" and ok: "\<forall>ob \<in> set obs. state_ok L fs ob"
  shows "\<exists>fs'. delete_objects L obs fs = Inr fs' \<and> files_inv L fs' \<and>
    (\<forall>k. state_content L fs' k = (if k \<in> state_ident ` set obs then None else state_content L fs k)) \<and> state_ok L fs' = state_ok L fs \<and>
    map_of fs' ConfigPath = map_of fs ConfigPath"
proof (cases obs)
  case (Cons ob0 rest)
  have sl: "str_lib L" using L by (simp add: config_state_lib_def)
  have obs: "\<forall>ob \<in> set obs. \<exists>c h v. ob = config_state c h v \<and> lower c = c"
  proof
    fix ob assume "ob \<in> set obs"
    then have "state_ok L fs ob" using ok by simp
    then show "\<exists>c h v. ob = config_state c h v \<and> lower c = c" by (rule state_okE) blast
  qed
  obtain ps where ps: "config_files L obs fs = Inr ps" "distinct ps" "set ps = {host_path h fs | c h v. config_state c h v \<in> set obs}"
    "\<forall>p \<in> set ps. \<exists>h. host_listed fs h \<and> p = host_path h fs" using state_files[OF L ok] by blast
  obtain fs' where fs': "foldE (\<lambda>p. change_file (\<lambda>cp. Inr (drop_config_states L obs p cp)) p) ps fs = Inr fs'" "files_inv L fs'"
    "is_file fs' = is_file fs" "map_of fs' ConfigPath = map_of fs ConfigPath"
    "\<And>a b. state_text fs' a b = (if host_path b fs \<in> set ps \<and> (\<exists>v. config_state a b v \<in> set obs) then None else state_text fs a b)"
    using delete_in_files[OF sl obs inv ps(2,4)] by blast
  obtain c0 h0 v0 where "ob0 = config_state c0 h0 v0" using obs Cons by auto
  then have "o_class ob0 = ''ConfigState''" by (simp add: config_state_def)
  then have "delete_objects L obs fs = Inr fs'" using ps(1) fs'(1) by (simp add: delete_objects_def Cons)
  moreover have "state_content L fs' k = (if k \<in> state_ident ` set obs then None else state_content L fs k)" for k
  proof (cases "\<exists>a b. k = (JStr a, JStr b)")
    case True
    then obtain a b where k: "k = (JStr a, JStr b)" by blast
    have "k \<in> state_ident ` set obs \<longleftrightarrow> (\<exists>v. config_state a b v \<in> set obs)"
    proof
      assume "k \<in> state_ident ` set obs"
      then obtain ob where o: "ob \<in> set obs" "state_ident ob = k" by auto
      then obtain c h v where "ob = config_state c h v" using obs by blast
      then show "\<exists>v. config_state a b v \<in> set obs" using o k by (auto simp: state_ident_def config_state_def attr_def)
    next
      assume "\<exists>v. config_state a b v \<in> set obs"
      then show "k \<in> state_ident ` set obs" by (force simp: k state_ident_def config_state_def attr_def)
    qed
    moreover have "(\<exists>v. config_state a b v \<in> set obs) \<Longrightarrow> host_path b fs \<in> set ps" using ps(3) by blast
    ultimately show ?thesis using fs'(5)[of a b] k by auto
  next
    case False
    then have "state_content L g k = None" for g by (cases "(L, g, k)" rule: state_content.cases) auto
    then show ?thesis by simp
  qed
  moreover have "state_ok L fs' = state_ok L fs" by (simp add: state_ok_def host_listed_def fs'(3) fun_eq_iff)
  ultimately show ?thesis using fs'(2,4) by blast
qed (use inv in \<open>simp add: delete_objects_def\<close>)


section \<open>The operations of the file backend\<close>

text \<open>
  Before an object is written the methods of the base class check it: \<open>sd\<close> is \<open>setDefaults\<close> of the object, \<open>p\<close> are the
  options and \<open>C\<close> the context of the backend, \<open>poss\<close> the attributes of a class.
\<close>

definition file_config_getObjects ::
  "lib \<Rightarrow> (string \<Rightarrow> string list) \<Rightarrow> string \<Rightarrow> string list \<Rightarrow> hash \<Rightarrow> files \<Rightarrow> (backend_error, obj list \<times> files) result" where
  "file_config_getObjects L poss serverId attributes f fs =
     bindE (base_getObjects (poss ''Config'') attributes f) (\<lambda>_. read_objects L serverId ''Config'' attributes f fs)"

definition file_configState_insertObject ::
  "lib \<Rightarrow> (obj \<Rightarrow> obj) \<Rightarrow> options \<Rightarrow> files backend \<Rightarrow> obj \<Rightarrow> files \<Rightarrow> (backend_error, files) result" where
  "file_configState_insertObject L sd p C ob fs =
     (case base_configState_insertObject sd p C ob fs of
        (Inl e, _) \<Rightarrow> Inl e
      | (Inr ob', fs') \<Rightarrow> write_object L Create ob' fs')"

definition file_configState_updateObject :: "lib \<Rightarrow> obj \<Rightarrow> files \<Rightarrow> (backend_error, files) result" where
  "file_configState_updateObject L ob fs = write_object L Update ob fs"

definition file_configState_deleteObjects :: "lib \<Rightarrow> obj list \<Rightarrow> files \<Rightarrow> (backend_error, files) result" where
  "file_configState_deleteObjects L obs fs = delete_objects L obs fs"

definition file_configState_getObjects ::
  "lib \<Rightarrow> (string \<Rightarrow> string list) \<Rightarrow> string \<Rightarrow> string list \<Rightarrow> hash \<Rightarrow> files \<Rightarrow> (backend_error, obj list \<times> files) result" where
  "file_configState_getObjects L poss serverId attributes f fs =
     bindE (base_getObjects (poss ''ConfigState'') attributes f) (\<lambda>_. read_objects L serverId ''ConfigState'' attributes f fs)"

definition file_configState_same ::
  "lib \<Rightarrow> (string \<Rightarrow> string list) \<Rightarrow> string \<Rightarrow> obj \<Rightarrow> files \<Rightarrow> (backend_error, obj list \<times> files) result" where
  "file_configState_same L poss serverId ob fs =
     file_configState_getObjects L poss serverId [] [(''configId'', attr ob ''configId''), (''objectId'', attr ob ''objectId'')] fs"

text \<open>Asked for their ids, the configs are read from \<open>config.ini\<close> alone.\<close>

definition config_object :: "lib \<Rightarrow> hash \<Rightarrow> obj list \<Rightarrow> (backend_error, obj list) result" where
  "config_object L i os =
     (case fromHash L ''Config'' i of
        None \<Rightarrow> Inl OtherError
      | Some ob \<Rightarrow>
          bindE (objectHashMatches L (o_hash ob) []) (\<lambda>m.
            if \<not> m then Inr os
            else (case fromHash L ''Config'' i of None \<Rightarrow> Inl OtherError | Some ob' \<Rightarrow> Inr (os @ [ob']))))"

lemma config_objects:
  "\<forall>i \<in> set is. \<exists>s. i = [(''id'', JStr s)] \<Longrightarrow>
     foldE (read_ident L ''Config'' [''id''] [] []) is (os, [], fs) = bindE (foldE (config_object L) is os) (\<lambda>os'. Inr (os', [], fs))"
proof (induction "is" arbitrary: os)
  case (Cons i js)
  obtain s where i: "i = [(''id'', JStr s)]" using Cons.prems by auto
  have "read_ident L ''Config'' [''id''] [] [] i (os, [], fs) = bindE (config_object L i os) (\<lambda>os'. Inr (os', [], fs))"
    by (auto simp: i read_ident_def config_object_def stored_class_def adaptObjectHashAttributes_def filter_true_def bindE_def
        split: option.split sum.split)
  then show ?case using Cons by (auto simp: bindE_def split: sum.split)
qed simp

lemma read_config_ids:
  "read_objects L srv ''Config'' [''id''] [] fs = bindE (config_idents fs) (\<lambda>is. bindE (foldE (config_object L) is []) (\<lambda>os. Inr (os, fs)))"
proof -
  have "\<forall>i \<in> set is. \<exists>s. i = [(''id'', JStr s)]" if "config_idents fs = Inr is" for "is"
    using that by (auto simp: config_idents_def bindE_def split: if_splits sum.splits)
  note c = config_objects[OF this]
  have none: "list_ex (\<lambda>(a, v). filter_true [] a) i = False" for i :: hash by (induction i) (auto simp: filter_true_def)
  have "getIdents L srv ''Config'' [] fs = config_idents fs"
    by (auto simp: getIdents_def all_idents_def none bindE_def split: sum.split)
  moreover have "filter (\<lambda>m. [''id''] = [] \<or> m_attribute m \<in> set [''id''] \<or> m_attribute m \<in> fst ` set []) config_mappings = []"
    by (simp add: config_mappings_def mapping_of_def Let_def)
  moreover have "ini_mappings ''Config'' = Some config_mappings" "filter_true [] ''type'' = False"
    by (simp_all add: ini_mappings_def filter_true_def)
  ultimately show ?thesis using c
    by (auto simp: read_objects_def bindE_def Let_def split: sum.split)
qed

lemma config_ids_of_file:
  assumes "map_of fs' ConfigPath = map_of fs ConfigPath"
  shows "config_idents fs' = config_idents fs"
proof -
  have "is_file fs' ConfigPath = is_file fs ConfigPath" using assms by (metis is_file_def map_of_eq_None_iff)
  then show ?thesis using assms by (simp add: config_idents_def read_ini_def)
qed

text \<open>What an object needs that is to be inserted: where the backend checks references, its configuration is known.\<close>

definition known_config :: "lib \<Rightarrow> (string \<Rightarrow> string list) \<Rightarrow> string \<Rightarrow> options \<Rightarrow> files \<Rightarrow> obj \<Rightarrow> bool" where
  "known_config L poss srv p fs ob \<longleftrightarrow>
     (checked p \<longrightarrow> (case file_config_getObjects L poss srv [''id''] [] fs of
        Inl _ \<Rightarrow> False
      | Inr (configs, _) \<Rightarrow> attr ob ''configId'' \<in> set (map (\<lambda>c. attr c ''id'') configs)))"

definition insertable :: "lib \<Rightarrow> (string \<Rightarrow> string list) \<Rightarrow> string \<Rightarrow> options \<Rightarrow> files \<Rightarrow> obj \<Rightarrow> bool" where
  "insertable L poss srv p fs ob \<longleftrightarrow> state_ok L fs ob \<and> known_config L poss srv p fs ob"

text \<open>
  What is used of the classes: their attributes, and that \<open>setDefaults\<close> only fills in what is None.
\<close>

definition state_class :: "(string \<Rightarrow> string list) \<Rightarrow> (obj \<Rightarrow> obj) \<Rightarrow> bool" where
  "state_class poss sd \<longleftrightarrow> ''id'' \<in> set (poss ''Config'') \<and> {''configId'', ''objectId''} \<subseteq> set (poss ''ConfigState'') \<and>
     (\<forall>c h v. v \<noteq> JNull \<longrightarrow> sd (config_state c h v) = config_state c h v)"

lemma insertable_same:
  assumes "map_of fs' ConfigPath = map_of fs ConfigPath" and "state_ok L fs' = state_ok L fs"
  shows "insertable L poss srv p fs' = insertable L poss srv p fs"
proof -
  have "known_config L poss srv p fs' ob = known_config L poss srv p fs ob" for ob
    using config_ids_of_file[OF assms(1)]
    by (auto simp: known_config_def file_config_getObjects_def read_config_ids bindE_def split: sum.split)
  then show ?thesis using assms(2) by (simp add: insertable_def fun_eq_iff)
qed

lemma insert_state:
  assumes "state_class poss sd" and "b_get C ''config'' = file_config_getObjects L poss srv" and "insertable L poss srv p fs ob"
  shows "file_configState_insertObject L sd p C ob fs = write_object L Create ob fs"
proof -
  have "sd ob = ob" using assms(1,3) by (auto simp: insertable_def state_class_def elim!: state_okE)
  moreover have "\<exists>configs. ask C ''config'' [''id''] [] fs = (Inr configs, fs) \<and> attr ob ''configId'' \<in> set (map (\<lambda>c. attr c ''id'') configs)"
    if "checked p"
    using that assms(2,3)
    by (auto simp: insertable_def known_config_def ask_def file_config_getObjects_def read_config_ids bindE_def split: sum.splits)
  ultimately show ?thesis
    by (auto simp: file_configState_insertObject_def base_configState_insertObject_def bindS_def Let_def)
qed

interpretation state_files: object_store
  "file_configState_insertObject L sd p C" "file_configState_updateObject L" "file_configState_deleteObjects L" "file_configState_same L poss srv"
  state_ident "state_content L" "\<lambda>old new. new"
  "\<lambda>fs. config_state_lib L \<and> state_class poss sd \<and> b_get C ''config'' = file_config_getObjects L poss srv \<and> files_inv L fs"
  "insertable L poss srv p"
  for L sd p C poss srv
proof (unfold_locales, goal_cases)
  case (1 fs ob)
  have ok: "state_ok L fs ob" using 1(2) by (simp add: insertable_def)
  obtain fs' where fs': "write_object L Create ob fs = Inr fs'" "files_inv L fs'" "state_content L fs' = (state_content L fs)(state_ident ob \<mapsto> ob)"
    "state_ok L fs' = state_ok L fs" "map_of fs' ConfigPath = map_of fs ConfigPath"
    using write_state[of L fs ob Create] 1(1) ok by blast
  then show ?case using insert_state[of poss sd C L srv p fs ob] insertable_same[OF fs'(5,4)] 1 by auto
next
  case (2 fs ob old)
  have ok: "state_ok L fs ob" using 2(2) by (simp add: insertable_def)
  obtain fs' where fs': "write_object L Update ob fs = Inr fs'" "files_inv L fs'" "state_content L fs' = (state_content L fs)(state_ident ob \<mapsto> ob)"
    "state_ok L fs' = state_ok L fs" "map_of fs' ConfigPath = map_of fs ConfigPath"
    using write_state[of L fs ob Update] 2(1) ok by blast
  then show ?case using insertable_same[OF fs'(5,4)] 2(1) by (auto simp: file_configState_updateObject_def)
next
  case (3 fs obs)
  have ok: "\<forall>ob \<in> set obs. state_ok L fs ob" using 3(2) by (simp add: insertable_def)
  obtain fs' where fs': "delete_objects L obs fs = Inr fs'" "files_inv L fs'"
    "\<forall>k. state_content L fs' k = (if k \<in> state_ident ` set obs then None else state_content L fs k)"
    "state_ok L fs' = state_ok L fs" "map_of fs' ConfigPath = map_of fs ConfigPath"
    using delete_states[of L fs obs] 3(1) ok by blast
  then show ?case using insertable_same[OF fs'(5,4)] 3(1) by (auto simp: file_configState_deleteObjects_def)
next
  case (4 fs ob)
  have "state_ok L fs ob" using 4(2) by (simp add: insertable_def)
  then obtain c h v where ob: "ob = config_state c h v" "plain_name L c" "plain_name L h" "host_listed fs h" "lower c = c"
    by (rule state_okE)
  have "attr ob ''configId'' = JStr c" "attr ob ''objectId'' = JStr h" by (simp_all add: ob(1) config_state_def attr_def)
  then show ?case using find_state[of L fs c h srv] 4(1) ob(2-5)
    by (simp add: file_configState_same_def file_configState_getObjects_def state_filter_def state_ident_def base_getObjects_def
        testFilterAndAttributes_def state_class_def)
qed

end
