(* ===== verification/ExtendedStore.thy ===== *)
theory ExtendedStore
  imports ExtendedConfig ConfigStateFiles
begin

text \<open>
  Creating and updating lists of objects through the extended backend over a store that keeps the
  promise of the locale \<open>object_store\<close>: the store ends with exactly what inserting or merging the objects
  one after the other leaves. For config states in files the promise has been shown, so the statements
  hold of the files.
\<close>

section \<open>The specification\<close>

text \<open>The contents and the objects returned, when each object is inserted or merged in its turn.\<close>

fun upserts :: "(obj \<Rightarrow> 'k) \<Rightarrow> (obj \<Rightarrow> obj \<Rightarrow> obj) \<Rightarrow> obj list \<Rightarrow> ('k \<Rightarrow> obj option) \<Rightarrow> obj list \<times> ('k \<Rightarrow> obj option)" where
  "upserts ident merge [] m = ([], m)"
| "upserts ident merge (ob # obs) m =
     (let new = (case m (ident ob) of None \<Rightarrow> ob | Some old \<Rightarrow> merge old ob);
          (vs, m') = upserts ident merge obs (m(ident ob \<mapsto> new))
      in (new # vs, m'))"

lemma upserts_replace: "upserts ident (\<lambda>old new. new) obs m = (obs, foldl (\<lambda>m ob. m(ident ob \<mapsto> ob)) m obs)"
  by (induction obs arbitrary: m) (auto split: option.splits)

lemma foldl_upd_other: "k \<notin> ident ` set obs \<Longrightarrow> foldl (\<lambda>m ob. m(ident ob \<mapsto> ob)) m obs k = m k"
  by (induction obs arbitrary: m) auto

lemma foldl_upd_last:
  "distinct (map ident obs) \<Longrightarrow> ob \<in> set obs \<Longrightarrow> foldl (\<lambda>m ob. m(ident ob \<mapsto> ob)) m obs (ident ob) = Some ob"
proof (induction obs arbitrary: m)
  case (Cons a obs)
  then show ?case
    using foldl_upd_other[of "ident a" ident obs "m(ident a \<mapsto> a)"] by (cases "ob = a") (simp_all del: fun_upd_apply, simp)
qed simp

text \<open>One step of the loops: the object is stored and, where asked for, read back.\<close>

definition store_step :: "bool \<Rightarrow> (obj \<Rightarrow> ('s ext, unit) act) \<Rightarrow> (obj \<Rightarrow> ('s ext, obj list) act) \<Rightarrow> obj \<Rightarrow> obj list \<Rightarrow> ('s ext, obj list) act" where
  "store_step returning put get ob res =
     bindS (put ob) (\<lambda>_. if returning then bindS (get ob) (\<lambda>os. ret (res @ os)) else ret res)"

lemma create_each_steps:
  "create_each ins get obs x = foldS (store_step (option_on x ''returnObjectsOnUpdateAndCreate'') ins get) obs [] x"
  by (simp add: create_each_def store_step_def[abs_def])

lemma bindS_assoc: "bindS (bindS m f) g s = bindS m (\<lambda>a. bindS (f a) g) s"
  by (auto simp: bindS_def split: prod.splits sum.splits)

lemma update_each_steps:
  "update_each ins upd has get obs x =
     foldS (store_step (option_on x ''returnObjectsOnUpdateAndCreate'') (\<lambda>ob. bindS (has ob) (\<lambda>hs. if hs \<noteq> [] then upd ob else ins ob)) get) obs [] x"
proof -
  have "(\<lambda>ob res. bindS (has ob) (\<lambda>hs. bindS (if hs \<noteq> [] then upd ob else ins ob) (f ob res))) =
      (\<lambda>ob res. bindS (bindS (has ob) (\<lambda>hs. if hs \<noteq> [] then upd ob else ins ob)) (f ob res))" for f :: "obj \<Rightarrow> obj list \<Rightarrow> unit \<Rightarrow> ('a ext, obj list) act"
    by (simp add: fun_eq_iff bindS_assoc)
  then show ?thesis by (simp add: update_each_def store_step_def[abs_def])
qed

section \<open>Clients of the store\<close>

context object_store begin

lemma insert_get:
  assumes "inv s" and "ok s ob"
  obtains s' where "insertObject ob s = Inr s'" "inv s'" "ok s' = ok s" "getObjects ob s' = Inr ([ob], s')"
    "\<And>k. k \<noteq> ident ob \<Longrightarrow> content s' k = content s k" "content s' (ident ob) = Some ob"
proof -
  obtain s' where s': "insertObject ob s = Inr s'" "inv s'" "content s' = (content s)(ident ob \<mapsto> ob)" "ok s' = ok s"
    using insert_law[OF assms] by blast
  then have "getObjects ob s' = Inr ([ob], s')" using get_law[of s' ob] assms(2) by simp
  then show thesis using that[of s'] s' by simp
qed

lemma delete_get:
  assumes "inv s" and "\<forall>ob \<in> set obs. ok s ob" and "ok s a"
  obtains s' where "deleteObjects obs s = Inr s'" "inv s'" "ok s' = ok s"
    "getObjects a s' = (if ident a \<in> ident ` set obs then Inr ([], s') else Inr (case content s (ident a) of None \<Rightarrow> [] | Some old \<Rightarrow> [old], s'))"
proof -
  obtain s' where s': "deleteObjects obs s = Inr s'" "inv s'" "ok s' = ok s"
      "\<forall>k. content s' k = (if k \<in> ident ` set obs then None else content s k)"
    using delete_law[OF assms(1,2)] by blast
  then show thesis using that[of s'] get_law[of s' a] assms(3) by simp
qed

text \<open>A way to store an object that leaves what inserting or merging it leaves.\<close>

definition puts :: "(obj \<Rightarrow> obj \<Rightarrow> obj) \<Rightarrow> options \<Rightarrow> (obj \<Rightarrow> ('s ext, unit) act) \<Rightarrow> obj \<Rightarrow> bool" where
  "puts mrg opts put ob \<longleftrightarrow>
     (\<forall>x. e_options x = opts \<and> inv (e_backend x) \<and> ok (e_backend x) ob \<longrightarrow>
        (\<exists>s'. put ob x = (Inr (), x\<lparr>e_backend := s'\<rparr>) \<and> inv s' \<and> ok s' = ok (e_backend x) \<and>
           content s' = (content (e_backend x))(ident ob \<mapsto> (case content (e_backend x) (ident ob) of None \<Rightarrow> ob | Some old \<Rightarrow> mrg old ob))))"

lemma insert_puts:
  assumes ins: "\<And>x. e_options x = opts \<Longrightarrow> ins ob x = do_set (insertObject ob) x"
  shows "puts (\<lambda>old new. new) opts ins ob"
  unfolding puts_def
proof (intro allI impI)
  fix x :: "'s ext" assume x: "e_options x = opts \<and> inv (e_backend x) \<and> ok (e_backend x) ob"
  then obtain s' where "insertObject ob (e_backend x) = Inr s'" "inv s'" "content s' = (content (e_backend x))(ident ob \<mapsto> ob)"
      "ok s' = ok (e_backend x)"
    using insert_law by blast
  then show "\<exists>s'. ins ob x = (Inr (), x\<lparr>e_backend := s'\<rparr>) \<and> inv s' \<and> ok s' = ok (e_backend x) \<and>
      content s' = (content (e_backend x))(ident ob \<mapsto> (case content (e_backend x) (ident ob) of None \<Rightarrow> ob | Some old \<Rightarrow> ob))"
    using ins x by (intro exI[of _ s']) (auto simp: do_set_def split: option.splits)
qed

lemma update_puts:
  assumes has: "\<And>x. e_options x = opts \<Longrightarrow> inv (e_backend x) \<Longrightarrow> ok (e_backend x) ob \<Longrightarrow>
      \<exists>hs. has ob x = (Inr hs, x) \<and> (hs = [] \<longleftrightarrow> content (e_backend x) (ident ob) = None)"
    and upd: "\<And>x. e_options x = opts \<Longrightarrow> upd ob x = do_set (updateObject ob) x"
    and ins: "\<And>x. e_options x = opts \<Longrightarrow> ins ob x = do_set (insertObject ob) x"
  shows "puts merge opts (\<lambda>ob. bindS (has ob) (\<lambda>hs. if hs \<noteq> [] then upd ob else ins ob)) ob"
  unfolding puts_def
proof (intro allI impI)
  fix x :: "'s ext" assume x: "e_options x = opts \<and> inv (e_backend x) \<and> ok (e_backend x) ob"
  let ?put = "bindS (has ob) (\<lambda>hs. if hs \<noteq> [] then upd ob else ins ob) x"
  obtain hs where g: "has ob x = (Inr hs, x)" "hs = [] \<longleftrightarrow> content (e_backend x) (ident ob) = None" using has x by blast
  show "\<exists>s'. ?put = (Inr (), x\<lparr>e_backend := s'\<rparr>) \<and> inv s' \<and> ok s' = ok (e_backend x) \<and>
      content s' = (content (e_backend x))(ident ob \<mapsto> (case content (e_backend x) (ident ob) of None \<Rightarrow> ob | Some old \<Rightarrow> merge old ob))"
  proof (cases "content (e_backend x) (ident ob)")
    case None
    obtain s' where "insertObject ob (e_backend x) = Inr s'" "inv s'" "content s' = (content (e_backend x))(ident ob \<mapsto> ob)"
        "ok s' = ok (e_backend x)"
      using x insert_law by blast
    then show ?thesis using None g ins x by (intro exI[of _ s']) (simp add: bindS_def do_set_def)
  next
    case (Some old)
    obtain s' where "updateObject ob (e_backend x) = Inr s'" "inv s'" "content s' = (content (e_backend x))(ident ob \<mapsto> merge old ob)"
        "ok s' = ok (e_backend x)"
      using x update_law Some by blast
    then show ?thesis using Some g upd x by (intro exI[of _ s']) (simp add: bindS_def do_set_def)
  qed
qed

lemma store_all:
  assumes "\<And>ob. ob \<in> set obs \<Longrightarrow> puts mrg (e_options x) put ob"
    and "inv (e_backend x)" and "\<And>ob. ob \<in> set obs \<Longrightarrow> ok (e_backend x) ob"
  shows "\<exists>s'. foldS (store_step returning put (\<lambda>ob. do_get (getObjects ob))) obs res x =
      (Inr (if returning then res @ fst (upserts ident mrg obs (content (e_backend x))) else res), x\<lparr>e_backend := s'\<rparr>) \<and>
    inv s' \<and> ok s' = ok (e_backend x) \<and> content s' = snd (upserts ident mrg obs (content (e_backend x)))"
  using assms
proof (induction obs arbitrary: x res)
  case Nil
  then show ?case by (intro exI[of _ "e_backend x"]) (cases x, simp)
next
  case (Cons ob obs)
  let ?new = "case content (e_backend x) (ident ob) of None \<Rightarrow> ob | Some old \<Rightarrow> mrg old ob"
  obtain s1 where s1: "put ob x = (Inr (), x\<lparr>e_backend := s1\<rparr>)" "inv s1" "ok s1 = ok (e_backend x)"
      "content s1 = (content (e_backend x))(ident ob \<mapsto> ?new)"
    using Cons.prems unfolding puts_def by (metis list.set_intros(1))
  let ?x1 = "x\<lparr>e_backend := s1\<rparr>" and ?res1 = "if returning then res @ [?new] else res"
  have "do_get (getObjects ob) ?x1 = (Inr [?new], ?x1)"
    using get_law[of s1 ob] s1 Cons.prems(3) by (simp add: do_get_def)
  then have step: "store_step returning put (\<lambda>ob. do_get (getObjects ob)) ob res x = (Inr ?res1, ?x1)"
    using s1(1) by (simp add: store_step_def bindS_def)
  obtain s' where s': "foldS (store_step returning put (\<lambda>ob. do_get (getObjects ob))) obs ?res1 ?x1 =
      (Inr (if returning then ?res1 @ fst (upserts ident mrg obs (content s1)) else ?res1), ?x1\<lparr>e_backend := s'\<rparr>)"
    "inv s'" "ok s' = ok s1" "content s' = snd (upserts ident mrg obs (content s1))"
    using Cons.IH[of ?x1 ?res1] Cons.prems s1(2,3) by auto
  show ?case
    using s' step s1(3,4) by (intro exI[of _ s']) (auto simp: bindS_def Let_def split: prod.splits)
qed

end

section \<open>Config states in files\<close>

lemma same_state_files:
  assumes "b_get B ''configState'' = file_configState_getObjects L poss srv"
  shows "same_state B cs = do_get (file_configState_same L poss srv cs)"
  by (simp add: same_state_def assms file_configState_same_def[abs_def] filter_by_def)

text \<open>Without the options that add defaults and drop states that equal them, states go to the files as they are.\<close>

definition plain_options :: "options \<Rightarrow> bool" where
  "plain_options p \<longleftrightarrow> \<not> true_option p ''addConfigStateDefaults'' \<and> \<not> true_option p ''deleteConfigStateIfDefault''"

lemma plain_insert:
  assumes "plain_options (e_options x)" and "attr ob ''configId'' \<noteq> JStr depot_config" and "b_insert B ''configState'' = ins"
  shows "configState_insertObject L B ob x = do_set (ins ob) x"
  using assms by (simp add: configState_insertObject_def configState_checkValid_def plain_options_def option_on_def bindS_def)

lemma plain_update:
  assumes "plain_options (e_options x)" and "attr ob ''configId'' \<noteq> JStr depot_config" and "b_update B ''configState'' = upd"
  shows "configState_updateObject L B ob x = do_set (upd ob) x"
  using assms by (simp add: configState_updateObject_def configState_checkValid_def plain_options_def option_on_def bindS_def)

text \<open>Lists of config states over any store that keeps the promise and replaces the old state by the new one.\<close>

context object_store begin

lemma state_lists:
  assumes "inv (e_backend x)" and "plain_options (e_options x)" and "merge = (\<lambda>old new. new)"
    and "\<forall>ob \<in> set obs. ok (e_backend x) ob \<and> attr ob ''configId'' \<noteq> JStr depot_config"
    and "b_insert B ''configState'' = insertObject" and "b_update B ''configState'' = updateObject"
    and "\<And>ob. same_state B ob = do_get (getObjects ob)"
    and "\<And>x ob. plain_options (e_options x) \<Longrightarrow> inv (e_backend x) \<Longrightarrow> ok (e_backend x) ob \<Longrightarrow>
      \<exists>hs. configState_getObjects L B [''configId'', ''objectId''] (filter_by [''configId'', ''objectId''] ob) x = (Inr hs, x) \<and>
        (hs = [] \<longleftrightarrow> content (e_backend x) (ident ob) = None)"
  shows "\<exists>s1 s2.
     configState_createObjects L B obs x = (Inr (if option_on x ''returnObjectsOnUpdateAndCreate'' then obs else []), x\<lparr>e_backend := s1\<rparr>) \<and>
     configState_updateObjects L B obs x = (Inr (if option_on x ''returnObjectsOnUpdateAndCreate'' then obs else []), x\<lparr>e_backend := s2\<rparr>) \<and>
     inv s1 \<and> inv s2 \<and> content s1 = foldl (\<lambda>m ob. m(ident ob \<mapsto> ob)) (content (e_backend x)) obs \<and> content s2 = content s1"
proof -
  let ?r = "option_on x ''returnObjectsOnUpdateAndCreate''" and ?rep = "\<lambda>(old :: obj) (new :: obj). new"
  have get: "same_state B = (\<lambda>ob. do_get (getObjects ob))" using assms(7) by (simp add: fun_eq_iff)
  have "puts ?rep (e_options x) (configState_insertObject L B) ob" if "ob \<in> set obs" for ob
    by (rule insert_puts) (use plain_insert[OF _ _ assms(5)] assms(2,4) that in auto)
  from store_all[where obs = obs and returning = ?r and res = "[]", OF this] assms(1,4) get
  obtain s1 where 1: "configState_createObjects L B obs x = (Inr (if ?r then obs else []), x\<lparr>e_backend := s1\<rparr>)" "inv s1"
      "content s1 = foldl (\<lambda>m ob. m(ident ob \<mapsto> ob)) (content (e_backend x)) obs"
    by (auto simp: configState_createObjects_def create_each_steps upserts_replace)
  let ?put = "\<lambda>ob. bindS (configState_getObjects L B [''configId'', ''objectId''] (filter_by [''configId'', ''objectId''] ob))
      (\<lambda>hs. if hs \<noteq> [] then configState_updateObject L B ob else configState_insertObject L B ob)"
  have "puts ?rep (e_options x) ?put ob" if "ob \<in> set obs" for ob
    unfolding assms(3)[symmetric] by (rule update_puts)
      (use plain_insert[OF _ _ assms(5)] plain_update[OF _ _ assms(6)] assms(8) assms(2,4) that in auto)
  from store_all[where obs = obs and returning = ?r and res = "[]", OF this] assms(1,4) get
  obtain s2 where 2: "configState_updateObjects L B obs x = (Inr (if ?r then obs else []), x\<lparr>e_backend := s2\<rparr>)" "inv s2"
      "content s2 = foldl (\<lambda>m ob. m(ident ob \<mapsto> ob)) (content (e_backend x)) obs"
    by (auto simp: configState_updateObjects_def update_each_steps upserts_replace)
  from 1 2 show ?thesis by (intro exI[of _ s1] exI[of _ s2]) simp
qed

end

text \<open>
  The methods of the file backend under the extended backend; \<open>C\<close> is the context it asks for the configs.
\<close>

definition over_files ::
  "lib \<Rightarrow> (string \<Rightarrow> string list) \<Rightarrow> string \<Rightarrow> (obj \<Rightarrow> obj) \<Rightarrow> options \<Rightarrow> files backend \<Rightarrow> files backend \<Rightarrow> bool" where
  "over_files L poss srv sd p C B \<longleftrightarrow>
     b_get B ''configState'' = file_configState_getObjects L poss srv \<and>
     b_insert B ''configState'' = file_configState_insertObject L sd p C \<and>
     b_update B ''configState'' = file_configState_updateObject L \<and>
     b_get C ''config'' = file_config_getObjects L poss srv"

lemma plain_idents:
  assumes "plain_options (e_options x)" and "config_state_lib L" and "state_class poss sd" and "files_inv L (e_backend x)"
    and "insertable L poss srv p (e_backend x) ob" and "b_get B ''configState'' = file_configState_getObjects L poss srv"
  shows "\<exists>hs. configState_getObjects L B [''configId'', ''objectId''] (filter_by [''configId'', ''objectId''] ob) x = (Inr hs, x) \<and>
    (hs = [] \<longleftrightarrow> state_content L (e_backend x) (state_ident ob) = None)"
proof -
  have "state_ok L (e_backend x) ob" using assms(5) by (simp add: insertable_def)
  then obtain c h v where ob: "ob = config_state c h v" "plain_name L c" "plain_name L h" "host_listed (e_backend x) h" "lower c = c"
    by (rule state_okE)
  have f: "filter_by [''configId'', ''objectId''] ob = state_filter c h" and i: "state_ident ob = (JStr c, JStr h)"
    by (simp_all add: ob(1) filter_by_def state_filter_def config_state_def attr_def state_ident_def)
  have "file_configState_getObjects L poss srv [''configId'', ''objectId''] (state_filter c h) (e_backend x) =
      Inr (if state_content L (e_backend x) (JStr c, JStr h) = None then [] else [config_state c h JNull], e_backend x)"
    using find_state_ident[OF assms(2,4) ob(2-5)] assms(3)
    by (simp add: file_configState_getObjects_def base_getObjects_def testFilterAndAttributes_def state_class_def state_filter_def)
  then show ?thesis using assms(1,6) f i
    by (simp add: configState_getObjects_def bindS_def do_get_def plain_options_def option_on_def)
qed

text \<open>
  C3: Through the extended backend over files, creating a list of config states and updating it leave
  the same states: those before, changed by putting each object in its turn under its configuration and
  host. Both return the objects when the backend is asked to return them, and the files stay well formed. The backend checks
  references as its option says: where it does, the configurations are known. The two options of the extended
  backend that add defaults and drop states that equal them are off, and no object is for \<open>clientconfig.depot.id\<close>.
\<close>

theorem config_state_lists_refine:
  assumes "config_state_lib L" and "state_class poss sd" and "over_files L poss srv sd p C B"
    and "files_inv L (e_backend x)" and "plain_options (e_options x)"
    and "\<forall>ob \<in> set obs. insertable L poss srv p (e_backend x) ob \<and> attr ob ''configId'' \<noteq> JStr depot_config"
  shows "\<exists>fs1 fs2.
     configState_createObjects L B obs x = (Inr (if option_on x ''returnObjectsOnUpdateAndCreate'' then obs else []), x\<lparr>e_backend := fs1\<rparr>) \<and>
     configState_updateObjects L B obs x = (Inr (if option_on x ''returnObjectsOnUpdateAndCreate'' then obs else []), x\<lparr>e_backend := fs2\<rparr>) \<and>
     files_inv L fs1 \<and> files_inv L fs2 \<and>
     state_content L fs1 = foldl (\<lambda>m ob. m(state_ident ob \<mapsto> ob)) (state_content L (e_backend x)) obs \<and>
     state_content L fs2 = state_content L fs1"
proof -
  have B: "b_get B ''configState'' = file_configState_getObjects L poss srv" "b_insert B ''configState'' = file_configState_insertObject L sd p C"
    "b_update B ''configState'' = file_configState_updateObject L" "b_get C ''config'' = file_config_getObjects L poss srv"
    using assms(3) by (simp_all add: over_files_def)
  have get: "same_state B ob = do_get (file_configState_same L poss srv ob)" for ob by (rule same_state_files[OF B(1)])
  show ?thesis
    using state_files.state_lists[where x = x and obs = obs and B = B, OF _ assms(5) _ _ B(2,3) get]
      plain_idents[OF _ _ _ _ _ B(1)] assms(1,2,4,6) B(4) by auto
qed

text \<open>
  Concrete data: a client without states and two configs, in a backend that checks references; objects are built as
  opsicommon builds them, and an empty list is the only value.
\<close>

definition sample_files :: files where
  "sample_files = [(ConfigPath, ''[a.list]'' @ [newline] @ ''[b.list]'' @ [newline]), (ClientPath ''pc1.ini'', [])]"

definition sample_attributes :: "string \<Rightarrow> string list" where
  "sample_attributes c = (if c = ''Config'' then [''id''] else [''configId'', ''objectId'', ''values''])"

definition sample_defaults :: "obj \<Rightarrow> obj" where
  "sample_defaults ob = (if attr ob ''values'' = JNull then set_attr ''values'' (JList []) ob else ob)"

definition check_options :: options where
  "check_options = \<lparr>option_defaults = [(''additionalReferentialIntegrityChecks'', JBool True)], option_store = []\<rparr>"

definition file_context :: "lib \<Rightarrow> (string \<Rightarrow> string list) \<Rightarrow> string \<Rightarrow> files backend" where
  "file_context L poss srv =
     \<lparr>b_get = (\<lambda>pre. if pre = ''config'' then file_config_getObjects L poss srv else file_configState_getObjects L poss srv),
      b_insert = (\<lambda>_ _. Inr), b_update = (\<lambda>_. file_configState_updateObject L), b_delete = (\<lambda>_. file_configState_deleteObjects L),
      b_setOptions = (\<lambda>_ fs. fs), b_getOptions = (\<lambda>_. [])\<rparr>"

definition file_store :: "lib \<Rightarrow> (string \<Rightarrow> string list) \<Rightarrow> string \<Rightarrow> (obj \<Rightarrow> obj) \<Rightarrow> options \<Rightarrow> files backend" where
  "file_store L poss srv sd p =
     (file_context L poss srv)\<lparr>b_insert := (\<lambda>_. file_configState_insertObject L sd p (file_context L poss srv))\<rparr>"

definition sample_ext :: "files ext" where
  "sample_ext = \<lparr>e_options = \<lparr>option_defaults = [(''returnObjectsOnUpdateAndCreate'', JBool True)], option_store = []\<rparr>, e_backend = sample_files\<rparr>"

definition sample_states :: "obj list" where
  "sample_states = [config_state ''a.list'' ''pc1'' (JList []), config_state ''b.list'' ''pc1'' (JList [])]"

lemma sample_lib_ok: "config_state_lib state_sample_lib"
  by (simp add: config_state_lib_def str_lib_def sample_lib_def state_sample_lib_def config_state_def)

lemma sample_class_ok: "state_class sample_attributes sample_defaults"
  by (simp add: state_class_def sample_attributes_def sample_defaults_def config_state_def attr_def)

lemma sample_files_ok: "files_inv state_sample_lib sample_files"
proof -
  have "ini_parse False [] = Inr []" by code_simp
  moreover have "state_file state_sample_lib h []" for h
    by (simp add: state_file_def clean_ini_def has_section_def sections_def ini_get_def)
  ultimately have "clean_file state_sample_lib h []" for h by (simp add: clean_file_iff)
  then show ?thesis by (auto simp: files_inv_def sample_files_def is_file_def sample_lib_def state_sample_lib_def ini_name_def)
qed

lemma sample_states_ok: "ob \<in> set sample_states \<Longrightarrow> state_ok state_sample_lib sample_files ob"
proof -
  have "clean_option ''a.list'' ''[]''" "clean_option ''b.list'' ''[]''" by code_simp+
  moreover have "lower ''a.list'' = ''a.list''" "lower ''b.list'' = ''b.list''" "lower ''pc1'' = ''pc1''" by code_simp+
  ultimately show "ob \<in> set sample_states \<Longrightarrow> state_ok state_sample_lib sample_files ob"
    by (auto simp: state_ok_def sample_states_def config_state_def plain_name_def host_listed_def is_file_def sample_files_def
        sample_lib_def state_sample_lib_def ini_name_def built_state_def new_config_state_def forceList_def)
qed

lemma sample_configs:
  "file_config_getObjects state_sample_lib sample_attributes ''srv'' [''id''] [] sample_files =
     Inr (map (\<lambda>i. \<lparr>o_class = ''Config'', o_hash = [(''id'', JStr i)], o_generated = False\<rparr>) [''a.list'', ''b.list''], sample_files)"
proof -
  have "config_idents sample_files = Inr [[(''id'', JStr ''a.list'')], [(''id'', JStr ''b.list'')]]" by code_simp
  moreover have "config_object state_sample_lib [(''id'', JStr i)] os =
      Inr (os @ [\<lparr>o_class = ''Config'', o_hash = [(''id'', JStr i)], o_generated = False\<rparr>])" for i os
    by (simp add: config_object_def state_sample_lib_def sample_lib_def)
  ultimately show ?thesis
    by (simp add: file_config_getObjects_def base_getObjects_def testFilterAndAttributes_def sample_attributes_def read_config_ids)
qed

theorem config_state_lists_refine_witness:
  "\<exists>fs1 fs2.
     configState_createObjects state_sample_lib (file_store state_sample_lib sample_attributes ''srv'' sample_defaults check_options) sample_states sample_ext =
       (Inr (if option_on sample_ext ''returnObjectsOnUpdateAndCreate'' then sample_states else []), sample_ext\<lparr>e_backend := fs1\<rparr>) \<and>
     configState_updateObjects state_sample_lib (file_store state_sample_lib sample_attributes ''srv'' sample_defaults check_options) sample_states sample_ext =
       (Inr (if option_on sample_ext ''returnObjectsOnUpdateAndCreate'' then sample_states else []), sample_ext\<lparr>e_backend := fs2\<rparr>) \<and>
     files_inv state_sample_lib fs1 \<and> files_inv state_sample_lib fs2 \<and>
     state_content state_sample_lib fs1 =
       foldl (\<lambda>m ob. m(state_ident ob \<mapsto> ob)) (state_content state_sample_lib (e_backend sample_ext)) sample_states \<and>
     state_content state_sample_lib fs2 = state_content state_sample_lib fs1"
proof (rule config_state_lists_refine[OF sample_lib_ok sample_class_ok])
  show "over_files state_sample_lib sample_attributes ''srv'' sample_defaults check_options (file_context state_sample_lib sample_attributes ''srv'')
      (file_store state_sample_lib sample_attributes ''srv'' sample_defaults check_options)"
    by (simp add: over_files_def file_store_def file_context_def)
  have "insertable state_sample_lib sample_attributes ''srv'' check_options sample_files ob" if "ob \<in> set sample_states" for ob
    using sample_states_ok[OF that] that
    by (auto simp: insertable_def known_config_def sample_configs sample_states_def config_state_def attr_def)
  then show "\<forall>ob \<in> set sample_states. insertable state_sample_lib sample_attributes ''srv'' check_options (e_backend sample_ext) ob \<and>
      attr ob ''configId'' \<noteq> JStr depot_config"
    by (auto simp: sample_ext_def sample_states_def config_state_def attr_def depot_config_def)
qed (simp_all add: sample_files_ok sample_ext_def plain_options_def true_option_def get_option_def)

end
