(* ===== verification/ExtendedProducts.thy ===== *)
theory ExtendedProducts
  imports ExtendedConfig ClientSequence ProductDeps
begin

text \<open>
  Products on depots and clients in the extended backend: one object per product and depot, one per
  product and client, the versions that go with an installation status, the sequence of the products of
  each client and the states their dependencies add.
\<close>

section \<open>Products on depots\<close>

definition productOnDepot_insertObject :: "lib \<Rightarrow> 's backend \<Rightarrow> obj \<Rightarrow> ('s ext, unit) act" where
  "productOnDepot_insertObject L B pod =
     bindS (do_get (b_get B ''productOnDepot'' [] (filter_by [''productId'', ''depotId''] pod))) (\<lambda>current.
       do_set (b_insert B ''productOnDepot'' (case current of [] \<Rightarrow> pod | c # _ \<Rightarrow> mergeObject L True c pod)))"

definition same_pod :: "'s backend \<Rightarrow> obj \<Rightarrow> ('s ext, obj list) act" where
  "same_pod B pod = do_get (b_get B ''productOnDepot'' [] (filter_by [''productId'', ''depotId''] pod))"

definition productOnDepot_createObjects :: "lib \<Rightarrow> 's backend \<Rightarrow> obj list \<Rightarrow> ('s ext, obj list) act" where
  "productOnDepot_createObjects L B = create_each (productOnDepot_insertObject L B) (same_pod B)"

definition pod_attributes :: "string list" where
  "pod_attributes = [''productId'', ''productType'', ''depotId'']"

definition pod_ident :: "string list" where
  "pod_ident = [''productId'', ''productType'', ''productVersion'', ''packageVersion'', ''depotId'']"

definition productOnDepot_updateObjects :: "lib \<Rightarrow> 's backend \<Rightarrow> obj list \<Rightarrow> ('s ext, obj list) act" where
  "productOnDepot_updateObjects L B =
     update_each (productOnDepot_insertObject L B) (\<lambda>ob. do_set (b_update B ''productOnDepot'' ob))
       (\<lambda>ob. do_get (b_get B ''productOnDepot'' pod_attributes (filter_by pod_ident ob))) (same_pod B)"

text \<open>The versions deleted, as the nested dictionaries list them.\<close>

definition firsts :: "'a list \<Rightarrow> 'a list" where
  "firsts xs = foldl (\<lambda>acc x. if x \<in> set acc then acc else acc @ [x]) [] xs"

definition deleted_versions :: "obj list \<Rightarrow> (json \<times> json \<times> json) list" where
  "deleted_versions pods =
     concat (map (\<lambda>p.
       let ps = filter (\<lambda>d. attr d ''productId'' = p) pods
       in concat (map (\<lambda>v. map (\<lambda>k. (p, v, k)) (firsts (map (\<lambda>d. attr d ''packageVersion'') (filter (\<lambda>d. attr d ''productVersion'' = v) ps))))
            (firsts (map (\<lambda>d. attr d ''productVersion'') ps))))
       (firsts (map (\<lambda>d. attr d ''productId'') pods)))"

definition drop_orphan :: "'s backend \<Rightarrow> json \<times> json \<times> json \<Rightarrow> ('s ext, unit) act" where
  "drop_orphan B pvk =
     (case pvk of (p, v, k) \<Rightarrow>
        bindS (do_get (b_get B ''productOnDepot'' pod_attributes [(''productId'', p), (''productVersion'', v), (''packageVersion'', k)])) (\<lambda>left.
          if left = [] then
            bindS (do_get (b_get B ''product'' [] [(''id'', JList [p]), (''productVersion'', JList [v]), (''packageVersion'', JList [k])]))
              (\<lambda>ps. do_set (b_delete B ''product'' ps))
          else ret ()))"

definition productOnDepot_deleteObjects :: "'s backend \<Rightarrow> obj list \<Rightarrow> ('s ext, unit) act" where
  "productOnDepot_deleteObjects B pods =
     bindS (do_set (b_delete B ''productOnDepot'' pods)) (\<lambda>_. foldS (\<lambda>pvk _. drop_orphan B pvk) (deleted_versions pods) ())"

section \<open>Storing a product on a client\<close>

definition installed :: json where "installed = JStr ''installed''"

text \<open>The versions of an installed product come from the depot of the client when they are not given.\<close>

definition settle_version :: "lib \<Rightarrow> 's backend \<Rightarrow> obj \<Rightarrow> ('s ext, obj) act" where
  "settle_version L B poc =
     (if \<not> json_true (attr poc ''installationStatus'') then ret poc
      else if attr poc ''installationStatus'' \<noteq> installed then
        ret (set_attr ''packageVersion'' JNull (set_attr ''productVersion'' JNull poc))
      else if json_true (attr poc ''productVersion'') \<and> json_true (attr poc ''packageVersion'') then ret poc
      else bindS (configState_getClientToDepotserver L B (JList []) (JList [attr poc ''clientId'']) True (JList [])) (\<lambda>depots.
             case depots of
               [] \<Rightarrow> fail BackendError
             | d # _ \<Rightarrow>
                 bindS (do_get (b_get B ''productOnDepot'' [] [(''depotId'', cd_depotId d), (''productId'', attr poc ''productId'')])) (\<lambda>pods.
                   case pods of
                     [] \<Rightarrow> fail BackendError
                   | pod # _ \<Rightarrow>
                       ret (set_attr ''packageVersion'' (attr pod ''packageVersion'')
                         (set_attr ''productVersion'' (attr pod ''productVersion'') poc)))))"

definition productOnClientUpdateOrCreate :: "lib \<Rightarrow> 's backend \<Rightarrow> json \<Rightarrow> bool \<Rightarrow> obj \<Rightarrow> ('s ext, unit) act" where
  "productOnClientUpdateOrCreate L B now update poc =
     bindS (do_get (b_get B ''productOnClient'' [] (filter_by [''productId'', ''clientId''] poc))) (\<lambda>current.
     bindS (settle_version L B (case current of [] \<Rightarrow> poc | c # _ \<Rightarrow> mergeObject L (\<not> update) c poc)) (\<lambda>nextPoc.
       do_set (b_insert B ''productOnClient'' (set_attr ''modificationTime'' now nextPoc))))"

definition productOnClient_insertObject :: "lib \<Rightarrow> 's backend \<Rightarrow> json \<Rightarrow> obj \<Rightarrow> ('s ext, unit) act" where
  "productOnClient_insertObject L B now = productOnClientUpdateOrCreate L B now False"

definition productOnClient_updateObject :: "lib \<Rightarrow> 's backend \<Rightarrow> json \<Rightarrow> obj \<Rightarrow> ('s ext, unit) act" where
  "productOnClient_updateObject L B now = productOnClientUpdateOrCreate L B now True"

section \<open>Working on the products of all clients\<close>

text \<open>
  The dependencies of the products and of what they require; \<open>pids\<close> are the products asked for, \<open>extra\<close> the
  required ones found. The number bounds the depth of the recursion, as the interpreter does.
\<close>

fun collectDependencies :: "'s backend \<Rightarrow> nat \<Rightarrow> json list \<Rightarrow> obj \<Rightarrow> json list \<times> obj list \<Rightarrow> ('s ext, json list \<times> obj list) act" where
  "collectDependencies B 0 pids d st = fail OtherError"
| "collectDependencies B (Suc n) pids d st =
     (case st of (extra, known) \<Rightarrow>
        let known' = known @ [d]; r = attr d ''requiredProductId''
        in if r \<in> set pids \<or> r \<in> set extra then ret (extra, known')
           else bindS (do_get (b_get B ''productDependency'' [] [(''productId'', r)]))
                  (\<lambda>ds. foldS (collectDependencies B n pids) ds (extra @ [r], known')))"

definition of_version :: "obj \<Rightarrow> obj \<Rightarrow> bool" where
  "of_version p d \<longleftrightarrow> attr d ''productId'' = attr p ''id'' \<and> attr d ''productVersion'' = attr p ''productVersion'' \<and>
     attr d ''packageVersion'' = attr p ''packageVersion''"

text \<open>
  The function looks the product of a dependency up by the dependency's own product id, so it stays at the same
  product and adds the dependencies of this product.
\<close>

definition addDependencies :: "obj list \<Rightarrow> obj \<Rightarrow> obj list \<Rightarrow> obj list" where
  "addDependencies known p deps = foldl (\<lambda>acc d. if d \<in> set acc then acc else acc @ [d]) deps (filter (of_version p) known)"

definition product_of :: "obj list \<Rightarrow> obj \<Rightarrow> obj option" where
  "product_of products pod =
     find (\<lambda>p. attr p ''id'' = attr pod ''productId'' \<and> attr p ''productVersion'' = attr pod ''productVersion'' \<and>
        attr p ''packageVersion'' = attr pod ''packageVersion'') (rev products)"

text \<open>A product that is missing ends in a KeyError of the innermost dictionary.\<close>

definition available_on :: "obj list \<Rightarrow> obj list \<Rightarrow> obj list \<Rightarrow> (backend_error, obj list \<times> obj list) result" where
  "available_on products known pods =
     foldE (\<lambda>pod (ps, ds).
         case product_of products pod of
           None \<Rightarrow> Inl KeyError
         | Some p \<Rightarrow> Inr (if p \<in> set ps then ps else ps @ [p], addDependencies known p ds)) pods ([], [])"

type_synonym poc_function = "obj list \<Rightarrow> obj list \<Rightarrow> obj list \<Rightarrow> (backend_error, obj list) result"

definition process_depot ::
  "'s backend \<Rightarrow> poc_function \<Rightarrow> (json, obj list) dict \<Rightarrow> json list \<Rightarrow> obj list \<Rightarrow> obj list \<Rightarrow> json \<times> json list \<Rightarrow>
   obj list \<Rightarrow> ('s ext, obj list) act" where
  "process_depot B fn byClient pids products known dc acc =
     bindS (do_get (b_get B ''productOnDepot'' [] [(''depotId'', fst dc), (''productId'', JList pids)])) (\<lambda>pods.
     bindS (liftE (available_on products known pods)) (\<lambda>(ps, ds).
       liftE (foldE (\<lambda>c acc. case map_of byClient c of
           None \<Rightarrow> Inr acc
         | Some pocs \<Rightarrow> bindE (fn pocs ps ds) (\<lambda>r. Inr (acc @ r))) (snd dc) acc)))"

definition processWithFunction :: "lib \<Rightarrow> 's backend \<Rightarrow> nat \<Rightarrow> poc_function \<Rightarrow> obj list \<Rightarrow> ('s ext, obj list) act" where
  "processWithFunction L B depth fn pocs =
     (let byClient = group_by (\<lambda>p. attr p ''clientId'') (\<lambda>p. p) pocs; pids = firsts (map (\<lambda>p. attr p ''productId'') pocs)
      in bindS (configState_getClientToDepotserver L B (JList []) (JList (dict_keys byClient)) True (JList [])) (\<lambda>cds.
         bindS (do_get (b_get B ''product'' [] [(''id'', JList pids)])) (\<lambda>products.
         bindS (do_get (b_get B ''productDependency'' [] [(''productId'', JList pids)])) (\<lambda>deps.
         bindS (foldS (collectDependencies B depth pids) deps ([], [])) (\<lambda>(extra, known).
         bindS (if extra = [] then ret [] else do_get (b_get B ''product'' [] [(''id'', JList extra)])) (\<lambda>more.
           foldS (process_depot B fn byClient (pids @ extra) (products @ more) known) (depot_groups cds) []))))))"

section \<open>The algorithms of OPSI/SharedAlgorithm.py on objects\<close>

text \<open>The attributes the algorithms read.\<close>

definition str_of :: "obj \<Rightarrow> string \<Rightarrow> string" where
  "str_of ob k = (case attr ob k of JStr s \<Rightarrow> s | _ \<Rightarrow> [])"

definition opt_str :: "obj \<Rightarrow> string \<Rightarrow> string option" where
  "opt_str ob k = (case attr ob k of JStr s \<Rightarrow> Some s | _ \<Rightarrow> None)"

definition to_product :: "obj \<Rightarrow> product" where
  "to_product ob = \<lparr>p_id = str_of ob ''id'', p_type = o_class ob, p_productVersion = str_of ob ''productVersion'',
     p_packageVersion = str_of ob ''packageVersion'', p_priority = (case attr ob ''priority'' of JInt i \<Rightarrow> Some i | _ \<Rightarrow> None)\<rparr>"

definition to_dependency :: "obj \<Rightarrow> product_dependency" where
  "to_dependency ob = \<lparr>d_productId = str_of ob ''productId'', d_productAction = str_of ob ''productAction'',
     d_requiredProductId = str_of ob ''requiredProductId'', d_requiredProductVersion = opt_str ob ''requiredProductVersion'',
     d_requiredPackageVersion = opt_str ob ''requiredPackageVersion'', d_requiredAction = opt_str ob ''requiredAction'',
     d_requiredInstallationStatus = opt_str ob ''requiredInstallationStatus'', d_requirementType = opt_str ob ''requirementType''\<rparr>"

definition to_poc :: "obj \<Rightarrow> product_on_client" where
  "to_poc ob = \<lparr>c_productId = str_of ob ''productId'', c_productType = str_of ob ''productType'', c_clientId = str_of ob ''clientId'',
     c_installationStatus = opt_str ob ''installationStatus'', c_actionRequest = opt_str ob ''actionRequest'',
     c_actionSequence = (case attr ob ''actionSequence'' of JInt i \<Rightarrow> i | _ \<Rightarrow> -1)\<rparr>"

text \<open>The objects are numbered in place: each result is the last object given for its product and client.\<close>

definition numbered :: "obj list \<Rightarrow> product_on_client \<Rightarrow> obj option" where
  "numbered pocs c =
     map_option (set_attr ''actionSequence'' (JInt (c_actionSequence c)))
       (find (\<lambda>ob. str_of ob ''productId'' = c_productId c \<and> str_of ob ''clientId'' = c_clientId c) (rev pocs))"

definition sequence_function :: poc_function where
  "sequence_function pocs products deps =
     (case generateProductOnClientSequence_algorithm1 (map to_poc pocs) (map to_product products) (map to_dependency deps) of
        Inl _ \<Rightarrow> Inl OtherError
      | Inr cs \<Rightarrow> Inr (List.map_filter (numbered pocs) cs))"

definition productOnClient_generateSequence :: "lib \<Rightarrow> 's backend \<Rightarrow> nat \<Rightarrow> obj list \<Rightarrow> ('s ext, obj list) act" where
  "productOnClient_generateSequence L B depth = processWithFunction L B depth sequence_function"

definition json_opt :: "string option \<Rightarrow> json" where
  "json_opt v = (case v of None \<Rightarrow> JNull | Some s \<Rightarrow> JStr s)"

text \<open>The objects given keep everything but the action request; new ones are made by the constructor.\<close>

definition requested :: "lib \<Rightarrow> obj list \<Rightarrow> product_on_client \<Rightarrow> (backend_error, obj) result" where
  "requested L pocs c =
     (case find (\<lambda>ob. str_of ob ''productId'' = c_productId c \<and> str_of ob ''clientId'' = c_clientId c) (rev pocs) of
        Some ob \<Rightarrow> Inr (set_attr ''actionRequest'' (json_opt (c_actionRequest c)) ob)
      | None \<Rightarrow>
          (case fromHash L ''ProductOnClient'' [(''productId'', JStr (c_productId c)), (''productType'', JStr (c_productType c)),
               (''clientId'', JStr (c_clientId c)), (''installationStatus'', json_opt (c_installationStatus c)),
               (''actionRequest'', json_opt (c_actionRequest c))] of
             None \<Rightarrow> Inl OtherError
           | Some ob \<Rightarrow> Inr ob))"

definition dependency_function ::
  "lib \<Rightarrow> (string \<Rightarrow> string \<Rightarrow> string \<Rightarrow> product_on_client) \<Rightarrow> (string option \<Rightarrow> product_on_client \<Rightarrow> product_on_client option) \<Rightarrow> poc_function" where
  "dependency_function L mk setr pocs products deps =
     (case addDependentProductOnClients mk setr (map to_poc pocs) (map to_product products) (map to_dependency deps) of
        Inl _ \<Rightarrow> Inl OtherError
      | Inr cs \<Rightarrow> mapE (requested L pocs) cs)"

definition productOnClient_addDependencies ::
  "lib \<Rightarrow> 's backend \<Rightarrow> nat \<Rightarrow> (string \<Rightarrow> string \<Rightarrow> string \<Rightarrow> product_on_client) \<Rightarrow>
   (string option \<Rightarrow> product_on_client \<Rightarrow> product_on_client option) \<Rightarrow> obj list \<Rightarrow> ('s ext, obj list) act" where
  "productOnClient_addDependencies L B depth mk setr = processWithFunction L B depth (dependency_function L mk setr)"

section \<open>Getting products on clients\<close>

definition default_values :: "(string \<times> json) list" where
  "default_values =
     [(''installationStatus'', JStr ''not_installed''), (''actionRequest'', JStr ''none''), (''productVersion'', JNull),
      (''packageVersion'', JNull), (''modificationTime'', JNull), (''targetState'', JNull), (''lastAction'', JNull),
      (''actionProgress'', JNull), (''actionResult'', JNull)]"

definition defaultMatchesFilter :: "hash \<Rightarrow> bool" where
  "defaultMatchesFilter f \<longleftrightarrow>
     list_all (\<lambda>(k, d). \<not> filter_true f k \<or> d \<in> set (forceList (filter_value f k JNull))) default_values"

definition pocAttributes :: "bool \<Rightarrow> string list \<Rightarrow> string list" where
  "pocAttributes adjust as =
     (if adjust \<and> as \<noteq> []
      then as @ filter (\<lambda>k. k \<notin> set as) [''installationStatus'', ''actionRequest'', ''productVersion'', ''packageVersion'']
      else as)"

text \<open>The dictionary of what is known of the clients: a state of another host ends in a KeyError.\<close>

definition known_products :: "json list \<Rightarrow> obj list \<Rightarrow> (backend_error, (json, json list) dict) result" where
  "known_products clientIds pocs =
     foldE (\<lambda>poc d. case map_of d (attr poc ''clientId'') of
         None \<Rightarrow> Inl KeyError
       | Some ps \<Rightarrow> Inr (AList.update (attr poc ''clientId'') (ps @ [attr poc ''productId'']) d))
       pocs (map (\<lambda>i. (i, [])) clientIds)"

definition default_poc :: "lib \<Rightarrow> json \<Rightarrow> obj \<Rightarrow> (backend_error, obj) result" where
  "default_poc L clientId pod =
     (case fromHash L ''ProductOnClient'' [(''productId'', attr pod ''productId''), (''productType'', attr pod ''productType''),
          (''clientId'', clientId), (''installationStatus'', JStr ''not_installed''), (''actionRequest'', JStr ''none'')] of
        None \<Rightarrow> Inl OtherError
      | Some ob \<Rightarrow> Inr (ob\<lparr>o_generated := True\<rparr>))"

definition client_defaults :: "lib \<Rightarrow> (json, json list) dict \<Rightarrow> obj list \<Rightarrow> json \<Rightarrow> obj list \<Rightarrow> (backend_error, obj list) result" where
  "client_defaults L known pods clientId acc =
     foldE (\<lambda>pod acc. case map_of known clientId of
         None \<Rightarrow> Inl KeyError
       | Some ps \<Rightarrow> if attr pod ''productId'' \<in> set ps then Inr acc else bindE (default_poc L clientId pod) (\<lambda>ob. Inr (acc @ [ob])))
       pods acc"

definition pods_of_depots :: "'s backend \<Rightarrow> hash \<Rightarrow> (json, json list) dict \<Rightarrow> ('s ext, (json list \<times> obj list) list) act" where
  "pods_of_depots B f groups =
     foldS (\<lambda>(d, clients) acc.
         bindS (do_get (b_get B ''productOnDepot'' [] ((''depotId'', d) #
             map (\<lambda>k. (k, filter_value f k JNull)) [''productId'', ''productType'', ''productVersion'', ''packageVersion''])))
           (\<lambda>pods. ret (acc @ [(clients, pods)]))) groups []"

definition with_product_defaults :: "lib \<Rightarrow> 's backend \<Rightarrow> hash \<Rightarrow> obj list \<Rightarrow> ('s ext, obj list) act" where
  "with_product_defaults L B f pocs =
     bindS (host_getIdents B [(''id'', filter_value f ''clientId'' JNull)]) (\<lambda>clientIds.
     bindS (configState_getClientToDepotserver L B (JList []) (JList clientIds) True (JList [])) (\<lambda>cds.
     bindS (pods_of_depots B f (depot_groups cds)) (\<lambda>depots.
     bindS (liftE (known_products clientIds pocs)) (\<lambda>known.
       liftE (foldE (\<lambda>(clients, pods). foldE (client_defaults L known pods) clients) depots pocs)))))"

definition productOnClient_getObjects :: "lib \<Rightarrow> 's backend \<Rightarrow> nat \<Rightarrow> string list \<Rightarrow> hash \<Rightarrow> ('s ext, obj list) act" where
  "productOnClient_getObjects L B depth attributes f x =
     (let add = option_on x ''addProductOnClientDefaults''; sequence = option_on x ''processProductOnClientSequence'';
          adjust = add \<and> defaultMatchesFilter f \<or> sequence;
          pocFilter = (if adjust then filter (\<lambda>(k, v). k \<notin> fst ` set default_values) f else f)
      in bindS (do_get (b_get B ''productOnClient'' (pocAttributes (add \<or> sequence) attributes) pocFilter)) (\<lambda>pocs.
           if \<not> adjust then ret pocs
           else bindS (if add then with_product_defaults L B pocFilter pocs else ret pocs) (\<lambda>pocs1.
                bindS (if sequence then productOnClient_generateSequence L B depth pocs1 else ret pocs1) (\<lambda>pocs2.
                  liftE (filterE (\<lambda>ob. objectHashMatches L (o_hash ob) f) pocs2)))) x)"

section \<open>Creating and updating products on clients\<close>

definition same_poc :: "'s backend \<Rightarrow> obj \<Rightarrow> ('s ext, obj list) act" where
  "same_poc B poc = do_get (b_get B ''productOnClient'' [] (filter_by [''productId'', ''clientId''] poc))"

definition poc_ident :: "string list" where
  "poc_ident = [''productId'', ''productType'', ''clientId'']"

definition productOnClient_createObjects ::
  "lib \<Rightarrow> 's backend \<Rightarrow> json \<Rightarrow> (obj list \<Rightarrow> ('s ext, obj list) act) \<Rightarrow> obj list \<Rightarrow> ('s ext, obj list) act" where
  "productOnClient_createObjects L B now addDeps pocs x =
     bindS (if option_on x ''addDependentProductOnClients'' then addDeps pocs else ret pocs)
       (create_each (productOnClient_insertObject L B now) (same_poc B)) x"

definition productOnClient_updateObjects ::
  "lib \<Rightarrow> 's backend \<Rightarrow> nat \<Rightarrow> json \<Rightarrow> (obj list \<Rightarrow> ('s ext, obj list) act) \<Rightarrow> obj list \<Rightarrow> ('s ext, obj list) act" where
  "productOnClient_updateObjects L B depth now addDeps pocs x =
     bindS (if option_on x ''addDependentProductOnClients'' then addDeps pocs else ret pocs)
       (update_each (productOnClient_insertObject L B now) (productOnClient_updateObject L B now)
          (\<lambda>poc. productOnClient_getObjects L B depth poc_ident (filter_by poc_ident poc)) (same_poc B)) x"

end
