(* ===== verification/ConfigDefaults.thy ===== *)
theory ConfigDefaults
  imports ExtendedConfig
begin

text \<open>
  What the extended backend promises about defaults: every client has one state for every configuration,
  and the option that adds the defaults has its old value again after the depots of the clients have
  been looked up, also when that fails.
\<close>

section \<open>One state for each configuration and client\<close>

definition state_hash :: "json \<Rightarrow> json \<Rightarrow> json \<Rightarrow> hash" where
  "state_hash c i v = [(''configId'', c), (''objectId'', i), (''values'', v)]"

definition generated :: "lib \<Rightarrow> obj \<times> json \<Rightarrow> obj" where
  "generated L ci =
     (the (fromHash L ''ConfigState'' (state_hash (attr (fst ci) ''id'') (snd ci) (attr (fst ci) ''defaultValues''))))\<lparr>o_generated := True\<rparr>"

text \<open>
  What opsicommon documents of \<open>ConfigState(configId, objectId, values)\<close>: the ids are checked and written in lower case, the values
  are kept as a sorted list. So ids that are valid (\<open>cid\<close>, \<open>hid\<close>) and in lower case stay as they are, and a list of texts or of truth values
  keeps its elements.
\<close>

definition uniform :: "json list \<Rightarrow> bool" where
  "uniform vs \<longleftrightarrow> list_all (\<lambda>v. \<exists>s. v = JStr s) vs \<or> list_all (\<lambda>v. \<exists>b. v = JBool b) vs"

definition state_constructor :: "(string \<Rightarrow> bool) \<Rightarrow> (string \<Rightarrow> bool) \<Rightarrow> lib \<Rightarrow> bool" where
  "state_constructor cid hid L \<longleftrightarrow>
     (\<forall>c i vs. cid c \<and> hid i \<and> uniform vs \<longrightarrow>
        (\<exists>ws. mset ws = mset vs \<and> fromHash L ''ConfigState'' (state_hash (JStr c) (JStr i) (JList vs)) =
           Some \<lparr>o_class = ''ConfigState'', o_hash = state_hash (JStr (lower c)) (JStr (lower i)) (JList ws), o_generated = False\<rparr>))"

definition good_config :: "(string \<Rightarrow> bool) \<Rightarrow> obj \<Rightarrow> bool" where
  "good_config cid c \<longleftrightarrow>
     (\<exists>s vs. attr c ''id'' = JStr s \<and> cid s \<and> lower s = s \<and> attr c ''defaultValues'' = JList vs \<and> uniform vs)"

definition good_host :: "(string \<Rightarrow> bool) \<Rightarrow> json \<Rightarrow> bool" where
  "good_host hid i \<longleftrightarrow> (\<exists>s. i = JStr s \<and> hid s \<and> lower s = s)"

lemma generated_state:
  assumes "state_constructor cid hid L" and "good_config cid c" and "good_host hid i"
  obtains ob vs ws where "fromHash L ''ConfigState'' (state_hash (attr c ''id'') i (attr c ''defaultValues'')) = Some ob"
    "generated L (c, i) = ob\<lparr>o_generated := True\<rparr>" "o_hash ob = state_hash (attr c ''id'') i (JList ws)"
    "attr c ''defaultValues'' = JList vs" "mset ws = mset vs"
proof -
  obtain s vs where c: "attr c ''id'' = JStr s" "cid s" "lower s = s" "attr c ''defaultValues'' = JList vs" "uniform vs"
    using assms(2) by (auto simp: good_config_def)
  obtain t where t: "i = JStr t" "hid t" "lower t = t" using assms(3) by (auto simp: good_host_def)
  obtain ws where ws: "mset ws = mset vs" "fromHash L ''ConfigState'' (state_hash (JStr s) (JStr t) (JList vs)) =
      Some \<lparr>o_class = ''ConfigState'', o_hash = state_hash (JStr (lower s)) (JStr (lower t)) (JList ws), o_generated = False\<rparr>"
    using assms(1) c(2,5) t(2) unfolding state_constructor_def by blast
  let ?ob = "\<lparr>o_class = ''ConfigState'', o_hash = state_hash (JStr (lower s)) (JStr (lower t)) (JList ws), o_generated = False\<rparr>"
  show thesis
  proof (rule that[of ?ob ws vs])
    show f: "fromHash L ''ConfigState'' (state_hash (attr c ''id'') i (attr c ''defaultValues'')) = Some ?ob"
      using ws(2) by (simp only: c(1,4) t(1))
    show "generated L (c, i) = ?ob\<lparr>o_generated := True\<rparr>" unfolding generated_def fst_conv snd_conv f by simp
    show "o_hash ?ob = state_hash (attr c ''id'') i (JList ws)" using c(1,3) t(1,3) by simp
  qed (use c(4) ws(1) in simp_all)
qed

lemma attr_state [simp]:
  "o_hash g = state_hash c i v \<Longrightarrow> attr g ''configId'' = c"
  "o_hash g = state_hash c i v \<Longrightarrow> attr g ''objectId'' = i"
  "o_hash g = state_hash c i v \<Longrightarrow> attr g ''values'' = v"
  by (simp_all add: attr_def state_hash_def)

lemma generated_attrs:
  assumes "state_constructor cid hid L" and "good_config cid c" and "good_host hid i"
  shows "attr (generated L (c, i)) ''configId'' = attr c ''id''" "attr (generated L (c, i)) ''objectId'' = i"
    "o_generated (generated L (c, i))"
    "\<exists>vs ws. attr c ''defaultValues'' = JList vs \<and> attr (generated L (c, i)) ''values'' = JList ws \<and> mset ws = mset vs"
proof -
  obtain ob vs ws where g: "generated L (c, i) = ob\<lparr>o_generated := True\<rparr>" "o_hash ob = state_hash (attr c ''id'') i (JList ws)"
    "attr c ''defaultValues'' = JList vs" "mset ws = mset vs" by (rule generated_state[OF assms])
  have h: "o_hash (generated L (c, i)) = state_hash (attr c ''id'') i (JList ws)" by (simp add: g(1,2))
  show "attr (generated L (c, i)) ''configId'' = attr c ''id''" "attr (generated L (c, i)) ''objectId'' = i" by (rule attr_state[OF h])+
  show "o_generated (generated L (c, i))" by (simp add: g(1))
  show "\<exists>vs ws. attr c ''defaultValues'' = JList vs \<and> attr (generated L (c, i)) ''values'' = JList ws \<and> mset ws = mset vs"
    using attr_state(3)[OF h] g(3,4) by blast
qed

lemma add_defaults:
  assumes "state_constructor cid hid L" and "\<forall>(c, i) \<in> set ms. good_config cid c \<and> good_host hid i"
  shows "foldE (default_state L) ms states = Inr (states @ map (generated L) ms)"
proof -
  have "foldE (default_state L) ms states = Inr (states @ concat (map (\<lambda>ci. [generated L ci]) ms))"
  proof (rule foldE_collect)
    fix ci acc assume "ci \<in> set ms"
    then have g: "good_config cid (fst ci)" "good_host hid (snd ci)" using assms(2) by auto
    obtain ob where "fromHash L ''ConfigState'' (state_hash (attr (fst ci) ''id'') (snd ci) (attr (fst ci) ''defaultValues'')) = Some ob"
      "generated L (fst ci, snd ci) = ob\<lparr>o_generated := True\<rparr>" by (rule generated_state[OF assms(1) g])
    then show "default_state L ci acc = Inr (acc @ [generated L ci])" by (simp add: default_state_def state_hash_def)
  qed
  then show ?thesis by (simp add: concat_map_singleton)
qed

text \<open>A backend whose answers leave it as it is.\<close>

definition answers :: "'s backend \<Rightarrow> 's \<Rightarrow> (string \<Rightarrow> string list \<Rightarrow> hash \<Rightarrow> obj list) \<Rightarrow> bool" where
  "answers B s q \<longleftrightarrow> (\<forall>pre as f. b_get B pre as f s = Inr (q pre as f, s))"

lemma do_get_answers: "answers B (e_backend x) q \<Longrightarrow> do_get (b_get B pre as f) x = (Inr (q pre as f), x)"
  by (simp add: answers_def do_get_def)

definition known_states :: "(string \<Rightarrow> string list \<Rightarrow> hash \<Rightarrow> obj list) \<Rightarrow> hash \<Rightarrow> obj list" where
  "known_states q f = q ''configState'' [''objectId'', ''configId'']
     [(''objectId'', filter_value f ''objectId'' (JList [])), (''configId'', filter_value f ''configId'' (JList []))]"

definition asked_clients :: "(string \<Rightarrow> string list \<Rightarrow> hash \<Rightarrow> obj list) \<Rightarrow> hash \<Rightarrow> json list" where
  "asked_clients q f = map (\<lambda>h. attr h ''id'') (q ''host'' [''id''] [(''id'', filter_value f ''objectId'' JNull)])"

definition asked_configs :: "(string \<Rightarrow> string list \<Rightarrow> hash \<Rightarrow> obj list) \<Rightarrow> hash \<Rightarrow> obj list" where
  "asked_configs q f = q ''config'' [] [(''id'', filter_value f ''configId'' JNull)]"

lemma states_with_defaults:
  assumes "state_constructor cid hid L" and "answers B (e_backend x) q" and "option_on x ''addConfigStateDefaults''"
    and "\<forall>c \<in> set (asked_configs q f). good_config cid c" and "\<forall>i \<in> set (asked_clients q f). good_host hid i"
  shows "configState_getObjects L B attributes f x =
    (Inr (q ''configState'' attributes f @
       map (generated L) (missing_states (asked_configs q f) (asked_clients q f)
         (group_by (\<lambda>cs. attr cs ''objectId'') (\<lambda>cs. attr cs ''configId'') (known_states q f)))), x)"
proof -
  have "\<forall>(c, i) \<in> set (missing_states (asked_configs q f) (asked_clients q f) css). good_config cid c \<and> good_host hid i" for css
    using assms(4,5) by (auto simp: missing_states_def)
  note d = add_defaults[OF assms(1) this]
  show ?thesis using assms(2,3) d
    by (simp add: configState_getObjects_def bindS_def do_get_answers host_getIdents_def liftE_def asked_configs_def
      asked_clients_def known_states_def)
qed

lemma count_missing:
  assumes "distinct (map (\<lambda>c. attr c ''id'') configs)" and "distinct clients" and "c \<in> set configs" and "i \<in> set clients"
  shows "length (filter (\<lambda>ci. attr (fst ci) ''id'' = attr c ''id'' \<and> snd ci = i) (missing_states configs clients css)) =
    (if attr c ''id'' \<in> set (dict_list css i) then 0 else 1)"
proof -
  let ?m = "\<lambda>d. map (\<lambda>i. (d, i)) (filter (\<lambda>i. attr d ''id'' \<notin> set (dict_list css i)) clients)"
  let ?p = "\<lambda>ci. attr (fst ci) ''id'' = attr c ''id'' \<and> snd ci = i"
  have "filter ?p (missing_states configs clients css) = concat (map (\<lambda>d. filter ?p (?m d)) configs)"
    by (simp add: missing_states_def filter_concat comp_def)
  also have "\<dots> = filter ?p (?m c)"
  proof (rule concat_map_single)
    show "distinct configs" "c \<in> set configs" using assms by (simp_all add: distinct_map)
    show "filter ?p (?m d) = []" if "d \<in> set configs" "d \<noteq> c" for d
      using that assms(1,3) by (auto simp: distinct_map inj_on_def filter_empty_conv)
  qed
  also have "filter ?p (?m c) = map (Pair c) (filter (\<lambda>j. j = i) (filter (\<lambda>j. attr c ''id'' \<notin> set (dict_list css j)) clients))"
    by (simp add: filter_map comp_def conj_commute)
  also have "length \<dots> = (if attr c ''id'' \<in> set (dict_list css i) then 0 else 1)"
  proof -
    have "filter (\<lambda>j. j = i \<and> attr c ''id'' \<notin> set (dict_list css j)) clients = (if attr c ''id'' \<in> set (dict_list css i) then [] else [i])"
      using assms(2,4) by (induction clients) (auto simp: filter_empty_conv)
    then show ?thesis by (simp add: conj_commute)
  qed
  finally show ?thesis .
qed

text \<open>
  C29: With the option \<open>addConfigStateDefaults\<close> the states found are followed by generated ones: for every
  configuration and every host asked for exactly one where no state is stored, and none where one is;
  each carries the default values of its configuration, up to their order, and the mark of a generated default. The
  configurations and hosts have different ids, valid and in lower case as stored objects have them, and the default values of a configuration are texts
  or truth values.
\<close>

theorem states_completed_by_defaults:
  assumes "state_constructor cid hid L" and "answers B (e_backend x) q" and "option_on x ''addConfigStateDefaults''"
    and "\<forall>c \<in> set (asked_configs q f). good_config cid c" and "\<forall>i \<in> set (asked_clients q f). good_host hid i"
    and "distinct (map (\<lambda>c. attr c ''id'') (asked_configs q f))" and "distinct (asked_clients q f)"
  shows "\<exists>gs. configState_getObjects L B attributes f x = (Inr (q ''configState'' attributes f @ gs), x) \<and>
     (\<forall>c \<in> set (asked_configs q f). \<forall>i \<in> set (asked_clients q f).
        length (filter (\<lambda>g. attr g ''configId'' = attr c ''id'' \<and> attr g ''objectId'' = i) gs) =
          (if \<exists>s \<in> set (known_states q f). attr s ''objectId'' = i \<and> attr s ''configId'' = attr c ''id'' then 0 else 1)) \<and>
     (\<forall>g \<in> set gs. o_generated g \<and> attr g ''objectId'' \<in> set (asked_clients q f) \<and>
        (\<exists>c \<in> set (asked_configs q f). attr g ''configId'' = attr c ''id'' \<and>
           (\<exists>vs ws. attr c ''defaultValues'' = JList vs \<and> attr g ''values'' = JList ws \<and> mset ws = mset vs)))"
proof -
  let ?css = "group_by (\<lambda>cs. attr cs ''objectId'') (\<lambda>cs. attr cs ''configId'') (known_states q f)"
  let ?ms = "missing_states (asked_configs q f) (asked_clients q f) ?css"
  have good: "good_config cid (fst ci)" "good_host hid (snd ci)" if "ci \<in> set ?ms" for ci
    using that assms(4,5) by (auto simp: missing_states_def)
  have a: "attr (generated L ci) ''configId'' = attr (fst ci) ''id''" "attr (generated L ci) ''objectId'' = snd ci"
    if "ci \<in> set ?ms" for ci using generated_attrs(1,2)[OF assms(1) good[OF that]] by simp_all
  have "length (filter (\<lambda>g. attr g ''configId'' = attr c ''id'' \<and> attr g ''objectId'' = i) (map (generated L) ?ms)) =
      (if \<exists>s \<in> set (known_states q f). attr s ''objectId'' = i \<and> attr s ''configId'' = attr c ''id'' then 0 else 1)"
    if "c \<in> set (asked_configs q f)" "i \<in> set (asked_clients q f)" for c i
  proof -
    have "filter (\<lambda>ci. attr (generated L ci) ''configId'' = attr c ''id'' \<and> attr (generated L ci) ''objectId'' = i) ?ms =
        filter (\<lambda>ci. attr (fst ci) ''id'' = attr c ''id'' \<and> snd ci = i) ?ms"
      by (rule filter_cong) (simp_all add: a)
    then have "length (filter (\<lambda>g. attr g ''configId'' = attr c ''id'' \<and> attr g ''objectId'' = i) (map (generated L) ?ms)) =
        length (filter (\<lambda>ci. attr (fst ci) ''id'' = attr c ''id'' \<and> snd ci = i) ?ms)"
      by (simp add: filter_map comp_def)
    also have "\<dots> = (if attr c ''id'' \<in> set (dict_list ?css i) then 0 else 1)" by (rule count_missing[OF assms(6,7) that])
    also have "attr c ''id'' \<in> set (dict_list ?css i) \<longleftrightarrow>
        (\<exists>s \<in> set (known_states q f). attr s ''objectId'' = i \<and> attr s ''configId'' = attr c ''id'')"
      by (force simp: dict_list_group_by)
    finally show ?thesis .
  qed
  moreover have "o_generated g \<and> attr g ''objectId'' \<in> set (asked_clients q f) \<and>
      (\<exists>c \<in> set (asked_configs q f). attr g ''configId'' = attr c ''id'' \<and>
         (\<exists>vs ws. attr c ''defaultValues'' = JList vs \<and> attr g ''values'' = JList ws \<and> mset ws = mset vs))"
    if "g \<in> set (map (generated L) ?ms)" for g
  proof -
    from that[unfolded set_map] obtain d where d: "g = generated L d" "d \<in> set ?ms" by (rule imageE)
    obtain c i where "d = (c, i)" by (cases d)
    then have ci: "g = generated L (c, i)" "(c, i) \<in> set ?ms" using d by simp_all
    have m: "c \<in> set (asked_configs q f)" "i \<in> set (asked_clients q f)" using ci(2) by (auto simp: missing_states_def)
    note ga = generated_attrs[OF assms(1) good[OF ci(2), unfolded fst_conv snd_conv]]
    show ?thesis unfolding ci(1) using ga m by metis
  qed
  ultimately show ?thesis using states_with_defaults[OF assms(1-5)] by blast
qed

definition sample_answers :: "string \<Rightarrow> string list \<Rightarrow> hash \<Rightarrow> obj list" where
  "sample_answers pre as f =
     (if pre = ''host'' then [\<lparr>o_class = ''OpsiClient'', o_hash = [(''id'', JStr ''pc1'')], o_generated = False\<rparr>]
      else if pre = ''config'' then
        [\<lparr>o_class = ''Config'', o_hash = [(''id'', JStr ''a.list''), (''defaultValues'', JList [JStr ''y'', JStr ''x''])], o_generated = False\<rparr>]
      else [])"

definition answering :: "unit backend" where
  "answering = \<lparr>b_get = (\<lambda>pre as f s. Inr (sample_answers pre as f, s)), b_insert = (\<lambda>_ _. Inr), b_update = (\<lambda>_ _. Inr),
     b_delete = (\<lambda>_ _. Inr), b_setOptions = (\<lambda>_ s. s), b_getOptions = (\<lambda>_. [])\<rparr>"

definition defaults_on :: "unit ext" where
  "defaults_on = \<lparr>e_options = \<lparr>option_defaults = [(''addConfigStateDefaults'', JBool True)], option_store = []\<rparr>, e_backend = ()\<rparr>"

theorem states_completed_by_defaults_witness:
  "\<exists>gs. configState_getObjects state_sample_lib answering [] [] defaults_on = (Inr gs, defaults_on) \<and>
     length (filter (\<lambda>g. attr g ''configId'' = JStr ''a.list'' \<and> attr g ''objectId'' = JStr ''pc1'') gs) = 1"
proof -
  let ?q = sample_answers
  have "state_constructor (\<lambda>_. True) (\<lambda>_. True) state_sample_lib"
    by (simp add: state_constructor_def state_sample_lib_def new_config_state_def state_hash_def forceList_def)
  moreover have "answers answering (e_backend defaults_on) ?q" by (simp add: answers_def answering_def)
  moreover have "option_on defaults_on ''addConfigStateDefaults''" by (simp add: defaults_on_def option_on_def true_option_def get_option_def)
  moreover have low: "lower ''a.list'' = ''a.list''" "lower ''pc1'' = ''pc1''" by code_simp+
  have "\<forall>c \<in> set (asked_configs ?q []). good_config (\<lambda>_. True) c" "\<forall>i \<in> set (asked_clients ?q []). good_host (\<lambda>_. True) i"
    using low by (simp_all add: asked_configs_def asked_clients_def sample_answers_def good_config_def good_host_def attr_def uniform_def)
  moreover have "distinct (map (\<lambda>c. attr c ''id'') (asked_configs ?q []))" "distinct (asked_clients ?q [])"
    by (simp_all add: asked_configs_def asked_clients_def sample_answers_def)
  ultimately have r: "\<exists>gs. configState_getObjects state_sample_lib answering [] [] defaults_on = (Inr (?q ''configState'' [] [] @ gs), defaults_on) \<and>
     (\<forall>c \<in> set (asked_configs ?q []). \<forall>i \<in> set (asked_clients ?q []).
        length (filter (\<lambda>g. attr g ''configId'' = attr c ''id'' \<and> attr g ''objectId'' = i) gs) =
          (if \<exists>s \<in> set (known_states ?q []). attr s ''objectId'' = i \<and> attr s ''configId'' = attr c ''id'' then 0 else 1))"
    using states_completed_by_defaults[of "\<lambda>_. True" "\<lambda>_. True" state_sample_lib answering defaults_on ?q "[]" "[]"] by blast
  have "?q ''configState'' [] [] = []" "known_states ?q [] = []" "asked_clients ?q [] = [JStr ''pc1'']"
    "map (\<lambda>c. attr c ''id'') (asked_configs ?q []) = [JStr ''a.list'']"
    by (simp_all add: sample_answers_def known_states_def asked_clients_def asked_configs_def attr_def)
  then show ?thesis using r by (cases "asked_configs ?q []") auto
qed

section \<open>The options afterwards\<close>

text \<open>Operations that leave the options alone, whatever they return.\<close>

definition keeps_options :: "('s ext, 'a) act \<Rightarrow> bool" where
  "keeps_options m \<longleftrightarrow> (\<forall>x. e_options (snd (m x)) = e_options x)"

named_theorems keeping

lemma keeps_ret [keeping]: "keeps_options (ret a)"
  by (simp add: keeps_options_def)

lemma keeps_liftE [keeping]: "keeps_options (liftE r)"
  by (simp add: keeps_options_def liftE_def)

lemma keeps_do_get [keeping]: "keeps_options (do_get op)"
  by (auto simp: keeps_options_def do_get_def split: sum.splits)

lemma keeps_bindS [keeping]: "keeps_options m \<Longrightarrow> (\<And>a. keeps_options (f a)) \<Longrightarrow> keeps_options (bindS m f)"
  unfolding keeps_options_def bindS_def by (auto split: prod.splits sum.splits) (metis snd_conv)+

lemma keeps_host_getIdents [keeping]: "keeps_options (host_getIdents B f)"
  unfolding host_getIdents_def by (intro keeping)

lemma keeps_getObjects [keeping]: "keeps_options (configState_getObjects L B attributes f)"
proof -
  let ?d = "\<lambda>states. bindS (do_get (b_get B ''configState'' [''objectId'', ''configId'']
       [(''objectId'', filter_value f ''objectId'' (JList [])), (''configId'', filter_value f ''configId'' (JList []))])) (\<lambda>known.
     bindS (host_getIdents B [(''id'', filter_value f ''objectId'' JNull)]) (\<lambda>clientIds.
     bindS (do_get (b_get B ''config'' [] [(''id'', filter_value f ''configId'' JNull)])) (\<lambda>configs.
       let css = group_by (\<lambda>cs. attr cs ''objectId'') (\<lambda>cs. attr cs ''configId'') known
       in liftE (foldE (default_state L) (missing_states configs clientIds css) states))))"
  have "keeps_options (?d states)" for states unfolding Let_def by (intro keeping)
  then have "keeps_options (\<lambda>x. if \<not> option_on x ''addConfigStateDefaults'' then (Inr states, x) else ?d states x)" for states
    by (simp add: keeps_options_def)
  then show ?thesis unfolding configState_getObjects_def by (intro keeping)
qed

lemma lookup_updates:
  "map_of (foldl (\<lambda>d (k, v). AList.update k v d) d ds) k = (case map_of (rev ds) k of Some v \<Rightarrow> Some v | None \<Rightarrow> map_of d k)"
  by (induction ds rule: rev_induct) (auto split: option.splits)

lemma items_lookup:
  assumes "distinct (map fst (option_store p))"
  shows "map_of (option_items p) k = get_option p k"
proof -
  have "distinct (map fst d) \<Longrightarrow> map_of (rev d) k = map_of d k" for d :: hash
    by (induction d) (auto simp: map_add_def map_of_eq_None_iff[symmetric] split: option.split)
  then have "map_of (rev (option_store p)) k = map_of (option_store p) k" using assms by blast
  then show ?thesis by (simp add: option_items_def lookup_updates get_option_def)
qed

text \<open>A known option of boolean type, switched on and back.\<close>

lemma switch_back:
  assumes "has_key p k" and "get_option p k = Some (JBool b)"
  shows "get_option (backend_setOptions [(k, JBool b)] (backend_setOptions [(k, JBool True)] p)) k' = get_option p k'"
  using assms by (auto simp: backend_setOptions_def set_one_option_def set_option_def get_option_def has_key_def split: option.splits)

lemma saved_option:
  assumes "get_option (e_options x) k = Some (JBool b)" and "distinct (map fst (option_store (e_options x)))"
    and "\<And>v. (k, v) \<in> set (b_getOptions B (e_backend x)) \<Longrightarrow> v = JBool b"
  shows "map_of (getOptions B x) k = Some (JBool b)"
proof (cases "map_of (rev (b_getOptions B (e_backend x))) k")
  case None
  then show ?thesis using items_lookup[OF assms(2)] assms(1) by (simp add: getOptions_def lookup_updates backend_getOptions_def)
next
  case (Some v)
  then have "v = JBool b" using assms(3) map_of_SomeD[OF Some] by simp
  then show ?thesis using Some by (simp add: getOptions_def lookup_updates)
qed

lemma with_defaults_restores:
  assumes "keeps_options m" and "has_key (e_options x) add_defaults_option"
    and "get_option (e_options x) add_defaults_option = Some (JBool b)" and "distinct (map fst (option_store (e_options x)))"
    and "\<And>v. (add_defaults_option, v) \<in> set (b_getOptions B (e_backend x)) \<Longrightarrow> v = JBool b"
  shows "get_option (e_options (snd (with_defaults B m x))) k = get_option (e_options x) k"
proof -
  let ?x1 = "setOptions B [(add_defaults_option, JBool True)] x"
  obtain r x2 where m: "m ?x1 = (r, x2)" by (cases "m ?x1")
  have "e_options x2 = e_options ?x1" using assms(1) m by (metis keeps_options_def snd_conv)
  then have "e_options x2 = backend_setOptions [(add_defaults_option, JBool True)] (e_options x)" by (simp add: setOptions_def)
  moreover have "with_defaults B m x = (r, setOptions B [(add_defaults_option, JBool b)] x2)"
    using m saved_option[OF assms(3-5)] by (simp add: with_defaults_def)
  ultimately show ?thesis using switch_back[OF assms(2,3)] by (simp add: setOptions_def)
qed

text \<open>
  After the depots of clients have been looked up every option of the backend has the value it had before,
  whether the lookup returned or raised.
\<close>

theorem lookup_of_depots_restores_options:
  assumes "has_key (e_options x) add_defaults_option" and "get_option (e_options x) add_defaults_option = Some (JBool b)"
    and "distinct (map fst (option_store (e_options x)))"
    and "\<forall>s v. (add_defaults_option, v) \<in> set (b_getOptions B s) \<longrightarrow> v = JBool b"
  shows "get_option (e_options (snd (configState_getClientToDepotserver L B depotIds clientIds masterOnly productIds x))) k =
    get_option (e_options x) k"
proof -
  define keeps where "keeps = (\<lambda>m :: ('a ext, client_depot list) act. \<forall>y. e_options y = e_options x \<longrightarrow> get_option (e_options (snd (m y))) k = get_option (e_options x) k)"
  have keep: "keeps m" if "keeps_options m" for m using that by (simp add: keeps_def keeps_options_def)
  have first: "keeps (bindS m f)" if "keeps_options m" "\<And>a. keeps (f a)" for m :: "('a ext, 'b) act" and f
    using that unfolding keeps_def keeps_options_def bindS_def by (auto split: prod.splits sum.splits) (metis snd_conv)+
  have last: "keeps (bindS (with_defaults B m) f)" if m: "keeps_options m" and f: "\<And>a. keeps_options (f a)"
    for m :: "('a ext, client_depot list) act" and f
  proof -
    have "get_option (e_options (snd (bindS (with_defaults B m) f y))) k = get_option (e_options x) k" if y: "e_options y = e_options x" for y
    proof -
      obtain r y1 where r: "with_defaults B m y = (r, y1)" by (cases "with_defaults B m y")
      have "get_option (e_options y1) k = get_option (e_options x) k"
        using with_defaults_restores[OF m, of y b B k] assms y r by simp
      moreover have "e_options (snd (f a y1)) = e_options y1" for a using f by (simp add: keeps_options_def)
      ultimately show ?thesis using r by (simp add: bindS_def split: sum.split)
    qed
    then show ?thesis by (simp add: keeps_def)
  qed
  let ?states = "\<lambda>clients depots. bindS (configState_getObjects L B [] [(''configId'', JStr depot_config), (''objectId'', JList clients)])
      (\<lambda>states. liftE (foldE (assign_depot depots) states []))"
  let ?rest = "\<lambda>result. if masterOnly then ret result else bindS (do_get (b_get B ''productOnDepot'' [] [(''productId'', productIds)]))
      (\<lambda>pods. ret (map (\<lambda>e. e\<lparr>cd_alternatives := alternative_depots L pods (cd_depotId e)\<rparr>) result))"
  have rest: "keeps_options (?rest result)" for result by (cases masterOnly) (simp_all, (intro keeping)+)
  have "keeps (bindS (with_defaults B (?states clients depots)) ?rest)" for clients depots
    by (rule last[OF _ rest]) (intro keeping)
  moreover have "keeps (ret [])" by (rule keep[OF keeps_ret])
  ultimately have "keeps (if clients = [] then ret [] else bindS (with_defaults B (?states clients depots)) ?rest)" for clients depots
    by simp
  then have "keeps (bindS (liftE (force_host_ids L clientIds)) (\<lambda>ms. bindS (host_getIdents B [(''type'', JStr ''OpsiClient''), (''id'', JList ms)])
      (\<lambda>clients. if clients = [] then ret [] else bindS (with_defaults B (?states clients depots)) ?rest)))" for depots
    by (intro first keeps_liftE keeps_host_getIdents)
  then have "keeps (if depots = [] then ret [] else bindS (liftE (force_host_ids L clientIds))
      (\<lambda>ms. bindS (host_getIdents B [(''type'', JStr ''OpsiClient''), (''id'', JList ms)])
      (\<lambda>clients. if clients = [] then ret [] else bindS (with_defaults B (?states clients depots)) ?rest)))" for depots
    using keep[OF keeps_ret] by simp
  then have "keeps (configState_getClientToDepotserver L B depotIds clientIds masterOnly productIds)"
    unfolding configState_getClientToDepotserver_def by (intro first keeps_liftE keeps_host_getIdents)
  then show ?thesis by (simp add: keeps_def)
qed

theorem lookup_of_depots_restores_options_witness:
  "get_option (e_options (snd (configState_getClientToDepotserver sample_lib answering (JList []) (JList []) True (JList []) defaults_on)))
     add_defaults_option = get_option (e_options defaults_on) add_defaults_option"
  by (rule lookup_of_depots_restores_options[where b = True])
    (simp_all add: answering_def defaults_on_def has_key_def get_option_def add_defaults_option_def)

end
