(* ===== verification/ProductStates.thy ===== *)
theory ProductStates
  imports ExtendedProducts ConfigDefaults
begin

text \<open>
  What the extended backend promises about products on clients: the versions stored go with the
  installation status, whatever the list created or updated; and where it fails or drops states.
\<close>

section \<open>Preserved states and results\<close>

definition yields :: "('s \<Rightarrow> bool) \<Rightarrow> ('a \<Rightarrow> bool) \<Rightarrow> ('s, 'a) act \<Rightarrow> bool" where
  "yields P Q m \<longleftrightarrow> (\<forall>s. P s \<longrightarrow> P (snd (m s)) \<and> (\<forall>a. fst (m s) = Inr a \<longrightarrow> Q a))"

abbreviation stable :: "('s \<Rightarrow> bool) \<Rightarrow> ('s, 'a) act \<Rightarrow> bool" where
  "stable P \<equiv> yields P (\<lambda>_. True)"

lemma yields_ret: "Q a \<Longrightarrow> yields P Q (ret a)"
  by (simp add: yields_def)

lemma yields_fail: "yields P Q (fail e)"
  by (simp add: yields_def)

lemma yields_liftE: "(\<And>a. r = Inr a \<Longrightarrow> Q a) \<Longrightarrow> yields P Q (liftE r)"
  by (simp add: yields_def liftE_def)

lemma yields_bindS:
  assumes m: "yields P Q m" and f: "\<And>a. Q a \<Longrightarrow> yields P R (f a)"
  shows "yields P R (bindS m f)"
  unfolding yields_def
proof (intro allI impI)
  fix s assume s: "P s"
  obtain r s1 where r: "m s = (r, s1)" by (cases "m s")
  show "P (snd (bindS m f s)) \<and> (\<forall>a. fst (bindS m f s) = Inr a \<longrightarrow> R a)"
  proof (cases r)
    case (Inl e)
    then show ?thesis using m s r by (force simp: bindS_def yields_def)
  next
    case (Inr a)
    then have "Q a" "P s1" using m s r by (force simp: yields_def)+
    then show ?thesis using f[of a] r Inr by (simp add: bindS_def yields_def)
  qed
qed

lemma stable_foldS: "(\<And>a b. stable P (f a b)) \<Longrightarrow> stable P (foldS f xs b)"
  by (induction xs arbitrary: b) (auto intro: yields_ret yields_bindS)

lemma stable_if: "stable P m \<Longrightarrow> stable P n \<Longrightarrow> stable P (if b then m else n)"
  by simp

lemma stable_dep: "(\<And>x. stable P (m x)) \<Longrightarrow> stable P (\<lambda>x. m x x)"
  by (simp add: yields_def)

section \<open>Versions and status\<close>

text \<open>
  An installed product has both its versions and one in another status has none. A state without a status is
  left with the versions it was given: the code sets a status only when versions are completed or cleared.
\<close>

definition version_ok :: "obj \<Rightarrow> bool" where
  "version_ok ob \<longleftrightarrow>
     (if attr ob ''installationStatus'' = installed then json_true (attr ob ''productVersion'') \<and> json_true (attr ob ''packageVersion'')
      else json_true (attr ob ''installationStatus'') \<longrightarrow> attr ob ''productVersion'' = JNull \<and> attr ob ''packageVersion'' = JNull)"

text \<open>
  A property of the backend that its other operations keep and that inserting a consistent product state
  keeps, for instance that all its product states are consistent; products on depots have their versions.
\<close>

definition version_invariant :: "'s backend \<Rightarrow> ('s \<Rightarrow> bool) \<Rightarrow> bool" where
  "version_invariant B I \<longleftrightarrow>
     (\<forall>s pre as f obs s'. I s \<longrightarrow> b_get B pre as f s = Inr (obs, s') \<longrightarrow>
        I s' \<and> (pre = ''productOnDepot'' \<and> as = [] \<longrightarrow> (\<forall>pod \<in> set obs. json_true (attr pod ''productVersion'') \<and> json_true (attr pod ''packageVersion'')))) \<and>
     (\<forall>s new. I s \<longrightarrow> I (b_setOptions B new s)) \<and>
     (\<forall>s ob s'. I s \<longrightarrow> version_ok ob \<longrightarrow> b_insert B ''productOnClient'' ob s = Inr s' \<longrightarrow> I s')"

lemma version_invariantD:
  assumes "version_invariant B I" and "I s"
  shows "b_get B pre as f s = Inr (obs, s') \<Longrightarrow> I s'"
    and "b_get B ''productOnDepot'' [] f s = Inr (obs, s') \<Longrightarrow> pod \<in> set obs \<Longrightarrow>
      json_true (attr pod ''productVersion'') \<and> json_true (attr pod ''packageVersion'')"
    and "I (b_setOptions B new s)"
    and "version_ok ob \<Longrightarrow> b_insert B ''productOnClient'' ob s = Inr s' \<Longrightarrow> I s'"
  using assms unfolding version_invariant_def by metis+

lemma backend_stable:
  assumes "version_invariant B I"
  shows "stable (\<lambda>x. I (e_backend x)) (do_get (b_get B pre as f))"
  unfolding yields_def
proof (intro allI impI conjI TrueI)
  fix x :: "'a ext" assume "I (e_backend x)"
  then show "I (e_backend (snd (do_get (b_get B pre as f) x)))"
    using version_invariantD(1)[OF assms, of "e_backend x" pre as f] by (simp add: do_get_def split: sum.split prod.split)
qed

lemma pods_have_versions:
  assumes "version_invariant B I"
  shows "yields (\<lambda>x. I (e_backend x)) (\<lambda>obs. \<forall>pod \<in> set obs. json_true (attr pod ''productVersion'') \<and> json_true (attr pod ''packageVersion''))
    (do_get (b_get B ''productOnDepot'' [] f))"
  unfolding yields_def
proof (intro allI impI)
  fix x :: "'a ext" assume I: "I (e_backend x)"
  let ?m = "do_get (b_get B ''productOnDepot'' [] f) x"
  show "I (e_backend (snd ?m)) \<and> (\<forall>obs. fst ?m = Inr obs \<longrightarrow> (\<forall>pod \<in> set obs. json_true (attr pod ''productVersion'') \<and> json_true (attr pod ''packageVersion'')))"
  proof (cases "b_get B ''productOnDepot'' [] f (e_backend x)")
    case (Inr r)
    then show ?thesis using version_invariantD(1,2)[OF assms I] by (cases r) (auto simp: do_get_def)
  qed (use I in \<open>simp add: do_get_def\<close>)
qed

lemma insert_stable:
  assumes "version_invariant B I" and "version_ok ob"
  shows "stable (\<lambda>x. I (e_backend x)) (do_set (b_insert B ''productOnClient'' ob))"
  unfolding yields_def
proof (intro allI impI conjI TrueI)
  fix x :: "'a ext" assume "I (e_backend x)"
  then show "I (e_backend (snd (do_set (b_insert B ''productOnClient'' ob) x)))"
    using version_invariantD(4)[OF assms(1) _ assms(2), of "e_backend x"] by (simp add: do_set_def split: sum.split)
qed

lemma yields_cases:
  "yields P Q m \<Longrightarrow> yields P Q n \<Longrightarrow> yields P Q (\<lambda>x. if c x then m x else n x)"
  by (simp add: yields_def)

lemma yields_pair: "Q a \<Longrightarrow> yields P Q (\<lambda>x. (Inr a, x))"
  by (simp add: yields_def)

lemma stable_getIdents:
  assumes "version_invariant B I"
  shows "stable (\<lambda>x. I (e_backend x)) (host_getIdents B f)"
  unfolding host_getIdents_def by (intro yields_bindS[OF backend_stable[OF assms]] yields_ret TrueI)

lemma stable_states:
  assumes "version_invariant B I"
  shows "stable (\<lambda>x. I (e_backend x)) (configState_getObjects L B attributes f)"
  unfolding configState_getObjects_def Let_def
  by (intro yields_bindS[OF backend_stable[OF assms]] yields_bindS[OF stable_getIdents[OF assms]] yields_cases yields_pair
      yields_liftE TrueI)

lemma stable_with_defaults:
  assumes V: "version_invariant B I" and m: "stable (\<lambda>x. I (e_backend x)) m"
  shows "stable (\<lambda>x. I (e_backend x)) (with_defaults B m)"
  unfolding yields_def
proof (intro allI impI conjI TrueI)
  fix x :: "'a ext" assume I: "I (e_backend x)"
  let ?x1 = "setOptions B [(add_defaults_option, JBool True)] x"
  obtain r x2 where r: "m ?x1 = (r, x2)" by (cases "m ?x1")
  have "I (e_backend ?x1)" using version_invariantD(3)[OF V I] by (simp add: setOptions_def)
  then have "I (e_backend x2)" using m r by (force simp: yields_def)
  then show "I (e_backend (snd (with_defaults B m x)))"
    using version_invariantD(3)[OF V] r by (simp add: with_defaults_def setOptions_def[of _ _ x2] Let_def)
qed

lemma stable_depots:
  assumes "version_invariant B I"
  shows "stable (\<lambda>x. I (e_backend x)) (configState_getClientToDepotserver L B depotIds clientIds masterOnly productIds)"
  unfolding configState_getClientToDepotserver_def
  by (intro yields_bindS[where Q = "\<lambda>_. True"] stable_if stable_with_defaults[OF assms] stable_states[OF assms] stable_getIdents[OF assms]
      backend_stable[OF assms] yields_liftE yields_ret TrueI)

lemma settled_versions:
  assumes V: "version_invariant B I"
  shows "yields (\<lambda>x. I (e_backend x)) version_ok (settle_version L B poc)"
proof -
  have inst: "json_true installed" by (simp add: installed_def)
  consider "\<not> json_true (attr poc ''installationStatus'')"
    | "json_true (attr poc ''installationStatus'')" "attr poc ''installationStatus'' \<noteq> installed"
    | "attr poc ''installationStatus'' = installed" "json_true (attr poc ''productVersion'') \<and> json_true (attr poc ''packageVersion'')"
    | "attr poc ''installationStatus'' = installed" "\<not> (json_true (attr poc ''productVersion'') \<and> json_true (attr poc ''packageVersion''))"
    by blast
  then show ?thesis
  proof cases
    case 1
    then have "version_ok poc" using inst by (auto simp: version_ok_def)
    then show ?thesis using 1 by (simp add: settle_version_def yields_ret)
  next
    case 2
    then show ?thesis by (simp add: settle_version_def yields_ret version_ok_def attr_set_attr)
  next
    case 3
    then show ?thesis using inst by (simp add: settle_version_def yields_ret version_ok_def)
  next
    case 4
    have take: "version_ok (set_attr ''packageVersion'' (attr pod ''packageVersion'') (set_attr ''productVersion'' (attr pod ''productVersion'') poc))"
      if "json_true (attr pod ''productVersion'') \<and> json_true (attr pod ''packageVersion'')" for pod
      using that 4(1) by (simp add: version_ok_def attr_set_attr)
    have pods: "yields (\<lambda>x. I (e_backend x)) version_ok (case pods of [] \<Rightarrow> fail BackendError
        | pod # _ \<Rightarrow> ret (set_attr ''packageVersion'' (attr pod ''packageVersion'') (set_attr ''productVersion'' (attr pod ''productVersion'') poc)))"
      if "\<forall>pod \<in> set pods. json_true (attr pod ''productVersion'') \<and> json_true (attr pod ''packageVersion'')" for pods
      using that by (cases pods) (auto intro: yields_fail yields_ret take)
    have depots: "yields (\<lambda>x. I (e_backend x)) version_ok (case depots of [] \<Rightarrow> fail BackendError
        | d # _ \<Rightarrow> bindS (do_get (b_get B ''productOnDepot'' [] [(''depotId'', cd_depotId d), (''productId'', attr poc ''productId'')])) (\<lambda>pods.
            case pods of [] \<Rightarrow> fail BackendError
          | pod # _ \<Rightarrow> ret (set_attr ''packageVersion'' (attr pod ''packageVersion'') (set_attr ''productVersion'' (attr pod ''productVersion'') poc))))"
      for depots :: "client_depot list"
      by (cases depots) (simp_all add: yields_fail yields_bindS[OF pods_have_versions[OF V] pods])
    have "settle_version L B poc = bindS (configState_getClientToDepotserver L B (JList []) (JList [attr poc ''clientId'']) True (JList []))
      (\<lambda>depots. case depots of [] \<Rightarrow> fail BackendError
        | d # _ \<Rightarrow> bindS (do_get (b_get B ''productOnDepot'' [] [(''depotId'', cd_depotId d), (''productId'', attr poc ''productId'')])) (\<lambda>pods.
            case pods of [] \<Rightarrow> fail BackendError
          | pod # _ \<Rightarrow> ret (set_attr ''packageVersion'' (attr pod ''packageVersion'') (set_attr ''productVersion'' (attr pod ''productVersion'') poc))))"
      using 4 inst unfolding settle_version_def by (simp only: if_False if_True simp_thms)
    moreover have "yields (\<lambda>x. I (e_backend x)) version_ok \<dots>" by (rule yields_bindS[OF stable_depots[OF V] depots])
    ultimately show ?thesis by simp
  qed
qed

lemma stable_store:
  assumes V: "version_invariant B I"
  shows "stable (\<lambda>x. I (e_backend x)) (productOnClientUpdateOrCreate L B now update poc)"
  unfolding productOnClientUpdateOrCreate_def
proof (intro yields_bindS[OF backend_stable[OF V]] yields_bindS[OF settled_versions[OF V]] insert_stable[OF V])
  show "version_ok (set_attr ''modificationTime'' now ob)" if "version_ok ob" for ob
    using that by (simp add: version_ok_def attr_set_attr)
qed

lemma stable_collect:
  assumes V: "version_invariant B I"
  shows "stable (\<lambda>x. I (e_backend x)) (collectDependencies B n pids d st)"
proof (induction n arbitrary: d st)
  case (Suc n)
  then show ?case
    by (simp add: Let_def split: prod.split)
      (intro conjI impI allI yields_ret TrueI yields_bindS[OF backend_stable[OF V]] stable_foldS)
qed (simp add: yields_fail)

lemma stable_process:
  assumes V: "version_invariant B I"
  shows "stable (\<lambda>x. I (e_backend x)) (processWithFunction L B depth fn pocs)"
proof -
  have depot: "stable (\<lambda>x. I (e_backend x)) (process_depot B fn byClient pids products known dc acc)" for byClient pids products known dc acc
    unfolding process_depot_def
    by (intro yields_bindS[OF backend_stable[OF V]] yields_bindS[where Q = "\<lambda>_. True"])
      (auto intro: yields_liftE split: prod.split)
  show ?thesis
    unfolding processWithFunction_def Let_def
    by (intro yields_bindS[OF stable_depots[OF V]] yields_bindS[OF backend_stable[OF V]] yields_bindS[where Q = "\<lambda>_. True"]
        stable_foldS stable_collect[OF V])
      (auto intro!: yields_bindS[where Q = "\<lambda>_. True"] stable_foldS depot yields_ret backend_stable[OF V] stable_if split: prod.split)
qed

lemma stable_product_defaults:
  assumes V: "version_invariant B I"
  shows "stable (\<lambda>x. I (e_backend x)) (with_product_defaults L B f pocs)"
proof -
  have pods: "stable (\<lambda>x. I (e_backend x)) (pods_of_depots B f groups)" for groups
    unfolding pods_of_depots_def
    by (intro stable_foldS) (auto intro!: yields_bindS[OF backend_stable[OF V]] yields_ret split: prod.split)
  show ?thesis
    unfolding with_product_defaults_def
    by (intro yields_bindS[OF stable_getIdents[OF V]] yields_bindS[OF stable_depots[OF V]] yields_bindS[OF pods]
        yields_bindS[where Q = "\<lambda>_. True"] yields_liftE TrueI)
qed

lemma stable_product_states:
  assumes V: "version_invariant B I"
  shows "stable (\<lambda>x. I (e_backend x)) (productOnClient_getObjects L B depth attributes f)"
  unfolding productOnClient_getObjects_def Let_def productOnClient_generateSequence_def
  by (rule stable_dep, intro yields_bindS[OF backend_stable[OF V]] stable_if yields_bindS[where Q = "\<lambda>_. True"]
      stable_product_defaults[OF V] stable_process[OF V] yields_ret yields_liftE TrueI)

lemma stable_each:
  assumes "\<And>ob. stable P (put ob)" and "\<And>ob. stable P (get ob)" and "\<And>ob. stable P (has ob)" and "\<And>ob. stable P (upd ob)"
  shows "stable P (create_each put get obs)" and "stable P (update_each put upd has get obs)"
  unfolding create_each_def update_each_def
  by ((rule stable_dep, intro stable_foldS yields_bindS[where Q = "\<lambda>_. True"] stable_if assms yields_ret TrueI)+)

text \<open>
  C9: Creating or updating a list of product states, with the states their dependencies add or without, keeps
  every property of the backend that inserting consistent states keeps: each state inserted has both versions
  when it is installed and none when it has another status; a state without a status is inserted with the
  versions it was given, whatever they are. This holds for backends whose products on depots have both
  versions and whose queries and options keep the property too.
\<close>

theorem stored_versions_match_status:
  assumes V: "version_invariant B I" and "I (e_backend x)"
  shows "I (e_backend (snd (productOnClient_createObjects L B now (productOnClient_addDependencies L B depth mk setr) pocs x))) \<and>
    I (e_backend (snd (productOnClient_updateObjects L B depth now (productOnClient_addDependencies L B depth mk setr) pocs x)))"
proof -
  let ?P = "\<lambda>x. I (e_backend x)"
  note put = stable_store[OF V]
  have same: "stable ?P (same_poc B ob)" for ob unfolding same_poc_def by (rule backend_stable[OF V])
  have deps: "stable ?P (productOnClient_addDependencies L B depth mk setr pocs)"
    unfolding productOnClient_addDependencies_def by (rule stable_process[OF V])
  have "stable ?P (productOnClient_createObjects L B now (productOnClient_addDependencies L B depth mk setr) pocs)"
    unfolding productOnClient_createObjects_def productOnClient_insertObject_def
    by (rule stable_dep, intro yields_bindS[where Q = "\<lambda>_. True"] stable_if deps yields_ret TrueI
        stable_each(1)[where has = "same_poc B" and upd = "productOnClientUpdateOrCreate L B now True"] put same)
  moreover have "stable ?P (productOnClient_updateObjects L B depth now (productOnClient_addDependencies L B depth mk setr) pocs)"
    unfolding productOnClient_updateObjects_def productOnClient_insertObject_def productOnClient_updateObject_def
    by (rule stable_dep, intro yields_bindS[where Q = "\<lambda>_. True"] stable_if deps yields_ret TrueI
        stable_each(2) put same stable_product_states[OF V])
  ultimately show ?thesis using assms(2) by (simp add: yields_def)
qed

definition append_store :: "obj list backend" where
  "append_store = \<lparr>b_get = (\<lambda>_ _ _ s. Inr ([], s)), b_insert = (\<lambda>_ ob s. Inr (s @ [ob])), b_update = (\<lambda>_ _. Inr),
     b_delete = (\<lambda>_ _. Inr), b_setOptions = (\<lambda>_ s. s), b_getOptions = (\<lambda>_. [])\<rparr>"

definition no_options :: "obj list ext" where
  "no_options = \<lparr>e_options = \<lparr>option_defaults = [], option_store = []\<rparr>, e_backend = []\<rparr>"

definition idle_poc :: obj where
  "idle_poc = \<lparr>o_class = ''ProductOnClient'', o_hash = [(''productId'', JStr ''p''), (''clientId'', JStr ''pc1''),
     (''installationStatus'', JStr ''unknown''), (''productVersion'', JStr ''1.0'')], o_generated = False\<rparr>"

theorem stored_versions_match_status_witness:
  "list_all version_ok (e_backend (snd (productOnClient_createObjects sample_lib append_store JNull
       (productOnClient_addDependencies sample_lib append_store 10 plain_poc plain_setr) [idle_poc] no_options))) \<and>
   list_all version_ok (e_backend (snd (productOnClient_updateObjects sample_lib append_store 10 JNull
       (productOnClient_addDependencies sample_lib append_store 10 plain_poc plain_setr) [idle_poc] no_options)))"
  by (rule stored_versions_match_status[where I = "list_all version_ok"])
    (auto simp: version_invariant_def append_store_def no_options_def)

section \<open>Where it fails\<close>

lemma states_of_groups:
  assumes "\<And>s. answers B s q"
  shows "pods_of_depots B f groups x = (Inr (map (\<lambda>(d, clients). (clients, q ''productOnDepot'' [] ((''depotId'', d) #
      map (\<lambda>k. (k, filter_value f k JNull)) [''productId'', ''productType'', ''productVersion'', ''packageVersion'']))) groups), x)"
proof -
  have "foldS (\<lambda>(d, clients) acc. bindS (do_get (b_get B ''productOnDepot'' [] ((''depotId'', d) #
        map (\<lambda>k. (k, filter_value f k JNull)) [''productId'', ''productType'', ''productVersion'', ''packageVersion''])))
      (\<lambda>pods. ret (acc @ [(clients, pods)]))) groups acc x =
    (Inr (acc @ map (\<lambda>(d, clients). (clients, q ''productOnDepot'' [] ((''depotId'', d) #
      map (\<lambda>k. (k, filter_value f k JNull)) [''productId'', ''productType'', ''productVersion'', ''packageVersion'']))) groups), x)" for acc
    by (induction groups arbitrary: acc) (auto simp: bindS_def do_get_answers[OF assms])
  then show ?thesis by (simp add: pods_of_depots_def)
qed

text \<open>
  With the option \<open>addProductOnClientDefaults\<close>, asking for the states of a client that does not exist ends
  in a KeyError as soon as some client has a depot with products: no client id is taken for all of them, and
  the dictionary of the clients asked for is empty.
\<close>

theorem unknown_client_raises:
  assumes "\<And>s. answers B s q" and "option_on x ''addProductOnClientDefaults''" and "\<not> option_on x ''processProductOnClientSequence''"
    and "q ''productOnClient'' (pocAttributes True attributes) [(''clientId'', JStr c)] = []"
    and "q ''host'' [''id''] [(''id'', JStr c)] = []"
    and "configState_getClientToDepotserver L B (JList []) (JList []) True (JList []) x = (Inr cds, x1)" and "cds \<noteq> []"
    and "\<And>f. q ''productOnDepot'' [] f \<noteq> []"
  shows "fst (productOnClient_getObjects L B depth attributes [(''clientId'', JStr c)] x) = Inl KeyError"
proof -
  let ?f = "[(''clientId'', JStr c)]"
  have dm: "defaultMatchesFilter ?f" "filter (\<lambda>(k, v). k \<notin> fst ` set default_values) ?f = ?f"
    by (simp_all add: defaultMatchesFilter_def default_values_def filter_true_def)
  obtain d cs gs where g: "depot_groups cds = (d, cs) # gs" "cs \<noteq> []"
  proof -
    obtain cd rest where cd: "cds = cd # rest" using assms(7) by (cases cds) auto
    have "cd_depotId cd \<in> set (dict_keys (depot_groups cds))" by (simp add: depot_groups_def keys_group_by cd)
    then have "depot_groups cds \<noteq> []" by (auto simp: dict_keys_def)
    then obtain d cs gs where g: "depot_groups cds = (d, cs) # gs" by (metis list.exhaust prod.exhaust)
    have "d \<in> cd_depotId ` set cds"
      using keys_group_by[of cd_depotId cd_clientId cds] g by (auto simp: depot_groups_def dict_keys_def)
    moreover have "cs = map cd_clientId (filter (\<lambda>e. cd_depotId e = d) cds)"
      using dict_list_group_by[of cd_depotId cd_clientId cds d] g by (simp add: depot_groups_def dict_list_def)
    ultimately have "cs \<noteq> []" by (auto simp: filter_empty_conv)
    then show thesis using that g by blast
  qed
  obtain c0 cs' where cs: "cs = c0 # cs'" using g(2) by (cases cs) auto
  have fails: "foldE (\<lambda>(clients, pods). foldE (client_defaults L [] pods) clients)
      (map (\<lambda>(d, clients). (clients, q ''productOnDepot'' [] (h d))) (depot_groups cds)) [] = Inl KeyError" for h
  proof -
    obtain pod pods where "q ''productOnDepot'' [] (h d) = pod # pods" using assms(8) by (meson neq_Nil_conv)
    then show ?thesis by (simp add: g(1) cs client_defaults_def)
  qed
  note ans = do_get_answers[OF assms(1)]
  have hosts: "host_getIdents B [(''id'', filter_value ?f ''clientId'' JNull)] x = (Inr [], x)"
    using assms(5) by (simp add: host_getIdents_def bindS_def ans filter_value_def)
  have failed: "with_product_defaults L B ?f [] x = (Inl KeyError, x1)"
    unfolding with_product_defaults_def
    by (simp only: bindS_def hosts prod.case sum.case assms(6) states_of_groups[OF assms(1)])
      (simp add: liftE_def known_products_def fails[simplified])
  have "do_get (b_get B ''productOnClient'' (pocAttributes True attributes) ?f) x = (Inr [], x)" using assms(4) by (simp add: ans)
  then show ?thesis
    using assms(2,3) dm by (simp add: productOnClient_getObjects_def Let_def bindS_def failed)
qed

text \<open>
  With the option \<open>addDependentProductOnClients\<close> creating product states of clients none of which has a depot
  succeeds and stores nothing: the states given are lost.
\<close>

theorem states_without_depot_are_dropped:
  assumes "option_on x ''addDependentProductOnClients''"
    and "configState_getClientToDepotserver L B (JList []) (JList (dict_keys (group_by (\<lambda>p. attr p ''clientId'') (\<lambda>p. p) pocs))) True (JList []) x =
      (Inr [], x1)"
    and "productOnClient_createObjects L B now (productOnClient_addDependencies L B depth mk setr) pocs x = (Inr stored, x2)"
  shows "stored = [] \<and> productOnClient_addDependencies L B depth mk setr pocs x = (Inr [], x2)"
proof -
  obtain r x3 where r: "productOnClient_addDependencies L B depth mk setr pocs x = (r, x3)"
    by (cases "productOnClient_addDependencies L B depth mk setr pocs x")
  have none: "depot_groups [] = []" by (simp add: depot_groups_def group_by_def)
  have "r = Inr ps \<Longrightarrow> ps = []" for ps
    using r assms(2)
    by (auto simp: productOnClient_addDependencies_def processWithFunction_def Let_def bindS_def none split: prod.splits sum.splits)
  moreover have "r = Inl e \<Longrightarrow> False" for e using assms(1,3) r by (simp add: productOnClient_createObjects_def bindS_def)
  ultimately have "r = Inr []" by (cases r) auto
  then show ?thesis using assms(1,3) r by (simp add: productOnClient_createObjects_def bindS_def create_each_def)
qed

definition depot_answers :: "string \<Rightarrow> string list \<Rightarrow> hash \<Rightarrow> obj list" where
  "depot_answers pre as f =
     (if pre = ''host'' then
        (if map_of f ''id'' = Some (JStr ''other'') then []
         else if map_of f ''type'' = Some (JStr ''OpsiDepotserver'')
         then [\<lparr>o_class = ''OpsiDepotserver'', o_hash = [(''id'', JStr ''depot'')], o_generated = False\<rparr>]
         else [\<lparr>o_class = ''OpsiClient'', o_hash = [(''id'', JStr ''pc1'')], o_generated = False\<rparr>])
      else if pre = ''config'' then
        [\<lparr>o_class = ''Config'', o_hash = [(''id'', JStr depot_config), (''defaultValues'', JList [JStr ''depot''])], o_generated = False\<rparr>]
      else if pre = ''productOnDepot'' then
        [\<lparr>o_class = ''ProductOnDepot'', o_hash = [(''productId'', JStr ''p''), (''depotId'', JStr ''depot'')], o_generated = False\<rparr>]
      else [])"

definition depot_backend :: "unit backend" where
  "depot_backend = answering\<lparr>b_get := (\<lambda>pre as f s. Inr (depot_answers pre as f, s))\<rparr>"

definition with_depot :: "unit ext" where
  "with_depot = \<lparr>e_options = \<lparr>option_defaults = [(''addProductOnClientDefaults'', JBool True), (''addConfigStateDefaults'', JBool False)],
     option_store = []\<rparr>, e_backend = ()\<rparr>"

theorem unknown_client_raises_witness:
  "fst (productOnClient_getObjects sample_lib depot_backend 10 [] [(''clientId'', JStr ''other'')] with_depot) = Inl KeyError"
proof (rule unknown_client_raises[where q = depot_answers])
  let ?r = "configState_getClientToDepotserver sample_lib depot_backend (JList []) (JList []) True (JList []) with_depot"
  have "fst ?r = Inr [\<lparr>cd_depotId = JStr ''depot'', cd_clientId = JStr ''pc1'', cd_alternatives = []\<rparr>]" by code_simp
  then show "?r = (Inr [\<lparr>cd_depotId = JStr ''depot'', cd_clientId = JStr ''pc1'', cd_alternatives = []\<rparr>], snd ?r)"
    by (metis prod.collapse)
qed (simp_all add: answers_def depot_backend_def answering_def with_depot_def option_on_def true_option_def get_option_def
    depot_answers_def pocAttributes_def)

definition dependencies_on :: "obj list ext" where
  "dependencies_on = \<lparr>e_options = \<lparr>option_defaults = [(''addDependentProductOnClients'', JBool True)], option_store = []\<rparr>, e_backend = []\<rparr>"

theorem states_without_depot_are_dropped_witness:
  "([] :: obj list) = [] \<and>
     productOnClient_addDependencies sample_lib append_store 10 plain_poc plain_setr [idle_poc] dependencies_on = (Inr [], dependencies_on)"
proof (rule states_without_depot_are_dropped[where now = JNull])
  show "productOnClient_createObjects sample_lib append_store JNull
      (productOnClient_addDependencies sample_lib append_store 10 plain_poc plain_setr) [idle_poc] dependencies_on = (Inr [], dependencies_on)"
    by code_simp
  show "configState_getClientToDepotserver sample_lib append_store (JList []) (JList (dict_keys (group_by (\<lambda>p. attr p ''clientId'') (\<lambda>p. p) [idle_poc])))
      True (JList []) dependencies_on = (Inr [], dependencies_on)"
    by code_simp
qed (simp add: dependencies_on_def option_on_def true_option_def get_option_def)

end
