(* ===== verification/ProductSequences.thy ===== *)
theory ProductSequences
  imports ProductStates
begin

text \<open>
  The dependencies the extended backend collects before it calls the algorithms of OPSI/SharedAlgorithm.py:
  the collection ends and what it returns is closed.
\<close>

section \<open>Collecting dependencies\<close>

definition dependencies_of :: "(string \<Rightarrow> string list \<Rightarrow> hash \<Rightarrow> obj list) \<Rightarrow> json \<Rightarrow> obj list" where
  "dependencies_of q r = q ''productDependency'' [] [(''productId'', r)]"

text \<open>What a run of the collection from (\<open>extra\<close>, \<open>known\<close>) over the dependencies \<open>ds\<close> ends with.\<close>

definition collected ::
  "(string \<Rightarrow> string list \<Rightarrow> hash \<Rightarrow> obj list) \<Rightarrow> json set \<Rightarrow> json list \<Rightarrow> obj list \<Rightarrow> json list \<times> obj list \<Rightarrow> json list \<times> obj list \<Rightarrow> bool" where
  "collected q R pids ds st st' \<longleftrightarrow>
     (\<exists>new found. st' = (fst st @ new, snd st @ found) \<and> set ds \<subseteq> set found \<and> set new \<subseteq> R \<and> distinct new \<and>
        set new \<inter> (set pids \<union> set (fst st)) = {} \<and>
        (\<forall>d \<in> set found. attr d ''requiredProductId'' \<in> set pids \<union> set (fst st') \<and> attr d ''requiredProductId'' \<in> R) \<and>
        (\<forall>r \<in> set new. set (dependencies_of q r) \<subseteq> set found))"

lemma collected_Nil: "collected q R pids [] st st"
  by (cases st) (auto simp: collected_def)

lemma collected_Cons:
  assumes "collected q R pids [d] st st1" and "collected q R pids ds st1 st2"
  shows "collected q R pids (d # ds) st st2"
proof -
  obtain n1 f1 where 1: "st1 = (fst st @ n1, snd st @ f1)" "set [d] \<subseteq> set f1" "set n1 \<subseteq> R" "distinct n1"
    "set n1 \<inter> (set pids \<union> set (fst st)) = {}"
    "\<forall>d \<in> set f1. attr d ''requiredProductId'' \<in> set pids \<union> set (fst st1) \<and> attr d ''requiredProductId'' \<in> R"
    "\<forall>r \<in> set n1. set (dependencies_of q r) \<subseteq> set f1"
    using assms(1) unfolding collected_def by blast
  obtain n2 f2 where 2: "st2 = (fst st1 @ n2, snd st1 @ f2)" "set ds \<subseteq> set f2" "set n2 \<subseteq> R" "distinct n2"
    "set n2 \<inter> (set pids \<union> set (fst st1)) = {}"
    "\<forall>d \<in> set f2. attr d ''requiredProductId'' \<in> set pids \<union> set (fst st2) \<and> attr d ''requiredProductId'' \<in> R"
    "\<forall>r \<in> set n2. set (dependencies_of q r) \<subseteq> set f2"
    using assms(2) unfolding collected_def by blast
  have "st2 = (fst st @ (n1 @ n2), snd st @ (f1 @ f2))" using 1(1) 2(1) by simp
  moreover have "set (d # ds) \<subseteq> set (f1 @ f2)" using 1(2) 2(2) by auto
  moreover have "set (n1 @ n2) \<subseteq> R" using 1(3) 2(3) by simp
  moreover have "distinct (n1 @ n2)" using 1(1,4) 2(4,5) by auto
  moreover have "set (n1 @ n2) \<inter> (set pids \<union> set (fst st)) = {}" using 1(1,5) 2(5) by auto
  moreover have "\<forall>d \<in> set (f1 @ f2). attr d ''requiredProductId'' \<in> set pids \<union> set (fst st2) \<and> attr d ''requiredProductId'' \<in> R"
    using 1(6) 2(1,6) by auto
  moreover have "\<forall>r \<in> set (n1 @ n2). set (dependencies_of q r) \<subseteq> set (f1 @ f2)" using 1(7) 2(7) by auto
  ultimately show ?thesis unfolding collected_def by blast
qed

lemma collect_runs:
  assumes ans: "\<And>s. answers B s q" and R: "finite R" "\<forall>r \<in> R. \<forall>d \<in> set (dependencies_of q r). attr d ''requiredProductId'' \<in> R"
  shows "attr d ''requiredProductId'' \<in> R \<Longrightarrow> card (R - set (fst st)) < n \<Longrightarrow>
    \<exists>st'. collectDependencies B n pids d st x = (Inr st', x) \<and> collected q R pids [d] st st'"
proof (induction n arbitrary: d st)
  case (Suc n)
  obtain extra known where st: "st = (extra, known)" by (cases st)
  let ?r = "attr d ''requiredProductId''"
  show ?case
  proof (cases "?r \<in> set pids \<or> ?r \<in> set extra")
    case True
    have "collected q R pids [d] st (extra, known @ [d])"
      unfolding collected_def st by (rule exI[of _ "[]"], rule exI[of _ "[d]"]) (use True Suc.prems(1) in simp)
    then show ?thesis using True st by (intro exI[of _ "(extra, known @ [d])"]) simp
  next
    case False
    let ?st1 = "(extra @ [?r], known @ [d])"
    have "R - set (fst ?st1) \<subset> R - set (fst st)" using Suc.prems(1) False st by auto
    then have "card (R - set (fst ?st1)) < card (R - set (fst st))" by (intro psubset_card_mono) (simp_all add: R(1))
    then have less: "card (R - set (fst ?st1)) < n" using Suc.prems(2) by linarith
    have "\<exists>st'. foldS (collectDependencies B n pids) ds st1 x = (Inr st', x) \<and> collected q R pids ds st1 st'"
      if "\<forall>d \<in> set ds. attr d ''requiredProductId'' \<in> R" "card (R - set (fst st1)) < n" for ds st1
      using that
    proof (induction ds arbitrary: st1)
      case (Cons e ds)
      obtain st2 where st2: "collectDependencies B n pids e st1 x = (Inr st2, x)" "collected q R pids [e] st1 st2"
        using Suc.IH[of e st1] Cons.prems by auto
      have "set (fst st1) \<subseteq> set (fst st2)" using st2(2) by (auto simp: collected_def)
      then have "card (R - set (fst st2)) \<le> card (R - set (fst st1))" using R(1) by (intro card_mono) auto
      then obtain st3 where "foldS (collectDependencies B n pids) ds st2 x = (Inr st3, x)" "collected q R pids ds st2 st3"
        using Cons.IH[of st2] Cons.prems by auto
      then show ?case using st2 collected_Cons by (intro exI[of _ st3]) (auto simp: bindS_def)
    qed (auto intro: collected_Nil)
    from this[of "dependencies_of q ?r" ?st1] bspec[OF R(2) Suc.prems(1)] less
    obtain st' where st': "foldS (collectDependencies B n pids) (dependencies_of q ?r) ?st1 x = (Inr st', x)"
        "collected q R pids (dependencies_of q ?r) ?st1 st'" by auto
    have run: "collectDependencies B (Suc n) pids d st x = (Inr st', x)"
      using False st'(1) by (simp add: st Let_def bindS_def do_get_answers[OF ans] dependencies_of_def)
    obtain new found where c: "st' = (fst ?st1 @ new, snd ?st1 @ found)" "set (dependencies_of q ?r) \<subseteq> set found" "set new \<subseteq> R" "distinct new"
      "set new \<inter> (set pids \<union> set (fst ?st1)) = {}"
      "\<forall>d \<in> set found. attr d ''requiredProductId'' \<in> set pids \<union> set (fst st') \<and> attr d ''requiredProductId'' \<in> R"
      "\<forall>r \<in> set new. set (dependencies_of q r) \<subseteq> set found"
      using st'(2) unfolding collected_def by blast
    have "collected q R pids [d] st st'"
      unfolding collected_def using c False Suc.prems(1)
      by (intro exI[of _ "?r # new"] exI[of _ "d # found"]) (auto simp: st)
    then show ?thesis using run by blast
  qed
qed simp

text \<open>
  C37: The collection of dependencies ends: a recursion as deep as there are required products is enough. It
  returns the dependencies of the products asked for and of every product it adds, and every product that one
  of these requires is among the products asked for or among those added, each added once.
\<close>

theorem dependencies_collected:
  assumes "\<And>s. answers B s q" and "finite R" and "\<forall>r \<in> R. \<forall>d \<in> set (dependencies_of q r). attr d ''requiredProductId'' \<in> R"
    and "\<forall>d \<in> set ds. attr d ''requiredProductId'' \<in> R" and "card R < depth"
  shows "\<exists>extra known. foldS (collectDependencies B depth pids) ds ([], []) x = (Inr (extra, known), x) \<and>
     distinct extra \<and> set extra \<inter> set pids = {} \<and> set ds \<subseteq> set known \<and>
     (\<forall>r \<in> set extra. set (dependencies_of q r) \<subseteq> set known) \<and>
     (\<forall>d \<in> set known. attr d ''requiredProductId'' \<in> set pids \<union> set extra)"
proof -
  have "\<exists>st'. foldS (collectDependencies B depth pids) es st x = (Inr st', x) \<and> collected q R pids es st st'"
    if "\<forall>d \<in> set es. attr d ''requiredProductId'' \<in> R" for es st
    using that
  proof (induction es arbitrary: st)
    case (Cons e es)
    have "card (R - set (fst st)) < depth" using assms(2,5) card_mono[of R "R - set (fst st)"] by auto
    then obtain st1 where 1: "collectDependencies B depth pids e st x = (Inr st1, x)" "collected q R pids [e] st st1"
      using collect_runs[OF assms(1-3), where d = e and st = st and n = depth and pids = pids and x = x] Cons.prems by auto
    have "\<forall>d \<in> set es. attr d ''requiredProductId'' \<in> R" using Cons.prems by simp
    from Cons.IH[OF this, of st1] obtain st2 where "foldS (collectDependencies B depth pids) es st1 x = (Inr st2, x)"
      "collected q R pids es st1 st2" by blast
    then show ?case using 1 collected_Cons by (intro exI[of _ st2]) (auto simp: bindS_def)
  qed (auto intro: collected_Nil)
  from this[OF assms(4), of "([], [])"] show ?thesis unfolding collected_def by fastforce
qed

definition one_dependency :: obj where
  "one_dependency = \<lparr>o_class = ''ProductDependency'', o_hash = [(''productId'', JStr ''p''), (''productAction'', JStr ''setup''),
     (''requiredProductId'', JStr ''q''), (''requiredInstallationStatus'', JStr ''installed''), (''requirementType'', JStr ''before'')],
     o_generated = False\<rparr>"

theorem dependencies_collected_witness:
  "\<exists>extra known. foldS (collectDependencies append_store 2 [JStr ''p'']) [one_dependency] ([], []) no_options =
       (Inr (extra, known), no_options) \<and>
     distinct extra \<and> set extra \<inter> set [JStr ''p''] = {} \<and> set [one_dependency] \<subseteq> set known \<and>
     (\<forall>r \<in> set extra. set (dependencies_of (\<lambda>_ _ _. []) r) \<subseteq> set known) \<and>
     (\<forall>d \<in> set known. attr d ''requiredProductId'' \<in> set [JStr ''p''] \<union> set extra)"
  by (rule dependencies_collected[where R = "{JStr ''q''}"])
    (simp_all add: answers_def append_store_def dependencies_of_def one_dependency_def attr_def)

end
