(* ===== verification/Database.thy ===== *)
theory Database
  imports DataBackend
begin

text \<open>
  What is relied on of the backend whose methods the base class of the backends, the extended backend and the clean-up call, as
  hypotheses: getting finds the stored objects a filter selects; deleting objects of the classes nothing else
  depends on removes just these; putting a stored object back with one attribute cleared replaces it. Deleting hosts, products, configs, groups
  or licenses takes other objects along, so nothing of the kind is assumed of them. The states are those the backend can read, and a
  backend as the data backends are, with the checks and the cascades of their base class over lists, keeps all this.
\<close>

section \<open>Filters that select objects\<close>

text \<open>Strings with wildcards or comparisons are left out.\<close>

definition plain_value :: "json \<Rightarrow> bool" where
  "plain_value v = (case v of JStr s \<Rightarrow> set s \<inter> {CHR ''*'', CHR ''<'', CHR ''>'', CHR ''=''} = {} | _ \<Rightarrow> True)"

definition plain_filter :: "hash \<Rightarrow> bool" where
  "plain_filter f \<longleftrightarrow> (\<forall>(k, v) \<in> set f. \<forall>x \<in> set (forceList v). plain_value x)"

text \<open>The id of a host is a text without wildcards.\<close>

definition plain_id :: "obj \<Rightarrow> bool" where
  "plain_id h \<longleftrightarrow> (\<exists>s. attr h ''id'' = JStr s \<and> s \<noteq> [] \<and> plain_value (JStr s))"

definition plain_text :: "json \<Rightarrow> bool" where
  "plain_text v \<longleftrightarrow> (\<exists>s. v = JStr s \<and> s \<noteq> [] \<and> plain_value (JStr s))"

lemma plain_textD: "plain_text v \<Longrightarrow> json_true v \<and> forceList v = [v] \<and> plain_value v"
  by (auto simp: plain_text_def forceList_def)

text \<open>The classes an object belongs to.\<close>

definition kinds :: "obj \<Rightarrow> json list" where
  "kinds ob = JStr (o_class ob) # (if o_class ob = ''OpsiConfigserver'' then [JStr ''OpsiDepotserver''] else [])"

definition selects :: "string \<times> json \<Rightarrow> obj \<Rightarrow> bool" where
  "selects kv ob \<longleftrightarrow> (case kv of (k, v) \<Rightarrow>
     \<not> json_true v \<or> (if k = ''type'' then list_ex (\<lambda>c. c \<in> set (forceList v)) (kinds ob) else attr ob k \<in> set (forceList v)))"

definition selected :: "hash \<Rightarrow> obj \<Rightarrow> bool" where
  "selected f ob \<longleftrightarrow> list_all (\<lambda>kv. selects kv ob) f"

type_synonym content = "string \<Rightarrow> obj list"

definition gets :: "'s backend \<Rightarrow> ('s \<Rightarrow> content) \<Rightarrow> bool" where
  "gets B D \<longleftrightarrow>
     (\<forall>s pre as f. plain_filter f \<longrightarrow> (\<exists>obs s'. b_get B pre as f s = Inr (obs, s') \<and> D s' = D s \<and>
        (as = [] \<longrightarrow> obs = filter (selected f) (D s pre)) \<and>
        (\<forall>a \<in> set as. map (\<lambda>ob. attr ob a) obs = map (\<lambda>ob. attr ob a) (filter (selected f) (D s pre)))))"

text \<open>The classes whose objects are deleted alone, in the base class and in every backend of the repository.\<close>

definition leaf_class :: "string \<Rightarrow> bool" where
  "leaf_class pre \<longleftrightarrow> pre \<in> {''objectToGroup'', ''configState'', ''productProperty'', ''productDependency'', ''productOnDepot'',
     ''productOnClient'', ''productPropertyState'', ''licenseOnClient'', ''auditSoftware'', ''auditSoftwareOnClient'', ''auditHardwareOnHost''}"

definition deletes :: "'s backend \<Rightarrow> ('s \<Rightarrow> content) \<Rightarrow> bool" where
  "deletes B D \<longleftrightarrow>
     (\<forall>s pre obs. leaf_class pre \<and> set obs \<subseteq> set (D s pre) \<longrightarrow>
        (\<exists>s'. b_delete B pre obs s = Inr s' \<and> D s' = (D s)(pre := filter (\<lambda>ob. ob \<notin> set obs) (D s pre))))"

text \<open>An object in the place of the one that has its identity.\<close>

definition replaced :: "lib \<Rightarrow> obj \<Rightarrow> obj list \<Rightarrow> obj list" where
  "replaced L ob obs = map (\<lambda>o'. if getIdent L o' = getIdent L ob then ob else o') obs"

text \<open>Stored objects of a class, put back with the attribute \<open>k\<close> cleared, where the content fulfils what the backend checks.\<close>

definition reinserts :: "lib \<Rightarrow> string \<Rightarrow> string \<Rightarrow> (content \<Rightarrow> bool) \<Rightarrow> 's backend \<Rightarrow> ('s \<Rightarrow> content) \<Rightarrow> bool" where
  "reinserts L pre k P B D \<longleftrightarrow>
     (\<forall>s l. P (D s) \<and> l \<in> set (D s pre) \<longrightarrow>
        (\<exists>s'. b_insert B pre (set_attr k JNull l) s = Inr s' \<and> D s' = (D s)(pre := replaced L (set_attr k JNull l) (D s pre))))"

text \<open>What is checked of a license: that its contract exists.\<close>

definition contracts_exist :: "content \<Rightarrow> bool" where
  "contracts_exist c \<longleftrightarrow> (\<forall>l \<in> set (c ''softwareLicense''). plain_text (attr l ''licenseContractId'') \<and>
     (\<exists>k \<in> set (c ''licenseContract''). attr k ''id'' = attr l ''licenseContractId''))"

text \<open>The attributes that are cleared or changed are no part of an identity, and no two objects of a class share theirs.\<close>

definition identities :: "lib \<Rightarrow> bool" where
  "identities L \<longleftrightarrow> (\<forall>k \<in> {''boundToHost'', ''parentGroupId'', ''values''}. \<forall>v ob. getIdent L (set_attr k v ob) = getIdent L ob)"

definition unique :: "lib \<Rightarrow> obj list \<Rightarrow> bool" where
  "unique L obs \<longleftrightarrow> distinct (map (getIdent L) obs)"

lemma unique_distinct: "unique L obs \<Longrightarrow> distinct obs"
  by (simp add: unique_def distinct_map)

lemma unique_filter [simp]: "unique L obs \<Longrightarrow> unique L (filter P obs)"
  by (simp add: unique_def distinct_map_filter)

lemma unique_replaced [simp]: "unique L (replaced L ob obs) = unique L obs"
proof -
  have "map (getIdent L) (replaced L ob obs) = map (getIdent L) obs" by (simp add: replaced_def)
  then show ?thesis by (simp only: unique_def)
qed

lemma unique_same: "unique L obs \<Longrightarrow> a \<in> set obs \<Longrightarrow> b \<in> set obs \<Longrightarrow> getIdent L a = getIdent L b \<Longrightarrow> a = b"
  by (auto simp: unique_def distinct_map inj_on_def)

lemma foldS_map: "foldS f (map g xs) = foldS (\<lambda>x. f (g x)) xs"
  by (induction xs) (rule ext, simp)+

section \<open>Single calls\<close>

lemma ask_database:
  assumes "gets B D" and "plain_filter f"
  shows "\<exists>s'. ask B pre [] f s = (Inr (filter (selected f) (D s pre)), s') \<and> D s' = D s"
proof -
  from assms obtain obs s' where "b_get B pre [] f s = Inr (obs, s')" "D s' = D s" "obs = filter (selected f) (D s pre)"
    unfolding gets_def by blast
  then show ?thesis by (simp add: ask_def)
qed

lemma ask_attributes:
  assumes "gets B D" and "plain_filter f"
  shows "\<exists>obs s'. ask B pre as f s = (Inr obs, s') \<and> D s' = D s \<and>
    (\<forall>a \<in> set as. map (\<lambda>ob. attr ob a) obs = map (\<lambda>ob. attr ob a) (filter (selected f) (D s pre)))"
proof -
  from assms obtain obs s' where "b_get B pre as f s = Inr (obs, s')" "D s' = D s"
    "\<forall>a \<in> set as. map (\<lambda>ob. attr ob a) obs = map (\<lambda>ob. attr ob a) (filter (selected f) (D s pre))"
    unfolding gets_def by blast
  then show ?thesis by (simp add: ask_def)
qed

lemma erase_database:
  assumes "deletes B D" and "leaf_class pre" and "set obs \<subseteq> set (D s pre)"
  shows "\<exists>s'. erase B pre obs s = (Inr (), s') \<and> D s' = (D s)(pre := filter (\<lambda>ob. ob \<notin> set obs) (D s pre))"
proof -
  from assms obtain s' where "b_delete B pre obs s = Inr s'" "D s' = (D s)(pre := filter (\<lambda>ob. ob \<notin> set obs) (D s pre))"
    unfolding deletes_def by blast
  then show ?thesis by (simp add: erase_def)
qed

lemma erase_found_database:
  assumes "gets B D" and "deletes B D" and "leaf_class pre" and "plain_filter f"
  shows "\<exists>s'. erase_found B pre f s = (Inr (), s') \<and> D s' = (D s)(pre := filter (\<lambda>ob. \<not> selected f ob) (D s pre))"
proof -
  obtain s1 where s1: "ask B pre [] f s = (Inr (filter (selected f) (D s pre)), s1)" "D s1 = D s"
    using ask_database[OF assms(1,4)] by blast
  have sub: "set (filter (selected f) (D s pre)) \<subseteq> set (D s1 pre)" by (auto simp: s1(2))
  obtain s2 where s2: "erase B pre (filter (selected f) (D s pre)) s1 = (Inr (), s2)"
    "D s2 = (D s1)(pre := filter (\<lambda>ob. ob \<notin> set (filter (selected f) (D s pre))) (D s1 pre))"
    using erase_database[where B = B and D = D, OF assms(2,3) sub] by blast
  have "filter (\<lambda>ob. ob \<notin> set (filter (selected f) (D s pre))) (D s pre) = filter (\<lambda>ob. \<not> selected f ob) (D s pre)"
    by (rule filter_cong) auto
  then have "D s2 = (D s)(pre := filter (\<lambda>ob. \<not> selected f ob) (D s pre))" using s2(2) s1(2) by simp
  moreover have "erase_found B pre f s = (Inr (), s2)"
    using s1(1) s2(1) by (simp add: erase_found_def bindS_def)
  ultimately show ?thesis by blast
qed

text \<open>A list of such deletions removes what one of its filters selects.\<close>

lemma erase_list_database:
  assumes "gets B D" and "deletes B D" and "\<forall>(pre, f) \<in> set refs. leaf_class pre \<and> plain_filter f"
  shows "\<exists>s'. foldS (\<lambda>(pre, f) _. erase_found B pre f) refs () s = (Inr (), s') \<and>
    (\<forall>pre. D s' pre = filter (\<lambda>ob. \<not> (\<exists>f. (pre, f) \<in> set refs \<and> selected f ob)) (D s pre))"
  using assms(3)
proof (induction refs arbitrary: s)
  case (Cons pf refs)
  obtain pre f where pf: "pf = (pre, f)" by (cases pf)
  have f: "leaf_class pre" "plain_filter f" using Cons.prems by (auto simp: pf)
  obtain s1 where s1: "erase_found B pre f s = (Inr (), s1)" "D s1 = (D s)(pre := filter (\<lambda>ob. \<not> selected f ob) (D s pre))"
    using erase_found_database[OF assms(1,2) f] by blast
  obtain s2 where s2: "foldS (\<lambda>(pre, f) _. erase_found B pre f) refs () s1 = (Inr (), s2)"
    "\<And>p. D s2 p = filter (\<lambda>ob. \<not> (\<exists>f. (p, f) \<in> set refs \<and> selected f ob)) (D s1 p)"
    using Cons.IH[of s1] Cons.prems by auto
  have "D s2 p = filter (\<lambda>ob. \<not> (\<exists>g. (p, g) \<in> set (pf # refs) \<and> selected g ob)) (D s p)" for p
    by (auto simp: s2(2) s1(2) pf intro!: filter_cong)
  then show ?case using s1(1) s2(1) by (intro exI[of _ s2]) (simp add: pf bindS_def)
qed simp

text \<open>Stored objects put back one after the other, each with the attribute cleared.\<close>

lemma reinsert_list_database:
  assumes re: "reinserts L pre k P B D" and id: "\<forall>ob. getIdent L (set_attr k JNull ob) = getIdent L ob"
    and keep: "\<And>c l. P c \<Longrightarrow> l \<in> set (c pre) \<Longrightarrow> P (c(pre := replaced L (set_attr k JNull l) (c pre)))"
  shows "P (D s) \<Longrightarrow> unique L (D s pre) \<Longrightarrow> set ls \<subseteq> set (D s pre) \<Longrightarrow> distinct ls \<Longrightarrow>
    \<exists>s'. foldS (\<lambda>l _. insert_into B pre (set_attr k JNull l)) ls () s = (Inr (), s') \<and>
      D s' = (D s)(pre := map (\<lambda>l. if l \<in> set ls then set_attr k JNull l else l) (D s pre))"
proof (induction ls arbitrary: s)
  case (Cons l ls)
  have l: "l \<in> set (D s pre)" "l \<notin> set ls" and dl: "distinct ls" using Cons.prems by auto
  obtain s1 where s1: "b_insert B pre (set_attr k JNull l) s = Inr s1" "D s1 = (D s)(pre := replaced L (set_attr k JNull l) (D s pre))"
    using re Cons.prems(1) l(1) unfolding reinserts_def by blast
  have same: "getIdent L o' = getIdent L l \<longleftrightarrow> o' = l" if "o' \<in> set (D s pre)" for o'
    using unique_same[OF Cons.prems(2) that l(1)] by auto
  have one: "replaced L (set_attr k JNull l) (D s pre) = map (\<lambda>o'. if o' = l then set_attr k JNull l else o') (D s pre)"
    unfolding replaced_def using same id by auto
  have p1: "P (D s1)" unfolding s1(2) by (rule keep[OF Cons.prems(1) l(1)])
  have u1: "unique L (D s1 pre)" using Cons.prems(2) by (simp add: s1(2))
  have sub: "set ls \<subseteq> set (D s1 pre)"
  proof
    fix x assume "x \<in> set ls"
    then have "x \<in> set (D s pre)" "x \<noteq> l" using Cons.prems(3) l(2) by auto
    then show "x \<in> set (D s1 pre)" by (force simp: s1(2) one)
  qed
  have new: "set_attr k JNull l \<notin> set ls \<or> set_attr k JNull l = l"
  proof (rule disjCI)
    assume n: "set_attr k JNull l \<noteq> l"
    show "set_attr k JNull l \<notin> set ls"
    proof
      assume a: "set_attr k JNull l \<in> set ls"
      then have "set_attr k JNull l \<in> set (D s pre)" using Cons.prems(3) by auto
      then show False using same[of "set_attr k JNull l"] id n by simp
    qed
  qed
  obtain s2 where s2: "foldS (\<lambda>l _. insert_into B pre (set_attr k JNull l)) ls () s1 = (Inr (), s2)"
    "D s2 = (D s1)(pre := map (\<lambda>l. if l \<in> set ls then set_attr k JNull l else l) (D s1 pre))"
    using Cons.IH[OF p1 u1 sub dl] by blast
  have "map (\<lambda>l. if l \<in> set ls then set_attr k JNull l else l) (D s1 pre) =
      map (\<lambda>x. if x \<in> set (l # ls) then set_attr k JNull x else x) (D s pre)"
    using l(2) new by (auto simp: s1(2) one)
  moreover have "insert_into B pre (set_attr k JNull l) s = (Inr (), s1)" using s1(1) by (simp add: insert_into_def)
  ultimately show ?case using s1(2) s2 by (intro exI[of _ s2]) (simp add: bindS_def)
qed (simp add: fun_upd_idem)

text \<open>Deleting in chunks.\<close>

lemma erase_lists_database:
  assumes "deletes B D" and "leaf_class pre"
  shows "distinct (concat cs) \<Longrightarrow> set (concat cs) \<subseteq> set (D s pre) \<Longrightarrow>
    \<exists>s'. foldS (\<lambda>c _. erase B pre c) cs () s = (Inr (), s') \<and>
    D s' = (D s)(pre := filter (\<lambda>ob. ob \<notin> set (concat cs)) (D s pre))"
proof (induction cs arbitrary: s)
  case (Cons c cs)
  obtain s1 where s1: "erase B pre c s = (Inr (), s1)" "D s1 = (D s)(pre := filter (\<lambda>ob. ob \<notin> set c) (D s pre))"
    using erase_database[where B = B and D = D and s = s and obs = c, OF assms] Cons.prems(2) by auto
  have sub: "set (concat cs) \<subseteq> set (D s1 pre)" and d: "distinct (concat cs)" using Cons.prems by (auto simp: s1(2))
  obtain s2 where s2: "foldS (\<lambda>c _. erase B pre c) cs () s1 = (Inr (), s2)"
    "D s2 = (D s1)(pre := filter (\<lambda>ob. ob \<notin> set (concat cs)) (D s1 pre))"
    using Cons.IH[OF d sub] by blast
  have "filter (\<lambda>ob. ob \<notin> set (concat cs)) (filter (\<lambda>ob. ob \<notin> set c) (D s pre)) = filter (\<lambda>ob. ob \<notin> set (concat (c # cs))) (D s pre)"
    by (auto intro: filter_cong)
  then show ?case using s1 s2 by (intro exI[of _ s2]) (simp add: bindS_def)
qed simp

lemma erase_chunks_database:
  assumes "deletes B D" and "leaf_class pre" and "0 < n" and "distinct obs" and "set obs \<subseteq> set (D s pre)"
  shows "\<exists>s'. foldS (\<lambda>c _. erase B pre c) (chunk n obs) () s = (Inr (), s') \<and>
    D s' = (D s)(pre := filter (\<lambda>ob. ob \<notin> set obs) (D s pre))"
  using erase_lists_database[OF assms(1,2), of "chunk n obs" s] assms(4,5) by (simp only: chunk_concat[OF assms(3)])

section \<open>Backends over lists\<close>

text \<open>Objects kept in lists, without any check.\<close>

definition list_store :: "lib \<Rightarrow> content backend" where
  "list_store L = \<lparr>b_get = (\<lambda>pre as f s. Inr (filter (selected f) (s pre), s)),
     b_insert = (\<lambda>pre ob s. Inr (s(pre := if getIdent L ob \<in> getIdent L ` set (s pre) then replaced L ob (s pre) else s pre @ [ob]))),
     b_update = (\<lambda>pre ob s. Inr (s(pre := replaced L ob (s pre)))),
     b_delete = (\<lambda>pre obs s. Inr (s(pre := filter (\<lambda>ob. ob \<notin> set obs) (s pre)))), b_setOptions = (\<lambda>_ s. s), b_getOptions = (\<lambda>_. [])\<rparr>"

text \<open>A method of the base class before the one of the store.\<close>

definition after_base :: "('s, 'a) act \<Rightarrow> ('a \<Rightarrow> 's \<Rightarrow> (backend_error, 's) result) \<Rightarrow> 's \<Rightarrow> (backend_error, 's) result" where
  "after_base m f s = (case m s of (Inl e, _) \<Rightarrow> Inl e | (Inr a, s') \<Rightarrow> f a s')"

text \<open>The list store with the refusal to delete links of licenses in use, and above it the checks and cascades of the other classes.\<close>

definition link_store :: "lib \<Rightarrow> content backend" where
  "link_store L = (list_store L)\<lparr>b_delete := (\<lambda>pre obs.
     after_base (if pre = ''softwareLicenseToLicensePool'' then base_softwareLicenseToLicensePool_deleteObjects (list_store L) obs else ret ())
       (\<lambda>_. b_delete (list_store L) pre obs))\<rparr>"

definition data_store :: "lib \<Rightarrow> (obj \<Rightarrow> obj) \<Rightarrow> options \<Rightarrow> content backend" where
  "data_store L sd p = (list_store L)\<lparr>
     b_insert := (\<lambda>pre ob.
       after_base (if pre = ''softwareLicense'' then base_softwareLicense_insertObject sd p (list_store L) ob
                   else if pre = ''group'' then base_group_insertObject sd p (list_store L) ob
                   else base_insertObject sd ob) (\<lambda>ob. b_insert (list_store L) pre ob)),
     b_delete := (\<lambda>pre obs.
       after_base (if pre = ''host'' then base_host_deleteObjects (link_store L) obs
                   else if pre = ''config'' then base_config_deleteObjects (link_store L) obs
                   else if pre = ''product'' then base_product_deleteObjects (link_store L) obs
                   else if pre = ''group'' then base_group_deleteObjects (link_store L) obs
                   else if pre = ''softwareLicense'' then base_softwareLicense_deleteObjects (link_store L) obs
                   else if pre = ''licensePool'' then base_licensePool_deleteObjects (link_store L) obs
                   else ret ()) (\<lambda>_. b_delete (link_store L) pre obs))\<rparr>"

lemma store_gets: "gets (list_store L) id" "gets (link_store L) id" "gets (data_store L sd p) id"
  by (simp_all add: gets_def list_store_def link_store_def data_store_def)

lemma store_deletes: "deletes (list_store L) id" "deletes (link_store L) id" "deletes (data_store L sd p) id"
proof -
  show "deletes (list_store L) id" by (simp add: deletes_def list_store_def)
  have link: "b_delete (link_store L) pre obs s = Inr (s(pre := filter (\<lambda>ob. ob \<notin> set obs) (s pre)))" if "leaf_class pre" for pre obs s
    using that by (auto simp: link_store_def list_store_def after_base_def leaf_class_def)
  then show "deletes (link_store L) id" by (simp add: deletes_def)
  show "deletes (data_store L sd p) id"
    unfolding deletes_def by (auto simp: data_store_def after_base_def leaf_class_def link)
qed

lemma store_reinserts:
  assumes "identities L"
  shows "reinserts L ''softwareLicense'' ''boundToHost'' contracts_exist (data_store L (\<lambda>ob. ob) p) id"
    "reinserts L ''group'' ''parentGroupId'' (\<lambda>_. True) (data_store L (\<lambda>ob. ob) p) id"
proof -
  have i: "getIdent L (set_attr k v ob) = getIdent L ob" if "k \<in> {''boundToHost'', ''parentGroupId''}" for k v ob
    using assms that by (auto simp: identities_def)
  show "reinserts L ''group'' ''parentGroupId'' (\<lambda>_. True) (data_store L (\<lambda>ob. ob) p) id"
    by (auto simp: reinserts_def data_store_def after_base_def base_group_insertObject_def attr_set_attr Let_def list_store_def i)
  show "reinserts L ''softwareLicense'' ''boundToHost'' contracts_exist (data_store L (\<lambda>ob. ob) p) id"
    unfolding reinserts_def
  proof (intro allI impI)
    fix s :: content and l
    assume a: "contracts_exist (id s) \<and> l \<in> set (id s ''softwareLicense'')"
    let ?l = "set_attr ''boundToHost'' JNull l"
    have c: "plain_text (attr ?l ''licenseContractId'')" "\<exists>k \<in> set (s ''licenseContract''). attr k ''id'' = attr ?l ''licenseContractId''"
      using a by (auto simp: contracts_exist_def attr_set_attr)
    note pt = plain_textD[OF c(1)]
    have "demand (list_store L) ''licenseContract'' [''id''] [(''id'', attr ?l ''licenseContractId'')] s = (Inr (), s)"
      using c(2) pt
      by (auto simp: demand_def bindS_def ask_def list_store_def filter_empty_conv selected_def selects_def)
    then have "base_softwareLicense_insertObject (\<lambda>ob. ob) p (list_store L) ?l s = (Inr ?l, s)"
      using pt by (simp add: base_softwareLicense_insertObject_def Let_def bindS_def)
    then show "\<exists>s'. b_insert (data_store L (\<lambda>ob. ob) p) ''softwareLicense'' ?l s = Inr s' \<and>
        id s' = (id s)(''softwareLicense'' := replaced L ?l (id s ''softwareLicense''))"
      using a by (auto simp: data_store_def after_base_def list_store_def i)
  qed
qed

end
