(* ===== verification/ExtendedLicenses.thy ===== *)
theory ExtendedLicenses
  imports ConfigDefaults Database
begin

text \<open>
  The choice of a license for a client (\<open>licenseOnClient_getOrCreateObject\<close>, \<open>_getUsableSoftwareLicense\<close>) and the
  software and hardware found on hosts, in OPSI/Backend/Base/Extended.py. The random choice among the
  license keys of a pool is a parameter.
\<close>

section \<open>Identities\<close>

definition ident_attributes :: "string \<Rightarrow> string list" where
  "ident_attributes pre =
     (if pre \<in> {''host'', ''config'', ''product'', ''group'', ''licenseContract'', ''licensePool''} then [''id'']
      else if pre = ''configState'' then [''configId'', ''objectId'']
      else if pre = ''productProperty'' then [''productId'', ''productVersion'', ''packageVersion'', ''propertyId'']
      else if pre = ''productDependency'' then [''productId'', ''productVersion'', ''packageVersion'', ''productAction'', ''requiredProductId'']
      else if pre = ''productOnDepot'' then [''productId'', ''productType'', ''depotId'']
      else if pre = ''productOnClient'' then [''productId'', ''productType'', ''clientId'']
      else if pre = ''productPropertyState'' then [''productId'', ''propertyId'', ''objectId'']
      else if pre = ''objectToGroup'' then [''groupType'', ''groupId'', ''objectId'']
      else if pre = ''softwareLicense'' then [''id'', ''licenseContractId'']
      else if pre = ''softwareLicenseToLicensePool'' then [''softwareLicenseId'', ''licensePoolId'']
      else if pre = ''licenseOnClient'' then [''softwareLicenseId'', ''licensePoolId'', ''clientId'']
      else if pre = ''auditSoftware'' then software_ident
      else if pre = ''auditSoftwareToLicensePool'' then software_ident @ [''licensePoolId'']
      else if pre = ''auditSoftwareOnClient'' then software_ident @ [''clientId'']
      else [])"

text \<open>The identities of the objects a filter finds, as objects that carry them.\<close>

definition getIdents_of :: "'s backend \<Rightarrow> string \<Rightarrow> hash \<Rightarrow> ('s ext, obj list) act" where
  "getIdents_of B pre f = do_get (b_get B pre (ident_attributes pre) f)"

section \<open>A license for a client\<close>

fun free_license :: "'s backend \<Rightarrow> obj list \<Rightarrow> ('s ext, json) act" where
  "free_license B [] = ret (JStr [])"
| "free_license B (sl # sls) =
     (case attr sl ''maxInstallations'' of
        JInt m \<Rightarrow>
          if m = 0 then ret (attr sl ''id'')
          else bindS (getIdents_of B ''licenseOnClient'' [(''softwareLicenseId'', attr sl ''id'')]) (\<lambda>used.
                 if int (length used) < m then ret (attr sl ''id'') else free_license B sls)
      | _ \<Rightarrow> fail OtherError)"

definition license_key :: "(json list \<Rightarrow> json) \<Rightarrow> json \<Rightarrow> obj list \<Rightarrow> json" where
  "license_key rnd licenseId links =
     (let keyed = filter (\<lambda>l. json_true (attr l ''licenseKey'')) links
      in case find (\<lambda>l. attr l ''softwareLicenseId'' = licenseId) keyed of
           Some l \<Rightarrow> attr l ''licenseKey''
         | None \<Rightarrow> if keyed = [] then JStr [] else rnd (map (\<lambda>l. attr l ''licenseKey'') keyed))"

definition getUsableSoftwareLicense :: "'s backend \<Rightarrow> (json list \<Rightarrow> json) \<Rightarrow> json \<Rightarrow> json \<Rightarrow> ('s ext, json \<times> json) act" where
  "getUsableSoftwareLicense B rnd clientId poolId =
     bindS (do_get (b_get B ''licenseOnClient'' [] [(''licensePoolId'', poolId), (''clientId'', clientId)])) (\<lambda>registered.
       case registered of
         l # _ \<Rightarrow> ret (attr l ''softwareLicenseId'', attr l ''licenseKey'')
       | [] \<Rightarrow>
           bindS (do_get (b_get B ''softwareLicenseToLicensePool'' [] [(''licensePoolId'', poolId)])) (\<lambda>links.
             if links = [] then fail LicenseMissingError
             else
               let licenseIds = JList (map (\<lambda>l. attr l ''softwareLicenseId'') links)
               in bindS (do_get (b_get B ''softwareLicense'' [] [(''id'', licenseIds), (''boundToHost'', clientId)])) (\<lambda>bound.
                  bindS (case bound of
                      sl # _ \<Rightarrow> ret (attr sl ''id'')
                    | [] \<Rightarrow> bindS (do_get (b_get B ''softwareLicense'' [] [(''id'', licenseIds), (''boundToHost'', JList [JNull, JStr []])]))
                              (free_license B)) (\<lambda>licenseId.
                    if \<not> json_true licenseId then fail LicenseMissingError
                    else ret (licenseId, license_key rnd licenseId links)))))"

text \<open>The pool named, or the one pool for a product or a Windows software id; the arguments are in the form the code forces them to.\<close>

definition pools_of_software :: "'s backend \<Rightarrow> json \<Rightarrow> ('s ext, json list) act" where
  "pools_of_software B windowsSoftwareId =
     bindS (do_get (b_get B ''auditSoftware'' [] [(''windowsSoftwareId'', windowsSoftwareId)])) (\<lambda>softwares.
       foldS (\<lambda>sw acc. bindS (do_get (b_get B ''auditSoftwareToLicensePool'' [] (filter_by software_ident sw))) (\<lambda>links.
           ret (case links of [] \<Rightarrow> acc | l # _ \<Rightarrow> acc @ [attr l ''licensePoolId'']))) softwares [])"

definition license_pool :: "'s backend \<Rightarrow> json \<Rightarrow> json \<Rightarrow> json \<Rightarrow> ('s ext, json) act" where
  "license_pool B poolId productId windowsSoftwareId =
     (if json_true poolId then ret poolId
      else if json_true productId \<or> json_true windowsSoftwareId then
        bindS (if json_true productId
               then bindS (getIdents_of B ''licensePool'' [(''productIds'', productId)]) (\<lambda>ps. ret (map (\<lambda>p. attr p ''id'') ps))
               else pools_of_software B windowsSoftwareId) (\<lambda>pools.
          case pools of [p] \<Rightarrow> ret p | _ \<Rightarrow> fail LicenseConfigurationError)
      else fail ValueError)"

definition licenseOnClient_getOrCreateObject ::
  "lib \<Rightarrow> 's backend \<Rightarrow> (json list \<Rightarrow> json) \<Rightarrow> json \<Rightarrow> json \<Rightarrow> json \<Rightarrow> json \<Rightarrow> ('s ext, obj) act" where
  "licenseOnClient_getOrCreateObject L B rnd clientId poolId productId windowsSoftwareId =
     bindS (license_pool B poolId productId windowsSoftwareId) (\<lambda>pool.
     bindS (getIdents_of B ''licensePool'' [(''id'', pool)]) (\<lambda>pools.
       if pools = [] then fail LicenseConfigurationError
       else bindS (do_get (b_get B ''licenseOnClient'' [] [(''licensePoolId'', pool), (''clientId'', clientId)])) (\<lambda>used.
              case used of
                l # _ \<Rightarrow> ret l
              | [] \<Rightarrow>
                  bindS (getUsableSoftwareLicense B rnd clientId pool) (\<lambda>(licenseId, key).
                    case fromHash L ''LicenseOnClient'' [(''softwareLicenseId'', licenseId), (''licensePoolId'', pool), (''clientId'', clientId),
                        (''licenseKey'', key), (''notes'', JNull)] of
                      None \<Rightarrow> fail OtherError
                    | Some ob \<Rightarrow> bindS (licenseOnClient_createObjects B [ob]) (\<lambda>_. ret ob)))))"

section \<open>Software and hardware found on hosts\<close>

definition auditSoftwareOnClient_setObsolete :: "lib \<Rightarrow> 's backend \<Rightarrow> json \<Rightarrow> ('s ext, unit) act" where
  "auditSoftwareOnClient_setObsolete L B clientId =
     bindS (liftE (force_host_ids L (all_if_none clientId))) (\<lambda>is.
     bindS (do_get (b_get B ''auditSoftwareOnClient'' [] [(''clientId'', JList is)])) (\<lambda>obs. do_set (b_delete B ''auditSoftwareOnClient'' obs)))"

definition auditHardware_createObjects :: "'s backend \<Rightarrow> obj list \<Rightarrow> ('s ext, obj list) act" where
  "auditHardware_createObjects B obs = bindS (foldS (\<lambda>ob _. do_set (b_insert B ''auditHardware'' ob)) obs ()) (\<lambda>_. ret [])"

definition auditHardware_updateObjects :: "'s backend \<Rightarrow> obj list \<Rightarrow> ('s ext, obj list) act" where
  "auditHardware_updateObjects B obs = bindS (foldS (\<lambda>ob _. do_set (b_insert B ''auditHardware'' ob)) obs ()) (\<lambda>_. ret [])"

definition auditHardware_delete :: "'s backend \<Rightarrow> json \<Rightarrow> hash \<Rightarrow> ('s ext, unit) act" where
  "auditHardware_delete B hardwareClass kwargs =
     delete_matching B ''auditHardware'' ((''hardwareClass'', all_if_none hardwareClass) # map (\<lambda>(k, v). (k, all_if_none v)) kwargs)"

definition auditHardwareOnHost_createObjects :: "'s backend \<Rightarrow> obj list \<Rightarrow> ('s ext, obj list) act" where
  "auditHardwareOnHost_createObjects B obs = bindS (foldS (\<lambda>ob _. do_set (b_insert B ''auditHardwareOnHost'' ob)) obs ()) (\<lambda>_. ret [])"

definition auditHardwareOnHost_updateObject :: "'s backend \<Rightarrow> json \<Rightarrow> obj \<Rightarrow> ('s ext, unit) act" where
  "auditHardwareOnHost_updateObject B now ob =
     do_set (b_update B ''auditHardwareOnHost'' (set_attr ''state'' (JInt 1) (set_attr ''lastseen'' now ob)))"

definition hardware_filter :: "obj \<Rightarrow> hash" where
  "hardware_filter ob =
     map (\<lambda>(k, v). (k, if v = JNull then JList [JNull] else v)) (filter (\<lambda>(k, v). k \<notin> {''firstseen'', ''lastseen'', ''state''}) (o_hash ob))"

definition auditHardwareOnHost_updateObjects :: "'s backend \<Rightarrow> json \<Rightarrow> obj list \<Rightarrow> ('s ext, obj list) act" where
  "auditHardwareOnHost_updateObjects B now obs =
     bindS (foldS (\<lambda>ob _. bindS (do_get (b_get B ''auditHardwareOnHost'' [''hostId''] (hardware_filter ob))) (\<lambda>found.
         if found \<noteq> [] then auditHardwareOnHost_updateObject B now ob else do_set (b_insert B ''auditHardwareOnHost'' ob))) obs ())
       (\<lambda>_. ret [])"

definition auditHardwareOnHost_delete :: "'s backend \<Rightarrow> json \<Rightarrow> json \<Rightarrow> json \<Rightarrow> json \<Rightarrow> json \<Rightarrow> hash \<Rightarrow> ('s ext, unit) act" where
  "auditHardwareOnHost_delete B hostId hardwareClass firstseen lastseen state kwargs =
     delete_matching B ''auditHardwareOnHost''
       (zip [''hostId'', ''hardwareClass'', ''firstseen'', ''lastseen'', ''state''] (map all_if_none [hostId, hardwareClass, firstseen, lastseen, state]) @
        map (\<lambda>(k, v). (k, all_if_none v)) kwargs)"

definition auditHardwareOnHost_setObsolete :: "lib \<Rightarrow> 's backend \<Rightarrow> json \<Rightarrow> ('s ext, unit) act" where
  "auditHardwareOnHost_setObsolete L B hostId =
     bindS (liftE (force_host_ids L (all_if_none hostId))) (\<lambda>is.
     bindS (do_get (b_get B ''auditHardwareOnHost'' [] [(''hostId'', JList is), (''state'', JInt 1)])) (\<lambda>obs.
       foldS (\<lambda>ob _. do_set (b_update B ''auditHardwareOnHost'' (set_attr ''state'' (JInt 0) ob))) obs ()))"

section \<open>What the choice guarantees\<close>

text \<open>
  The licenses of a pool are those that a link assigns to it; one is in use as often as objects register it for a client.
\<close>

definition pool_links :: "content \<Rightarrow> json \<Rightarrow> obj set" where
  "pool_links c p = {l \<in> set (c ''softwareLicenseToLicensePool''). attr l ''licensePoolId'' = p}"

definition pool_licenses :: "content \<Rightarrow> json \<Rightarrow> obj set" where
  "pool_licenses c p =
     {sl \<in> set (c ''softwareLicense''). \<exists>l \<in> pool_links c p. attr l ''softwareLicenseId'' = attr sl ''id''}"

definition registered_for :: "content \<Rightarrow> json \<Rightarrow> json \<Rightarrow> obj set" where
  "registered_for c client p = {l \<in> set (c ''licenseOnClient''). attr l ''licensePoolId'' = p \<and> attr l ''clientId'' = client}"

definition unbound :: "obj \<Rightarrow> bool" where
  "unbound sl \<longleftrightarrow> attr sl ''boundToHost'' \<in> {JNull, JStr []}"

definition has_room :: "content \<Rightarrow> obj \<Rightarrow> bool" where
  "has_room c sl \<longleftrightarrow>
     (case attr sl ''maxInstallations'' of
        JInt m \<Rightarrow> m = 0 \<or> int (length (filter (\<lambda>l. attr l ''softwareLicenseId'' = attr sl ''id'') (c ''licenseOnClient''))) < m
      | _ \<Rightarrow> False)"

text \<open>Licenses are identified by texts without wildcards and have a number of installations.\<close>

definition well_kept :: "content \<Rightarrow> bool" where
  "well_kept c \<longleftrightarrow>
     (\<forall>sl \<in> set (c ''softwareLicense''). plain_text (attr sl ''id'') \<and> (\<exists>m. attr sl ''maxInstallations'' = JInt m)) \<and>
     (\<forall>l \<in> set (c ''softwareLicenseToLicensePool''). plain_text (attr l ''softwareLicenseId''))"

lemma do_get_gets:
  assumes "gets B D" and "plain_filter f"
  obtains x' where "do_get (b_get B pre [] f) x = (Inr (filter (selected f) (D (e_backend x) pre)), x')" "D (e_backend x') = D (e_backend x)"
proof -
  obtain obs s' where "b_get B pre [] f (e_backend x) = Inr (obs, s')" "D s' = D (e_backend x)" "obs = filter (selected f) (D (e_backend x) pre)"
    using assms unfolding gets_def by blast
  then show thesis using that[of "x\<lparr>e_backend := s'\<rparr>"] by (simp add: do_get_def)
qed

lemma plain_none: "plain_value JNull" "plain_value (JStr [])"
  by (simp_all add: plain_value_def)

lemma forceList_JList [simp]: "forceList (JList vs) = vs"
  by (simp add: forceList_def)

lemma plain_filters:
  "plain_text v \<Longrightarrow> plain_filter [(k, v)]"
  "plain_text v \<Longrightarrow> plain_text w \<Longrightarrow> plain_filter [(k, v), (l, w)]"
  "\<forall>u \<in> set us. plain_text u \<Longrightarrow> plain_text w \<Longrightarrow> plain_filter [(k, JList us), (l, w)]"
  "\<forall>u \<in> set us. plain_text u \<Longrightarrow> plain_filter [(k, JList us), (l, JList [JNull, JStr []])]"
  using plain_none by (auto simp: plain_filter_def plain_textD forceList_JList)

lemma installations:
  assumes "gets B D" and "plain_text i"
  shows "\<exists>used x'. getIdents_of B ''licenseOnClient'' [(''softwareLicenseId'', i)] x = (Inr used, x') \<and> D (e_backend x') = D (e_backend x) \<and>
    length used = length (filter (\<lambda>l. attr l ''softwareLicenseId'' = i) (D (e_backend x) ''licenseOnClient''))"
proof -
  let ?f = "[(''softwareLicenseId'', i)]" and ?as = "ident_attributes ''licenseOnClient''"
  obtain obs s' where g: "b_get B ''licenseOnClient'' ?as ?f (e_backend x) = Inr (obs, s')" "D s' = D (e_backend x)"
    "\<forall>a \<in> set ?as. map (\<lambda>ob. attr ob a) obs = map (\<lambda>ob. attr ob a) (filter (selected ?f) (D (e_backend x) ''licenseOnClient''))"
    using assms plain_filters(1) unfolding gets_def by blast
  have "''clientId'' \<in> set ?as" by (simp add: ident_attributes_def)
  then have "length obs = length (filter (selected ?f) (D (e_backend x) ''licenseOnClient''))" using g(3) by (metis length_map)
  moreover have "selected ?f = (\<lambda>l. attr l ''softwareLicenseId'' = i)"
    using plain_textD[OF assms(2)] by (simp add: fun_eq_iff selected_def selects_def)
  ultimately show ?thesis using g(1,2)
    by (intro exI[of _ obs] exI[of _ "x\<lparr>e_backend := s'\<rparr>"]) (simp add: getIdents_of_def do_get_def)
qed

lemma free_license_finds:
  assumes "gets B D" and "\<forall>sl \<in> set sls. plain_text (attr sl ''id'') \<and> (\<exists>m. attr sl ''maxInstallations'' = JInt m)"
  shows "\<exists>x'. free_license B sls x = (Inr (case find (has_room (D (e_backend x))) sls of None \<Rightarrow> JStr [] | Some sl \<Rightarrow> attr sl ''id''), x')"
  using assms(2)
proof (induction sls arbitrary: x)
  case (Cons sl sls)
  obtain m where m: "attr sl ''maxInstallations'' = JInt m" using Cons.prems by auto
  obtain used x1 where u: "getIdents_of B ''licenseOnClient'' [(''softwareLicenseId'', attr sl ''id'')] x = (Inr used, x1)"
    "D (e_backend x1) = D (e_backend x)"
    "length used = length (filter (\<lambda>l. attr l ''softwareLicenseId'' = attr sl ''id'') (D (e_backend x) ''licenseOnClient''))"
    using installations[OF assms(1)] Cons.prems by (metis list.set_intros(1))
  obtain x2 where x2: "free_license B sls x1 = (Inr (case find (has_room (D (e_backend x))) sls of None \<Rightarrow> JStr [] | Some sl \<Rightarrow> attr sl ''id''), x2)"
    using Cons.IH[of x1] Cons.prems u(2) by auto
  have room: "has_room (D (e_backend x)) sl \<longleftrightarrow> m = 0 \<or> int (length used) < m" by (simp add: has_room_def m u(3))
  show ?case
  proof (cases "m = 0")
    case False
    then show ?thesis using u(1) x2 room by (cases "int (length used) < m") (simp_all add: m bindS_def)
  qed (simp add: m room)
qed (simp add: ret_def)

lemma found: "find P xs = Some y \<Longrightarrow> y \<in> set xs \<and> P y"
  by (induction xs) (auto split: if_splits)

lemma license_key_of:
  assumes "l \<in> set links" and "attr l ''softwareLicenseId'' = i" and "json_true (attr l ''licenseKey'')"
  shows "\<exists>l \<in> set links. attr l ''softwareLicenseId'' = i \<and> license_key rnd i links = attr l ''licenseKey''"
proof -
  obtain l' where l': "find (\<lambda>l. attr l ''softwareLicenseId'' = i) (filter (\<lambda>l. json_true (attr l ''licenseKey'')) links) = Some l'"
    using assms by (cases "find (\<lambda>l. attr l ''softwareLicenseId'' = i) (filter (\<lambda>l. json_true (attr l ''licenseKey'')) links)")
      (auto simp: find_None_iff)
  then have "l' \<in> set links \<and> attr l' ''softwareLicenseId'' = i" using found by fastforce
  then show ?thesis using l' by (auto simp: license_key_def Let_def)
qed

text \<open>
  C25: Over a backend that answers as its content says, the license chosen for a client is the one registered for it in the pool, with the
  key registered; otherwise a license that a link assigns to the pool and that is bound to the client or, when none is, is bound to no host and
  has room: no limit, or fewer registrations than installations allowed. The key is one of this license when the pool has one
  for it. LicenseMissingError is raised exactly when the client has no license in the pool and no license of the pool is bound to it
  or unbound with room. Ids are texts without wildcards.
\<close>

theorem license_choice:
  assumes "gets B D" and "well_kept (D (e_backend x))" and "plain_text p" and "plain_text client"
  shows "case fst (getUsableSoftwareLicense B rnd client p x) of
      Inr (i, key) \<Rightarrow>
        (\<exists>l \<in> registered_for (D (e_backend x)) client p. i = attr l ''softwareLicenseId'' \<and> key = attr l ''licenseKey'') \<or>
        registered_for (D (e_backend x)) client p = {} \<and>
        (\<exists>sl \<in> pool_licenses (D (e_backend x)) p. i = attr sl ''id'' \<and>
           (attr sl ''boundToHost'' = client \<or>
            (\<forall>sl' \<in> pool_licenses (D (e_backend x)) p. attr sl' ''boundToHost'' \<noteq> client) \<and> unbound sl \<and> has_room (D (e_backend x)) sl)) \<and>
        (\<forall>l \<in> pool_links (D (e_backend x)) p. attr l ''softwareLicenseId'' = i \<and> json_true (attr l ''licenseKey'') \<longrightarrow>
           (\<exists>l \<in> pool_links (D (e_backend x)) p. attr l ''softwareLicenseId'' = i \<and> key = attr l ''licenseKey''))
    | Inl e \<Rightarrow> e = LicenseMissingError \<and> registered_for (D (e_backend x)) client p = {} \<and>
        (\<forall>sl \<in> pool_licenses (D (e_backend x)) p. attr sl ''boundToHost'' \<noteq> client \<and> \<not> (unbound sl \<and> has_room (D (e_backend x)) sl))"
proof -
  let ?c = "D (e_backend x)"
  note pt = plain_textD[OF assms(3)] plain_textD[OF assms(4)]
  let ?fr = "[(''licensePoolId'', p), (''clientId'', client)]" and ?fl = "[(''licensePoolId'', p)]"
  obtain x1 where g1: "do_get (b_get B ''licenseOnClient'' [] ?fr) x = (Inr (filter (selected ?fr) (?c ''licenseOnClient'')), x1)"
    "D (e_backend x1) = ?c" by (rule do_get_gets[OF assms(1) plain_filters(2)[OF assms(3,4)]])
  have reg: "set (filter (selected ?fr) (?c ''licenseOnClient'')) = registered_for ?c client p"
    using pt by (auto simp: registered_for_def selected_def selects_def)
  obtain x2 where g2: "do_get (b_get B ''softwareLicenseToLicensePool'' [] ?fl) x1 = (Inr (filter (selected ?fl) (?c ''softwareLicenseToLicensePool'')), x2)"
    "D (e_backend x2) = ?c" using do_get_gets[OF assms(1) plain_filters(1)[OF assms(3)]] g1(2) by metis
  define links where "links = filter (selected ?fl) (?c ''softwareLicenseToLicensePool'')"
  have lnk: "set links = pool_links ?c p" using pt by (auto simp: links_def pool_links_def selected_def selects_def)
  define ids where "ids = map (\<lambda>l. attr l ''softwareLicenseId'') links"
  have pids: "\<forall>u \<in> set ids. plain_text u" using assms(2) lnk by (auto simp: ids_def well_kept_def pool_links_def)
  let ?fb = "[(''id'', JList ids), (''boundToHost'', client)]" and ?fu = "[(''id'', JList ids), (''boundToHost'', JList [JNull, JStr []])]"
  obtain x3 where g3: "do_get (b_get B ''softwareLicense'' [] ?fb) x2 = (Inr (filter (selected ?fb) (?c ''softwareLicense'')), x3)"
    "D (e_backend x3) = ?c" using do_get_gets[OF assms(1) plain_filters(3)[OF pids assms(4)]] g2(2) by metis
  obtain x4 where g4: "do_get (b_get B ''softwareLicense'' [] ?fu) x3 = (Inr (filter (selected ?fu) (?c ''softwareLicense'')), x4)"
    "D (e_backend x4) = ?c" using do_get_gets[OF assms(1) plain_filters(4)[OF pids]] g3(2) by metis
  have sets: "set (filter (selected ?fb) (?c ''softwareLicense'')) = {sl \<in> pool_licenses ?c p. attr sl ''boundToHost'' = client}"
    "set (filter (selected ?fu) (?c ''softwareLicense'')) = {sl \<in> pool_licenses ?c p. unbound sl}" if "links \<noteq> []"
  proof -
    have "ids \<noteq> []" "v \<in> set ids \<longleftrightarrow> (\<exists>l \<in> pool_links ?c p. attr l ''softwareLicenseId'' = v)" for v
      using that by (auto simp: ids_def lnk[symmetric])
    then show "set (filter (selected ?fb) (?c ''softwareLicense'')) = {sl \<in> pool_licenses ?c p. attr sl ''boundToHost'' = client}"
      "set (filter (selected ?fu) (?c ''softwareLicense'')) = {sl \<in> pool_licenses ?c p. unbound sl}"
      using pt by (auto simp: pool_licenses_def selected_def selects_def unbound_def)
  qed
  have key: "\<forall>l \<in> pool_links ?c p. attr l ''softwareLicenseId'' = i \<and> json_true (attr l ''licenseKey'') \<longrightarrow>
      (\<exists>l \<in> pool_links ?c p. attr l ''softwareLicenseId'' = i \<and> license_key rnd i links = attr l ''licenseKey'')" for i
    using license_key_of[of _ links i rnd] unfolding lnk by blast
  note run = getUsableSoftwareLicense_def bindS_def g1(1) g2(1)[folded links_def] g3(1) g4(1) Let_def ids_def[symmetric]
  consider l ls where "filter (selected ?fr) (?c ''licenseOnClient'') = l # ls"
    | "filter (selected ?fr) (?c ''licenseOnClient'') = []" "links = []"
    | sl sls where "filter (selected ?fr) (?c ''licenseOnClient'') = []" "links \<noteq> []" "filter (selected ?fb) (?c ''softwareLicense'') = sl # sls"
    | "filter (selected ?fr) (?c ''licenseOnClient'') = []" "links \<noteq> []" "filter (selected ?fb) (?c ''softwareLicense'') = []"
    by (metis list.exhaust)
  then show ?thesis
  proof cases
    case 1
    then have "l \<in> registered_for ?c client p" using reg by auto
    then show ?thesis using 1 by (auto simp: run)
  next
    case 2
    then have "registered_for ?c client p = {}" "pool_licenses ?c p = {}" using reg lnk by (auto simp: pool_licenses_def)
    then show ?thesis using 2 by (simp add: run)
  next
    case 3
    have none: "registered_for ?c client p = {}" using reg 3(1) by simp
    have sl: "sl \<in> pool_licenses ?c p" "attr sl ''boundToHost'' = client" using sets(1)[OF 3(2)] 3(3) by auto
    then have "json_true (attr sl ''id'')" using assms(2) plain_textD by (auto simp: well_kept_def pool_licenses_def)
    then have r: "fst (getUsableSoftwareLicense B rnd client p x) = Inr (attr sl ''id'', license_key rnd (attr sl ''id'') links)"
      using 3 by (simp add: run)
    show ?thesis unfolding r using none sl key by auto
  next
    case 4
    have none: "registered_for ?c client p = {}" using reg 4(1) by simp
    have nb: "\<forall>sl \<in> pool_licenses ?c p. attr sl ''boundToHost'' \<noteq> client" using sets(1)[OF 4(2)] 4(3) by auto
    let ?us = "filter (selected ?fu) (?c ''softwareLicense'')"
    have us: "set ?us = {sl \<in> pool_licenses ?c p. unbound sl}" by (rule sets(2)[OF 4(2)])
    have "\<forall>sl \<in> set ?us. plain_text (attr sl ''id'') \<and> (\<exists>m. attr sl ''maxInstallations'' = JInt m)"
      using assms(2) by (auto simp: well_kept_def)
    then obtain x5 where x5: "free_license B ?us x4 = (Inr (case find (has_room ?c) ?us of None \<Rightarrow> JStr [] | Some sl \<Rightarrow> attr sl ''id''), x5)"
      using free_license_finds[OF assms(1), of ?us x4] g4(2) by auto
    show ?thesis
    proof (cases "find (has_room ?c) ?us")
      case (Some sl)
      then have "sl \<in> set ?us" "has_room ?c sl" using found by metis+
      then have sl: "sl \<in> pool_licenses ?c p" "unbound sl" "has_room ?c sl" unfolding us by simp_all
      then have "json_true (attr sl ''id'')" using assms(2) plain_textD by (auto simp: well_kept_def pool_licenses_def)
      then have r: "fst (getUsableSoftwareLicense B rnd client p x) = Inr (attr sl ''id'', license_key rnd (attr sl ''id'') links)"
        using 4 Some x5 by (simp add: run)
      show ?thesis unfolding r using none nb sl key by auto
    next
      case None
      then have "\<forall>sl \<in> set ?us. \<not> has_room ?c sl" by (simp add: find_None_iff)
      moreover have "fst (getUsableSoftwareLicense B rnd client p x) = Inl LicenseMissingError" using 4 None x5 by (simp add: run)
      ultimately show ?thesis using none nb unfolding us by simp
    qed
  qed
qed

definition license_content :: content where
  "license_content = (\<lambda>_. [])(
     ''softwareLicenseToLicensePool'' := [\<lparr>o_class = ''SoftwareLicenseToLicensePool'', o_hash = [(''softwareLicenseId'', JStr ''sl''),
        (''licensePoolId'', JStr ''pool''), (''licenseKey'', JStr ''1-2-3'')], o_generated = False\<rparr>],
     ''softwareLicense'' := [\<lparr>o_class = ''VolumeSoftwareLicense'', o_hash = [(''id'', JStr ''other''), (''maxInstallations'', JInt 0)], o_generated = False\<rparr>,
        \<lparr>o_class = ''VolumeSoftwareLicense'', o_hash = [(''id'', JStr ''sl''), (''maxInstallations'', JInt 2)], o_generated = False\<rparr>])"

definition license_ext :: "content ext" where
  "license_ext = \<lparr>e_options = \<lparr>option_defaults = [], option_store = []\<rparr>, e_backend = license_content\<rparr>"

theorem license_choice_witness:
  "\<exists>key. fst (getUsableSoftwareLicense (list_store sample_lib) hd (JStr ''pc1'') (JStr ''pool'') license_ext) = Inr (JStr ''sl'', key)"
proof -
  let ?r = "fst (getUsableSoftwareLicense (list_store sample_lib) hd (JStr ''pc1'') (JStr ''pool'') license_ext)"
  have g: "gets (list_store sample_lib) id" by (rule store_gets(1))
  have pt: "plain_text (JStr ''pc1'')" "plain_text (JStr ''pool'')" "plain_text (JStr ''sl'')" "plain_text (JStr ''other'')"
    by (simp_all add: plain_text_def plain_value_def)
  have w: "well_kept (id (e_backend license_ext))"
    using pt by (simp add: well_kept_def license_ext_def license_content_def attr_def)
  note c = license_choice[where D = id and x = license_ext and rnd = hd, OF g w pt(2,1)]
  let ?sl = "\<lparr>o_class = ''VolumeSoftwareLicense'', o_hash = [(''id'', JStr ''sl''), (''maxInstallations'', JInt 2)], o_generated = False\<rparr>"
  have b: "id (e_backend license_ext) = license_content" by (simp add: license_ext_def)
  have e: "registered_for license_content (JStr ''pc1'') (JStr ''pool'') = {}" by (simp add: registered_for_def license_content_def)
  have l: "pool_licenses license_content (JStr ''pool'') = {?sl}"
    by (auto simp: pool_licenses_def pool_links_def license_content_def attr_def)
  have sl: "unbound ?sl" "has_room license_content ?sl" "attr ?sl ''id'' = JStr ''sl''"
    by (simp_all add: unbound_def has_room_def attr_def license_content_def)
  show ?thesis
  proof (cases ?r)
    case (Inl er)
    then show ?thesis using c unfolding b e l by (simp add: sl)
  next
    case (Inr ik)
    then show ?thesis using c unfolding b e l by (cases ik) (simp add: sl)
  qed
qed

end
