(* ===== verification/ExtendedRename.thy ===== *)
theory ExtendedRename
  imports ProductStates ExtendedLicenses
begin

text \<open>
  Renaming clients and depots in OPSI/Backend/Base/Extended.py: all objects that name the host are read,
  changed and created again.
\<close>

section \<open>Renaming a client\<close>

definition force_host :: "lib \<Rightarrow> json \<Rightarrow> (backend_error, json) result" where
  "force_host L v = (case v of JStr s \<Rightarrow> (case forceHostId L s of Some h \<Rightarrow> Inr (JStr h) | None \<Rightarrow> Inl ValueError) | _ \<Rightarrow> Inl ValueError)"

text \<open>The objects of one class, with the attribute that names the host changed.\<close>

definition take_over :: "'s backend \<Rightarrow> json \<Rightarrow> string \<times> string \<times> hash \<Rightarrow> ('s ext, obj list) act" where
  "take_over B new pkf = (case pkf of (pre, k, f) \<Rightarrow> bindS (do_get (b_get B pre [] f)) (\<lambda>obs. ret (map (set_attr k new) obs)))"

definition client_references :: "json \<Rightarrow> (string \<times> string \<times> hash) list" where
  "client_references i =
     [(''objectToGroup'', ''objectId'', [(''groupType'', JStr ''HostGroup''), (''objectId'', i)]),
      (''productOnClient'', ''clientId'', [(''clientId'', i)]),
      (''productPropertyState'', ''objectId'', [(''objectId'', i)]),
      (''configState'', ''objectId'', [(''objectId'', i)]),
      (''auditSoftwareOnClient'', ''clientId'', [(''clientId'', i)]),
      (''auditHardwareOnHost'', ''hostId'', [(''hostId'', i)]),
      (''licenseOnClient'', ''clientId'', [(''clientId'', i)]),
      (''softwareLicense'', ''boundToHost'', [(''boundToHost'', i)])]"

text \<open>\<open>addDeps\<close> is \<open>productOnClient_addDependencies\<close>, \<open>now\<close> the time stamp of the product states.\<close>

definition recreate :: "lib \<Rightarrow> 's backend \<Rightarrow> json \<Rightarrow> (obj list \<Rightarrow> ('s ext, obj list) act) \<Rightarrow> string \<Rightarrow> obj list \<Rightarrow> ('s ext, unit) act" where
  "recreate L B now addDeps pre obs =
     (if obs = [] then ret ()
      else bindS (if pre = ''objectToGroup'' then objectToGroup_createObjects B obs
                  else if pre = ''productOnClient'' then productOnClient_createObjects L B now addDeps obs
                  else if pre = ''productOnDepot'' then productOnDepot_createObjects L B obs
                  else if pre = ''productPropertyState'' then productPropertyState_createObjects B obs
                  else if pre = ''configState'' then configState_createObjects L B obs
                  else if pre = ''auditSoftwareOnClient'' then auditSoftwareOnClient_createObjects B obs
                  else if pre = ''auditHardwareOnHost'' then auditHardwareOnHost_createObjects B obs
                  else if pre = ''licenseOnClient'' then licenseOnClient_createObjects B obs
                  else softwareLicense_createObjects B obs) (\<lambda>_. ret ()))"

definition host_renameOpsiClient ::
  "lib \<Rightarrow> 's backend \<Rightarrow> json \<Rightarrow> (obj list \<Rightarrow> ('s ext, obj list) act) \<Rightarrow> json \<Rightarrow> json \<Rightarrow> ('s ext, unit) act" where
  "host_renameOpsiClient L B now addDeps i new =
     bindS (liftE (force_host L i)) (\<lambda>i. bindS (liftE (force_host L new)) (\<lambda>new.
     bindS (do_get (b_get B ''host'' [] [(''type'', JStr ''OpsiClient''), (''id'', i)])) (\<lambda>clients.
       case clients of
         [] \<Rightarrow> fail BackendMissingDataError
       | client # _ \<Rightarrow>
           bindS (do_get (b_get B ''host'' [] [(''id'', new)])) (\<lambda>others.
             if others \<noteq> [] then fail BackendError
             else bindS (foldS (\<lambda>r acc. bindS (take_over B new r) (\<lambda>obs. ret (acc @ [(fst r, obs)]))) (client_references (attr client ''id'')) []) (\<lambda>taken.
                  bindS (do_set (b_delete B ''host'' [client])) (\<lambda>_.
                  bindS (host_createObjects B [set_attr ''id'' new client]) (\<lambda>_.
                    foldS (\<lambda>(pre, obs) _. recreate L B now addDeps pre obs) taken ())))))))"

section \<open>Renaming a depot\<close>

text \<open>\<open>replaceServerId\<close>: the first occurrence moves to the end; anything but a list is left alone.\<close>

definition replaceServerId :: "json \<Rightarrow> json \<Rightarrow> json \<Rightarrow> json \<times> bool" where
  "replaceServerId old new v =
     (case v of JList l \<Rightarrow> if old \<in> set l then (JList (remove1 old l @ [new]), True) else (v, False) | _ \<Rightarrow> (v, False))"

definition replace_in :: "(json \<Rightarrow> json \<times> bool) \<Rightarrow> string list \<Rightarrow> obj \<Rightarrow> obj \<times> bool" where
  "replace_in f ks ob = foldl (\<lambda>(ob, c) k. let (v, c') = f (attr ob k) in (if c' then set_attr k v ob else ob, c \<or> c')) (ob, False) ks"

definition changed_objects :: "(json \<Rightarrow> json \<times> bool) \<Rightarrow> string list \<Rightarrow> obj list \<Rightarrow> obj list" where
  "changed_objects f ks obs = map fst (filter snd (map (replace_in f ks) obs))"

definition hostname :: "string \<Rightarrow> string" where
  "hostname i = takeWhile (\<lambda>c. c \<noteq> CHR ''.'') i"

definition changeAddress :: "string \<Rightarrow> string \<Rightarrow> string \<Rightarrow> string" where
  "changeAddress old new v = replace_str (hostname old) (hostname new) (replace_str old new v)"

definition change_address_of :: "string \<Rightarrow> string \<Rightarrow> string \<Rightarrow> obj \<Rightarrow> obj" where
  "change_address_of old new k ob =
     (case attr ob k of JStr s \<Rightarrow> if s = [] then ob else set_attr k (JStr (changeAddress old new s)) ob | _ \<Rightarrow> ob)"

definition url_attributes :: "string list" where
  "url_attributes = [''repositoryRemoteUrl'', ''depotRemoteUrl'', ''depotWebdavUrl'', ''workbenchRemoteUrl'']"

text \<open>
  \<open>replaceOldAddress\<close>: the old id is replaced inside every value. The first value that is not a string ends the
  loop (a TypeError, which is caught); the ones before it stay changed.
\<close>

definition occurs_in :: "string \<Rightarrow> string \<Rightarrow> bool" where
  "occurs_in p s \<longleftrightarrow> list_ex (\<lambda>i. startswith (drop i s) p) [0..<Suc (length s)]"

fun replace_values :: "string \<Rightarrow> string \<Rightarrow> json list \<Rightarrow> json list \<times> bool" where
  "replace_values old new (JStr s # vs) =
     (let (vs', c) = replace_values old new vs
      in if occurs_in old s then (JStr (replace_str old new s) # vs', True) else (JStr s # vs', c))"
| "replace_values old new vs = (vs, False)"

definition replaceOldAddress :: "string \<Rightarrow> string \<Rightarrow> json \<Rightarrow> json \<times> bool" where
  "replaceOldAddress old new v =
     (case v of JList l \<Rightarrow> (let (l', c) = replace_values old new l in (JList l', c)) | _ \<Rightarrow> (v, False))"

definition depot_ids :: "string list" where
  "depot_ids = [''clientconfig.configserver.url'', ''clientconfig.depot.id'']"

definition update_some :: "(obj list \<Rightarrow> ('s ext, obj list) act) \<Rightarrow> obj list \<Rightarrow> ('s ext, unit) act" where
  "update_some upd obs = (if obs = [] then ret () else bindS (upd obs) (\<lambda>_. ret ()))"

definition renamed_depot :: "string \<Rightarrow> string \<Rightarrow> obj \<Rightarrow> obj" where
  "renamed_depot old new depot = foldl (\<lambda>ob k. change_address_of old new k ob) (set_attr ''id'' (JStr new) depot) url_attributes"

text \<open>The configurations and states that name depots, and the depots that have the old one as master.\<close>

definition update_assignments :: "lib \<Rightarrow> 's backend \<Rightarrow> string \<Rightarrow> string \<Rightarrow> ('s ext, unit) act" where
  "update_assignments L B old new =
     bindS (do_get (b_get B ''config'' [] [(''id'', JList (map JStr depot_ids))])) (\<lambda>configs.
     bindS (update_some (config_updateObjects B) (changed_objects (replaceOldAddress old new) [''defaultValues'', ''possibleValues''] configs)) (\<lambda>_.
     bindS (do_get (b_get B ''configState'' [] [(''configId'', JList (map JStr depot_ids))])) (\<lambda>states.
     bindS (update_some (configState_updateObjects L B) (changed_objects (replaceOldAddress old new) [''values''] states)) (\<lambda>_.
     bindS (do_get (b_get B ''host'' [] [(''type'', JStr ''OpsiDepotserver'')])) (\<lambda>depots.
       update_some (host_updateObjects B)
         (map (set_attr ''masterDepotId'' (JStr new)) (filter (\<lambda>d. attr d ''masterDepotId'' = JStr old) depots)))))))"

definition host_renameOpsiDepotserver :: "lib \<Rightarrow> 's backend \<Rightarrow> string \<Rightarrow> string \<Rightarrow> ('s ext, unit) act" where
  "host_renameOpsiDepotserver L B oldId newId =
     bindS (liftE (force_host L (JStr oldId))) (\<lambda>ov. bindS (liftE (force_host L (JStr newId))) (\<lambda>nv.
     case (ov, nv) of
       (JStr old, JStr new) \<Rightarrow>
         bindS (do_get (b_get B ''host'' [] [(''type'', JStr ''OpsiDepotserver''), (''id'', JStr old)])) (\<lambda>depots.
           case depots of
             [] \<Rightarrow> fail BackendMissingDataError
           | depot # _ \<Rightarrow>
               bindS (do_get (b_get B ''host'' [] [(''id'', JStr new)])) (\<lambda>others.
                 if others \<noteq> [] then fail BackendError
                 else
                   bindS (take_over B (JStr new) (''productOnDepot'', ''depotId'', [(''depotId'', JStr old)])) (\<lambda>pods.
                   bindS (do_get (b_get B ''productProperty'' [] [])) (\<lambda>properties.
                   bindS (update_some (productProperty_updateObjects B)
                       (changed_objects (replaceServerId (JStr old) (JStr new)) [''possibleValues'', ''defaultValues''] properties)) (\<lambda>_.
                   bindS (take_over B (JStr new) (''productPropertyState'', ''objectId'', [(''objectId'', JStr old)])) (\<lambda>propertyStates.
                   bindS (do_get (b_get B ''config'' [] [])) (\<lambda>configs.
                   bindS (update_some (config_updateObjects B)
                       (changed_objects (replaceServerId (JStr old) (JStr new)) [''possibleValues'', ''defaultValues''] configs)) (\<lambda>_.
                   bindS (take_over B (JStr new) (''configState'', ''objectId'', [(''objectId'', JStr old)])) (\<lambda>states.
                   let oldDepot = (if json_true (attr depot ''hardwareAddress'') then set_attr ''hardwareAddress'' JNull depot else depot);
                       values = map (\<lambda>ob. fst (replace_in (replaceServerId (JStr old) (JStr new)) [''values''] ob))
                   in bindS (if json_true (attr depot ''hardwareAddress'') then host_createObjects B [oldDepot] else ret []) (\<lambda>_.
                      bindS (host_createObjects B [renamed_depot old new depot]) (\<lambda>_.
                      bindS (foldS (\<lambda>(pre, obs) _. recreate L B JNull ret pre obs)
                          [(''productOnDepot'', pods), (''productPropertyState'', values propertyStates), (''configState'', values states)] ()) (\<lambda>_.
                      bindS (do_set (b_delete B ''host'' [oldDepot])) (\<lambda>_.
                        update_assignments L B old new)))))))))))))
     | _ \<Rightarrow> fail OtherError))"

section \<open>Refused renamings, and names that contain each other\<close>

text \<open>
  A client or depot that does not exist is not renamed, and none is renamed to the id of another host: the
  error is raised before anything is changed.
\<close>

theorem renaming_is_refused:
  assumes ans: "answers B (e_backend x) q" and old: "forceHostId L old = Some i" and new: "forceHostId L nid = Some n"
  shows "(q ''host'' [] [(''type'', JStr ''OpsiClient''), (''id'', JStr i)] = [] \<longrightarrow>
       host_renameOpsiClient L B now addDeps (JStr old) (JStr nid) x = (Inl BackendMissingDataError, x)) \<and>
    (q ''host'' [] [(''type'', JStr ''OpsiDepotserver''), (''id'', JStr i)] = [] \<longrightarrow>
       host_renameOpsiDepotserver L B old nid x = (Inl BackendMissingDataError, x)) \<and>
    (q ''host'' [] [(''type'', JStr ''OpsiClient''), (''id'', JStr i)] \<noteq> [] \<and> q ''host'' [] [(''id'', JStr n)] \<noteq> [] \<longrightarrow>
       host_renameOpsiClient L B now addDeps (JStr old) (JStr nid) x = (Inl BackendError, x)) \<and>
    (q ''host'' [] [(''type'', JStr ''OpsiDepotserver''), (''id'', JStr i)] \<noteq> [] \<and> q ''host'' [] [(''id'', JStr n)] \<noteq> [] \<longrightarrow>
       host_renameOpsiDepotserver L B old nid x = (Inl BackendError, x))"
  using old new
  by (auto simp: host_renameOpsiClient_def host_renameOpsiDepotserver_def bindS_def liftE_def force_host_def do_get_answers[OF ans]
      neq_Nil_conv split: list.splits)

theorem renaming_is_refused_witness:
  "host_renameOpsiClient sample_lib depot_backend JNull ret (JStr ''pc1'') (JStr ''pc1'') with_depot = (Inl BackendError, with_depot)"
  using renaming_is_refused[of depot_backend with_depot depot_answers sample_lib "''pc1''" "''pc1''" "''pc1''" "''pc1''" JNull ret]
  by (simp add: answers_def depot_backend_def answering_def with_depot_def sample_lib_def depot_answers_def)

text \<open>
  When the name of the old depot occurs in the new id, its addresses are changed twice: the id has
  been replaced already when the host name is replaced, and is found again in the new one. The resulting
  address names a host that does not exist.
\<close>

theorem address_is_replaced_twice:
  "changeAddress ''depot.a.b'' ''newdepot.a.b'' ''smb://depot.a.b/opsi_depot'' = ''smb://newnewdepot.a.b/opsi_newdepot''"
  by code_simp

end
