(* ===== verification/Cleanup.thy ===== *)
theory Cleanup
  imports Database
begin

text \<open>
  The task that removes obsolete data from a backend, OPSI/Util/Task/CleanupBackend.py: groups with missing
  parents, products no depot has, states of missing clients, products, properties and configurations, values of
  properties that are not possible, unused audit software. The backend is a record of methods; the assignment of
  clients to depots is the parameter \<open>clientsOf\<close>.
\<close>

definition chunkSize :: nat where "chunkSize = 500"

definition update_in :: "'s backend \<Rightarrow> string \<Rightarrow> obj \<Rightarrow> ('s, unit) act" where
  "update_in B pre ob s = (case b_update B pre ob s of Inl e \<Rightarrow> (Inl e, s) | Inr s' \<Rightarrow> (Inr (), s'))"

definition erase_chunks :: "'s backend \<Rightarrow> string \<Rightarrow> obj list \<Rightarrow> ('s, unit) act" where
  "erase_chunks B pre obs = foldS (\<lambda>c _. erase B pre c) (chunk chunkSize obs) ()"

text \<open>\<open>';'.join\<close> and the formatted strings that stand for the identity of an object.\<close>

definition py_text :: "json \<Rightarrow> string" where
  "py_text v = (case v of JStr s \<Rightarrow> s | JNull \<Rightarrow> ''None'' | _ \<Rightarrow> [])"

definition ident_text :: "string list \<Rightarrow> obj \<Rightarrow> string" where
  "ident_text ks ob = join_char (CHR '';'') (map (\<lambda>k. py_text (attr ob k)) ks)"

definition product_key :: "obj \<Rightarrow> string" where
  "product_key = ident_text [''id'', ''productVersion'', ''packageVersion'']"

definition product_ref :: "obj \<Rightarrow> string" where
  "product_ref = ident_text [''productId'', ''productVersion'', ''packageVersion'']"

section \<open>Groups, products and their states\<close>

definition orphan_groups :: "obj list \<Rightarrow> obj list" where
  "orphan_groups groups =
     filter (\<lambda>g. json_true (attr g ''parentGroupId'') \<and> attr g ''parentGroupId'' \<notin> (\<lambda>g. attr g ''id'') ` set groups) groups"

definition cleanUpGroups :: "'s backend \<Rightarrow> ('s, unit) act" where
  "cleanUpGroups B =
     bindS (ask B ''group'' [] [(''type'', JStr ''HostGroup'')]) (\<lambda>groups.
       foldS (\<lambda>gs _. foldS (\<lambda>g _. insert_into B ''group'' g) gs ())
         (chunk chunkSize (map (set_attr ''parentGroupId'' JNull) (orphan_groups groups))) ())"

definition cleanUpProducts :: "'s backend \<Rightarrow> ('s, unit) act" where
  "cleanUpProducts B =
     bindS (ask B ''productOnDepot'' [] []) (\<lambda>pods.
     bindS (ask B ''product'' [] []) (\<lambda>products.
       erase_chunks B ''product'' (filter (\<lambda>p. product_key p \<notin> product_ref ` set pods) products)))"

definition cleanUpProductOnDepots :: "'s backend \<Rightarrow> json set \<Rightarrow> string set \<Rightarrow> ('s, unit) act" where
  "cleanUpProductOnDepots B depotIds existing =
     bindS (ask B ''productOnDepot'' [] []) (\<lambda>pods.
       erase_chunks B ''productOnDepot'' (filter (\<lambda>pod. attr pod ''depotId'' \<notin> depotIds \<or> product_ref pod \<notin> existing) pods))"

definition not_in_use :: "obj \<Rightarrow> bool" where
  "not_in_use poc \<longleftrightarrow> attr poc ''installationStatus'' = JStr ''not_installed'' \<and> attr poc ''actionRequest'' = JStr ''none''"

definition cleanUpProductOnClients :: "'s backend \<Rightarrow> ('s, unit) act" where
  "cleanUpProductOnClients B =
     bindS (ask B ''host'' [] [(''type'', JList [JStr ''OpsiClient''])]) (\<lambda>clients.
     bindS (ask B ''productOnClient'' [] []) (\<lambda>pocs.
     bindS (erase_chunks B ''productOnClient''
        (filter (\<lambda>poc. attr poc ''clientId'' \<notin> (\<lambda>c. attr c ''id'') ` set clients \<or> not_in_use poc) pocs)) (\<lambda>_.
     bindS (ask B ''product'' [] []) (\<lambda>products.
     bindS (ask B ''productOnClient'' [] []) (\<lambda>pocs.
       erase_chunks B ''productOnClient'' (filter (\<lambda>poc. attr poc ''productId'' \<notin> (\<lambda>p. attr p ''id'') ` set products) pocs))))))"

section \<open>Properties of products\<close>

definition property_key :: "obj \<Rightarrow> string" where
  "property_key = ident_text [''productId'', ''productVersion'', ''packageVersion'', ''propertyId'']"

definition state_key :: "obj \<Rightarrow> string" where
  "state_key = ident_text [''productId'', ''propertyId'']"

text \<open>The properties whose states may have values that are not possible.\<close>

definition fixed_values :: "obj \<Rightarrow> bool" where
  "fixed_values p \<longleftrightarrow> \<not> json_true (attr p ''editable'') \<and> json_true (attr p ''possibleValues'')"

definition cleanUpProductProperties :: "'s backend \<Rightarrow> string set \<Rightarrow> ('s, string set \<times> (string, obj) dict) act" where
  "cleanUpProductProperties B productIdents =
     bindS (ask B ''productProperty'' [] []) (\<lambda>properties.
     bindS (erase_chunks B ''productProperty'' (filter (\<lambda>p. product_ref p \<notin> productIdents) properties)) (\<lambda>_.
       ret (state_key ` set (filter (\<lambda>p. product_ref p \<in> productIdents) properties),
         foldl (\<lambda>d p. AList.update (property_key p) p d) [] (filter fixed_values properties))))"

definition cleanUpProductPropertyStates :: "'s backend \<Rightarrow> string set \<Rightarrow> ('s, unit) act" where
  "cleanUpProductPropertyStates B idents =
     bindS (ask B ''productPropertyState'' [] []) (\<lambda>states.
       erase_chunks B ''productPropertyState'' (filter (\<lambda>st. state_key st \<notin> idents) states))"

definition force_bool :: "lib \<Rightarrow> json \<Rightarrow> bool option" where
  "force_bool L v = (case v of JBool b \<Rightarrow> Some b | JStr s \<Rightarrow> forceBool L s | _ \<Rightarrow> Some (json_true v))"

definition unicode_lower :: "lib \<Rightarrow> json \<Rightarrow> string" where
  "unicode_lower L v = lower (forceUnicode L v)"

text \<open>What a value becomes: None when it is removed; the flag tells whether the state changes.\<close>

definition clean_value :: "lib \<Rightarrow> obj \<Rightarrow> json \<Rightarrow> (backend_error, json option \<times> bool) result" where
  "clean_value L prop v =
     (let possible = forceList (attr prop ''possibleValues'')
      in if v \<in> set possible then Inr (Some v, False)
         else bindE (if o_class prop = ''BoolProductProperty''
                     then (case force_bool L v of
                             None \<Rightarrow> Inl ValueError
                           | Some b \<Rightarrow> Inr (if JBool b \<in> set possible then Some (JBool b) else None)) else Inr None) (\<lambda>nv.
              case nv of
                Some b \<Rightarrow> Inr (Some b, True)
              | None \<Rightarrow>
                  (case (if o_class prop = ''UnicodeProductProperty''
                         then find (\<lambda>p. unicode_lower L p = unicode_lower L v) possible else None) of
                     Some p \<Rightarrow> Inr (if json_true p then Some p else None, True)
                   | None \<Rightarrow> Inr (None, True))))"

definition clean_values :: "lib \<Rightarrow> obj \<Rightarrow> json list \<Rightarrow> (backend_error, json list \<times> bool) result" where
  "clean_values L prop vs =
     foldE (\<lambda>v (new, changed). bindE (clean_value L prop v) (\<lambda>(nv, c).
         Inr (case nv of Some w \<Rightarrow> new @ [w] | None \<Rightarrow> new, changed \<or> c))) vs ([], False)"

text \<open>The states to delete and the states to update among those found on a depot and its clients.\<close>

definition sort_states :: "lib \<Rightarrow> (string, obj) dict \<Rightarrow> (json, string) dict \<Rightarrow> obj list \<Rightarrow> (backend_error, obj list \<times> obj list) result" where
  "sort_states L props onDepot sts =
     foldE (\<lambda>st (del, upd).
         case map_of onDepot (attr st ''productId'') of
           None \<Rightarrow> Inr (del, upd)
         | Some i \<Rightarrow>
             if i = [] then Inr (del, upd)
             else case map_of props (i @ '';'' @ py_text (attr st ''propertyId'')) of
                    None \<Rightarrow> Inr (del, upd)
                  | Some prop \<Rightarrow>
                      bindE (clean_values L prop (forceList (attr st ''values''))) (\<lambda>(new, changed).
                        Inr (if \<not> changed then (del, upd)
                             else if new = [] then (del @ [st], upd)
                             else (del, upd @ [set_attr ''values'' (JList new) st])))) sts ([], [])"

definition cleanUpValues :: "lib \<Rightarrow> 's backend \<Rightarrow> (json \<Rightarrow> ('s, json list) act) \<Rightarrow> (string, obj) dict \<Rightarrow> obj \<Rightarrow> ('s, unit) act" where
  "cleanUpValues L B clientsOf props depot =
     bindS (clientsOf (attr depot ''id'')) (\<lambda>clients.
     bindS (ask B ''productOnDepot'' [] [(''depotId'', attr depot ''id'')]) (\<lambda>pods.
       let onDepot = foldl (\<lambda>d pod. AList.update (attr pod ''productId'') (product_ref pod) d) [] pods
       in if pods = [] then ret ()
          else bindS (ask B ''productPropertyState'' []
                 [(''objectId'', JList (clients @ [attr depot ''id''])), (''productId'', JList (dict_keys onDepot)), (''propertyId'', JList [])]) (\<lambda>sts.
               bindS (\<lambda>s. (sort_states L props onDepot sts, s)) (\<lambda>(del, upd).
               bindS (erase_chunks B ''productPropertyState'' del) (\<lambda>_.
                 foldS (\<lambda>us _. foldS (\<lambda>u _. update_in B ''productPropertyState'' u) us ()) (chunk chunkSize upd) ())))))"

section \<open>Configurations and audited software\<close>

definition cleanUpConfigStates :: "'s backend \<Rightarrow> ('s, unit) act" where
  "cleanUpConfigStates B =
     bindS (ask B ''config'' [''id''] []) (\<lambda>configs.
     bindS (ask B ''configState'' [] []) (\<lambda>states.
       erase_chunks B ''configState'' (filter (\<lambda>st. attr st ''configId'' \<notin> (\<lambda>c. attr c ''id'') ` set configs) states)))"

definition software_text :: "obj \<Rightarrow> string" where
  "software_text = ident_text software_ident"

definition software_delete :: "'s backend \<Rightarrow> string \<Rightarrow> string list \<Rightarrow> obj \<Rightarrow> ('s, unit) act" where
  "software_delete B pre ks ob = erase_found B pre (map (\<lambda>k. (k, all_if_none (attr ob k))) ks)"

definition cleanUpAuditSoftwares :: "'s backend \<Rightarrow> ('s, unit) act" where
  "cleanUpAuditSoftwares B =
     bindS (ask B ''auditSoftwareOnClient'' [] []) (\<lambda>onClients.
     bindS (ask B ''auditSoftwareToLicensePool'' [] []) (\<lambda>inPools.
     bindS (ask B ''auditSoftware'' [] []) (\<lambda>softwares.
       foldS (\<lambda>sw _. if software_text sw \<notin> software_text ` (set onClients \<union> set inPools)
         then software_delete B ''auditSoftware'' software_ident sw else ret ()) softwares ())))"

definition cleanUpAuditSoftwareOnClients :: "'s backend \<Rightarrow> ('s, unit) act" where
  "cleanUpAuditSoftwareOnClients B =
     bindS (ask B ''auditSoftware'' [] []) (\<lambda>softwares.
     bindS (ask B ''auditSoftwareOnClient'' [] []) (\<lambda>onClients.
       foldS (\<lambda>sw _. if software_text sw \<notin> software_text ` set softwares
         then software_delete B ''auditSoftwareOnClient'' (software_ident @ [''clientId'']) sw else ret ()) onClients ()))"

text \<open>\<open>cleanupBackend\<close> for a backend that is given.\<close>

definition cleanupBackend :: "lib \<Rightarrow> 's backend \<Rightarrow> (json \<Rightarrow> ('s, json list) act) \<Rightarrow> ('s, unit) act" where
  "cleanupBackend L B clientsOf =
     bindS (cleanUpGroups B) (\<lambda>_. bindS (cleanUpProducts B) (\<lambda>_.
     bindS (ask B ''host'' [] [(''type'', JList [JStr ''OpsiConfigserver'', JStr ''OpsiDepotserver''])]) (\<lambda>depots.
     bindS (ask B ''product'' [] []) (\<lambda>products.
     bindS (cleanUpProductOnDepots B ((\<lambda>d. attr d ''id'') ` set depots) (product_key ` set products)) (\<lambda>_.
     bindS (cleanUpProductOnClients B) (\<lambda>_.
     bindS (cleanUpProductProperties B (product_key ` set products)) (\<lambda>(idents, props).
     bindS (cleanUpProductPropertyStates B idents) (\<lambda>_.
     bindS (ask B ''host'' [] [(''type'', JStr ''OpsiDepotserver'')]) (\<lambda>depots.
     bindS (foldS (\<lambda>d _. cleanUpValues L B clientsOf props d) depots ()) (\<lambda>_.
     bindS (cleanUpConfigStates B) (\<lambda>_. bindS (cleanUpAuditSoftwares B) (\<lambda>_.
       cleanUpAuditSoftwareOnClients B))))))))))))"

end
