(* ===== verification/Integrity.thy ===== *)
theory Integrity
  imports Database
begin

text \<open>
  What the base class of the backends deletes together with hosts and products: what is attached to them
  and nothing else. And where an empty list is taken for everything.
\<close>

section \<open>Hosts\<close>

definition refers_to :: "obj \<Rightarrow> string \<Rightarrow> obj \<Rightarrow> bool" where
  "refers_to h pre ob \<longleftrightarrow>
     pre = ''objectToGroup'' \<and> attr ob ''groupType'' = JStr ''HostGroup'' \<and> attr ob ''objectId'' = attr h ''id'' \<or>
     pre \<in> {''productPropertyState'', ''configState''} \<and> attr ob ''objectId'' = attr h ''id'' \<or>
     pre = ''auditHardwareOnHost'' \<and> attr ob ''hostId'' = attr h ''id'' \<or>
     is_client h \<and> pre \<in> {''productOnClient'', ''auditSoftwareOnClient'', ''licenseOnClient''} \<and> attr ob ''clientId'' = attr h ''id'' \<or>
     is_depot h \<and> pre = ''productOnDepot'' \<and> attr ob ''depotId'' = attr h ''id''"

lemma selected_host:
  assumes "plain_id h"
  shows "(\<exists>f. (pre, f) \<in> set (host_references h) \<and> selected f ob) \<longleftrightarrow> refers_to h pre ob"
proof -
  obtain i where i: "attr h ''id'' = JStr i" "i \<noteq> []" using assms by (auto simp: plain_id_def)
  have "\<not> (is_client h \<and> is_depot h)" by (auto simp: is_client_def is_depot_def)
  then show ?thesis
    unfolding host_references_def Let_def refers_to_def
    by (cases "is_client h"; cases "is_depot h")
      (simp_all add: i selected_def selects_def forceList_def conj_disj_distribR ex_disj_distrib, argo+)
qed

lemma plain_references: "plain_id h \<Longrightarrow> \<forall>(pre, f) \<in> set (host_references h). leaf_class pre \<and> plain_filter f"
  by (auto simp: host_references_def Let_def plain_filter_def forceList_def plain_id_def leaf_class_def) (simp_all add: plain_value_def)

text \<open>What is relied on of the backend the base class deletes references from.\<close>

definition reference_methods :: "lib \<Rightarrow> 's backend \<Rightarrow> ('s \<Rightarrow> content) \<Rightarrow> bool" where
  "reference_methods L B D \<longleftrightarrow>
     gets B D \<and> deletes B D \<and> reinserts L ''softwareLicense'' ''boundToHost'' contracts_exist B D \<and> identities L"

definition licenses_sound :: "lib \<Rightarrow> content \<Rightarrow> bool" where
  "licenses_sound L c \<longleftrightarrow> contracts_exist c \<and> unique L (c ''softwareLicense'')"

definition freed :: "obj \<Rightarrow> obj \<Rightarrow> obj" where
  "freed h l = (if is_client h \<and> attr l ''boundToHost'' = attr h ''id'' then set_attr ''boundToHost'' JNull l else l)"

lemma cleared_contract: "attr (set_attr ''boundToHost'' v l) ''licenseContractId'' = attr l ''licenseContractId''"
  by (simp add: attr_set_attr)

lemma contracts_mapped:
  assumes "contracts_exist c" and "\<forall>l. attr (g l) ''licenseContractId'' = attr l ''licenseContractId''"
  shows "contracts_exist (c(''softwareLicense'' := map g (c ''softwareLicense'')))"
  using assms by (auto simp: contracts_exist_def)

lemma contracts_kept:
  assumes "contracts_exist c" and "l \<in> set (c ''softwareLicense'')"
  shows "contracts_exist (c(''softwareLicense'' := replaced L (set_attr ''boundToHost'' JNull l) (c ''softwareLicense'')))"
  using assms by (auto simp: contracts_exist_def replaced_def cleared_contract)

lemma unique_freed:
  assumes "identities L" and "unique L obs"
  shows "unique L (map (freed h) obs)"
proof -
  have "map (getIdent L) (map (freed h) obs) = map (getIdent L) obs" using assms(1) by (simp add: freed_def identities_def)
  then show ?thesis using assms(2) by (simp only: unique_def)
qed

lemma free_licenses_database:
  assumes rm: "reference_methods L B D" and h: "plain_id h" "is_client h" and ls: "licenses_sound L (D s)"
  shows "\<exists>s'. free_licenses B h s = (Inr (), s') \<and> D s' = (D s)(''softwareLicense'' := map (freed h) (D s ''softwareLicense''))"
proof -
  let ?f = "[(''boundToHost'', attr h ''id'')]"
  have pf: "plain_filter ?f" using h(1) by (auto simp: plain_filter_def forceList_def plain_id_def)
  have sel: "selected ?f l \<longleftrightarrow> attr l ''boundToHost'' = attr h ''id''" for l
    using h(1) by (auto simp: selected_def selects_def forceList_def plain_id_def)
  let ?ls = "filter (selected ?f) (D s ''softwareLicense'')"
  have g: "gets B D" and re: "reinserts L ''softwareLicense'' ''boundToHost'' contracts_exist B D"
    and id: "\<forall>ob. getIdent L (set_attr ''boundToHost'' JNull ob) = getIdent L ob"
    using rm by (simp_all add: reference_methods_def identities_def)
  obtain s1 where s1: "ask B ''softwareLicense'' [] ?f s = (Inr ?ls, s1)" "D s1 = D s"
    using ask_database[where B = B and D = D and f = ?f and s = s and pre = "''softwareLicense''", OF g pf] by blast
  have c: "contracts_exist (D s1)" "unique L (D s1 ''softwareLicense'')" "set ?ls \<subseteq> set (D s1 ''softwareLicense'')" "distinct ?ls"
    using ls unique_distinct[of L "D s ''softwareLicense''"] by (auto simp: s1(2) licenses_sound_def)
  obtain s2 where s2:
    "foldS (\<lambda>l _. insert_into B ''softwareLicense'' (set_attr ''boundToHost'' JNull l)) ?ls () s1 = (Inr (), s2)"
    "D s2 = (D s1)(''softwareLicense'' := map (\<lambda>l. if l \<in> set ?ls then set_attr ''boundToHost'' JNull l else l) (D s1 ''softwareLicense''))"
    using reinsert_list_database[OF re id contracts_kept, OF _ _ c] by blast
  have "map (\<lambda>l. if l \<in> set ?ls then set_attr ''boundToHost'' JNull l else l) (D s ''softwareLicense'') = map (freed h) (D s ''softwareLicense'')"
    using h(2) by (auto simp: sel freed_def)
  then have "D s2 = (D s)(''softwareLicense'' := map (freed h) (D s ''softwareLicense''))" by (simp only: s2(2) s1(2))
  then show ?thesis using s1(1) s2(1) by (intro exI[of _ s2]) (simp add: free_licenses_def bindS_def)
qed

lemma release_host_database:
  assumes rm: "reference_methods L B D" and h: "plain_id h" and ls: "licenses_sound L (D s)"
  shows "\<exists>s'. release_host B h s = (Inr (), s') \<and>
    (\<forall>pre. pre \<noteq> ''softwareLicense'' \<longrightarrow> D s' pre = filter (\<lambda>ob. \<not> refers_to h pre ob) (D s pre)) \<and>
    D s' ''softwareLicense'' = map (freed h) (D s ''softwareLicense'') \<and> licenses_sound L (D s')"
proof -
  have g: "gets B D" "deletes B D" and id: "identities L" using rm by (simp_all add: reference_methods_def)
  obtain s1 where s1: "foldS (\<lambda>(pre, f) _. erase_found B pre f) (host_references h) () s = (Inr (), s1)"
    "\<And>pre. D s1 pre = filter (\<lambda>ob. \<not> refers_to h pre ob) (D s pre)"
    using erase_list_database[OF g plain_references[OF h], of s] selected_host[OF h] by auto
  have sl: "D s1 ''softwareLicense'' = D s ''softwareLicense''" "D s1 ''licenseContract'' = D s ''licenseContract''"
    by (simp_all add: s1(2) refers_to_def)
  have ls1: "licenses_sound L (D s1)" using ls by (simp add: licenses_sound_def contracts_exist_def sl)
  show ?thesis
  proof (cases "is_client h")
    case True
    obtain s2 where s2: "free_licenses B h s1 = (Inr (), s2)"
      "D s2 = (D s1)(''softwareLicense'' := map (freed h) (D s1 ''softwareLicense''))"
      using free_licenses_database[where s = s1, OF rm h True ls1] by blast
    have "licenses_sound L (D s2)"
      using ls1 contracts_mapped[of "D s1" "freed h"] unique_freed[OF id, of "D s1 ''softwareLicense''" h]
      by (simp add: s2(2) licenses_sound_def freed_def cleared_contract)
    moreover have "D s2 ''softwareLicense'' = map (freed h) (D s ''softwareLicense'')" by (simp add: s2(2) sl)
    moreover have "D s2 pre = filter (\<lambda>ob. \<not> refers_to h pre ob) (D s pre)" if "pre \<noteq> ''softwareLicense''" for pre
      using that by (simp add: s2(2) s1(2))
    ultimately show ?thesis using s1(1) s2(1) True by (intro exI[of _ s2]) (simp add: release_host_def bindS_def)
  next
    case False
    have "map (freed h) (D s ''softwareLicense'') = D s ''softwareLicense''" using False by (intro map_idI) (simp add: freed_def)
    then show ?thesis using s1 sl ls1 False by (intro exI[of _ s1]) (simp add: release_host_def bindS_def)
  qed
qed

lemma release_hosts_database:
  assumes rm: "reference_methods L B D"
  shows "\<forall>h \<in> set hosts. plain_id h \<Longrightarrow> licenses_sound L (D s) \<Longrightarrow>
    \<exists>s'. base_host_deleteObjects B hosts s = (Inr (), s') \<and>
    (\<forall>pre. pre \<noteq> ''softwareLicense'' \<longrightarrow> D s' pre = filter (\<lambda>ob. \<not> (\<exists>h \<in> set hosts. refers_to h pre ob)) (D s pre)) \<and>
    D s' ''softwareLicense'' = map (\<lambda>l. foldl (\<lambda>l h. freed h l) l hosts) (D s ''softwareLicense'')"
proof (induction hosts arbitrary: s)
  case (Cons h hosts)
  obtain s1 where s1: "release_host B h s = (Inr (), s1)"
    "\<forall>pre. pre \<noteq> ''softwareLicense'' \<longrightarrow> D s1 pre = filter (\<lambda>ob. \<not> refers_to h pre ob) (D s pre)"
    "D s1 ''softwareLicense'' = map (freed h) (D s ''softwareLicense'')" "licenses_sound L (D s1)"
    using release_host_database[where s = s and h = h, OF rm] Cons.prems by auto
  obtain s2 where s2: "base_host_deleteObjects B hosts s1 = (Inr (), s2)"
    "\<forall>pre. pre \<noteq> ''softwareLicense'' \<longrightarrow> D s2 pre = filter (\<lambda>ob. \<not> (\<exists>h \<in> set hosts. refers_to h pre ob)) (D s1 pre)"
    "D s2 ''softwareLicense'' = map (\<lambda>l. foldl (\<lambda>l h. freed h l) l hosts) (D s1 ''softwareLicense'')"
    using Cons.IH[of s1] Cons.prems(1) s1(4) by auto
  have "D s2 pre = filter (\<lambda>ob. \<not> (\<exists>h \<in> set (h # hosts). refers_to h pre ob)) (D s pre)" if "pre \<noteq> ''softwareLicense''" for pre
    using that s1(2) s2(2) by (auto intro: filter_cong)
  then show ?case using s1(1,3) s2(1,3)
    by (intro exI[of _ s2]) (simp add: base_host_deleteObjects_def bindS_def)
qed (simp add: base_host_deleteObjects_def)

lemma plain_id_not_null: "plain_id h \<Longrightarrow> JNull \<noteq> attr h ''id''" "plain_id h \<Longrightarrow> attr h ''id'' \<noteq> JNull"
  by (auto simp: plain_id_def)

lemma freed_by_any:
  assumes "\<forall>h \<in> set hosts. plain_id h"
  shows "foldl (\<lambda>l h. freed h l) l hosts =
    (if \<exists>h \<in> set hosts. is_client h \<and> attr l ''boundToHost'' = attr h ''id'' then set_attr ''boundToHost'' JNull l else l)"
proof -
  have same: "foldl (\<lambda>l h. freed h l) l hosts = l" if "attr l ''boundToHost'' = JNull" "\<forall>h \<in> set hosts. plain_id h" for hosts l
    using that by (induction hosts) (auto simp: freed_def plain_id_def)
  show ?thesis using assms
  proof (induction hosts arbitrary: l)
    case (Cons h hosts)
    then show ?case by (cases "is_client h \<and> attr l ''boundToHost'' = attr h ''id''") (auto simp: freed_def same attr_set_attr plain_id_not_null)
  qed simp
qed

text \<open>
  C10: Before the backends delete hosts, the base class deletes what is attached to them: members of groups of hosts,
  states of products, properties and configurations, products on a depot, found software and hardware and licenses in use. These objects
  and no others are deleted, whatever the classes of the hosts; the licenses bound to a deleted client are kept and
  bound to no host. The ids are texts without wildcards, licenses have contracts and identities of their own, and the
  methods called are those of the data backends, which delete nothing along with such objects; the extended backend would
  also delete products that no depot has any more. Values that name a host, such as the depot in \<open>clientconfig.depot.id\<close>, stay.
\<close>

theorem no_reference_to_deleted_hosts:
  assumes "reference_methods L B D" and "\<forall>h \<in> set hosts. plain_id h" and "licenses_sound L (D s)"
  shows "\<exists>s'. base_host_deleteObjects B hosts s = (Inr (), s') \<and>
    (\<forall>pre. pre \<noteq> ''softwareLicense'' \<longrightarrow> D s' pre = filter (\<lambda>ob. \<not> (\<exists>h \<in> set hosts. refers_to h pre ob)) (D s pre)) \<and>
    D s' ''softwareLicense'' = map (\<lambda>l. if \<exists>h \<in> set hosts. is_client h \<and> attr l ''boundToHost'' = attr h ''id''
       then set_attr ''boundToHost'' JNull l else l) (D s ''softwareLicense'')"
proof -
  from release_hosts_database[where s = s, OF assms] obtain s' where "base_host_deleteObjects B hosts s = (Inr (), s')"
    "\<forall>pre. pre \<noteq> ''softwareLicense'' \<longrightarrow> D s' pre = filter (\<lambda>ob. \<not> (\<exists>h \<in> set hosts. refers_to h pre ob)) (D s pre)"
    "D s' ''softwareLicense'' = map (\<lambda>l. foldl (\<lambda>l h. freed h l) l hosts) (D s ''softwareLicense'')"
    by blast
  then show ?thesis by (intro exI[of _ s'] conjI) (simp_all only: freed_by_any[OF assms(2)])
qed

text \<open>Concrete data, in a store with the checks and cascades of the data backends.\<close>

definition id_lib :: lib where
  "id_lib = sample_lib\<lparr>getIdent := (\<lambda>ob. filter (\<lambda>(k, v). k \<notin> {''boundToHost'', ''parentGroupId'', ''values''}) (o_hash ob))\<rparr>"

lemma filter_update: "\<not> P k \<Longrightarrow> filter (\<lambda>(k, v). P k) (AList.update k v h) = filter (\<lambda>(k, v). P k) h"
  by (induction h) auto

lemma id_lib_identities: "identities id_lib"
  by (auto simp: identities_def id_lib_def set_attr_def filter_update[where P = "\<lambda>k. k \<noteq> ''boundToHost'' \<and> k \<noteq> ''parentGroupId'' \<and> k \<noteq> ''values''"])

abbreviation checking_store :: "content backend" where
  "checking_store \<equiv>
     data_store id_lib (\<lambda>ob. ob) \<lparr>option_defaults = [(''additionalReferentialIntegrityChecks'', JBool True)], option_store = []\<rparr>"

definition client_pc1 :: obj where
  "client_pc1 = \<lparr>o_class = ''OpsiClient'', o_hash = [(''id'', JStr ''pc1'')], o_generated = False\<rparr>"

definition state_on :: "string \<Rightarrow> obj" where
  "state_on c = \<lparr>o_class = ''ConfigState'', o_hash = [(''configId'', JStr ''a''), (''objectId'', JStr c)], o_generated = False\<rparr>"

definition license_of :: "string \<Rightarrow> json \<Rightarrow> obj" where
  "license_of i h = \<lparr>o_class = ''RetailSoftwareLicense'',
     o_hash = [(''id'', JStr i), (''licenseContractId'', JStr ''c''), (''boundToHost'', h)], o_generated = False\<rparr>"

definition contract_c :: obj where
  "contract_c = \<lparr>o_class = ''LicenseContract'', o_hash = [(''id'', JStr ''c'')], o_generated = False\<rparr>"

definition some_content :: content where
  "some_content = (\<lambda>_. [])(''host'' := [client_pc1], ''configState'' := [state_on ''pc1'', state_on ''pc2''], ''licenseContract'' := [contract_c],
     ''softwareLicense'' := [license_of ''l1'' (JStr ''pc1''), license_of ''l2'' JNull])"

theorem no_reference_to_deleted_hosts_witness:
  "\<exists>s'. base_host_deleteObjects checking_store [client_pc1] some_content = (Inr (), s') \<and>
     s' ''configState'' = [state_on ''pc2''] \<and> s' ''softwareLicense'' = [license_of ''l1'' JNull, license_of ''l2'' JNull]"
proof -
  have rm: "reference_methods id_lib checking_store id"
    using store_gets(3) store_deletes(3) store_reinserts(1)[OF id_lib_identities] id_lib_identities by (simp add: reference_methods_def)
  have pl: "\<forall>h \<in> set [client_pc1]. plain_id h" by (simp add: plain_id_def client_pc1_def attr_def plain_value_def)
  have ls: "licenses_sound id_lib (id some_content)"
    by (simp add: licenses_sound_def contracts_exist_def unique_def some_content_def id_lib_def license_of_def contract_c_def attr_def
        plain_text_def plain_value_def)
  obtain s' where s': "base_host_deleteObjects checking_store [client_pc1] some_content = (Inr (), s')"
    "\<forall>pre. pre \<noteq> ''softwareLicense'' \<longrightarrow> s' pre = filter (\<lambda>ob. \<not> (\<exists>h \<in> set [client_pc1]. refers_to h pre ob)) (some_content pre)"
    "s' ''softwareLicense'' = map (\<lambda>l. if \<exists>h \<in> set [client_pc1]. is_client h \<and> attr l ''boundToHost'' = attr h ''id''
       then set_attr ''boundToHost'' JNull l else l) (some_content ''softwareLicense'')"
    using no_reference_to_deleted_hosts[where D = id and s = some_content and hosts = "[client_pc1]", OF rm pl ls] unfolding id_apply by blast
  have "s' ''configState'' = [state_on ''pc2'']"
    using s'(2) by (simp add: some_content_def refers_to_def client_pc1_def state_on_def attr_def)
  moreover have "s' ''softwareLicense'' = [license_of ''l1'' JNull, license_of ''l2'' JNull]"
    unfolding s'(3) by (simp add: some_content_def client_pc1_def is_client_def license_of_def attr_def set_attr_def)
  ultimately show ?thesis using s'(1) by blast
qed

section \<open>Products\<close>

definition version_of :: "obj \<Rightarrow> json \<times> json" where
  "version_of p = (attr p ''productVersion'', attr p ''packageVersion'')"

text \<open>An object that belongs to one version of a product, or to the product whatever its version.\<close>

definition belongs_to_version :: "obj \<Rightarrow> string \<Rightarrow> obj \<Rightarrow> bool" where
  "belongs_to_version p pre ob \<longleftrightarrow>
     pre \<in> {''productProperty'', ''productDependency'', ''productOnDepot''} \<and> attr ob ''productId'' = attr p ''id'' \<and> version_of ob = version_of p"

definition belongs_to_product :: "json \<Rightarrow> string \<Rightarrow> obj \<Rightarrow> bool" where
  "belongs_to_product i pre ob \<longleftrightarrow>
     pre = ''objectToGroup'' \<and> attr ob ''groupType'' = JStr ''ProductGroup'' \<and> attr ob ''objectId'' = i \<or>
     pre \<in> {''productOnClient'', ''productPropertyState''} \<and> attr ob ''productId'' = i"

text \<open>Every version of the product that is stored is among those deleted.\<close>

definition all_gone :: "obj list \<Rightarrow> obj list \<Rightarrow> json \<Rightarrow> bool" where
  "all_gone deleted stored i \<longleftrightarrow>
     (\<forall>q \<in> set stored. attr q ''id'' = i \<longrightarrow> (\<exists>p \<in> set deleted. attr p ''id'' = i \<and> version_of p = version_of q))"

definition plain_product :: "obj \<Rightarrow> bool" where
  "plain_product p \<longleftrightarrow> plain_text (attr p ''id'') \<and> plain_text (attr p ''productVersion'') \<and> plain_text (attr p ''packageVersion'')"

lemma selected_product_filter:
  "plain_product p \<Longrightarrow> selected (product_filter p) ob \<longleftrightarrow> attr ob ''productId'' = attr p ''id'' \<and> version_of ob = version_of p"
  by (simp add: plain_product_def product_filter_def selected_def selects_def plain_textD version_of_def)

lemma plain_product_filter: "plain_product p \<Longrightarrow> plain_filter (product_filter p)"
  by (simp add: plain_product_def product_filter_def plain_filter_def plain_textD)

lemma release_product_version_database:
  assumes "gets B D" and "deletes B D" and p: "plain_product p"
  shows "\<exists>s'. release_product_version B p s = (Inr (), s') \<and>
    (\<forall>pre. D s' pre = filter (\<lambda>ob. \<not> belongs_to_version p pre ob) (D s pre))"
proof -
  let ?refs = "map (\<lambda>pre. (pre, product_filter p)) [''productProperty'', ''productDependency'', ''productOnDepot'']"
  obtain s' where s': "foldS (\<lambda>(pre, f) _. erase_found B pre f) ?refs () s = (Inr (), s')"
    "\<And>pre. D s' pre = filter (\<lambda>ob. \<not> (\<exists>f. (pre, f) \<in> set ?refs \<and> selected f ob)) (D s pre)"
    using erase_list_database[where B = B and D = D and refs = ?refs and s = s, OF assms(1,2)] plain_product_filter[OF p]
    by (auto simp: leaf_class_def)
  have "(\<exists>f. (pre, f) \<in> set ?refs \<and> selected f ob) \<longleftrightarrow> belongs_to_version p pre ob" for pre ob
    by (simp add: belongs_to_version_def selected_product_filter[OF p] conj_disj_distribR ex_disj_distrib)
  moreover have "release_product_version B p s = (Inr (), s')"
    unfolding release_product_version_def using s'(1)[unfolded foldS_map prod.case] .
  ultimately show ?thesis by (intro exI[of _ s']) (simp only: s'(2) simp_thms)
qed

lemma release_product_versions_database:
  assumes "gets B D" and "deletes B D"
  shows "\<forall>p \<in> set ps. plain_product p \<Longrightarrow>
    \<exists>s'. foldS (\<lambda>p _. release_product_version B p) ps () s = (Inr (), s') \<and>
      (\<forall>pre. D s' pre = filter (\<lambda>ob. \<not> (\<exists>p \<in> set ps. belongs_to_version p pre ob)) (D s pre))"
proof (induction ps arbitrary: s)
  case (Cons p ps)
  obtain s1 where s1: "release_product_version B p s = (Inr (), s1)"
    "\<And>pre. D s1 pre = filter (\<lambda>ob. \<not> belongs_to_version p pre ob) (D s pre)"
    using release_product_version_database[where B = B and D = D and s = s and p = p, OF assms] Cons.prems by auto
  obtain s2 where s2: "foldS (\<lambda>p _. release_product_version B p) ps () s1 = (Inr (), s2)"
    "\<And>pre. D s2 pre = filter (\<lambda>ob. \<not> (\<exists>p \<in> set ps. belongs_to_version p pre ob)) (D s1 pre)"
    using Cons.IH[of s1] Cons.prems by auto
  show ?case using s1(1) s2(1)
    by (intro exI[of _ s2]) (auto simp: bindS_def s2(2) s1(2) intro!: filter_cong)
qed simp

lemma release_product_database:
  assumes db: "gets B D" "deletes B D" and i: "plain_text i"
  shows "\<exists>s'. release_product B versions i s = (Inr (), s') \<and>
    (\<forall>pre. D s' pre = filter (\<lambda>ob. \<not> ((\<forall>q \<in> set (D s ''product''). attr q ''id'' = i \<longrightarrow> version_of q \<in> set versions) \<and>
        belongs_to_product i pre ob)) (D s pre))"
proof -
  let ?as = "[''id'', ''productVersion'', ''packageVersion'']"
  let ?refs = "[(''objectToGroup'', [(''groupType'', JStr ''ProductGroup''), (''objectId'', i)]),
               (''productOnClient'', [(''productId'', i)]), (''productPropertyState'', [(''productId'', i)])]"
  have pf: "plain_filter [(''id'', i)]" "\<forall>(pre, f) \<in> set ?refs. leaf_class pre \<and> plain_filter f"
    using plain_textD[OF i] by (simp_all add: plain_filter_def leaf_class_def) (simp_all add: plain_value_def forceList_def)
  obtain ps s1 where s1: "ask B ''product'' ?as [(''id'', i)] s = (Inr ps, s1)" "D s1 = D s"
    "\<forall>a \<in> set ?as. map (\<lambda>ob. attr ob a) ps = map (\<lambda>ob. attr ob a) (filter (selected [(''id'', i)]) (D s ''product''))"
    using ask_attributes[where B = B and D = D and s = s and f = "[(''id'', i)]" and as = ?as and pre = "''product''", OF db(1) pf(1)] by blast
  have "map version_of ps = map version_of (filter (selected [(''id'', i)]) (D s ''product''))"
    using s1(3) by (simp add: version_of_def list_eq_iff_nth_eq)
  then have "version_of ` set ps = version_of ` set (filter (selected [(''id'', i)]) (D s ''product''))"
    by (metis list.set_map)
  also have "set (filter (selected [(''id'', i)]) (D s ''product'')) = {q \<in> set (D s ''product''). attr q ''id'' = i}"
    using plain_textD[OF i] by (simp add: selected_def selects_def)
  finally have vs: "version_of ` set ps = version_of ` {q \<in> set (D s ''product''). attr q ''id'' = i}" .
  have "list_all (\<lambda>p. (attr p ''productVersion'', attr p ''packageVersion'') \<in> set versions) ps \<longleftrightarrow> version_of ` set ps \<subseteq> set versions"
    by (auto simp: list_all_iff version_of_def)
  then have gone: "list_all (\<lambda>p. (attr p ''productVersion'', attr p ''packageVersion'') \<in> set versions) ps \<longleftrightarrow>
      (\<forall>q \<in> set (D s ''product''). attr q ''id'' = i \<longrightarrow> version_of q \<in> set versions)"
    by (auto simp: vs)
  have refs: "(\<exists>f. (pre, f) \<in> set ?refs \<and> selected f ob) \<longleftrightarrow> belongs_to_product i pre ob" for pre ob
    using plain_textD[OF i]
    by (simp add: belongs_to_product_def conj_disj_distribR ex_disj_distrib selected_def selects_def forceList_def)
  show ?thesis
  proof (cases "list_all (\<lambda>p. (attr p ''productVersion'', attr p ''packageVersion'') \<in> set versions) ps")
    case True
    obtain s2 where s2: "foldS (\<lambda>(pre, f) _. erase_found B pre f) ?refs () s1 = (Inr (), s2)"
      "\<And>pre. D s2 pre = filter (\<lambda>ob. \<not> (\<exists>f. (pre, f) \<in> set ?refs \<and> selected f ob)) (D s1 pre)"
      using erase_list_database[where B = B and D = D and refs = ?refs and s = s1, OF db pf(2)] by blast
    have run: "release_product B versions i s = (Inr (), s2)"
      using s1(1) True s2(1) by (simp only: release_product_def bindS_def prod.case sum.case if_True)
    have "\<forall>q \<in> set (D s ''product''). attr q ''id'' = i \<longrightarrow> version_of q \<in> set versions" using gone True by simp
    then have all: "(\<forall>q \<in> set (D s ''product''). attr q ''id'' = i \<longrightarrow> version_of q \<in> set versions) = True" by (rule eqTrueI)
    show ?thesis by (intro exI[of _ s2]) (simp only: run s2(2) refs s1(2) all simp_thms)
  next
    case False
    have run: "release_product B versions i s = (Inr (), s1)"
      using s1(1) False by (simp only: release_product_def bindS_def prod.case sum.case if_False ret_def)
    have all: "(\<forall>q \<in> set (D s ''product''). attr q ''id'' = i \<longrightarrow> version_of q \<in> set versions) = False" using gone False by simp
    have "filter (\<lambda>ob. True) xs = xs" for xs :: "obj list" by simp
    then show ?thesis by (intro exI[of _ s1]) (simp only: run s1(2) all simp_thms)
  qed
qed

lemma belongs_to_product_class: "belongs_to_product i pre ob \<Longrightarrow> pre \<noteq> ''product''"
  by (auto simp: belongs_to_product_def)

lemma release_products_database:
  assumes db: "gets B D" "deletes B D"
  shows "\<forall>(i, vs) \<in> set ivs. plain_text i \<Longrightarrow>
    \<exists>s'. foldS (\<lambda>(i, vs) _. release_product B vs i) ivs () s = (Inr (), s') \<and>
      (\<forall>pre. D s' pre = filter (\<lambda>ob. \<not> (\<exists>(i, vs) \<in> set ivs.
          (\<forall>q \<in> set (D s ''product''). attr q ''id'' = i \<longrightarrow> version_of q \<in> set vs) \<and> belongs_to_product i pre ob)) (D s pre))"
proof (induction ivs arbitrary: s)
  case (Cons iv ivs)
  obtain i vs where iv: "iv = (i, vs)" by (cases iv)
  have i: "plain_text i" using Cons.prems by (simp add: iv)
  obtain s1 where s1: "release_product B vs i s = (Inr (), s1)"
    "\<And>pre. D s1 pre = filter (\<lambda>ob. \<not> ((\<forall>q \<in> set (D s ''product''). attr q ''id'' = i \<longrightarrow> version_of q \<in> set vs) \<and>
        belongs_to_product i pre ob)) (D s pre)"
    using release_product_database[where B = B and D = D and s = s and versions = vs, OF db i] by blast
  have same: "D s1 ''product'' = D s ''product''" using belongs_to_product_class by (auto simp: s1(2) filter_id_conv)
  obtain s2 where s2: "foldS (\<lambda>(i, vs) _. release_product B vs i) ivs () s1 = (Inr (), s2)"
    "\<And>pre. D s2 pre = filter (\<lambda>ob. \<not> (\<exists>(i, vs) \<in> set ivs.
          (\<forall>q \<in> set (D s ''product''). attr q ''id'' = i \<longrightarrow> version_of q \<in> set vs) \<and> belongs_to_product i pre ob)) (D s1 pre)"
    using Cons.IH[of s1] Cons.prems same by auto
  have "D s2 pre = filter (\<lambda>ob. \<not> (\<exists>(i, vs) \<in> set (iv # ivs).
          (\<forall>q \<in> set (D s ''product''). attr q ''id'' = i \<longrightarrow> version_of q \<in> set vs) \<and> belongs_to_product i pre ob)) (D s pre)" for pre
    unfolding s2(2) s1(2) filter_filter iv by (rule filter_cong) auto
  then show ?case using s1(1) s2(1) by (intro exI[of _ s2]) (simp add: iv bindS_def)
qed simp

lemma group_by_mem: "(k, vs) \<in> set (group_by key val xs) \<Longrightarrow> k \<in> key ` set xs \<and> vs = map val (filter (\<lambda>x. key x = k) xs)"
proof -
  assume a: "(k, vs) \<in> set (group_by key val xs)"
  then have "map_of (group_by key val xs) k = Some vs"
    using distinct_keys_group_by[of key val xs] by (simp add: dict_keys_def)
  moreover have "k \<in> key ` set xs" using a keys_group_by[of key val xs] by (force simp: dict_keys_def)
  ultimately show ?thesis using dict_list_group_by[of key val xs k] by (simp add: dict_list_def)
qed

lemma release_all_products:
  assumes db: "gets B D" "deletes B D" and ps: "\<forall>p \<in> set ps. plain_product p"
  shows "\<exists>s'. base_product_deleteObjects B ps s = (Inr (), s') \<and>
    (\<forall>pre. D s' pre = filter (\<lambda>ob. \<not> (\<exists>p \<in> set ps. belongs_to_version p pre ob \<or>
        all_gone ps (D s ''product'') (attr p ''id'') \<and> belongs_to_product (attr p ''id'') pre ob)) (D s pre))"
proof -
  let ?ivs = "group_by (\<lambda>p. attr p ''id'') version_of ps"
  obtain s1 where s1: "foldS (\<lambda>p _. release_product_version B p) ps () s = (Inr (), s1)"
    "\<And>pre. D s1 pre = filter (\<lambda>ob. \<not> (\<exists>p \<in> set ps. belongs_to_version p pre ob)) (D s pre)"
    using release_product_versions_database[where B = B and D = D and s = s, OF db ps] by blast
  have same: "D s1 ''product'' = D s ''product''" by (auto simp: s1(2) belongs_to_version_def)
  have pt: "\<forall>(i, vs) \<in> set ?ivs. plain_text i" using group_by_mem[of _ _ "\<lambda>p. attr p ''id''" version_of ps] ps
    by (fastforce simp: plain_product_def)
  obtain s2 where s2: "foldS (\<lambda>(i, vs) _. release_product B vs i) ?ivs () s1 = (Inr (), s2)"
    "\<And>pre. D s2 pre = filter (\<lambda>ob. \<not> (\<exists>(i, vs) \<in> set ?ivs.
          (\<forall>q \<in> set (D s ''product''). attr q ''id'' = i \<longrightarrow> version_of q \<in> set vs) \<and> belongs_to_product i pre ob)) (D s1 pre)"
    using release_products_database[where B = B and D = D and s = s1, OF db pt] same by auto
  have gone: "(\<exists>(i, vs) \<in> set ?ivs. (\<forall>q \<in> set (D s ''product''). attr q ''id'' = i \<longrightarrow> version_of q \<in> set vs) \<and> belongs_to_product i pre ob)
    \<longleftrightarrow> (\<exists>p \<in> set ps. all_gone ps (D s ''product'') (attr p ''id'') \<and> belongs_to_product (attr p ''id'') pre ob)" (is "?l \<longleftrightarrow> ?r") for pre ob
  proof
    assume ?l
    then show ?r using group_by_mem[of _ _ "\<lambda>p. attr p ''id''" version_of ps] by (fastforce simp: all_gone_def)
  next
    assume ?r
    then obtain p where p: "p \<in> set ps" "all_gone ps (D s ''product'') (attr p ''id'')" "belongs_to_product (attr p ''id'') pre ob" by blast
    have "attr p ''id'' \<in> set (dict_keys ?ivs)" using p(1) by (simp add: keys_group_by)
    then obtain vs where vs: "(attr p ''id'', vs) \<in> set ?ivs" by (auto simp: dict_keys_def)
    then have vs_eq: "vs = map version_of (filter (\<lambda>x. attr x ''id'' = attr p ''id'') ps)" using group_by_mem by fastforce
    have "\<forall>q \<in> set (D s ''product''). attr q ''id'' = attr p ''id'' \<longrightarrow> version_of q \<in> set vs"
    proof (intro ballI impI)
      fix q assume "q \<in> set (D s ''product'')" "attr q ''id'' = attr p ''id''"
      then obtain r where r: "r \<in> set ps" "attr r ''id'' = attr p ''id''" "version_of r = version_of q"
        using p(2) by (auto simp: all_gone_def)
      have "version_of r \<in> version_of ` set (filter (\<lambda>x. attr x ''id'' = attr p ''id'') ps)" using r(1,2) by (intro imageI) simp
      then show "version_of q \<in> set vs" unfolding vs_eq set_map r(3) .
    qed
    then show ?l using vs p(3) by blast
  qed
  have "D s2 pre = filter (\<lambda>ob. \<not> (\<exists>p \<in> set ps. belongs_to_version p pre ob \<or>
        all_gone ps (D s ''product'') (attr p ''id'') \<and> belongs_to_product (attr p ''id'') pre ob)) (D s pre)" for pre
    unfolding s2(2) gone s1(2) filter_filter by (rule filter_cong) auto
  then show ?thesis using s1(1) s2(1)
    by (intro exI[of _ s2]) (simp add: base_product_deleteObjects_def bindS_def version_of_def[abs_def])
qed

text \<open>
  C11: Before the backends delete versions of products, the base class deletes what belongs to one of these versions: properties,
  dependencies and the product on depots; what belongs to a product whatever its version (members of groups, states on clients,
  values of properties) is deleted exactly when all stored versions of the product are deleted. Everything else
  stays. Ids and versions are texts without wildcards, and the methods called are those of the data backends, which delete nothing
  along with such objects; the extended backend would also delete products that no depot has any more.
\<close>

theorem deleting_product_versions:
  assumes "gets B D" and "deletes B D" and "\<forall>p \<in> set ps. plain_product p"
  shows "\<exists>s'. base_product_deleteObjects B ps s = (Inr (), s') \<and>
    (\<forall>pre. D s' pre = filter (\<lambda>ob. \<not> (\<exists>p \<in> set ps. belongs_to_version p pre ob \<or>
        all_gone ps (D s ''product'') (attr p ''id'') \<and> belongs_to_product (attr p ''id'') pre ob)) (D s pre))"
  by (rule release_all_products[OF assms])

definition version_1 :: obj where
  "version_1 = \<lparr>o_class = ''LocalbootProduct'', o_hash = [(''id'', JStr ''p''), (''productVersion'', JStr ''1''), (''packageVersion'', JStr ''1'')],
     o_generated = False\<rparr>"

definition state_of_p :: obj where
  "state_of_p = \<lparr>o_class = ''ProductOnClient'', o_hash = [(''productId'', JStr ''p''), (''clientId'', JStr ''pc1'')], o_generated = False\<rparr>"

definition product_content :: content where
  "product_content = (\<lambda>_. [])(''product'' := [version_1], ''productOnClient'' := [state_of_p])"

theorem deleting_product_versions_witness:
  "\<exists>s'. base_product_deleteObjects checking_store [version_1] product_content = (Inr (), s') \<and> s' ''productOnClient'' = []"
proof -
  have pl: "\<forall>p \<in> set [version_1]. plain_product p"
    by (simp add: plain_product_def plain_text_def version_1_def attr_def plain_value_def)
  obtain s' where s': "base_product_deleteObjects checking_store [version_1] product_content = (Inr (), s')"
    "\<forall>pre. s' pre = filter (\<lambda>ob. \<not> (\<exists>p \<in> set [version_1]. belongs_to_version p pre ob \<or>
        all_gone [version_1] (product_content ''product'') (attr p ''id'') \<and> belongs_to_product (attr p ''id'') pre ob)) (product_content pre)"
    using deleting_product_versions[where s = product_content and ps = "[version_1]", OF store_gets(3) store_deletes(3) pl]
    unfolding id_apply by blast
  then have "s' ''productOnClient'' = []"
    by (simp add: product_content_def all_gone_def belongs_to_product_def version_1_def state_of_p_def attr_def)
  then show ?thesis using s'(1) by blast
qed

section \<open>Licenses\<close>

text \<open>The links of licenses to pools are deleted after the check of the base class.\<close>

definition deletes_links :: "'s backend \<Rightarrow> ('s \<Rightarrow> content) \<Rightarrow> bool" where
  "deletes_links B D \<longleftrightarrow>
     (\<forall>s obs. set obs \<subseteq> set (D s ''softwareLicenseToLicensePool'') \<longrightarrow>
        (case base_softwareLicenseToLicensePool_deleteObjects B obs s of
           (Inl e, _) \<Rightarrow> b_delete B ''softwareLicenseToLicensePool'' obs s = Inl e
         | (Inr _, _) \<Rightarrow> (\<exists>s'. b_delete B ''softwareLicenseToLicensePool'' obs s = Inr s' \<and>
             D s' = (D s)(''softwareLicenseToLicensePool'' := filter (\<lambda>ob. ob \<notin> set obs) (D s ''softwareLicenseToLicensePool'')))))"

definition linked_and_used :: "content \<Rightarrow> bool" where
  "linked_and_used c \<longleftrightarrow> (\<exists>l \<in> set (c ''softwareLicenseToLicensePool''). \<exists>u \<in> set (c ''licenseOnClient'').
     attr u ''softwareLicenseId'' = attr l ''softwareLicenseId'')"

text \<open>
  C40: Deleting an empty list of software licenses, which is what deleting a license that does not exist amounts to, asks the backend to
  delete the links of all licenses to their pools: the empty list of ids is a filter that selects everything. While a
  linked license is in use on a client this is refused with an error, otherwise all links are gone and
  nothing else changes. The ids of the linked licenses are texts without wildcards.
\<close>

theorem deleting_no_license_deletes_all_links:
  assumes "gets B D" and "deletes_links B D" and "\<forall>l \<in> set (D s ''softwareLicenseToLicensePool''). plain_text (attr l ''softwareLicenseId'')"
  shows "if linked_and_used (D s) then fst (base_softwareLicense_deleteObjects B [] s) = Inl BackendReferentialIntegrityError
    else \<exists>s'. base_softwareLicense_deleteObjects B [] s = (Inr (), s') \<and> D s' = (D s)(''softwareLicenseToLicensePool'' := [])"
proof -
  let ?p = "''softwareLicenseToLicensePool''"
  let ?links = "D s ?p"
  let ?f = "[(''softwareLicenseId'', JList (map (\<lambda>l. attr l ''softwareLicenseId'') ?links))]"
  have e: "plain_filter [(''softwareLicenseId'', JList [])]" by (simp add: plain_filter_def forceList_def)
  have all: "filter (selected [(''softwareLicenseId'', JList [])]) ?links = ?links" by (simp add: selected_def selects_def)
  obtain s1 where s1: "ask B ?p [] [(''softwareLicenseId'', JList [])] s = (Inr ?links, s1)" "D s1 = D s"
    using ask_database[where B = B and D = D and s = s and pre = ?p, OF assms(1) e] unfolding all by blast
  have run: "base_softwareLicense_deleteObjects B [] s = erase B ?p ?links s1"
    using s1(1) by (simp add: base_softwareLicense_deleteObjects_def erase_found_def bindS_def)
  have f: "plain_filter ?f" using assms(3) by (auto simp: plain_filter_def forceList_def dest: plain_textD)
  obtain s2 where s2: "ask B ''licenseOnClient'' [] ?f s1 = (Inr (filter (selected ?f) (D s ''licenseOnClient'')), s2)"
    using ask_database[where B = B and D = D and s = s1 and pre = "''licenseOnClient''", OF assms(1) f] s1(2) by auto
  have used: "filter (selected ?f) (D s ''licenseOnClient'') \<noteq> [] \<longleftrightarrow> linked_and_used (D s)" if "?links \<noteq> []"
    using that by (auto simp: filter_empty_conv selected_def selects_def forceList_def linked_and_used_def)
  have check: "\<exists>s3. base_softwareLicenseToLicensePool_deleteObjects B ?links s1 =
      (if linked_and_used (D s) then Inl BackendReferentialIntegrityError else Inr (), s3)"
  proof (cases "?links = []")
    case True
    then show ?thesis by (simp add: base_softwareLicenseToLicensePool_deleteObjects_def linked_and_used_def ret_def)
  next
    case False
    then show ?thesis using s2 used[OF False]
      by (simp add: base_softwareLicenseToLicensePool_deleteObjects_def bindS_def fail_def ret_def)
  qed
  have sub: "set ?links \<subseteq> set (D s1 ?p)" by (simp add: s1(2))
  note law = assms(2)[unfolded deletes_links_def, rule_format, OF sub]
  show ?thesis
  proof (cases "linked_and_used (D s)")
    case True
    then have "b_delete B ?p ?links s1 = Inl BackendReferentialIntegrityError" using check law by auto
    then show ?thesis using True run by (simp add: erase_def)
  next
    case False
    then obtain s' where s': "b_delete B ?p ?links s1 = Inr s'" "D s' = (D s1)(?p := filter (\<lambda>ob. ob \<notin> set ?links) (D s1 ?p))"
      using check law by auto
    have none: "filter (\<lambda>ob. ob \<notin> set xs) xs = []" for xs :: "obj list" by (simp add: filter_empty_conv)
    have "D s' = (D s)(?p := [])" using s'(2) by (simp only: s1(2) none)
    then show ?thesis using False run s'(1) by (simp add: erase_def)
  qed
qed

definition link_of :: "string \<Rightarrow> obj" where
  "link_of i = \<lparr>o_class = ''SoftwareLicenseToLicensePool'', o_hash = [(''softwareLicenseId'', JStr i), (''licensePoolId'', JStr ''p'')], o_generated = False\<rparr>"

lemma store_deletes_links: "deletes_links (data_store L sd p) id"
proof -
  have same: "base_softwareLicenseToLicensePool_deleteObjects (data_store L sd p) obs s =
      base_softwareLicenseToLicensePool_deleteObjects (list_store L) obs s" for obs and s :: content
    by (simp add: base_softwareLicenseToLicensePool_deleteObjects_def data_store_def list_store_def ask_def[abs_def])
  have keep: "snd (base_softwareLicenseToLicensePool_deleteObjects (list_store L) obs s) = s" for obs and s :: content
    by (simp add: base_softwareLicenseToLicensePool_deleteObjects_def list_store_def ask_def bindS_def fail_def ret_def)
  show ?thesis
    unfolding deletes_links_def same
  proof (intro allI impI)
    fix s :: content and obs
    obtain r where r: "base_softwareLicenseToLicensePool_deleteObjects (list_store L) obs s = (r, s)" using keep[of obs s] by (metis prod.collapse)
    show "case base_softwareLicenseToLicensePool_deleteObjects (list_store L) obs s of
           (Inl e, _) \<Rightarrow> b_delete (data_store L sd p) ''softwareLicenseToLicensePool'' obs s = Inl e
         | (Inr _, _) \<Rightarrow> (\<exists>s'. b_delete (data_store L sd p) ''softwareLicenseToLicensePool'' obs s = Inr s' \<and>
             id s' = (id s)(''softwareLicenseToLicensePool'' := filter (\<lambda>ob. ob \<notin> set obs) (id s ''softwareLicenseToLicensePool'')))"
      using r by (cases r) (simp_all add: data_store_def link_store_def list_store_def after_base_def)
  qed
qed

theorem deleting_no_license_deletes_all_links_witness:
  "\<exists>s'. base_softwareLicense_deleteObjects checking_store [] ((\<lambda>_. [])(''softwareLicenseToLicensePool'' := [link_of ''l1''])) = (Inr (), s') \<and>
     s' ''softwareLicenseToLicensePool'' = []"
proof -
  let ?s = "(\<lambda>_. [])(''softwareLicenseToLicensePool'' := [link_of ''l1''])"
  have "\<forall>l \<in> set (id ?s ''softwareLicenseToLicensePool''). plain_text (attr l ''softwareLicenseId'')"
    by (simp add: link_of_def attr_def plain_text_def plain_value_def)
  from deleting_no_license_deletes_all_links[where D = id and s = ?s, OF store_gets(3) store_deletes_links this]
  have "if linked_and_used ?s then fst (base_softwareLicense_deleteObjects checking_store [] ?s) = Inl BackendReferentialIntegrityError
    else \<exists>s'. base_softwareLicense_deleteObjects checking_store [] ?s = (Inr (), s') \<and> s' = ?s(''softwareLicenseToLicensePool'' := [])"
    unfolding id_apply .
  moreover have "\<not> linked_and_used ?s" by (simp add: linked_and_used_def)
  ultimately show ?thesis by auto
qed

end
