(* ===== verification/CleanupCorrect.thy ===== *)
theory CleanupCorrect
  imports Cleanup Integrity
begin

text \<open>
  What cleaning up a backend leaves behind: no object refers to a host, product, property, configuration or software that is
  missing.
\<close>

section \<open>Operations that succeed\<close>

definition succeeds :: "('s, 'a) act \<Rightarrow> 's \<Rightarrow> ('a \<Rightarrow> 's \<Rightarrow> bool) \<Rightarrow> bool" where
  "succeeds m s Q \<longleftrightarrow> (\<exists>r s'. m s = (Inr r, s') \<and> Q r s')"

lemma succeeds_ret: "Q r s \<Longrightarrow> succeeds (ret r) s Q"
  by (simp add: succeeds_def)

lemma succeeds_bind: "succeeds m s (\<lambda>r s'. succeeds (f r) s' Q) \<Longrightarrow> succeeds (bindS m f) s Q"
  by (auto simp: succeeds_def bindS_def)

lemma succeeds_weaken: "succeeds m s Q \<Longrightarrow> (\<And>r s'. Q r s' \<Longrightarrow> R r s') \<Longrightarrow> succeeds m s R"
  by (auto simp: succeeds_def)

lemma succeeds_foldS:
  assumes "\<And>x b s. x \<in> set xs \<Longrightarrow> I s \<Longrightarrow> succeeds (f x b) s (\<lambda>_ s'. I s')" and "I s"
  shows "succeeds (foldS f xs b) s (\<lambda>_ s'. I s')"
  using assms
proof (induction xs arbitrary: b s)
  case (Cons x xs)
  have "succeeds (f x b) s (\<lambda>_ s'. I s')" by (rule Cons.prems) (use Cons.prems in simp_all)
  then have "succeeds (f x b) s (\<lambda>b' s'. succeeds (foldS f xs b') s' (\<lambda>_ s'. I s'))"
    by (rule succeeds_weaken) (rule Cons.IH, use Cons.prems in simp_all)
  then show ?case by (simp add: succeeds_bind)
qed (simp add: succeeds_ret)

text \<open>
  What the task relies on: besides getting, deleting and putting back, states of properties are updated in their place, and
  deleting products may delete what belongs to them, but no host, group, config or software.
\<close>

definition updates_states :: "lib \<Rightarrow> 's backend \<Rightarrow> ('s \<Rightarrow> content) \<Rightarrow> bool" where
  "updates_states L B D \<longleftrightarrow>
     (\<forall>s u. getIdent L u \<in> getIdent L ` set (D s ''productPropertyState'') \<longrightarrow>
        (\<exists>s'. b_update B ''productPropertyState'' u s = Inr s' \<and>
           D s' = (D s)(''productPropertyState'' := replaced L u (D s ''productPropertyState''))))"

definition reduces :: "content \<Rightarrow> content \<Rightarrow> bool" where
  "reduces c c' \<longleftrightarrow> (\<forall>pre. \<exists>P. c' pre = filter P (c pre)) \<and>
     (\<forall>pre \<in> {''host'', ''group'', ''config'', ''auditSoftware'', ''auditSoftwareOnClient''}. c' pre = c pre)"

definition deletes_products :: "'s backend \<Rightarrow> ('s \<Rightarrow> content) \<Rightarrow> bool" where
  "deletes_products B D \<longleftrightarrow>
     (\<forall>s ps. set ps \<subseteq> set (D s ''product'') \<and> (\<forall>p \<in> set ps. plain_product p) \<longrightarrow>
        (\<exists>s'. b_delete B ''product'' ps s = Inr s' \<and> D s' ''product'' = filter (\<lambda>p. p \<notin> set ps) (D s ''product'') \<and> reduces (D s) (D s')))"

definition cleanup_methods :: "lib \<Rightarrow> 's backend \<Rightarrow> ('s \<Rightarrow> content) \<Rightarrow> bool" where
  "cleanup_methods L B D \<longleftrightarrow> gets B D \<and> deletes B D \<and> reinserts L ''group'' ''parentGroupId'' (\<lambda>_. True) B D \<and>
     updates_states L B D \<and> deletes_products B D \<and> identities L"

definition stored_once :: "lib \<Rightarrow> content \<Rightarrow> bool" where
  "stored_once L c \<longleftrightarrow> (\<forall>pre. unique L (c pre))"

lemma stored_onceD: "stored_once L c \<Longrightarrow> unique L (c pre)"
  by (simp add: stored_once_def)

lemma stored_once_filter [simp]: "stored_once L c \<Longrightarrow> unique L xs \<Longrightarrow> stored_once L (c(pre := xs))"
  by (simp add: stored_once_def)

lemma reduces_refl: "reduces c c"
  unfolding reduces_def by (auto intro: exI[of _ "\<lambda>_. True"])

lemma reducesE:
  assumes "reduces c c'"
  obtains P where "c' pre = filter P (c pre)"
  using assms unfolding reduces_def by blast

lemma reduces_trans:
  assumes "reduces a b" and "reduces b c"
  shows "reduces a c"
proof -
  have "\<exists>P. c pre = filter P (a pre)" for pre
  proof -
    obtain P where P: "b pre = filter P (a pre)" by (rule reducesE[OF assms(1)])
    obtain Q where "c pre = filter Q (b pre)" by (rule reducesE[OF assms(2)])
    then show ?thesis using P by (intro exI[of _ "\<lambda>x. P x \<and> Q x"]) simp
  qed
  moreover have "\<forall>pre \<in> {''host'', ''group'', ''config'', ''auditSoftware'', ''auditSoftwareOnClient''}. c pre = a pre"
    using assms unfolding reduces_def by simp
  ultimately show ?thesis unfolding reduces_def by blast
qed

lemma reduces_set:
  assumes "reduces c c'"
  shows "set (c' pre) \<subseteq> set (c pre)"
proof -
  obtain P where "c' pre = filter P (c pre)" by (rule reducesE[OF assms])
  then show ?thesis by simp
qed

lemma reduces_once:
  assumes "reduces c c'" and "stored_once L c"
  shows "stored_once L c'"
  unfolding stored_once_def
proof
  fix pre
  obtain P where "c' pre = filter P (c pre)" by (rule reducesE[OF assms(1)])
  then show "unique L (c' pre)" using stored_onceD[OF assms(2), of pre] by simp
qed

lemma succeeds_ask:
  assumes "cleanup_methods L B D" and "plain_filter f"
    and "\<And>s'. D s' = D s \<Longrightarrow> Q (filter (selected f) (D s pre)) s'"
  shows "succeeds (ask B pre [] f) s Q"
  using ask_database[of B D f pre s] assms by (auto simp: succeeds_def cleanup_methods_def)

lemma succeeds_erase_chunks:
  assumes cm: "cleanup_methods L B D" and lf: "leaf_class pre" and d: "distinct obs" and sub: "set obs \<subseteq> set (D s pre)"
    and Q: "\<And>s'. D s' = (D s)(pre := filter (\<lambda>ob. ob \<notin> set obs) (D s pre)) \<Longrightarrow> Q () s'"
  shows "succeeds (erase_chunks B pre obs) s Q"
proof -
  have "deletes B D" using cm by (simp add: cleanup_methods_def)
  from erase_chunks_database[where B = B and D = D and s = s and obs = obs and n = chunkSize, OF this lf _ d sub] Q
  show ?thesis by (auto simp: succeeds_def erase_chunks_def chunkSize_def)
qed

lemma plain_empty [simp]: "plain_filter []" "selected [] = (\<lambda>_. True)"
  by (auto simp: plain_filter_def selected_def)

text \<open>Getting all objects of a class and deleting the ones that fail a test keeps those that pass.\<close>

lemma erase_failing: "filter (\<lambda>ob. ob \<notin> set (filter P xs)) xs = filter (\<lambda>ob. \<not> P ob) xs"
  by (rule filter_cong) auto

lemma succeeds_erase_failing:
  assumes "cleanup_methods L B D" and "leaf_class pre" and "unique L xs" and "D s pre = xs"
    and "\<And>s'. D s' = (D s)(pre := filter (\<lambda>ob. \<not> P ob) xs) \<Longrightarrow> Q () s'"
  shows "succeeds (erase_chunks B pre (filter P xs)) s Q"
proof (rule succeeds_erase_chunks[OF assms(1,2)])
  show "distinct (filter P xs)" "set (filter P xs) \<subseteq> set (D s pre)" using unique_distinct[OF assms(3)] assms(4) by auto
  show "Q () s'" if "D s' = (D s)(pre := filter (\<lambda>ob. ob \<notin> set (filter P xs)) (D s pre))" for s'
    by (rule assms(5)) (use that in \<open>simp only: assms(4) erase_failing\<close>)
qed

section \<open>The single steps\<close>

lemma delete_products_chunks:
  assumes dp: "deletes_products B D"
  shows "distinct (concat cs) \<Longrightarrow> set (concat cs) \<subseteq> set (D s ''product'') \<Longrightarrow> \<forall>p \<in> set (concat cs). plain_product p \<Longrightarrow>
    \<exists>s'. foldS (\<lambda>c _. erase B ''product'' c) cs () s = (Inr (), s') \<and>
      D s' ''product'' = filter (\<lambda>p. p \<notin> set (concat cs)) (D s ''product'') \<and> reduces (D s) (D s')"
proof (induction cs arbitrary: s)
  case (Cons c cs)
  have c: "set c \<subseteq> set (D s ''product'')" "\<forall>p \<in> set c. plain_product p" using Cons.prems(2,3) by auto
  obtain s1 where s1: "b_delete B ''product'' c s = Inr s1" "D s1 ''product'' = filter (\<lambda>p. p \<notin> set c) (D s ''product'')" "reduces (D s) (D s1)"
    using dp c unfolding deletes_products_def by blast
  have d: "distinct (concat cs)" and sub: "set (concat cs) \<subseteq> set (D s1 ''product'')" and pl: "\<forall>p \<in> set (concat cs). plain_product p"
    using Cons.prems by (auto simp: s1(2))
  obtain s2 where s2: "foldS (\<lambda>c _. erase B ''product'' c) cs () s1 = (Inr (), s2)"
    "D s2 ''product'' = filter (\<lambda>p. p \<notin> set (concat cs)) (D s1 ''product'')" "reduces (D s1) (D s2)"
    using Cons.IH[OF d sub pl] by blast
  have "D s2 ''product'' = filter (\<lambda>p. p \<notin> set (concat (c # cs))) (D s ''product'')"
    unfolding s2(2) s1(2) by (auto intro: filter_cong)
  moreover have "erase B ''product'' c s = (Inr (), s1)" using s1(1) by (simp add: erase_def)
  ultimately show ?case using s2(1) reduces_trans[OF s1(3) s2(3)] by (intro exI[of _ s2]) (simp add: bindS_def)
qed (simp add: reduces_refl)

lemma products_step:
  assumes cm: "cleanup_methods L B D" and so: "stored_once L (D s)" and pl: "\<forall>p \<in> set (D s ''product''). plain_product p"
  shows "succeeds (cleanUpProducts B) s (\<lambda>_ s'. D s' ''product'' =
    filter (\<lambda>p. product_key p \<in> product_ref ` set (D s ''productOnDepot'')) (D s ''product'') \<and> reduces (D s) (D s'))"
proof -
  have erase: "succeeds (erase_chunks B ''product'' (filter P (D s1 ''product''))) s1
      (\<lambda>_ s'. D s' ''product'' = filter (\<lambda>p. \<not> P p) (D s1 ''product'') \<and> reduces (D s1) (D s'))" if "D s1 = D s" for s1 P
  proof -
    let ?ps = "filter P (D s1 ''product'')"
    have a: "distinct (concat (chunk chunkSize ?ps))" "set (concat (chunk chunkSize ?ps)) \<subseteq> set (D s1 ''product'')"
      "\<forall>p \<in> set (concat (chunk chunkSize ?ps)). plain_product p"
      using unique_distinct[OF stored_onceD[OF so]] pl by (simp_all add: chunk_concat chunkSize_def that)
    have "deletes_products B D" using cm by (simp add: cleanup_methods_def)
    from delete_products_chunks[where D = D and s = s1 and cs = "chunk chunkSize ?ps", OF this a] obtain s' where
      "foldS (\<lambda>c _. erase B ''product'' c) (chunk chunkSize ?ps) () s1 = (Inr (), s')"
      "D s' ''product'' = filter (\<lambda>p. p \<notin> set (concat (chunk chunkSize ?ps))) (D s1 ''product'')" "reduces (D s1) (D s')"
      by blast
    moreover have "concat (chunk chunkSize ?ps) = ?ps" by (simp add: chunk_concat chunkSize_def)
    ultimately show ?thesis unfolding succeeds_def erase_chunks_def by (simp only: erase_failing) blast
  qed
  have pf: "plain_filter []" by simp
  obtain s1 where s1: "ask B ''productOnDepot'' [] [] s = (Inr (D s ''productOnDepot''), s1)" "D s1 = D s"
    using ask_database[OF _ pf, of B D "''productOnDepot''" s] cm by (auto simp: cleanup_methods_def)
  obtain s2 where s2: "ask B ''product'' [] [] s1 = (Inr (D s ''product''), s2)" "D s2 = D s"
    using ask_database[OF _ pf, of B D "''product''" s1] cm s1(2) by (auto simp: cleanup_methods_def)
  let ?P = "\<lambda>p. product_key p \<notin> product_ref ` set (D s ''productOnDepot'')"
  have "cleanUpProducts B s = erase_chunks B ''product'' (filter ?P (D s2 ''product'')) s2"
    using s1(1) s2 by (simp add: cleanUpProducts_def bindS_def)
  then show ?thesis using erase[OF s2(2), of ?P] unfolding succeeds_def s2(2) by (simp only: not_not)
qed

lemma pods_step:
  assumes cm: "cleanup_methods L B D" and so: "stored_once L (D s)"
  shows "succeeds (cleanUpProductOnDepots B ds idents) s (\<lambda>_ s'. D s' = (D s)(''productOnDepot'' :=
    filter (\<lambda>pod. attr pod ''depotId'' \<in> ds \<and> product_ref pod \<in> idents) (D s ''productOnDepot'')))"
  unfolding cleanUpProductOnDepots_def
  by (intro succeeds_bind succeeds_ask[OF cm] succeeds_erase_failing[OF cm]) (simp_all add: leaf_class_def stored_onceD[OF so])

definition client_ids :: "content \<Rightarrow> json set" where
  "client_ids c = (\<lambda>h. attr h ''id'') ` {h \<in> set (c ''host''). is_client h}"

lemma selected_type: "selected [(''type'', v)] ob \<longleftrightarrow> \<not> json_true v \<or> list_ex (\<lambda>c. c \<in> set (forceList v)) (kinds ob)"
  by (simp add: selected_def selects_def)

lemma pocs_step:
  assumes cm: "cleanup_methods L B D" and so: "stored_once L (D s)"
  shows "succeeds (cleanUpProductOnClients B) s (\<lambda>_ s'. D s' = (D s)(''productOnClient'' :=
    filter (\<lambda>poc. attr poc ''clientId'' \<in> client_ids (D s) \<and> \<not> not_in_use poc \<and> attr poc ''productId'' \<in> (\<lambda>p. attr p ''id'') ` set (D s ''product''))
      (D s ''productOnClient'')))"
proof -
  let ?f = "[(''type'', JList [JStr ''OpsiClient''])]"
  have f: "plain_filter ?f" by (simp add: plain_filter_def forceList_def plain_value_def)
  have sel: "selected ?f h \<longleftrightarrow> is_client h" for h by (auto simp: selected_type kinds_def forceList_def is_client_def)
  show ?thesis
    unfolding cleanUpProductOnClients_def
    by (intro succeeds_bind succeeds_ask[OF cm] succeeds_erase_failing[OF cm] f)
      (simp_all add: sel client_ids_def conj_commute conj_left_commute leaf_class_def stored_onceD[OF so])
qed

lemma properties_step:
  assumes cm: "cleanup_methods L B D" and so: "stored_once L (D s)"
  shows "succeeds (cleanUpProductProperties B idents) s (\<lambda>r s'. D s' = (D s)(''productProperty'' :=
      filter (\<lambda>p. product_ref p \<in> idents) (D s ''productProperty'')) \<and> fst r = state_key ` set (D s' ''productProperty''))"
  unfolding cleanUpProductProperties_def
  by (intro succeeds_bind succeeds_ask[OF cm] succeeds_erase_failing[OF cm] succeeds_ret) (simp_all add: leaf_class_def stored_onceD[OF so])

lemma states_step:
  assumes cm: "cleanup_methods L B D" and so: "stored_once L (D s)"
  shows "succeeds (cleanUpProductPropertyStates B idents) s (\<lambda>_ s'. D s' = (D s)(''productPropertyState'' :=
    filter (\<lambda>st. state_key st \<in> idents) (D s ''productPropertyState'')))"
  unfolding cleanUpProductPropertyStates_def
  by (intro succeeds_bind succeeds_ask[OF cm] succeeds_erase_failing[OF cm]) (simp_all add: leaf_class_def stored_onceD[OF so])

lemma configs_step:
  assumes cm: "cleanup_methods L B D" and so: "stored_once L (D s)"
  shows "succeeds (cleanUpConfigStates B) s (\<lambda>_ s'. D s' = (D s)(''configState'' :=
    filter (\<lambda>st. attr st ''configId'' \<in> (\<lambda>c. attr c ''id'') ` set (D s ''config'')) (D s ''configState'')))"
proof -
  obtain obs s1 where s1: "ask B ''config'' [''id''] [] s = (Inr obs, s1)" "D s1 = D s"
    "map (\<lambda>ob. attr ob ''id'') obs = map (\<lambda>ob. attr ob ''id'') (D s ''config'')"
    using ask_attributes[of B D "[]" "''config''" "[''id'']" s] cm by (auto simp: cleanup_methods_def)
  then have ids: "(\<lambda>c. attr c ''id'') ` set obs = (\<lambda>c. attr c ''id'') ` set (D s ''config'')" by (metis list.set_map)
  have "succeeds (bindS (ask B ''configState'' [] []) (\<lambda>states.
       erase_chunks B ''configState'' (filter (\<lambda>st. attr st ''configId'' \<notin> (\<lambda>c. attr c ''id'') ` set obs) states))) s1
     (\<lambda>_ s'. D s' = (D s)(''configState'' := filter (\<lambda>st. attr st ''configId'' \<in> (\<lambda>c. attr c ''id'') ` set (D s ''config'')) (D s ''configState'')))"
    unfolding ids by (intro succeeds_bind succeeds_ask[OF cm] succeeds_erase_failing[OF cm])
      (simp_all add: s1(2) leaf_class_def stored_onceD[OF so])
  then show ?thesis using s1(1) by (simp add: cleanUpConfigStates_def succeeds_def bindS_def)
qed

text \<open>The parent of every group of hosts is a group of hosts.\<close>

definition parents_exist :: "content \<Rightarrow> bool" where
  "parents_exist c \<longleftrightarrow> (\<forall>g \<in> set (c ''group''). o_class g = ''HostGroup'' \<and> json_true (attr g ''parentGroupId'') \<longrightarrow>
     (\<exists>p \<in> set (c ''group''). o_class p = ''HostGroup'' \<and> attr p ''id'' = attr g ''parentGroupId''))"

lemma foldS_concat: "foldS (foldS f) gss b = foldS f (concat gss) b"
proof (induction gss arbitrary: b)
  case (Cons gs gss)
  have "foldS f (gs @ concat gss) b s = bindS (foldS f gs b) (foldS f (concat gss)) s" for s by (rule foldS_append)
  then have "foldS f (concat (gs # gss)) b = bindS (foldS f gs b) (foldS f (concat gss))" by (simp add: fun_eq_iff)
  moreover have "foldS (foldS f) gss = foldS f (concat gss)" by (rule ext) (rule Cons.IH)
  ultimately show ?case by simp
qed simp

lemma groups_step:
  assumes cm: "cleanup_methods L B D" and so: "stored_once L (D s)"
  shows "succeeds (cleanUpGroups B) s (\<lambda>_ s'. (\<forall>p. p \<noteq> ''group'' \<longrightarrow> D s' p = D s p) \<and> parents_exist (D s') \<and> stored_once L (D s'))"
proof -
  let ?f = "[(''type'', JStr ''HostGroup'')]"
  have f: "plain_filter ?f" by (simp add: plain_filter_def forceList_def plain_value_def)
  have sel: "selected ?f g \<longleftrightarrow> o_class g = ''HostGroup''" for g by (auto simp: selected_type kinds_def forceList_def)
  let ?gs = "filter (selected ?f) (D s ''group'')"
  let ?os = "orphan_groups ?gs"
  let ?r = "\<lambda>l. if l \<in> set ?os then set_attr ''parentGroupId'' JNull l else l"
  have id: "\<forall>ob. getIdent L (set_attr ''parentGroupId'' JNull ob) = getIdent L ob" and g: "gets B D"
    and re: "reinserts L ''group'' ''parentGroupId'' (\<lambda>_. True) B D"
    using cm by (simp_all add: cleanup_methods_def identities_def)
  obtain s1 where s1: "ask B ''group'' [] ?f s = (Inr ?gs, s1)" "D s1 = D s"
    using ask_database[where B = B and D = D and s = s and pre = "''group''", OF g f] by blast
  have os: "unique L (D s1 ''group'')" "set ?os \<subseteq> set (D s1 ''group'')" "distinct ?os"
    using stored_onceD[OF so, of "''group''"] unique_distinct[of L "D s ''group''"] by (auto simp: orphan_groups_def s1(2))
  obtain s2 where s2: "foldS (\<lambda>l _. insert_into B ''group'' (set_attr ''parentGroupId'' JNull l)) ?os () s1 = (Inr (), s2)"
    "D s2 = (D s1)(''group'' := map ?r (D s1 ''group''))"
    using reinsert_list_database[OF re id, of s1 ?os] os by blast
  have other: "\<forall>p. p \<noteq> ''group'' \<longrightarrow> D s2 p = D s p" and grp: "D s2 ''group'' = map ?r (D s ''group'')" by (simp_all only: s2(2) s1(2) fun_upd_apply) auto
  have "map (getIdent L) (map ?r (D s ''group'')) = map (getIdent L) (D s ''group'')" using id by simp
  then have "unique L (map ?r (D s ''group''))" using stored_onceD[OF so, of "''group''"] by (simp only: unique_def)
  then have once: "stored_once L (D s2)" using so other grp unfolding stored_once_def by metis
  have "foldS (\<lambda>gs _. foldS (\<lambda>g _. insert_into B ''group'' g) gs ()) (chunk chunkSize (map (set_attr ''parentGroupId'' JNull) ?os)) () =
      foldS (\<lambda>l _. insert_into B ''group'' (set_attr ''parentGroupId'' JNull l)) ?os ()"
    using foldS_concat[of "\<lambda>g _. insert_into B ''group'' g"] by (simp add: chunk_concat chunkSize_def foldS_map)
  then have run: "cleanUpGroups B s = (Inr (), s2)" using s1(1) s2(1) by (simp add: cleanUpGroups_def bindS_def)
  have r: "o_class (?r l) = o_class l" "attr (?r l) ''id'' = attr l ''id''" for l
    by (simp_all add: attr_set_attr) (simp add: set_attr_def)
  have "\<exists>p \<in> set (D s2 ''group''). o_class p = ''HostGroup'' \<and> attr p ''id'' = attr g ''parentGroupId''"
    if g: "g \<in> set (D s2 ''group'')" "o_class g = ''HostGroup''" "json_true (attr g ''parentGroupId'')" for g
  proof -
    obtain l where l: "l \<in> set (D s ''group'')" "g = ?r l" using g(1) unfolding grp by auto
    then have "l \<notin> set ?os" using g(3) by (auto simp: attr_set_attr split: if_splits)
    then have "g = l" using l(2) by simp
    then obtain x where x: "x \<in> set (D s ''group'')" "o_class x = ''HostGroup''" "attr x ''id'' = attr g ''parentGroupId''"
      using \<open>l \<notin> set ?os\<close> l(1) g(2,3) by (auto simp: orphan_groups_def sel)
    then have "?r x \<in> set (D s2 ''group'')" unfolding grp by auto
    then show ?thesis by (rule bexI[rotated]) (simp only: r x(2,3) simp_thms)
  qed
  then have "parents_exist (D s2)" by (simp add: parents_exist_def)
  then show ?thesis using run other once by (simp add: succeeds_def)
qed

text \<open>A state keeps what identifies its property when its values are cleaned.\<close>

definition values_of :: "obj \<Rightarrow> obj \<Rightarrow> bool" where
  "values_of st ob \<longleftrightarrow> ob = st \<or> (\<exists>v. ob = set_attr ''values'' v st)"

lemma values_of_key: "values_of st ob \<Longrightarrow> state_key ob = state_key st"
  by (auto simp: values_of_def state_key_def ident_text_def attr_set_attr)

definition bools_parse :: "lib \<Rightarrow> bool" where
  "bools_parse L \<longleftrightarrow> (\<forall>s. forceBool L s \<noteq> None)"

lemma foldE_total:
  assumes "\<And>x b. x \<in> set xs \<Longrightarrow> \<exists>c. f x b = Inr c"
  shows "\<exists>c. foldE f xs b = Inr c"
  using assms
proof (induction xs arbitrary: b)
  case (Cons x xs)
  obtain c where "f x b = Inr c" using Cons.prems[of x b] by auto
  then show ?case using Cons.IH[of c] Cons.prems by simp
qed simp

lemma clean_value_total:
  assumes "bools_parse L"
  shows "\<exists>r. clean_value L prop v = Inr r"
proof -
  obtain b where "force_bool L v = Some b" using assms by (cases v) (auto simp: bools_parse_def force_bool_def)
  then show ?thesis by (auto simp: clean_value_def Let_def split: option.splits)
qed

lemma clean_values_total:
  assumes "bools_parse L"
  shows "\<exists>r. clean_values L prop vs = Inr r"
  unfolding clean_values_def
proof (rule foldE_total)
  fix v b
  obtain r where "clean_value L prop v = Inr r" using clean_value_total[OF assms] by blast
  then show "\<exists>c. (\<lambda>v (new, changed). bindE (clean_value L prop v) (\<lambda>(nv, c).
         Inr (case nv of Some w \<Rightarrow> new @ [w] | None \<Rightarrow> new, changed \<or> c))) v b = Inr c"
    by (cases b; cases r) simp
qed

text \<open>After the cleaning only possible values are left, and a state that does not change keeps its values.\<close>

lemma clean_value_possible:
  "clean_value L prop v = Inr (nv, c) \<Longrightarrow>
     (case nv of None \<Rightarrow> c | Some w \<Rightarrow> w \<in> set (forceList (attr prop ''possibleValues'')) \<and> (\<not> c \<longrightarrow> w = v))"
  by (auto simp: clean_value_def Let_def bindE_def find_Some_iff split: option.splits if_splits sum.splits dest: nth_mem)

lemma clean_values_possible:
  assumes "clean_values L prop vs = Inr (new, c)"
  shows "set new \<subseteq> set (forceList (attr prop ''possibleValues'')) \<and> (\<not> c \<longrightarrow> new = vs)"
proof -
  let ?f = "\<lambda>v (new, changed). bindE (clean_value L prop v) (\<lambda>(nv, c).
         Inr (case nv of Some w \<Rightarrow> new @ [w] | None \<Rightarrow> new, changed \<or> c))"
  have "foldE ?f vs (ns, d) = Inr (new, c) \<Longrightarrow> set ns \<subseteq> set (forceList (attr prop ''possibleValues'')) \<Longrightarrow>
      set new \<subseteq> set (forceList (attr prop ''possibleValues'')) \<and> (\<not> c \<longrightarrow> \<not> d \<and> new = ns @ vs)" for ns d
  proof (induction vs arbitrary: ns d)
    case (Cons v vs)
    obtain nv e where e: "clean_value L prop v = Inr (nv, e)" using Cons.prems(1) by (auto simp: bindE_eq_Inr)
    from clean_value_possible[OF e] show ?case using Cons e by (cases nv) (force split: option.splits)+
  qed simp
  from this[of "[]" False] show ?thesis using assms by (simp add: clean_values_def)
qed

text \<open>A state that is to be deleted has no possible value, one that is to be updated has.\<close>

definition keeps_values :: "lib \<Rightarrow> (string, obj) dict \<Rightarrow> (json, string) dict \<Rightarrow> obj \<Rightarrow> bool" where
  "keeps_values L props onDepot st \<longleftrightarrow>
     (case map_of onDepot (attr st ''productId'') of
        None \<Rightarrow> True
      | Some i \<Rightarrow> (case map_of props (i @ '';'' @ py_text (attr st ''propertyId'')) of
                     None \<Rightarrow> True
                   | Some prop \<Rightarrow> (case clean_values L prop (forceList (attr st ''values'')) of Inl _ \<Rightarrow> True | Inr (new, _) \<Rightarrow> new \<noteq> [])))"

definition sorted_out :: "lib \<Rightarrow> (string, obj) dict \<Rightarrow> (json, string) dict \<Rightarrow> obj list \<Rightarrow> obj list \<times> obj list \<Rightarrow> bool" where
  "sorted_out L props onDepot sts du \<longleftrightarrow>
     (\<forall>d \<in> set (fst du). d \<in> set sts \<and> \<not> keeps_values L props onDepot d) \<and>
     (\<forall>u \<in> set (snd du). \<exists>st \<in> set sts. values_of st u \<and> keeps_values L props onDepot st)"

lemma sort_states_result:
  assumes "bools_parse L"
  shows "\<exists>del upd. sort_states L props onDepot sts = Inr (del, upd) \<and> sorted_out L props onDepot sts (del, upd)"
proof -
  let ?f = "\<lambda>st (del, upd).
         case map_of onDepot (attr st ''productId'') of
           None \<Rightarrow> Inr (del, upd)
         | Some i \<Rightarrow>
             if i = [] then Inr (del, upd)
             else case map_of props (i @ '';'' @ py_text (attr st ''propertyId'')) of
                    None \<Rightarrow> Inr (del, upd)
                  | Some prop \<Rightarrow>
                      bindE (clean_values L prop (forceList (attr st ''values''))) (\<lambda>(new, changed).
                        Inr (if \<not> changed then (del, upd)
                             else if new = [] then (del @ [st], upd)
                             else (del, upd @ [set_attr ''values'' (JList new) st])))"
  have step: "\<exists>c. ?f st b = Inr c \<and> (sorted_out L props onDepot sts b \<longrightarrow> st \<in> set sts \<longrightarrow> sorted_out L props onDepot sts c)" for st b
  proof (cases b)
    case (Pair del upd)
    have "\<exists>new ch. clean_values L pp (forceList (attr st ''values'')) = Inr (new, ch)" for pp
      using clean_values_total[OF assms] by (metis surj_pair)
    then obtain new ch where cv: "\<And>pp. clean_values L pp (forceList (attr st ''values'')) = Inr (new pp, ch pp)" by metis
    show ?thesis
    proof (cases "map_of onDepot (attr st ''productId'')")
      case (Some i)
      show ?thesis
      proof (cases "map_of props (i @ '';'' @ py_text (attr st ''propertyId''))")
        case None
        then show ?thesis using Pair Some by simp
      next
        case (Some pp)
        then show ?thesis using Pair \<open>map_of onDepot _ = Some i\<close>
          by (auto simp: cv values_of_def sorted_out_def keeps_values_def intro!: bexI[of _ st])
      qed
    qed (simp add: Pair)
  qed
  obtain del upd where run: "sort_states L props onDepot sts = Inr (del, upd)"
    using foldE_total[of sts ?f "([], [])"] step unfolding sort_states_def by (metis surj_pair)
  have "sorted_out L props onDepot sts (del, upd)"
  proof (rule foldE_invariant[OF run[unfolded sort_states_def]])
    fix st b c assume "st \<in> set sts" "sorted_out L props onDepot sts b" "?f st b = Inr c"
    then show "sorted_out L props onDepot sts c" using step[of st b] by auto
  qed (simp add: sorted_out_def)
  then show ?thesis using run by auto
qed

text \<open>Each state is sorted_out once.\<close>

lemma sort_states_distinct:
  "sort_states L props onDepot sts = Inr (del, upd) \<Longrightarrow> distinct sts \<Longrightarrow> distinct del \<and> set del \<subseteq> set sts"
proof (induction sts arbitrary: del upd rule: rev_induct)
  case Nil
  then show ?case by (simp add: sort_states_def)
next
  case (snoc st sts)
  then obtain d u where du: "sort_states L props onDepot sts = Inr (d, u)"
    by (auto simp: sort_states_def foldE_append bindE_def split: sum.splits)
  have "distinct d \<and> set d \<subseteq> set sts" using snoc.IH[OF du] snoc.prems(2) by simp
  moreover have "del = d \<or> del = d @ [st]"
    using snoc.prems(1) du
    by (auto simp: sort_states_def foldE_append bindE_def split: option.splits if_splits sum.splits)
  ultimately show ?case using snoc.prems(2) by auto
qed

section \<open>The values of property states\<close>

definition texts :: "content \<Rightarrow> string set" where
  "texts c = state_key ` set (c ''productPropertyState'')"

text \<open>Only property states differ, and none belongs to another property than before.\<close>

definition states_within :: "lib \<Rightarrow> content \<Rightarrow> content \<Rightarrow> bool" where
  "states_within L c0 c \<longleftrightarrow> (\<forall>p. p \<noteq> ''productPropertyState'' \<longrightarrow> c p = c0 p) \<and> texts c \<subseteq> texts c0 \<and> unique L (c ''productPropertyState'')"

definition assigns :: "(json \<Rightarrow> ('s, json list) act) \<Rightarrow> ('s \<Rightarrow> content) \<Rightarrow> bool" where
  "assigns clientsOf D \<longleftrightarrow> (\<forall>d s. \<exists>cs s'. clientsOf d s = (Inr cs, s') \<and> D s' = D s \<and> (\<forall>c \<in> set cs. plain_value c))"

definition plain_pods :: "content \<Rightarrow> bool" where
  "plain_pods c \<longleftrightarrow> (\<forall>pod \<in> set (c ''productOnDepot''). plain_value (attr pod ''productId''))"

definition state_identities :: "lib \<Rightarrow> content \<Rightarrow> hash set" where
  "state_identities L c = getIdent L ` set (c ''productPropertyState'')"

lemma update_keeps:
  assumes cm: "cleanup_methods L B D" and u: "state_key u \<in> texts c0" and i: "getIdent L u \<in> state_identities L (D s)" and s: "states_within L c0 (D s)"
  shows "succeeds (update_in B ''productPropertyState'' u) s (\<lambda>_ s'. states_within L c0 (D s') \<and> state_identities L (D s') = state_identities L (D s))"
proof -
  obtain s' where s': "b_update B ''productPropertyState'' u s = Inr s'"
    "D s' = (D s)(''productPropertyState'' := replaced L u (D s ''productPropertyState''))"
    using cm i unfolding cleanup_methods_def updates_states_def state_identities_def by blast
  have "getIdent L (if getIdent L x = getIdent L u then u else x) = getIdent L x" for x by simp
  then have "state_identities L (D s') = state_identities L (D s)"
    unfolding state_identities_def s'(2) fun_upd_same replaced_def set_map image_image by simp
  moreover have "states_within L c0 (D s')"
    using u s unfolding states_within_def s'(2) by (auto simp: texts_def) (auto simp: replaced_def texts_def split: if_splits)
  ultimately show ?thesis using s'(1) by (simp add: succeeds_def update_in_def)
qed

lemma keys_of_pods:
  "set (dict_keys (foldl (\<lambda>d pod. AList.update (g pod) (h pod) d) d pods)) = set (dict_keys d) \<union> g ` set pods"
  by (induction pods arbitrary: d) (auto simp: dict_keys_def update_keys dom_update)

lemma values_step:
  assumes cm: "cleanup_methods L B D" and bp: "bools_parse L" and as: "assigns clientsOf D"
    and d: "plain_id d" and pp: "plain_pods c0" and s: "states_within L c0 (D s)"
  shows "succeeds (cleanUpValues L B clientsOf props d) s (\<lambda>_ s'. states_within L c0 (D s'))"
proof -
  have g: "gets B D" using cm by (simp add: cleanup_methods_def)
  obtain cs s1 where s1: "clientsOf (attr d ''id'') s = (Inr cs, s1)" "D s1 = D s" "\<forall>c \<in> set cs. plain_value c"
    using as unfolding assigns_def by blast
  let ?f = "[(''depotId'', attr d ''id'')]"
  have f: "plain_filter ?f" using d by (auto simp: plain_filter_def forceList_def plain_id_def)
  let ?pods = "filter (selected ?f) (D s ''productOnDepot'')"
  obtain s2 where s2: "ask B ''productOnDepot'' [] ?f s1 = (Inr ?pods, s2)" "D s2 = D s"
    using ask_database[of B D ?f "''productOnDepot''" s1] g f s1(2) by auto
  let ?od = "foldl (\<lambda>d pod. AList.update (attr pod ''productId'') (product_ref pod) d) [] ?pods"
  let ?g = "[(''objectId'', JList (cs @ [attr d ''id''])), (''productId'', JList (dict_keys ?od)), (''propertyId'', JList [])]"
  show ?thesis
  proof (cases "?pods = []")
    case True
    then show ?thesis using s1 s2 s by (simp add: succeeds_def cleanUpValues_def bindS_def Let_def)
  next
    case False
    have "\<forall>x \<in> set (dict_keys ?od). plain_value x"
      using pp s by (auto simp: keys_of_pods dict_keys_def[of "[]"] plain_pods_def states_within_def)
    then have gf: "plain_filter ?g" using s1(3) d by (auto simp: plain_filter_def forceList_def plain_id_def)
    let ?sts = "filter (selected ?g) (D s ''productPropertyState'')"
    obtain s3 where s3: "ask B ''productPropertyState'' [] ?g s2 = (Inr ?sts, s3)" "D s3 = D s"
      using ask_database[of B D ?g "''productPropertyState''" s2] g gf s2(2) by auto
    obtain del upd where so: "sort_states L props ?od ?sts = Inr (del, upd)" "sorted_out L props ?od ?sts (del, upd)"
      using sort_states_result[OF bp] by blast
    have del: "distinct del" "set del \<subseteq> set (D s3 ''productPropertyState'')"
      using sort_states_distinct[OF so(1)] unique_distinct[of L "D s ''productPropertyState''"] s so(2)
      by (auto simp: states_within_def sorted_out_def s3(2))
    have lf: "leaf_class ''productPropertyState''" by (simp add: leaf_class_def)
    obtain s4 where s4: "erase_chunks B ''productPropertyState'' del s3 = (Inr (), s4)"
      "D s4 = (D s)(''productPropertyState'' := filter (\<lambda>ob. ob \<notin> set del) (D s ''productPropertyState''))"
      using succeeds_erase_chunks[where s = s3 and obs = del, OF cm lf del,
          where Q = "\<lambda>_ s'. D s' = (D s)(''productPropertyState'' := filter (\<lambda>ob. ob \<notin> set del) (D s ''productPropertyState''))"] s3(2)
      by (auto simp: succeeds_def)
    have w4: "states_within L c0 (D s4)" using s by (auto simp: s4(2) states_within_def texts_def)
    have upd: "state_key u \<in> texts c0 \<and> getIdent L u \<in> state_identities L (D s4)" if u: "u \<in> set upd" for u
    proof -
      obtain st where st: "st \<in> set ?sts" "values_of st u" "keeps_values L props ?od st" using so(2) u by (auto simp: sorted_out_def)
      have "st \<notin> set del" using so(2) st(3) by (auto simp: sorted_out_def)
      then have "st \<in> set (D s4 ''productPropertyState'')" using st(1) by (simp add: s4(2))
      moreover have "getIdent L u = getIdent L st" using st(2) cm by (auto simp: values_of_def cleanup_methods_def identities_def)
      moreover have "state_key st \<in> texts c0" using st(1) s by (auto simp: states_within_def texts_def)
      ultimately show ?thesis using values_of_key[OF st(2)] by (auto simp: state_identities_def)
    qed
    have "succeeds (foldS (\<lambda>u _. update_in B ''productPropertyState'' u) upd ()) s4
        (\<lambda>_ s'. states_within L c0 (D s') \<and> state_identities L (D s') = state_identities L (D s4))"
    proof (rule succeeds_foldS)
      fix u :: obj and b :: unit and s' assume "u \<in> set upd" "states_within L c0 (D s') \<and> state_identities L (D s') = state_identities L (D s4)"
      then show "succeeds (update_in B ''productPropertyState'' u) s'
          (\<lambda>_ s'. states_within L c0 (D s') \<and> state_identities L (D s') = state_identities L (D s4))"
        using update_keeps[OF cm, of u c0 s'] upd[of u] by simp
    qed (simp add: w4)
    then obtain s5 where s5: "foldS (\<lambda>u _. update_in B ''productPropertyState'' u) upd () s4 = (Inr (), s5)"
      "states_within L c0 (D s5)" by (auto simp: succeeds_def)
    have "foldS (\<lambda>us _. foldS (\<lambda>u _. update_in B ''productPropertyState'' u) us ()) (chunk chunkSize upd) () s4 = (Inr (), s5)"
      using s5(1) foldS_concat[of "\<lambda>u _. update_in B ''productPropertyState'' u" "chunk chunkSize upd" "()"]
      by (simp add: chunk_concat chunkSize_def)
    then have "cleanUpValues L B clientsOf props d s = (Inr (), s5)"
      using s1(1) s2(1) s3(1) so(1) s4(1) False by (simp add: cleanUpValues_def bindS_def Let_def)
    then show ?thesis using s5(2) by (simp add: succeeds_def)
  qed
qed

section \<open>Audited software\<close>

definition own_value :: "json \<Rightarrow> bool" where
  "own_value v \<longleftrightarrow> v = JNull \<or> (\<exists>s. v = JStr s \<and> plain_value v)"

lemma own_filter:
  assumes "\<forall>k \<in> set ks. own_value (attr ob k)" and "''type'' \<notin> set ks"
  shows "plain_filter (map (\<lambda>k. (k, all_if_none (attr ob k))) ks)" "selected (map (\<lambda>k. (k, all_if_none (attr ob k))) ks) ob"
  using assms by (fastforce simp: plain_filter_def selected_def selects_def list_all_iff own_value_def all_if_none_def forceList_def)+

lemma software_step:
  assumes cm: "cleanup_methods L B D" and ks: "''type'' \<notin> set ks" and lf: "leaf_class pre"
  shows "\<forall>ob \<in> set xs. \<forall>k \<in> set ks. own_value (attr ob k) \<Longrightarrow>
    succeeds (foldS (\<lambda>sw _. if bad sw then software_delete B pre ks sw else ret ()) xs ()) s
      (\<lambda>_ s'. (\<forall>p. p \<noteq> pre \<longrightarrow> D s' p = D s p) \<and> set (D s' pre) \<subseteq> {ob \<in> set (D s pre). ob \<in> set xs \<longrightarrow> \<not> bad ob})"
proof (induction xs arbitrary: s)
  case (Cons x xs)
  let ?m = "if bad x then software_delete B pre ks x else ret ()"
  have "\<exists>s1. ?m s = (Inr (), s1) \<and> (\<forall>p. p \<noteq> pre \<longrightarrow> D s1 p = D s p) \<and> set (D s1 pre) \<subseteq> {ob \<in> set (D s pre). ob = x \<longrightarrow> \<not> bad ob}"
  proof (cases "bad x")
    case True
    let ?f = "map (\<lambda>k. (k, all_if_none (attr x k))) ks"
    have f: "plain_filter ?f" "selected ?f x" using own_filter[of ks x] Cons.prems ks by auto
    obtain s1 where s1: "erase_found B pre ?f s = (Inr (), s1)" "D s1 = (D s)(pre := filter (\<lambda>ob. \<not> selected ?f ob) (D s pre))"
      using erase_found_database[of B D pre ?f s] cm lf f(1) by (auto simp: cleanup_methods_def)
    then show ?thesis using True f(2) by (intro exI[of _ s1]) (auto simp: software_delete_def)
  qed auto
  then obtain s1 where s1: "?m s = (Inr (), s1)" "\<forall>p. p \<noteq> pre \<longrightarrow> D s1 p = D s p"
    "set (D s1 pre) \<subseteq> {ob \<in> set (D s pre). ob = x \<longrightarrow> \<not> bad ob}" by blast
  obtain s2 where s2: "foldS (\<lambda>sw _. if bad sw then software_delete B pre ks sw else ret ()) xs () s1 = (Inr (), s2)"
    "\<forall>p. p \<noteq> pre \<longrightarrow> D s2 p = D s1 p" "set (D s2 pre) \<subseteq> {ob \<in> set (D s1 pre). ob \<in> set xs \<longrightarrow> \<not> bad ob}"
    using Cons.IH[of s1] Cons.prems by (auto simp: succeeds_def)
  have "foldS (\<lambda>sw _. if bad sw then software_delete B pre ks sw else ret ()) (x # xs) () s = (Inr (), s2)"
    using s1(1) s2(1) by (simp only: foldS.simps bindS_def prod.case sum.case)
  then show ?case using s1(2,3) s2(2,3) unfolding succeeds_def by (intro exI conjI) (assumption, auto)
qed (simp add: succeeds_ret)

definition plain_software :: "content \<Rightarrow> bool" where
  "plain_software c \<longleftrightarrow>
     (\<forall>sw \<in> set (c ''auditSoftware''). \<forall>k \<in> set software_ident. own_value (attr sw k)) \<and>
     (\<forall>sw \<in> set (c ''auditSoftwareOnClient''). \<forall>k \<in> set (software_ident @ [''clientId'']). own_value (attr sw k))"

lemma software_leaves: "leaf_class ''auditSoftware''" "leaf_class ''auditSoftwareOnClient''"
  by (simp_all add: leaf_class_def)

lemma software_keys: "''type'' \<notin> set software_ident" "''type'' \<notin> set (software_ident @ [''clientId''])"
  by (simp_all add: software_ident_def)

lemma softwares_step:
  assumes cm: "cleanup_methods L B D" and ps: "plain_software (D s)"
  shows "succeeds (cleanUpAuditSoftwares B) s
    (\<lambda>_ s'. (\<forall>p. p \<noteq> ''auditSoftware'' \<longrightarrow> D s' p = D s p) \<and> set (D s' ''auditSoftware'') \<subseteq> set (D s ''auditSoftware''))"
  unfolding cleanUpAuditSoftwares_def
  apply (intro succeeds_bind succeeds_ask[OF cm] plain_empty(1))
  apply (rule succeeds_weaken[OF software_step[OF cm software_keys(1) software_leaves(1)]])
  using ps by (auto simp: plain_software_def)

lemma softwares_on_clients_step:
  assumes cm: "cleanup_methods L B D" and ps: "plain_software (D s)"
  shows "succeeds (cleanUpAuditSoftwareOnClients B) s
    (\<lambda>_ s'. (\<forall>p. p \<noteq> ''auditSoftwareOnClient'' \<longrightarrow> D s' p = D s p) \<and>
       (\<forall>sw \<in> set (D s' ''auditSoftwareOnClient''). software_text sw \<in> software_text ` set (D s ''auditSoftware'')))"
  unfolding cleanUpAuditSoftwareOnClients_def
  apply (intro succeeds_bind succeeds_ask[OF cm] plain_empty(1))
  apply (rule succeeds_weaken[OF software_step[OF cm software_keys(2) software_leaves(2)]])
  using ps by (auto simp: plain_software_def)

end
