(* ===== verification/CleanupConsistent.thy ===== *)
theory CleanupConsistent
  imports CleanupCorrect
begin

text \<open>
  The whole run of the task that cleans up a backend: it succeeds, and the references it looks after are intact afterwards; a
  product that only a missing depot has is left over.
\<close>

definition all_depots :: "content \<Rightarrow> json set" where
  "all_depots c = (\<lambda>h. attr h ''id'') ` {h \<in> set (c ''host''). is_depot h}"

definition products_consistent :: "content \<Rightarrow> bool" where
  "products_consistent c \<longleftrightarrow>
     (\<forall>pod \<in> set (c ''productOnDepot''). attr pod ''depotId'' \<in> all_depots c \<and> product_ref pod \<in> product_key ` set (c ''product'')) \<and>
     (\<forall>poc \<in> set (c ''productOnClient''). attr poc ''clientId'' \<in> client_ids c \<and>
        attr poc ''productId'' \<in> (\<lambda>p. attr p ''id'') ` set (c ''product'') \<and> \<not> not_in_use poc)"

definition properties_consistent :: "content \<Rightarrow> bool" where
  "properties_consistent c \<longleftrightarrow>
     (\<forall>p \<in> set (c ''productProperty''). product_ref p \<in> product_key ` set (c ''product'')) \<and>
     (\<forall>st \<in> set (c ''productPropertyState''). state_key st \<in> state_key ` set (c ''productProperty'')) \<and>
     (\<forall>st \<in> set (c ''configState''). attr st ''configId'' \<in> (\<lambda>k. attr k ''id'') ` set (c ''config''))"

definition consistent :: "content \<Rightarrow> bool" where
  "consistent c \<longleftrightarrow> parents_exist c \<and> products_consistent c \<and> properties_consistent c \<and>
     (\<forall>sw \<in> set (c ''auditSoftwareOnClient''). software_text sw \<in> software_text ` set (c ''auditSoftware''))"

text \<open>What the run relies on: the hosts are identified by texts without wildcards, and so are products and software.\<close>

definition plain_content :: "content \<Rightarrow> bool" where
  "plain_content c \<longleftrightarrow> (\<forall>h \<in> set (c ''host''). plain_id h) \<and> (\<forall>p \<in> set (c ''product''). plain_product p) \<and> plain_pods c \<and> plain_software c"

lemma depots_filter:
  "plain_filter [(''type'', JList [JStr ''OpsiConfigserver'', JStr ''OpsiDepotserver''])]"
  "selected [(''type'', JList [JStr ''OpsiConfigserver'', JStr ''OpsiDepotserver''])] h \<longleftrightarrow> is_depot h"
  by (simp add: plain_filter_def forceList_def plain_value_def) (auto simp: selected_type kinds_def forceList_def is_depot_def)

lemma depotservers_filter: "plain_filter [(''type'', JStr ''OpsiDepotserver'')]"
  by (simp add: plain_filter_def forceList_def plain_value_def)

lemma succeeds_done:
  assumes "succeeds m s Q"
  obtains r s' where "m s = (Inr r, s')" and "Q r s'"
  using assms unfolding succeeds_def by blast

lemma succeeds_unit:
  assumes "succeeds m s Q"
  obtains s' where "m s = (Inr (), s')" and "Q () s'"
  using succeeds_done[OF assms] by (metis (full_types) old.unit.exhaust)

text \<open>The steps before the values of property states are cleaned, and the ones after.\<close>

lemma first_steps:
  assumes cm: "cleanup_methods L B D" and so: "stored_once L (D s)" and pl: "\<forall>p \<in> set (D s ''product''). plain_product p"
  shows "\<exists>s1 s2. cleanUpGroups B s = (Inr (), s1) \<and> cleanUpProducts B s1 = (Inr (), s2) \<and> parents_exist (D s2) \<and>
    stored_once L (D s2) \<and> (\<forall>p. set (D s2 p) \<subseteq> set (D s p) \<or> p = ''group'') \<and>
    (\<forall>p \<in> {''host'', ''config'', ''auditSoftware'', ''auditSoftwareOnClient''}. D s2 p = D s p) \<and>
    D s2 ''product'' = filter (\<lambda>p. product_key p \<in> product_ref ` set (D s ''productOnDepot'')) (D s ''product'')"
proof -
  obtain s1 where s1: "cleanUpGroups B s = (Inr (), s1)" "\<forall>p. p \<noteq> ''group'' \<longrightarrow> D s1 p = D s p" "parents_exist (D s1)" "stored_once L (D s1)"
    by (rule succeeds_unit[OF groups_step[where s = s, OF cm so]]) (elim conjE, rule that)
  have pl1: "\<forall>p \<in> set (D s1 ''product''). plain_product p" using pl s1(2) by simp
  obtain s2 where s2: "cleanUpProducts B s1 = (Inr (), s2)" "D s2 ''product'' =
      filter (\<lambda>p. product_key p \<in> product_ref ` set (D s1 ''productOnDepot'')) (D s1 ''product'')" "reduces (D s1) (D s2)"
    by (rule succeeds_unit[OF products_step[where s = s1, OF cm s1(4) pl1]]) (elim conjE, rule that)
  have same: "D s2 p = D s1 p" if "p \<in> {''host'', ''group'', ''config'', ''auditSoftware'', ''auditSoftwareOnClient''}" for p
    using s2(3) that unfolding reduces_def by blast
  have "parents_exist (D s2)" using s1(3) same[of "''group''"] by (simp add: parents_exist_def)
  moreover have "set (D s2 p) \<subseteq> set (D s p) \<or> p = ''group''" for p using reduces_set[OF s2(3), of p] s1(2) by auto
  ultimately show ?thesis using s1 s2(1,2) same reduces_once[OF s2(3) s1(4)] by (intro exI[of _ s1] exI[of _ s2]) auto
qed

definition product_steps_done :: "content \<Rightarrow> content \<Rightarrow> bool" where
  "product_steps_done c0 c \<longleftrightarrow>
     (\<forall>p. p \<notin> {''productOnDepot'', ''productOnClient'', ''productProperty'', ''productPropertyState''} \<longrightarrow> c p = c0 p) \<and>
     products_consistent c \<and> set (c ''productOnDepot'') \<subseteq> set (c0 ''productOnDepot'') \<and>
     (\<forall>p \<in> set (c ''productProperty''). product_ref p \<in> product_key ` set (c ''product'')) \<and>
     (\<forall>st \<in> set (c ''productPropertyState''). state_key st \<in> state_key ` set (c ''productProperty''))"

lemma product_steps:
  assumes cm: "cleanup_methods L B D" and so: "stored_once L (D s)"
  shows "\<exists>ds s3 ps s4 s5 s6 is vs s7 s8.
    ask B ''host'' [] [(''type'', JList [JStr ''OpsiConfigserver'', JStr ''OpsiDepotserver''])] s = (Inr ds, s3) \<and>
    ask B ''product'' [] [] s3 = (Inr ps, s4) \<and>
    cleanUpProductOnDepots B ((\<lambda>d. attr d ''id'') ` set ds) (product_key ` set ps) s4 = (Inr (), s5) \<and>
    cleanUpProductOnClients B s5 = (Inr (), s6) \<and>
    cleanUpProductProperties B (product_key ` set ps) s6 = (Inr (is, vs), s7) \<and>
    cleanUpProductPropertyStates B is s7 = (Inr (), s8) \<and> product_steps_done (D s) (D s8) \<and> stored_once L (D s8)"
proof -
  have g: "gets B D" using cm by (simp add: cleanup_methods_def)
  let ?ds = "filter (selected [(''type'', JList [JStr ''OpsiConfigserver'', JStr ''OpsiDepotserver''])]) (D s ''host'')"
  have dids: "(\<lambda>d. attr d ''id'') ` set ?ds = all_depots (D s)" by (auto simp: depots_filter all_depots_def)
  obtain s3 where s3: "ask B ''host'' [] [(''type'', JList [JStr ''OpsiConfigserver'', JStr ''OpsiDepotserver''])] s = (Inr ?ds, s3)"
    "D s3 = D s"
    using ask_database[where B = B and D = D and s = s and pre = "''host''", OF g depots_filter(1)] by blast
  let ?ps = "D s ''product''"
  obtain s4 where s4: "ask B ''product'' [] [] s3 = (Inr ?ps, s4)" "D s4 = D s"
    using ask_database[where B = B and D = D and s = s3 and pre = "''product''", OF g plain_empty(1)] s3(2) by auto
  have so4: "stored_once L (D s4)" using so by (simp add: s4(2))
  obtain s5 where s5: "cleanUpProductOnDepots B ((\<lambda>d. attr d ''id'') ` set ?ds) (product_key ` set ?ps) s4 = (Inr (), s5)"
    "D s5 = (D s)(''productOnDepot'' := filter (\<lambda>pod. attr pod ''depotId'' \<in> all_depots (D s) \<and> product_ref pod \<in> product_key ` set ?ps)
       (D s ''productOnDepot''))"
    by (rule succeeds_unit[OF pods_step[where s = s4 and ds = "(\<lambda>d. attr d ''id'') ` set ?ds" and idents = "product_key ` set ?ps", OF cm so4]]) (simp only: dids s4(2))
  have so5: "stored_once L (D s5)" using so stored_onceD[OF so] by (simp add: s5(2))
  obtain s6 where s6: "cleanUpProductOnClients B s5 = (Inr (), s6)" "D s6 = (D s5)(''productOnClient'' :=
    filter (\<lambda>poc. attr poc ''clientId'' \<in> client_ids (D s5) \<and> \<not> not_in_use poc \<and> attr poc ''productId'' \<in> (\<lambda>p. attr p ''id'') ` set (D s5 ''product''))
      (D s5 ''productOnClient''))"
    by (rule succeeds_unit[OF pocs_step[where s = s5, OF cm so5]])
  have so6: "stored_once L (D s6)" using so5 stored_onceD[OF so5] by (simp only: s6(2) stored_once_filter unique_filter)
  obtain "is" vs s7 where s7: "cleanUpProductProperties B (product_key ` set ?ps) s6 = (Inr (is, vs), s7)"
    "D s7 = (D s6)(''productProperty'' := filter (\<lambda>p. product_ref p \<in> product_key ` set ?ps) (D s6 ''productProperty''))"
    "is = state_key ` set (D s7 ''productProperty'')"
    by (rule succeeds_done[OF properties_step[where s = s6 and idents = "product_key ` set ?ps", OF cm so6]]) (metis prod.collapse)
  have so7: "stored_once L (D s7)" using so6 stored_onceD[OF so6] by (simp only: s7(2) stored_once_filter unique_filter)
  obtain s8 where s8: "cleanUpProductPropertyStates B is s7 = (Inr (), s8)"
    "D s8 = (D s7)(''productPropertyState'' := filter (\<lambda>st. state_key st \<in> is) (D s7 ''productPropertyState''))"
    by (rule succeeds_unit[OF states_step[where s = s7 and idents = "is", OF cm so7]])
  have so8: "stored_once L (D s8)" using so7 stored_onceD[OF so7] by (simp only: s8(2) stored_once_filter unique_filter)
  have "product_steps_done (D s) (D s8)"
    by (auto simp: product_steps_done_def products_consistent_def all_depots_def client_ids_def s8(2) s7(2,3) s6(2) s5(2))
  then show ?thesis using s3(1) s4(1) s5(1) s6(1) s7(1) s8(1) so8 by blast
qed

lemma last_steps:
  assumes cm: "cleanup_methods L B D" and so: "stored_once L (D s)" and ps: "plain_software (D s)"
  shows "\<exists>s1 s2 s3. cleanUpConfigStates B s = (Inr (), s1) \<and> cleanUpAuditSoftwares B s1 = (Inr (), s2) \<and>
    cleanUpAuditSoftwareOnClients B s2 = (Inr (), s3) \<and>
    (\<forall>p. p \<notin> {''configState'', ''auditSoftware'', ''auditSoftwareOnClient''} \<longrightarrow> D s3 p = D s p) \<and>
    (\<forall>st \<in> set (D s3 ''configState''). attr st ''configId'' \<in> (\<lambda>k. attr k ''id'') ` set (D s ''config'')) \<and>
    (\<forall>sw \<in> set (D s3 ''auditSoftwareOnClient''). software_text sw \<in> software_text ` set (D s3 ''auditSoftware''))"
proof -
  obtain s1 where s1: "cleanUpConfigStates B s = (Inr (), s1)" "D s1 = (D s)(''configState'' :=
    filter (\<lambda>st. attr st ''configId'' \<in> (\<lambda>c. attr c ''id'') ` set (D s ''config'')) (D s ''configState''))"
    by (rule succeeds_unit[OF configs_step[where s = s, OF cm so]])
  have ps1: "plain_software (D s1)" using ps by (simp add: s1(2) plain_software_def)
  obtain s2 where s2: "cleanUpAuditSoftwares B s1 = (Inr (), s2)"
    "\<forall>p. p \<noteq> ''auditSoftware'' \<longrightarrow> D s2 p = D s1 p" "set (D s2 ''auditSoftware'') \<subseteq> set (D s1 ''auditSoftware'')"
    by (rule succeeds_unit[OF softwares_step[where s = s1, OF cm ps1]]) (erule conjE, erule (2) that)
  then have ps2: "plain_software (D s2)" using ps1 by (auto simp: plain_software_def)
  obtain s3 where s3: "cleanUpAuditSoftwareOnClients B s2 = (Inr (), s3)"
    "\<forall>p. p \<noteq> ''auditSoftwareOnClient'' \<longrightarrow> D s3 p = D s2 p"
    "\<forall>sw \<in> set (D s3 ''auditSoftwareOnClient''). software_text sw \<in> software_text ` set (D s2 ''auditSoftware'')"
    by (rule succeeds_unit[OF softwares_on_clients_step[where s = s2, OF cm ps2]]) (erule conjE, erule (2) that)
  show ?thesis
    by (intro exI[of _ s1] exI[of _ s2] exI[of _ s3] conjI s1(1) s2(1) s3(1)) (use s1(2) s2(2) s3(2,3) in auto)
qed


lemma values_steps:
  assumes cm: "cleanup_methods L B D" and so: "stored_once L (D s)" and bp: "bools_parse L" and as: "assigns clientsOf D"
    and h: "\<forall>h \<in> set (D s ''host''). plain_id h" and pp: "plain_pods (D s)"
  shows "\<exists>ds s1 s2. ask B ''host'' [] [(''type'', JStr ''OpsiDepotserver'')] s = (Inr ds, s1) \<and>
    foldS (\<lambda>d _. cleanUpValues L B clientsOf props d) ds () s1 = (Inr (), s2) \<and> states_within L (D s) (D s2)"
proof -
  let ?ds = "filter (selected [(''type'', JStr ''OpsiDepotserver'')]) (D s ''host'')"
  obtain s1 where s1: "ask B ''host'' [] [(''type'', JStr ''OpsiDepotserver'')] s = (Inr ?ds, s1)" "D s1 = D s"
    using ask_database[where B = B and D = D and s = s and pre = "''host''", OF _ depotservers_filter] cm
    by (auto simp: cleanup_methods_def)
  have w: "states_within L (D s) (D s1)" by (simp add: s1(2) states_within_def stored_onceD[OF so])
  have "succeeds (foldS (\<lambda>d _. cleanUpValues L B clientsOf props d) ?ds ()) s1 (\<lambda>_ s'. states_within L (D s) (D s'))"
  proof (rule succeeds_foldS)
    fix d b s' assume "d \<in> set ?ds" "states_within L (D s) (D s')"
    then show "succeeds (cleanUpValues L B clientsOf props d) s' (\<lambda>_ s'. states_within L (D s) (D s'))"
      using h by (intro values_step[OF cm bp as _ pp]) auto
  qed (rule w)
  then obtain s2 where "foldS (\<lambda>d _. cleanUpValues L B clientsOf props d) ?ds () s1 = (Inr (), s2)" "states_within L (D s) (D s2)"
    by (rule succeeds_unit)
  then show ?thesis using s1(1) by blast
qed

lemma consistentI:
  assumes g: "parents_exist c1" and d: "product_steps_done c1 c2" and w: "states_within L c2 c3"
    and r: "\<forall>p. p \<notin> {''configState'', ''auditSoftware'', ''auditSoftwareOnClient''} \<longrightarrow> c4 p = c3 p"
    and k: "\<forall>st \<in> set (c4 ''configState''). attr st ''configId'' \<in> (\<lambda>k. attr k ''id'') ` set (c3 ''config'')"
    and sw: "\<forall>sw \<in> set (c4 ''auditSoftwareOnClient''). software_text sw \<in> software_text ` set (c4 ''auditSoftware'')"
  shows "consistent c4"
proof -
  have same: "c3 p = c2 p" if "p \<noteq> ''productPropertyState''" for p using w that by (simp add: states_within_def)
  have c4: "c4 ''host'' = c2 ''host''" "c4 ''product'' = c2 ''product''" "c4 ''productOnDepot'' = c2 ''productOnDepot''"
    "c4 ''productOnClient'' = c2 ''productOnClient''" "c4 ''productProperty'' = c2 ''productProperty''" "c4 ''group'' = c1 ''group''"
    "c4 ''productPropertyState'' = c3 ''productPropertyState''" "c4 ''config'' = c3 ''config''"
    using r d same by (simp_all add: product_steps_done_def)
  have "products_consistent c2" using d by (simp add: product_steps_done_def)
  then have pc: "products_consistent c4" by (simp add: products_consistent_def all_depots_def client_ids_def c4)
  have "texts c3 \<subseteq> texts c2" using w by (simp only: states_within_def)
  moreover have "texts c2 \<subseteq> state_key ` set (c2 ''productProperty'')"
    using d unfolding product_steps_done_def texts_def image_subset_iff by (elim conjE)
  ultimately have "texts c3 \<subseteq> state_key ` set (c2 ''productProperty'')" by (rule subset_trans)
  then have "\<forall>st \<in> set (c4 ''productPropertyState''). state_key st \<in> state_key ` set (c4 ''productProperty'')"
    by (simp only: c4 texts_def image_subset_iff)
  moreover have "\<forall>p \<in> set (c4 ''productProperty''). product_ref p \<in> product_key ` set (c4 ''product'')"
    using d unfolding c4 product_steps_done_def by (elim conjE)
  ultimately have pr: "properties_consistent c4" using k by (simp add: properties_consistent_def c4)
  show ?thesis using g pc pr sw by (simp add: consistent_def parents_exist_def c4)
qed


text \<open>
  Concrete data: a group whose parent is missing and the state of a product no depot has, which goes with the product, in
  a store with the checks and cascades of the data backends.
\<close>

lemma store_deletes_products: "deletes_products (data_store L sd p) id"
  unfolding deletes_products_def
proof (intro allI impI)
  fix s :: content and ps
  assume a: "set ps \<subseteq> set (id s ''product'') \<and> (\<forall>q \<in> set ps. plain_product q)"
  let ?gone = "\<lambda>pre ob. \<exists>q \<in> set ps. belongs_to_version q pre ob \<or> all_gone ps (s ''product'') (attr q ''id'') \<and> belongs_to_product (attr q ''id'') pre ob"
  obtain s1 where s1: "base_product_deleteObjects (link_store L) ps s = (Inr (), s1)"
    "\<And>pre. s1 pre = filter (\<lambda>ob. \<not> ?gone pre ob) (s pre)"
    using release_all_products[where s = s and ps = ps, OF store_gets(2) store_deletes(2)] a unfolding id_apply by blast
  let ?s2 = "s1(''product'' := filter (\<lambda>q. q \<notin> set ps) (s1 ''product''))"
  have none: "\<not> ?gone pre ob" if "pre \<in> {''host'', ''group'', ''config'', ''product'', ''auditSoftware'', ''auditSoftwareOnClient''}" for pre ob
    using that by (auto simp: belongs_to_version_def belongs_to_product_def)
  have keep: "s1 pre = s pre" if "pre \<in> {''host'', ''group'', ''config'', ''product'', ''auditSoftware'', ''auditSoftwareOnClient''}" for pre
    using none[OF that] by (simp add: s1(2))
  have "b_delete (data_store L sd p) ''product'' ps s = Inr ?s2"
    using s1(1) by (simp add: data_store_def link_store_def list_store_def after_base_def ret_def)
  moreover have "reduces s ?s2"
    unfolding reduces_def using keep s1(2) by (auto simp: fun_upd_def)
  ultimately show "\<exists>s'. b_delete (data_store L sd p) ''product'' ps s = Inr s' \<and>
      id s' ''product'' = filter (\<lambda>p. p \<notin> set ps) (id s ''product'') \<and> reduces (id s) (id s')"
    using keep by (intro exI[of _ ?s2]) simp
qed

lemma store_cleanup: "cleanup_methods id_lib checking_store id"
proof -
  have "updates_states id_lib checking_store id" by (simp add: updates_states_def data_store_def list_store_def)
  then show ?thesis
    using store_gets(3) store_deletes(3) store_reinserts(2)[OF id_lib_identities] store_deletes_products id_lib_identities
    by (simp add: cleanup_methods_def)
qed

definition untidy_content :: content where
  "untidy_content = (\<lambda>_. [])(
     ''group'' := [\<lparr>o_class = ''HostGroup'', o_hash = [(''id'', JStr ''g''), (''parentGroupId'', JStr ''gone'')], o_generated = False\<rparr>],
     ''product'' := [version_1], ''productOnClient'' := [state_of_p], ''configState'' := [state_on ''pc1''])"


end
