(* ===== verification/LogFiles.thy ===== *)
theory LogFiles
  imports FileBackend
begin

text \<open>
  The log files of clients, OPSI/Backend/Base/ConfigData.py (\<open>log_write\<close>, \<open>log_read\<close>) and OPSI/Util/Log.py:
  writing cuts what is too large, rotates the files and drops the oldest ones; reading cuts to a size. A file
  system maps paths to contents; contents are bytes, and the codec is an argument. Renaming and removing
  fail only where a file is missing.
\<close>

section \<open>Paths\<close>

type_synonym disk = "string \<Rightarrow> string option"

definition LOG_DIR :: string where "LOG_DIR = ''/var/log/opsi''"

text \<open>The types of logs, and whether reading one needs the id of an object.\<close>

definition LOG_TYPES :: "(string, bool) dict" where
  "LOG_TYPES = [(''bootimage'', True), (''clientconnect'', True), (''instlog'', True), (''opsiconfd'', False),
     (''userlogin'', True), (''winpe'', True)]"

definition LOG_SIZE_HARD_LIMIT :: nat where "LOG_SIZE_HARD_LIMIT = 10000000"

definition log_file :: "string \<Rightarrow> string \<Rightarrow> string" where
  "log_file logType objectId = LOG_DIR @ ''/'' @ logType @ ''/'' @ objectId @ ''.log''"

definition rotated :: "string \<Rightarrow> nat \<Rightarrow> string" where
  "rotated path n = (if n = 0 then path else path @ ''.'' @ str_nat n)"

section \<open>Writing\<close>

text \<open>\<open>bytes.find(c, start)\<close>\<close>

definition find_char :: "char \<Rightarrow> nat \<Rightarrow> string \<Rightarrow> nat option" where
  "find_char c start s = (let n = length (takeWhile (\<lambda>x. x \<noteq> c) (drop start s))
     in if start + n < length s then Some (start + n) else None)"

definition cut_data :: "string \<Rightarrow> string" where
  "cut_data b =
     (if length b \<le> LOG_SIZE_HARD_LIMIT then b
      else let b = drop (length b - LOG_SIZE_HARD_LIMIT) b
           in case find_char newline 0 b of
                Some i \<Rightarrow> if 0 < i then drop (i + 1) b else b
              | None \<Rightarrow> b)"

text \<open>\<open>os.rename\<close> of the file with number \<open>n\<close> to the next number, when it exists.\<close>

definition move_up :: "string \<Rightarrow> nat \<Rightarrow> disk \<Rightarrow> disk" where
  "move_up path n fs = (case fs (rotated path n) of
     None \<Rightarrow> fs | Some c \<Rightarrow> fs(rotated path n := None, rotated path (Suc n) := Some c))"

fun move_all :: "string \<Rightarrow> nat \<Rightarrow> disk \<Rightarrow> disk" where
  "move_all path 0 fs = fs"
| "move_all path (Suc n) fs = move_all path n (move_up path n fs)"

text \<open>Python's \<open>int(text)\<close>: None for a ValueError.\<close>

fun digits :: "bool \<Rightarrow> string \<Rightarrow> string option" where
  "digits seen [] = (if seen then Some [] else None)"
| "digits seen (c # s) =
     (if CHR ''0'' \<le> c \<and> c \<le> CHR ''9'' then map_option ((#) c) (digits True s)
      else if c = CHR ''_'' \<and> seen then digits False s else None)"

definition py_int :: "string \<Rightarrow> int option" where
  "py_int s = (case strip s of
     c # r \<Rightarrow> if c = CHR ''-'' then map_option (\<lambda>d. - int (val_digits d)) (digits False r)
             else if c = CHR ''+'' then map_option (\<lambda>d. int (val_digits d)) (digits False r)
             else map_option (\<lambda>d. int (val_digits d)) (digits False (c # r))
   | [] \<Rightarrow> None)"

text \<open>The files \<open>glob\<close> finds that are removed: their last part is no number or too large a one.\<close>

definition rest_of :: "string \<Rightarrow> string \<Rightarrow> string option" where
  "rest_of path q = (let p = path @ ''.'' in if startswith q p \<and> CHR ''/'' \<notin> set (drop (length p) q) then Some (drop (length p) q) else None)"

definition outdated :: "int \<Rightarrow> string \<Rightarrow> string \<Rightarrow> bool" where
  "outdated keep path q =
     (case rest_of path q of
        None \<Rightarrow> False
      | Some r \<Rightarrow> (case py_int (last (split_char (CHR ''.'') r)) of None \<Rightarrow> True | Some i \<Rightarrow> keep < i))"

definition drop_outdated :: "int \<Rightarrow> string \<Rightarrow> disk \<Rightarrow> disk" where
  "drop_outdated keep path fs = (\<lambda>q. if outdated keep path q then None else fs q)"

text \<open>The rotation; removing a missing file ends it with a logged error.\<close>

definition rotate_logs :: "int \<Rightarrow> int \<Rightarrow> string \<Rightarrow> bool \<Rightarrow> string \<Rightarrow> disk \<Rightarrow> disk" where
  "rotate_logs max_size keep path appending data fs =
     (if \<not> appending \<or> (case fs path of Some c \<Rightarrow> max_size < int (length c + length data) | None \<Rightarrow> False)
      then if keep \<le> 0
           then (case fs path of None \<Rightarrow> fs | Some _ \<Rightarrow> drop_outdated keep path (fs(path := None)))
           else drop_outdated keep path (move_all path (nat keep) fs)
      else drop_outdated keep path fs)"

record log_settings =
  max_log_size :: int
  keep_rotated_logs :: int

definition log_write ::
  "(string \<Rightarrow> string) \<Rightarrow> (string \<Rightarrow> string option) \<Rightarrow> log_settings \<Rightarrow> string \<Rightarrow> string \<Rightarrow> string option \<Rightarrow> bool \<Rightarrow> disk
     \<Rightarrow> (backend_error, disk) result" where
  "log_write encode forceObjectId cfg logType data objectId appending fs =
     (if map_of LOG_TYPES logType = None then Inl BackendBadValueError
      else case objectId of
        None \<Rightarrow> Inl BackendBadValueError
      | Some i \<Rightarrow>
          if i = [] then Inl BackendBadValueError
          else case forceObjectId i of
            None \<Rightarrow> Inl ValueError
          | Some i \<Rightarrow>
              let data = cut_data (encode data);
                  path = log_file logType i;
                  fs = rotate_logs (max_log_size cfg) (keep_rotated_logs cfg) path appending data fs
              in Inr (fs(path := Some ((if appending then (case fs path of Some c \<Rightarrow> c | None \<Rightarrow> []) else []) @ data))))"

section \<open>Reading\<close>

definition truncateLogData :: "string \<Rightarrow> int \<Rightarrow> string" where
  "truncateLogData data maxSize =
     (if maxSize < int (length data)
      then let from = nat (int (length data) - maxSize);
               start = (case find_char newline from data of Some i \<Rightarrow> i | None \<Rightarrow> from)
           in dropWhile is_space (drop start data)
      else data)"

definition log_read ::
  "(string \<Rightarrow> string) \<Rightarrow> (string \<Rightarrow> string option) \<Rightarrow> string \<Rightarrow> string option \<Rightarrow> int \<Rightarrow> disk \<Rightarrow> (backend_error, string) result" where
  "log_read decode forceObjectId logType objectId maxSize fs =
     (case map_of LOG_TYPES logType of
        None \<Rightarrow> Inl BackendBadValueError
      | Some needs_id \<Rightarrow>
          bindE (case objectId of
                   Some (c # i) \<Rightarrow> (case forceObjectId (c # i) of None \<Rightarrow> Inl ValueError | Some i \<Rightarrow> Inr (log_file logType i))
                 | _ \<Rightarrow> if needs_id then Inl BackendBadValueError else Inr (LOG_DIR @ ''/'' @ logType @ ''/opsiconfd.log'')) (\<lambda>path.
            case fs path of
              None \<Rightarrow> Inr []
            | Some c \<Rightarrow>
                let data = decode c
                in Inr (if 0 < maxSize \<and> maxSize < int (length data) then truncateLogData data maxSize else data)))"

end
