(* ===== verification/LogCorrect.thy ===== *)
theory LogCorrect
  imports LogFiles
begin

text \<open>
  What writing and reading log files does: how the files are rotated, how large they get, and that a log is
  read as it was written.
\<close>

section \<open>Numbers of rotated files\<close>

lemma str_nat_digit: "c \<in> set (str_nat n) \<Longrightarrow> CHR ''0'' \<le> c \<and> c \<le> CHR ''9''"
  using str_nat_digits[of c n] by (simp add: less_eq_char_def)

lemma digits_digits: "\<forall>c \<in> set s. CHR ''0'' \<le> c \<and> c \<le> CHR ''9'' \<Longrightarrow> s \<noteq> [] \<or> seen \<Longrightarrow> digits seen s = Some s"
  by (induction s arbitrary: seen) auto

lemma str_nat_nonempty [simp]: "str_nat n \<noteq> []"
  by (subst str_nat.simps) simp

lemma digit_no_space: "CHR ''0'' \<le> c \<Longrightarrow> c \<le> CHR ''9'' \<Longrightarrow> \<not> is_space c \<and> c \<notin> {CHR ''-'', CHR ''+'', CHR ''.'', CHR ''/''}"
  by (auto simp: is_space_def less_eq_char_def Let_def)

lemma py_int_str_nat [simp]: "py_int (str_nat n) = Some (int n)"
proof -
  obtain c r where s: "str_nat n = c # r" by (cases "str_nat n") auto
  have d: "\<forall>x \<in> set (c # r). CHR ''0'' \<le> x \<and> x \<le> CHR ''9''" using str_nat_digit[of _ n] by (simp only: s) blast
  have sp: "\<forall>x \<in> set (c # r). \<not> is_space x \<and> x \<notin> {CHR ''-'', CHR ''+'', CHR ''.'', CHR ''/''}"
    using d digit_no_space by blast
  have "strip (c # r) = c # r" using sp last_in_set[of "c # r"] by (subst strip_eq_self) auto
  moreover have "digits False (c # r) = Some (c # r)" using d by (intro digits_digits) simp_all
  ultimately show ?thesis using sp val_digits_str_nat[of n] by (simp add: py_int_def s)
qed

lemma rest_of_rotated: "rest_of path (path @ ''.'' @ str_nat n) = Some (str_nat n)"
  using str_nat_digit[of "CHR ''/''" n] digit_no_space[of "CHR ''/''"] by (auto simp: rest_of_def startswith_def)

lemma last_part_number: "last (split_char (CHR ''.'') (str_nat n)) = str_nat n"
  using str_nat_digit[of "CHR ''.''" n] digit_no_space[of "CHR ''.''"] by (subst split_char_single) auto

lemma outdated_rotated [simp]: "outdated keep path (rotated path n) \<longleftrightarrow> 0 < n \<and> keep < int n"
  using rest_of_rotated[of path n] by (auto simp: rotated_def outdated_def last_part_number) (simp add: rest_of_def startswith_def)+

lemma rotated_inj: "rotated path m = rotated path n \<longleftrightarrow> m = n"
  by (auto simp: rotated_def str_nat_inj)

lemma rotated_0: "rotated path 0 = path"
  by (simp add: rotated_def)

section \<open>The rotation\<close>

lemma move_up_at:
  "move_up path k fs q = (if fs (rotated path k) = None then fs q
     else if q = rotated path (Suc k) then fs (rotated path k) else if q = rotated path k then None else fs q)"
  by (auto simp: move_up_def rotated_inj split: option.splits)

lemma move_up_rotated:
  "move_up path k fs (rotated path n) = (if fs (rotated path k) = None then fs (rotated path n)
     else if n = Suc k then fs (rotated path k) else if n = k then None else fs (rotated path n))"
  by (simp add: move_up_at rotated_inj)

lemma move_all_other: "(\<forall>n \<le> k. q \<noteq> rotated path n) \<Longrightarrow> move_all path k fs q = fs q"
  by (induction k arbitrary: fs) (auto simp: move_up_at)

lemma move_all_at:
  "n \<le> k \<Longrightarrow> move_all path k fs (rotated path n) =
     (if k = 0 then fs (rotated path 0)
      else if n = 0 then None
      else if n < k \<or> fs (rotated path (n - 1)) \<noteq> None then fs (rotated path (n - 1)) else fs (rotated path n))"
proof (induction k arbitrary: fs n)
  case (Suc k)
  show ?case
  proof (cases "n = Suc k")
    case True
    have "move_all path k (move_up path k fs) (rotated path (Suc k)) = move_up path k fs (rotated path (Suc k))"
      by (rule move_all_other) (simp add: rotated_inj)
    then show ?thesis by (simp add: True move_up_rotated)
  next
    case False
    then have n: "n \<le> k" using Suc.prems by simp
    show ?thesis using n by (cases "fs (rotated path k)") (auto simp: Suc.IH[OF n] move_up_rotated)
  qed
qed simp

section \<open>What is kept\<close>

text \<open>The content of a file, empty when there is none, and the text of a log with its rotated files, oldest first.\<close>

definition content_of :: "disk \<Rightarrow> string \<Rightarrow> string" where
  "content_of fs q = (case fs q of None \<Rightarrow> [] | Some c \<Rightarrow> c)"

fun kept_text :: "nat \<Rightarrow> string \<Rightarrow> disk \<Rightarrow> string" where
  "kept_text 0 path fs = content_of fs path"
| "kept_text (Suc n) path fs = content_of fs (rotated path (Suc n)) @ kept_text n path fs"

lemma kept_text_shift:
  assumes "\<forall>m. 0 < m \<and> m \<le> n \<longrightarrow> fs' (rotated path m) = fs (rotated path (m - 1))"
  shows "kept_text n path fs' = (if n = 0 then [] else kept_text (n - 1) path fs) @ content_of fs' path"
  using assms
proof (induction n)
  case (Suc n)
  then show ?case by (cases n) (simp_all add: content_of_def rotated_0)
qed simp

lemma kept_text_same:
  "\<forall>m. 0 < m \<and> m \<le> n \<longrightarrow> fs' (rotated path m) = fs (rotated path m) \<Longrightarrow> content_of fs' path = content_of fs path @ d \<Longrightarrow>
     kept_text n path fs' = kept_text n path fs @ d"
  by (induction n) (simp_all add: content_of_def)

text \<open>When the files are rotated, and the file that is lost then.\<close>

definition log_full :: "log_settings \<Rightarrow> string \<Rightarrow> string \<Rightarrow> disk \<Rightarrow> bool" where
  "log_full cfg path data fs \<longleftrightarrow> (case fs path of Some c \<Rightarrow> max_log_size cfg < int (length c + length data) | None \<Rightarrow> False)"

definition oldest :: "nat \<Rightarrow> string \<Rightarrow> disk \<Rightarrow> string" where
  "oldest k path fs = (if k = 0 then content_of fs path else if fs (rotated path (k - 1)) = None then [] else content_of fs (rotated path k))"

lemma log_write_Inr:
  "log_write enc fid cfg t d (Some i) appending fs = Inr fs' \<longleftrightarrow> map_of LOG_TYPES t \<noteq> None \<and> i \<noteq> [] \<and>
     (\<exists>j. fid i = Some j \<and> fs' = (let data = cut_data (enc d); path = log_file t j;
        fs1 = rotate_logs (max_log_size cfg) (keep_rotated_logs cfg) path appending data fs
      in fs1(path := Some ((if appending then content_of fs1 path else []) @ data))))"
  by (auto simp: log_write_def Let_def content_of_def split: option.splits)

lemma outdated_path [simp]: "\<not> outdated keep path path"
  using outdated_rotated[of keep path 0] by (simp only: rotated_0) simp

lemma rotated_not_path: "0 < n \<Longrightarrow> rotated path n \<noteq> path"
  by (simp add: rotated_def)

lemma kept_after_write:
  fixes path data cfg
  defines "k \<equiv> nat (keep_rotated_logs cfg)"
    and "fs1 fs \<equiv> rotate_logs (max_log_size cfg) (keep_rotated_logs cfg) path True data fs"
  shows "kept_text k path fs @ data =
    (if log_full cfg path data fs then oldest k path fs else []) @ kept_text k path ((fs1 fs)(path := Some (content_of (fs1 fs) path @ data)))"
proof (cases "log_full cfg path data fs")
  case False
  then have r: "fs1 fs = drop_outdated (keep_rotated_logs cfg) path fs"
    by (auto simp: fs1_def rotate_logs_def log_full_def split: option.splits)
  have "fs1 fs path = fs path" by (simp add: r drop_outdated_def)
  moreover have "fs1 fs (rotated path m) = fs (rotated path m)" if "0 < m" "m \<le> k" for m
    using that by (auto simp: r drop_outdated_def k_def)
  ultimately show ?thesis
    using False by (subst kept_text_same[where fs = fs and d = data]) (auto simp: content_of_def rotated_not_path)
next
  case True
  then obtain c where c: "fs path = Some c" "max_log_size cfg < int (length c + length data)"
    by (auto simp: log_full_def split: option.splits)
  show ?thesis
  proof (cases k)
    case 0
    then have "fs1 fs path = None" using c by (simp add: fs1_def rotate_logs_def k_def drop_outdated_def)
    then show ?thesis using 0 True by (simp add: oldest_def content_of_def)
  next
    case (Suc k')
    then have r: "fs1 fs = drop_outdated (keep_rotated_logs cfg) path (move_all path k fs)" using c
      by (auto simp: fs1_def rotate_logs_def k_def)
    have at: "fs1 fs (rotated path n) = (if n = 0 then None
        else if n < k \<or> fs (rotated path (n - 1)) \<noteq> None then fs (rotated path (n - 1)) else fs (rotated path n))" if "n \<le> k" for n
    proof -
      have "\<not> (0 < n \<and> keep_rotated_logs cfg < int n)" using that by (auto simp: k_def)
      then have "fs1 fs (rotated path n) = move_all path k fs (rotated path n)" by (auto simp: r drop_outdated_def)
      then show ?thesis using move_all_at[OF that, of path fs] Suc by simp
    qed
    have p: "fs1 fs path = None" using at[of 0] by (simp add: rotated_0)
    let ?fs' = "(fs1 fs)(path := Some (content_of (fs1 fs) path @ data))"
    have "kept_text k' path ?fs' = (if k' = 0 then [] else kept_text (k' - 1) path fs) @ data"
      by (subst kept_text_shift[where fs = fs]) (use at Suc p in \<open>auto simp: rotated_not_path content_of_def\<close>)
    moreover have "content_of ?fs' (rotated path k) =
        (if fs (rotated path k') = None then content_of fs (rotated path k) else content_of fs (rotated path k'))"
      using at[of k] Suc by (simp add: content_of_def rotated_not_path)
    ultimately show ?thesis using True
      by (cases k') (auto simp: Suc oldest_def content_of_def rotated_0)
  qed
qed

lemma old_numbers_go:
  "keep_rotated_logs cfg < int n \<Longrightarrow> 0 < n \<Longrightarrow>
     rotate_logs (max_log_size cfg) (keep_rotated_logs cfg) path True data fs (rotated path n) = None"
  by (auto simp: rotate_logs_def drop_outdated_def split: option.splits)

text \<open>
  C31: Appending new data to a log: nothing of the log and its rotated files up to the configured number is lost while the log with the
  new data is within the configured size. Otherwise exactly one file is lost, the rotated one with the highest number that is kept (only
  when the one before it takes its place), and the current log itself when no rotated files are kept, which is the default. Rotated files
  with a number above the configured one are removed in any case. The new data is no larger than the hard limit, beyond which it is cut.
\<close>

theorem appending_loses_one_file_at_most:
  assumes "log_write enc fid cfg t d (Some i) True fs = Inr fs'" and "length (enc d) \<le> LOG_SIZE_HARD_LIMIT"
  shows "\<exists>j. fid i = Some j \<and>
    (let path = log_file t j; k = nat (keep_rotated_logs cfg)
     in kept_text k path fs @ enc d = (if log_full cfg path (enc d) fs then oldest k path fs else []) @ kept_text k path fs' \<and>
        (\<forall>n > k. fs' (rotated path n) = None))"
proof -
  have c: "cut_data (enc d) = enc d" using assms(2) by (simp add: cut_data_def)
  obtain j where j: "fid i = Some j" "fs' = (let path = log_file t j;
        fs1 = rotate_logs (max_log_size cfg) (keep_rotated_logs cfg) path True (enc d) fs in fs1(path := Some (content_of fs1 path @ enc d)))"
    using assms(1) by (auto simp: log_write_Inr c Let_def)
  have "fs' (rotated (log_file t j) n) = None" if "nat (keep_rotated_logs cfg) < n" for n
    using that old_numbers_go[of cfg n] by (simp add: j(2) Let_def rotated_not_path)
  then show ?thesis using j(1) by (intro exI[of _ j] conjI) (simp_all only: j(2) Let_def kept_after_write, simp)
qed

definition any_id :: "string \<Rightarrow> string option" where "any_id i = Some i"

definition two_logs :: log_settings where
  "two_logs = \<lparr>max_log_size = 10, keep_rotated_logs = 2\<rparr>"

definition log_disk :: disk where
  "log_disk = (\<lambda>_. None)(log_file ''instlog'' ''pc1'' := Some ''second..'', rotated (log_file ''instlog'' ''pc1'') 1 := Some ''first..'',
     rotated (log_file ''instlog'' ''pc1'') 2 := Some ''zeroth..'')"

lemma log_disk_write: "\<exists>fs'. log_write id any_id two_logs ''instlog'' ''third..'' (Some ''pc1'') True log_disk = Inr fs'"
  by (simp add: log_write_def any_id_def LOG_TYPES_def Let_def)

theorem appending_loses_one_file_at_most_witness:
  "\<exists>fs'. log_write id any_id two_logs ''instlog'' ''third..'' (Some ''pc1'') True log_disk = Inr fs' \<and>
     kept_text 2 (log_file ''instlog'' ''pc1'') fs' = ''first..second..third..''"
proof -
  obtain fs' where fs': "log_write id any_id two_logs ''instlog'' ''third..'' (Some ''pc1'') True log_disk = Inr fs'"
    using log_disk_write by blast
  let ?p = "log_file ''instlog'' ''pc1''"
  have d: "log_disk ?p = Some ''second..''" "log_disk (rotated ?p (Suc 0)) = Some ''first..''"
    "log_disk (rotated ?p (Suc (Suc 0))) = Some ''zeroth..''"
    by (simp_all add: log_disk_def rotated_inj numeral_eq_Suc rotated_not_path rotated_not_path[symmetric])
  obtain j where j: "any_id ''pc1'' = Some j" "let path = log_file ''instlog'' j; k = nat (keep_rotated_logs two_logs)
     in kept_text k path log_disk @ id ''third..'' = (if log_full two_logs path (id ''third..'') log_disk then oldest k path log_disk else []) @ kept_text k path fs' \<and>
        (\<forall>n > k. fs' (rotated path n) = None)"
    using appending_loses_one_file_at_most[OF fs'] by (auto simp: LOG_SIZE_HARD_LIMIT_def)
  have "kept_text 2 ?p fs' = ''first..second..third..''"
    using j(2) j(1)[unfolded any_id_def, simplified, symmetric]
    by (simp add: Let_def two_logs_def cut_data_def LOG_SIZE_HARD_LIMIT_def log_full_def oldest_def d numeral_2_eq_2 content_of_def)
  then show ?thesis using fs' by blast
qed

section \<open>Sizes and numbers of files\<close>

lemma cut_data_length: "length (cut_data b) \<le> LOG_SIZE_HARD_LIMIT"
  by (auto simp: cut_data_def Let_def split: option.splits)

definition write_step ::
  "(string \<Rightarrow> string) \<Rightarrow> (string \<Rightarrow> string option) \<Rightarrow> log_settings \<Rightarrow> disk \<Rightarrow> string \<times> string \<times> string option \<times> bool \<Rightarrow> disk" where
  "write_step enc fid cfg fs = (\<lambda>(t, d, i, a). case log_write enc fid cfg t d i a fs of Inl _ \<Rightarrow> fs | Inr fs' \<Rightarrow> fs')"

definition within_limits :: "log_settings \<Rightarrow> disk \<Rightarrow> bool" where
  "within_limits cfg fs \<longleftrightarrow>
     (\<forall>q c. fs q = Some c \<longrightarrow> int (length c) \<le> max (int LOG_SIZE_HARD_LIMIT) (max_log_size cfg)) \<and>
     (\<forall>p n. keep_rotated_logs cfg < int n \<and> 0 < n \<longrightarrow> fs (rotated p n) = None)"

text \<open>What is in the files after a rotation was in some file before, and no file gets too large a number.\<close>

lemma move_all_old: "move_all path k fs q = Some c \<Longrightarrow> \<exists>q'. fs q' = Some c"
  by (induction k arbitrary: fs) (fastforce simp: move_up_at split: if_splits)+

lemma rotated_same_number: "0 < m \<Longrightarrow> 0 < n \<Longrightarrow> rotated p m = rotated q n \<Longrightarrow> m = n"
proof -
  assume a: "0 < m" "0 < n" "rotated p m = rotated q n"
  have dot: "CHR ''.'' \<notin> set (str_nat x)" for x using str_nat_digit[of "CHR ''.''" x] digit_no_space[of "CHR ''.''"] by auto
  have "rev (str_nat m) @ CHR ''.'' # rev p = rev (str_nat n) @ CHR ''.'' # rev q"
    using arg_cong[OF a(3), of rev] a(1,2) by (simp add: rotated_def)
  then have "takeWhile (\<lambda>c. c \<noteq> CHR ''.'') (rev (str_nat m) @ CHR ''.'' # rev p) = takeWhile (\<lambda>c. c \<noteq> CHR ''.'') (rev (str_nat n) @ CHR ''.'' # rev q)"
    by simp
  moreover have "takeWhile (\<lambda>c. c \<noteq> CHR ''.'') (rev (str_nat x) @ CHR ''.'' # r) = rev (str_nat x)" for x r
    using dot[of x] by (subst takeWhile_append2) auto
  ultimately show "m = n" by (simp add: str_nat_inj)
qed

lemma rotated_not_log: "0 < n \<Longrightarrow> rotated p n \<noteq> log_file t j"
proof
  assume a: "0 < n" "rotated p n = log_file t j"
  have "last (rotated p n) = last (str_nat n)" using a(1) by (simp add: rotated_def)
  moreover have "last (log_file t j) = CHR ''g''" by (simp add: log_file_def)
  ultimately have "CHR ''g'' \<in> set (str_nat n)" using a(2) last_in_set[of "str_nat n"] by simp
  then show False using str_nat_digit[of "CHR ''g''" n] by (simp add: less_eq_char_def)
qed

lemma limits_rotate:
  assumes w: "within_limits cfg fs"
  shows "within_limits cfg (rotate_logs (max_log_size cfg) (keep_rotated_logs cfg) (log_file t j) a data fs)"
proof -
  let ?p = "log_file t j"
  have drop: "within_limits cfg (drop_outdated keep ?p fs')" if "within_limits cfg fs'" for fs' keep
    using that by (auto simp: within_limits_def drop_outdated_def)
  have "move_all ?p (nat (keep_rotated_logs cfg)) fs (rotated p n) = None" if n: "keep_rotated_logs cfg < int n" "0 < n" for p n
  proof -
    have "rotated p n \<noteq> rotated ?p m" if "m \<le> nat (keep_rotated_logs cfg)" for m
      using rotated_same_number[of n m p ?p] rotated_not_log[of n p t j] n that by (cases "m = 0") (auto simp: rotated_0)
    then show ?thesis using w n by (subst move_all_other) (auto simp: within_limits_def)
  qed
  moreover have "int (length c) \<le> max (int LOG_SIZE_HARD_LIMIT) (max_log_size cfg)"
    if "move_all ?p k fs q = Some c" for k q c
    using move_all_old[OF that] w unfolding within_limits_def by blast
  ultimately have "within_limits cfg (move_all ?p (nat (keep_rotated_logs cfg)) fs)" by (auto simp: within_limits_def)
  moreover have "within_limits cfg (fs(?p := None))" using w by (simp add: within_limits_def)
  ultimately show ?thesis using w drop by (auto simp: rotate_logs_def split: option.splits)
qed

lemma fits_after_rotation:
  "rotate_logs m k path True data fs path = Some c \<Longrightarrow> int (length c + length data) \<le> m \<or> c = []"
  by (cases "nat k = 0") (auto simp: rotate_logs_def drop_outdated_def move_all_at[of 0, unfolded rotated_0] split: option.splits if_splits)

lemma limits_write:
  assumes "within_limits cfg fs"
  shows "within_limits cfg (write_step enc fid cfg fs w)"
proof (cases w)
  case (fields t d i a)
  show ?thesis
  proof (cases "log_write enc fid cfg t d i a fs")
    case (Inr fs')
    then obtain i' where i: "i = Some i'" by (cases i) (auto simp: log_write_def split: if_splits)
    obtain j where j: "fs' = (let data = cut_data (enc d); path = log_file t j;
        fs1 = rotate_logs (max_log_size cfg) (keep_rotated_logs cfg) path a data fs
      in fs1(path := Some ((if a then content_of fs1 path else []) @ data)))"
      using Inr unfolding i log_write_Inr by blast
    let ?p = "log_file t j" and ?data = "cut_data (enc d)"
    let ?fs1 = "rotate_logs (max_log_size cfg) (keep_rotated_logs cfg) ?p a ?data fs"
    have "int (length ((if a then content_of ?fs1 ?p else []) @ ?data)) \<le> max (int LOG_SIZE_HARD_LIMIT) (max_log_size cfg)"
      using cut_data_length[of "enc d"] fits_after_rotation[of "max_log_size cfg" "keep_rotated_logs cfg" ?p ?data fs]
      by (cases a) (auto simp: content_of_def split: option.splits)
    then have "within_limits cfg fs'"
      using limits_rotate[OF assms, of t j a ?data] by (cases a) (simp_all add: j Let_def within_limits_def rotated_not_log)
    then show ?thesis by (simp add: write_step_def fields Inr)
  qed (simp add: write_step_def fields assms)
qed

text \<open>
  C32: However many logs are written, in whatever order and for whatever clients: a log file, rotated or not, is never larger than the
  larger of the hard limit and the configured size, and no rotated file gets a number above the configured one. Failing calls
  change nothing.
\<close>

theorem log_files_stay_within_limits:
  "(case foldl (write_step enc fid cfg) (\<lambda>_. None) ws q of
      None \<Rightarrow> True | Some c \<Rightarrow> int (length c) \<le> max (int LOG_SIZE_HARD_LIMIT) (max_log_size cfg)) \<and>
   foldl (write_step enc fid cfg) (\<lambda>_. None) ws (rotated p (Suc (nat (keep_rotated_logs cfg) + n))) = None"
proof -
  let ?final = "foldl (write_step enc fid cfg) (\<lambda>_. None) ws"
  have run: "within_limits cfg (foldl (write_step enc fid cfg) fs ws)" if "within_limits cfg fs" for fs
    using that by (induction ws arbitrary: fs) (simp_all add: limits_write)
  have w: "within_limits cfg ?final" by (rule run) (simp add: within_limits_def)
  have n: "keep_rotated_logs cfg < int (Suc (nat (keep_rotated_logs cfg) + n))" by linarith
  have "?final (rotated p (Suc (nat (keep_rotated_logs cfg) + n))) = None"
    using w n unfolding within_limits_def by blast
  moreover have "int (length c) \<le> max (int LOG_SIZE_HARD_LIMIT) (max_log_size cfg)" if "?final q = Some c" for c
    using w that unfolding within_limits_def by blast
  ultimately show ?thesis by (simp split: option.split)
qed

section \<open>Reading\<close>

text \<open>What is left of a text for a limit: of its last characters those from the first line break on, without leading white space.\<close>

definition end_of_text :: "string \<Rightarrow> nat \<Rightarrow> string" where
  "end_of_text s m =
     (let e = drop (length s - m) s in dropWhile is_space (if newline \<in> set e then dropWhile (\<lambda>c. c \<noteq> newline) e else e))"

lemma truncate_end: "m < length s \<Longrightarrow> truncateLogData s (int m) = end_of_text s m"
proof -
  assume m: "m < length s"
  let ?from = "length s - m"
  let ?e = "drop ?from s"
  have start: "nat (int (length s) - int m) = ?from" by linarith
  have l: "length (takeWhile (\<lambda>x. x \<noteq> newline) e) < length e \<longleftrightarrow> newline \<in> set e" for e
    by (induction e) auto
  have "find_char newline ?from s =
      (if newline \<in> set ?e then Some (?from + length (takeWhile (\<lambda>x. x \<noteq> newline) ?e)) else None)"
    using l[of ?e] m by (auto simp: find_char_def Let_def)
  moreover have "drop (?from + length (takeWhile (\<lambda>x. x \<noteq> newline) ?e)) s = dropWhile (\<lambda>x. x \<noteq> newline) ?e"
    by (simp add: dropWhile_eq_drop add.commute)
  ultimately show ?thesis using m by (simp add: truncateLogData_def start end_of_text_def Let_def)
qed

text \<open>
  C33: A log written anew whose bytes are no more than the hard limit of ten million is read back as it was written. With a limit for the
  size of what is read, the text is the log when it has no more characters than that, and otherwise the end of it: of the last
  characters up to the limit those from the first line break on, or all of them when there is none, without white space at the start.
\<close>

theorem log_is_read_as_written:
  assumes w: "log_write enc fid cfg t d (Some i) False fs = Inr fs'" and c: "dec (enc d) = d"
    and s: "length (enc d) \<le> LOG_SIZE_HARD_LIMIT"
  shows "log_read dec fid t (Some i) 0 fs' = Inr d \<and>
    log_read dec fid t (Some i) (1 + int m) fs' =
      Inr (if length d \<le> 1 + m then d
           else let e = drop (length d - (1 + m)) d
                in dropWhile is_space (if newline \<in> set e then dropWhile (\<lambda>c. c \<noteq> newline) e else e))"
proof -
  obtain j where j: "fid i = Some j" "fs' (log_file t j) = Some (enc d)" "map_of LOG_TYPES t \<noteq> None" "i \<noteq> []"
    using w s by (auto simp: log_write_Inr Let_def cut_data_def)
  obtain x y where i: "i = x # y" using j(4) by (cases i) auto
  have "truncateLogData d (1 + int m) = end_of_text d (1 + m)" if "1 + m < length d"
    using truncate_end[OF that] by simp
  then show ?thesis
    using j(1-3) c unfolding end_of_text_def[symmetric] by (auto simp: log_read_def i Let_def split: option.splits)
qed

lemma new_log: "\<exists>fs'. log_write id any_id two_logs ''instlog'' d (Some ''pc1'') False (\<lambda>_. None) = Inr fs'"
  by (simp add: log_write_def any_id_def LOG_TYPES_def Let_def)

theorem log_is_read_as_written_witness:
  "\<exists>fs'. log_write id any_id two_logs ''instlog'' (''ab'' @ newline # ''cd'') (Some ''pc1'') False (\<lambda>_. None) = Inr fs' \<and>
     log_read id any_id ''instlog'' (Some ''pc1'') 0 fs' = Inr (''ab'' @ newline # ''cd'') \<and>
     log_read id any_id ''instlog'' (Some ''pc1'') 4 fs' = Inr ''cd''"
proof -
  obtain fs' where fs': "log_write id any_id two_logs ''instlog'' (''ab'' @ newline # ''cd'') (Some ''pc1'') False (\<lambda>_. None) = Inr fs'"
    using new_log by blast
  have sp: "is_space newline" "\<not> is_space (CHR ''c'')" "CHR ''b'' \<noteq> newline" by code_simp+
  show ?thesis
    using log_is_read_as_written[OF fs', where dec = id and m = 3] fs' sp by (auto simp: LOG_SIZE_HARD_LIMIT_def Let_def)
qed

end
