(* ===== verification/Ping.thy ===== *)
theory Ping
  imports PyStr Complex_Main "HOL-Library.Word"
begin

unbundle bit_operations_syntax

text \<open>
  ICMP echo requests, OPSI/Util/Ping.py: the checksum, the packet that is sent and the wait for its answer. Bytes are
  integers from 0 to 255, Python's integers are unbounded. The byte order of \<open>struct.pack\<close> is that of a little-endian
  machine; the time stamp in a packet is given by its eight bytes.
\<close>

section \<open>The checksum\<close>

text \<open>\<open>countTo = (len(source_bytes) / 2) * 2\<close> is a floating point number in Python 3, not rounded down.\<close>

definition countTo :: "int list \<Rightarrow> rat" where
  "countTo bs = (of_nat (length bs) / 2) * 2"

text \<open>The loop; None stands for the IndexError of a missing byte.\<close>

function checksum_loop :: "int list \<Rightarrow> nat \<Rightarrow> int \<Rightarrow> int option" where
  "checksum_loop bs pos acc =
     (if of_nat pos < countTo bs
      then if pos + 1 < length bs
           then checksum_loop bs (pos + 2) ((acc + (bs ! (pos + 1) * 256 + bs ! pos)) AND 0xFFFFFFFF)
           else None
      else Some acc)"
  by pat_completeness auto
termination by (relation "measure (\<lambda>(bs, pos, _). length bs - pos)") (auto simp: countTo_def)

declare checksum_loop.simps [simp del]

definition checksum_fold :: "int \<Rightarrow> int" where
  "checksum_fold acc =
     (let acc = drop_bit 16 acc + (acc AND 0xFFFF);
          acc = acc + drop_bit 16 acc;
          answer = NOT acc AND 0xFFFF
      in drop_bit 8 answer OR (push_bit 8 answer AND 0xFF00))"

definition checksum :: "int list \<Rightarrow> int option" where
  "checksum bs =
     map_option (\<lambda>acc. checksum_fold
         (if countTo bs < of_nat (length bs) then (acc + bs ! (length bs - 1)) AND 0xFFFFFFFF else acc))
       (checksum_loop bs 0 0)"

section \<open>Packets\<close>

definition bytes_of :: "int \<Rightarrow> int list" where
  "bytes_of w = [w mod 256, w div 256]"

definition htons :: "int \<Rightarrow> int" where
  "htons w = (w mod 256) * 256 + w div 256"

text \<open>\<open>struct.pack("bbHHh", ICMP_ECHO_REQUEST, 0, checksum, ID, 1)\<close>\<close>

definition icmp_header :: "int \<Rightarrow> int \<Rightarrow> int list" where
  "icmp_header cs ID = [8, 0] @ bytes_of cs @ bytes_of ID @ bytes_of 1"

definition ping_data :: "int list \<Rightarrow> int list" where
  "ping_data time = time @ replicate (192 - 8) 0x51"

text \<open>The packet \<open>send_one_ping\<close> sends.\<close>

definition ping_packet :: "int \<Rightarrow> int list \<Rightarrow> int list option" where
  "ping_packet ID time =
     map_option (\<lambda>cs. icmp_header (htons cs) ID @ ping_data time) (checksum (icmp_header 0 ID @ ping_data time))"

section \<open>The answer\<close>

text \<open>
  What \<open>select\<close> and \<open>recvfrom\<close> give in one round: the seconds waited, and the packet with the time it was received, or
  nothing when the time was over. A wait that has not come back yet is \<open>Waiting\<close>.
\<close>

record ping_event =
  waited :: rat
  answer :: "(int list \<times> rat) option"

datatype ping_result = Delay rat | NoAnswer | StructError | Waiting

definition packet_id :: "int list \<Rightarrow> int" where
  "packet_id packet = packet ! 24 + packet ! 25 * 256"

fun receive_one_ping :: "(int list \<Rightarrow> rat) \<Rightarrow> int \<Rightarrow> rat \<Rightarrow> ping_event list \<Rightarrow> ping_result" where
  "receive_one_ping to_time ID timeLeft [] = Waiting"
| "receive_one_ping to_time ID timeLeft (e # es) =
     (case answer e of
        None \<Rightarrow> NoAnswer
      | Some (packet, received) \<Rightarrow>
          if length packet < 28 then StructError
          else if packet_id packet = ID
          then (if length packet < 36 then StructError else Delay (received - to_time (take 8 (drop 28 packet))))
          else if timeLeft - waited e \<le> 0 then NoAnswer else receive_one_ping to_time ID (timeLeft - waited e) es)"

section \<open>The ones' complement sum\<close>

text \<open>Addition of 16 bit numbers with the carry added at the end, over the little-endian words of a packet.\<close>

definition add_carry :: "int \<Rightarrow> int \<Rightarrow> int" where
  "add_carry a b = (if a + b > 0xFFFF then a + b - 0xFFFF else a + b)"

fun words_of :: "int list \<Rightarrow> int list" where
  "words_of (a # b # bs) = (b * 256 + a) # words_of bs"
| "words_of _ = []"

definition ones_sum :: "int list \<Rightarrow> int" where
  "ones_sum bs = foldl add_carry 0 (words_of bs)"

definition bytes :: "int list \<Rightarrow> bool" where
  "bytes bs \<longleftrightarrow> (\<forall>b \<in> set bs. 0 \<le> b \<and> b < 256)"

text \<open>The number between 0 and 65535 that stands for a sum: 0 only for 0.\<close>

definition norm_sum :: "int \<Rightarrow> int" where
  "norm_sum s = (if s = 0 then 0 else (s - 1) mod 0xFFFF + 1)"

lemma norm_bounds: "0 \<le> s \<Longrightarrow> 0 \<le> norm_sum s \<and> norm_sum s \<le> 0xFFFF"
  by (auto simp: norm_sum_def intro: order.strict_implies_order)

lemma norm_sumI:
  assumes "0 < r" and "r \<le> 0xFFFF" and "s = r + 0xFFFF * k" and "0 < s"
  shows "norm_sum s = r"
proof -
  have "(s - 1) mod 0xFFFF = ((r - 1) + k * 0xFFFF) mod 0xFFFF" by (simp add: assms(3) algebra_simps)
  also have "\<dots> = (r - 1) mod 0xFFFF" by (rule mod_mult_self1)
  also have "\<dots> = r - 1" using assms(1,2) by (intro mod_pos_pos_trivial) simp_all
  finally show ?thesis using assms(4) by (simp add: norm_sum_def)
qed

lemma norm_sum_form: "0 < s \<Longrightarrow> \<exists>k. s = norm_sum s + 0xFFFF * k \<and> 0 < norm_sum s"
  using mult_div_mod_eq[of "0xFFFF" "s - 1"] pos_mod_sign[of "0xFFFF" "s - 1"]
  by (intro exI[of _ "(s - 1) div 0xFFFF"]) (simp add: norm_sum_def)

lemma add_carry_norm:
  assumes "0 \<le> s" and "0 \<le> w" and "w \<le> 0xFFFF"
  shows "add_carry (norm_sum s) w = norm_sum (s + w)"
proof (cases "s = 0")
  case True
  then show ?thesis using assms by (cases "w = 0") (simp_all add: add_carry_def norm_sum_def)
next
  case False
  then have s0: "0 < s" using assms(1) by simp
  then obtain k where k: "s = norm_sum s + 0xFFFF * k" "0 < norm_sum s" using norm_sum_form[of s] by auto
  show ?thesis
  proof (cases "0xFFFF < norm_sum s + w")
    case True
    then have "norm_sum (s + w) = norm_sum s + w - 0xFFFF"
      using k(1) assms norm_bounds[OF assms(1)] s0 by (intro norm_sumI[where k = "k + 1"]) (simp_all add: algebra_simps)
    then show ?thesis using True by (simp add: add_carry_def)
  next
    case False
    then have "norm_sum (s + w) = norm_sum s + w"
      using k s0 assms by (intro norm_sumI[where k = k]) linarith+
    then show ?thesis using False by (simp add: add_carry_def)
  qed
qed

lemma ones_sum_fold:
  "\<forall>w \<in> set ws. 0 \<le> w \<and> w \<le> 0xFFFF \<Longrightarrow> 0 \<le> s \<Longrightarrow> foldl add_carry (norm_sum s) ws = norm_sum (s + sum_list ws)"
  by (induction ws arbitrary: s) (simp_all add: add_carry_norm algebra_simps)

section \<open>The checksum is the complement of the sum\<close>

lemma low_bits: "(x :: int) AND 0xFFFF = x mod 0x10000"
  using take_bit_eq_mask[of 16 x] by (simp add: take_bit_eq_mod mask_eq_exp_minus_1)

lemma low_bits32: "(x :: int) AND 0xFFFFFFFF = x mod 0x100000000"
  using take_bit_eq_mask[of 32 x] by (simp add: take_bit_eq_mod mask_eq_exp_minus_1)

lemma swap_bytes:
  fixes a :: int
  assumes "0 \<le> a" and "a < 0x10000"
  shows "drop_bit 8 a OR (push_bit 8 a AND 0xFF00) = a div 256 + 256 * (a mod 256)"
proof -
  have hi: "push_bit 8 a AND 0xFF00 = push_bit 8 (take_bit 8 a)"
  proof (rule bit_eqI)
    fix n
    have "bit (0xFF00 :: int) n \<longleftrightarrow> 8 \<le> n \<and> n < 16"
    proof -
      have e: "(0xFF00 :: int) = push_bit 8 (mask 8)" by (simp add: push_bit_eq_mult mask_eq_exp_minus_1)
      show ?thesis unfolding e by (auto simp: bit_push_bit_iff bit_mask_iff possible_bit_def)
    qed
    then show "bit (push_bit 8 a AND 0xFF00) n \<longleftrightarrow> bit (push_bit 8 (take_bit 8 a)) n"
      by (auto simp: bit_and_iff bit_push_bit_iff bit_take_bit_iff)
  qed
  have lo: "drop_bit 8 a = take_bit 8 (drop_bit 8 a)"
    using assms by (simp add: take_bit_eq_mod drop_bit_eq_div)
  have "drop_bit 8 a OR push_bit 8 (take_bit 8 a) = drop_bit 8 a + push_bit 8 (take_bit 8 a)"
    by (rule disjunctive_add[symmetric]) (subst lo, auto simp: bit_push_bit_iff bit_take_bit_iff)
  then show ?thesis unfolding hi by (simp add: drop_bit_eq_div push_bit_eq_mult take_bit_eq_mod)
qed

lemma norm_sum_folded:
  assumes "0 \<le> s" and "s < 0x100000000"
  shows "(let s = s div 0x10000 + s mod 0x10000 in (s + s div 0x10000) mod 0x10000) = norm_sum s"
proof (cases "s = 0")
  case False
  define h l where "h = s div 0x10000" and "l = s mod 0x10000"
  have s: "s = 0x10000 * h + l" and hl: "0 \<le> h" "h < 0x10000" "0 \<le> l" "l < 0x10000"
    using assms by (auto simp: h_def l_def)
  have "norm_sum s = (if h + l < 0x10000 then h + l else h + l - 0xFFFF)"
  proof (cases "h + l < 0x10000")
    case True
    then show ?thesis using s hl False assms by (simp, intro norm_sumI[where k = h]) linarith+
  next
    case False
    then show ?thesis using s hl assms by (simp, intro norm_sumI[where k = "h + 1"]) (simp_all add: algebra_simps)
  qed
  moreover have "(h + l + (h + l) div 0x10000) mod 0x10000 = (if h + l < 0x10000 then h + l else h + l - 0xFFFF)"
  proof (cases "h + l < 0x10000")
    case False
    have "(h + l) div 0x10000 = 1" by (rule int_div_pos_eq[where r = "h + l - 0x10000"]) (use False hl in simp_all)
    moreover have "(h + l + 1) mod 0x10000 = h + l - 0xFFFF"
      by (rule int_mod_pos_eq[where q = 1]) (use False hl in simp_all)
    ultimately show ?thesis using False by simp
  qed (use hl in simp)
  ultimately show ?thesis by (simp add: Let_def h_def l_def)
qed (simp add: norm_sum_def)

lemma complement_mod: "(- u - 1) mod 0x10000 = 0xFFFF - u mod 0x10000" for u :: int
proof -
  define q r where "q = u div 0x10000" and "r = u mod 0x10000"
  then have "u = 0x10000 * q + r" "0 \<le> r" "r < 0x10000" by simp_all
  then show ?thesis unfolding r_def[symmetric] by (intro int_mod_pos_eq[where q = "- q - 1"]) (simp_all add: algebra_simps)
qed

lemma checksum_fold_norm:
  assumes "0 \<le> s" and "s < 0x100000000"
  shows "checksum_fold s = htons (0xFFFF - norm_sum s)"
proof -
  let ?t = "s div 0x10000 + s mod 0x10000"
  let ?u = "?t + ?t div 0x10000"
  have n: "norm_sum s = ?u mod 0x10000" using norm_sum_folded[OF assms] by (simp add: Let_def)
  have "NOT ?u AND 0xFFFF = (- ?u - 1) mod 0x10000" by (simp only: low_bits not_int_def)
  also have "\<dots> = 0xFFFF - ?u mod 0x10000" by (rule complement_mod)
  finally have a: "NOT ?u AND 0xFFFF = 0xFFFF - norm_sum s" unfolding n .
  have b: "0 \<le> 0xFFFF - norm_sum s" "0xFFFF - norm_sum s < 0x10000" using norm_bounds[OF assms(1)] by simp_all
  have d16: "drop_bit 16 x = x div 0x10000" for x :: int by (simp add: drop_bit_eq_div)
  have "checksum_fold s = drop_bit 8 (NOT ?u AND 0xFFFF) OR (push_bit 8 (NOT ?u AND 0xFFFF) AND 0xFF00)"
    by (simp only: checksum_fold_def Let_def d16 low_bits[of s])
  then show ?thesis unfolding a swap_bytes[OF b] by (simp add: htons_def)
qed

lemma drop_two: "pos + 1 < length bs \<Longrightarrow> drop pos bs = bs ! pos # bs ! (pos + 1) # drop (pos + 2) bs"
  using Cons_nth_drop_Suc[of pos bs] Cons_nth_drop_Suc[of "Suc pos" bs] by simp

lemma bytes_word: "bytes bs \<Longrightarrow> i < length bs \<Longrightarrow> j < length bs \<Longrightarrow> 0 \<le> bs ! j * 256 + bs ! i \<and> bs ! j * 256 + bs ! i \<le> 0xFFFF"
proof -
  assume a: "bytes bs" "i < length bs" "j < length bs"
  then have "0 \<le> bs ! i" "bs ! i < 256" "0 \<le> bs ! j" "bs ! j < 256" by (auto simp: bytes_def)
  then show ?thesis by linarith
qed

lemma checksum_loop_even:
  assumes "bytes bs"
  shows "length bs = pos + 2 * n \<Longrightarrow> 0 \<le> acc \<Longrightarrow> acc + 0xFFFF * int n < 0x100000000 \<Longrightarrow>
    checksum_loop bs pos acc = Some (acc + sum_list (words_of (drop pos bs)))"
proof (induction n arbitrary: pos acc)
  case (Suc n)
  let ?w = "bs ! (pos + 1) * 256 + bs ! pos"
  have w: "0 \<le> ?w \<and> ?w \<le> 0xFFFF" using bytes_word[OF assms, of pos "pos + 1"] Suc.prems(1) by simp
  then have "(acc + ?w) AND 0xFFFFFFFF = acc + ?w" using Suc.prems(2,3) by (simp add: low_bits32)
  then have "checksum_loop bs pos acc = checksum_loop bs (pos + 2) (acc + ?w)"
    using Suc.prems(1) by (subst checksum_loop.simps) (simp add: countTo_def)
  then show ?case using Suc.IH[of "pos + 2" "acc + ?w"] Suc.prems w drop_two[of pos bs] by (simp add: algebra_simps)
qed (subst checksum_loop.simps, simp add: countTo_def)

lemma checksum_loop_odd: "length bs = pos + 2 * n + 1 \<Longrightarrow> checksum_loop bs pos acc = None"
proof (induction n arbitrary: pos acc)
  case (Suc n)
  then show ?case by (subst checksum_loop.simps) (simp add: countTo_def Suc.IH)
qed (subst checksum_loop.simps, simp add: countTo_def)

lemma words_bytes: "bytes bs \<Longrightarrow> \<forall>w \<in> set (words_of bs). 0 \<le> w \<and> w \<le> 0xFFFF"
  by (induction bs rule: words_of.induct) (auto simp: bytes_def)

lemma length_words: "length (words_of bs) = length bs div 2"
  by (induction bs rule: words_of.induct) auto

lemma sum_words_bounds:
  "\<forall>w \<in> set ws. 0 \<le> w \<and> w \<le> (0xFFFF :: int) \<Longrightarrow> 0 \<le> sum_list ws \<and> sum_list ws \<le> 0xFFFF * int (length ws)"
  by (induction ws) auto

lemma ones_sum_norm: "bytes bs \<Longrightarrow> ones_sum bs = norm_sum (sum_list (words_of bs))"
  using ones_sum_fold[of "words_of bs" 0] words_bytes[of bs] by (simp add: ones_sum_def norm_sum_def)

lemma checksum_even:
  assumes "bytes bs" and "length bs = 2 * n" and "n \<le> 0x10000"
  shows "checksum bs = Some (htons (0xFFFF - ones_sum bs))"
proof -
  have "checksum_loop bs 0 0 = Some (sum_list (words_of bs))"
    using checksum_loop_even[OF assms(1), of 0 n 0] assms(2,3) by simp
  moreover have "0 \<le> sum_list (words_of bs) \<and> sum_list (words_of bs) < 0x100000000"
    using sum_words_bounds[OF words_bytes[OF assms(1)]] assms(2,3) by (simp add: length_words)
  ultimately show ?thesis
    using ones_sum_norm[OF assms(1)] by (simp add: checksum_def countTo_def checksum_fold_norm)
qed

text \<open>
  C30: For up to 131072 bytes the checksum is, with its bytes swapped, the complement of the ones' complement sum of the
  little-endian 16 bit words, for every even number of bytes; an odd number ends in an IndexError.
\<close>

theorem checksum_is_ones_complement:
  assumes "bytes bs" and "length bs \<le> 0x20000"
  shows "checksum bs = (if even (length bs) then Some (htons (0xFFFF - ones_sum bs)) else None)"
proof (cases "even (length bs)")
  case True
  then obtain n where "length bs = 2 * n" by (auto elim: evenE)
  then show ?thesis using checksum_even[OF assms(1)] True assms(2) by simp
next
  case False
  then obtain n where "length bs = 2 * n + 1" by (auto elim: oddE)
  then show ?thesis using checksum_loop_odd[of bs 0 n] False by (simp add: checksum_def)
qed

theorem checksum_is_ones_complement_witness:
  "checksum [1, 0, 0xF2, 0x03, 0xF4, 0xF5, 0xF6, 0xF7] = Some (htons (0xFFFF - ones_sum [1, 0, 0xF2, 0x03, 0xF4, 0xF5, 0xF6, 0xF7])) \<and>
   checksum [8] = None"
  using checksum_is_ones_complement[of "[1, 0, 0xF2, 0x03, 0xF4, 0xF5, 0xF6, 0xF7]"] checksum_is_ones_complement[of "[8]"]
  by (simp add: bytes_def)

lemma htons_swap: "0 \<le> w \<Longrightarrow> w < 0x10000 \<Longrightarrow> htons (htons w) = w \<and> 0 \<le> htons w \<and> htons w < 0x10000"
  by (simp add: htons_def)

lemma bytes_of_word: "0 \<le> w \<Longrightarrow> w < 0x10000 \<Longrightarrow> bytes (bytes_of w)"
  by (auto simp: bytes_def bytes_of_def)

lemma word_of_bytes: "w div 256 * 256 + w mod 256 = w" for w :: int
  by (simp add: mult.commute)

text \<open>
  C34: A ping packet has 200 bytes and verifies: the ones' complement sum over all of it, the checksum included, is 65535. When
  it comes back behind an IP header of 20 bytes it is taken for the answer, and the delay is the time since the time stamp.
\<close>

theorem ping_packet_verifies:
  assumes ID: "0 \<le> ID" "ID < 0x10000" and t: "bytes time" "length time = 8" and ip: "length ip = 20"
  shows "\<exists>p. ping_packet ID time = Some p \<and> length p = 200 \<and> bytes p \<and> ones_sum p = 0xFFFF \<and>
    receive_one_ping to_time ID timeLeft (\<lparr>waited = w, answer = Some (ip @ p, received)\<rparr> # es) = Delay (received - to_time time)"
proof -
  let ?dummy = "icmp_header 0 ID @ ping_data time"
  let ?c = "0xFFFF - ones_sum ?dummy"
  let ?p = "icmp_header ?c ID @ ping_data time"
  have d: "bytes ?dummy" using t(1) bytes_of_word[OF ID] by (auto simp: bytes_def icmp_header_def ping_data_def bytes_of_def)
  have len: "length (icmp_header c ID @ ping_data time) = 200" for c by (simp add: icmp_header_def ping_data_def bytes_of_def t(2))
  have s: "0 \<le> sum_list (words_of ?dummy)" using sum_words_bounds[OF words_bytes[OF d]] by simp
  have c: "0 \<le> ?c" "?c < 0x10000" using norm_bounds[OF s] by (simp_all add: ones_sum_norm[OF d])
  have run: "ping_packet ID time = Some ?p"
    using checksum_even[OF d, of 100] len[of 0] htons_swap[OF c] by (simp add: ping_packet_def)
  have b: "bytes ?p" using d bytes_of_word[OF c] by (auto simp: bytes_def icmp_header_def ping_data_def bytes_of_def)
  have "words_of (icmp_header c ID @ ping_data time) = 8 # c # ID # 1 # words_of (ping_data time)" if "0 \<le> c" "c < 0x10000" for c
    using that ID by (simp add: icmp_header_def bytes_of_def word_of_bytes)
  from this[of ?c] this[of 0] c have eq: "sum_list (words_of ?p) = sum_list (words_of ?dummy) + ?c" by simp
  have "ones_sum ?p = norm_sum (sum_list (words_of ?dummy) + (0xFFFF - norm_sum (sum_list (words_of ?dummy))))"
    unfolding ones_sum_norm[OF b] eq by (simp only: ones_sum_norm[OF d])
  also have "\<dots> = 0xFFFF"
  proof (cases "sum_list (words_of ?dummy) = 0")
    case False
    then obtain k where k: "sum_list (words_of ?dummy) = norm_sum (sum_list (words_of ?dummy)) + 0xFFFF * k"
      using norm_sum_form[of "sum_list (words_of ?dummy)"] s by auto
    show ?thesis using s False norm_bounds[OF s] k by (intro norm_sumI[where k = k]) simp_all
  qed (simp add: norm_sum_def)
  finally have v: "ones_sum ?p = 0xFFFF" .
  have id24: "packet_id (ip @ ?p) = ID"
    using ip by (simp add: packet_id_def nth_append icmp_header_def bytes_of_def word_of_bytes add.commute)
  have "take 8 (drop 28 (ip @ ?p)) = time" using ip t(2) by (simp add: icmp_header_def bytes_of_def ping_data_def)
  then have "receive_one_ping to_time ID timeLeft (\<lparr>waited = w, answer = Some (ip @ ?p, received)\<rparr> # es) = Delay (received - to_time time)"
    using id24 ip len[of ?c] by simp
  then show ?thesis using run b v len[of ?c] by (intro exI[of _ ?p] conjI)
qed

text \<open>Waiting ends with the time that was given, whatever arrives.\<close>

lemma waiting_ends: "es \<noteq> [] \<Longrightarrow> timeLeft \<le> sum_list (map waited es) \<Longrightarrow> receive_one_ping to_time ID timeLeft es \<noteq> Waiting"
proof (induction es arbitrary: timeLeft)
  case (Cons e es)
  then show ?case by (cases es) (auto split: option.splits)
qed simp

theorem ping_packet_verifies_witness:
  "\<exists>p. ping_packet 0x1234 [1, 2, 3, 4, 5, 6, 7, 8] = Some p \<and> length p = 200 \<and> ones_sum p = 0xFFFF \<and>
     receive_one_ping (\<lambda>_. 1) 0x1234 2 [\<lparr>waited = 1, answer = Some (replicate 20 0 @ p, 3)\<rparr>] = Delay 2"
proof -
  have b: "bytes [1, 2, 3, 4, 5, 6, 7, 8]" by (simp add: bytes_def)
  show ?thesis
    using ping_packet_verifies[of "0x1234", OF _ _ b, where ip = "replicate 20 0" and to_time = "\<lambda>_. 1" and timeLeft = 2 and w = 1 and
        received = 3 and es = "[]"]
    by (simp del: receive_one_ping.simps) blast
qed

end
