(* ===== verification/SqlText.thy ===== *)
theory SqlText
  imports ExtendedBackend "HOL-Library.Char_ord"
begin

text \<open>
  The text of SQL conditions and statements, OPSI/Backend/SQL.py, with the ways MySQL.py and SQLite.py escape: filters and
  the identity of an object become conditions, objects become the values of a row.
\<close>

section \<open>Escaping\<close>

abbreviation backslash :: char where "backslash \<equiv> CHR 0x5C"
abbreviation apostrophe :: char where "apostrophe \<equiv> CHR 0x27"
abbreviation backquote :: char where "backquote \<equiv> CHR 0x60"

record dialect =
  ESCAPED_BACKSLASH :: string
  ESCAPED_APOSTROPHE :: string
  ESCAPED_UNDERSCORE :: string
  ESCAPED_PERCENT :: string
  ESCAPED_ASTERISK :: string
  ESCAPED_COLON :: string

definition mysql :: dialect where
  "mysql = \<lparr>ESCAPED_BACKSLASH = [backslash, backslash], ESCAPED_APOSTROPHE = [backslash, apostrophe],
     ESCAPED_UNDERSCORE = [backslash, CHR ''_''], ESCAPED_PERCENT = [backslash, CHR ''%''],
     ESCAPED_ASTERISK = [backslash, CHR ''*''], ESCAPED_COLON = [backslash, CHR '':'']\<rparr>"

definition sqlite :: dialect where
  "sqlite = \<lparr>ESCAPED_BACKSLASH = [backslash], ESCAPED_APOSTROPHE = [apostrophe, apostrophe],
     ESCAPED_UNDERSCORE = [backslash, CHR ''_''], ESCAPED_PERCENT = [backslash, CHR ''%''],
     ESCAPED_ASTERISK = [CHR ''*'', CHR ''*''], ESCAPED_COLON = [backslash, CHR '':'']\<rparr>"

definition escapeBackslash :: "dialect \<Rightarrow> string \<Rightarrow> string" where
  "escapeBackslash d = replace_char backslash (ESCAPED_BACKSLASH d)"

definition escapeApostrophe :: "dialect \<Rightarrow> string \<Rightarrow> string" where
  "escapeApostrophe d = replace_char apostrophe (ESCAPED_APOSTROPHE d)"

definition escapeUnderscore :: "dialect \<Rightarrow> string \<Rightarrow> string" where
  "escapeUnderscore d = replace_char (CHR ''_'') (ESCAPED_UNDERSCORE d)"

definition escapePercent :: "dialect \<Rightarrow> string \<Rightarrow> string" where
  "escapePercent d = replace_char (CHR ''%'') (ESCAPED_PERCENT d)"

definition escapeColon :: "dialect \<Rightarrow> string \<Rightarrow> string" where
  "escapeColon d = replace_char (CHR '':'') (ESCAPED_COLON d)"

definition sql_escape :: "dialect \<Rightarrow> string \<Rightarrow> string" where
  "sql_escape d v = escapeApostrophe d (escapeBackslash d (escapeColon d v))"

definition quoted :: "string \<Rightarrow> string" where
  "quoted v = apostrophe # v @ [apostrophe]"

definition backquoted :: "string \<Rightarrow> string" where
  "backquoted v = backquote # v @ [backquote]"

section \<open>Conditions from filters\<close>

definition column :: "string option \<Rightarrow> string \<Rightarrow> string" where
  "column table key = (case table of None \<Rightarrow> backquoted key | Some t \<Rightarrow> backquoted t @ ''.'' @ backquoted key)"

text \<open>\<open>_OPERATOR_IN_CONDITION_PATTERN\<close>, \<open>^\s*([>=<]+)\s*(\d\.?\d*)\<close>: the operator and the number.\<close>

definition is_digit :: "char \<Rightarrow> bool" where
  "is_digit c \<longleftrightarrow> CHR ''0'' \<le> c \<and> c \<le> CHR ''9''"

definition operator_in_condition :: "string \<Rightarrow> (string \<times> string) option" where
  "operator_in_condition v =
     (let r = dropWhile is_space v;
          isop = (\<lambda>c. c \<in> {CHR ''>'', CHR ''='', CHR ''<''});
          op = takeWhile isop r
      in if op = [] then None
         else case dropWhile is_space (dropWhile isop r) of
                [] \<Rightarrow> None
              | c # s \<Rightarrow>
                  if \<not> is_digit c then None
                  else let (dot, s) = (if s \<noteq> [] \<and> hd s = CHR ''.'' then (''.'', tl s) else ([], s))
                       in Some (op, c # dot @ takeWhile is_digit s))"

text \<open>
  An escaped asterisk is kept apart from the rest of the value, by a character that no value has; here the value is the list of the
  parts between escaped asterisks.
\<close>

function split_str :: "string \<Rightarrow> string \<Rightarrow> string list" where
  "split_str p s =
     (if s = [] \<or> p = [] then [s]
      else if startswith s p then [] # split_str p (drop (length p) s)
      else (case split_str p (tl s) of [] \<Rightarrow> [[hd s]] | q # qs \<Rightarrow> (hd s # q) # qs))"
  by pat_completeness auto
termination by (relation "measure (\<lambda>(p, s). length s)") (auto simp: neq_Nil_conv)

declare split_str.simps [simp del]

definition join_str :: "string \<Rightarrow> string list \<Rightarrow> string" where
  "join_str p ss = (case ss of [] \<Rightarrow> [] | q # qs \<Rightarrow> q @ concat (map (\<lambda>r. p @ r) qs))"

definition text_condition :: "dialect \<Rightarrow> string \<Rightarrow> string \<Rightarrow> string" where
  "text_condition d key v =
     (let parts = map (sql_escape d) (split_str (ESCAPED_ASTERISK d) v)
      in case operator_in_condition (hd parts) of
           Some (op, n) \<Rightarrow> key @ '' '' @ op @ '' '' @ n
         | None \<Rightarrow>
             if list_ex (\<lambda>p. CHR ''*'' \<in> set p) parts
             then key @ '' LIKE '' @ quoted (join_str (ESCAPED_ASTERISK d)
                    (map (\<lambda>p. replace_char (CHR ''*'') ''%'' (escapeUnderscore d (escapePercent d p))) parts))
             else key @ '' = '' @ quoted (join_str (ESCAPED_ASTERISK d) parts))"

definition value_condition :: "dialect \<Rightarrow> lib \<Rightarrow> string \<Rightarrow> json \<Rightarrow> (backend_error, string) result" where
  "value_condition d L key v =
     (case v of
        JBool b \<Rightarrow> Inr (key @ (if b then '' = 1'' else '' = 0''))
      | JInt _ \<Rightarrow> Inr (key @ '' = '' @ forceUnicode L v)
      | JRat _ \<Rightarrow> Inr (key @ '' = '' @ forceUnicode L v)
      | JNull \<Rightarrow> Inr (key @ '' is NULL'')
      | JStr s \<Rightarrow> Inr (text_condition d key s)
      | _ \<Rightarrow> Inl OtherError)"

definition escaped_string :: "dialect \<Rightarrow> json \<Rightarrow> (backend_error, string) result" where
  "escaped_string d v = (case v of JStr s \<Rightarrow> Inr (quoted (sql_escape d s)) | _ \<Rightarrow> Inl OtherError)"

definition key_condition :: "dialect \<Rightarrow> lib \<Rightarrow> string option \<Rightarrow> string \<times> json \<Rightarrow> (backend_error, string list) result" where
  "key_condition d L table = (\<lambda>(key, v).
     if v = JNull then Inr []
     else let vs = forceList v
          in if vs = [] then Inr []
             else if 10 < length vs \<and> (case hd vs of JStr _ \<Rightarrow> True | _ \<Rightarrow> False)
             then bindE (mapE (escaped_string d) vs) (\<lambda>es. Inr [column table key @ '' in ('' @ join_str '','' es @ '')''])
             else bindE (mapE (value_condition d L (column table key)) vs) (\<lambda>cs. Inr [join_str '' or '' cs]))"

definition filterToSql :: "dialect \<Rightarrow> lib \<Rightarrow> string option \<Rightarrow> hash \<Rightarrow> (backend_error, string) result" where
  "filterToSql d L table f =
     bindE (mapE (key_condition d L table) f) (\<lambda>cs.
       Inr (join_str '' and '' (map (\<lambda>c. ''('' @ c @ '')'') (concat cs))))"

section \<open>Statements\<close>

text \<open>A statement by its parts, and its text; bound values are named by their column.\<close>

datatype statement =
    Select "string list" string string
  | InsertInto string hash
  | UpdateSet string "string list" string hash
  | DeleteFrom string string

fun statement_text :: "statement \<Rightarrow> string" where
  "statement_text (Select as table condition) =
     ''select '' @ (if as = [] then ''*'' else join_str '','' (map backquoted as)) @ '' from '' @ backquoted table @
     (if condition = [] then [] else '' where '' @ condition)"
| "statement_text (InsertInto table h) =
     ''INSERT INTO '' @ backquoted table @ '' ('' @ join_str '','' (map (backquoted \<circ> fst) h) @ '') VALUES ('' @
     join_str '','' (map (\<lambda>kv. '':'' @ fst kv) h) @ '')''"
| "statement_text (UpdateSet table ks condition h) =
     ''UPDATE '' @ backquoted table @ '' SET '' @ join_str '','' (map (\<lambda>k. backquoted k @ '' = :'' @ k) ks) @ '' WHERE '' @ condition"
| "statement_text (DeleteFrom table condition) = ''DELETE FROM '' @ backquoted table @ '' WHERE '' @ condition"

definition createQuery :: "dialect \<Rightarrow> lib \<Rightarrow> string \<Rightarrow> string list \<Rightarrow> hash \<Rightarrow> (backend_error, statement) result" where
  "createQuery d L table as f = bindE (filterToSql d L None f) (\<lambda>c. Inr (Select as table c))"

definition sql_insert :: "string \<Rightarrow> hash \<Rightarrow> (backend_error, statement) result" where
  "sql_insert table h = (if h = [] then Inl BackendBadValueError else Inr (InsertInto table h))"

definition sql_update :: "string \<Rightarrow> string \<Rightarrow> hash \<Rightarrow> bool \<Rightarrow> (backend_error, statement) result" where
  "sql_update table condition h updateWhereNone =
     (if h = [] then Inl BackendBadValueError
      else Inr (UpdateSet table (map fst (filter (\<lambda>(k, v). v \<noteq> JNull \<or> updateWhereNone) h)) condition h))"

definition sql_delete :: "string \<Rightarrow> string \<Rightarrow> statement" where
  "sql_delete table condition = DeleteFrom table condition"

definition onlyAllowSelect :: "string \<Rightarrow> (backend_error, unit) result" where
  "onlyAllowSelect query =
     (if list_ex (startswith (strip (lower query))) [''select'', ''show'', ''pragma''] then Inr () else Inl ValueError)"

section \<open>Objects and rows\<close>

text \<open>What is used of the classes of opsicommon.\<close>

record classes =
  possibleAttributes :: "string \<Rightarrow> string list"
  mandatoryArgs :: "string \<Rightarrow> string list"
  subClassNames :: "string \<Rightarrow> string list"
  isSubclass :: "string \<Rightarrow> string \<Rightarrow> bool"
  cutText :: "string \<Rightarrow> string"

definition objectAttributeToDatabaseAttribute :: "classes \<Rightarrow> string \<Rightarrow> string \<Rightarrow> string" where
  "objectAttributeToDatabaseAttribute C cls a =
     (if a = ''id''
      then (if isSubclass C cls ''Product'' then ''productId''
            else if isSubclass C cls ''Host'' then ''hostId''
            else if isSubclass C cls ''Group'' then ''groupId''
            else if isSubclass C cls ''Config'' then ''configId''
            else if isSubclass C cls ''LicenseContract'' then ''licenseContractId''
            else if isSubclass C cls ''SoftwareLicense'' then ''softwareLicenseId''
            else if isSubclass C cls ''LicensePool'' then ''licensePoolId'' else a)
      else a)"

definition rename_key :: "string \<Rightarrow> string \<Rightarrow> hash \<Rightarrow> hash" where
  "rename_key k k' h = (case map_of h k of Some v \<Rightarrow> AList.delete k (AList.update k' v h) | None \<Rightarrow> h)"

text \<open>The attributes asked for, with those the constructor needs.\<close>

definition needed_attributes :: "classes \<Rightarrow> string \<Rightarrow> string list \<Rightarrow> string list" where
  "needed_attributes C cls as =
     (if as = [] then []
      else let as = (if isSubclass C cls ''Entity'' \<and> ''type'' \<notin> set as then as @ [''type''] else as)
           in foldl (\<lambda>as a. if a \<in> set as then as else as @ [a]) as
                (map (objectAttributeToDatabaseAttribute C cls) (concat (map (mandatoryArgs C) (cls # subClassNames C cls)))))"

definition adjustAttributes :: "classes \<Rightarrow> string \<Rightarrow> string list \<Rightarrow> hash \<Rightarrow> (backend_error, string list \<times> hash) result" where
  "adjustAttributes C cls as f =
     (if list_ex (\<lambda>a. a \<notin> set (possibleAttributes C cls)) as \<or> list_ex (\<lambda>(a, v). a \<notin> set (possibleAttributes C cls)) f
      then Inl ValueError
      else let i = objectAttributeToDatabaseAttribute C cls ''id'';
               f = rename_key ''id'' i f;
               as = (if ''id'' \<in> set as then remove1 ''id'' as @ [i] else as);
               f = (case map_of f ''type'' of
                      Some v \<Rightarrow> if JStr cls \<in> set (forceList v) then AList.update ''type'' JNull f else f
                    | None \<Rightarrow> f)
           in Inr (needed_attributes C cls as, f))"

definition adjustResult :: "classes \<Rightarrow> string \<Rightarrow> hash \<Rightarrow> hash" where
  "adjustResult C cls row = rename_key (objectAttributeToDatabaseAttribute C cls ''id'') ''id'' row"

text \<open>A changelog that is no text has no \<open>encode\<close>.\<close>

definition objectToDatabaseHash :: "classes \<Rightarrow> obj \<Rightarrow> (backend_error, hash) result" where
  "objectToDatabaseHash C ob =
     (let h = o_hash ob;
          h = (if o_class ob = ''ProductOnClient'' then AList.delete ''actionSequence'' h else h)
      in bindE (if isSubclass C (o_class ob) ''Product''
                then (case map_of h ''changelog'' of
                        None \<Rightarrow> Inr h
                      | Some (JStr s) \<Rightarrow> Inr (AList.update ''changelog'' (JStr (cutText C s)) h)
                      | Some _ \<Rightarrow> Inl OtherError)
                else Inr h) (\<lambda>h.
           let h = (if isSubclass C (o_class ob) ''Relationship'' then AList.delete ''type'' h else h)
           in Inr (foldl (\<lambda>h k. let k' = objectAttributeToDatabaseAttribute C (o_class ob) k in if k \<noteq> k' then rename_key k k' h else h) h (map fst h))))"

text \<open>The condition that identifies an object by the arguments of its constructor.\<close>

definition argument_condition :: "dialect \<Rightarrow> lib \<Rightarrow> classes \<Rightarrow> obj \<Rightarrow> string \<Rightarrow> (backend_error, string list) result" where
  "argument_condition d L C ob a =
     (let v = attr ob a;
          key = backquoted (objectAttributeToDatabaseAttribute C (o_class ob) a)
      in case v of
           JNull \<Rightarrow> Inr []
         | JBool b \<Rightarrow> Inr [key @ (if b then '' = 1'' else '' = 0'')]
         | JInt _ \<Rightarrow> Inr [key @ '' = '' @ forceUnicode L v]
         | JRat _ \<Rightarrow> Inr [key @ '' = '' @ forceUnicode L v]
         | JStr s \<Rightarrow> Inr [key @ '' = '' @ quoted (sql_escape d s)]
         | _ \<Rightarrow> Inl OtherError)"

definition uniqueCondition :: "dialect \<Rightarrow> lib \<Rightarrow> classes \<Rightarrow> obj \<Rightarrow> (backend_error, string) result" where
  "uniqueCondition d L C ob =
     bindE (mapE (argument_condition d L C ob) (mandatoryArgs C (o_class ob))) (\<lambda>cs.
       Inr (join_str '' and '' (concat cs @
         (if isSubclass C (o_class ob) ''HostGroup'' \<or> isSubclass C (o_class ob) ''ProductGroup''
          then [''`type` = '' @ quoted (o_class ob)] else []))))"

end
