(* ===== verification/SqlEngine.thy ===== *)
theory SqlEngine
  imports SqlText "HOL-Library.Multiset"
begin

text \<open>
  A reference for what the databases do with the conditions and statements of SqlText: how SQLAlchemy passes colons on, how
  the two databases read names and quoted texts, what a condition says of a row, and what a statement does to
  tables. Only the fragment of the language the code writes has a meaning here; the collation of the database is
  the relation \<open>eq\<close> on texts.
\<close>

section \<open>Reading a condition\<close>

text \<open>A colon that is not escaped names a bound parameter, which a condition has none of.\<close>

fun unescape_colons :: "string \<Rightarrow> string option" where
  "unescape_colons [] = Some []"
| "unescape_colons (c # s) =
     (if c = backslash \<and> s \<noteq> [] \<and> hd s = CHR '':'' then map_option ((#) (CHR '':'')) (unescape_colons (tl s))
      else if c = CHR '':'' then None else map_option ((#) c) (unescape_colons s))"

text \<open>The character an escape sequence of MySQL stands for; the escaped wildcards of patterns keep their backslash.\<close>

definition mysql_escape :: "char \<Rightarrow> string" where
  "mysql_escape c =
     (if c = CHR ''0'' then [CHR 0x00] else if c = CHR ''b'' then [CHR 0x08] else if c = CHR ''n'' then [CHR 0x0A]
      else if c = CHR ''r'' then [CHR 0x0D] else if c = CHR ''t'' then [CHR 0x09] else if c = CHR ''Z'' then [CHR 0x1A]
      else if c = CHR ''%'' \<or> c = CHR ''_'' then [backslash, c] else [c])"

text \<open>A quoted text after its opening quote: the text and the rest. Backslashes escape in MySQL only.\<close>

function read_literal :: "bool \<Rightarrow> string \<Rightarrow> (string \<times> string) option" where
  "read_literal b [] = None"
| "read_literal b (c # s) =
     (if c = apostrophe
      then (if s \<noteq> [] \<and> hd s = apostrophe then map_option (apfst ((#) apostrophe)) (read_literal b (tl s)) else Some ([], s))
      else if b \<and> c = backslash
      then (case s of [] \<Rightarrow> None | x # s' \<Rightarrow> map_option (apfst ((@) (mysql_escape x))) (read_literal b s'))
      else map_option (apfst ((#) c)) (read_literal b s))"
  by pat_completeness auto
termination by (relation "measure (\<lambda>(b, s). length s)") auto

lemma map_apfst_Some: "map_option (apfst f) x = Some (v, r) \<longleftrightarrow> (\<exists>w. x = Some (w, r) \<and> v = f w)"
  by (cases x) auto

lemma read_literal_shorter: "read_literal b s = Some (v, r) \<Longrightarrow> length r < length s"
proof (induction b s arbitrary: v rule: read_literal.induct)
  case (2 b c s)
  consider (double) "c = apostrophe" "s \<noteq> [] \<and> hd s = apostrophe" | (last) "c = apostrophe" "\<not> (s \<noteq> [] \<and> hd s = apostrophe)"
    | (esc) "c \<noteq> apostrophe" "b \<and> c = backslash" | (plain) "c \<noteq> apostrophe" "\<not> (b \<and> c = backslash)" by blast
  then show ?case
  proof cases
    case double
    then obtain w where "read_literal b (tl s) = Some (w, r)" using 2(4) by (auto simp: map_apfst_Some)
    from 2(1)[OF double(1) double(2) this] show ?thesis using double(2) by (cases s) simp_all
  next
    case last
    then show ?thesis using 2(4) by auto
  next
    case esc
    then obtain x s' where s: "s = x # s'" using 2(4) by (cases s) auto
    then obtain w where w: "read_literal b s' = Some (w, r)" using 2(4) esc by (auto simp: map_apfst_Some)
    from 2(2)[OF esc(1) esc(2) s w] show ?thesis by (simp add: s)
  next
    case plain
    then obtain w where w: "read_literal b s = Some (w, r)" using 2(4) by (auto simp: map_apfst_Some)
    from 2(3)[OF plain(1) plain(2) w] show ?thesis by simp
  qed
qed simp

datatype token = Name string | Text string | Word string | Sym char

definition is_word :: "char \<Rightarrow> bool" where
  "is_word c \<longleftrightarrow> is_digit c \<or> c \<le> CHR ''z'' \<and> CHR ''a'' \<le> c \<or> c \<le> CHR ''Z'' \<and> CHR ''A'' \<le> c \<or> c = CHR ''_''"

function lex :: "bool \<Rightarrow> string \<Rightarrow> token list option" where
  "lex b [] = Some []"
| "lex b (c # s) =
     (if c = CHR '' '' then lex b s
      else if c = backquote
      then (case dropWhile (\<lambda>x. x \<noteq> backquote) s of
              [] \<Rightarrow> None | _ # r \<Rightarrow> map_option ((#) (Name (takeWhile (\<lambda>x. x \<noteq> backquote) s))) (lex b r))
      else if c = apostrophe
      then (case read_literal b s of None \<Rightarrow> None | Some (v, r) \<Rightarrow> map_option ((#) (Text v)) (lex b r))
      else if is_word c
      then map_option ((#) (Word (lower (c # takeWhile is_word s)))) (lex b (dropWhile is_word s))
      else map_option ((#) (Sym c)) (lex b s))"
  by pat_completeness auto
termination
  apply (relation "measure (\<lambda>(b, s). length s)")
       apply (auto dest: read_literal_shorter simp: less_Suc_eq_le length_dropWhile_le)
  subgoal for s r
    using length_dropWhile_le[of "\<lambda>x. x \<noteq> backquote" s] by simp
  done

section \<open>What a condition says of a row\<close>

definition col :: "hash \<Rightarrow> string \<Rightarrow> json" where
  "col row k = (case map_of row k of Some v \<Rightarrow> v | None \<Rightarrow> JNull)"

definition text_eq :: "(string \<Rightarrow> string \<Rightarrow> bool) \<Rightarrow> json \<Rightarrow> string \<Rightarrow> bool" where
  "text_eq eq c v = (case c of JStr s \<Rightarrow> eq s v | _ \<Rightarrow> False)"

definition number_eq :: "json \<Rightarrow> string \<Rightarrow> bool" where
  "number_eq c n = (case c of JBool b \<Rightarrow> val_digits n = (if b then 1 else 0) | JInt i \<Rightarrow> i = int (val_digits n) | _ \<Rightarrow> False)"

fun text_list :: "token list \<Rightarrow> string list option" where
  "text_list [Text v, Sym c] = (if c = CHR '')'' then Some [v] else None)"
| "text_list (Text v # Sym c # ts) = (if c = CHR '','' then map_option ((#) v) (text_list ts) else None)"
| "text_list _ = None"

definition atom_meaning :: "(string \<Rightarrow> string \<Rightarrow> bool) \<Rightarrow> token list \<Rightarrow> (hash \<Rightarrow> bool) option" where
  "atom_meaning eq ts =
     (case ts of
        [Name k, Sym c, Text v] \<Rightarrow> if c = CHR ''='' then Some (\<lambda>row. text_eq eq (col row k) v) else None
      | [Name k, Sym c, Word n] \<Rightarrow> if c = CHR ''='' \<and> list_all is_digit n then Some (\<lambda>row. number_eq (col row k) n) else None
      | [Name k, Word a, Word b] \<Rightarrow> if a = ''is'' \<and> b = ''null'' then Some (\<lambda>row. col row k = JNull) else None
      | Name k # Word a # Sym c # vs \<Rightarrow>
          if a = ''in'' \<and> c = CHR ''('' then map_option (\<lambda>ws row. list_ex (text_eq eq (col row k)) ws) (text_list vs) else None
      | _ \<Rightarrow> None)"

text \<open>The parts of a condition between the occurrences of a word outside parentheses.\<close>

fun split_top :: "token \<Rightarrow> nat \<Rightarrow> token list \<Rightarrow> token list list" where
  "split_top t d [] = [[]]"
| "split_top t d (x # xs) =
     (if x = t \<and> d = 0 then [] # split_top t d xs
      else (case split_top t (if x = Sym (CHR ''('') then d + 1 else if x = Sym (CHR '')'') then d - 1 else d) xs of
              [] \<Rightarrow> [[x]] | q # qs \<Rightarrow> (x # q) # qs))"

fun meaning :: "(string \<Rightarrow> string \<Rightarrow> bool) \<Rightarrow> nat \<Rightarrow> token list \<Rightarrow> (hash \<Rightarrow> bool) option" where
  "meaning eq 0 ts = None"
| "meaning eq (Suc n) ts =
     (let os = split_top (Word ''or'') 0 ts; as = split_top (Word ''and'') 0 ts
      in if 1 < length os then map_option (\<lambda>ps row. list_ex (\<lambda>p. p row) ps) (those (map (meaning eq n) os))
         else if 1 < length as then map_option (\<lambda>ps row. list_all (\<lambda>p. p row) ps) (those (map (meaning eq n) as))
         else (case ts of
                 Sym c # r \<Rightarrow> if c = CHR ''('' \<and> r \<noteq> [] \<and> last r = Sym (CHR '')'') then meaning eq n (butlast r) else None
               | _ \<Rightarrow> atom_meaning eq ts))"

definition condition_meaning :: "bool \<Rightarrow> (string \<Rightarrow> string \<Rightarrow> bool) \<Rightarrow> string \<Rightarrow> (hash \<Rightarrow> bool) option" where
  "condition_meaning b eq s =
     Option.bind (unescape_colons s) (\<lambda>s. Option.bind (lex b s) (\<lambda>ts. meaning eq (length ts + 3) ts))"

section \<open>What a statement does\<close>

type_synonym tables = "string \<Rightarrow> hash list"

definition where_rows :: "bool \<Rightarrow> (string \<Rightarrow> string \<Rightarrow> bool) \<Rightarrow> string \<Rightarrow> (backend_error, hash \<Rightarrow> bool) result" where
  "where_rows b eq s = (case condition_meaning b eq s of None \<Rightarrow> Inl OtherError | Some p \<Rightarrow> Inr p)"

definition pick :: "string list \<Rightarrow> hash \<Rightarrow> hash" where
  "pick as row = (if as = [] then row else map (\<lambda>a. (a, col row a)) as)"

definition set_columns :: "string list \<Rightarrow> hash \<Rightarrow> hash \<Rightarrow> hash" where
  "set_columns ks h row = foldl (\<lambda>r k. AList.update k (col h k) r) row ks"

text \<open>The rows found, the number of rows a change has found, and the tables left behind.\<close>

fun run :: "bool \<Rightarrow> (string \<Rightarrow> string \<Rightarrow> bool) \<Rightarrow> statement \<Rightarrow> tables \<Rightarrow> (backend_error, hash list \<times> nat \<times> tables) result" where
  "run b eq (Select as t c) db =
     bindE (if c = [] then Inr (\<lambda>_. True) else where_rows b eq c) (\<lambda>p. Inr (map (pick as) (filter p (db t)), 0, db))"
| "run b eq (InsertInto t h) db = Inr ([], 1, db(t := db t @ [h]))"
| "run b eq (UpdateSet t ks c h) db =
     (if ks = [] then Inl OtherError
      else bindE (where_rows b eq c) (\<lambda>p.
             Inr ([], length (filter p (db t)), db(t := map (\<lambda>row. if p row then set_columns ks h row else row) (db t)))))"
| "run b eq (DeleteFrom t c) db =
     bindE (where_rows b eq c) (\<lambda>p. Inr ([], length (filter p (db t)), db(t := filter (\<lambda>row. \<not> p row) (db t))))"

text \<open>
  A database engine is a parameter; what is used of it: statements whose condition has a meaning find and change the
  rows the condition says, in any order. A condition without a meaning here leaves the engine free, and the reference is one such engine.
\<close>

definition sql_engine ::
  "bool \<Rightarrow> (string \<Rightarrow> string \<Rightarrow> bool) \<Rightarrow> (statement \<Rightarrow> tables \<Rightarrow> (backend_error, hash list \<times> nat \<times> tables) result) \<Rightarrow> bool" where
  "sql_engine b eq E \<longleftrightarrow>
     (\<forall>as t c p db. (if c = [] then p = (\<lambda>_. True) else condition_meaning b eq c = Some p) \<longrightarrow>
        (\<exists>rows n. E (Select as t c) db = Inr (rows, n, db) \<and> mset rows = mset (map (pick as) (filter p (db t))))) \<and>
     (\<forall>t h db. \<exists>rows n db'. E (InsertInto t h) db = Inr (rows, n, db') \<and> mset (db' t) = add_mset h (mset (db t)) \<and>
        (\<forall>u. u \<noteq> t \<longrightarrow> db' u = db u)) \<and>
     (\<forall>t c p db. condition_meaning b eq c = Some p \<longrightarrow>
        (\<exists>rows db'. E (DeleteFrom t c) db = Inr (rows, length (filter p (db t)), db') \<and>
           mset (db' t) = mset (filter (\<lambda>row. \<not> p row) (db t)) \<and> (\<forall>u. u \<noteq> t \<longrightarrow> db' u = db u)))"

lemma engine_select:
  assumes "sql_engine b eq E" and "if c = [] then p = (\<lambda>_. True) else condition_meaning b eq c = Some p"
  obtains rows n where "E (Select as t c) db = Inr (rows, n, db)" "mset rows = mset (map (pick as) (filter p (db t)))"
  using conjunct1[OF assms(1)[unfolded sql_engine_def], rule_format, of c p as t db] assms(2) by blast

lemma engine_insert:
  assumes "sql_engine b eq E"
  obtains rows n db' where "E (InsertInto t h) db = Inr (rows, n, db')" "mset (db' t) = add_mset h (mset (db t))"
    "\<And>u. u \<noteq> t \<Longrightarrow> db' u = db u"
  using conjunct1[OF conjunct2[OF assms[unfolded sql_engine_def]], rule_format, of t h db] by blast

lemma engine_delete:
  assumes "sql_engine b eq E" and "condition_meaning b eq c = Some p"
  obtains rows db' where "E (DeleteFrom t c) db = Inr (rows, length (filter p (db t)), db')"
    "mset (db' t) = mset (filter (\<lambda>row. \<not> p row) (db t))" "\<And>u. u \<noteq> t \<Longrightarrow> db' u = db u"
  using conjunct2[OF conjunct2[OF assms(1)[unfolded sql_engine_def]], rule_format, OF assms(2), of t db] by blast

lemma run_engine: "sql_engine b eq (run b eq)"
  by (auto simp: sql_engine_def where_rows_def)

end
