(* ===== verification/SqlConditions.thy ===== *)
theory SqlConditions
  imports SqlEngine
begin

text \<open>
  The conditions the SQL backend writes mean what they should: every text is read back as the one value it was, and a filter
  selects the rows it describes, in MySQL and in SQLite.
\<close>

section \<open>Quoted texts\<close>

definition dialect_of :: "bool \<Rightarrow> dialect" where
  "dialect_of b = (if b then mysql else sqlite)"

definition escaped_char :: "bool \<Rightarrow> char \<Rightarrow> string" where
  "escaped_char b c =
     (if b then (if c = backslash then [backslash, backslash] else if c = apostrophe then [backslash, apostrophe]
                 else if c = CHR '':'' then [backslash, backslash, CHR '':''] else [c])
      else (if c = apostrophe then [apostrophe, apostrophe] else if c = CHR '':'' then [backslash, CHR '':''] else [c]))"

text \<open>What is left when the colons are passed on.\<close>

definition passed_char :: "bool \<Rightarrow> char \<Rightarrow> string" where
  "passed_char b c =
     (if b then (if c = backslash then [backslash, backslash] else if c = apostrophe then [backslash, apostrophe]
                 else if c = CHR '':'' then [backslash, CHR '':''] else [c])
      else (if c = apostrophe then [apostrophe, apostrophe] else [c]))"

definition passed :: "bool \<Rightarrow> string \<Rightarrow> string" where
  "passed b v = concat (map (passed_char b) v)"

lemma replace_char_append: "replace_char c r (s @ t) = replace_char c r s @ replace_char c r t"
  by (simp add: replace_char_def)

lemma replace_char_Nil [simp]: "replace_char c r [] = []"
  by (simp add: replace_char_def)

lemma replace_char_single: "replace_char c r [x] = (if x = c then r else [x])"
  by (simp add: replace_char_def)

lemma sql_escape_append: "sql_escape d (s @ t) = sql_escape d s @ sql_escape d t"
  by (simp add: sql_escape_def escapeApostrophe_def escapeBackslash_def escapeColon_def replace_char_append)

lemma sql_escape_chars: "sql_escape (dialect_of b) v = concat (map (escaped_char b) v)"
proof (induction v)
  case (Cons c v)
  have "sql_escape (dialect_of b) [c] = escaped_char b c"
    by (simp add: sql_escape_def escapeApostrophe_def escapeBackslash_def escapeColon_def escaped_char_def dialect_of_def
        mysql_def sqlite_def replace_char_def)
  then show ?case using sql_escape_append[of "dialect_of b" "[c]" v] Cons by simp
qed (simp add: sql_escape_def escapeApostrophe_def escapeBackslash_def escapeColon_def)

lemma escaped_no_colon:
  assumes "r = [] \<or> hd r \<noteq> CHR '':''"
  shows "concat (map (escaped_char b) v) @ r = [] \<or> hd (concat (map (escaped_char b) v) @ r) \<noteq> CHR '':''"
  using assms by (cases v) (auto simp: escaped_char_def)

lemma append_fun_Cons: "(@) (a # p) = (\<lambda>x. a # p @ x)"
  by (rule ext) simp

lemma append_single [simp]: "(@) [x] = (#) x"
  by (rule ext) simp

lemma unescape_char:
  assumes "r = [] \<or> hd r \<noteq> CHR '':''"
  shows "unescape_colons (escaped_char b c @ r) = map_option ((@) (passed_char b c)) (unescape_colons r)"
proof -
  have p: "unescape_colons (x # r) = map_option ((#) x) (unescape_colons r)" if "x \<noteq> CHR '':''" for x
    using that assms by auto
  have two: "(@) [x, y] = (#) x \<circ> (#) y" for x y :: char by (rule ext) simp
  consider "c = backslash" | "c = apostrophe" | "c = CHR '':''" | "c \<noteq> backslash" "c \<noteq> apostrophe" "c \<noteq> CHR '':''" by blast
  then show ?thesis using assms
    by cases (auto simp: escaped_char_def passed_char_def p two option.map_comp simp del: unescape_colons.simps(2),
      auto simp: option.map_comp p comp_def)
qed

lemma unescape_escaped:
  assumes "r = [] \<or> hd r \<noteq> CHR '':''"
  shows "unescape_colons (sql_escape (dialect_of b) v @ r) = map_option ((@) (passed b v)) (unescape_colons r)"
  unfolding sql_escape_chars
proof (induction v)
  case (Cons c v)
  let ?r = "concat (map (escaped_char b) v) @ r"
  have n: "?r = [] \<or> hd ?r \<noteq> CHR '':''" by (rule escaped_no_colon[OF assms])
  have "unescape_colons (escaped_char b c @ ?r) = map_option ((@) (passed_char b c)) (unescape_colons ?r)"
    using n by (rule unescape_char)
  then show ?case using Cons by (simp add: passed_def option.map_comp comp_def)
qed (simp add: passed_def option.map_id[unfolded id_def] append_Nil[abs_def])

lemma read_passed:
  assumes "r = [] \<or> hd r \<noteq> apostrophe"
  shows "read_literal b (passed b v @ apostrophe # r) = Some (v, r)"
proof (induction v)
  case (Cons c v)
  have "read_literal b (passed_char b c @ s) = map_option (apfst ((#) c)) (read_literal b s)" if "s \<noteq> []" for s
    using that by (cases b) (auto simp: passed_char_def mysql_escape_def)
  from this[of "passed b v @ apostrophe # r"] show ?case using Cons by (simp add: passed_def)
qed (use assms in \<open>auto simp: passed_def\<close>)

section \<open>Pieces of a condition\<close>

text \<open>
  A piece of text that is read as some tokens whatever follows, as long as this does not continue a word or a quoted
  text; \<open>opens\<close> are the characters that do not.
\<close>

definition opens :: "string \<Rightarrow> bool" where
  "opens s \<longleftrightarrow> s = [] \<or> hd s \<in> {CHR '' '', CHR ''('', CHR '')'', CHR '','', backquote}"

definition reads :: "bool \<Rightarrow> string \<Rightarrow> token list \<Rightarrow> bool" where
  "reads b s ts \<longleftrightarrow> s \<noteq> [] \<and> opens s \<and> (\<exists>s'. s' \<noteq> [] \<and> hd s' = hd s \<and>
     (\<forall>r. opens r \<longrightarrow> unescape_colons (s @ r) = map_option ((@) s') (unescape_colons r) \<and> lex b (s' @ r) = map_option ((@) ts) (lex b r)))"

lemma reads_append:
  assumes "reads b s ts" and "reads b t us"
  shows "reads b (s @ t) (ts @ us)"
proof -
  obtain s' where s: "s \<noteq> []" "opens s" "s' \<noteq> []" "hd s' = hd s"
    "\<And>r. opens r \<Longrightarrow> unescape_colons (s @ r) = map_option ((@) s') (unescape_colons r) \<and> lex b (s' @ r) = map_option ((@) ts) (lex b r)"
    using assms(1) unfolding reads_def by blast
  obtain t' where t: "t \<noteq> []" "opens t" "t' \<noteq> []" "hd t' = hd t"
    "\<And>r. opens r \<Longrightarrow> unescape_colons (t @ r) = map_option ((@) t') (unescape_colons r) \<and> lex b (t' @ r) = map_option ((@) us) (lex b r)"
    using assms(2) unfolding reads_def by blast
  have o: "opens (t @ r)" "opens (t' @ r)" for r using t(1-4) by (auto simp: opens_def)
  show ?thesis unfolding reads_def
    by (intro conjI exI[of _ "s' @ t'"])
      (use s t o in \<open>auto simp: opens_def option.map_comp comp_def append_assoc[abs_def]\<close>)
qed

lemma lex_end: "lex b [] = Some []" "unescape_colons [] = Some []"
  by simp_all

lemma reads_condition:
  assumes "reads b s ts"
  shows "condition_meaning b eq s = meaning eq (length ts + 3) ts"
proof -
  obtain s' where "unescape_colons (s @ []) = map_option ((@) s') (unescape_colons [])" "lex b (s' @ []) = map_option ((@) ts) (lex b [])"
    using assms unfolding reads_def opens_def by blast
  then show ?thesis by (simp add: condition_meaning_def)
qed

text \<open>Plain text passes through.\<close>

definition plain_text :: "string \<Rightarrow> bool" where
  "plain_text s \<longleftrightarrow> CHR '':'' \<notin> set s \<and> backslash \<notin> set s"

lemma unescape_plain: "plain_text p \<Longrightarrow> unescape_colons (p @ s) = map_option ((@) p) (unescape_colons s)"
  by (induction p) (auto simp: plain_text_def option.map_comp comp_def option.map_id[unfolded id_def] append_Nil[abs_def] append_fun_Cons)

lemma readsI:
  assumes "plain_text s" and "s \<noteq> []" and "opens s" and "\<And>r. opens r \<Longrightarrow> lex b (s @ r) = map_option ((@) ts) (lex b r)"
  shows "reads b s ts"
  unfolding reads_def using assms unescape_plain[OF assms(1)] by (intro conjI exI[of _ s]) auto

lemma opens_word: "opens r \<Longrightarrow> takeWhile is_word r = [] \<and> dropWhile is_word r = r"
  by (cases r) (auto simp: opens_def is_word_def is_digit_def less_eq_char_def)

lemma reads_word:
  assumes "w \<noteq> []" and "list_all is_word w"
  shows "reads b (CHR '' '' # w) [Word (lower w)]" "reads b (CHR '' '' # w @ '' '') [Word (lower w)]"
proof -
  have pw: "plain_text w" using assms(2) by (auto simp: plain_text_def list_all_iff is_word_def is_digit_def less_eq_char_def)
  have w: "takeWhile is_word (w @ r) = w @ takeWhile is_word r" "dropWhile is_word (w @ r) = dropWhile is_word r" for r
    using assms(2) by (induction w) simp_all
  have sp: "\<not> is_word (CHR '' '')" by (simp add: is_word_def is_digit_def less_eq_char_def)
  obtain c w' where c: "w = c # w'" "is_word c" using assms by (cases w) auto
  have "c \<noteq> CHR '' ''" "c \<noteq> backquote" "c \<noteq> apostrophe" using c(2) by (auto simp: is_word_def is_digit_def less_eq_char_def)
  then have l: "lex b (w @ r) = map_option ((#) (Word (lower (w @ takeWhile is_word r)))) (lex b (dropWhile is_word r))" for r
    using w[of r] c by simp
  have r1: "lex b ((CHR '' '' # w) @ r) = map_option ((@) [Word (lower w)]) (lex b r)" if "opens r" for r
    using opens_word[OF that] by (simp only: append_Cons lex.simps(2)[of b "CHR '' ''"] if_True simp_thms l) simp
  have r2: "lex b ((CHR '' '' # w @ '' '') @ r) = map_option ((@) [Word (lower w)]) (lex b r)" for r
  proof -
    have "lex b ((CHR '' '' # w @ '' '') @ r) = lex b (w @ CHR '' '' # r)" by simp
    also have "\<dots> = map_option ((#) (Word (lower w))) (lex b (CHR '' '' # r))" unfolding l using sp by simp
    finally show ?thesis by simp
  qed
  show "reads b (CHR '' '' # w) [Word (lower w)]"
    by (rule readsI[OF _ _ _ r1]) (use pw in \<open>simp_all add: plain_text_def opens_def\<close>)
  show "reads b (CHR '' '' # w @ '' '') [Word (lower w)]"
    by (rule readsI[OF _ _ _ r2]) (use pw in \<open>simp_all add: plain_text_def opens_def\<close>)
qed

lemma reads_sym:
  assumes "c = CHR ''('' \<or> c = CHR '')'' \<or> c = CHR '',''"
  shows "reads b [c] [Sym c]"
proof -
  have w: "\<not> is_word c" "c \<noteq> CHR '' ''" "c \<noteq> backquote" "c \<noteq> apostrophe" "c \<noteq> CHR '':''" "c \<noteq> backslash"
    using assms by (auto simp: is_word_def is_digit_def less_eq_char_def)
  have l: "lex b ([c] @ r) = map_option ((@) [Sym c]) (lex b r)" for r using w(1-4) by simp
  show ?thesis by (rule readsI[OF _ _ _ l]) (use assms w(5,6) in \<open>auto simp: plain_text_def opens_def\<close>)
qed

text \<open>A name in backquotes, and a comparison with a text.\<close>

definition plain_column :: "string \<Rightarrow> bool" where
  "plain_column k \<longleftrightarrow> plain_text k \<and> backquote \<notin> set k"

lemma lex_name: "backquote \<notin> set k \<Longrightarrow> lex b (backquoted k @ r) = map_option ((#) (Name k)) (lex b r)"
proof -
  assume "backquote \<notin> set k"
  then have "dropWhile (\<lambda>x. x \<noteq> backquote) (k @ backquote # r) = backquote # r"
    "takeWhile (\<lambda>x. x \<noteq> backquote) (k @ backquote # r) = k" by (induction k) auto
  then show ?thesis by (simp add: backquoted_def)
qed

lemma reads_name: "plain_column k \<Longrightarrow> reads b (backquoted k) [Name k]"
  by (rule readsI) (auto simp: plain_column_def plain_text_def backquoted_def opens_def lex_name[unfolded backquoted_def, simplified])

lemma lex_text: "opens r \<Longrightarrow> lex b (apostrophe # passed b v @ apostrophe # r) = map_option ((#) (Text v)) (lex b r)"
  using read_passed[of r b v] by (auto simp: opens_def)

lemma fuse:
  "map_option ((@) a) (map_option ((@) c) x) = map_option ((@) (a @ c)) x"
  "map_option ((#) y) (map_option ((@) c) x) = map_option ((@) (y # c)) x"
  "map_option ((@) a) (map_option ((#) y) x) = map_option ((@) (a @ [y])) x"
  "map_option ((#) y) (map_option ((#) z) x) = map_option ((@) [y, z]) x"
  by (cases x; simp)+

lemma unescape_quoted:
  "unescape_colons (quoted (sql_escape (dialect_of b) v) @ r) = map_option ((@) (apostrophe # passed b v @ [apostrophe])) (unescape_colons r)"
proof -
  have a: "unescape_colons (apostrophe # s) = map_option ((#) apostrophe) (unescape_colons s)" for s by simp
  have "unescape_colons (quoted (sql_escape (dialect_of b) v) @ r) =
      map_option ((#) apostrophe) (unescape_colons (sql_escape (dialect_of b) v @ apostrophe # r))"
    unfolding quoted_def append_Cons append_assoc append_Nil by (rule a)
  also have "\<dots> = map_option ((#) apostrophe) (map_option ((@) (passed b v)) (map_option ((#) apostrophe) (unescape_colons r)))"
    by (subst unescape_escaped) (simp, simp only: a)
  finally show ?thesis by (simp add: fuse)
qed

lemma lex_equals: "lex b ('' = '' @ r) = map_option ((#) (Sym (CHR ''=''))) (lex b r)"
  by (simp add: is_word_def is_digit_def less_eq_char_def)

lemma reads_text_eq:
  assumes "plain_column k"
  shows "reads b (backquoted k @ '' = '' @ quoted (sql_escape (dialect_of b) v)) [Name k, Sym (CHR ''=''), Text v]"
  unfolding reads_def
proof (intro conjI exI[of _ "backquoted k @ '' = '' @ apostrophe # passed b v @ [apostrophe]"] allI impI)
  fix r assume r: "opens r"
  let ?p = "backquoted k @ '' = ''"
  have p: "plain_text ?p" using assms by (auto simp: plain_column_def plain_text_def backquoted_def)
  show "unescape_colons ((backquoted k @ '' = '' @ quoted (sql_escape (dialect_of b) v)) @ r) =
      map_option ((@) (backquoted k @ '' = '' @ apostrophe # passed b v @ [apostrophe])) (unescape_colons r)"
    using unescape_plain[OF p, of "quoted (sql_escape (dialect_of b) v) @ r"] unescape_quoted[of b v r]
    by (simp add: fuse)
  show "lex b ((backquoted k @ '' = '' @ apostrophe # passed b v @ [apostrophe]) @ r) =
      map_option ((@) [Name k, Sym (CHR ''=''), Text v]) (lex b r)"
    using lex_name[of k b "'' = '' @ apostrophe # passed b v @ apostrophe # r"] lex_equals[of b "apostrophe # passed b v @ apostrophe # r"]
      lex_text[OF r, of b v] assms
    by (simp add: plain_column_def fuse del: lex.simps)
qed (simp_all add: backquoted_def opens_def)

lemma reads_equals: "reads b '' ='' [Sym (CHR ''='')]"
proof -
  have "lex b ('' ='' @ r) = map_option ((@) [Sym (CHR ''='')]) (lex b r)" for r
    by (simp add: is_word_def is_digit_def less_eq_char_def)
  then show ?thesis by (intro readsI) (simp_all add: plain_text_def opens_def)
qed

lemma reads_number_eq:
  assumes "plain_column k" and "n \<noteq> []" and "list_all is_word n"
  shows "reads b (backquoted k @ '' = '' @ n) [Name k, Sym (CHR ''=''), Word (lower n)]"
  using reads_append[OF reads_name[OF assms(1)] reads_append[OF reads_equals reads_word(1)[OF assms(2,3)]]] by simp

lemma reads_null:
  assumes "plain_column k"
  shows "reads b (backquoted k @ '' is NULL'') [Name k, Word ''is'', Word ''null'']"
proof -
  have w: "list_all is_word ''is''" "list_all is_word ''NULL''" by (simp_all add: is_word_def is_digit_def less_eq_char_def)
  have l: "lower ''is'' = ''is''" "lower ''NULL'' = ''null''" by code_simp+
  show ?thesis
    using reads_append[OF reads_name[OF assms] reads_append[OF reads_word(1)[OF _ w(1)] reads_word(1)[OF _ w(2)]], of b] by (simp add: l)
qed

text \<open>The list of texts a column is compared with.\<close>

fun text_tokens :: "string list \<Rightarrow> token list" where
  "text_tokens [] = []"
| "text_tokens [v] = [Text v, Sym (CHR '')'')]"
| "text_tokens (v # vs) = Text v # Sym (CHR '','') # text_tokens vs"

lemma text_list_tokens: "vs \<noteq> [] \<Longrightarrow> text_list (text_tokens vs) = Some vs"
proof (induction vs rule: text_tokens.induct)
  case (3 v w ws)
  then show ?case by (cases ws) simp_all
qed simp_all

lemma join_Cons: "join_str p (x # y # ys) = x @ p @ join_str p (y # ys)"
  by (simp add: join_str_def)

lemma reads_texts:
  assumes "vs \<noteq> []"
  shows "\<exists>s'. s' \<noteq> [] \<and> (\<forall>r. unescape_colons (join_str '','' (map (\<lambda>v. quoted (sql_escape (dialect_of b) v)) vs) @ CHR '')'' # r) =
      map_option ((@) s') (unescape_colons r) \<and> lex b (s' @ r) = map_option ((@) (text_tokens vs)) (lex b r))"
  using assms
proof (induction vs rule: text_tokens.induct)
  case (2 v)
  have c: "lex b (CHR '')'' # r) = map_option ((#) (Sym (CHR '')''))) (lex b r)" "unescape_colons (CHR '')'' # r) = map_option ((#) (CHR '')'')) (unescape_colons r)" for r
    by (simp_all add: is_word_def is_digit_def less_eq_char_def)
  have o: "opens (CHR '')'' # r)" for r by (simp add: opens_def)
  let ?s = "(apostrophe # passed b v @ [apostrophe]) @ '')''"
  have j: "join_str '','' (map (\<lambda>v. quoted (sql_escape (dialect_of b) v)) [v]) = quoted (sql_escape (dialect_of b) v)"
    by (simp add: join_str_def)
  have u: "unescape_colons (join_str '','' (map (\<lambda>v. quoted (sql_escape (dialect_of b) v)) [v]) @ CHR '')'' # r) = map_option ((@) ?s) (unescape_colons r)" for r
    unfolding j unescape_quoted c(2) fuse ..
  have l: "lex b (?s @ r) = map_option ((@) (text_tokens [v])) (lex b r)" for r
  proof -
    have "lex b (?s @ r) = lex b (apostrophe # passed b v @ apostrophe # CHR '')'' # r)" by (simp del: lex.simps)
    then show ?thesis unfolding lex_text[OF o] c(1) fuse by simp
  qed
  show ?case by (intro exI[of _ ?s] conjI allI u l) simp
next
  case (3 v w ws)
  obtain s' where s': "s' \<noteq> []" "\<And>r. unescape_colons (join_str '','' (map (\<lambda>v. quoted (sql_escape (dialect_of b) v)) (w # ws)) @ CHR '')'' # r) =
      map_option ((@) s') (unescape_colons r)" "\<And>r. lex b (s' @ r) = map_option ((@) (text_tokens (w # ws))) (lex b r)"
    using 3 by auto
  have c: "lex b (CHR '','' # r) = map_option ((#) (Sym (CHR '',''))) (lex b r)" "unescape_colons (CHR '','' # r) = map_option ((#) (CHR '','')) (unescape_colons r)" for r
    by (simp_all add: is_word_def is_digit_def less_eq_char_def)
  have o: "opens (CHR '','' # r)" for r by (simp add: opens_def)
  let ?s = "(apostrophe # passed b v @ [apostrophe]) @ CHR '','' # s'"
  have "unescape_colons (join_str '','' (map (\<lambda>v. quoted (sql_escape (dialect_of b) v)) (v # w # ws)) @ CHR '')'' # r) =
      unescape_colons (quoted (sql_escape (dialect_of b) v) @ CHR '','' # (join_str '','' (map (\<lambda>v. quoted (sql_escape (dialect_of b) v)) (w # ws)) @ CHR '')'' # r))" for r
    by (simp add: join_Cons del: unescape_colons.simps)
  then have u: "unescape_colons (join_str '','' (map (\<lambda>v. quoted (sql_escape (dialect_of b) v)) (v # w # ws)) @ CHR '')'' # r) =
      map_option ((@) ?s) (unescape_colons r)" for r
    unfolding unescape_quoted c(2) s'(2) fuse .
  have l: "lex b (?s @ r) = map_option ((@) (text_tokens (v # w # ws))) (lex b r)" for r
  proof -
    have "lex b (?s @ r) = lex b (apostrophe # passed b v @ apostrophe # CHR '','' # s' @ r)" by (simp del: lex.simps)
    then show ?thesis unfolding lex_text[OF o] c(1) s'(3) fuse by simp
  qed
  show ?case by (intro exI[of _ ?s] conjI allI u l) simp
qed simp

lemma reads_in:
  assumes "plain_column k" and "vs \<noteq> []"
  shows "reads b (backquoted k @ '' in ('' @ join_str '','' (map (\<lambda>v. quoted (sql_escape (dialect_of b) v)) vs) @ '')'')
    (Name k # Word ''in'' # Sym (CHR ''('') # text_tokens vs)"
proof -
  obtain s' where s': "s' \<noteq> []" "\<And>r. unescape_colons (join_str '','' (map (\<lambda>v. quoted (sql_escape (dialect_of b) v)) vs) @ CHR '')'' # r) =
      map_option ((@) s') (unescape_colons r)" "\<And>r. lex b (s' @ r) = map_option ((@) (text_tokens vs)) (lex b r)"
    using reads_texts[OF assms(2)] by blast
  let ?t = "CHR ''('' # join_str '','' (map (\<lambda>v. quoted (sql_escape (dialect_of b) v)) vs) @ '')''"
  have c: "lex b (CHR ''('' # r) = map_option ((#) (Sym (CHR ''(''))) (lex b r)" "unescape_colons (CHR ''('' # r) = map_option ((#) (CHR ''('')) (unescape_colons r)" for r
    by (simp_all add: is_word_def is_digit_def less_eq_char_def)
  have u: "unescape_colons (?t @ r) = map_option ((@) (CHR ''('' # s')) (unescape_colons r)" for r
    using c(2)[of "join_str '','' (map (\<lambda>v. quoted (sql_escape (dialect_of b) v)) vs) @ CHR '')'' # r"] s'(2)[of r]
    by (simp add: fuse del: unescape_colons.simps)
  have l: "lex b ((CHR ''('' # s') @ r) = map_option ((@) (Sym (CHR ''('') # text_tokens vs)) (lex b r)" for r
    using c(1)[of "s' @ r"] s'(3)[of r] by (simp add: fuse del: lex.simps)
  have piece: "reads b ?t (Sym (CHR ''('') # text_tokens vs)"
    unfolding reads_def by (intro conjI exI[of _ "CHR ''('' # s'"] allI impI u l) (simp_all add: opens_def)
  have w: "list_all is_word ''in''" by (simp add: is_word_def is_digit_def less_eq_char_def)
  have lw: "lower ''in'' = ''in''" by code_simp
  show ?thesis
    using reads_append[OF reads_name[OF assms(1)] reads_append[OF reads_word(2)[OF _ w] piece]] by (simp add: lw)
qed

section \<open>The meaning of a condition\<close>

definition in_front :: "'a list \<Rightarrow> 'a list list \<Rightarrow> 'a list list" where
  "in_front ts qs = (case qs of [] \<Rightarrow> [ts] | q # qs \<Rightarrow> (ts @ q) # qs)"

lemma split_top_nonempty [simp]: "split_top t d ts \<noteq> []"
  by (cases ts) (auto split: list.splits)

lemma in_front_append: "in_front ts (in_front us qs) = in_front (ts @ us) qs"
  by (simp add: in_front_def split: list.splits)

lemma in_front_Nil [simp]: "qs \<noteq> [] \<Longrightarrow> in_front [] qs = qs"
  by (cases qs) (simp_all add: in_front_def)

text \<open>Tokens that hold together: inside parentheses, and outside of them for a separating word.\<close>

definition deep :: "token list \<Rightarrow> bool" where
  "deep ts \<longleftrightarrow> (\<forall>t d rest. split_top t (Suc d) (ts @ rest) = in_front ts (split_top t (Suc d) rest))"

definition whole :: "token \<Rightarrow> token list \<Rightarrow> bool" where
  "whole t ts \<longleftrightarrow> (\<forall>rest. split_top t 0 (ts @ rest) = in_front ts (split_top t 0 rest))"

lemma split_top_step: "\<not> (x = t \<and> d = 0) \<Longrightarrow> split_top t d (x # xs) =
    in_front [x] (split_top t (if x = Sym (CHR ''('') then d + 1 else if x = Sym (CHR '')'') then d - 1 else d) xs)"
  by (auto simp: in_front_def split: list.splits)

lemma deep_append: "deep ts \<Longrightarrow> deep us \<Longrightarrow> deep (ts @ us)"
  by (simp add: deep_def in_front_append)

lemma deep_plain: "\<forall>x \<in> set ts. x \<noteq> Sym (CHR ''('') \<and> x \<noteq> Sym (CHR '')'') \<Longrightarrow> deep ts"
proof (induction ts)
  case (Cons x ts)
  then have "deep ts" "x \<noteq> Sym (CHR ''('')" "x \<noteq> Sym (CHR '')'')" by auto
  then show ?case by (simp add: deep_def split_top_step in_front_append del: split_top.simps)
qed (simp add: deep_def)

lemma whole_plain: "\<forall>x \<in> set ts. x \<noteq> Sym (CHR ''('') \<and> x \<noteq> Sym (CHR '')'') \<and> x \<noteq> t \<Longrightarrow> whole t ts"
proof (induction ts)
  case (Cons x ts)
  then have "whole t ts" "x \<noteq> Sym (CHR ''('')" "x \<noteq> Sym (CHR '')'')" "x \<noteq> t" by auto
  then show ?case by (simp add: whole_def split_top_step in_front_append del: split_top.simps)
qed (simp add: whole_def)

lemma paren_step:
  assumes "deep ts" and "\<not> (Sym (CHR ''('') = t \<and> d = 0)"
  shows "split_top t d ((Sym (CHR ''('') # ts @ [Sym (CHR '')'')]) @ rest) = in_front (Sym (CHR ''('') # ts @ [Sym (CHR '')'')]) (split_top t d rest)"
proof -
  have "split_top t d (Sym (CHR ''('') # ts @ Sym (CHR '')'') # rest) = in_front [Sym (CHR ''('')] (split_top t (Suc d) (ts @ Sym (CHR '')'') # rest))"
    using split_top_step[OF assms(2)] by (simp del: split_top.simps)
  also have "split_top t (Suc d) (ts @ Sym (CHR '')'') # rest) = in_front ts (split_top t (Suc d) (Sym (CHR '')'') # rest))"
    using assms(1) unfolding deep_def by blast
  also have "split_top t (Suc d) (Sym (CHR '')'') # rest) = in_front [Sym (CHR '')'')] (split_top t d rest)"
    using split_top_step[of "Sym (CHR '')'')" t "Suc d" rest] by (simp del: split_top.simps)
  finally show ?thesis by (simp add: in_front_append del: split_top.simps)
qed

lemma whole_paren: "deep ts \<Longrightarrow> t \<noteq> Sym (CHR ''('') \<Longrightarrow> whole t (Sym (CHR ''('') # ts @ [Sym (CHR '')'')])"
  unfolding whole_def by (intro allI paren_step) auto

lemma deep_paren: "deep ts \<Longrightarrow> deep (Sym (CHR ''('') # ts @ [Sym (CHR '')'')])"
  unfolding deep_def[of "Sym (CHR ''('') # ts @ [Sym (CHR '')'')]"] by (intro allI paren_step) auto

lemma whole_append: "whole t ts \<Longrightarrow> whole t us \<Longrightarrow> whole t (ts @ us)"
  by (simp add: whole_def in_front_append)

lemma split_whole: "whole t ts \<Longrightarrow> split_top t 0 ts = [ts]"
proof -
  assume "whole t ts"
  then have "split_top t 0 (ts @ []) = in_front ts (split_top t 0 [])" unfolding whole_def by blast
  then show ?thesis by (simp add: in_front_def)
qed

text \<open>Parts separated by a word.\<close>

definition separated :: "token \<Rightarrow> token list list \<Rightarrow> token list" where
  "separated t tss = (case tss of [] \<Rightarrow> [] | q # qs \<Rightarrow> q @ concat (map (\<lambda>r. t # r) qs))"

lemma split_separated:
  "tss \<noteq> [] \<Longrightarrow> \<forall>ts \<in> set tss. whole t ts \<Longrightarrow> split_top t 0 (separated t tss) = tss"
proof (induction tss)
  case (Cons ts tss)
  show ?case
  proof (cases tss)
    case Nil
    then show ?thesis using Cons.prems split_whole[of t ts] by (simp add: separated_def)
  next
    case (Cons us uss)
    have "separated t (ts # tss) = ts @ t # separated t tss" by (simp add: separated_def Cons)
    moreover have "split_top t 0 (ts @ t # separated t tss) = in_front ts (split_top t 0 (t # separated t tss))"
      using Cons.prems unfolding whole_def by simp
    ultimately show ?thesis using Cons.IH Cons.prems Cons by (simp add: in_front_def)
  qed
qed simp

lemma whole_separated: "\<forall>ts \<in> set tss. whole u ts \<Longrightarrow> t \<noteq> u \<Longrightarrow> t \<noteq> Sym (CHR ''('') \<Longrightarrow> t \<noteq> Sym (CHR '')'') \<Longrightarrow> whole u (separated t tss)"
proof -
  assume a: "\<forall>ts \<in> set tss. whole u ts" "t \<noteq> u" "t \<noteq> Sym (CHR ''('')" "t \<noteq> Sym (CHR '')'')"
  then have t: "whole u [t]" by (intro whole_plain) auto
  have n: "whole u []" by (simp add: whole_def)
  have "\<forall>ts \<in> set qs. whole u ts \<Longrightarrow> whole u (concat (map (\<lambda>r. t # r) qs))" for qs
    by (induction qs) (use n whole_append[OF whole_append[OF t]] in auto)
  then show ?thesis using a(1) n by (auto simp: separated_def whole_append split: list.splits)
qed

definition atomic_tokens :: "token list \<Rightarrow> bool" where
  "atomic_tokens ts \<longleftrightarrow> whole (Word ''or'') ts \<and> whole (Word ''and'') ts \<and> deep ts \<and> (case ts of Name k # _ \<Rightarrow> True | _ \<Rightarrow> False)"

lemma those_map: "\<forall>x \<in> set xs. f x = Some (g x) \<Longrightarrow> those (map f xs) = Some (map g xs)"
  by (induction xs) simp_all

lemma meaning_single:
  assumes "whole (Word ''or'') ts" and "whole (Word ''and'') ts"
  shows "meaning eq (Suc n) ts = (case ts of
                 Sym c # r \<Rightarrow> if c = CHR ''('' \<and> r \<noteq> [] \<and> last r = Sym (CHR '')'') then meaning eq n (butlast r) else None
               | _ \<Rightarrow> atom_meaning eq ts)"
  using split_whole[OF assms(1)] split_whole[OF assms(2)] by (simp del: split_top.simps)

lemma meaning_atom: "atomic_tokens ts \<Longrightarrow> meaning eq (Suc n) ts = atom_meaning eq ts"
  unfolding atomic_tokens_def by (subst meaning_single) (auto split: list.splits token.splits)

lemma meaning_paren:
  assumes "deep ts"
  shows "meaning eq (Suc n) (Sym (CHR ''('') # ts @ [Sym (CHR '')'')]) = meaning eq n ts"
  by (subst meaning_single) (simp_all add: whole_paren[OF assms])

lemma meaning_or:
  assumes "tss \<noteq> []" and "\<forall>ts \<in> set tss. whole (Word ''or'') ts \<and> meaning eq n ts = Some (P ts) \<and> meaning eq (Suc n) ts = Some (P ts)"
  shows "\<exists>p. meaning eq (Suc n) (separated (Word ''or'') tss) = Some p \<and> (\<forall>row. p row \<longleftrightarrow> (\<exists>ts \<in> set tss. P ts row))"
proof (cases "length tss = 1")
  case True
  then obtain ts where "tss = [ts]" by (auto simp: length_Suc_conv)
  then show ?thesis using assms(2) by (auto simp: separated_def simp del: meaning.simps)
next
  case False
  then have "1 < length tss" using assms(1) by (cases tss) auto
  moreover have "split_top (Word ''or'') 0 (separated (Word ''or'') tss) = tss" using assms by (intro split_separated) auto
  moreover have "those (map (meaning eq n) tss) = Some (map P tss)" using assms(2) by (intro those_map) auto
  ultimately show ?thesis by (simp add: list_ex_iff del: split_top.simps)
qed

lemma meaning_and:
  assumes "tss \<noteq> []" and "\<forall>ts \<in> set tss. whole (Word ''and'') ts \<and> whole (Word ''or'') ts \<and> meaning eq n ts = Some (P ts) \<and> meaning eq (Suc n) ts = Some (P ts)"
  shows "\<exists>p. meaning eq (Suc n) (separated (Word ''and'') tss) = Some p \<and> (\<forall>row. p row \<longleftrightarrow> (\<forall>ts \<in> set tss. P ts row))"
proof (cases "length tss = 1")
  case True
  then obtain ts where "tss = [ts]" by (auto simp: length_Suc_conv)
  then show ?thesis using assms(2) by (auto simp: separated_def simp del: meaning.simps)
next
  case False
  then have "1 < length tss" using assms(1) by (cases tss) auto
  moreover have "split_top (Word ''and'') 0 (separated (Word ''and'') tss) = tss" using assms by (intro split_separated) auto
  moreover have "split_top (Word ''or'') 0 (separated (Word ''and'') tss) = [separated (Word ''and'') tss]"
    using assms(2) by (intro split_whole whole_separated) auto
  moreover have "those (map (meaning eq n) tss) = Some (map P tss)" using assms(2) by (intro those_map) auto
  ultimately show ?thesis by (simp add: list_all_iff del: split_top.simps)
qed

section \<open>Joined conditions\<close>

lemma reads_joined:
  assumes "w \<noteq> []" and "list_all is_word w"
  shows "list_all2 (reads b) ss tss \<Longrightarrow> ss \<noteq> [] \<Longrightarrow> reads b (join_str (CHR '' '' # w @ '' '') ss) (separated (Word (lower w)) tss)"
proof (induction ss tss rule: list_all2_induct)
  case (Cons s ss ts tss)
  show ?case
  proof (cases ss)
    case Nil
    then show ?thesis using Cons by (simp add: join_str_def separated_def)
  next
    case (Cons s2 ss2)
    obtain ts2 tss2 where tss: "tss = ts2 # tss2" using Cons.hyps(2) Cons by (cases tss) auto
    have "reads b (s @ (CHR '' '' # w @ '' '') @ join_str (CHR '' '' # w @ '' '') ss) (ts @ [Word (lower w)] @ separated (Word (lower w)) tss)"
      using Cons.hyps(1) Cons.IH Cons by (intro reads_append reads_word(2)[OF assms]) auto
    then show ?thesis by (simp add: join_str_def separated_def Cons tss)
  qed
qed simp

lemma words_or_and: "list_all is_word ''or''" "list_all is_word ''and''" "lower ''or'' = ''or''" "lower ''and'' = ''and''"
  by (simp_all add: is_word_def is_digit_def less_eq_char_def) code_simp+

lemma reads_paren: "reads b s ts \<Longrightarrow> reads b (''('' @ s @ '')'') (Sym (CHR ''('') # ts @ [Sym (CHR '')'')])"
  using reads_append[OF reads_sym[of "CHR ''(''" b] reads_append[OF _ reads_sym[of "CHR '')''" b], of s ts]] by simp


section \<open>What a filter asks for\<close>

text \<open>
  Values without wildcards and without an operator in front; a list of more than ten texts is taken as it is.
\<close>

definition is_operator :: "char \<Rightarrow> bool" where
  "is_operator c \<longleftrightarrow> c = CHR ''>'' \<or> c = CHR ''='' \<or> c = CHR ''<''"

definition no_operator :: "string \<Rightarrow> bool" where
  "no_operator s \<longleftrightarrow> (case dropWhile is_space s of [] \<Rightarrow> True | c # _ \<Rightarrow> \<not> is_operator c)"

definition is_text :: "json \<Rightarrow> bool" where
  "is_text v = (case v of JStr _ \<Rightarrow> True | _ \<Rightarrow> False)"

definition plain_value :: "json \<Rightarrow> bool" where
  "plain_value v = (case v of JNull \<Rightarrow> True | JBool _ \<Rightarrow> True | JStr s \<Rightarrow> CHR ''*'' \<notin> set s \<and> no_operator s | _ \<Rightarrow> False)"

definition plain_asked :: "string \<times> json \<Rightarrow> bool" where
  "plain_asked = (\<lambda>(k, v). plain_column k \<and> (v = JNull \<or> (let vs = forceList v in
     if 10 < length vs \<and> is_text (hd vs) then list_all is_text vs else list_all plain_value vs)))"

definition value_holds :: "(string \<Rightarrow> string \<Rightarrow> bool) \<Rightarrow> json \<Rightarrow> json \<Rightarrow> bool" where
  "value_holds eq c v =
     (case v of
        JNull \<Rightarrow> c = JNull
      | JBool b \<Rightarrow> (case c of JBool b' \<Rightarrow> b = b' | JInt i \<Rightarrow> i = (if b then 1 else 0) | _ \<Rightarrow> False)
      | JStr s \<Rightarrow> text_eq eq c s
      | _ \<Rightarrow> False)"

definition asks :: "string \<times> json \<Rightarrow> bool" where
  "asks = (\<lambda>(k, v). v \<noteq> JNull \<and> forceList v \<noteq> [])"

definition asked_holds :: "(string \<Rightarrow> string \<Rightarrow> bool) \<Rightarrow> string \<times> json \<Rightarrow> hash \<Rightarrow> bool" where
  "asked_holds eq = (\<lambda>(k, v) row. list_ex (value_holds eq (col row k)) (forceList v))"

definition filter_holds :: "(string \<Rightarrow> string \<Rightarrow> bool) \<Rightarrow> hash \<Rightarrow> hash \<Rightarrow> bool" where
  "filter_holds eq f row = list_all (\<lambda>kv. asked_holds eq kv row) (filter asks f)"

section \<open>Escaping keeps plain values plain\<close>

lemma escaped_char_start: "\<exists>x t. escaped_char b c = x # t \<and> (x = c \<or> x = backslash \<or> x = apostrophe)"
  by (simp add: escaped_char_def)

lemma no_operator_escape: "no_operator s \<Longrightarrow> no_operator (sql_escape (dialect_of b) s)"
  unfolding sql_escape_chars
proof (induction s)
  case (Cons c s)
  show ?case
  proof (cases "is_space c")
    case True
    then have "escaped_char b c = [c]" by (auto simp: escaped_char_def is_space_def)
    then show ?thesis using True Cons by (simp add: no_operator_def)
  next
    case False
    then have "\<not> is_operator c" using Cons.prems by (simp add: no_operator_def)
    moreover obtain x t where x: "escaped_char b c = x # t" "x = c \<or> x = backslash \<or> x = apostrophe"
      using escaped_char_start by blast
    moreover have "\<not> is_space x" using x(2) False by (auto simp: is_space_def)
    ultimately show ?thesis by (auto simp: no_operator_def is_operator_def)
  qed
qed (simp add: no_operator_def)

lemma no_star_escape: "CHR ''*'' \<notin> set s \<Longrightarrow> CHR ''*'' \<notin> set (sql_escape (dialect_of b) s)"
  unfolding sql_escape_chars by (induction s) (auto simp: escaped_char_def)

lemma operator_none: "no_operator s \<Longrightarrow> operator_in_condition s = None"
  unfolding no_operator_def operator_in_condition_def is_operator_def Let_def
  by (cases "dropWhile is_space s") (simp_all del: dropWhile_eq_Nil_conv)

lemma split_none: "p \<noteq> [] \<Longrightarrow> hd p = c \<or> last p = c \<Longrightarrow> c \<notin> set s \<Longrightarrow> split_str p s = [s]"
proof (induction s)
  case (Cons x s)
  have "\<not> startswith (x # s) p"
  proof
    assume "startswith (x # s) p"
    then have "set p \<subseteq> set (x # s)" unfolding startswith_def using set_take_subset by metis
    moreover have "c \<in> set p" using Cons.prems by auto
    ultimately show False using Cons.prems by auto
  qed
  then show ?case using Cons by (simp add: split_str.simps[of p "x # s"])
qed (simp add: split_str.simps)

lemma plain_text_condition:
  assumes "CHR ''*'' \<notin> set s" and "no_operator s"
  shows "text_condition (dialect_of b) key s = key @ '' = '' @ quoted (sql_escape (dialect_of b) s)"
proof -
  have "split_str (ESCAPED_ASTERISK (dialect_of b)) s = [s]"
    by (rule split_none[where c = "CHR ''*''"]) (use assms in \<open>simp_all add: dialect_of_def mysql_def sqlite_def\<close>)
  then show ?thesis
    using operator_none[OF no_operator_escape[OF assms(2)], of b] no_star_escape[OF assms(1), of b]
    by (simp add: text_condition_def join_str_def)
qed

section \<open>The tokens of a value and of a list\<close>

definition value_tokens :: "string \<Rightarrow> json \<Rightarrow> token list" where
  "value_tokens k v =
     (case v of
        JNull \<Rightarrow> [Name k, Word ''is'', Word ''null'']
      | JBool b \<Rightarrow> [Name k, Sym (CHR ''=''), Word (if b then ''1'' else ''0'')]
      | JStr s \<Rightarrow> [Name k, Sym (CHR ''=''), Text s]
      | _ \<Rightarrow> [])"

lemma value_reads:
  assumes "plain_column k" and "plain_value v"
  shows "\<exists>c. value_condition (dialect_of b) L (column None k) v = Inr c \<and> reads b c (value_tokens k v)"
proof (cases v)
  case (JBool x)
  have d: "list_all is_word ''1''" "list_all is_word ''0''" by (simp_all add: is_word_def is_digit_def less_eq_char_def)
  have l: "lower ''1'' = ''1''" "lower ''0'' = ''0''" by code_simp+
  show ?thesis
    using reads_number_eq[OF assms(1) _ d(1), of b] reads_number_eq[OF assms(1) _ d(2), of b]
    by (cases x) (simp_all add: JBool value_condition_def column_def value_tokens_def l)
qed (use assms reads_null[OF assms(1)] reads_text_eq[OF assms(1)] in
    \<open>simp_all add: value_condition_def column_def value_tokens_def plain_value_def plain_text_condition\<close>)

lemma deep_whole_plain:
  assumes "\<forall>x \<in> set ts. x \<noteq> Sym (CHR ''('') \<and> x \<noteq> Sym (CHR '')'') \<and> x \<noteq> Word ''or'' \<and> x \<noteq> Word ''and''"
  shows "deep ts" "whole (Word ''or'') ts" "whole (Word ''and'') ts"
  using assms by (blast intro: deep_plain whole_plain)+

definition simple_value :: "json \<Rightarrow> bool" where
  "simple_value v = (case v of JNull \<Rightarrow> True | JBool _ \<Rightarrow> True | JStr s \<Rightarrow> True | _ \<Rightarrow> False)"

lemma plain_simple: "plain_value v \<Longrightarrow> simple_value v"
  by (simp add: plain_value_def simple_value_def split: json.splits)

lemma simple_atomic: "simple_value v \<Longrightarrow> atomic_tokens (value_tokens k v)"
  unfolding atomic_tokens_def
  by (intro conjI deep_whole_plain) (auto simp: simple_value_def value_tokens_def split: json.splits)

lemmas value_atomic = simple_atomic[OF plain_simple]

lemma val_digits_01: "val_digits ''1'' = 1" "val_digits ''0'' = 0"
  by code_simp+

lemma simple_meaning: "simple_value v \<Longrightarrow> atom_meaning eq (value_tokens k v) = Some (\<lambda>row. value_holds eq (col row k) v)"
  by (auto simp: simple_value_def value_tokens_def value_holds_def atom_meaning_def number_eq_def val_digits_01 is_digit_def
      less_eq_char_def fun_eq_iff split: json.splits)

lemmas value_meaning = simple_meaning[OF plain_simple]

definition texts_tokens :: "string \<Rightarrow> string list \<Rightarrow> token list" where
  "texts_tokens k vs = Name k # Word ''in'' # Sym (CHR ''('') # text_tokens vs"

lemma text_tokens_paren:
  "vs \<noteq> [] \<Longrightarrow> \<exists>us. text_tokens vs = us @ [Sym (CHR '')'')] \<and>
     (\<forall>x \<in> set us. x \<noteq> Sym (CHR ''('') \<and> x \<noteq> Sym (CHR '')'') \<and> x \<noteq> Word ''or'' \<and> x \<noteq> Word ''and'')"
proof (induction vs rule: text_tokens.induct)
  case (3 v w ws)
  then obtain us where "text_tokens (w # ws) = us @ [Sym (CHR '')'')]"
    "\<forall>x \<in> set us. x \<noteq> Sym (CHR ''('') \<and> x \<noteq> Sym (CHR '')'') \<and> x \<noteq> Word ''or'' \<and> x \<noteq> Word ''and''" by auto
  then show ?case by (intro exI[of _ "Text v # Sym (CHR '','') # us"]) simp
qed auto

lemma texts_atomic:
  assumes "vs \<noteq> []"
  shows "atomic_tokens (texts_tokens k vs)"
proof -
  obtain us where us: "text_tokens vs = us @ [Sym (CHR '')'')]"
    "\<forall>x \<in> set us. x \<noteq> Sym (CHR ''('') \<and> x \<noteq> Sym (CHR '')'') \<and> x \<noteq> Word ''or'' \<and> x \<noteq> Word ''and''"
    using text_tokens_paren[OF assms] by blast
  have t: "texts_tokens k vs = [Name k, Word ''in''] @ (Sym (CHR ''('') # us @ [Sym (CHR '')'')])"
    by (simp add: texts_tokens_def us(1))
  have p: "deep [Name k, Word ''in'']" "whole (Word ''or'') [Name k, Word ''in'']" "whole (Word ''and'') [Name k, Word ''in'']"
    by (rule deep_whole_plain; simp)+
  show ?thesis unfolding atomic_tokens_def t
    by (intro conjI deep_append whole_append p deep_paren whole_paren deep_whole_plain[OF us(2)]) simp_all
qed

lemma texts_meaning:
  "vs \<noteq> [] \<Longrightarrow> atom_meaning eq (texts_tokens k vs) = Some (\<lambda>row. list_ex (text_eq eq (col row k)) vs)"
proof -
  assume "vs \<noteq> []"
  then have "text_list (text_tokens vs) = Some vs" by (rule text_list_tokens)
  then show ?thesis by (simp add: atom_meaning_def texts_tokens_def)
qed

lemma texts_of_list: "list_all is_text vs \<Longrightarrow> \<exists>ss. vs = map JStr ss"
proof (induction vs)
  case (Cons v vs)
  then obtain s ss where "v = JStr s" "vs = map JStr ss" by (auto simp: is_text_def split: json.splits)
  then show ?case by (intro exI[of _ "s # ss"]) simp
qed simp

section \<open>The tokens of a key\<close>

definition key_says :: "(string \<Rightarrow> string \<Rightarrow> bool) \<Rightarrow> string \<times> json \<Rightarrow> token list \<Rightarrow> bool" where
  "key_says eq kv ts \<longleftrightarrow> deep ts \<and> (\<forall>m. meaning eq (Suc (Suc m)) ts = Some (asked_holds eq kv))"

lemma values_say:
  assumes "list_all plain_value vs" and "vs \<noteq> []"
  shows "meaning eq (Suc (Suc m)) (separated (Word ''or'') (map (value_tokens k) vs)) = Some (\<lambda>row. list_ex (value_holds eq (col row k)) vs)"
proof -
  have "\<exists>p. meaning eq (Suc (Suc m)) (separated (Word ''or'') (map (value_tokens k) vs)) = Some p \<and>
      (\<forall>row. p row \<longleftrightarrow> (\<exists>ts \<in> set (map (value_tokens k) vs). the (atom_meaning eq ts) row))"
  proof (rule meaning_or, simp add: assms(2), rule ballI)
    fix ts assume "ts \<in> set (map (value_tokens k) vs)"
    then obtain v where v: "plain_value v" "ts = value_tokens k v" using assms(1) by (auto simp: list_all_iff)
    note a = value_atomic[OF v(1), of k] and m = value_meaning[OF v(1), of eq k]
    then have w: "whole (Word ''or'') ts" by (simp add: v(2) atomic_tokens_def)
    show "whole (Word ''or'') ts \<and> meaning eq (Suc m) ts = Some (the (atom_meaning eq ts)) \<and> meaning eq (Suc (Suc m)) ts = Some (the (atom_meaning eq ts))"
      using w by (simp add: v(2) meaning_atom[OF a] m del: meaning.simps)
  qed
  then obtain p where p: "meaning eq (Suc (Suc m)) (separated (Word ''or'') (map (value_tokens k) vs)) = Some p"
    "\<And>row. p row \<longleftrightarrow> (\<exists>v \<in> set vs. the (atom_meaning eq (value_tokens k v)) row)" by auto
  have "p row \<longleftrightarrow> list_ex (value_holds eq (col row k)) vs" for row
    using assms(1) by (auto simp: p(2) list_ex_iff list_all_iff value_meaning)
  then show ?thesis using p(1) by (simp add: fun_eq_iff del: meaning.simps)
qed

lemma values_deep:
  assumes "list_all plain_value vs"
  shows "deep (separated (Word ''or'') (map (value_tokens k) vs))"
proof -
  have v: "\<forall>ts \<in> set (map (value_tokens k) vs). deep ts" using assms value_atomic by (auto simp: atomic_tokens_def list_all_iff)
  have o: "deep [Word ''or'']" by (rule deep_plain) simp
  have n: "deep []" by (simp add: deep_def)
  have "\<forall>ts \<in> set qs. deep ts \<Longrightarrow> deep (concat (map (\<lambda>r. Word ''or'' # r) qs))" for qs
    by (induction qs) (use n deep_append[OF deep_append[OF o]] in auto)
  then show ?thesis unfolding separated_def using v n
    by (cases "map (value_tokens k) vs") (auto intro!: deep_append)
qed

lemma values_read:
  assumes "plain_column k"
  shows "list_all plain_value vs \<Longrightarrow> \<exists>cs. mapE (value_condition (dialect_of b) L (column None k)) vs = Inr cs \<and>
    list_all2 (reads b) cs (map (value_tokens k) vs)"
proof (induction vs)
  case (Cons v vs)
  obtain c where c: "value_condition (dialect_of b) L (column None k) v = Inr c" "reads b c (value_tokens k v)"
    using value_reads[OF assms, of v b L] Cons.prems by auto
  obtain cs where "mapE (value_condition (dialect_of b) L (column None k)) vs = Inr cs" "list_all2 (reads b) cs (map (value_tokens k) vs)"
    using Cons by auto
  then show ?case using c by simp
qed simp

lemma key_reads:
  assumes "plain_asked (k, v)" and "asks (k, v)"
  shows "\<exists>c ts. key_condition (dialect_of b) L None (k, v) = Inr [c] \<and> reads b c ts \<and> key_says eq (k, v) ts"
proof -
  let ?vs = "forceList v"
  have k: "plain_column k" and v: "v \<noteq> JNull" "?vs \<noteq> []" using assms by (auto simp: plain_asked_def asks_def)
  show ?thesis
  proof (cases "10 < length ?vs \<and> is_text (hd ?vs)")
    case True
    then have "list_all is_text ?vs" using assms(1) v by (simp add: plain_asked_def Let_def)
    then obtain ss where ss: "?vs = map JStr ss" using texts_of_list by blast
    then have ne: "ss \<noteq> []" using v by auto
    have "mapE (escaped_string (dialect_of b)) ?vs = Inr (map (\<lambda>s. quoted (sql_escape (dialect_of b) s)) ss)"
      unfolding ss by (induction ss) (simp_all add: escaped_string_def)
    then have "key_condition (dialect_of b) L None (k, v) =
        Inr [backquoted k @ '' in ('' @ join_str '','' (map (\<lambda>s. quoted (sql_escape (dialect_of b) s)) ss) @ '')'']"
      using True v by (simp add: key_condition_def column_def is_text_def)
    moreover have "key_says eq (k, v) (texts_tokens k ss)"
      using texts_atomic[OF ne, of k] meaning_atom[OF texts_atomic[OF ne, of k], of eq] texts_meaning[OF ne, of eq k]
      by (simp add: key_says_def atomic_tokens_def asked_holds_def ss value_holds_def list_ex_iff fun_eq_iff del: meaning.simps)
    ultimately show ?thesis using reads_in[OF k ne, of b] unfolding texts_tokens_def[symmetric] by blast
  next
    case False
    then have p: "list_all plain_value ?vs" using assms(1) v by (simp add: plain_asked_def Let_def)
    obtain cs where cs: "mapE (value_condition (dialect_of b) L (column None k)) ?vs = Inr cs"
      "list_all2 (reads b) cs (map (value_tokens k) ?vs)" using values_read[OF k p] by blast
    have key: "key_condition (dialect_of b) L None (k, v) = Inr [join_str '' or '' cs]"
      using False v cs(1) by (auto simp: key_condition_def is_text_def Let_def)
    have "cs \<noteq> []" using cs(2) v by auto
    then have "reads b (join_str '' or '' cs) (separated (Word ''or'') (map (value_tokens k) ?vs))"
      using reads_joined[OF _ words_or_and(1) cs(2)] by (simp add: words_or_and)
    moreover have "key_says eq (k, v) (separated (Word ''or'') (map (value_tokens k) ?vs))"
      unfolding key_says_def using values_deep[OF p] values_say[OF p v(2)] by (simp add: asked_holds_def fun_eq_iff del: meaning.simps)
    ultimately show ?thesis using key by blast
  qed
qed

section \<open>The condition of a filter\<close>

definition paren :: "token list \<Rightarrow> token list" where
  "paren ts = Sym (CHR ''('') # ts @ [Sym (CHR '')'')]"

lemma keys_read:
  assumes "list_all plain_asked f"
  shows "\<exists>cs ss tss. mapE (key_condition (dialect_of b) L None) f = Inr cs \<and> concat cs = ss \<and>
    list_all2 (reads b) ss tss \<and> list_all2 (key_says eq) (filter asks f) tss"
  using assms
proof (induction f)
  case (Cons kv f)
  obtain k v where kv: "kv = (k, v)" by (cases kv)
  obtain cs tss where IH: "mapE (key_condition (dialect_of b) L None) f = Inr cs" "list_all2 (reads b) (concat cs) tss"
    "list_all2 (key_says eq) (filter asks f) tss" using Cons by auto
  show ?case
  proof (cases "asks kv")
    case True
    then obtain c ts where c: "key_condition (dialect_of b) L None kv = Inr [c]" "reads b c ts" "key_says eq kv ts"
      using key_reads[of k v b L eq] Cons.prems by (auto simp: kv)
    then show ?thesis using IH True by (intro exI[of _ "[c] # cs"] exI[of _ "c # concat cs"] exI[of _ "ts # tss"]) simp
  next
    case False
    then have "key_condition (dialect_of b) L None kv = Inr []" by (auto simp: key_condition_def asks_def kv)
    then show ?thesis using IH False by (intro exI[of _ "[] # cs"] exI[of _ "concat cs"] exI[of _ tss]) simp
  qed
qed auto

lemma parens_read: "list_all2 (reads b) ss tss \<Longrightarrow> list_all2 (reads b) (map (\<lambda>c. ''('' @ c @ '')'') ss) (map paren tss)"
  by (induction ss tss rule: list_all2_induct) (simp_all add: paren_def reads_paren[simplified])

lemma length_separated: "ts \<in> set tss \<Longrightarrow> length ts \<le> length (separated t tss)"
proof (induction tss)
  case (Cons us tss)
  have "length (separated t tss) \<le> length (separated t (us # tss))" "length us \<le> length (separated t (us # tss))"
    by (simp_all add: separated_def split: list.splits)
  then show ?case using Cons by fastforce
qed simp

lemma says_meaning:
  assumes "list_all2 (key_says eq) kvs tss" and "kvs \<noteq> []"
  shows "\<exists>p. meaning eq (length (separated (Word ''and'') (map paren tss)) + 3) (separated (Word ''and'') (map paren tss)) = Some p \<and>
    (\<forall>row. p row \<longleftrightarrow> (\<forall>kv \<in> set kvs. asked_holds eq kv row))"
proof -
  let ?P = "\<lambda>ts. the (meaning eq 3 ts)"
  let ?s = "separated (Word ''and'') (map paren tss)"
  have ne: "map paren tss \<noteq> []" using assms by auto
  then have "2 \<le> length (hd (map paren tss))" by (cases tss) (simp_all add: paren_def)
  then have "2 \<le> length ?s" using length_separated[of "hd (map paren tss)" "map paren tss"] ne hd_in_set[OF ne] le_trans by blast
  then obtain m where m: "length ?s + 3 = Suc (Suc (Suc (Suc m)))" by (metis add_2_eq_Suc' le_Suc_ex add.commute numeral_3_eq_3 add_Suc_right)
  have says: "\<exists>kv \<in> set kvs. key_says eq kv ts" if "ts \<in> set tss" for ts
    using assms(1) that unfolding list_all2_conv_all_nth in_set_conv_nth by (metis nth_mem)
  have each: "meaning eq (Suc (Suc (Suc n))) (paren ts) = meaning eq (Suc (Suc n)) ts" "deep ts" if "ts \<in> set tss" for ts n
    using says[OF that] unfolding paren_def key_says_def by (auto simp: meaning_paren simp del: meaning.simps)
  have step: "\<exists>p. meaning eq (Suc (Suc (Suc (Suc m)))) ?s = Some p \<and> (\<forall>row. p row \<longleftrightarrow> (\<forall>ts \<in> set (map paren tss). ?P ts row))"
  proof (rule meaning_and[OF ne], rule ballI)
    fix ps assume "ps \<in> set (map paren tss)"
    then obtain ts where ts: "ts \<in> set tss" "ps = paren ts" by auto
    obtain kv where kv: "key_says eq kv ts" using says[OF ts(1)] by blast
    have e: "meaning eq (Suc (Suc (Suc n))) ps = Some (asked_holds eq kv)" for n
      unfolding ts(2) each(1)[OF ts(1)] using kv unfolding key_says_def by blast
    have "whole (Word ''and'') ps" "whole (Word ''or'') ps"
      unfolding ts(2) paren_def by (rule whole_paren[OF each(2)[OF ts(1)]], simp)+
    then show "whole (Word ''and'') ps \<and> whole (Word ''or'') ps \<and> meaning eq (Suc (Suc (Suc m))) ps = Some (?P ps) \<and>
        meaning eq (Suc (Suc (Suc (Suc m)))) ps = Some (?P ps)"
      using e[of m] e[of "Suc m"] e[of 0] by (simp add: numeral_3_eq_3 del: meaning.simps)
  qed
  then obtain p where p: "meaning eq (Suc (Suc (Suc (Suc m)))) ?s = Some p" "\<And>row. p row \<longleftrightarrow> (\<forall>ts \<in> set tss. ?P (paren ts) row)" by auto
  have P: "?P (paren ts) = asked_holds eq kv" if "ts \<in> set tss" "key_says eq kv ts" for ts kv
    using each(1)[OF that(1), of 0] that(2) unfolding key_says_def by (simp add: numeral_3_eq_3 del: meaning.simps)
  have both: "list_all2 (\<lambda>kv ts. ts \<in> set tss \<and> key_says eq kv ts) kvs tss"
    using assms(1) by (auto simp: list_all2_conv_all_nth)
  have all: "list_all2 (\<lambda>kv ts. ?P (paren ts) = asked_holds eq kv) kvs tss"
    by (rule list_all2_mono[OF both]) (use P in blast)
  have "(\<forall>ts \<in> set tss'. ?P (paren ts) row) \<longleftrightarrow> (\<forall>kv \<in> set kvs'. asked_holds eq kv row)"
    if "list_all2 (\<lambda>kv ts. ?P (paren ts) = asked_holds eq kv) kvs' tss'" for kvs' tss' row
    using that by (induction kvs' tss' rule: list_all2_induct) simp_all
  then have "p row \<longleftrightarrow> (\<forall>kv \<in> set kvs. asked_holds eq kv row)" for row
    unfolding p(2) using all by blast
  then show ?thesis unfolding m using p(1) by (intro exI[of _ p]) blast
qed

lemma filter_condition:
  assumes "list_all plain_asked f"
  shows "\<exists>c. filterToSql (dialect_of b) L None f = Inr c \<and>
    (if filter asks f = [] then c = []
     else c \<noteq> [] \<and> (\<exists>p. condition_meaning b eq c = Some p \<and> (\<forall>row. p row \<longleftrightarrow> filter_holds eq f row)))"
proof -
  obtain cs tss where k: "mapE (key_condition (dialect_of b) L None) f = Inr cs" "list_all2 (reads b) (concat cs) tss"
    "list_all2 (key_says eq) (filter asks f) tss" using keys_read[OF assms, of b L eq] by blast
  let ?c = "join_str '' and '' (map (\<lambda>c. ''('' @ c @ '')'') (concat cs))"
  have f: "filterToSql (dialect_of b) L None f = Inr ?c" by (simp add: filterToSql_def k(1))
  show ?thesis
  proof (cases "filter asks f = []")
    case True
    then have "tss = []" using k(3) by simp
    then have "concat cs = []" using k(2) by simp
    then have "?c = []" by (simp only: list.map join_str_def list.case)
    then show ?thesis using f True by simp
  next
    case False
    then have "tss \<noteq> []" using k(3) by auto
    then have ne: "map (\<lambda>c. ''('' @ c @ '')'') (concat cs) \<noteq> []" using k(2) by (auto simp del: concat_eq_Nil_conv)
    have r: "reads b ?c (separated (Word ''and'') (map paren tss))"
      using reads_joined[OF _ words_or_and(2) parens_read[OF k(2)]] ne by (simp add: words_or_and)
    obtain p where "condition_meaning b eq ?c = Some p" "\<And>row. p row \<longleftrightarrow> (\<forall>kv \<in> set (filter asks f). asked_holds eq kv row)"
      unfolding reads_condition[OF r] using says_meaning[OF k(3) False] by blast
    moreover have "?c \<noteq> []" using r unfolding reads_def by simp
    ultimately show ?thesis using f False by (intro exI[of _ ?c]) (auto simp: filter_holds_def list_all_iff)
  qed
qed

section \<open>The condition of an object\<close>

text \<open>The columns that identify an object and their values.\<close>

definition identity :: "classes \<Rightarrow> obj \<Rightarrow> (string \<times> json) list" where
  "identity C ob =
     concat (map (\<lambda>a. if attr ob a = JNull then [] else [(objectAttributeToDatabaseAttribute C (o_class ob) a, attr ob a)])
       (mandatoryArgs C (o_class ob))) @
     (if isSubclass C (o_class ob) ''HostGroup'' \<or> isSubclass C (o_class ob) ''ProductGroup''
      then [(''type'', JStr (o_class ob))] else [])"

definition plain_identity :: "classes \<Rightarrow> obj \<Rightarrow> bool" where
  "plain_identity C ob \<longleftrightarrow> list_all (\<lambda>(k, v). plain_column k \<and> simple_value v) (identity C ob) \<and> list_all is_word (o_class ob)"

definition identity_holds :: "(string \<Rightarrow> string \<Rightarrow> bool) \<Rightarrow> (string \<times> json) list \<Rightarrow> hash \<Rightarrow> bool" where
  "identity_holds eq kvs row = list_all (\<lambda>(k, v). value_holds eq (col row k) v) kvs"

lemma escape_word: "list_all is_word s \<Longrightarrow> sql_escape (dialect_of b) s = s"
  unfolding sql_escape_chars
  by (induction s) (auto simp: escaped_char_def is_word_def is_digit_def less_eq_char_def)

lemma argument_reads:
  assumes "plain_column (objectAttributeToDatabaseAttribute C (o_class ob) a)" and "simple_value (attr ob a)" and "attr ob a \<noteq> JNull"
  shows "\<exists>c. argument_condition (dialect_of b) L C ob a = Inr [c] \<and>
    reads b c (value_tokens (objectAttributeToDatabaseAttribute C (o_class ob) a) (attr ob a))"
proof (cases "attr ob a")
  case (JBool x)
  have d: "list_all is_word ''1''" "list_all is_word ''0''" by (simp_all add: is_word_def is_digit_def less_eq_char_def)
  have l: "lower ''1'' = ''1''" "lower ''0'' = ''0''" by code_simp+
  show ?thesis
    using reads_number_eq[OF assms(1) _ d(1), of b] reads_number_eq[OF assms(1) _ d(2), of b]
    by (cases x) (simp_all add: JBool argument_condition_def Let_def value_tokens_def l)
qed (use assms reads_text_eq[OF assms(1)] in \<open>simp_all add: argument_condition_def Let_def value_tokens_def simple_value_def\<close>)

lemma arguments_read:
  "(\<And>a. a \<in> set as \<Longrightarrow> attr ob a \<noteq> JNull \<Longrightarrow>
     plain_column (objectAttributeToDatabaseAttribute C (o_class ob) a) \<and> simple_value (attr ob a)) \<Longrightarrow>
   \<exists>cs. mapE (argument_condition (dialect_of b) L C ob) as = Inr cs \<and> list_all2 (reads b) (concat cs)
     (map (\<lambda>(k, v). value_tokens k v) (concat (map (\<lambda>a. if attr ob a = JNull then [] else
       [(objectAttributeToDatabaseAttribute C (o_class ob) a, attr ob a)]) as)))"
proof (induction as)
  case (Cons a as)
  obtain cs where cs: "mapE (argument_condition (dialect_of b) L C ob) as = Inr cs" "list_all2 (reads b) (concat cs)
     (map (\<lambda>(k, v). value_tokens k v) (concat (map (\<lambda>a. if attr ob a = JNull then [] else
       [(objectAttributeToDatabaseAttribute C (o_class ob) a, attr ob a)]) as)))" using Cons by auto
  show ?case
  proof (cases "attr ob a = JNull")
    case True
    then have "argument_condition (dialect_of b) L C ob a = Inr []" by (simp add: argument_condition_def Let_def)
    then show ?thesis using cs True by (intro exI[of _ "[] # cs"]) simp
  next
    case False
    then obtain c where "argument_condition (dialect_of b) L C ob a = Inr [c]"
      "reads b c (value_tokens (objectAttributeToDatabaseAttribute C (o_class ob) a) (attr ob a))"
      using argument_reads Cons.prems by (meson list.set_intros(1))
    then show ?thesis using cs False by (intro exI[of _ "[c] # cs"]) simp
  qed
qed simp

lemma identity_reads:
  assumes "plain_identity C ob" and "identity C ob \<noteq> []"
  shows "\<exists>c. uniqueCondition (dialect_of b) L C ob = Inr c \<and>
    reads b c (separated (Word ''and'') (map (\<lambda>(k, v). value_tokens k v) (identity C ob)))"
proof -
  let ?as = "mandatoryArgs C (o_class ob)"
  let ?g = "isSubclass C (o_class ob) ''HostGroup'' \<or> isSubclass C (o_class ob) ''ProductGroup''"
  have "(objectAttributeToDatabaseAttribute C (o_class ob) a, attr ob a) \<in> set (identity C ob)"
    if "a \<in> set ?as" "attr ob a \<noteq> JNull" for a
    unfolding identity_def set_append by (rule UnI1) (use that in \<open>auto intro!: bexI[of _ a]\<close>)
  then have "\<And>a. a \<in> set ?as \<Longrightarrow> attr ob a \<noteq> JNull \<Longrightarrow>
     plain_column (objectAttributeToDatabaseAttribute C (o_class ob) a) \<and> simple_value (attr ob a)"
    using assms(1) unfolding plain_identity_def list_all_iff by blast
  then obtain cs where cs: "mapE (argument_condition (dialect_of b) L C ob) ?as = Inr cs" "list_all2 (reads b) (concat cs)
     (map (\<lambda>(k, v). value_tokens k v) (concat (map (\<lambda>a. if attr ob a = JNull then [] else
       [(objectAttributeToDatabaseAttribute C (o_class ob) a, attr ob a)]) ?as)))"
    using arguments_read[of ?as ob C b L] by blast
  let ?t = "if ?g then [''`type` = '' @ quoted (o_class ob)] else []"
  have p: "plain_column ''type''" by (simp add: plain_column_def plain_text_def)
  have "reads b (''`type` = '' @ quoted (o_class ob)) (value_tokens ''type'' (JStr (o_class ob)))"
    using reads_text_eq[OF p, of b "o_class ob"] assms(1) by (simp add: escape_word plain_identity_def value_tokens_def backquoted_def)
  then have all: "list_all2 (reads b) (concat cs @ ?t) (map (\<lambda>(k, v). value_tokens k v) (identity C ob))"
    unfolding identity_def map_append by (intro list_all2_appendI cs(2)) simp
  then have "concat cs @ ?t \<noteq> []" using assms(2) by (cases "concat cs @ ?t") auto
  then have "reads b (join_str '' and '' (concat cs @ ?t)) (separated (Word ''and'') (map (\<lambda>(k, v). value_tokens k v) (identity C ob)))"
    using reads_joined[OF _ words_or_and(2) all] by (simp add: words_or_and)
  then show ?thesis by (simp add: uniqueCondition_def cs(1))
qed

lemma meaning_values:
  assumes "\<forall>(k, v) \<in> set kvs. simple_value v" and "kvs \<noteq> []"
  shows "\<exists>p. meaning eq (length (separated (Word ''and'') (map (\<lambda>(k, v). value_tokens k v) kvs)) + 3)
      (separated (Word ''and'') (map (\<lambda>(k, v). value_tokens k v) kvs)) = Some p \<and> (\<forall>row. p row \<longleftrightarrow> identity_holds eq kvs row)"
proof -
  let ?tss = "map (\<lambda>(k, v). value_tokens k v) kvs"
  let ?s = "separated (Word ''and'') ?tss"
  have v: "simple_value v" if "(k, v) \<in> set kvs" for k v using assms(1) that by auto
  have "\<exists>p. meaning eq (Suc (Suc (length ?s + 1))) ?s = Some p \<and> (\<forall>row. p row \<longleftrightarrow> (\<forall>ts \<in> set ?tss. the (atom_meaning eq ts) row))"
  proof (rule meaning_and, simp add: assms(2), rule ballI)
    fix ts assume "ts \<in> set ?tss"
    then obtain k w where w: "(k, w) \<in> set kvs" "ts = value_tokens k w" by auto
    note a = simple_atomic[OF v[OF w(1)], of k] and m = simple_meaning[OF v[OF w(1)], of eq k]
    then have "whole (Word ''and'') ts" "whole (Word ''or'') ts" by (simp_all add: w(2) atomic_tokens_def)
    then show "whole (Word ''and'') ts \<and> whole (Word ''or'') ts \<and> meaning eq (Suc (length ?s + 1)) ts = Some (the (atom_meaning eq ts)) \<and>
        meaning eq (Suc (Suc (length ?s + 1))) ts = Some (the (atom_meaning eq ts))"
      by (simp add: w(2) meaning_atom[OF a] m del: meaning.simps)
  qed
  then obtain p where p: "meaning eq (length ?s + 3) ?s = Some p" "\<And>row. p row \<longleftrightarrow> (\<forall>ts \<in> set ?tss. the (atom_meaning eq ts) row)"
    by (auto simp: numeral_3_eq_3 simp del: meaning.simps)
  have "p row \<longleftrightarrow> identity_holds eq kvs row" for row
    unfolding p(2) identity_holds_def using simple_meaning[OF v] by (auto simp: list_all_iff)
  then show ?thesis using p(1) by blast
qed

lemma unique_condition:
  assumes "plain_identity C ob" and "identity C ob \<noteq> []"
  shows "\<exists>c p. uniqueCondition (dialect_of b) L C ob = Inr c \<and> c \<noteq> [] \<and> condition_meaning b eq c = Some p \<and>
    (\<forall>row. p row \<longleftrightarrow> identity_holds eq (identity C ob) row)"
proof -
  obtain c where c: "uniqueCondition (dialect_of b) L C ob = Inr c"
    "reads b c (separated (Word ''and'') (map (\<lambda>(k, v). value_tokens k v) (identity C ob)))"
    using identity_reads[OF assms] by blast
  have "\<forall>(k, v) \<in> set (identity C ob). simple_value v" using assms(1) by (auto simp: plain_identity_def list_all_iff)
  from meaning_values[OF this assms(2), of eq] show ?thesis
    using c(1) reads_condition[OF c(2), of eq] c(2) unfolding reads_def by auto
qed

section \<open>What a query selects\<close>

lemma query_reads:
  assumes "list_all plain_asked f"
  shows "\<exists>c. createQuery (dialect_of b) L t as f = Inr (Select as t c) \<and>
    (if c = [] then filter_holds eq f = (\<lambda>_. True) else condition_meaning b eq c = Some (filter_holds eq f))"
proof -
  obtain c where c: "filterToSql (dialect_of b) L None f = Inr c"
    "if filter asks f = [] then c = []
     else c \<noteq> [] \<and> (\<exists>p. condition_meaning b eq c = Some p \<and> (\<forall>row. p row \<longleftrightarrow> filter_holds eq f row))"
    using filter_condition[OF assms, of b L eq] by blast
  show ?thesis
  proof (cases "filter asks f = []")
    case True
    then have "filter_holds eq f = (\<lambda>_. True)" by (simp add: filter_holds_def fun_eq_iff)
    then show ?thesis using c True by (simp add: createQuery_def)
  next
    case False
    then obtain p where "condition_meaning b eq c = Some p" "\<forall>row. p row \<longleftrightarrow> filter_holds eq f row" "c \<noteq> []" using c(2) by (auto split: if_splits)
    then have "condition_meaning b eq c = Some (filter_holds eq f)" by (simp add: fun_eq_iff)
    then show ?thesis using c(1) \<open>c \<noteq> []\<close> by (simp add: createQuery_def)
  qed
qed


definition sample_filter :: hash where
  "sample_filter = [(''clientId'', JList [JStr ''it:s a'', JStr (''x'' @ [apostrophe] @ '') or (1=1'')]), (''action'', JNull), (''open'', JList [JNull, JBool True])]"

definition sample_table :: "string \<Rightarrow> hash list" where
  "sample_table t =
     [[(''clientId'', JStr ''it:s a''), (''open'', JBool True)], [(''clientId'', JStr ''x'')], [(''clientId'', JStr ''it:s a''), (''open'', JBool False)]]"


end
