(* ===== verification/SqlBackend.thy ===== *)
theory SqlBackend
  imports SqlText DataBackend
begin

text \<open>
  The SQL backend, OPSI/Backend/SQL.py: storing, changing, getting and deleting the objects of each class by statements. The
  database and the classes of opsicommon are parameters; a method runs in one session, so when it raises the database
  is as before.
\<close>

section \<open>Sessions\<close>

text \<open>\<open>execute_sql\<close> gives the rows found, the number of rows changed, and the database afterwards.\<close>

record 't sql_world =
  sql_dialect :: dialect
  sql_lib :: lib
  sql_classes :: classes
  execute_sql :: "statement \<Rightarrow> 't \<Rightarrow> (backend_error, hash list \<times> nat \<times> 't) result"
  check_module :: "string \<Rightarrow> (backend_error, unit) result"
  unique_hardware_addresses :: bool
  json_dumps :: "json \<Rightarrow> string"
  json_loads :: "json \<Rightarrow> (backend_error, json) result"
  from_hash :: "string \<Rightarrow> hash \<Rightarrow> (backend_error, obj) result"

type_synonym ('t, 'a) db = "'t \<Rightarrow> (backend_error, 'a \<times> 't) result"

definition give :: "'a \<Rightarrow> ('t, 'a) db" where
  "give a t = Inr (a, t)"

definition lift :: "(backend_error, 'a) result \<Rightarrow> ('t, 'a) db" where
  "lift r t = bindE r (\<lambda>a. Inr (a, t))"

definition bindD :: "('t, 'a) db \<Rightarrow> ('a \<Rightarrow> ('t, 'b) db) \<Rightarrow> ('t, 'b) db" where
  "bindD m f t = bindE (m t) (\<lambda>(a, t'). f a t')"

fun eachD :: "('a \<Rightarrow> ('t, unit) db) \<Rightarrow> 'a list \<Rightarrow> ('t, unit) db" where
  "eachD f [] = give ()"
| "eachD f (x # xs) = bindD (f x) (\<lambda>_. eachD f xs)"

fun mapD :: "('a \<Rightarrow> ('t, 'b) db) \<Rightarrow> 'a list \<Rightarrow> ('t, 'b list) db" where
  "mapD f [] = give []"
| "mapD f (x # xs) = bindD (f x) (\<lambda>y. bindD (mapD f xs) (\<lambda>ys. give (y # ys)))"

text \<open>A method of the base class that raises keeps the error; otherwise its state is the next.\<close>

definition from_act :: "('t, 'a) act \<Rightarrow> ('t, 'a) db" where
  "from_act m t = (case m t of (Inl e, _) \<Rightarrow> Inl e | (Inr a, t') \<Rightarrow> Inr (a, t'))"

lemma db_simps [simp]:
  "bindD (give a) f = f a" "bindD (lift (Inr a)) f = f a" "bindD (lift (Inl e)) f t = Inl e" "give a t = Inr (a, t)"
  by (simp_all add: bindD_def give_def lift_def fun_eq_iff)

section \<open>Rows\<close>

definition getSet :: "'t sql_world \<Rightarrow> statement \<Rightarrow> ('t, hash list) db" where
  "getSet W q =
     bindD (lift (onlyAllowSelect (statement_text q))) (\<lambda>_ t. bindE (execute_sql W q t) (\<lambda>(rows, n, t'). Inr (rows, t')))"

definition getRow :: "'t sql_world \<Rightarrow> statement \<Rightarrow> ('t, hash option) db" where
  "getRow W q = bindD (getSet W q) (\<lambda>rows. give (case rows of [] \<Rightarrow> None | r # _ \<Rightarrow> Some r))"

definition change :: "'t sql_world \<Rightarrow> (backend_error, statement) result \<Rightarrow> ('t, nat) db" where
  "change W q = bindD (lift q) (\<lambda>q t. bindE (execute_sql W q t) (\<lambda>(rows, n, t'). Inr (n, t')))"

definition insert_row :: "'t sql_world \<Rightarrow> string \<Rightarrow> hash \<Rightarrow> ('t, unit) db" where
  "insert_row W table h = bindD (change W (sql_insert table h)) (\<lambda>_. give ())"

definition update_rows :: "'t sql_world \<Rightarrow> string \<Rightarrow> string \<Rightarrow> hash \<Rightarrow> bool \<Rightarrow> ('t, nat) db" where
  "update_rows W table condition h updateWhereNone = change W (sql_update table condition h updateWhereNone)"

definition delete_rows :: "'t sql_world \<Rightarrow> string \<Rightarrow> string \<Rightarrow> ('t, unit) db" where
  "delete_rows W table condition = bindD (change W (Inr (sql_delete table condition))) (\<lambda>_. give ())"

text \<open>Inserting an object: its row is replaced where there is one.\<close>

definition put_row :: "'t sql_world \<Rightarrow> string \<Rightarrow> string \<Rightarrow> hash \<Rightarrow> ('t, unit) db" where
  "put_row W table condition h =
     bindD (getRow W (Select [] table condition)) (\<lambda>r.
       case r of
         Some _ \<Rightarrow> bindD (update_rows W table condition h True) (\<lambda>_. give ())
       | None \<Rightarrow> insert_row W table h)"

definition equals_text :: "string \<Rightarrow> string \<Rightarrow> string" where
  "equals_text k v = backquoted k @ '' = '' @ quoted v"

text \<open>A value put into a statement by a format string.\<close>

definition text_of :: "'t sql_world \<Rightarrow> hash \<Rightarrow> string \<Rightarrow> (backend_error, string) result" where
  "text_of W h k = (case map_of h k of Some v \<Rightarrow> Inr (forceUnicode (sql_lib W) v) | None \<Rightarrow> Inl KeyError)"

definition entry_of :: "hash \<Rightarrow> string \<Rightarrow> (backend_error, json) result" where
  "entry_of h k = (case map_of h k of Some v \<Rightarrow> Inr v | None \<Rightarrow> Inl KeyError)"

definition elements :: "json \<Rightarrow> (backend_error, json list) result" where
  "elements v = (case v of JNull \<Rightarrow> Inr [] | JList l \<Rightarrow> Inr l | _ \<Rightarrow> Inl OtherError)"

definition strict_elements :: "json \<Rightarrow> (backend_error, json list) result" where
  "strict_elements v = (case v of JList l \<Rightarrow> Inr l | _ \<Rightarrow> Inl OtherError)"

text \<open>\<open>forceObjectClassList\<close> of objects.\<close>

definition of_class :: "'t sql_world \<Rightarrow> string \<Rightarrow> obj list \<Rightarrow> (backend_error, obj list) result" where
  "of_class W cls obs = (if list_all (\<lambda>ob. isSubclass (sql_classes W) (o_class ob) cls) obs then Inr obs else Inl ValueError)"

section \<open>The methods of a class\<close>

text \<open>
  What the methods of most classes have in common: \<open>base\<close> is the method of the base class, which gives the
  object with its defaults set.
\<close>

definition object_condition :: "'t sql_world \<Rightarrow> obj \<Rightarrow> ('t, string) db" where
  "object_condition W ob = lift (uniqueCondition (sql_dialect W) (sql_lib W) (sql_classes W) ob)"

definition object_row :: "'t sql_world \<Rightarrow> obj \<Rightarrow> ('t, hash) db" where
  "object_row W ob = lift (objectToDatabaseHash (sql_classes W) ob)"

definition insert_object :: "'t sql_world \<Rightarrow> string \<Rightarrow> (obj \<Rightarrow> ('t, obj) db) \<Rightarrow> obj \<Rightarrow> ('t, unit) db" where
  "insert_object W table base ob =
     bindD (base ob) (\<lambda>ob. bindD (object_row W ob) (\<lambda>h. bindD (object_condition W ob) (\<lambda>c. put_row W table c h)))"

definition update_object :: "'t sql_world \<Rightarrow> string \<Rightarrow> (obj \<Rightarrow> ('t, obj) db) \<Rightarrow> obj \<Rightarrow> ('t, unit) db" where
  "update_object W table base ob =
     bindD (base ob) (\<lambda>ob. bindD (object_row W ob) (\<lambda>h. bindD (object_condition W ob) (\<lambda>c.
       bindD (update_rows W table c h False) (\<lambda>_. give ()))))"

definition delete_object :: "'t sql_world \<Rightarrow> string \<Rightarrow> obj \<Rightarrow> ('t, unit) db" where
  "delete_object W table ob = bindD (object_condition W ob) (\<lambda>c. delete_rows W table c)"

definition delete_each_object :: "'t sql_world \<Rightarrow> string \<Rightarrow> string \<Rightarrow> (obj list \<Rightarrow> ('t, unit) db) \<Rightarrow> obj list \<Rightarrow> ('t, unit) db" where
  "delete_each_object W cls table base obs =
     bindD (base obs) (\<lambda>_. bindD (lift (of_class W cls obs)) (\<lambda>obs. eachD (delete_object W table) obs))"

text \<open>The rows of a query, after the attributes and the filter have been adjusted.\<close>

definition adjusted :: "'t sql_world \<Rightarrow> string \<Rightarrow> string list \<Rightarrow> hash \<Rightarrow> ('t, string list \<times> hash) db" where
  "adjusted W cls attributes f =
     bindD (lift (testFilterAndAttributes (possibleAttributes (sql_classes W) cls) [] f)) (\<lambda>_.
       lift (adjustAttributes (sql_classes W) cls attributes f))"

definition query_rows :: "'t sql_world \<Rightarrow> string \<Rightarrow> string list \<Rightarrow> hash \<Rightarrow> ('t, hash list) db" where
  "query_rows W table as f = bindD (lift (createQuery (sql_dialect W) (sql_lib W) table as f)) (getSet W)"

definition get_objects :: "'t sql_world \<Rightarrow> string \<Rightarrow> string \<Rightarrow> (hash \<Rightarrow> ('t, hash) db) \<Rightarrow> string list \<Rightarrow> hash \<Rightarrow> ('t, obj list) db" where
  "get_objects W cls table fill attributes f =
     bindD (adjusted W cls attributes f) (\<lambda>(as, f). bindD (query_rows W table as f)
       (mapD (\<lambda>row. bindD (fill row) (\<lambda>row. lift (from_hash W cls row)))))"

definition with_id :: "'t sql_world \<Rightarrow> string \<Rightarrow> hash \<Rightarrow> ('t, hash) db" where
  "with_id W cls row = give (adjustResult (sql_classes W) cls row)"

definition modified_by :: "'t sql_world \<Rightarrow> string \<Rightarrow> ('t, 'a) db \<Rightarrow> ('t, 'a) db" where
  "modified_by W m act = bindD (lift (check_module W m)) (\<lambda>_. act)"

section \<open>Configs\<close>

text \<open>The values of a config are rows of a second table.\<close>

definition config_parts :: "hash \<Rightarrow> (backend_error, json list \<times> json list \<times> hash) result" where
  "config_parts h =
     bindE (entry_of h ''possibleValues'') (\<lambda>p. bindE (entry_of h ''defaultValues'') (\<lambda>d.
       bindE (elements p) (\<lambda>ps. bindE (elements d) (\<lambda>ds.
         Inr (ps, ds, AList.delete ''defaultValues'' (AList.delete ''possibleValues'' h))))))"

definition value_row :: "string list \<Rightarrow> hash \<Rightarrow> json list \<Rightarrow> json \<Rightarrow> (backend_error, hash) result" where
  "value_row ks h ds v = bindE (mapE (\<lambda>k. bindE (entry_of h k) (\<lambda>x. Inr (k, x))) ks) (\<lambda>r.
     Inr (r @ [(''value'', v), (''isDefault'', JBool (v \<in> set ds))]))"

definition put_values :: "'t sql_world \<Rightarrow> string \<Rightarrow> string list \<Rightarrow> string \<Rightarrow> hash \<Rightarrow> json list \<Rightarrow> json list \<Rightarrow> ('t, unit) db" where
  "put_values W table ks c h ps ds =
     bindD (delete_rows W table c) (\<lambda>_.
       eachD (\<lambda>v. bindD (lift (value_row ks h ds v)) (insert_row W table)) ps)"

definition sql_config_insertObject :: "'t sql_world \<Rightarrow> (obj \<Rightarrow> ('t, obj) db) \<Rightarrow> obj \<Rightarrow> ('t, unit) db" where
  "sql_config_insertObject W base ob =
     bindD (base ob) (\<lambda>ob. bindD (object_row W ob) (\<lambda>h. bindD (lift (config_parts h)) (\<lambda>(ps, ds, h).
       bindD (object_condition W ob) (\<lambda>c. bindD (put_row W ''CONFIG'' c h) (\<lambda>_.
         put_values W ''CONFIG_VALUE'' [''configId''] c h ps ds)))))"

definition sql_config_updateObject :: "'t sql_world \<Rightarrow> (obj \<Rightarrow> ('t, obj) db) \<Rightarrow> obj \<Rightarrow> ('t, unit) db" where
  "sql_config_updateObject W base ob =
     bindD (base ob) (\<lambda>ob. bindD (object_row W ob) (\<lambda>h. bindD (object_condition W ob) (\<lambda>c.
       bindD (lift (config_parts h)) (\<lambda>(ps, ds, h). bindD (update_rows W ''CONFIG'' c h False) (\<lambda>n.
         if 0 < n then put_values W ''CONFIG_VALUE'' [''configId''] c h ps ds else give ())))))"

text \<open>A filter on values becomes one on the objects that have them; None when there are no such objects.\<close>

definition narrow :: "'t sql_world \<Rightarrow> string \<Rightarrow> string \<Rightarrow> string \<Rightarrow> string \<Rightarrow> hash \<Rightarrow> hash \<Rightarrow> ('t, hash option) db" where
  "narrow W table i attribute value extra f =
     (case map_of f attribute of
        None \<Rightarrow> give (Some f)
      | Some v \<Rightarrow>
          if json_true v
          then bindD (query_rows W table [i] ([(i, case map_of f i of Some x \<Rightarrow> x | None \<Rightarrow> JNull), (value, v)] @ extra)) (\<lambda>rows.
                 bindD (lift (mapE (\<lambda>r. entry_of r i) rows)) (\<lambda>is.
                   if is = [] then give None
                   else give (Some (AList.delete attribute (AList.update i (JList is) f)))))
          else give (Some (AList.delete attribute f)))"

definition read_values :: "'t sql_world \<Rightarrow> bool \<Rightarrow> statement \<Rightarrow> hash \<Rightarrow> ('t, hash) db" where
  "read_values W wanted q row =
     (if wanted
      then bindD (getSet W q) (\<lambda>rs. bindD (lift (mapE (\<lambda>r. entry_of r ''value'') rs)) (\<lambda>vs.
             bindD (lift (mapE (\<lambda>r. entry_of r ''isDefault'') rs)) (\<lambda>ds.
               give (AList.update ''defaultValues'' (JList (map fst (filter (json_true \<circ> snd) (zip vs ds))))
                 (AList.update ''possibleValues'' (JList vs) row)))))
      else give (AList.update ''defaultValues'' (JList []) (AList.update ''possibleValues'' (JList []) row)))"

definition sql_config_getObjects :: "'t sql_world \<Rightarrow> string list \<Rightarrow> hash \<Rightarrow> ('t, obj list) db" where
  "sql_config_getObjects W attributes f =
     bindD (adjusted W ''Config'' attributes f) (\<lambda>(as, f).
     bindD (narrow W ''CONFIG_VALUE'' ''configId'' ''defaultValues'' ''value'' [(''isDefault'', JBool True)] f) (\<lambda>f.
     case f of None \<Rightarrow> give [] | Some f \<Rightarrow>
     bindD (narrow W ''CONFIG_VALUE'' ''configId'' ''possibleValues'' ''value'' [] f) (\<lambda>f.
     case f of None \<Rightarrow> give [] | Some f \<Rightarrow>
       let wanted = as = [] \<or> ''possibleValues'' \<in> set as \<or> ''defaultValues'' \<in> set as
       in bindD (query_rows W ''CONFIG'' (filter (\<lambda>a. a \<noteq> ''defaultValues'' \<and> a \<noteq> ''possibleValues'') as) f)
            (mapD (\<lambda>row. bindD (if wanted then lift (text_of W row ''configId'') else give []) (\<lambda>i.
               bindD (read_values W wanted (Select [] ''CONFIG_VALUE'' (equals_text ''configId'' i)) row) (\<lambda>row.
                 bindD (with_id W ''Config'' row) (\<lambda>row. lift (from_hash W ''Config'' row)))))))))"

definition sql_config_deleteObjects :: "'t sql_world \<Rightarrow> (obj list \<Rightarrow> ('t, unit) db) \<Rightarrow> obj list \<Rightarrow> ('t, unit) db" where
  "sql_config_deleteObjects W base obs =
     bindD (base obs) (\<lambda>_. bindD (lift (of_class W ''Config'' obs)) (eachD (\<lambda>ob.
       bindD (object_condition W ob) (\<lambda>c. bindD (delete_rows W ''CONFIG_VALUE'' c) (\<lambda>_. delete_rows W ''CONFIG'' c)))))"

section \<open>Config states and product property states\<close>

text \<open>Their values are one text.\<close>

definition dump_values :: "'t sql_world \<Rightarrow> hash \<Rightarrow> (backend_error, hash) result" where
  "dump_values W h = bindE (entry_of h ''values'') (\<lambda>v. Inr (AList.update ''values'' (JStr (json_dumps W v)) h))"

definition load_values :: "'t sql_world \<Rightarrow> hash \<Rightarrow> ('t, hash) db" where
  "load_values W row =
     (case map_of row ''values'' of
        None \<Rightarrow> give row
      | Some v \<Rightarrow> bindD (lift (json_loads W v)) (\<lambda>v. give (AList.update ''values'' v row)))"

definition insert_dumped :: "'t sql_world \<Rightarrow> string \<Rightarrow> obj \<Rightarrow> ('t, unit) db" where
  "insert_dumped W table ob =
     bindD (object_row W ob) (\<lambda>h. bindD (lift (dump_values W h)) (\<lambda>h. bindD (object_condition W ob) (\<lambda>c. put_row W table c h)))"

definition update_dumped :: "'t sql_world \<Rightarrow> string \<Rightarrow> obj \<Rightarrow> ('t, unit) db" where
  "update_dumped W table ob =
     bindD (object_row W ob) (\<lambda>h. bindD (object_condition W ob) (\<lambda>c. bindD (lift (dump_values W h)) (\<lambda>h.
       bindD (update_rows W table c h False) (\<lambda>_. give ()))))"

definition sql_configState_insertObject :: "'t sql_world \<Rightarrow> (obj \<Rightarrow> ('t, obj) db) \<Rightarrow> obj \<Rightarrow> ('t, unit) db" where
  "sql_configState_insertObject W base ob = modified_by W ''mysql_backend'' (bindD (base ob) (insert_dumped W ''CONFIG_STATE''))"

definition sql_configState_updateObject :: "'t sql_world \<Rightarrow> (obj \<Rightarrow> ('t, obj) db) \<Rightarrow> obj \<Rightarrow> ('t, unit) db" where
  "sql_configState_updateObject W base ob = modified_by W ''mysql_backend'' (bindD (base ob) (update_dumped W ''CONFIG_STATE''))"

definition sql_configState_getObjects :: "'t sql_world \<Rightarrow> string list \<Rightarrow> hash \<Rightarrow> ('t, obj list) db" where
  "sql_configState_getObjects W = get_objects W ''ConfigState'' ''CONFIG_STATE'' (load_values W)"

definition sql_configState_deleteObjects :: "'t sql_world \<Rightarrow> (obj list \<Rightarrow> ('t, unit) db) \<Rightarrow> obj list \<Rightarrow> ('t, unit) db" where
  "sql_configState_deleteObjects W = delete_each_object W ''ConfigState'' ''CONFIG_STATE''"

text \<open>A property state needs a host with the identity given, read as a filter.\<close>

definition sql_productPropertyState_insertObject :: "'t sql_world \<Rightarrow> (obj \<Rightarrow> ('t, obj) db) \<Rightarrow> obj \<Rightarrow> ('t, unit) db" where
  "sql_productPropertyState_insertObject W base ob =
     modified_by W ''mysql_backend'' (bindD (base ob) (\<lambda>ob.
       bindD (query_rows W ''HOST'' [''hostId''] [(''hostId'', attr ob ''objectId'')]) (\<lambda>hosts.
         if hosts = [] then lift (Inl BackendReferentialIntegrityError) else insert_dumped W ''PRODUCT_PROPERTY_STATE'' ob)))"

definition sql_productPropertyState_updateObject :: "'t sql_world \<Rightarrow> (obj \<Rightarrow> ('t, obj) db) \<Rightarrow> obj \<Rightarrow> ('t, unit) db" where
  "sql_productPropertyState_updateObject W base ob =
     modified_by W ''mysql_backend'' (bindD (base ob) (update_dumped W ''PRODUCT_PROPERTY_STATE''))"

definition sql_productPropertyState_getObjects :: "'t sql_world \<Rightarrow> string list \<Rightarrow> hash \<Rightarrow> ('t, obj list) db" where
  "sql_productPropertyState_getObjects W = get_objects W ''ProductPropertyState'' ''PRODUCT_PROPERTY_STATE'' (load_values W)"

definition sql_productPropertyState_deleteObjects :: "'t sql_world \<Rightarrow> (obj list \<Rightarrow> ('t, unit) db) \<Rightarrow> obj list \<Rightarrow> ('t, unit) db" where
  "sql_productPropertyState_deleteObjects W = delete_each_object W ''ProductPropertyState'' ''PRODUCT_PROPERTY_STATE''"

section \<open>Products\<close>

text \<open>The mapping table of a product or a license pool, written without escaping.\<close>

definition put_mapping :: "'t sql_world \<Rightarrow> string \<Rightarrow> string \<Rightarrow> string \<Rightarrow> hash \<Rightarrow> json list \<Rightarrow> ('t, unit) db" where
  "put_mapping W table i member h xs =
     bindD (lift (text_of W h i)) (\<lambda>t. bindD (delete_rows W table (equals_text i t)) (\<lambda>_.
       eachD (\<lambda>x. bindD (lift (entry_of h i)) (\<lambda>v. insert_row W table [(member, x), (i, v)])) xs))"

definition product_parts :: "bool \<Rightarrow> hash \<Rightarrow> (backend_error, json list \<times> hash) result" where
  "product_parts new h =
     bindE (entry_of h ''windowsSoftwareIds'') (\<lambda>w. bindE (entry_of h ''productClassIds'') (\<lambda>_.
       bindE (if new then strict_elements w else elements w) (\<lambda>ws.
         Inr (ws, AList.delete ''productClassIds'' (AList.delete ''windowsSoftwareIds'' h)))))"

definition sql_product_insertObject :: "'t sql_world \<Rightarrow> (obj \<Rightarrow> ('t, obj) db) \<Rightarrow> obj \<Rightarrow> ('t, unit) db" where
  "sql_product_insertObject W base ob =
     modified_by W ''mysql_backend'' (bindD (base ob) (\<lambda>ob. bindD (object_row W ob) (\<lambda>h.
       bindD (lift (product_parts True h)) (\<lambda>(ws, h). bindD (object_condition W ob) (\<lambda>c.
         bindD (put_row W ''PRODUCT'' c h) (\<lambda>_.
           put_mapping W ''WINDOWS_SOFTWARE_ID_TO_PRODUCT'' ''productId'' ''windowsSoftwareId'' h ws))))))"

definition sql_product_updateObject :: "'t sql_world \<Rightarrow> (obj \<Rightarrow> ('t, obj) db) \<Rightarrow> obj \<Rightarrow> ('t, unit) db" where
  "sql_product_updateObject W base ob =
     modified_by W ''mysql_backend'' (bindD (base ob) (\<lambda>ob. bindD (object_row W ob) (\<lambda>h. bindD (object_condition W ob) (\<lambda>c.
       bindD (lift (product_parts False h)) (\<lambda>(ws, h). bindD (update_rows W ''PRODUCT'' c h False) (\<lambda>_.
         put_mapping W ''WINDOWS_SOFTWARE_ID_TO_PRODUCT'' ''productId'' ''windowsSoftwareId'' h ws))))))"

text \<open>The members of a mapping that belong to a row.\<close>

definition read_mapping :: "'t sql_world \<Rightarrow> bool \<Rightarrow> string \<Rightarrow> string \<Rightarrow> string \<Rightarrow> string \<Rightarrow> hash \<Rightarrow> ('t, hash) db" where
  "read_mapping W wanted table i member attribute row =
     (if wanted
      then bindD (lift (text_of W row i)) (\<lambda>t. bindD (getSet W (Select [] table (equals_text i t))) (\<lambda>rs.
             bindD (lift (mapE (\<lambda>r. entry_of r member) rs)) (\<lambda>xs. give (AList.update attribute (JList xs) row))))
      else give (AList.update attribute (JList []) row))"

definition sql_product_getObjects :: "'t sql_world \<Rightarrow> string list \<Rightarrow> hash \<Rightarrow> ('t, obj list) db" where
  "sql_product_getObjects W attributes f =
     bindD (adjusted W ''Product'' attributes f) (\<lambda>(as, f).
       let wanted = as = [] \<or> ''windowsSoftwareIds'' \<in> set as
       in bindD (query_rows W ''PRODUCT'' as f) (mapD (\<lambda>row.
            bindD (read_mapping W wanted ''WINDOWS_SOFTWARE_ID_TO_PRODUCT'' ''productId'' ''windowsSoftwareId'' ''windowsSoftwareIds'' row) (\<lambda>row.
              bindD (with_id W ''Product'' (AList.update ''productClassIds'' (JList []) row)) (\<lambda>row.
                lift (from_hash W ''Product'' row))))))"

definition sql_product_deleteObjects :: "'t sql_world \<Rightarrow> (obj list \<Rightarrow> ('t, unit) db) \<Rightarrow> obj list \<Rightarrow> ('t, unit) db" where
  "sql_product_deleteObjects W base obs =
     bindD (base obs) (\<lambda>_. bindD (lift (of_class W ''Product'' obs)) (eachD (\<lambda>ob.
       bindD (object_condition W ob) (\<lambda>c.
         bindD (delete_rows W ''WINDOWS_SOFTWARE_ID_TO_PRODUCT'' (equals_text ''productId'' (forceUnicode (sql_lib W) (attr ob ''id'')))) (\<lambda>_.
           delete_rows W ''PRODUCT'' c)))))"

section \<open>Product properties and dependencies\<close>

abbreviation property_keys :: "string list" where
  "property_keys \<equiv> [''productId'', ''productVersion'', ''packageVersion'', ''propertyId'']"

definition sql_productProperty_insertObject :: "'t sql_world \<Rightarrow> (obj \<Rightarrow> ('t, obj) db) \<Rightarrow> obj \<Rightarrow> ('t, unit) db" where
  "sql_productProperty_insertObject W base ob =
     modified_by W ''mysql_backend'' (bindD (base ob) (\<lambda>ob. bindD (object_row W ob) (\<lambda>h. bindD (lift (config_parts h)) (\<lambda>(ps, ds, h).
       bindD (object_condition W ob) (\<lambda>c. bindD (put_row W ''PRODUCT_PROPERTY'' c h) (\<lambda>_.
         put_values W ''PRODUCT_PROPERTY_VALUE'' property_keys c h ps ds))))))"

definition sql_productProperty_updateObject :: "'t sql_world \<Rightarrow> (obj \<Rightarrow> ('t, obj) db) \<Rightarrow> obj \<Rightarrow> ('t, unit) db" where
  "sql_productProperty_updateObject W base ob =
     modified_by W ''mysql_backend'' (bindD (base ob) (\<lambda>ob. bindD (object_row W ob) (\<lambda>h. bindD (object_condition W ob) (\<lambda>c.
       bindD (lift (config_parts h)) (\<lambda>(ps, ds, h). bindD (update_rows W ''PRODUCT_PROPERTY'' c h False) (\<lambda>_.
         put_values W ''PRODUCT_PROPERTY_VALUE'' property_keys c h ps ds))))))"

definition property_value_condition :: "'t sql_world \<Rightarrow> hash \<Rightarrow> (backend_error, string) result" where
  "property_value_condition W row =
     bindE (mapE (\<lambda>k. bindE (text_of W row k) (\<lambda>t. Inr (equals_text k t)))
              [''propertyId'', ''productId'', ''productVersion'', ''packageVersion'']) (\<lambda>cs. Inr (join_str '' AND '' cs))"

definition sql_productProperty_getObjects :: "'t sql_world \<Rightarrow> string list \<Rightarrow> hash \<Rightarrow> ('t, obj list) db" where
  "sql_productProperty_getObjects W attributes f =
     bindD (adjusted W ''ProductProperty'' attributes f) (\<lambda>(as, f).
       let wanted = as = [] \<or> ''possibleValues'' \<in> set as \<or> ''defaultValues'' \<in> set as
       in bindD (query_rows W ''PRODUCT_PROPERTY'' as f) (mapD (\<lambda>row.
            bindD (if wanted then lift (property_value_condition W row) else give []) (\<lambda>c.
              bindD (read_values W wanted (Select [''value'', ''isDefault''] ''PRODUCT_PROPERTY_VALUE'' c) row) (\<lambda>row.
                lift (from_hash W ''ProductProperty'' row))))))"

definition sql_productProperty_deleteObjects :: "'t sql_world \<Rightarrow> (obj list \<Rightarrow> ('t, unit) db) \<Rightarrow> obj list \<Rightarrow> ('t, unit) db" where
  "sql_productProperty_deleteObjects W base obs =
     bindD (base obs) (\<lambda>_. bindD (lift (of_class W ''ProductProperty'' obs)) (eachD (\<lambda>ob.
       bindD (object_condition W ob) (\<lambda>c.
         bindD (delete_rows W ''PRODUCT_PROPERTY_VALUE'' c) (\<lambda>_. delete_rows W ''PRODUCT_PROPERTY'' c)))))"

definition sql_productDependency_insertObject :: "'t sql_world \<Rightarrow> (obj \<Rightarrow> ('t, obj) db) \<Rightarrow> obj \<Rightarrow> ('t, unit) db" where
  "sql_productDependency_insertObject W base ob = modified_by W ''mysql_backend'' (insert_object W ''PRODUCT_DEPENDENCY'' base ob)"

definition sql_productDependency_updateObject :: "'t sql_world \<Rightarrow> (obj \<Rightarrow> ('t, obj) db) \<Rightarrow> obj \<Rightarrow> ('t, unit) db" where
  "sql_productDependency_updateObject W base ob = modified_by W ''mysql_backend'' (update_object W ''PRODUCT_DEPENDENCY'' base ob)"

definition sql_productDependency_getObjects :: "'t sql_world \<Rightarrow> string list \<Rightarrow> hash \<Rightarrow> ('t, obj list) db" where
  "sql_productDependency_getObjects W = get_objects W ''ProductDependency'' ''PRODUCT_DEPENDENCY'' give"

definition sql_productDependency_deleteObjects :: "'t sql_world \<Rightarrow> (obj list \<Rightarrow> ('t, unit) db) \<Rightarrow> obj list \<Rightarrow> ('t, unit) db" where
  "sql_productDependency_deleteObjects W = delete_each_object W ''ProductDependency'' ''PRODUCT_DEPENDENCY''"

section \<open>Products on depots and clients\<close>

text \<open>A product on a depot or a client is identified without its version when it is inserted.\<close>

definition versionless :: "obj \<Rightarrow> obj" where
  "versionless ob = foldr (\<lambda>k. set_attr k JNull) [''productVersion'', ''packageVersion'', ''productType''] ob"

definition insert_versionless :: "'t sql_world \<Rightarrow> string \<Rightarrow> (obj \<Rightarrow> ('t, obj) db) \<Rightarrow> obj \<Rightarrow> ('t, unit) db" where
  "insert_versionless W table base ob =
     modified_by W ''mysql_backend'' (bindD (base ob) (\<lambda>ob. bindD (object_row W ob) (\<lambda>h.
       bindD (object_condition W (versionless ob)) (\<lambda>c. put_row W table c h))))"

definition sql_productOnDepot_insertObject :: "'t sql_world \<Rightarrow> (obj \<Rightarrow> ('t, obj) db) \<Rightarrow> obj \<Rightarrow> ('t, unit) db" where
  "sql_productOnDepot_insertObject W = insert_versionless W ''PRODUCT_ON_DEPOT''"

definition sql_productOnDepot_updateObject :: "'t sql_world \<Rightarrow> (obj \<Rightarrow> ('t, obj) db) \<Rightarrow> obj \<Rightarrow> ('t, unit) db" where
  "sql_productOnDepot_updateObject W base ob = modified_by W ''mysql_backend'' (update_object W ''PRODUCT_ON_DEPOT'' base ob)"

definition sql_productOnDepot_getObjects :: "'t sql_world \<Rightarrow> string list \<Rightarrow> hash \<Rightarrow> ('t, obj list) db" where
  "sql_productOnDepot_getObjects W = get_objects W ''ProductOnDepot'' ''PRODUCT_ON_DEPOT'' give"

definition sql_productOnDepot_deleteObjects :: "'t sql_world \<Rightarrow> (obj list \<Rightarrow> ('t, unit) db) \<Rightarrow> obj list \<Rightarrow> ('t, unit) db" where
  "sql_productOnDepot_deleteObjects W = delete_each_object W ''ProductOnDepot'' ''PRODUCT_ON_DEPOT''"

definition sql_productOnClient_insertObject :: "'t sql_world \<Rightarrow> (obj \<Rightarrow> ('t, obj) db) \<Rightarrow> obj \<Rightarrow> ('t, unit) db" where
  "sql_productOnClient_insertObject W = insert_versionless W ''PRODUCT_ON_CLIENT''"

definition sql_productOnClient_updateObject :: "'t sql_world \<Rightarrow> (obj \<Rightarrow> ('t, obj) db) \<Rightarrow> obj \<Rightarrow> ('t, unit) db" where
  "sql_productOnClient_updateObject W base ob = modified_by W ''mysql_backend'' (update_object W ''PRODUCT_ON_CLIENT'' base ob)"

definition sql_productOnClient_getObjects :: "'t sql_world \<Rightarrow> string list \<Rightarrow> hash \<Rightarrow> ('t, obj list) db" where
  "sql_productOnClient_getObjects W = get_objects W ''ProductOnClient'' ''PRODUCT_ON_CLIENT'' give"

definition sql_productOnClient_deleteObjects :: "'t sql_world \<Rightarrow> (obj list \<Rightarrow> ('t, unit) db) \<Rightarrow> obj list \<Rightarrow> ('t, unit) db" where
  "sql_productOnClient_deleteObjects W = delete_each_object W ''ProductOnClient'' ''PRODUCT_ON_CLIENT''"

section \<open>Groups\<close>

definition sql_group_insertObject :: "'t sql_world \<Rightarrow> (obj \<Rightarrow> ('t, obj) db) \<Rightarrow> obj \<Rightarrow> ('t, unit) db" where
  "sql_group_insertObject W base ob = modified_by W ''mysql_backend'' (insert_object W ''GROUP'' base ob)"

definition sql_group_updateObject :: "'t sql_world \<Rightarrow> (obj \<Rightarrow> ('t, obj) db) \<Rightarrow> obj \<Rightarrow> ('t, unit) db" where
  "sql_group_updateObject W base ob = modified_by W ''mysql_backend'' (update_object W ''GROUP'' base ob)"

definition sql_group_getObjects :: "'t sql_world \<Rightarrow> string list \<Rightarrow> hash \<Rightarrow> ('t, obj list) db" where
  "sql_group_getObjects W = get_objects W ''Group'' ''GROUP'' (with_id W ''Group'')"

definition sql_group_deleteObjects :: "'t sql_world \<Rightarrow> (obj list \<Rightarrow> ('t, unit) db) \<Rightarrow> obj list \<Rightarrow> ('t, unit) db" where
  "sql_group_deleteObjects W = delete_each_object W ''Group'' ''GROUP''"

definition sql_objectToGroup_insertObject :: "'t sql_world \<Rightarrow> (obj \<Rightarrow> ('t, obj) db) \<Rightarrow> obj \<Rightarrow> ('t, unit) db" where
  "sql_objectToGroup_insertObject W base ob = modified_by W ''mysql_backend'' (insert_object W ''OBJECT_TO_GROUP'' base ob)"

definition sql_objectToGroup_updateObject :: "'t sql_world \<Rightarrow> (obj \<Rightarrow> ('t, obj) db) \<Rightarrow> obj \<Rightarrow> ('t, unit) db" where
  "sql_objectToGroup_updateObject W base ob = modified_by W ''mysql_backend'' (update_object W ''OBJECT_TO_GROUP'' base ob)"

definition sql_objectToGroup_getObjects :: "'t sql_world \<Rightarrow> string list \<Rightarrow> hash \<Rightarrow> ('t, obj list) db" where
  "sql_objectToGroup_getObjects W = get_objects W ''ObjectToGroup'' ''OBJECT_TO_GROUP'' give"

definition sql_objectToGroup_deleteObjects :: "'t sql_world \<Rightarrow> (obj list \<Rightarrow> ('t, unit) db) \<Rightarrow> obj list \<Rightarrow> ('t, unit) db" where
  "sql_objectToGroup_deleteObjects W = delete_each_object W ''ObjectToGroup'' ''OBJECT_TO_GROUP''"

section \<open>Licenses\<close>

definition sql_licenseContract_insertObject :: "'t sql_world \<Rightarrow> (obj \<Rightarrow> ('t, obj) db) \<Rightarrow> obj \<Rightarrow> ('t, unit) db" where
  "sql_licenseContract_insertObject W base ob = modified_by W ''license_management'' (insert_object W ''LICENSE_CONTRACT'' base ob)"

definition sql_licenseContract_updateObject :: "'t sql_world \<Rightarrow> (obj \<Rightarrow> ('t, obj) db) \<Rightarrow> obj \<Rightarrow> ('t, unit) db" where
  "sql_licenseContract_updateObject W base ob = modified_by W ''license_management'' (update_object W ''LICENSE_CONTRACT'' base ob)"

definition sql_licenseContract_getObjects :: "'t sql_world \<Rightarrow> string list \<Rightarrow> hash \<Rightarrow> ('t, obj list) db" where
  "sql_licenseContract_getObjects W = get_objects W ''LicenseContract'' ''LICENSE_CONTRACT'' (with_id W ''LicenseContract'')"

definition sql_licenseContract_deleteObjects :: "'t sql_world \<Rightarrow> (obj list \<Rightarrow> ('t, unit) db) \<Rightarrow> obj list \<Rightarrow> ('t, unit) db" where
  "sql_licenseContract_deleteObjects W base obs = modified_by W ''license_management'' (delete_each_object W ''LicenseContract'' ''LICENSE_CONTRACT'' base obs)"

definition sql_softwareLicense_insertObject :: "'t sql_world \<Rightarrow> (obj \<Rightarrow> ('t, obj) db) \<Rightarrow> obj \<Rightarrow> ('t, unit) db" where
  "sql_softwareLicense_insertObject W base ob = modified_by W ''license_management'' (insert_object W ''SOFTWARE_LICENSE'' base ob)"

definition sql_softwareLicense_updateObject :: "'t sql_world \<Rightarrow> (obj \<Rightarrow> ('t, obj) db) \<Rightarrow> obj \<Rightarrow> ('t, unit) db" where
  "sql_softwareLicense_updateObject W base ob = modified_by W ''license_management'' (update_object W ''SOFTWARE_LICENSE'' base ob)"

definition sql_softwareLicense_getObjects :: "'t sql_world \<Rightarrow> string list \<Rightarrow> hash \<Rightarrow> ('t, obj list) db" where
  "sql_softwareLicense_getObjects W = get_objects W ''SoftwareLicense'' ''SOFTWARE_LICENSE'' (with_id W ''SoftwareLicense'')"

definition sql_softwareLicense_deleteObjects :: "'t sql_world \<Rightarrow> (obj list \<Rightarrow> ('t, unit) db) \<Rightarrow> obj list \<Rightarrow> ('t, unit) db" where
  "sql_softwareLicense_deleteObjects W base obs = modified_by W ''license_management'' (delete_each_object W ''SoftwareLicense'' ''SOFTWARE_LICENSE'' base obs)"

text \<open>The products of a license pool are rows of a mapping.\<close>

definition pool_parts :: "hash \<Rightarrow> (backend_error, json list \<times> hash) result" where
  "pool_parts h = bindE (entry_of h ''productIds'') (\<lambda>p. bindE (strict_elements p) (\<lambda>ps. Inr (ps, AList.delete ''productIds'' h)))"

definition sql_licensePool_insertObject :: "'t sql_world \<Rightarrow> (obj \<Rightarrow> ('t, obj) db) \<Rightarrow> obj \<Rightarrow> ('t, unit) db" where
  "sql_licensePool_insertObject W base ob =
     modified_by W ''license_management'' (bindD (base ob) (\<lambda>ob. bindD (object_row W ob) (\<lambda>h.
       bindD (lift (pool_parts h)) (\<lambda>(ps, h). bindD (object_condition W ob) (\<lambda>c.
         bindD (put_row W ''LICENSE_POOL'' c h) (\<lambda>_.
           put_mapping W ''PRODUCT_ID_TO_LICENSE_POOL'' ''licensePoolId'' ''productId'' h ps))))))"

definition sql_licensePool_updateObject :: "'t sql_world \<Rightarrow> (obj \<Rightarrow> ('t, obj) db) \<Rightarrow> obj \<Rightarrow> ('t, unit) db" where
  "sql_licensePool_updateObject W base ob =
     modified_by W ''license_management'' (bindD (base ob) (\<lambda>ob. bindD (object_row W ob) (\<lambda>h. bindD (object_condition W ob) (\<lambda>c.
       bindD (lift (pool_parts h)) (\<lambda>(ps, h). bindD (update_rows W ''LICENSE_POOL'' c h False) (\<lambda>_.
         put_mapping W ''PRODUCT_ID_TO_LICENSE_POOL'' ''licensePoolId'' ''productId'' h ps))))))"

definition sql_licensePool_getObjects :: "'t sql_world \<Rightarrow> string list \<Rightarrow> hash \<Rightarrow> ('t, obj list) db" where
  "sql_licensePool_getObjects W attributes f =
     bindD (adjusted W ''LicensePool'' attributes f) (\<lambda>(as, f).
     bindD (narrow W ''PRODUCT_ID_TO_LICENSE_POOL'' ''licensePoolId'' ''productIds'' ''productId'' [] f) (\<lambda>f.
     case f of None \<Rightarrow> give [] | Some f \<Rightarrow>
       let wanted = as = [] \<or> ''productIds'' \<in> set as
       in bindD (query_rows W ''LICENSE_POOL'' (filter (\<lambda>a. a \<noteq> ''productIds'') as) f) (mapD (\<lambda>row.
            bindD (read_mapping W wanted ''PRODUCT_ID_TO_LICENSE_POOL'' ''licensePoolId'' ''productId'' ''productIds'' row) (\<lambda>row.
              bindD (with_id W ''LicensePool'' row) (\<lambda>row. lift (from_hash W ''LicensePool'' row)))))))"

definition sql_licensePool_deleteObjects :: "'t sql_world \<Rightarrow> (obj list \<Rightarrow> ('t, unit) db) \<Rightarrow> obj list \<Rightarrow> ('t, unit) db" where
  "sql_licensePool_deleteObjects W base obs =
     modified_by W ''license_management'' (bindD (base obs) (\<lambda>_. bindD (lift (of_class W ''LicensePool'' obs)) (eachD (\<lambda>ob.
       bindD (object_condition W ob) (\<lambda>c.
         bindD (delete_rows W ''PRODUCT_ID_TO_LICENSE_POOL'' (equals_text ''licensePoolId'' (forceUnicode (sql_lib W) (attr ob ''id'')))) (\<lambda>_.
           delete_rows W ''LICENSE_POOL'' c))))))"

definition sql_softwareLicenseToLicensePool_insertObject :: "'t sql_world \<Rightarrow> (obj \<Rightarrow> ('t, obj) db) \<Rightarrow> obj \<Rightarrow> ('t, unit) db" where
  "sql_softwareLicenseToLicensePool_insertObject W base ob = modified_by W ''license_management'' (insert_object W ''SOFTWARE_LICENSE_TO_LICENSE_POOL'' base ob)"

definition sql_softwareLicenseToLicensePool_updateObject :: "'t sql_world \<Rightarrow> (obj \<Rightarrow> ('t, obj) db) \<Rightarrow> obj \<Rightarrow> ('t, unit) db" where
  "sql_softwareLicenseToLicensePool_updateObject W base ob = modified_by W ''license_management'' (update_object W ''SOFTWARE_LICENSE_TO_LICENSE_POOL'' base ob)"

definition sql_softwareLicenseToLicensePool_getObjects :: "'t sql_world \<Rightarrow> string list \<Rightarrow> hash \<Rightarrow> ('t, obj list) db" where
  "sql_softwareLicenseToLicensePool_getObjects W = get_objects W ''SoftwareLicenseToLicensePool'' ''SOFTWARE_LICENSE_TO_LICENSE_POOL'' give"

definition sql_softwareLicenseToLicensePool_deleteObjects :: "'t sql_world \<Rightarrow> (obj list \<Rightarrow> ('t, unit) db) \<Rightarrow> obj list \<Rightarrow> ('t, unit) db" where
  "sql_softwareLicenseToLicensePool_deleteObjects W base obs = modified_by W ''license_management'' (delete_each_object W ''SoftwareLicenseToLicensePool'' ''SOFTWARE_LICENSE_TO_LICENSE_POOL'' base obs)"

definition sql_licenseOnClient_insertObject :: "'t sql_world \<Rightarrow> (obj \<Rightarrow> ('t, obj) db) \<Rightarrow> obj \<Rightarrow> ('t, unit) db" where
  "sql_licenseOnClient_insertObject W base ob = modified_by W ''license_management'' (insert_object W ''LICENSE_ON_CLIENT'' base ob)"

definition sql_licenseOnClient_updateObject :: "'t sql_world \<Rightarrow> (obj \<Rightarrow> ('t, obj) db) \<Rightarrow> obj \<Rightarrow> ('t, unit) db" where
  "sql_licenseOnClient_updateObject W base ob = modified_by W ''license_management'' (update_object W ''LICENSE_ON_CLIENT'' base ob)"

definition sql_licenseOnClient_getObjects :: "'t sql_world \<Rightarrow> string list \<Rightarrow> hash \<Rightarrow> ('t, obj list) db" where
  "sql_licenseOnClient_getObjects W = get_objects W ''LicenseOnClient'' ''LICENSE_ON_CLIENT'' give"

definition sql_licenseOnClient_deleteObjects :: "'t sql_world \<Rightarrow> (obj list \<Rightarrow> ('t, unit) db) \<Rightarrow> obj list \<Rightarrow> ('t, unit) db" where
  "sql_licenseOnClient_deleteObjects W = delete_each_object W ''LicenseOnClient'' ''LICENSE_ON_CLIENT''"

section \<open>Audited software\<close>

definition objects_of_hashes ::
  "'t sql_world \<Rightarrow> string \<Rightarrow> (string list \<Rightarrow> hash \<Rightarrow> ('t, hash list) db) \<Rightarrow> string list \<Rightarrow> hash \<Rightarrow> ('t, obj list) db" where
  "objects_of_hashes W cls hashes attributes f =
     bindD (lift (testFilterAndAttributes (possibleAttributes (sql_classes W) cls) [] f)) (\<lambda>_.
       bindD (hashes attributes f) (mapD (\<lambda>h. lift (from_hash W cls h))))"

definition sql_auditSoftware_insertObject :: "'t sql_world \<Rightarrow> (obj \<Rightarrow> ('t, obj) db) \<Rightarrow> obj \<Rightarrow> ('t, unit) db" where
  "sql_auditSoftware_insertObject W base ob = insert_object W ''SOFTWARE'' base ob"

definition sql_auditSoftware_updateObject :: "'t sql_world \<Rightarrow> (obj \<Rightarrow> ('t, obj) db) \<Rightarrow> obj \<Rightarrow> ('t, unit) db" where
  "sql_auditSoftware_updateObject W base ob = update_object W ''SOFTWARE'' base ob"

definition sql_auditSoftware_getHashes :: "'t sql_world \<Rightarrow> string list \<Rightarrow> hash \<Rightarrow> ('t, hash list) db" where
  "sql_auditSoftware_getHashes W attributes f =
     bindD (lift (adjustAttributes (sql_classes W) ''AuditSoftware'' attributes f)) (\<lambda>(as, f). query_rows W ''SOFTWARE'' as f)"

definition sql_auditSoftware_getObjects :: "'t sql_world \<Rightarrow> string list \<Rightarrow> hash \<Rightarrow> ('t, obj list) db" where
  "sql_auditSoftware_getObjects W = objects_of_hashes W ''AuditSoftware'' (sql_auditSoftware_getHashes W)"

definition sql_auditSoftware_deleteObjects :: "'t sql_world \<Rightarrow> (obj list \<Rightarrow> ('t, unit) db) \<Rightarrow> obj list \<Rightarrow> ('t, unit) db" where
  "sql_auditSoftware_deleteObjects W = delete_each_object W ''AuditSoftware'' ''SOFTWARE''"

definition sql_auditSoftwareToLicensePool_insertObject :: "'t sql_world \<Rightarrow> (obj \<Rightarrow> ('t, obj) db) \<Rightarrow> obj \<Rightarrow> ('t, unit) db" where
  "sql_auditSoftwareToLicensePool_insertObject W base ob = insert_object W ''AUDIT_SOFTWARE_TO_LICENSE_POOL'' base ob"

definition sql_auditSoftwareToLicensePool_updateObject :: "'t sql_world \<Rightarrow> (obj \<Rightarrow> ('t, obj) db) \<Rightarrow> obj \<Rightarrow> ('t, unit) db" where
  "sql_auditSoftwareToLicensePool_updateObject W base ob = update_object W ''AUDIT_SOFTWARE_TO_LICENSE_POOL'' base ob"

definition sql_auditSoftwareToLicensePool_getHashes :: "'t sql_world \<Rightarrow> string list \<Rightarrow> hash \<Rightarrow> ('t, hash list) db" where
  "sql_auditSoftwareToLicensePool_getHashes W attributes f =
     bindD (lift (adjustAttributes (sql_classes W) ''AuditSoftwareToLicensePool'' attributes f)) (\<lambda>(as, f). query_rows W ''AUDIT_SOFTWARE_TO_LICENSE_POOL'' as f)"

definition sql_auditSoftwareToLicensePool_getObjects :: "'t sql_world \<Rightarrow> string list \<Rightarrow> hash \<Rightarrow> ('t, obj list) db" where
  "sql_auditSoftwareToLicensePool_getObjects W = objects_of_hashes W ''AuditSoftwareToLicensePool'' (sql_auditSoftwareToLicensePool_getHashes W)"

definition sql_auditSoftwareToLicensePool_deleteObjects :: "'t sql_world \<Rightarrow> (obj list \<Rightarrow> ('t, unit) db) \<Rightarrow> obj list \<Rightarrow> ('t, unit) db" where
  "sql_auditSoftwareToLicensePool_deleteObjects W = delete_each_object W ''AuditSoftwareToLicensePool'' ''AUDIT_SOFTWARE_TO_LICENSE_POOL''"

definition sql_auditSoftwareOnClient_insertObject :: "'t sql_world \<Rightarrow> (obj \<Rightarrow> ('t, obj) db) \<Rightarrow> obj \<Rightarrow> ('t, unit) db" where
  "sql_auditSoftwareOnClient_insertObject W base ob = insert_object W ''SOFTWARE_CONFIG'' base ob"

definition sql_auditSoftwareOnClient_updateObject :: "'t sql_world \<Rightarrow> (obj \<Rightarrow> ('t, obj) db) \<Rightarrow> obj \<Rightarrow> ('t, unit) db" where
  "sql_auditSoftwareOnClient_updateObject W base ob = update_object W ''SOFTWARE_CONFIG'' base ob"

definition sql_auditSoftwareOnClient_getHashes :: "'t sql_world \<Rightarrow> string list \<Rightarrow> hash \<Rightarrow> ('t, hash list) db" where
  "sql_auditSoftwareOnClient_getHashes W attributes f =
     bindD (lift (adjustAttributes (sql_classes W) ''AuditSoftwareOnClient'' attributes f)) (\<lambda>(as, f). query_rows W ''SOFTWARE_CONFIG'' as f)"

definition sql_auditSoftwareOnClient_getObjects :: "'t sql_world \<Rightarrow> string list \<Rightarrow> hash \<Rightarrow> ('t, obj list) db" where
  "sql_auditSoftwareOnClient_getObjects W = objects_of_hashes W ''AuditSoftwareOnClient'' (sql_auditSoftwareOnClient_getHashes W)"

definition sql_auditSoftwareOnClient_deleteObjects :: "'t sql_world \<Rightarrow> (obj list \<Rightarrow> ('t, unit) db) \<Rightarrow> obj list \<Rightarrow> ('t, unit) db" where
  "sql_auditSoftwareOnClient_deleteObjects W = delete_each_object W ''AuditSoftwareOnClient'' ''SOFTWARE_CONFIG''"

end
