(* ===== verification/SqlStore.thy ===== *)
theory SqlStore
  imports SqlConditions SqlBackend ExtendedStore
begin

text \<open>
  Config states in a database: the methods of the SQL backend keep the promise of the locale \<open>object_store\<close>, over the
  reference for what MySQL and SQLite do with the statements. So the extended backend does over a database what it
  does over files.
\<close>

section \<open>Statements that are run\<close>

lemma strip_keeps:
  assumes "s \<noteq> []" and "\<forall>c \<in> set s. \<not> is_space c"
  shows "startswith (strip (s @ x)) s"
proof -
  have l: "dropWhile is_space (s @ x) = s @ x" using assms by (cases s) auto
  have "\<exists>y. dropWhile is_space (rev x @ rev s) = y @ rev s"
  proof (cases "\<forall>c \<in> set x. is_space c")
    case True
    have "dropWhile is_space (rev s) = rev s" using assms by (simp add: dropWhile_eq_self_iff hd_rev)
    then show ?thesis using True dropWhile_append2[of "rev x" is_space "rev s"] by (intro exI[of _ "[]"]) simp
  next
    case False
    then obtain c where "c \<in> set (rev x)" "\<not> is_space c" by auto
    then show ?thesis using dropWhile_append1[of c "rev x" is_space "rev s"] by blast
  qed
  then obtain y where "dropWhile is_space (rev (s @ x)) = y @ rev s" by auto
  then have "strip (s @ x) = s @ rev y" by (simp add: strip_def l)
  then show ?thesis by (simp add: startswith_def)
qed

lemma select_allowed: "onlyAllowSelect (statement_text (Select as t c)) = Inr ()"
proof -
  let ?r = "lower ('' '' @ (if as = [] then ''*'' else join_str '','' (map backquoted as)) @ '' from '' @ backquoted t @ (if c = [] then [] else '' where '' @ c))"
  have s: "lower ''select'' = ''select''" by code_simp
  have "lower (statement_text (Select as t c)) = ''select'' @ ?r"
    using s by (simp add: lower_def)
  moreover have "startswith (strip (''select'' @ ?r)) ''select''"
    by (rule strip_keeps) (simp_all add: is_space_def)
  ultimately have "list_ex (startswith (strip (lower (statement_text (Select as t c))))) [''select'', ''show'', ''pragma'']" by simp
  then show ?thesis unfolding onlyAllowSelect_def by simp
qed

lemma getSet_select: "execute_sql W (Select as t c) db = Inr (rows, n, db') \<Longrightarrow> getSet W (Select as t c) db = Inr (rows, db')"
  by (simp add: getSet_def select_allowed bindD_def lift_def del: statement_text.simps)

section \<open>Databases of config states\<close>

text \<open>
  What is used of opsicommon, and of the texts in \<open>I\<close> that name configurations and hosts: the collation tells
  them apart.
\<close>

definition state_world :: "bool \<Rightarrow> (string \<Rightarrow> string \<Rightarrow> bool) \<Rightarrow> string set \<Rightarrow> tables sql_world \<Rightarrow> bool" where
  "state_world b eq I W \<longleftrightarrow>
     sql_dialect W = dialect_of b \<and> execute_sql W = run b eq \<and> check_module W ''mysql_backend'' = Inr () \<and>
     mandatoryArgs (sql_classes W) ''ConfigState'' = [''configId'', ''objectId''] \<and>
     {''configId'', ''objectId''} \<subseteq> set (possibleAttributes (sql_classes W) ''ConfigState'') \<and>
     isSubclass (sql_classes W) ''ConfigState'' ''ConfigState'' \<and>
     subClassNames (sql_classes W) ''ConfigState'' = [] \<and>
     (\<forall>c \<in> {''Product'', ''HostGroup'', ''ProductGroup'', ''Entity''}. \<not> isSubclass (sql_classes W) ''ConfigState'' c) \<and>
     (\<forall>c h v. from_hash W ''ConfigState'' [(''configId'', JStr c), (''objectId'', JStr h), (''values'', v)] = Inr (config_state c h v)) \<and>
     (\<forall>c h. from_hash W ''ConfigState'' [(''configId'', JStr c), (''objectId'', JStr h)] = Inr (config_state c h JNull)) \<and>
     (\<forall>x \<in> I. \<forall>y \<in> I. eq x y \<longleftrightarrow> x = y)"

definition state_row :: "tables sql_world \<Rightarrow> string \<times> string \<times> json \<Rightarrow> hash" where
  "state_row W = (\<lambda>(c, h, v). [(''configId'', JStr c), (''objectId'', JStr h), (''values'', JStr (json_dumps W v))])"

definition dumps_ok :: "tables sql_world \<Rightarrow> json \<Rightarrow> bool" where
  "dumps_ok W v \<longleftrightarrow> json_loads W (JStr (json_dumps W v)) = Inr v"

definition plain_key :: "string \<Rightarrow> bool" where
  "plain_key s \<longleftrightarrow> CHR ''*'' \<notin> set s \<and> no_operator s"

definition sql_states :: "tables sql_world \<Rightarrow> string set \<Rightarrow> (string \<times> string \<times> json) list \<Rightarrow> bool" where
  "sql_states W I ss \<longleftrightarrow> distinct (map (\<lambda>(c, h, v). (c, h)) ss) \<and> list_all (\<lambda>(c, h, v). c \<in> I \<and> h \<in> I \<and> dumps_ok W v) ss"

definition states_inv :: "bool \<Rightarrow> (string \<Rightarrow> string \<Rightarrow> bool) \<Rightarrow> string set \<Rightarrow> tables sql_world \<Rightarrow> tables \<Rightarrow> bool" where
  "states_inv b eq I W db \<longleftrightarrow> state_world b eq I W \<and> (\<exists>ss. db ''CONFIG_STATE'' = map (state_row W) ss \<and> sql_states W I ss)"

definition row_state :: "tables sql_world \<Rightarrow> hash \<Rightarrow> (json \<times> json) \<times> obj" where
  "row_state W row =
     ((col row ''configId'', col row ''objectId''),
      \<lparr>o_class = ''ConfigState'', o_hash = [(''configId'', col row ''configId''), (''objectId'', col row ''objectId''),
         (''values'', case json_loads W (col row ''values'') of Inr v \<Rightarrow> v | Inl _ \<Rightarrow> JNull)], o_generated = False\<rparr>)"

definition sql_content :: "tables sql_world \<Rightarrow> tables \<Rightarrow> json \<times> json \<Rightarrow> obj option" where
  "sql_content W db = map_of (map (row_state W) (db ''CONFIG_STATE''))"

definition sql_state_ok :: "tables sql_world \<Rightarrow> string set \<Rightarrow> tables \<Rightarrow> obj \<Rightarrow> bool" where
  "sql_state_ok W I db ob \<longleftrightarrow>
     (\<exists>c h v. ob = config_state c h v \<and> c \<in> I \<and> h \<in> I \<and> plain_key c \<and> plain_key h \<and> v \<noteq> JNull \<and> dumps_ok W v)"

text \<open>The methods as the extended backend calls them; the checks of the base class find nothing to object to.\<close>

definition stored :: "('t, 'a) db \<Rightarrow> 't \<Rightarrow> (backend_error, 't) result" where
  "stored m t = bindE (m t) (\<lambda>(_, t'). Inr t')"

definition sql_same_state :: "tables sql_world \<Rightarrow> obj \<Rightarrow> tables \<Rightarrow> (backend_error, obj list \<times> tables) result" where
  "sql_same_state W ob = sql_configState_getObjects W [] [(''configId'', attr ob ''configId''), (''objectId'', attr ob ''objectId'')]"

section \<open>Rows of config states\<close>

lemma row_state_row: "dumps_ok W v \<Longrightarrow> row_state W (state_row W (c, h, v)) = ((JStr c, JStr h), config_state c h v)"
  by (simp add: row_state_def state_row_def col_def dumps_ok_def config_state_def)

lemma content_states:
  assumes "db ''CONFIG_STATE'' = map (state_row W) ss" and "sql_states W I ss"
  shows "sql_content W db = map_of (map (\<lambda>(c, h, v). ((JStr c, JStr h), config_state c h v)) ss)"
proof -
  have "map (row_state W) (map (state_row W) ss) = map (\<lambda>(c, h, v). ((JStr c, JStr h), config_state c h v)) ss"
    using assms(2) row_state_row by (auto simp: sql_states_def list_all_iff)
  then show ?thesis by (simp add: sql_content_def assms(1) del: map_map)
qed

lemma state_attrs [simp]:
  "attr (config_state c h v) ''configId'' = JStr c" "attr (config_state c h v) ''objectId'' = JStr h" "o_class (config_state c h v) = ''ConfigState''"
  by (simp_all add: config_state_def attr_def)

lemma state_identity:
  assumes "state_world b eq I W"
  shows "identity (sql_classes W) (config_state c h v) = [(''configId'', JStr c), (''objectId'', JStr h)]"
    "plain_identity (sql_classes W) (config_state c h v)"
proof -
  have m: "mandatoryArgs (sql_classes W) ''ConfigState'' = [''configId'', ''objectId'']"
    "\<not> isSubclass (sql_classes W) ''ConfigState'' ''HostGroup''" "\<not> isSubclass (sql_classes W) ''ConfigState'' ''ProductGroup''"
    using assms by (simp_all add: state_world_def)
  show i: "identity (sql_classes W) (config_state c h v) = [(''configId'', JStr c), (''objectId'', JStr h)]"
    by (simp add: identity_def m objectAttributeToDatabaseAttribute_def)
  show "plain_identity (sql_classes W) (config_state c h v)"
    by (simp add: plain_identity_def i plain_column_def plain_text_def simple_value_def is_word_def is_digit_def less_eq_char_def)
qed

lemma state_condition:
  assumes "state_world b eq I W" and "c \<in> I" and "h \<in> I"
  shows "\<exists>q p. uniqueCondition (sql_dialect W) (sql_lib W) (sql_classes W) (config_state c h v) = Inr q \<and> q \<noteq> [] \<and>
    condition_meaning b eq q = Some p \<and> (\<forall>c' h' v'. c' \<in> I \<longrightarrow> h' \<in> I \<longrightarrow> p (state_row W (c', h', v')) = (c' = c \<and> h' = h))"
proof -
  have d: "sql_dialect W = dialect_of b" and e: "\<forall>x \<in> I. \<forall>y \<in> I. eq x y \<longleftrightarrow> x = y" using assms(1) by (auto simp: state_world_def)
  obtain q p where q: "uniqueCondition (dialect_of b) (sql_lib W) (sql_classes W) (config_state c h v) = Inr q" "q \<noteq> []"
    "condition_meaning b eq q = Some p" "\<And>row. p row \<longleftrightarrow> identity_holds eq [(''configId'', JStr c), (''objectId'', JStr h)] row"
    using unique_condition[OF state_identity(2)[OF assms(1)], of c h v b "sql_lib W" eq] unfolding state_identity(1)[OF assms(1)] by auto
  have "p (state_row W (c', h', v')) = (c' = c \<and> h' = h)" if "c' \<in> I" "h' \<in> I" for c' h' v'
    using e assms(2,3) that by (simp add: q(4) identity_holds_def state_row_def col_def value_holds_def text_eq_def)
  then show ?thesis using q(1-3) d by auto
qed

lemma state_hash:
  assumes "state_world b eq I W"
  shows "bindE (objectToDatabaseHash (sql_classes W) (config_state c h v)) (dump_values W) = Inr (state_row W (c, h, v))"
proof -
  have "\<not> isSubclass (sql_classes W) ''ConfigState'' ''Product''" using assms by (simp add: state_world_def)
  then have "objectToDatabaseHash (sql_classes W) (config_state c h v) = Inr [(''configId'', JStr c), (''objectId'', JStr h), (''values'', v)]"
    by (simp add: objectToDatabaseHash_def config_state_def objectAttributeToDatabaseAttribute_def Let_def)
  then show ?thesis by (simp add: dump_values_def entry_of_def state_row_def)
qed

section \<open>Changes of the states\<close>

abbreviation state_pair :: "string \<times> string \<times> json \<Rightarrow> (json \<times> json) \<times> obj" where
  "state_pair \<equiv> (\<lambda>(c, h, v). ((JStr c, JStr h), config_state c h v))"

definition set_state_of :: "string \<Rightarrow> string \<Rightarrow> json \<Rightarrow> (string \<times> string \<times> json) list \<Rightarrow> (string \<times> string \<times> json) list" where
  "set_state_of c h v ss = map (\<lambda>(c', h', v'). if c' = c \<and> h' = h then (c, h, v) else (c', h', v')) ss"

definition has_state :: "string \<Rightarrow> string \<Rightarrow> (string \<times> string \<times> json) list \<Rightarrow> bool" where
  "has_state c h ss = list_ex (\<lambda>(c', h', v'). c' = c \<and> h' = h) ss"

lemma has_state_content: "has_state c h ss \<longleftrightarrow> map_of (map state_pair ss) (JStr c, JStr h) \<noteq> None"
  by (induction ss) (auto simp: has_state_def)

lemma set_state_content:
  "has_state c h ss \<Longrightarrow> map_of (map state_pair (set_state_of c h v ss)) = (map_of (map state_pair ss))((JStr c, JStr h) \<mapsto> config_state c h v)"
proof (induction ss)
  case (Cons s ss)
  obtain c' h' v' where s: "s = (c', h', v')" by (cases s)
  show ?case
  proof (cases "has_state c h ss")
    case True
    then show ?thesis using Cons.IH by (auto simp: s set_state_of_def fun_eq_iff)
  next
    case False
    then have "set_state_of c h v ss = ss" by (induction ss) (auto simp: set_state_of_def has_state_def split: if_splits)
    moreover have "c' = c \<and> h' = h" using Cons.prems False by (simp add: has_state_def s)
    ultimately show ?thesis by (simp add: s set_state_of_def fun_eq_iff)
  qed
qed (simp add: has_state_def)

lemma add_state_content:
  "\<not> has_state c h ss \<Longrightarrow> map_of (map state_pair (ss @ [(c, h, v)])) = (map_of (map state_pair ss))((JStr c, JStr h) \<mapsto> config_state c h v)"
  using has_state_content[of c h ss] by (auto simp: fun_eq_iff map_add_def split: option.split)

lemma set_states:
  assumes "sql_states W I ss" and "c \<in> I" and "h \<in> I" and "dumps_ok W v"
  shows "sql_states W I (set_state_of c h v ss)"
proof -
  have "map (\<lambda>(c, h, v). (c, h)) (set_state_of c h v ss) = map (\<lambda>(c, h, v). (c, h)) ss"
    by (auto simp: set_state_of_def)
  then have "distinct (map (\<lambda>(c, h, v). (c, h)) (set_state_of c h v ss))" using assms(1) unfolding sql_states_def by metis
  moreover have "list_all (\<lambda>(c, h, v). c \<in> I \<and> h \<in> I \<and> dumps_ok W v) (set_state_of c h v ss)"
    using assms by (auto simp: sql_states_def set_state_of_def list_all_iff split: if_splits)
  ultimately show ?thesis unfolding sql_states_def by blast
qed

lemma add_states:
  assumes "sql_states W I ss" and "c \<in> I" and "h \<in> I" and "dumps_ok W v" and "\<not> has_state c h ss"
  shows "sql_states W I (ss @ [(c, h, v)])"
  using assms by (force simp: sql_states_def has_state_def list_ex_iff)

lemma keep_states:
  assumes "sql_states W I ss"
  shows "sql_states W I (filter P ss)"
  using assms by (auto simp: sql_states_def list_all_iff distinct_map_filter)

lemma drop_state_content:
  "map_of (map state_pair (filter (\<lambda>(c', h', v'). \<not> (c' = c \<and> h' = h)) ss)) k = (if k = (JStr c, JStr h) then None else map_of (map state_pair ss) k)"
  by (induction ss) auto

lemma found_states:
  "distinct (map (\<lambda>(c, h, v). (c, h)) ss) \<Longrightarrow>
   map (\<lambda>(c, h, v). config_state c h v) (filter (\<lambda>(c', h', v'). c' = c \<and> h' = h) ss) =
     (case map_of (map state_pair ss) (JStr c, JStr h) of None \<Rightarrow> [] | Some old \<Rightarrow> [old])"
proof (induction ss)
  case (Cons s ss)
  obtain c' h' v' where s: "s = (c', h', v')" by (cases s)
  show ?case
  proof (cases "c' = c \<and> h' = h")
    case True
    have "filter (\<lambda>(c', h', v'). c' = c \<and> h' = h) ss = []"
      using Cons.prems True by (force simp: s filter_empty_conv)
    then show ?thesis using True by (simp add: s)
  next
    case False
    then show ?thesis using Cons by (auto simp: s)
  qed
qed simp

section \<open>The methods on states\<close>

lemma select_states:
  assumes "state_world b eq I W" and "db ''CONFIG_STATE'' = map (state_row W) ss" and "sql_states W I ss"
    and "q \<noteq> []" and "condition_meaning b eq q = Some p"
    and "\<forall>c' h' v'. c' \<in> I \<longrightarrow> h' \<in> I \<longrightarrow> p (state_row W (c', h', v')) = (c' = c \<and> h' = h)"
  shows "getRow W (Select [] ''CONFIG_STATE'' q) db =
    Inr (if has_state c h ss then Some (state_row W (hd (filter (\<lambda>(c', h', v'). c' = c \<and> h' = h) ss))) else None, db)"
proof -
  have "\<forall>s \<in> set ss. p (state_row W s) = (\<lambda>(c', h', v'). c' = c \<and> h' = h) s" using assms(3,6) by (auto simp: sql_states_def list_all_iff)
  then have f: "filter p (map (state_row W) ss) = map (state_row W) (filter (\<lambda>(c', h', v'). c' = c \<and> h' = h) ss)"
    by (auto simp: filter_map comp_def cong: filter_cong)
  have "execute_sql W = run b eq" using assms(1) by (simp add: state_world_def)
  moreover have "run b eq (Select [] ''CONFIG_STATE'' q) db = Inr (map (state_row W) (filter (\<lambda>(c', h', v'). c' = c \<and> h' = h) ss), 0, db)"
    using assms(4,5) by (simp add: where_rows_def assms(2) f pick_def[abs_def])
  moreover have "has_state c h ss \<longleftrightarrow> filter (\<lambda>(c', h', v'). c' = c \<and> h' = h) ss \<noteq> []"
    by (auto simp: has_state_def list_ex_iff filter_empty_conv)
  ultimately show ?thesis
    using getSet_select[of W "[]" "''CONFIG_STATE''" q db]
    by (cases "filter (\<lambda>(c', h', v'). c' = c \<and> h' = h) ss") (simp_all add: getRow_def bindD_def del: run.simps)
qed

lemma set_columns_row: "set_columns [''configId'', ''objectId'', ''values''] (state_row W (c, h, v)) (state_row W (c', h', v')) = state_row W (c, h, v)"
  by (simp add: set_columns_def state_row_def col_def)

lemma update_states:
  assumes "state_world b eq I W" and "db ''CONFIG_STATE'' = map (state_row W) ss" and "sql_states W I ss"
    and "condition_meaning b eq q = Some p"
    and "\<forall>c' h' v'. c' \<in> I \<longrightarrow> h' \<in> I \<longrightarrow> p (state_row W (c', h', v')) = (c' = c \<and> h' = h)"
  shows "\<exists>n. update_rows W ''CONFIG_STATE'' q (state_row W (c, h, v)) z db =
    Inr (n, db(''CONFIG_STATE'' := map (state_row W) (set_state_of c h v ss)))"
proof -
  have ks: "map fst (filter (\<lambda>(k, v). v \<noteq> JNull \<or> z) (state_row W (c, h, v))) = [''configId'', ''objectId'', ''values'']"
    by (simp add: state_row_def)
  have "execute_sql W = run b eq" using assms(1) by (simp add: state_world_def)
  moreover have "map (\<lambda>row. if p row then set_columns [''configId'', ''objectId'', ''values''] (state_row W (c, h, v)) row else row) (map (state_row W) ss) =
      map (state_row W) (set_state_of c h v ss)"
    using assms(3,5) by (auto simp: set_state_of_def set_columns_row sql_states_def list_all_iff)
  ultimately show ?thesis
    using assms(4) ks by (simp add: update_rows_def sql_update_def change_def bindD_def lift_def where_rows_def assms(2) del: map_map)
      (simp add: state_row_def)
qed

lemma erase_state_row:
  assumes "state_world b eq I W" and "db ''CONFIG_STATE'' = map (state_row W) ss" and "sql_states W I ss" and "c \<in> I" and "h \<in> I"
  shows "delete_object W ''CONFIG_STATE'' (config_state c h v) db =
    Inr ((), db(''CONFIG_STATE'' := map (state_row W) (filter (\<lambda>(c', h', v'). \<not> (c' = c \<and> h' = h)) ss)))"
proof -
  obtain q p where q: "uniqueCondition (sql_dialect W) (sql_lib W) (sql_classes W) (config_state c h v) = Inr q"
    "condition_meaning b eq q = Some p" "\<forall>c' h' v'. c' \<in> I \<longrightarrow> h' \<in> I \<longrightarrow> p (state_row W (c', h', v')) = (c' = c \<and> h' = h)"
    using state_condition[OF assms(1,4,5), of v] by blast
  have "\<forall>s \<in> set ss. p (state_row W s) = (\<lambda>(c', h', v'). c' = c \<and> h' = h) s" using assms(3) q(3) by (auto simp: sql_states_def list_all_iff)
  then have f: "filter (\<lambda>row. \<not> p row) (map (state_row W) ss) = map (state_row W) (filter (\<lambda>(c', h', v'). \<not> (c' = c \<and> h' = h)) ss)"
    by (auto simp: filter_map comp_def intro!: arg_cong[where f = "map (state_row W)"] filter_cong)
  have "execute_sql W = run b eq" using assms(1) by (simp add: state_world_def)
  then show ?thesis
    using q(1,2) f by (simp add: delete_object_def object_condition_def delete_rows_def change_def sql_delete_def bindD_def lift_def where_rows_def assms(2) del: filter_map)
qed

lemma put_states:
  assumes "state_world b eq I W" and "db ''CONFIG_STATE'' = map (state_row W) ss" and "sql_states W I ss" and "c \<in> I" and "h \<in> I" and "dumps_ok W v"
  shows "\<exists>ss'. insert_dumped W ''CONFIG_STATE'' (config_state c h v) db = Inr ((), db(''CONFIG_STATE'' := map (state_row W) ss')) \<and>
    sql_states W I ss' \<and> map_of (map state_pair ss') = (map_of (map state_pair ss))((JStr c, JStr h) \<mapsto> config_state c h v)"
proof -
  obtain q p where q: "uniqueCondition (sql_dialect W) (sql_lib W) (sql_classes W) (config_state c h v) = Inr q" "q \<noteq> []"
    "condition_meaning b eq q = Some p" "\<forall>c' h' v'. c' \<in> I \<longrightarrow> h' \<in> I \<longrightarrow> p (state_row W (c', h', v')) = (c' = c \<and> h' = h)"
    using state_condition[OF assms(1,4,5), of v] by blast
  obtain x where x: "objectToDatabaseHash (sql_classes W) (config_state c h v) = Inr x" "dump_values W x = Inr (state_row W (c, h, v))"
    using state_hash[OF assms(1), of c h v] by (cases "objectToDatabaseHash (sql_classes W) (config_state c h v)") auto
  have ins: "insert_dumped W ''CONFIG_STATE'' (config_state c h v) db = put_row W ''CONFIG_STATE'' q (state_row W (c, h, v)) db"
    by (simp add: insert_dumped_def object_row_def object_condition_def x q(1))
  note row = select_states[where db = db and p = p and c = c and h = h, OF assms(1-3) q(2-4)]
  show ?thesis
  proof (cases "has_state c h ss")
    case True
    obtain n where "update_rows W ''CONFIG_STATE'' q (state_row W (c, h, v)) True db =
        Inr (n, db(''CONFIG_STATE'' := map (state_row W) (set_state_of c h v ss)))"
      using update_states[where db = db and p = p and c = c and h = h and v = v and z = True, OF assms(1-3) q(3,4)] by blast
    then show ?thesis unfolding ins
      using True row set_states[OF assms(3-6)] set_state_content[OF True, of v]
      by (intro exI[of _ "set_state_of c h v ss"]) (simp add: put_row_def bindD_def)
  next
    case False
    have "execute_sql W = run b eq" using assms(1) by (simp add: state_world_def)
    then have "insert_row W ''CONFIG_STATE'' (state_row W (c, h, v)) db = Inr ((), db(''CONFIG_STATE'' := map (state_row W) (ss @ [(c, h, v)])))"
      by (simp add: insert_row_def change_def sql_insert_def bindD_def lift_def assms(2)) (simp add: state_row_def)
    then show ?thesis unfolding ins
      using False row add_states[OF assms(3-6) False] add_state_content[OF False, of v]
      by (intro exI[of _ "ss @ [(c, h, v)]"]) (simp add: put_row_def bindD_def)
  qed
qed

lemma change_states:
  assumes "state_world b eq I W" and "db ''CONFIG_STATE'' = map (state_row W) ss" and "sql_states W I ss" and "c \<in> I" and "h \<in> I" and "dumps_ok W v"
    and "has_state c h ss"
  shows "\<exists>ss'. update_dumped W ''CONFIG_STATE'' (config_state c h v) db = Inr ((), db(''CONFIG_STATE'' := map (state_row W) ss')) \<and>
    sql_states W I ss' \<and> map_of (map state_pair ss') = (map_of (map state_pair ss))((JStr c, JStr h) \<mapsto> config_state c h v)"
proof -
  obtain q p where q: "uniqueCondition (sql_dialect W) (sql_lib W) (sql_classes W) (config_state c h v) = Inr q" "q \<noteq> []"
    "condition_meaning b eq q = Some p" "\<forall>c' h' v'. c' \<in> I \<longrightarrow> h' \<in> I \<longrightarrow> p (state_row W (c', h', v')) = (c' = c \<and> h' = h)"
    using state_condition[OF assms(1,4,5), of v] by blast
  obtain x where x: "objectToDatabaseHash (sql_classes W) (config_state c h v) = Inr x" "dump_values W x = Inr (state_row W (c, h, v))"
    using state_hash[OF assms(1), of c h v] by (cases "objectToDatabaseHash (sql_classes W) (config_state c h v)") auto
  obtain n where "update_rows W ''CONFIG_STATE'' q (state_row W (c, h, v)) False db =
      Inr (n, db(''CONFIG_STATE'' := map (state_row W) (set_state_of c h v ss)))"
    using update_states[where db = db and p = p and c = c and h = h and v = v and z = False, OF assms(1-3) q(3,4)] by blast
  then show ?thesis
    using set_states[OF assms(3-6)] set_state_content[OF assms(7), of v]
    by (intro exI[of _ "set_state_of c h v ss"]) (simp add: update_dumped_def object_row_def object_condition_def x q(1), simp add: bindD_def)
qed

section \<open>Getting states\<close>

lemma mapD_pure: "(\<And>x t. x \<in> set xs \<Longrightarrow> f x t = Inr (g x, t)) \<Longrightarrow> mapD f xs t = Inr (map g xs, t)"
  by (induction xs) (simp_all add: bindD_def)

lemma state_filter_plain: "plain_key c \<Longrightarrow> plain_key h \<Longrightarrow> list_all plain_asked (state_filter c h)"
  by (simp add: state_filter_def plain_asked_def plain_column_def plain_text_def forceList_def plain_value_def plain_key_def)

lemma state_filter_holds:
  assumes "state_world b eq I W" and "c \<in> I" and "h \<in> I" and "c' \<in> I" and "h' \<in> I"
  shows "filter_holds eq (state_filter c h) (state_row W (c', h', v')) = (c' = c \<and> h' = h)"
proof -
  have "\<forall>x \<in> I. \<forall>y \<in> I. eq x y \<longleftrightarrow> x = y" using assms(1) by (simp add: state_world_def)
  then show ?thesis using assms(2-5)
    by (simp add: filter_holds_def asks_def asked_holds_def state_filter_def forceList_def value_holds_def text_eq_def state_row_def col_def)
qed

lemma adjusted_states:
  assumes "state_world b eq I W" and "as = [] \<or> as = [''configId'', ''objectId'']"
  shows "adjusted W ''ConfigState'' as (state_filter c h) = give (as, state_filter c h)"
proof -
  have w: "{''configId'', ''objectId''} \<subseteq> set (possibleAttributes (sql_classes W) ''ConfigState'')"
    "\<not> isSubclass (sql_classes W) ''ConfigState'' ''Entity''" "subClassNames (sql_classes W) ''ConfigState'' = []"
    "mandatoryArgs (sql_classes W) ''ConfigState'' = [''configId'', ''objectId'']" using assms(1) by (simp_all add: state_world_def)
  have t: "testFilterAndAttributes (possibleAttributes (sql_classes W) ''ConfigState'') [] (state_filter c h) = Inr ()"
    using w(1) by (simp add: testFilterAndAttributes_def state_filter_def)
  have "adjustAttributes (sql_classes W) ''ConfigState'' as (state_filter c h) = Inr (as, state_filter c h)"
    using assms(2) w
    by (elim disjE) (simp_all add: adjustAttributes_def state_filter_def needed_attributes_def rename_key_def objectAttributeToDatabaseAttribute_def Let_def)
  then show ?thesis using t by (simp add: adjusted_def lift_def fun_eq_iff)
qed

lemma get_states:
  assumes "state_world b eq I W" and "db ''CONFIG_STATE'' = map (state_row W) ss" and "sql_states W I ss"
    and "c \<in> I" and "h \<in> I" and "plain_key c" and "plain_key h"
  shows "sql_configState_getObjects W [] (state_filter c h) db =
      Inr (case map_of (map state_pair ss) (JStr c, JStr h) of None \<Rightarrow> [] | Some old \<Rightarrow> [old], db)"
    "\<exists>hs. sql_configState_getObjects W [''configId'', ''objectId''] (state_filter c h) db = Inr (hs, db) \<and>
      (hs = [] \<longleftrightarrow> map_of (map state_pair ss) (JStr c, JStr h) = None)"
proof -
  let ?found = "filter (\<lambda>(c', h', v'). c' = c \<and> h' = h) ss"
  have w: "execute_sql W = run b eq" "sql_dialect W = dialect_of b" using assms(1) by (simp_all add: state_world_def)
  have mk: "from_hash W ''ConfigState'' [(''configId'', JStr c), (''objectId'', JStr h), (''values'', v)] = Inr (config_state c h v)"
    "from_hash W ''ConfigState'' [(''configId'', JStr c), (''objectId'', JStr h)] = Inr (config_state c h JNull)" for c h v
    using assms(1) by (simp_all add: state_world_def)
  have "\<forall>s \<in> set ss. filter_holds eq (state_filter c h) (state_row W s) = (\<lambda>(c', h', v'). c' = c \<and> h' = h) s"
    using state_filter_holds[OF assms(1,4,5)] assms(3) by (auto simp: sql_states_def list_all_iff)
  then have f: "filter (filter_holds eq (state_filter c h)) (db ''CONFIG_STATE'') = map (state_row W) ?found"
    unfolding assms(2) by (auto simp: filter_map comp_def cong: filter_cong)
  have q: "query_rows W ''CONFIG_STATE'' as (state_filter c h) db = Inr (map (pick as \<circ> state_row W) ?found, db)" for as
  proof -
    obtain q where "createQuery (dialect_of b) (sql_lib W) ''CONFIG_STATE'' as (state_filter c h) = Inr (Select as ''CONFIG_STATE'' q)"
      "run b eq (Select as ''CONFIG_STATE'' q) db = Inr (map (pick as) (map (state_row W) ?found), 0, db)"
      using query_reads[OF state_filter_plain[OF assms(6,7)], of b "sql_lib W" "''CONFIG_STATE''" as eq] f
      by (auto simp: where_rows_def split: if_splits)
    then show ?thesis using getSet_select[of W as "''CONFIG_STATE''" q db] w
      by (simp add: query_rows_def bindD_def lift_def del: run.simps)
  qed
  have ok: "dumps_ok W v'" if "(c', h', v') \<in> set ?found" for c' h' v' using assms(3) that by (auto simp: sql_states_def list_all_iff)
  let ?make = "\<lambda>row. bindD (load_values W row) (\<lambda>row. lift (from_hash W ''ConfigState'' row))"
  have g: "sql_configState_getObjects W as (state_filter c h) db = mapD ?make (map (pick as \<circ> state_row W) ?found) db"
    if "as = [] \<or> as = [''configId'', ''objectId'']" for as
    using adjusted_states[OF assms(1) that, of c h] q[of as] by (simp add: sql_configState_getObjects_def get_objects_def bindD_def[of "query_rows W ''CONFIG_STATE'' as (state_filter c h)"])
  have load: "?make (state_row W (c', h', v')) t = Inr (config_state c' h' v', t)" if "dumps_ok W v'" for c' h' v' t
    using that by (simp add: load_values_def state_row_def dumps_ok_def mk lift_def bindD_def)
  have "mapD ?make (map (state_row W) ?found) db = Inr (map (\<lambda>row. snd (row_state W row)) (map (state_row W) ?found), db)"
    by (rule mapD_pure) (use load ok row_state_row in auto)
  also have "map (\<lambda>row. snd (row_state W row)) (map (state_row W) ?found) = map (\<lambda>(c, h, v). config_state c h v) ?found"
    using ok row_state_row by auto
  also have "\<dots> = (case map_of (map state_pair ss) (JStr c, JStr h) of None \<Rightarrow> [] | Some old \<Rightarrow> [old])"
    by (rule found_states) (use assms(3) in \<open>simp add: sql_states_def\<close>)
  finally show "sql_configState_getObjects W [] (state_filter c h) db =
      Inr (case map_of (map state_pair ss) (JStr c, JStr h) of None \<Rightarrow> [] | Some old \<Rightarrow> [old], db)"
    using g[of "[]"] by (simp add: pick_def comp_def)
  have "mapD ?make (map (pick [''configId'', ''objectId''] \<circ> state_row W) ?found) db =
      Inr (map (\<lambda>row. case row of (_, JStr c) # (_, JStr h) # _ \<Rightarrow> config_state c h JNull | _ \<Rightarrow> config_state [] [] JNull)
        (map (pick [''configId'', ''objectId''] \<circ> state_row W) ?found), db)"
    by (rule mapD_pure) (auto simp: pick_def state_row_def col_def load_values_def mk lift_def)
  moreover have "?found = [] \<longleftrightarrow> map_of (map state_pair ss) (JStr c, JStr h) = None"
    using has_state_content[of c h ss] by (auto simp: has_state_def list_ex_iff filter_empty_conv)
  ultimately show "\<exists>hs. sql_configState_getObjects W [''configId'', ''objectId''] (state_filter c h) db = Inr (hs, db) \<and>
      (hs = [] \<longleftrightarrow> map_of (map state_pair ss) (JStr c, JStr h) = None)"
    using g[of "[''configId'', ''objectId'']"] by simp
qed

section \<open>The promise is kept\<close>

text \<open>The checks of the base class are off, and setting the defaults of a state with values changes nothing.\<close>

definition no_checks :: "(obj \<Rightarrow> obj) \<Rightarrow> options \<Rightarrow> bool" where
  "no_checks sd p \<longleftrightarrow> \<not> checked p \<and> (\<forall>c h v. v \<noteq> JNull \<longrightarrow> sd (config_state c h v) = config_state c h v)"

abbreviation state_base :: "(obj \<Rightarrow> obj) \<Rightarrow> options \<Rightarrow> tables backend \<Rightarrow> obj \<Rightarrow> (tables, obj) db" where
  "state_base sd p B \<equiv> (\<lambda>ob. from_act (base_configState_insertObject sd p B ob))"

lemma state_base: "no_checks sd p \<Longrightarrow> v \<noteq> JNull \<Longrightarrow> state_base sd p B (config_state c h v) = give (config_state c h v)"
  by (simp add: no_checks_def base_configState_insertObject_def Let_def from_act_def ret_def give_def fun_eq_iff del: db_simps(4))

lemma sql_state_okE:
  assumes "sql_state_ok W I db ob"
  obtains c h v where "ob = config_state c h v" "c \<in> I" "h \<in> I" "plain_key c" "plain_key h" "v \<noteq> JNull" "dumps_ok W v"
  using assms unfolding sql_state_ok_def by blast

lemma states_invE:
  assumes "states_inv b eq I W db"
  obtains ss where "state_world b eq I W" "db ''CONFIG_STATE'' = map (state_row W) ss" "sql_states W I ss"
    "sql_content W db = map_of (map state_pair ss)"
  using assms content_states unfolding states_inv_def by blast

lemma states_invI:
  "state_world b eq I W \<Longrightarrow> sql_states W I ss \<Longrightarrow> states_inv b eq I W (db(''CONFIG_STATE'' := map (state_row W) ss)) \<and>
     sql_content W (db(''CONFIG_STATE'' := map (state_row W) ss)) = map_of (map state_pair ss)"
  using content_states[of "db(''CONFIG_STATE'' := map (state_row W) ss)" W ss I] unfolding states_inv_def by auto

lemma sql_ok_same: "sql_state_ok W I db = sql_state_ok W I db'"
  by (simp add: sql_state_ok_def fun_eq_iff)

definition drop_state :: "obj \<Rightarrow> (string \<times> string \<times> json) list \<Rightarrow> (string \<times> string \<times> json) list" where
  "drop_state ob ss = filter (\<lambda>(c, h, v). \<not> (JStr c = attr ob ''configId'' \<and> JStr h = attr ob ''objectId'')) ss"

lemma erase_states:
  assumes "state_world b eq I W" and "db ''CONFIG_STATE'' = map (state_row W) ss" and "sql_states W I ss" and "\<forall>ob \<in> set obs. sql_state_ok W I db ob"
  shows "\<exists>ss'. eachD (delete_object W ''CONFIG_STATE'') obs db = Inr ((), db(''CONFIG_STATE'' := map (state_row W) ss')) \<and> sql_states W I ss' \<and>
    (\<forall>k. map_of (map state_pair ss') k = (if k \<in> state_ident ` set obs then None else map_of (map state_pair ss) k))"
  using assms(2-4)
proof (induction obs arbitrary: db ss)
  case Nil
  then show ?case by (intro exI[of _ ss]) (simp add: fun_upd_idem)
next
  case (Cons ob obs)
  obtain c h v where ob: "ob = config_state c h v" "c \<in> I" "h \<in> I" using Cons.prems(3) sql_state_okE by (metis list.set_intros(1))
  let ?ss = "filter (\<lambda>(c', h', v'). \<not> (c' = c \<and> h' = h)) ss"
  let ?db = "db(''CONFIG_STATE'' := map (state_row W) ?ss)"
  have step: "delete_object W ''CONFIG_STATE'' ob db = Inr ((), ?db)"
    unfolding ob(1) by (rule erase_state_row[where db = db and ss = ss, OF assms(1) Cons.prems(1,2) ob(2,3)])
  have "\<forall>ob \<in> set obs. sql_state_ok W I ?db ob" using Cons.prems(3) sql_ok_same[of W I ?db db] by auto
  then obtain ss' where ss': "eachD (delete_object W ''CONFIG_STATE'') obs ?db = Inr ((), ?db(''CONFIG_STATE'' := map (state_row W) ss'))"
    "sql_states W I ss'" "\<forall>k. map_of (map state_pair ss') k = (if k \<in> state_ident ` set obs then None else map_of (map state_pair ?ss) k)"
    using Cons.IH[where db = ?db and ss = ?ss, OF fun_upd_same keep_states[OF Cons.prems(2)]] by blast
  have i: "state_ident ob = (JStr c, JStr h)" by (simp add: ob(1) state_ident_def)
  have k: "\<forall>k. map_of (map state_pair ss') k = (if k \<in> state_ident ` set (ob # obs) then None else map_of (map state_pair ss) k)"
    using ss'(3) i unfolding drop_state_content by simp
  have "eachD (delete_object W ''CONFIG_STATE'') (ob # obs) db = Inr ((), db(''CONFIG_STATE'' := map (state_row W) ss'))"
    using step ss'(1) by (simp add: bindD_def)
  then show ?case using ss'(2) k by blast
qed

interpretation state_tables: object_store
  "\<lambda>ob. stored (sql_configState_insertObject W (state_base sd p B) ob)" "\<lambda>ob. stored (sql_configState_updateObject W give ob)"
  "\<lambda>obs. stored (sql_configState_deleteObjects W (\<lambda>_. give ()) obs)" "sql_same_state W"
  state_ident "sql_content W" "\<lambda>old new. new" "\<lambda>db. no_checks sd p \<and> states_inv b eq I W db" "sql_state_ok W I"
  for W sd p B b eq I
proof (unfold_locales, goal_cases)
  case (1 db ob)
  then obtain ss where ss: "state_world b eq I W" "db ''CONFIG_STATE'' = map (state_row W) ss" "sql_states W I ss"
    "sql_content W db = map_of (map state_pair ss)" using states_invE by blast
  obtain c h v where ob: "ob = config_state c h v" "c \<in> I" "h \<in> I" "v \<noteq> JNull" "dumps_ok W v" using 1(2) sql_state_okE by blast
  obtain ss' where ss': "insert_dumped W ''CONFIG_STATE'' ob db = Inr ((), db(''CONFIG_STATE'' := map (state_row W) ss'))"
    "sql_states W I ss'" "map_of (map state_pair ss') = (map_of (map state_pair ss))((JStr c, JStr h) \<mapsto> ob)"
    using put_states[where db = db, OF ss(1-3) ob(2,3,5)] unfolding ob(1) by blast
  have "check_module W ''mysql_backend'' = Inr ()" using ss(1) by (simp add: state_world_def)
  then have "stored (sql_configState_insertObject W (state_base sd p B) ob) db = Inr (db(''CONFIG_STATE'' := map (state_row W) ss'))"
    using ss'(1) state_base[of sd p v B c h] 1(1) ob(1,4) by (simp add: stored_def sql_configState_insertObject_def modified_by_def)
  then show ?case using states_invI[OF ss(1) ss'(2), of db] ss'(3) ss(4) 1(1) sql_ok_same
    by (intro exI[of _ "db(''CONFIG_STATE'' := map (state_row W) ss')"]) (auto simp: state_ident_def ob(1))
next
  case (2 db ob old)
  then obtain ss where ss: "state_world b eq I W" "db ''CONFIG_STATE'' = map (state_row W) ss" "sql_states W I ss"
    "sql_content W db = map_of (map state_pair ss)" using states_invE by blast
  obtain c h v where ob: "ob = config_state c h v" "c \<in> I" "h \<in> I" "v \<noteq> JNull" "dumps_ok W v" using 2(2) sql_state_okE by blast
  have "has_state c h ss" using 2(3) ss(4) by (simp add: has_state_content state_ident_def ob(1))
  then obtain ss' where ss': "update_dumped W ''CONFIG_STATE'' ob db = Inr ((), db(''CONFIG_STATE'' := map (state_row W) ss'))"
    "sql_states W I ss'" "map_of (map state_pair ss') = (map_of (map state_pair ss))((JStr c, JStr h) \<mapsto> ob)"
    using change_states[where db = db, OF ss(1-3) ob(2,3,5)] unfolding ob(1) by blast
  have "check_module W ''mysql_backend'' = Inr ()" using ss(1) by (simp add: state_world_def)
  then have "stored (sql_configState_updateObject W give ob) db = Inr (db(''CONFIG_STATE'' := map (state_row W) ss'))"
    using ss'(1) by (simp add: stored_def sql_configState_updateObject_def modified_by_def)
  then show ?case using states_invI[OF ss(1) ss'(2), of db] ss'(3) ss(4) 2(1) sql_ok_same
    by (intro exI[of _ "db(''CONFIG_STATE'' := map (state_row W) ss')"]) (auto simp: state_ident_def ob(1))
next
  case (3 db obs)
  then obtain ss where ss: "state_world b eq I W" "db ''CONFIG_STATE'' = map (state_row W) ss" "sql_states W I ss"
    "sql_content W db = map_of (map state_pair ss)" using states_invE by blast
  obtain ss' where ss': "eachD (delete_object W ''CONFIG_STATE'') obs db = Inr ((), db(''CONFIG_STATE'' := map (state_row W) ss'))"
    "sql_states W I ss'" "\<forall>k. map_of (map state_pair ss') k = (if k \<in> state_ident ` set obs then None else map_of (map state_pair ss) k)"
    using erase_states[where db = db, OF ss(1-3)] 3(2) by blast
  have "isSubclass (sql_classes W) ''ConfigState'' ''ConfigState''" using ss(1) by (simp add: state_world_def)
  then have "of_class W ''ConfigState'' obs = Inr obs" using 3(2) by (auto simp: of_class_def list_all_iff elim!: sql_state_okE)
  then have "stored (sql_configState_deleteObjects W (\<lambda>_. give ()) obs) db = Inr (db(''CONFIG_STATE'' := map (state_row W) ss'))"
    using ss'(1) by (simp add: stored_def sql_configState_deleteObjects_def delete_each_object_def)
  then show ?case using states_invI[OF ss(1) ss'(2), of db] ss'(3) ss(4) 3(1) sql_ok_same
    by (intro exI[of _ "db(''CONFIG_STATE'' := map (state_row W) ss')"]) auto
next
  case (4 db ob)
  then obtain ss where ss: "state_world b eq I W" "db ''CONFIG_STATE'' = map (state_row W) ss" "sql_states W I ss"
    "sql_content W db = map_of (map state_pair ss)" using states_invE by blast
  obtain c h v where ob: "ob = config_state c h v" "c \<in> I" "h \<in> I" "plain_key c" "plain_key h" using 4(2) sql_state_okE by blast
  then show ?case using get_states(1)[where db = db, OF ss(1-3) ob(2-5)] ss(4) by (simp add: sql_same_state_def state_filter_def state_ident_def)
qed

section \<open>Lists of states through the extended backend\<close>

text \<open>The methods of the backend the extended one is asked to use.\<close>

definition uses_tables :: "tables sql_world \<Rightarrow> (obj \<Rightarrow> obj) \<Rightarrow> options \<Rightarrow> tables backend \<Rightarrow> tables backend \<Rightarrow> bool" where
  "uses_tables W sd p C B \<longleftrightarrow>
     b_insert B ''configState'' = (\<lambda>ob. stored (sql_configState_insertObject W (state_base sd p C) ob)) \<and>
     b_update B ''configState'' = (\<lambda>ob. stored (sql_configState_updateObject W give ob)) \<and>
     b_get B ''configState'' = sql_configState_getObjects W"

lemma same_state_tables: "uses_tables W sd p C B \<Longrightarrow> same_state B ob = do_get (sql_same_state W ob)"
  by (simp add: same_state_def uses_tables_def sql_same_state_def[abs_def] filter_by_def)

lemma table_idents:
  assumes "plain_options (e_options x)" and "no_checks sd p \<and> states_inv b eq I W (e_backend x)" and "sql_state_ok W I (e_backend x) ob"
    and "uses_tables W sd p C B"
  shows "\<exists>hs. configState_getObjects L B [''configId'', ''objectId''] (filter_by [''configId'', ''objectId''] ob) x = (Inr hs, x) \<and>
    (hs = [] \<longleftrightarrow> sql_content W (e_backend x) (state_ident ob) = None)"
proof -
  obtain c h v where ob: "ob = config_state c h v" "c \<in> I" "h \<in> I" "plain_key c" "plain_key h" using assms(3) sql_state_okE by blast
  have "states_inv b eq I W (e_backend x)" using assms(2) by simp
  then obtain ss where ss: "state_world b eq I W" "e_backend x ''CONFIG_STATE'' = map (state_row W) ss" "sql_states W I ss"
    "sql_content W (e_backend x) = map_of (map state_pair ss)" by (rule states_invE)
  have f: "filter_by [''configId'', ''objectId''] ob = state_filter c h" and i: "state_ident ob = (JStr c, JStr h)"
    by (simp_all add: ob(1) filter_by_def state_filter_def state_ident_def)
  obtain hs where "sql_configState_getObjects W [''configId'', ''objectId''] (state_filter c h) (e_backend x) = Inr (hs, e_backend x)"
    "hs = [] \<longleftrightarrow> sql_content W (e_backend x) (state_ident ob) = None"
    using get_states(2)[where db = "e_backend x", OF ss(1-3) ob(2-5)] ss(4) i by auto
  then show ?thesis using assms(1,4) f
    by (intro exI[of _ hs]) (simp add: configState_getObjects_def uses_tables_def bindS_def do_get_def plain_options_def option_on_def)
qed

lemma table_state_lists:
  assumes "states_inv b eq I W (e_backend x)" and "no_checks sd p" and "plain_options (e_options x)" and "uses_tables W sd p C B"
    and "\<forall>ob \<in> set obs. sql_state_ok W I (e_backend x) ob \<and> attr ob ''configId'' \<noteq> JStr depot_config"
  shows "\<exists>s1 s2.
     configState_createObjects L B obs x = (Inr (if option_on x ''returnObjectsOnUpdateAndCreate'' then obs else []), x\<lparr>e_backend := s1\<rparr>) \<and>
     configState_updateObjects L B obs x = (Inr (if option_on x ''returnObjectsOnUpdateAndCreate'' then obs else []), x\<lparr>e_backend := s2\<rparr>) \<and>
     states_inv b eq I W s1 \<and> states_inv b eq I W s2 \<and>
     sql_content W s1 = foldl (\<lambda>m ob. m(state_ident ob \<mapsto> ob)) (sql_content W (e_backend x)) obs \<and> sql_content W s2 = sql_content W s1"
proof -
  have u: "b_insert B ''configState'' = (\<lambda>ob. stored (sql_configState_insertObject W (state_base sd p C) ob))"
    "b_update B ''configState'' = (\<lambda>ob. stored (sql_configState_updateObject W give ob))" using assms(4) by (simp_all add: uses_tables_def)
  show ?thesis
    using state_tables.state_lists[where x = x and obs = obs and B = B, OF _ assms(3) _ _ u same_state_tables[OF assms(4)]
        table_idents[OF _ _ _ assms(4)]] assms(1,2,5) by auto
qed

end
