(* ===== verification/SqlAudit.thy ===== *)
theory SqlAudit
  imports SqlBackend
begin

text \<open>
  Audited hardware and hosts in the SQL backend, OPSI/Backend/SQL.py. Each hardware class has a table of devices and
  one of their occurrences on hosts; the configuration gives the attributes of a class and whether they
  belong to the device (scope g) or to the occurrence (scope i). The order of a set of classes is that of the configuration.
\<close>

section \<open>The configuration\<close>

text \<open>The scope of each attribute of each class; the types of the columns are used when tables are created only.\<close>

type_synonym hw_config = "(string \<times> (string \<times> string) list) list"

definition setAuditHardwareConfig :: "(string \<times> (string \<times> string) list) list \<Rightarrow> hw_config" where
  "setAuditHardwareConfig conf =
     foldl (\<lambda>c (cls, vs). AList.update cls (foldl (\<lambda>d (a, scope). AList.update a scope d) [] vs) c) [] conf"

definition class_scopes :: "hw_config \<Rightarrow> string \<Rightarrow> (string \<times> string) list" where
  "class_scopes conf cls = (case map_of conf cls of Some as \<Rightarrow> as | None \<Rightarrow> [])"

text \<open>The classes a filter names, with wildcards; None when it names none.\<close>

definition hardware_classes :: "lib \<Rightarrow> hw_config \<Rightarrow> hash \<Rightarrow> string list option" where
  "hardware_classes L conf f =
     (let keys = map fst conf
      in case map_of f ''hardwareClass'' of
           None \<Rightarrow> Some keys
         | Some v \<Rightarrow>
             if v = JNull \<or> v = JList [] then Some keys
             else (case filter (\<lambda>k. list_ex (\<lambda>p. re_search L (''^'' @ replace_char (CHR ''*'') ''.*'' p @ ''$'') k) (forceUnicodeList L v)) keys of
                     [] \<Rightarrow> None | ks \<Rightarrow> Some ks))"

definition without_class :: "hash \<Rightarrow> hash" where
  "without_class f = AList.delete ''type'' (AList.delete ''hardwareClass'' f)"

definition add_asked :: "string list \<Rightarrow> hash \<Rightarrow> hash" where
  "add_asked as f = foldl (\<lambda>f a. if map_of f a = None then AList.update a JNull f else f) f as"

definition listed :: "json \<Rightarrow> json" where
  "listed v = (if v = JNull then JNull else JList (forceList v))"

section \<open>Devices\<close>

definition escapeAsterisk :: "dialect \<Rightarrow> string \<Rightarrow> string" where
  "escapeAsterisk d = replace_char (CHR ''*'') (ESCAPED_ASTERISK d)"

definition exact_value :: "dialect \<Rightarrow> json \<Rightarrow> json" where
  "exact_value d v = (case v of JNull \<Rightarrow> JList [JNull] | JStr s \<Rightarrow> JStr (escapeAsterisk d s) | _ \<Rightarrow> v)"

definition hardware_condition_part :: "'t sql_world \<Rightarrow> string \<times> json \<Rightarrow> (backend_error, string list) result" where
  "hardware_condition_part W = (\<lambda>(a, v).
     if a = ''hardwareClass'' \<or> a = ''type'' then Inr []
     else if v = JNull \<or> v = JList [JNull] then Inr [backquoted a @ '' is NULL'']
     else (case v of
             JStr s \<Rightarrow> Inr [backquoted a @ '' = '' @ quoted (sql_escape (sql_dialect W) s)]
           | JList _ \<Rightarrow> Inl OtherError
           | JDict _ \<Rightarrow> Inl OtherError
           | _ \<Rightarrow> Inr [backquoted a @ '' = '' @ forceUnicode (sql_lib W) v]))"

definition uniqueAuditHardwareCondition :: "'t sql_world \<Rightarrow> hash \<Rightarrow> (backend_error, string) result" where
  "uniqueAuditHardwareCondition W h = bindE (mapE (hardware_condition_part W) h) (\<lambda>cs. Inr (join_str '' and '' (concat cs)))"

text \<open>The filter for the devices of one class; None when the class lacks an attribute.\<close>

fun device_filter :: "(string \<times> string) list \<Rightarrow> hash \<Rightarrow> hash \<Rightarrow> hash option" where
  "device_filter scopes [] cf = Some cf"
| "device_filter scopes ((a, v) # f) cf =
     (case map_of scopes a of
        None \<Rightarrow> None
      | Some scope \<Rightarrow> if scope \<noteq> ''g'' then device_filter scopes f cf else device_filter scopes f (AList.update a (listed v) cf))"

text \<open>The devices found, with their classes.\<close>

definition search_class :: "'t sql_world \<Rightarrow> hw_config \<Rightarrow> string list \<Rightarrow> hash \<Rightarrow> string \<Rightarrow> ('t, (string \<times> hash) list) db" where
  "search_class W conf as f cls =
     (case device_filter (class_scopes conf cls) f [] of
        None \<Rightarrow> give []
      | Some cf \<Rightarrow>
          if cf = [] \<and> f \<noteq> [] then give []
          else bindD (query_rows W (''HARDWARE_DEVICE_'' @ cls) as cf) (\<lambda>rows. give (map (Pair cls) rows)))"

definition search_hardware :: "'t sql_world \<Rightarrow> hw_config \<Rightarrow> bool \<Rightarrow> string list \<Rightarrow> hash \<Rightarrow> ('t, (string \<times> hash) list) db" where
  "search_hardware W conf ids attributes f =
     (case hardware_classes (sql_lib W) conf f of
        None \<Rightarrow> give []
      | Some classes \<Rightarrow>
          let as = remove1 ''hardwareClass'' attributes;
              f = add_asked as (without_class f);
              as = (if ids \<and> as \<noteq> [] \<and> ''hardware_id'' \<notin> set as then as @ [''hardware_id''] else as)
          in bindD (mapD (search_class W conf as f) classes) (\<lambda>rs. give (concat rs)))"

definition device_hash :: "hw_config \<Rightarrow> string \<times> hash \<Rightarrow> hash" where
  "device_hash conf = (\<lambda>(cls, row).
     foldl (\<lambda>r (a, scope). if scope = ''i'' \<or> map_of r a \<noteq> None then r else AList.update a JNull r)
       (AList.update ''hardwareClass'' (JStr cls) (AList.delete ''hardware_id'' row)) (class_scopes conf cls))"

definition sql_auditHardware_getHashes :: "'t sql_world \<Rightarrow> hw_config \<Rightarrow> string list \<Rightarrow> hash \<Rightarrow> ('t, hash list) db" where
  "sql_auditHardware_getHashes W conf attributes f =
     bindD (search_hardware W conf False attributes f) (\<lambda>rs. give (map (device_hash conf) rs))"

definition getHardwareIds :: "'t sql_world \<Rightarrow> hw_config \<Rightarrow> hash \<Rightarrow> ('t, json list) db" where
  "getHardwareIds W conf h =
     bindD (search_hardware W conf True [] (map (\<lambda>(a, v). (a, exact_value (sql_dialect W) v)) h)) (\<lambda>rs.
       lift (mapE (\<lambda>(cls, row). entry_of row ''hardware_id'') rs))"

definition sql_auditHardware_getObjects :: "'t sql_world \<Rightarrow> hw_config \<Rightarrow> string list \<Rightarrow> hash \<Rightarrow> ('t, obj list) db" where
  "sql_auditHardware_getObjects W conf attributes f =
     bindD (sql_auditHardware_getHashes W conf attributes f) (mapD (\<lambda>h. lift (from_hash W ''AuditHardware'' h)))"

definition sql_auditHardware_insertObject :: "'t sql_world \<Rightarrow> hw_config \<Rightarrow> (obj \<Rightarrow> ('t, obj) db) \<Rightarrow> obj \<Rightarrow> ('t, unit) db" where
  "sql_auditHardware_insertObject W conf base ob =
     bindD (base ob) (\<lambda>ob.
       let h = o_hash ob
       in bindD (sql_auditHardware_getObjects W conf [] (map (\<lambda>(a, v). (a, exact_value (sql_dialect W) v)) h)) (\<lambda>res.
            if res \<noteq> [] then give ()
            else bindD (lift (text_of W h ''hardwareClass'')) (\<lambda>cls. bindD (lift (entry_of h ''type'')) (\<lambda>_.
                   insert_row W (''HARDWARE_DEVICE_'' @ cls) (without_class h)))))"

definition sql_auditHardware_updateObject :: "'t sql_world \<Rightarrow> hw_config \<Rightarrow> (obj \<Rightarrow> ('t, obj) db) \<Rightarrow> obj \<Rightarrow> ('t, unit) db" where
  "sql_auditHardware_updateObject W conf base ob =
     bindD (base ob) (\<lambda>ob.
       bindD (sql_auditHardware_getObjects W conf [] (map (\<lambda>(a, v). (a, JList [JNull])) (filter (\<lambda>(a, v). v = JNull) (o_hash ob)))) (\<lambda>res.
         if res = [] then lift (Inl BackendMissingDataError) else give ()))"

definition id_condition :: "'t sql_world \<Rightarrow> json \<Rightarrow> string" where
  "id_condition W i = ''`hardware_id` = '' @ forceUnicode (sql_lib W) i"

definition sql_auditHardware_deleteObjects :: "'t sql_world \<Rightarrow> hw_config \<Rightarrow> (obj list \<Rightarrow> ('t, unit) db) \<Rightarrow> obj list \<Rightarrow> ('t, unit) db" where
  "sql_auditHardware_deleteObjects W conf base obs =
     bindD (base obs) (\<lambda>_. bindD (lift (of_class W ''AuditHardware'' obs)) (eachD (\<lambda>ob.
       bindD (lift (uniqueAuditHardwareCondition W (o_hash ob))) (\<lambda>c.
       let cls = forceUnicode (sql_lib W) (attr ob ''hardwareClass'')
       in bindD (getHardwareIds W conf (o_hash ob)) (\<lambda>is.
            bindD (eachD (\<lambda>i. delete_rows W (''HARDWARE_CONFIG_'' @ cls) (id_condition W i)) is) (\<lambda>_.
              delete_rows W (''HARDWARE_DEVICE_'' @ cls) c))))))"

section \<open>Devices on hosts\<close>

abbreviation host_keys :: "string list" where
  "host_keys \<equiv> [''hostId'', ''state'', ''firstseen'', ''lastseen'']"

text \<open>What of an object describes the device and what the occurrence.\<close>

definition extract_step :: "hw_config \<Rightarrow> string \<Rightarrow> string \<times> json \<Rightarrow> hash \<times> hash \<Rightarrow> (backend_error, hash \<times> hash) result" where
  "extract_step conf cls = (\<lambda>(a, v) (dev, occ).
     if a = ''type'' then Inr (dev, occ)
     else if a \<in> set host_keys then Inr (dev, AList.update a v occ)
     else if a = ''hardwareClass'' then Inr (AList.update a v dev, AList.update a v occ)
     else case map_of conf cls of
            None \<Rightarrow> Inl KeyError
          | Some scopes \<Rightarrow>
              (case map_of scopes a of
                 None \<Rightarrow> Inl BackendConfigurationError
               | Some scope \<Rightarrow> if scope = ''g'' then Inr (AList.update a v dev, occ) else Inr (dev, AList.update a v occ)))"

definition extractAuditHardwareHash :: "'t sql_world \<Rightarrow> hw_config \<Rightarrow> hash \<Rightarrow> (backend_error, hash \<times> hash) result" where
  "extractAuditHardwareHash W conf h =
     bindE (text_of W h ''hardwareClass'') (\<lambda>cls. foldE (extract_step conf cls) h ([(''type'', JStr ''AuditHardware'')], []))"

definition uniqueAuditHardwareOnHostCondition :: "'t sql_world \<Rightarrow> hw_config \<Rightarrow> hash \<Rightarrow> ('t, string) db" where
  "uniqueAuditHardwareOnHostCondition W conf h =
     bindD (lift (extractAuditHardwareHash W conf h)) (\<lambda>(dev, occ).
     bindD (lift (filterToSql (sql_dialect W) (sql_lib W) None
              (map (\<lambda>(a, v). (a, exact_value (sql_dialect W) v)) (AList.delete ''hardwareClass'' occ)))) (\<lambda>c.
     bindD (getHardwareIds W conf dev) (\<lambda>is.
       if is = [] then lift (Inl BackendReferentialIntegrityError)
       else give (join_str '' and '' [c, ''('' @ join_str '' or '' (map (id_condition W) is) @ '')'']))))"

definition auditHardwareOnHostObjectToDatabaseHash :: "'t sql_world \<Rightarrow> hw_config \<Rightarrow> hash \<Rightarrow> ('t, hash) db" where
  "auditHardwareOnHostObjectToDatabaseHash W conf h =
     bindD (lift (extractAuditHardwareHash W conf h)) (\<lambda>(dev, occ).
     bindD (getHardwareIds W conf (map (\<lambda>(a, v). (a, if v = JNull then JList [JNull] else v)) dev)) (\<lambda>is.
       case is of
         [] \<Rightarrow> lift (Inl BackendReferentialIntegrityError)
       | i # _ \<Rightarrow> give (AList.update ''hardware_id'' i (without_class occ))))"

definition occurrences :: "'t sql_world \<Rightarrow> obj \<Rightarrow> string" where
  "occurrences W ob = ''HARDWARE_CONFIG_'' @ forceUnicode (sql_lib W) (attr ob ''hardwareClass'')"

definition sql_auditHardwareOnHost_insertObject :: "'t sql_world \<Rightarrow> hw_config \<Rightarrow> (obj \<Rightarrow> ('t, obj) db) \<Rightarrow> obj \<Rightarrow> ('t, unit) db" where
  "sql_auditHardwareOnHost_insertObject W conf base ob =
     bindD (base ob) (\<lambda>ob. bindD (uniqueAuditHardwareOnHostCondition W conf (o_hash ob)) (\<lambda>c.
       bindD (getRow W (Select [] (occurrences W ob) c)) (\<lambda>r.
         case r of
           Some _ \<Rightarrow> give ()
         | None \<Rightarrow> bindD (auditHardwareOnHostObjectToDatabaseHash W conf (o_hash ob)) (insert_row W (occurrences W ob)))))"

definition sql_auditHardwareOnHost_updateObject :: "'t sql_world \<Rightarrow> hw_config \<Rightarrow> (obj \<Rightarrow> ('t, obj) db) \<Rightarrow> obj \<Rightarrow> ('t, unit) db" where
  "sql_auditHardwareOnHost_updateObject W conf base ob =
     bindD (base ob) (\<lambda>ob.
       let times = [''state'', ''lastseen'', ''firstseen''];
           update = filter (\<lambda>(a, v). a \<in> set times \<and> v \<noteq> JNull) (o_hash ob);
           rest = filter (\<lambda>(a, v). a \<notin> set times) (o_hash ob)
       in if update = [] then give ()
          else bindD (uniqueAuditHardwareOnHostCondition W conf rest) (\<lambda>c.
                 bindD (update_rows W (occurrences W ob) c update False) (\<lambda>_. give ())))"

text \<open>The filters for the devices and the occurrences of one class; None when the class lacks an attribute.\<close>

fun occurrence_filters :: "(string \<times> string) list \<Rightarrow> hash \<Rightarrow> hash \<times> hash \<Rightarrow> (hash \<times> hash) option" where
  "occurrence_filters scopes [] fs = Some fs"
| "occurrence_filters scopes ((a, v) # f) (df, cf) =
     (if a \<in> set host_keys then occurrence_filters scopes f (df, AList.update a (listed v) cf)
      else case map_of scopes a of
             None \<Rightarrow> None
           | Some scope \<Rightarrow>
               if scope = ''g'' then occurrence_filters scopes f (AList.update a v df, cf)
               else if scope \<noteq> ''i'' then occurrence_filters scopes f (df, cf)
               else occurrence_filters scopes f (df, AList.update a (listed v) cf))"

text \<open>An occurrence with the attributes of its device; without a device it is skipped.\<close>

definition occurrence_hash :: "'t sql_world \<Rightarrow> hw_config \<Rightarrow> string \<Rightarrow> hash \<Rightarrow> ('t, hash list) db" where
  "occurrence_hash W conf cls row =
     bindD (lift (entry_of row ''hardware_id'')) (\<lambda>i.
     bindD (getSet W (Select [] (''HARDWARE_DEVICE_'' @ cls) (id_condition W i))) (\<lambda>devs.
       case devs of
         [] \<Rightarrow> give []
       | dev # _ \<Rightarrow>
           let h = foldl (\<lambda>d (a, v). AList.update a v d) dev row;
               h = AList.delete ''config_id'' (AList.delete ''hardware_id'' (AList.update ''hardwareClass'' (JStr cls) h))
           in give [foldl (\<lambda>r (a, scope). if map_of r a = None then AList.update a JNull r else r) h (class_scopes conf cls)]))"

definition occurrences_of_class :: "'t sql_world \<Rightarrow> hw_config \<Rightarrow> string list \<Rightarrow> hash \<Rightarrow> string \<Rightarrow> ('t, hash list) db" where
  "occurrences_of_class W conf as f cls =
     (case occurrence_filters (class_scopes conf cls) f ([], []) of
        None \<Rightarrow> give []
      | Some (df, cf) \<Rightarrow>
          bindD (if df = [] then give [] else getHardwareIds W conf (AList.update ''hardwareClass'' (JStr cls) df)) (\<lambda>is.
            if df \<noteq> [] \<and> is = [] then give []
            else let as = (if as \<noteq> [] \<and> ''hardware_id'' \<notin> set as then as @ [''hardware_id''] else as)
                 in bindD (query_rows W (''HARDWARE_CONFIG_'' @ cls) as (AList.update ''hardware_id'' (JList is) cf)) (\<lambda>rows.
                      bindD (mapD (occurrence_hash W conf cls) rows) (\<lambda>hs. give (concat hs)))))"

definition sql_auditHardwareOnHost_getHashes :: "'t sql_world \<Rightarrow> hw_config \<Rightarrow> string list \<Rightarrow> hash \<Rightarrow> ('t, hash list) db" where
  "sql_auditHardwareOnHost_getHashes W conf attributes f =
     (case hardware_classes (sql_lib W) conf f of
        None \<Rightarrow> give []
      | Some classes \<Rightarrow>
          bindD (mapD (occurrences_of_class W conf attributes (add_asked attributes (without_class f))) classes) (\<lambda>hs. give (concat hs)))"

definition sql_auditHardwareOnHost_getObjects :: "'t sql_world \<Rightarrow> hw_config \<Rightarrow> string list \<Rightarrow> hash \<Rightarrow> ('t, obj list) db" where
  "sql_auditHardwareOnHost_getObjects W conf attributes f =
     bindD (sql_auditHardwareOnHost_getHashes W conf attributes f) (mapD (\<lambda>h. lift (from_hash W ''AuditHardwareOnHost'' h)))"

definition sql_auditHardwareOnHost_deleteObjects :: "'t sql_world \<Rightarrow> hw_config \<Rightarrow> obj list \<Rightarrow> ('t, unit) db" where
  "sql_auditHardwareOnHost_deleteObjects W conf obs =
     bindD (lift (of_class W ''AuditHardwareOnHost'' obs)) (eachD (\<lambda>ob.
       bindD (uniqueAuditHardwareOnHostCondition W conf (o_hash ob)) (delete_rows W (occurrences W ob))))"

section \<open>Hosts\<close>

text \<open>No two hosts have the same hardware address, but for addresses that begin with zeros.\<close>

definition host_check_duplicates :: "'t sql_world \<Rightarrow> obj \<Rightarrow> ('t, unit) db" where
  "host_check_duplicates W ob =
     (let hw = forceUnicode (sql_lib W) (attr ob ''hardwareAddress'')
      in if unique_hardware_addresses W \<and> json_true (attr ob ''hardwareAddress'') \<and> \<not> startswith hw ''00:00:00''
         then bindD (getRow W (Select [''hostId''] ''HOST''
                (''hostId != '' @ quoted (forceUnicode (sql_lib W) (attr ob ''id'')) @ '' AND hardwareAddress = '' @ quoted hw @ '' LIMIT 1''))) (\<lambda>r.
                if r \<noteq> None then lift (Inl BackendBadValueError) else give ())
         else give ())"

definition host_row :: "'t sql_world \<Rightarrow> obj \<Rightarrow> ('t, hash) db" where
  "host_row W ob = bindD (object_row W ob) (\<lambda>h. give (AList.delete ''systemUUID'' h))"

definition sql_host_insertObject :: "'t sql_world \<Rightarrow> (obj \<Rightarrow> ('t, obj) db) \<Rightarrow> obj \<Rightarrow> ('t, unit) db" where
  "sql_host_insertObject W base ob =
     bindD (base ob) (\<lambda>ob. bindD (host_row W ob) (\<lambda>h. bindD (object_condition W ob) (\<lambda>c.
       bindD (host_check_duplicates W ob) (\<lambda>_. put_row W ''HOST'' c h))))"

definition sql_host_updateObject :: "'t sql_world \<Rightarrow> (obj \<Rightarrow> ('t, obj) db) \<Rightarrow> obj \<Rightarrow> ('t, unit) db" where
  "sql_host_updateObject W base ob =
     bindD (base ob) (\<lambda>ob. bindD (host_row W ob) (\<lambda>h. bindD (object_condition W ob) (\<lambda>c.
       bindD (host_check_duplicates W ob) (\<lambda>_. bindD (update_rows W ''HOST'' c h False) (\<lambda>_. give ())))))"

text \<open>Depot servers asked for include configuration servers.\<close>

definition with_configservers :: "hash \<Rightarrow> hash" where
  "with_configservers f =
     (let ts = (case map_of f ''type'' of Some v \<Rightarrow> forceList v | None \<Rightarrow> [])
      in if JStr ''OpsiDepotserver'' \<in> set ts \<and> JStr ''OpsiConfigserver'' \<notin> set ts
         then AList.update ''type'' (JList (ts @ [JStr ''OpsiConfigserver''])) f else f)"

definition sql_host_getObjects :: "'t sql_world \<Rightarrow> string list \<Rightarrow> hash \<Rightarrow> ('t, obj list) db" where
  "sql_host_getObjects W attributes f =
     bindD (lift (testFilterAndAttributes (possibleAttributes (sql_classes W) ''Host'') [] f)) (\<lambda>_.
     bindD (lift (adjustAttributes (sql_classes W) ''Host'' attributes (with_configservers f))) (\<lambda>(as, f).
     bindD (query_rows W ''HOST'' as f) (mapD (\<lambda>row. bindD (with_id W ''Host'' row) (\<lambda>row. lift (from_hash W ''Host'' row))))))"

definition sql_host_deleteObjects :: "'t sql_world \<Rightarrow> hw_config \<Rightarrow> (obj list \<Rightarrow> ('t, unit) db) \<Rightarrow> obj list \<Rightarrow> ('t, unit) db" where
  "sql_host_deleteObjects W conf base obs =
     bindD (base obs) (\<lambda>_. bindD (lift (of_class W ''Host'' obs)) (eachD (\<lambda>ob.
       bindD (object_condition W ob) (\<lambda>c. bindD (delete_rows W ''HOST'' c) (\<lambda>_.
       bindD (sql_auditHardwareOnHost_getObjects W conf [] [(''objectId'', attr ob ''id'')]) (\<lambda>hw.
         if hw \<noteq> [] then sql_auditHardwareOnHost_deleteObjects W conf hw else give ()))))))"

text \<open>The search for the hardware of a deleted host finds nothing: no class has the attribute it is asked for.\<close>

lemma no_objectId:
  assumes "\<forall>(cls, scopes) \<in> set conf. map_of scopes ''objectId'' = None"
  shows "sql_auditHardwareOnHost_getObjects W conf [] [(''objectId'', v)] = give []"
proof -
  have "map_of (class_scopes conf cls) ''objectId'' = None" for cls
    using assms by (auto simp: class_scopes_def split: option.splits dest!: map_of_SomeD)
  then have c: "occurrences_of_class W conf [] [(''objectId'', v)] cls = give []" for cls
    by (simp add: occurrences_of_class_def)
  have "mapD (\<lambda>cls. give []) classes = give (map (\<lambda>_. []) classes)" for classes :: "string list"
    by (induction classes) (simp_all del: db_simps(4))
  then have m: "mapD (occurrences_of_class W conf [] [(''objectId'', v)]) classes = give (map (\<lambda>_. []) classes)" for classes
    unfolding c[abs_def] .
  have f: "add_asked [] (without_class [(''objectId'', v)]) = [(''objectId'', v)]" by (simp add: add_asked_def without_class_def)
  have e: "concat (map ((\<lambda>_. []) \<circ> fst) conf) = ([] :: hash list)" by (induction conf) simp_all
  have "sql_auditHardwareOnHost_getHashes W conf [] [(''objectId'', v)] = give []"
    by (simp add: sql_auditHardwareOnHost_getHashes_def hardware_classes_def f m e del: db_simps(4))
  then show ?thesis by (simp add: sql_auditHardwareOnHost_getObjects_def del: db_simps(4))
qed

end
