(* ===== verification/Tracking.thy ===== *)
theory Tracking
  imports SqlConditions SqlBackend
begin

text \<open>
  Tracking modifications, OPSI/Backend/Base/ModificationTracking.py and the tracker of OPSI/Backend/SQL.py: a backend that tells its
  listeners of each change, and the listener that writes the changes to a table. Listeners are named; what one does with an
  event is an argument of the definitions.
\<close>

section \<open>The tracking backend\<close>

datatype change_event = ObjectInserted obj | ObjectUpdated obj | ObjectsDeleted "obj list" | BackendModified

definition addBackendChangeListener :: "'i \<Rightarrow> 'i list \<Rightarrow> 'i list" where
  "addBackendChangeListener i ls = (if i \<in> set ls then ls else ls @ [i])"

definition removeBackendChangeListener :: "'i \<Rightarrow> 'i list \<Rightarrow> 'i list" where
  "removeBackendChangeListener i ls = (if i \<notin> set ls then ls else remove1 i ls)"

text \<open>What a listener raises is logged only.\<close>

definition fireEvent :: "('i \<Rightarrow> change_event \<Rightarrow> ('l, unit) act) \<Rightarrow> 'i list \<Rightarrow> change_event \<Rightarrow> 'l \<Rightarrow> 'l" where
  "fireEvent handle ls e l = foldl (\<lambda>l i. snd (handle i e l)) l ls"

text \<open>The part of a method's name behind the first underscore.\<close>

definition action_of :: "string \<Rightarrow> string option" where
  "action_of name = (case dropWhile (\<lambda>c. c \<noteq> CHR ''_'') name of [] \<Rightarrow> None | _ # a \<Rightarrow> Some a)"

text \<open>The event of a call; \<open>args\<close> are the values of its arguments, each a list of objects, of one for one object.\<close>

definition event_of :: "string \<Rightarrow> obj list list \<Rightarrow> (backend_error, change_event option) result" where
  "event_of name args =
     (case action_of name of
        None \<Rightarrow> Inr None
      | Some a \<Rightarrow>
          if a \<notin> {''insertObject'', ''updateObject'', ''deleteObjects''} then Inr None
          else case args of
                 [] \<Rightarrow> Inl OtherError
               | obs # _ \<Rightarrow>
                   if a = ''deleteObjects'' then Inr (Some (ObjectsDeleted obs))
                   else (case obs of
                           [ob] \<Rightarrow> Inr (Some (if a = ''insertObject'' then ObjectInserted ob else ObjectUpdated ob))
                         | _ \<Rightarrow> Inl OtherError))"

definition executeMethod ::
  "('i \<Rightarrow> change_event \<Rightarrow> ('l, unit) act) \<Rightarrow> 'i list \<Rightarrow> ('s, 'r) act \<Rightarrow> string \<Rightarrow> obj list list \<Rightarrow> ('s \<times> 'l, 'r) act" where
  "executeMethod handle ls meth name args = (\<lambda>(s, l).
     case meth s of
       (Inl e, s') \<Rightarrow> (Inl e, (s', l))
     | (Inr r, s') \<Rightarrow>
         (case event_of name args of
            Inl e \<Rightarrow> (Inl e, (s', l))
          | Inr None \<Rightarrow> (Inr r, (s', l))
          | Inr (Some e) \<Rightarrow> (Inr r, (s', fireEvent handle ls BackendModified (fireEvent handle ls e l)))))"

section \<open>The table of modifications\<close>

abbreviation tracker_table :: string where "tracker_table \<equiv> ''OBJECT_MODIFICATION_TRACKER''"

definition tracked_condition :: "'t sql_world \<Rightarrow> string \<Rightarrow> string \<Rightarrow> string" where
  "tracked_condition W cls i =
     equals_text ''objectClass'' cls @ '' AND '' @ equals_text ''ident'' (sql_escape (sql_dialect W) i)"

definition trackModification :: "'t sql_world \<Rightarrow> bool \<Rightarrow> (obj \<Rightarrow> string) \<Rightarrow> string \<Rightarrow> string \<Rightarrow> obj \<Rightarrow> ('t, unit) db" where
  "trackModification W lastModificationOnly ident_text date command ob =
     (let command = lower command
      in if command \<notin> {''insert'', ''update'', ''delete''} then lift (Inl ValueError)
         else let h = [(''command'', JStr command), (''objectClass'', JStr (o_class ob)), (''ident'', JStr (ident_text ob)), (''date'', JStr date)]
              in bindD (if lastModificationOnly then delete_rows W tracker_table (tracked_condition W (o_class ob) (ident_text ob)) else give ()) (\<lambda>_.
                   insert_row W tracker_table h))"

definition getModifications :: "'t sql_world \<Rightarrow> string option \<Rightarrow> ('t, hash list) db" where
  "getModifications W since =
     getSet W (Select [] tracker_table (case since of Some d \<Rightarrow> if d = [] then [] else ''`date` >= '' @ quoted d | None \<Rightarrow> []))"

text \<open>The condition on the class replaces the one before instead of following it.\<close>

definition clearModifications :: "'t sql_world \<Rightarrow> string \<Rightarrow> string \<Rightarrow> ('t, unit) db" where
  "clearModifications W cls since =
     delete_rows W tracker_table
       ((if cls \<noteq> [] then '' AND '' @ equals_text ''objectClass'' cls else ''1 = 1'') @
        (if since \<noteq> [] then '' AND `date` >= '' @ quoted since else []))"

text \<open>What the tracker does with an event; each change is a session of its own.\<close>

definition in_session :: "('t, 'a) db \<Rightarrow> ('t, 'a) act" where
  "in_session m t = (case m t of Inl e \<Rightarrow> (Inl e, t) | Inr (a, t') \<Rightarrow> (Inr a, t'))"

fun sql_tracker :: "'t sql_world \<Rightarrow> bool \<Rightarrow> (obj \<Rightarrow> string) \<Rightarrow> string \<Rightarrow> change_event \<Rightarrow> ('t, unit) act" where
  "sql_tracker W o1 ident_text date (ObjectInserted ob) = in_session (trackModification W o1 ident_text date ''insert'' ob)"
| "sql_tracker W o1 ident_text date (ObjectUpdated ob) = in_session (trackModification W o1 ident_text date ''update'' ob)"
| "sql_tracker W o1 ident_text date (ObjectsDeleted obs) =
     foldS (\<lambda>ob _. in_session (trackModification W o1 ident_text date ''delete'' ob)) obs ()"
| "sql_tracker W o1 ident_text date BackendModified = ret ()"

section \<open>The last modification of every object\<close>

text \<open>What a table says of a class and an identity, when every pair has one row at most.\<close>

definition recorded :: "hash list \<Rightarrow> json \<times> json \<Rightarrow> json option" where
  "recorded rows = map_of (map (\<lambda>row. ((col row ''objectClass'', col row ''ident''), col row ''command'')) rows)"

fun changes_of :: "change_event \<Rightarrow> (obj \<times> string) list" where
  "changes_of (ObjectInserted ob) = [(ob, ''insert'')]"
| "changes_of (ObjectUpdated ob) = [(ob, ''update'')]"
| "changes_of (ObjectsDeleted obs) = map (\<lambda>ob. (ob, ''delete'')) obs"
| "changes_of BackendModified = []"

definition record_change :: "(obj \<Rightarrow> string) \<Rightarrow> (json \<times> json \<Rightarrow> json option) \<Rightarrow> obj \<times> string \<Rightarrow> json \<times> json \<Rightarrow> json option" where
  "record_change ident_text m = (\<lambda>(ob, command). m((JStr (o_class ob), JStr (ident_text ob)) \<mapsto> JStr command))"

text \<open>The classes and identities in \<open>I\<close> are told apart by the collation, and the names of the classes are words.\<close>

definition tracker_world :: "bool \<Rightarrow> (string \<Rightarrow> string \<Rightarrow> bool) \<Rightarrow> string set \<Rightarrow> tables sql_world \<Rightarrow> bool" where
  "tracker_world b eq I W \<longleftrightarrow>
     sql_dialect W = dialect_of b \<and> sql_engine b eq (execute_sql W) \<and> (\<forall>x \<in> I. \<forall>y \<in> I. eq x y \<longleftrightarrow> x = y)"

definition trackable :: "string set \<Rightarrow> (obj \<Rightarrow> string) \<Rightarrow> obj \<Rightarrow> bool" where
  "trackable I ident_text ob \<longleftrightarrow> o_class ob \<in> I \<and> ident_text ob \<in> I \<and> list_all is_word (o_class ob)"

definition tracked_row :: "string set \<Rightarrow> hash \<Rightarrow> bool" where
  "tracked_row I row \<longleftrightarrow> (\<exists>c i. c \<in> I \<and> i \<in> I \<and> col row ''objectClass'' = JStr c \<and> col row ''ident'' = JStr i)"

definition tracker_inv :: "string set \<Rightarrow> tables \<Rightarrow> bool" where
  "tracker_inv I db \<longleftrightarrow> distinct (map (\<lambda>row. (col row ''objectClass'', col row ''ident'')) (db tracker_table)) \<and>
     list_all (tracked_row I) (db tracker_table)"

lemma tracked_condition_meaning:
  assumes "sql_dialect W = dialect_of b" and "list_all is_word cls"
  shows "\<exists>p. condition_meaning b eq (tracked_condition W cls i) = Some p \<and>
    (\<forall>row. p row \<longleftrightarrow> text_eq eq (col row ''objectClass'') cls \<and> text_eq eq (col row ''ident'') i)"
proof -
  let ?kvs = "[(''objectClass'', JStr cls), (''ident'', JStr i)]"
  have k: "plain_column ''objectClass''" "plain_column ''ident''" by (simp_all add: plain_column_def plain_text_def)
  have w: "list_all is_word ''AND''" by (simp add: is_word_def is_digit_def less_eq_char_def)
  have l: "lower ''AND'' = ''and''" by code_simp
  have "reads b (tracked_condition W cls i) (separated (Word ''and'') (map (\<lambda>(k, v). value_tokens k v) ?kvs))"
    using reads_append[OF reads_text_eq[OF k(1), of b cls] reads_append[OF reads_word(2)[OF _ w, of b] reads_text_eq[OF k(2), of b i]]]
    by (simp add: tracked_condition_def equals_text_def assms(1) escape_word[OF assms(2)] separated_def value_tokens_def l)
  from reads_condition[OF this, of eq] meaning_values[of ?kvs eq] show ?thesis
    by (auto simp: simple_value_def identity_holds_def value_holds_def)
qed

lemma recorded_cong:
  assumes "distinct (map (\<lambda>row. (col row ''objectClass'', col row ''ident'')) rs)"
    and "distinct (map (\<lambda>row. (col row ''objectClass'', col row ''ident'')) rs')" and "set rs = set rs'"
  shows "recorded rs = recorded rs'"
  using assms by (simp add: recorded_def map_of_inject_set comp_def)

lemma track_last:
  assumes "tracker_world b eq I W" and "tracker_inv I db" and "trackable I ident_text ob" and "command \<in> {''insert'', ''update'', ''delete''}"
  shows "\<exists>db'. trackModification W True ident_text date command ob db = Inr ((), db') \<and> tracker_inv I db' \<and>
    recorded (db' tracker_table) = record_change ident_text (recorded (db tracker_table)) (ob, command)"
proof -
  let ?key = "\<lambda>row. (col row ''objectClass'', col row ''ident'')"
  let ?k = "(JStr (o_class ob), JStr (ident_text ob))"
  let ?h = "[(''command'', JStr command), (''objectClass'', JStr (o_class ob)), (''ident'', JStr (ident_text ob)), (''date'', JStr date)]"
  let ?rows = "filter (\<lambda>row. ?key row \<noteq> ?k) (db tracker_table)"
  have W: "sql_dialect W = dialect_of b" "sql_engine b eq (execute_sql W)" "\<forall>x \<in> I. \<forall>y \<in> I. eq x y \<longleftrightarrow> x = y"
    using assms(1) by (simp_all add: tracker_world_def)
  have ob: "o_class ob \<in> I" "ident_text ob \<in> I" "list_all is_word (o_class ob)" using assms(3) by (simp_all add: trackable_def)
  obtain p where p: "condition_meaning b eq (tracked_condition W (o_class ob) (ident_text ob)) = Some p"
    "\<And>row. p row \<longleftrightarrow> text_eq eq (col row ''objectClass'') (o_class ob) \<and> text_eq eq (col row ''ident'') (ident_text ob)"
    using tracked_condition_meaning[OF W(1) ob(3)] by blast
  have rows: "tracked_row I row" if "row \<in> set (db tracker_table)" for row using assms(2) that by (auto simp: tracker_inv_def list_all_iff)
  have "p row \<longleftrightarrow> ?key row = ?k" if "row \<in> set (db tracker_table)" for row
    using rows[OF that] W(3) ob(1,2) unfolding p(2) tracked_row_def by (auto simp: text_eq_def)
  then have f: "filter (\<lambda>row. \<not> p row) (db tracker_table) = ?rows" by (intro filter_cong) auto
  have lw: "lower command = command" using assms(4) by (auto, code_simp+)
  obtain rows1 db1 where d: "execute_sql W (DeleteFrom tracker_table (tracked_condition W (o_class ob) (ident_text ob))) db =
      Inr (rows1, length (filter p (db tracker_table)), db1)" "mset (db1 tracker_table) = mset ?rows"
    using engine_delete[OF W(2) p(1), of tracker_table db] unfolding f .
  obtain rows2 n2 db2 where e: "execute_sql W (InsertInto tracker_table ?h) db1 = Inr (rows2, n2, db2)"
    "mset (db2 tracker_table) = add_mset ?h (mset ?rows)"
    using engine_insert[OF W(2), of tracker_table ?h db1] unfolding d(2) .
  have t: "trackModification W True ident_text date command ob db = Inr ((), db2)"
    using assms(4) d(1) e(1)
    by (simp add: trackModification_def lw Let_def delete_rows_def insert_row_def change_def sql_delete_def sql_insert_def bindD_def lift_def del: insert_iff)
  have m: "mset (db2 tracker_table) = mset (?rows @ [?h])" using e(2) by simp
  have hk: "?key ?h = ?k" by (simp add: col_def)
  have d1: "distinct (map ?key (?rows @ [?h]))"
    using assms(2) hk by (auto simp: tracker_inv_def distinct_map_filter)
  have "mset (map ?key (db2 tracker_table)) = mset (map ?key (?rows @ [?h]))" unfolding mset_map m by (rule refl)
  then have d2: "distinct (map ?key (db2 tracker_table))" using d1 mset_eq_imp_distinct_iff by blast
  have s2: "set (db2 tracker_table) = set (?rows @ [?h])" using m by (rule mset_eq_setD)
  have inv: "tracker_inv I db2"
    unfolding tracker_inv_def list_all_iff s2 using d2 rows ob(1,2) by (auto simp: tracked_row_def col_def)
  have out: "map_of (map (\<lambda>row. (?key row, col row ''command'')) ?rows) k = (if k = ?k then None else map_of (map (\<lambda>row. (?key row, col row ''command'')) rs) k)"
    if "?rows = filter (\<lambda>row. ?key row \<noteq> ?k) rs" "rs = db tracker_table" for k rs
    unfolding that(1) by (induction rs) auto
  have same: "recorded (db2 tracker_table) = recorded (?rows @ [?h])"
    by (rule recorded_cong[OF d2 d1 s2])
  have "recorded (?rows @ [?h]) k = record_change ident_text (recorded (db tracker_table)) (ob, command) k" for k
    using out[OF refl refl, of k] by (auto simp: recorded_def record_change_def map_add_def col_def split: option.splits)
  then show ?thesis using t inv same by (intro exI[of _ db2]) (simp add: fun_eq_iff)
qed

lemma foldS_track:
  assumes "tracker_world b eq I W" and "tracker_inv I db" and "\<forall>ob \<in> set obs. trackable I ident_text ob"
  shows "\<exists>db'. foldS (\<lambda>ob _. in_session (trackModification W True ident_text date ''delete'' ob)) obs () db = (Inr (), db') \<and> tracker_inv I db' \<and>
    recorded (db' tracker_table) = foldl (record_change ident_text) (recorded (db tracker_table)) (map (\<lambda>ob. (ob, ''delete'')) obs)"
  using assms(2,3)
proof (induction obs arbitrary: db)
  case (Cons ob obs)
  obtain db1 where db1: "trackModification W True ident_text date ''delete'' ob db = Inr ((), db1)" "tracker_inv I db1"
    "recorded (db1 tracker_table) = record_change ident_text (recorded (db tracker_table)) (ob, ''delete'')"
    using track_last[OF assms(1) Cons.prems(1), of ident_text ob "''delete''"] Cons.prems(2) by auto
  have "\<forall>ob \<in> set obs. trackable I ident_text ob" using Cons.prems(2) by simp
  from Cons.IH[OF db1(2) this] show ?case using db1(1,3) by (simp add: bindS_def in_session_def)
qed (auto simp: ret_def)

lemma tracker_event:
  assumes "tracker_world b eq I W" and "tracker_inv I db" and "\<forall>(ob, c) \<in> set (changes_of e). trackable I ident_text ob"
  shows "tracker_inv I (snd (sql_tracker W True ident_text date e db)) \<and>
    recorded (snd (sql_tracker W True ident_text date e db) tracker_table) = foldl (record_change ident_text) (recorded (db tracker_table)) (changes_of e)"
proof (cases e)
  case (ObjectInserted ob)
  then show ?thesis using track_last[OF assms(1,2), of ident_text ob "''insert''" date] assms(3) by (auto simp: in_session_def)
next
  case (ObjectUpdated ob)
  then show ?thesis using track_last[OF assms(1,2), of ident_text ob "''update''" date] assms(3) by (auto simp: in_session_def)
next
  case (ObjectsDeleted obs)
  then have "\<forall>ob \<in> set obs. trackable I ident_text ob" using assms(3) by auto
  from foldS_track[OF assms(1,2) this, of date] show ?thesis using ObjectsDeleted by auto
qed (use assms(2) in \<open>simp add: ret_def\<close>)

text \<open>Calls of the tracking backend, and what they change: calls that raise change nothing that is recorded.\<close>

type_synonym ('s, 'r) calls = "(('s, 'r) act \<times> string \<times> obj list list) list"

definition call_all :: "('i \<Rightarrow> change_event \<Rightarrow> ('l, unit) act) \<Rightarrow> 'i list \<Rightarrow> ('s, 'r) calls \<Rightarrow> 's \<times> 'l \<Rightarrow> 's \<times> 'l" where
  "call_all handle ls calls x = foldl (\<lambda>x (meth, name, args). snd (executeMethod handle ls meth name args x)) x calls"

fun changes_made :: "('s, 'r) calls \<Rightarrow> 's \<Rightarrow> (obj \<times> string) list" where
  "changes_made [] s = []"
| "changes_made ((meth, name, args) # calls) s =
     (case meth s of
        (Inl _, s') \<Rightarrow> changes_made calls s'
      | (Inr _, s') \<Rightarrow> (case event_of name args of Inr (Some e) \<Rightarrow> changes_of e | _ \<Rightarrow> []) @ changes_made calls s')"

definition states_of_calls :: "('s, 'r) calls \<Rightarrow> 's \<Rightarrow> 's" where
  "states_of_calls calls s = foldl (\<lambda>s (meth, name, args). snd (meth s)) s calls"

lemma event_objects:
  assumes "event_of name args = Inr (Some e)" and "(ob, c) \<in> set (changes_of e)"
  shows "\<exists>obs \<in> set args. ob \<in> set obs"
proof (cases args)
  case (Cons obs rest)
  then show ?thesis using assms by (auto simp: event_of_def split: option.splits if_splits list.splits)
qed (use assms in \<open>auto simp: event_of_def split: option.splits if_splits\<close>)

text \<open>
  C7: Whatever is called on a tracking backend whose only listener is the SQL tracker with \<open>lastModificationOnly\<close> switched on (it is off
  by default): the backend itself ends as without the listener, and the table has one row at most for every object, which
  says what the last successful call that changed the object did; calls that raise are not recorded. The class names are words,
  the collation tells the classes and identities apart, and the database is any that runs the two statements as documented.
\<close>

theorem last_modification_is_recorded:
  assumes "tracker_world b eq I W" and "tracker_inv I db"
    and "\<forall>(meth, name, args) \<in> set calls. \<forall>obs \<in> set args. \<forall>ob \<in> set obs. trackable I ident_text ob"
  shows "case call_all (\<lambda>_. sql_tracker W True ident_text date) [()] calls (s, db) of (s', db') \<Rightarrow>
    s' = states_of_calls calls s \<and> tracker_inv I db' \<and>
    recorded (db' tracker_table) = foldl (record_change ident_text) (recorded (db tracker_table)) (changes_made calls s)"
  using assms(2,3)
proof (induction calls arbitrary: s db)
  case Nil
  then show ?case by (simp add: call_all_def states_of_calls_def)
next
  case (Cons c calls)
  obtain meth name args where c: "c = (meth, name, args)" by (cases c)
  have rest: "\<forall>(meth, name, args) \<in> set calls. \<forall>obs \<in> set args. \<forall>ob \<in> set obs. trackable I ident_text ob" using Cons.prems(2) by simp
  obtain r s1 where m: "meth s = (r, s1)" by (cases "meth s")
  let ?es = "case r of Inl _ \<Rightarrow> [] | Inr _ \<Rightarrow> (case event_of name args of Inr (Some e) \<Rightarrow> changes_of e | _ \<Rightarrow> [])"
  have "\<exists>db1. snd (executeMethod (\<lambda>_. sql_tracker W True ident_text date) [()] meth name args (s, db)) = (s1, db1) \<and> tracker_inv I db1 \<and>
      recorded (db1 tracker_table) = foldl (record_change ident_text) (recorded (db tracker_table)) ?es"
  proof (cases "\<exists>v e. r = Inr v \<and> event_of name args = Inr (Some e)")
    case True
    then obtain v e where e: "r = Inr v" "event_of name args = Inr (Some e)" by blast
    have "\<forall>(ob, c) \<in> set (changes_of e). trackable I ident_text ob" using event_objects[OF e(2)] Cons.prems(2) c by fastforce
    from tracker_event[OF assms(1) Cons.prems(1) this, of date] show ?thesis
      using e m by (simp add: executeMethod_def fireEvent_def ret_def)
  next
    case False
    then have "snd (executeMethod (\<lambda>_. sql_tracker W True ident_text date) [()] meth name args (s, db)) = (s1, db)" "?es = []"
      using m by (auto simp: executeMethod_def split: sum.splits option.splits)
    then show ?thesis using Cons.prems(1) by simp
  qed
  then obtain db1 where db1: "snd (executeMethod (\<lambda>_. sql_tracker W True ident_text date) [()] meth name args (s, db)) = (s1, db1)"
    "tracker_inv I db1" "recorded (db1 tracker_table) = foldl (record_change ident_text) (recorded (db tracker_table)) ?es" by blast
  have "changes_made (c # calls) s = ?es @ changes_made calls s1" using m by (auto simp: c split: sum.splits option.splits)
  moreover have "states_of_calls (c # calls) s = states_of_calls calls s1" using m by (simp add: states_of_calls_def c)
  moreover have "call_all (\<lambda>_. sql_tracker W True ident_text date) [()] (c # calls) (s, db) =
      call_all (\<lambda>_. sql_tracker W True ident_text date) [()] calls (s1, db1)"
    using db1(1) by (simp add: call_all_def c)
  ultimately show ?case using Cons.IH[OF db1(2) rest, of s1] db1(3) by (auto split: prod.splits)
qed

text \<open>Concrete data: a backend that counts its calls, and one call that raises.\<close>

definition track_world :: "tables sql_world" where
  "track_world = \<lparr>sql_dialect = dialect_of False, sql_lib = sample_lib,
     sql_classes = \<lparr>possibleAttributes = (\<lambda>_. []), mandatoryArgs = (\<lambda>_. []), subClassNames = (\<lambda>_. []), isSubclass = (=), cutText = (\<lambda>s. s)\<rparr>,
     execute_sql = run False (=), check_module = (\<lambda>_. Inr ()), unique_hardware_addresses = True, json_dumps = (\<lambda>_. []), json_loads = Inr,
     from_hash = (\<lambda>c h. Inr \<lparr>o_class = c, o_hash = h, o_generated = False\<rparr>)\<rparr>"

definition some_group :: obj where
  "some_group = \<lparr>o_class = ''HostGroup'', o_hash = [(''id'', JStr ''it:s'')], o_generated = False\<rparr>"

definition some_calls :: "(nat, nat) calls" where
  "some_calls = [(\<lambda>n. (Inr n, n + 1), ''group_insertObject'', [[some_group]]), (\<lambda>n. (Inl ValueError, n + 1), ''group_deleteObjects'', [[some_group]]),
     (\<lambda>n. (Inr n, n + 1), ''group_getObjects'', []), (\<lambda>n. (Inr n, n + 1), ''group_updateObject'', [[some_group]])]"

lemma some_changes: "changes_made some_calls 0 = [(some_group, ''insert''), (some_group, ''update'')]"
  by (simp add: some_calls_def event_of_def action_of_def)

theorem last_modification_is_recorded_witness:
  "\<exists>db. call_all (\<lambda>_. sql_tracker track_world True (\<lambda>ob. ''it:s'') ''2024-01-01'') [()] some_calls (0, \<lambda>_. []) = (4, db) \<and>
     recorded (db tracker_table) = [(JStr ''HostGroup'', JStr ''it:s'') \<mapsto> JStr ''update'']"
proof -
  have "list_all is_word ''HostGroup''" by (simp add: is_word_def is_digit_def less_eq_char_def)
  then have t: "trackable UNIV (\<lambda>ob. ''it:s'') some_group" by (simp add: trackable_def some_group_def)
  have w: "tracker_world False (=) UNIV track_world" by (simp add: tracker_world_def track_world_def run_engine)
  have i: "tracker_inv UNIV (\<lambda>_. [])" by (simp add: tracker_inv_def)
  have "\<forall>(meth, name, args) \<in> set some_calls. \<forall>obs \<in> set args. \<forall>ob \<in> set obs. trackable UNIV (\<lambda>ob. ''it:s'') ob"
    using t by (simp add: some_calls_def)
  from last_modification_is_recorded[where date = "''2024-01-01''" and s = 0, OF w i this]
  have r: "case call_all (\<lambda>_. sql_tracker track_world True (\<lambda>ob. ''it:s'') ''2024-01-01'') [()] some_calls (0, \<lambda>_. []) of (s', db') \<Rightarrow>
      s' = states_of_calls some_calls 0 \<and> tracker_inv UNIV db' \<and>
      recorded (db' tracker_table) = foldl (record_change (\<lambda>ob. ''it:s'')) (recorded []) (changes_made some_calls 0)" by simp
  have "states_of_calls some_calls 0 = 4" by (simp add: states_of_calls_def some_calls_def)
  moreover have "foldl (record_change (\<lambda>ob. ''it:s'')) (recorded []) (changes_made some_calls 0) = [(JStr ''HostGroup'', JStr ''it:s'') \<mapsto> JStr ''update'']"
    by (simp add: some_changes record_change_def some_group_def recorded_def fun_eq_iff)
  ultimately show ?thesis using r
    by (cases "call_all (\<lambda>_. sql_tracker track_world True (\<lambda>ob. ''it:s'') ''2024-01-01'') [()] some_calls (0, \<lambda>_. [])") simp
qed

end
