(* ===== verification/ConfigFiles.thy ===== *)
theory ConfigFiles
  imports Ini AccessControl
begin

text \<open>
  Configuration files that are not ini files: \<open>ConfigFile.parse\<close> of OPSI/Util/File/__init__.py, which drops comments,
  and three readers of OPSI/Util/File/Opsi/__init__.py built on it: \<open>HostKeyFile\<close> (the file pckeys), \<open>BackendDispatchConfigFile\<close>
  and the function of file names. A file exists and is its text (opening a missing one raises \<open>IOError\<close> in every reader);
  \<open>forceHostId\<close> and \<open>forceOpsiHostKey\<close> of opsicommon are arguments, None when they raise \<open>ValueError\<close>.
\<close>

section \<open>Lines without comments\<close>

definition rstrip_space :: "string \<Rightarrow> string" where
  "rstrip_space s = rev (dropWhile is_space (rev s))"

definition config_line :: "char list \<Rightarrow> bool \<Rightarrow> string \<Rightarrow> string option" where
  "config_line commentChars lstrip line =
     (let s = strip line
      in if s = [] \<or> hd s \<in> set commentChars then None
         else (let l = foldl (\<lambda>l cc. cut_comment cc l) (if lstrip then s else rstrip_space line) commentChars
               in if l = [] then None else Some l))"

definition ConfigFile_parse :: "char list \<Rightarrow> bool \<Rightarrow> string list \<Rightarrow> string list" where
  "ConfigFile_parse commentChars lstrip lines = List.map_filter (config_line commentChars lstrip) lines"

text \<open>The lines a parser reads: those it is given, or the file's when it is given none.\<close>

definition lines_of :: "string list \<Rightarrow> string \<Rightarrow> string list" where
  "lines_of lines text = (if lines \<noteq> [] then lines else splitlines text)"

text \<open>The line a file of settings has: a name, a colon and the rest (\<open>^([^:]+)+\s*:\s*(\S.*)$\<close>).\<close>

definition name_and_rest :: "string \<Rightarrow> (string \<times> string) option" where
  "name_and_rest line =
     (let a = takeWhile (\<lambda>c. c \<noteq> CHR '':'') line
      in case dropWhile (\<lambda>c. c \<noteq> CHR '':'') line of
           [] \<Rightarrow> None
         | _ # r \<Rightarrow>
             (let r' = before_newline (dropWhile is_space r)
              in if a = [] \<or> r' = [] \<or> newline \<in> set r' then None else Some (a, r')))"

section \<open>Host keys\<close>

record host_key_file =
  hk_keys :: "(string \<times> string) list"
  hk_parsed :: bool

definition HostKeyFile :: host_key_file where
  "HostKeyFile = \<lparr>hk_keys = [], hk_parsed = False\<rparr>"

text \<open>\<open>lineRegex\<close>: \<open>^\s*([^:]+)\s*:\s*([0-9a-fA-F]{32})\s*$\<close>. The first group takes the blanks before the colon.\<close>

definition host_key_line :: "string \<Rightarrow> (string \<times> string) option" where
  "host_key_line line =
     (let a = takeWhile (\<lambda>c. c \<noteq> CHR '':'') line
      in case dropWhile (\<lambda>c. c \<noteq> CHR '':'') line of
           [] \<Rightarrow> None
         | _ # r \<Rightarrow>
             (let g = dropWhile is_space a; r' = dropWhile is_space r; k = take 32 r'
              in if a \<noteq> [] \<and> length k = 32 \<and> (\<forall>c \<in> set k. is_hex c) \<and> (\<forall>c \<in> set (drop 32 r'). is_space c)
                 then Some (if g = [] then [last a] else g, k) else None))"

definition read_host_key ::
  "(string \<Rightarrow> string option) \<Rightarrow> (string \<Rightarrow> string option) \<Rightarrow> (string \<times> string) list \<Rightarrow> string \<Rightarrow> (string \<times> string) list" where
  "read_host_key forceId forceKey keys line =
     (case host_key_line line of
        None \<Rightarrow> keys
      | Some (i, k) \<Rightarrow>
          (case forceId i of
             None \<Rightarrow> keys
           | Some i' \<Rightarrow> (case forceKey k of None \<Rightarrow> keys | Some k' \<Rightarrow> AList.update i' k' keys)))"

text \<open>\<open>ConfigFile.parse\<close> is called without the lines and reads the file, whatever lines the caller gave.\<close>

definition HostKeyFile_parse ::
  "(string \<Rightarrow> string option) \<Rightarrow> (string \<Rightarrow> string option) \<Rightarrow> string list \<Rightarrow> string \<Rightarrow> host_key_file \<Rightarrow> host_key_file" where
  "HostKeyFile_parse forceId forceKey lines text f =
     f\<lparr>hk_keys := foldl (read_host_key forceId forceKey) (hk_keys f)
         (ConfigFile_parse [CHR '';'', CHR ''/'', CHR ''#''] True (lines_of [] text)),
       hk_parsed := True\<rparr>"

definition HostKeyFile_generate :: "host_key_file \<Rightarrow> string" where
  "HostKeyFile_generate f =
     concat (map (\<lambda>l. l @ [newline]) (map (\<lambda>(i, k). i @ CHR '':'' # k) (sort_key snd (hk_keys f))))"

text \<open>\<open>requiresParsing\<close>: the file is read before the first access.\<close>

definition parsed_first ::
  "(string \<Rightarrow> string option) \<Rightarrow> (string \<Rightarrow> string option) \<Rightarrow> string \<Rightarrow> host_key_file \<Rightarrow> host_key_file" where
  "parsed_first forceId forceKey text f = (if hk_parsed f then f else HostKeyFile_parse forceId forceKey [] text f)"

definition getOpsiHostKey ::
  "(string \<Rightarrow> string option) \<Rightarrow> (string \<Rightarrow> string option) \<Rightarrow> string \<Rightarrow> string \<Rightarrow> host_key_file \<Rightarrow>
     (unit, string option) result \<times> host_key_file" where
  "getOpsiHostKey forceId forceKey text i f =
     (let f' = parsed_first forceId forceKey text f
      in case forceId i of None \<Rightarrow> (Inl (), f') | Some i' \<Rightarrow> (Inr (map_of (hk_keys f') i'), f'))"

definition setOpsiHostKey ::
  "(string \<Rightarrow> string option) \<Rightarrow> (string \<Rightarrow> string option) \<Rightarrow> string \<Rightarrow> string \<Rightarrow> string \<Rightarrow> host_key_file \<Rightarrow>
     (unit, unit) result \<times> host_key_file" where
  "setOpsiHostKey forceId forceKey text i k f =
     (let f' = parsed_first forceId forceKey text f
      in case forceId i of
           None \<Rightarrow> (Inl (), f')
         | Some i' \<Rightarrow>
             (case forceKey k of
                None \<Rightarrow> (Inl (), f')
              | Some k' \<Rightarrow> (Inr (), f'\<lparr>hk_keys := AList.update i' k' (hk_keys f')\<rparr>)))"

definition deleteOpsiHostKey ::
  "(string \<Rightarrow> string option) \<Rightarrow> (string \<Rightarrow> string option) \<Rightarrow> string \<Rightarrow> string \<Rightarrow> host_key_file \<Rightarrow>
     (unit, unit) result \<times> host_key_file" where
  "deleteOpsiHostKey forceId forceKey text i f =
     (let f' = parsed_first forceId forceKey text f
      in case forceId i of
           None \<Rightarrow> (Inl (), f')
         | Some i' \<Rightarrow> (Inr (), f'\<lparr>hk_keys := AList.delete i' (hk_keys f')\<rparr>))"

section \<open>The dispatch configuration\<close>

type_synonym dispatch_config = "(string \<times> string list) list"

definition nonempty_parts :: "string \<Rightarrow> string list" where
  "nonempty_parts s = filter (\<lambda>p. p \<noteq> []) (map strip (split_char (CHR '','') s))"

definition strip_commas :: "string \<Rightarrow> string" where
  "strip_commas s = rstrip (CHR '','') (dropWhile (\<lambda>c. c = CHR '','') s)"

definition dispatch_entry :: "string \<Rightarrow> (string \<times> string list) option" where
  "dispatch_entry line = map_option (\<lambda>(m, bs). (strip m, nonempty_parts (strip_commas bs))) (name_and_rest line)"

text \<open>\<open>walk\<close> lists a set in the order in which Python walks it.\<close>

definition add_missing_backends :: "string list \<Rightarrow> string \<times> string list \<Rightarrow> string \<times> string list" where
  "add_missing_backends used entry =
     (case entry of (m, bs) \<Rightarrow>
        if startswith m ''backend_'' then (m, foldl (\<lambda>new b. if b \<notin> set bs then b # new else new) bs used) else (m, bs))"

definition parse_dispatch_config :: "(string list \<Rightarrow> string list) \<Rightarrow> string list \<Rightarrow> string \<Rightarrow> dispatch_config" where
  "parse_dispatch_config walk lines text =
     (let dispatch = List.map_filter dispatch_entry (ConfigFile_parse [CHR '';'', CHR ''#''] True (lines_of lines text));
          used = walk (concat (map snd dispatch))
      in map (add_missing_backends used) dispatch)"

definition getUsedBackends :: "(string list \<Rightarrow> string list) \<Rightarrow> string list \<Rightarrow> string \<Rightarrow> string set" where
  "getUsedBackends walk lines text = set (concat (map snd (parse_dispatch_config walk lines text)))"

section \<open>Names of package files\<close>

text \<open>\<open>os.path.basename\<close> and \<open>filename.rsplit(''.opsi'', 1)[0]\<close>\<close>

definition basename :: "string \<Rightarrow> string" where
  "basename p = rev (takeWhile (\<lambda>c. c \<noteq> CHR ''/'') (rev p))"

fun before_last :: "string \<Rightarrow> string \<Rightarrow> string option" where
  "before_last p [] = (if p = [] then Some [] else None)"
| "before_last p (c # s) =
     (case before_last p s of Some q \<Rightarrow> Some (c # q) | None \<Rightarrow> if startswith (c # s) p then Some [] else None)"

definition parseFilename :: "string \<Rightarrow> (string \<times> string) option" where
  "parseFilename filename =
     (let b = basename filename;
          parts = split_char (CHR ''_'') (case before_last ''.opsi'' b of Some q \<Rightarrow> q | None \<Rightarrow> b);
          productId = join_char (CHR ''_'') (butlast parts);
          version = last parts
      in if productId = [] \<or> version = [] then None else Some (productId, version))"

section \<open>Host keys: writing and reading\<close>

definition clean_host_key :: "(string \<Rightarrow> string option) \<Rightarrow> (string \<Rightarrow> string option) \<Rightarrow> string \<times> string \<Rightarrow> bool" where
  "clean_host_key forceId forceKey ik \<longleftrightarrow>
     (case ik of (i, k) \<Rightarrow>
        forceId i = Some i \<and> forceKey k = Some k \<and> i \<noteq> [] \<and> \<not> is_space (hd i) \<and>
        (\<forall>c \<in> set i. \<not> is_break c \<and> c \<notin> {CHR '':'', CHR '';'', CHR ''/'', CHR ''#''}) \<and>
        length k = 32 \<and> (\<forall>c \<in> set k. is_hex c))"

lemma is_hexD:
  assumes "is_hex c"
  shows "\<not> is_space c" and "\<not> is_break c" and "c \<notin> {CHR '':'', CHR '';'', CHR ''/'', CHR ''#''}"
  using assms by (auto simp: is_hex_def is_space_def is_break_def Let_def)

lemma cut_comment_absent: "c \<notin> set l \<Longrightarrow> cut_comment c l = l"
  by (simp add: cut_comment_def)

lemma config_line_plain:
  assumes "strip l = l" "l \<noteq> []" "set l \<inter> set ccs = {}"
  shows "config_line ccs True l = Some l"
proof -
  have "foldl (\<lambda>l cc. cut_comment cc l) l cs = l" if "set cs \<subseteq> set ccs" for cs
    using that
  proof (induction cs)
    case (Cons c cs)
    then have "c \<notin> set l" using assms(3) by auto
    with Cons show ?case by (simp add: cut_comment_absent)
  qed simp
  moreover have "hd l \<notin> set ccs" using assms(2,3) by (cases l) auto
  ultimately show ?thesis using assms(1,2) by (simp add: config_line_def Let_def)
qed

lemma clean_host_keyD:
  assumes "clean_host_key forceId forceKey (i, k)"
  shows "forceId i = Some i" "forceKey k = Some k" "i \<noteq> []" "\<not> is_space (hd i)" "k \<noteq> []" "length k = 32"
    and "\<forall>c \<in> set k. is_hex c" "\<not> is_space (hd k)" "\<not> is_space (last k)"
    and "\<forall>c \<in> set i. \<not> is_break c" "CHR '':'' \<notin> set i"
    and "c \<in> {CHR '';'', CHR ''/'', CHR ''#''} \<Longrightarrow> c \<notin> set i \<and> c \<notin> set k"
proof -
  note d = assms[unfolded clean_host_key_def prod.case]
  have "length k = 32" using d by (elim conjE)
  then show ne: "k \<noteq> []" by (metis list.size(3) zero_neq_numeral)
  show h: "\<forall>c \<in> set k. is_hex c" using d by blast
  show "\<not> is_space (hd k)" "\<not> is_space (last k)" using is_hexD(1) bspec[OF h hd_in_set[OF ne]] bspec[OF h last_in_set[OF ne]] by blast+
  show "c \<in> {CHR '';'', CHR ''/'', CHR ''#''} \<Longrightarrow> c \<notin> set i \<and> c \<notin> set k" using d is_hexD(3) by blast
qed (use assms in \<open>unfold clean_host_key_def, blast+\<close>)

lemma host_key_line_written:
  assumes "clean_host_key forceId forceKey (i, k)"
  shows "host_key_line (i @ CHR '':'' # k) = Some (i, k)"
proof -
  note d = clean_host_keyD[OF assms]
  have "\<forall>c \<in> set i. c \<noteq> CHR '':''" using d(11) by metis
  then have t: "takeWhile (\<lambda>c. c \<noteq> CHR '':'') (i @ CHR '':'' # k) = i"
      "dropWhile (\<lambda>c. c \<noteq> CHR '':'') (i @ CHR '':'' # k) = CHR '':'' # k"
    by (simp_all add: takeWhile_append dropWhile_append)
  have k: "dropWhile is_space k = k" using d(5,8) by (simp add: dropWhile_eq_self_iff)
  have i: "dropWhile is_space i = i" using d(3,4) by (simp add: dropWhile_eq_self_iff)
  show ?thesis using d(3,6,7) by (simp add: host_key_line_def Let_def t k i)
qed

lemma config_line_host_key:
  assumes "clean_host_key forceId forceKey (i, k)"
  shows "config_line [CHR '';'', CHR ''/'', CHR ''#''] True (i @ CHR '':'' # k) = Some (i @ CHR '':'' # k)"
proof (rule config_line_plain)
  note d = clean_host_keyD[OF assms]
  show "strip (i @ CHR '':'' # k) = i @ CHR '':'' # k" using d(3,4,5,9) by (simp add: strip_eq_self)
  show "set (i @ CHR '':'' # k) \<inter> set [CHR '';'', CHR ''/'', CHR ''#''] = {}"
    using d(12)[of "CHR '';''"] d(12)[of "CHR ''/''"] d(12)[of "CHR ''#''"] by simp
qed simp

lemma read_written_host_keys:
  assumes "\<forall>ik \<in> set ks. clean_host_key forceId forceKey ik" "distinct (map fst (acc @ ks))"
  shows "foldl (read_host_key forceId forceKey) acc (map (\<lambda>(i, k). i @ CHR '':'' # k) ks) = acc @ ks"
  using assms
proof (induction ks arbitrary: acc)
  case (Cons ik ks)
  obtain i k where ik: "ik = (i, k)" by (cases ik)
  have c: "clean_host_key forceId forceKey (i, k)" using Cons.prems(1) ik by simp
  have "i \<notin> fst ` set acc" using Cons.prems(2) ik by auto
  then have "AList.update i k acc = acc @ [(i, k)]" by (induction acc) auto
  then have "read_host_key forceId forceKey acc (i @ CHR '':'' # k) = acc @ [(i, k)]"
    using c by (simp add: read_host_key_def host_key_line_written[OF c]) (simp add: clean_host_key_def)
  moreover have "foldl (read_host_key forceId forceKey) (acc @ [(i, k)]) (map (\<lambda>(i, k). i @ CHR '':'' # k) ks) = (acc @ [(i, k)]) @ ks"
    using Cons.prems ik by (intro Cons.IH) auto
  ultimately show ?case by (simp add: ik)
qed simp

lemma ConfigFile_parse_all:
  assumes "\<forall>l \<in> set ls. config_line ccs True l = Some l"
  shows "ConfigFile_parse ccs True ls = ls"
  using assms by (induction ls) (auto simp: ConfigFile_parse_def List.map_filter_def)

text \<open>
  C19: The keys \<open>HostKeyFile.generate\<close> writes are the keys \<open>parse\<close> reads, ordered by key, when each host id and each
  key is one that \<open>forceHostId\<close> and \<open>forceOpsiHostKey\<close> accept and no id holds a character that starts a comment.
\<close>

theorem host_keys_roundtrip:
  assumes "distinct (map fst (hk_keys f))" and "\<forall>ik \<in> set (hk_keys f). clean_host_key forceId forceKey ik"
  shows "HostKeyFile_parse forceId forceKey lines (HostKeyFile_generate f) HostKeyFile =
    \<lparr>hk_keys = sort_key snd (hk_keys f), hk_parsed = True\<rparr>"
proof -
  let ?ks = "sort_key snd (hk_keys f)"
  let ?line = "\<lambda>(i, k). i @ CHR '':'' # (k :: string)"
  have clean: "\<forall>ik \<in> set ?ks. clean_host_key forceId forceKey ik" using assms(2) by simp
  have "\<forall>c \<in> set (?line ik). \<not> is_break c" if "ik \<in> set ?ks" for ik
    using clean that is_hexD(2) by (cases ik) (auto simp: clean_host_key_def is_break_def)
  then have "splitlines (HostKeyFile_generate f) = map ?line ?ks"
    unfolding HostKeyFile_generate_def by (intro splitlines_lines) auto
  moreover have "\<forall>l \<in> set (map ?line ?ks). config_line [CHR '';'', CHR ''/'', CHR ''#''] True l = Some l"
    using clean config_line_host_key by auto
  moreover have "mset (map fst ?ks) = mset (map fst (hk_keys f))" by simp
  then have "distinct (map fst ?ks)" using assms(1) mset_eq_imp_distinct_iff by blast
  ultimately show ?thesis
    using read_written_host_keys[OF clean, of "[]"]
    by (simp add: HostKeyFile_parse_def HostKeyFile_def lines_of_def ConfigFile_parse_all)
qed

theorem host_keys_roundtrip_witness:
  "HostKeyFile_parse Some Some [''b.example.org:ffffffffffffffffffffffffffffffff'']
     (HostKeyFile_generate \<lparr>hk_keys = [(''c.example.org'', ''20000000000000000000000000000000''),
        (''a.example.org'', ''10000000000000000000000000000000'')], hk_parsed = True\<rparr>) HostKeyFile =
     \<lparr>hk_keys = sort_key snd (hk_keys \<lparr>hk_keys = [(''c.example.org'', ''20000000000000000000000000000000''),
        (''a.example.org'', ''10000000000000000000000000000000'')], hk_parsed = True\<rparr>), hk_parsed = True\<rparr>"
  by (rule host_keys_roundtrip) (simp_all add: clean_host_key_def is_hex_def is_space_def is_break_def)

text \<open>The lines a caller passes are never read, and keys that left the file stay.\<close>

lemma HostKeyFile_ignores_lines:
  "HostKeyFile_parse forceId forceKey lines text f = HostKeyFile_parse forceId forceKey lines' text f"
  by (simp add: HostKeyFile_parse_def)

lemma HostKeyFile_keeps_removed_keys: "hk_keys (HostKeyFile_parse forceId forceKey lines [] f) = hk_keys f"
  by (simp add: HostKeyFile_parse_def lines_of_def ConfigFile_parse_def splitlines.simps List.map_filter_def)

text \<open>A blank before the colon belongs to the host id, although the pattern means to skip it.\<close>

lemma host_key_line_blank:
  "host_key_line ''a.example.org : 10000000000000000000000000000000'' =
     Some (''a.example.org '', ''10000000000000000000000000000000'')"
  by (simp add: host_key_line_def is_hex_def is_space_def Let_def)

lemma deleted_host_key_is_gone:
  assumes "forceId i = Some i'"
  shows "fst (getOpsiHostKey forceId forceKey text i (snd (deleteOpsiHostKey forceId forceKey text i f))) = Inr None"
  using assms by (simp add: getOpsiHostKey_def deleteOpsiHostKey_def parsed_first_def HostKeyFile_parse_def Let_def delete_conv')

lemma set_host_key_is_returned:
  assumes "forceId i = Some i'" "forceKey k = Some k'"
  shows "fst (getOpsiHostKey forceId forceKey text i (snd (setOpsiHostKey forceId forceKey text i k f))) = Inr (Some k')"
  using assms by (simp add: getOpsiHostKey_def setOpsiHostKey_def parsed_first_def HostKeyFile_parse_def Let_def update_conv')

section \<open>The dispatch configuration: which backends an entry gets\<close>

lemma prepended: "foldl (\<lambda>new b. if b \<notin> B then b # new else new) acc bs = rev (filter (\<lambda>b. b \<notin> B) bs) @ acc"
  by (induction bs arbitrary: acc) auto

lemma add_missing_backends_eq:
  "add_missing_backends used (m, bs) =
     (m, (if startswith m ''backend_'' then rev (filter (\<lambda>b. b \<notin> set bs) used) else []) @ bs)"
  by (simp add: add_missing_backends_def prepended)

lemma used_backends_of_config:
  assumes "\<forall>xs. set (walk xs) = set xs"
  shows "getUsedBackends walk lines text =
    (\<Union>e \<in> set (List.map_filter dispatch_entry (ConfigFile_parse [CHR '';'', CHR ''#''] True (lines_of lines text))). set (snd e))"
  using assms by (fastforce simp: getUsedBackends_def parse_dispatch_config_def Let_def add_missing_backends_eq split: if_splits)

lemma written_entries:
  "parse_dispatch_config walk lines text =
     map (add_missing_backends (walk (concat (map snd (List.map_filter dispatch_entry
       (ConfigFile_parse [CHR '';'', CHR ''#''] True (lines_of lines text)))))))
     (List.map_filter dispatch_entry (ConfigFile_parse [CHR '';'', CHR ''#''] True (lines_of lines text)))"
  by (simp add: parse_dispatch_config_def Let_def)

text \<open>
  In a dispatch configuration every line that names a method and backends is an entry, in the order of the
  file; an entry for the methods \<open>backend_...\<close> names every backend that any entry uses, with its own backends last
  and in order, and all others are as written. So no backend is missed by \<open>backend_exit\<close> and its like, and the used backends are the written ones.
\<close>

theorem backend_entries_name_every_backend:
  assumes "\<forall>xs. set (walk xs) = set xs"
    and "written = List.map_filter dispatch_entry (ConfigFile_parse [CHR '';'', CHR ''#''] True (lines_of lines text))"
  shows "getUsedBackends walk lines text = (\<Union>e \<in> set written. set (snd e)) \<and>
    list_all2 (\<lambda>(m, bs) (m', bs'). m' = m \<and>
       (if startswith m ''backend_'' then set bs' = getUsedBackends walk lines text \<and> (\<exists>new. bs' = new @ bs) else bs' = bs))
     written (parse_dispatch_config walk lines text)"
proof -
  have used: "getUsedBackends walk lines text = (\<Union>e \<in> set written. set (snd e))"
    using used_backends_of_config[OF assms(1)] assms(2) by simp
  let ?used = "walk (concat (map snd written))"
  have w: "set ?used = (\<Union>e \<in> set written. set (snd e))" using assms(1) by auto
  have sub: "set bs \<subseteq> set ?used" if "(m, bs) \<in> set written" for m bs
    unfolding w using that by force
  have "list_all2 (\<lambda>(m, bs) (m', bs'). m' = m \<and>
       (if startswith m ''backend_'' then set bs' = set ?used \<and> (\<exists>new. bs' = new @ bs) else bs' = bs))
     written (map (add_missing_backends ?used) written)"
    by (auto simp: list_all2_map2 list.rel_map add_missing_backends_eq intro!: list.rel_refl_strong dest: subsetD[OF sub])
  then show ?thesis unfolding written_entries assms(2)[symmetric] used w by blast
qed

definition sample_dispatch :: "string list" where
  "sample_dispatch = [''# backends'', ''backend_.* : file'', ''host_.*   : file, opsipxeconfd ; clients'', ''no entry'', ''.* : mysql'']"

theorem backend_entries_name_every_backend_witness:
  "(getUsedBackends remdups sample_dispatch [] =
      (\<Union>e \<in> set (List.map_filter dispatch_entry (ConfigFile_parse [CHR '';'', CHR ''#''] True (lines_of sample_dispatch []))). set (snd e)) \<and>
    list_all2 (\<lambda>(m, bs) (m', bs'). m' = m \<and>
       (if startswith m ''backend_'' then set bs' = getUsedBackends remdups sample_dispatch [] \<and> (\<exists>new. bs' = new @ bs) else bs' = bs))
     (List.map_filter dispatch_entry (ConfigFile_parse [CHR '';'', CHR ''#''] True (lines_of sample_dispatch [])))
     (parse_dispatch_config remdups sample_dispatch []))
   \<and> parse_dispatch_config remdups sample_dispatch [] =
       [(''backend_.*'', [''mysql'', ''opsipxeconfd'', ''file'']), (''host_.*'', [''file'', ''opsipxeconfd'']), (''.*'', [''mysql''])]"
  by (rule conjI[OF backend_entries_name_every_backend[OF _ refl]]) (simp, code_simp)

end
