(* ===== verification/Dispatch.thy ===== *)
theory Dispatch
  imports ConfigFiles Objects
begin

text \<open>
  \<open>BackendDispatcher\<close> of OPSI/Backend/Manager/Dispatcher.py: it loads the backends its configuration names, creates a method for
  each public method of their classes, and passes a call on to the backends of the first entry that matches the method's
  name, putting their results together. What lies outside of it are fields of \<open>dispatch_lib\<close>: the files, the configuration
  a backend's file sets when it is executed, the classes with their members, and the calls of methods of an instance.
\<close>

section \<open>Configuration and backends\<close>

datatype kw_value = KwNone | KwBool bool | KwText string | KwTexts "string list" | KwConfig dispatch_config | KwObject string

type_synonym kwargs = "(string \<times> kw_value) list"

fun kw_true :: "kw_value \<Rightarrow> bool" where
  "kw_true KwNone = False"
| "kw_true (KwBool b) = b"
| "kw_true (KwText s) = (s \<noteq> [])"
| "kw_true (KwTexts ss) = (ss \<noteq> [])"
| "kw_true (KwConfig c) = (c \<noteq> [])"
| "kw_true (KwObject _) = True"

fun kw_list :: "kw_value \<Rightarrow> string list" where
  "kw_list (KwText s) = [s]"
| "kw_list (KwTexts ss) = ss"
| "kw_list _ = []"

record backend_conf =
  bc_module :: string
  bc_config :: "kwargs option"

datatype 'v pyval = PNone | PList "'v list" | PDict "(string \<times> 'v) list" | PSet "'v set" | PTuple "'v list" | POther 'v

datatype dispatch_error =
  BackendConfigurationError | LoadError string | ConstructorError string | AttributeMissing string | CallError string

record ('s, 'v) dispatch_lib =
  dl_text :: "string \<Rightarrow> string option"
  dl_exists :: "string \<Rightarrow> bool"
  dl_load :: "string \<Rightarrow> (dispatch_error, backend_conf) result"
  dl_new :: "string \<Rightarrow> kwargs \<Rightarrow> 's option"
  dl_class :: "'s \<Rightarrow> string"
  dl_members :: "string \<Rightarrow> (string \<times> bool) list"
  dl_own :: "string \<Rightarrow> bool"
  dl_hasattr :: "'s \<Rightarrow> string \<Rightarrow> bool"
  dl_call :: "string \<Rightarrow> kwargs \<Rightarrow> 's \<Rightarrow> (dispatch_error, 'v pyval) result \<times> 's"
  dl_search :: "string \<Rightarrow> string \<Rightarrow> bool"
  dl_init :: "'s \<Rightarrow> 's"
  dl_setOptions :: "hash \<Rightarrow> 's \<Rightarrow> 's"
  dl_getOptions :: "'s \<Rightarrow> hash"
  dl_exit :: "'s \<Rightarrow> bool \<times> 's"

record 's dispatcher =
  dp_configFile :: kw_value
  dp_config :: dispatch_config
  dp_ignoreModules :: "string list"
  dp_configDir :: kw_value
  dp_backends :: "(string \<times> 's) list"
  dp_extended :: bool
  dp_methods :: "(string \<times> string list) list"
  dp_options :: options

text \<open>\<open>d.update(new)\<close>\<close>

definition dict_update_all :: "(string \<times> 'v) list \<Rightarrow> (string \<times> 'v) list \<Rightarrow> (string \<times> 'v) list" where
  "dict_update_all new d = foldl (\<lambda>d (k, v). AList.update k v d) d new"

text \<open>The file is read once; \<open>lru_cache\<close> keeps what was read under the file's name.\<close>

type_synonym config_cache = "(string \<times> dispatch_config) list"

definition load_config_file ::
  "('s, 'v) dispatch_lib \<Rightarrow> (string list \<Rightarrow> string list) \<Rightarrow> string \<Rightarrow> config_cache \<Rightarrow>
     (dispatch_error, dispatch_config) result \<times> config_cache" where
  "load_config_file D walk file cache =
     (case map_of cache file of
        Some c \<Rightarrow> (Inr c, cache)
      | None \<Rightarrow>
          (case dl_text D file of
             None \<Rightarrow> (Inl BackendConfigurationError, cache)
           | Some text \<Rightarrow> (let c = parse_dispatch_config walk [] text in (Inr c, (file, c) # cache))))"

fun dispatcher_option :: "string \<times> kw_value \<Rightarrow> 's dispatcher \<Rightarrow> 's dispatcher" where
  "dispatcher_option (k, v) d =
     (let o' = lower k
      in if o' = ''dispatchconfig'' then d\<lparr>dp_config := (case v of KwConfig c \<Rightarrow> c | _ \<Rightarrow> [])\<rparr>
         else if o' = ''dispatchconfigfile'' then d\<lparr>dp_configFile := v\<rparr>
         else if o' = ''dispatchignoremodules'' \<and> kw_true v then d\<lparr>dp_ignoreModules := kw_list v\<rparr>
         else if o' = ''backendconfigdir'' then d\<lparr>dp_configDir := v\<rparr>
         else d)"

definition config_path :: "string \<Rightarrow> string \<Rightarrow> string" where
  "config_path dir backend = (if dir \<noteq> [] \<and> last dir = CHR ''/'' then dir else dir @ ''/'') @ backend @ ''.conf''"

definition load_backend ::
  "('s, 'v) dispatch_lib \<Rightarrow> string list \<Rightarrow> string \<Rightarrow> kwargs \<Rightarrow> string \<Rightarrow> (string \<times> 's) list \<Rightarrow>
     (dispatch_error, (string \<times> 's) list) result" where
  "load_backend D ignore dir kwargs backend bs =
     bindE (dl_load D (config_path dir backend))
       (\<lambda>conf. if bc_module conf = [] then Inl BackendConfigurationError
               else if bc_module conf \<in> set ignore then Inr bs
               else (case bc_config conf of
                       None \<Rightarrow> Inl BackendConfigurationError
                     | Some c \<Rightarrow>
                         (case dl_new D (bc_module conf) (dict_update_all kwargs (AList.update ''context'' (KwObject ''dispatcher'') c)) of
                            None \<Rightarrow> Inl (ConstructorError backend)
                          | Some s \<Rightarrow> Inr (bs @ [(backend, s)]))))"

definition loadBackends ::
  "('s, 'v) dispatch_lib \<Rightarrow> (string list \<Rightarrow> string list) \<Rightarrow> kwargs \<Rightarrow> 's dispatcher \<Rightarrow> (dispatch_error, 's dispatcher) result" where
  "loadBackends D walk kwargs d =
     (case dp_configDir d of
        KwText dir \<Rightarrow>
          (if dir = [] \<or> \<not> dl_exists D dir then Inl BackendConfigurationError
           else if \<exists>e \<in> set (dp_config d). [] \<in> set (snd e) then Inl BackendConfigurationError
           else bindE (foldE (load_backend D (dp_ignoreModules d) dir kwargs) (walk (concat (map snd (dp_config d)))) [])
                  (\<lambda>bs. Inr (d\<lparr>dp_backends := bs\<rparr>)))
      | _ \<Rightarrow> Inl BackendConfigurationError)"

section \<open>Methods\<close>

definition method_prefix :: "string \<Rightarrow> string" where
  "method_prefix m = takeWhile (\<lambda>c. c \<noteq> CHR ''_'') m"

definition backend_available :: "('s, 'v) dispatch_lib \<Rightarrow> 's dispatcher \<Rightarrow> string \<Rightarrow> string \<Rightarrow> bool" where
  "backend_available D d m b \<longleftrightarrow> (case map_of (dp_backends d) b of None \<Rightarrow> False | Some s \<Rightarrow> dl_hasattr D s m)"

definition method_backends :: "('s, 'v) dispatch_lib \<Rightarrow> 's dispatcher \<Rightarrow> string \<Rightarrow> string list" where
  "method_backends D d m =
     (if map_of (dp_backends d) (method_prefix m) \<noteq> None then [method_prefix m]
      else case filter (\<lambda>(r, bs). dl_search D r m) (dp_config d) of
             [] \<Rightarrow> []
           | (r, bs) # _ \<Rightarrow> filter (backend_available D d m) bs)"

definition dispatch_classes :: "('s, 'v) dispatch_lib \<Rightarrow> 's dispatcher \<Rightarrow> string list" where
  "dispatch_classes D d =
     (let cs = ''ConfigDataBackend'' # map (\<lambda>(b, s). dl_class D s) (dp_backends d)
      in if ''JSONRPCBackend'' \<in> set cs then remove1 ''JSONRPCBackend'' cs @ [''ExtendedConfigDataBackend''] else cs)"

definition add_method :: "('s, 'v) dispatch_lib \<Rightarrow> string \<times> bool \<Rightarrow> 's dispatcher \<Rightarrow> 's dispatcher" where
  "add_method D mn d =
     (case mn of (m, noExport) \<Rightarrow>
        if noExport \<or> startswith m ''_'' \<or> dl_own D m \<or> map_of (dp_methods d) m \<noteq> None then d
        else if method_backends D d m = [] then d
        else d\<lparr>dp_methods := dp_methods d @ [(m, method_backends D d m)]\<rparr>)"

definition createInstanceMethods :: "('s, 'v) dispatch_lib \<Rightarrow> 's dispatcher \<Rightarrow> 's dispatcher" where
  "createInstanceMethods D d =
     foldl (\<lambda>d mn. add_method D mn d)
       (d\<lparr>dp_extended := dp_extended d \<or> ''JSONRPCBackend'' \<in> set (map (\<lambda>(b, s). dl_class D s) (dp_backends d))\<rparr>)
       (concat (map (dl_members D) (dispatch_classes D d)))"

definition dispatcher_start :: "kwargs \<Rightarrow> options \<Rightarrow> 's dispatcher" where
  "dispatcher_start kwargs opts =
     foldl (\<lambda>d kv. dispatcher_option kv d)
       \<lparr>dp_configFile = KwNone, dp_config = [], dp_ignoreModules = [], dp_configDir = KwNone, dp_backends = [],
        dp_extended = False, dp_methods = [], dp_options = opts\<rparr> kwargs"

definition loadDispatchConfig ::
  "('s, 'v) dispatch_lib \<Rightarrow> (string list \<Rightarrow> string list) \<Rightarrow> config_cache \<Rightarrow> 's dispatcher \<Rightarrow>
     (dispatch_error, 's dispatcher) result \<times> config_cache" where
  "loadDispatchConfig D walk cache d =
     (if kw_true (dp_configFile d)
      then (case dp_configFile d of
              KwText f \<Rightarrow> (case load_config_file D walk f cache of
                             (Inl e, c') \<Rightarrow> (Inl e, c')
                           | (Inr c, c') \<Rightarrow> (Inr (d\<lparr>dp_config := c\<rparr>), c'))
            | _ \<Rightarrow> (Inl BackendConfigurationError, cache))
      else (Inr d, cache))"

definition BackendDispatcher ::
  "('s, 'v) dispatch_lib \<Rightarrow> (string list \<Rightarrow> string list) \<Rightarrow> kwargs \<Rightarrow> options \<Rightarrow> config_cache \<Rightarrow>
     (dispatch_error, 's dispatcher) result \<times> config_cache" where
  "BackendDispatcher D walk kwargs opts cache =
     (case loadDispatchConfig D walk cache (dispatcher_start kwargs opts) of
        (r, cache') \<Rightarrow>
          (bindE r (\<lambda>d. if dp_config d = [] then Inl BackendConfigurationError
             else bindE (loadBackends D walk kwargs d)
               (\<lambda>d'. let d2 = createInstanceMethods D d'
                     in Inr (d2\<lparr>dp_backends := map (\<lambda>(b, s). (b, dl_init D s)) (dp_backends d2)\<rparr>))), cache'))"

section \<open>Calls\<close>

fun merge_results :: "'v pyval \<Rightarrow> 'v pyval \<Rightarrow> 'v pyval" where
  "merge_results (PList xs) (PList ys) = PList (xs @ ys)"
| "merge_results (PDict d) (PDict e) = PDict (dict_update_all e d)"
| "merge_results (PSet A) (PSet B) = PSet (A \<union> B)"
| "merge_results (PTuple xs) (PTuple ys) = PTuple (xs @ ys)"
| "merge_results r PNone = r"
| "merge_results _ r = r"

fun dispatch_calls ::
  "('s, 'v) dispatch_lib \<Rightarrow> string \<Rightarrow> kwargs \<Rightarrow> string list \<Rightarrow> 'v pyval \<Rightarrow> 's dispatcher \<Rightarrow>
     (dispatch_error, 'v pyval) result \<times> 's dispatcher" where
  "dispatch_calls D m args [] result d = (Inr result, d)"
| "dispatch_calls D m args (b # bs) result d =
     (case map_of (dp_backends d) b of
        None \<Rightarrow> (Inl (AttributeMissing b), d)
      | Some s \<Rightarrow>
          (if \<not> dl_hasattr D s m then (Inl (AttributeMissing m), d)
           else case dl_call D m args s of
                  (r, s') \<Rightarrow>
                    (let d' = d\<lparr>dp_backends := AList.update b s' (dp_backends d)\<rparr>
                     in case r of Inl e \<Rightarrow> (Inl e, d')
                        | Inr res \<Rightarrow> dispatch_calls D m args bs (merge_results result res) d')))"

definition dispatchMethod ::
  "('s, 'v) dispatch_lib \<Rightarrow> string list \<Rightarrow> string \<Rightarrow> kwargs \<Rightarrow> 's dispatcher \<Rightarrow> (dispatch_error, 'v pyval) result \<times> 's dispatcher" where
  "dispatchMethod D methodBackends m args d = dispatch_calls D m args methodBackends PNone d"

text \<open>A call of a method of the dispatcher that was created for a backend's method.\<close>

definition call_method ::
  "('s, 'v) dispatch_lib \<Rightarrow> string \<Rightarrow> kwargs \<Rightarrow> 's dispatcher \<Rightarrow> (dispatch_error, 'v pyval) result \<times> 's dispatcher" where
  "call_method D m args d =
     (case map_of (dp_methods d) m of
        None \<Rightarrow> (Inl (AttributeMissing m), d)
      | Some bs \<Rightarrow> dispatchMethod D bs m args d)"

definition dispatcher_setOptions :: "('s, 'v) dispatch_lib \<Rightarrow> hash \<Rightarrow> 's dispatcher \<Rightarrow> 's dispatcher" where
  "dispatcher_setOptions D new d =
     d\<lparr>dp_options := backend_setOptions new (dp_options d), dp_backends := map (\<lambda>(b, s). (b, dl_setOptions D new s)) (dp_backends d)\<rparr>"

definition dispatcher_getOptions :: "('s, 'v) dispatch_lib \<Rightarrow> 's dispatcher \<Rightarrow> hash" where
  "dispatcher_getOptions D d =
     foldl (\<lambda>h (b, s). dict_update_all (dl_getOptions D s) h) (backend_getOptions (dp_options d)) (dp_backends d)"

text \<open>The first backend whose exit fails keeps the others from theirs.\<close>

fun exit_all :: "('s, 'v) dispatch_lib \<Rightarrow> (string \<times> 's) list \<Rightarrow> bool \<times> (string \<times> 's) list" where
  "exit_all D [] = (True, [])"
| "exit_all D ((b, s) # bs) =
     (case dl_exit D s of
        (False, s') \<Rightarrow> (False, (b, s') # bs)
      | (True, s') \<Rightarrow> (case exit_all D bs of (r, bs') \<Rightarrow> (r, (b, s') # bs')))"

definition dispatcher_exit :: "('s, 'v) dispatch_lib \<Rightarrow> 's dispatcher \<Rightarrow> bool \<times> 's dispatcher" where
  "dispatcher_exit D d = (case exit_all D (dp_backends d) of (r, bs) \<Rightarrow> (r, d\<lparr>dp_backends := bs\<rparr>))"

definition dispatcher_getConfig :: "'s dispatcher \<Rightarrow> dispatch_config" where
  "dispatcher_getConfig d = dp_config d"

definition dispatcher_getBackendNames :: "'s dispatcher \<Rightarrow> string list" where
  "dispatcher_getBackendNames d = map fst (dp_backends d)"

section \<open>The table of methods\<close>

lemma method_backends_cong:
  "dp_backends d = dp_backends d' \<Longrightarrow> dp_config d = dp_config d' \<Longrightarrow> method_backends D d m = method_backends D d' m"
  by (simp add: method_backends_def backend_available_def [abs_def] split: list.splits)

lemma add_method_keeps [simp]:
  "dp_backends (add_method D mn d) = dp_backends d" "dp_config (add_method D mn d) = dp_config d"
  by (cases mn; simp add: add_method_def)+

lemma add_methods_keep:
  "dp_backends (foldl (\<lambda>d mn. add_method D mn d) d ms) = dp_backends d \<and>
   dp_config (foldl (\<lambda>d mn. add_method D mn d) d ms) = dp_config d"
  by (induction ms arbitrary: d) simp_all

lemma createInstanceMethods_keeps [simp]:
  "dp_backends (createInstanceMethods D d) = dp_backends d" "dp_config (createInstanceMethods D d) = dp_config d"
  by (simp_all add: createInstanceMethods_def add_methods_keep)

definition dispatched :: "('s, 'v) dispatch_lib \<Rightarrow> 's dispatcher \<Rightarrow> string \<Rightarrow> bool" where
  "dispatched D d m \<longleftrightarrow> \<not> startswith m ''_'' \<and> \<not> dl_own D m \<and> method_backends D d m \<noteq> []"

lemma added_method:
  "map_of (dp_methods (add_method D (m, n) d)) k =
     (case map_of (dp_methods d) k of
        Some bs \<Rightarrow> Some bs
      | None \<Rightarrow> if k = m \<and> \<not> n \<and> dispatched D d m then Some (method_backends D d m) else None)"
  by (auto simp: add_method_def dispatched_def map_add_def split: option.splits)

lemma added_methods:
  "map_of (dp_methods (foldl (\<lambda>d mn. add_method D mn d) d ms)) k =
     (case map_of (dp_methods d) k of
        Some bs \<Rightarrow> Some bs
      | None \<Rightarrow> if (k, False) \<in> set ms \<and> dispatched D d k then Some (method_backends D d k) else None)"
proof (induction ms arbitrary: d)
  case (Cons mn ms)
  obtain m n where mn: "mn = (m, n)" by (cases mn)
  have "method_backends D (add_method D mn d) k = method_backends D d k" by (rule method_backends_cong) simp_all
  then have c: "method_backends D (add_method D mn d) k = method_backends D d k"
      "dispatched D (add_method D mn d) k = dispatched D d k" by (simp_all add: dispatched_def)
  show ?case by (simp only: foldl_Cons Cons.IH c) (auto simp: mn added_method split: option.splits)
qed (simp split: option.splits)

lemma created_method:
  assumes "dp_methods d = []"
  shows "map_of (dp_methods (createInstanceMethods D d)) m =
    (if (\<exists>C \<in> set (dispatch_classes D d). (m, False) \<in> set (dl_members D C)) \<and> dispatched D d m
     then Some (method_backends D d m) else None)"
proof -
  let ?d = "d\<lparr>dp_extended := dp_extended d \<or> ''JSONRPCBackend'' \<in> set (map (\<lambda>(b, s). dl_class D s) (dp_backends d))\<rparr>"
  have c: "method_backends D ?d m = method_backends D d m" by (rule method_backends_cong) simp_all
  then have "dispatched D ?d m = dispatched D d m" by (simp add: dispatched_def)
  with c show ?thesis using assms by (simp only: createInstanceMethods_def added_methods) simp
qed

section \<open>Every backend is reached\<close>

lemma load_backend_names:
  assumes "load_backend D ignore dir kw b bs = Inr bs'"
  shows "fst ` set bs' \<subseteq> insert b (fst ` set bs)"
  using assms by (auto simp: load_backend_def bindE_eq_Inr split: if_splits option.splits)

lemma load_backends_names:
  assumes "foldE (load_backend D ignore dir kw) ns bs = Inr bs'"
  shows "fst ` set bs' \<subseteq> set ns \<union> fst ` set bs"
  using assms
proof (induction ns arbitrary: bs)
  case (Cons n ns)
  then obtain u where u: "load_backend D ignore dir kw n bs = Inr u" "foldE (load_backend D ignore dir kw) ns u = Inr bs'"
    by (auto simp: bindE_eq_Inr)
  show ?case using Cons.IH[OF u(2)] load_backend_names[OF u(1)] by auto
qed simp

lemma loadBackends_Inr:
  assumes "loadBackends D walk kw d = Inr d'"
  obtains dir bs where "foldE (load_backend D (dp_ignoreModules d) dir kw) (walk (concat (map snd (dp_config d)))) [] = Inr bs"
    and "d' = d\<lparr>dp_backends := bs\<rparr>"
  using assms by (auto simp: loadBackends_def bindE_eq_Inr split: kw_value.splits if_splits)

lemma loadBackends_names:
  assumes "loadBackends D walk kw d = Inr d'" "\<forall>xs. set (walk xs) = set xs"
  shows "fst ` set (dp_backends d') \<subseteq> (\<Union>e \<in> set (dp_config d). set (snd e))"
    and "dp_config d' = dp_config d" and "dp_methods d' = dp_methods d"
proof -
  obtain dir bs where r: "foldE (load_backend D (dp_ignoreModules d) dir kw) (walk (concat (map snd (dp_config d)))) [] = Inr bs"
    and d': "d' = d\<lparr>dp_backends := bs\<rparr>"
    using assms(1) by (rule loadBackends_Inr)
  show "fst ` set (dp_backends d') \<subseteq> (\<Union>e \<in> set (dp_config d). set (snd e))"
    using load_backends_names[OF r] assms(2) d' by simp
  show "dp_config d' = dp_config d" "dp_methods d' = dp_methods d" using d' by simp_all
qed

text \<open>A parsed configuration: its entries for \<open>backend_\<close> methods name every backend it uses.\<close>

definition names_all :: "dispatch_config \<Rightarrow> bool" where
  "names_all c \<longleftrightarrow> (\<forall>(m, bs) \<in> set c. startswith m ''backend_'' \<longrightarrow> (\<Union>e \<in> set c. set (snd e)) \<subseteq> set bs)"

lemma added_backends_name_all:
  assumes "(m, bs) \<in> set (map (add_missing_backends used) c)" "startswith m ''backend_''"
  shows "set used \<subseteq> set bs"
proof -
  obtain bs0 where "(m, bs) = add_missing_backends used (m, bs0)"
    using assms(1) by (auto simp: add_missing_backends_eq)
  then show ?thesis using assms(2) by (auto simp: add_missing_backends_eq)
qed

lemma parsed_names_all:
  assumes "\<forall>xs. set (walk xs) = set xs"
  shows "names_all (parse_dispatch_config walk lines text)"
proof -
  let ?w = "List.map_filter dispatch_entry (ConfigFile_parse [CHR '';'', CHR ''#''] True (lines_of lines text))"
  have u: "(\<Union>e \<in> set (parse_dispatch_config walk lines text). set (snd e)) = set (walk (concat (map snd ?w)))"
    using used_backends_of_config[OF assms, of "lines" "text"] assms by (simp add: getUsedBackends_def)
  have "set (walk (concat (map snd ?w))) \<subseteq> set bs"
    if "(m, bs) \<in> set (parse_dispatch_config walk lines text)" "startswith m ''backend_''" for m bs
    using added_backends_name_all that unfolding written_entries by blast
  then show ?thesis unfolding names_all_def u by blast
qed

lemma method_backends_of_all:
  assumes "names_all (dp_config d)" "fst ` set (dp_backends d) \<subseteq> (\<Union>e \<in> set (dp_config d). set (snd e))"
    and "filter (\<lambda>(r, bs). dl_search D r m) (dp_config d) = (r, bs) # es" "startswith r ''backend_''"
    and "map_of (dp_backends d) (method_prefix m) = None"
  shows "set (method_backends D d m) = {b. backend_available D d m b}"
proof -
  have "(r, bs) \<in> set (filter (\<lambda>(r, bs). dl_search D r m) (dp_config d))" unfolding assms(3) by simp
  then have "(r, bs) \<in> set (dp_config d)" by simp
  then have "(\<Union>e \<in> set (dp_config d). set (snd e)) \<subseteq> set bs" using assms(1,4) unfolding names_all_def by blast
  then have "fst ` set (dp_backends d) \<subseteq> set bs" using assms(2) by blast
  moreover have "b \<in> fst ` set (dp_backends d)" if "backend_available D d m b" for b
  proof (rule ccontr)
    assume "b \<notin> fst ` set (dp_backends d)"
    then have "map_of (dp_backends d) b = None" by (simp add: map_of_eq_None_iff)
    then show False using that by (simp add: backend_available_def)
  qed
  ultimately have "{b. backend_available D d m b} \<subseteq> set bs" by blast
  moreover have "method_backends D d m = filter (backend_available D d m) bs" using assms(3,5) by (simp add: method_backends_def)
  ultimately show ?thesis by auto
qed

lemma dispatcher_option_keeps [simp]: "dp_methods (dispatcher_option kv d) = dp_methods d"
  by (cases kv) (simp add: Let_def)

lemma dispatcher_start_methods: "dp_methods (dispatcher_start kw opts :: 's dispatcher) = []"
proof -
  have "dp_methods (foldl (\<lambda>d kv. dispatcher_option kv d) d kw) = dp_methods d" for d :: "'s dispatcher"
    by (induction kw arbitrary: d) simp_all
  then show ?thesis by (simp add: dispatcher_start_def)
qed

text \<open>A cache of configurations all of which were parsed from some text.\<close>

definition parsed_cache :: "(string list \<Rightarrow> string list) \<Rightarrow> config_cache \<Rightarrow> bool" where
  "parsed_cache walk cache \<longleftrightarrow> (\<forall>(f, c) \<in> set cache. names_all c)"

lemma loaded_config:
  assumes "loadDispatchConfig D walk cache d = (Inr d', cache')" "kw_true (dp_configFile d)"
    and "parsed_cache walk cache" "\<forall>xs. set (walk xs) = set xs"
  shows "names_all (dp_config d')" and "dp_methods d' = dp_methods d"
proof -
  obtain f c where l: "load_config_file D walk f cache = (Inr c, cache')" and d': "d' = d\<lparr>dp_config := c\<rparr>"
    using assms(1,2) by (auto simp: loadDispatchConfig_def split: kw_value.splits prod.splits sum.splits)
  have "names_all c"
  proof (cases "map_of cache f")
    case None
    then show ?thesis using l parsed_names_all[OF assms(4)]
      by (auto simp: load_config_file_def Let_def split: option.splits)
  next
    case (Some c')
    then have "(f, c) \<in> set cache" using l by (auto simp: load_config_file_def dest: map_of_SomeD)
    then show ?thesis using assms(3) unfolding parsed_cache_def by blast
  qed
  then show "names_all (dp_config d')" "dp_methods d' = dp_methods d" using d' by simp_all
qed

lemma BackendDispatcher_Inr:
  assumes "BackendDispatcher D walk kw opts cache = (Inr d, cache')"
  obtains d0 d1 where "loadDispatchConfig D walk cache (dispatcher_start kw opts) = (Inr d0, cache')"
    and "loadBackends D walk kw d0 = Inr d1"
    and "d = (createInstanceMethods D d1)\<lparr>dp_backends := map (\<lambda>(b, s). (b, dl_init D s)) (dp_backends d1)\<rparr>"
  using assms by (auto simp: BackendDispatcher_def bindE_eq_Inr Let_def split: prod.splits if_splits)

lemma map_of_map_values: "map_of (map (\<lambda>(b, s). (b, f s)) xs) b = map_option f (map_of xs b)"
  by (induction xs) auto

lemma available_initialised:
  assumes "\<forall>s m. dl_hasattr D (dl_init D s) m = dl_hasattr D s m"
  shows "backend_available D (d\<lparr>dp_backends := map (\<lambda>(b, s). (b, dl_init D s)) (dp_backends e)\<rparr>) m = backend_available D e m"
  using assms by (auto simp: backend_available_def map_of_map_values split: option.splits)

text \<open>
  C15: When the dispatcher reads its configuration from a file, every method it creates whose name is first matched by an entry for
  \<open>backend_\<close> methods is passed on to exactly the loaded backends that have it, however few of them the entry
  in the file names (unless the name starts with that of a backend, which then gets the method alone).
\<close>

theorem backend_calls_reach_every_backend:
  assumes "BackendDispatcher D walk kwargs opts cache = (Inr d, cache')"
    and "kw_true (dp_configFile (dispatcher_start kwargs opts :: 's dispatcher))"
    and "\<forall>xs. set (walk xs) = set xs" and "parsed_cache walk cache"
    and "\<forall>s m. dl_hasattr D (dl_init D (s :: 's)) m = dl_hasattr D s m"
    and "map_of (dp_methods d) m = Some bs" and "method_prefix m \<notin> set (dispatcher_getBackendNames d)"
    and "filter (\<lambda>(r, bs). dl_search D r m) (dispatcher_getConfig d) = (r, cs) # es" and "startswith r ''backend_''"
  shows "set bs = {b \<in> set (dispatcher_getBackendNames d). \<exists>s. map_of (dp_backends d) b = Some s \<and> dl_hasattr D s m}"
proof -
  obtain d0 d1 where l: "loadDispatchConfig D walk cache (dispatcher_start kwargs opts) = (Inr d0, cache')"
    and b: "loadBackends D walk kwargs d0 = Inr d1"
    and d: "d = (createInstanceMethods D d1)\<lparr>dp_backends := map (\<lambda>(b, s). (b, dl_init D s)) (dp_backends d1)\<rparr>"
    using assms(1) by (rule BackendDispatcher_Inr)
  note c = loaded_config[OF l assms(2,4,3)] loadBackends_names[OF b assms(3)]
  have m: "dp_methods d1 = []" using c(2,5) by (simp add: dispatcher_start_methods)
  have bs: "bs = method_backends D d1 m"
    using assms(6) created_method[OF m, of D m] d by (simp split: if_splits)
  have "map_of (dp_backends d1) (method_prefix m) = None"
    using assms(7) d by (simp add: dispatcher_getBackendNames_def map_of_eq_None_iff image_image case_prod_unfold)
  moreover have "filter (\<lambda>(r, bs). dl_search D r m) (dp_config d1) = (r, cs) # es"
    using assms(8) d by (simp add: dispatcher_getConfig_def)
  ultimately have "set bs = {b. backend_available D d1 m b}"
    using method_backends_of_all[of d1 D m r cs es] c(1,3,4) assms(9) bs by simp
  moreover have "backend_available D d1 m b \<longleftrightarrow> (\<exists>s. map_of (dp_backends d) b = Some s \<and> dl_hasattr D s m)" for b
    using assms(5) d by (auto simp: backend_available_def map_of_map_values split: option.splits)
  moreover have "b \<in> set (dispatcher_getBackendNames d)" if "map_of (dp_backends d) b = Some s" for b s
    using that by (force simp: dispatcher_getBackendNames_def dest: map_of_SomeD)
  ultimately show ?thesis by auto
qed

definition sample_dispatch_lib :: "(string, string) dispatch_lib" where
  "sample_dispatch_lib = \<lparr>dl_text = (\<lambda>f. Some (concat (map (\<lambda>l. l @ [newline]) sample_dispatch))), dl_exists = (\<lambda>d. True),
     dl_load = (\<lambda>f. Inr \<lparr>bc_module = f, bc_config = Some []\<rparr>), dl_new = (\<lambda>m kw. Some m), dl_class = (\<lambda>s. s),
     dl_members = (\<lambda>c. if c = ''ConfigDataBackend'' then [(''_init'', False), (''backend_createBase'', False), (''host_getObjects'', False)] else []),
     dl_own = (\<lambda>m. m = ''backend_exit''), dl_hasattr = (\<lambda>s m. \<not> (s = ''/conf/opsipxeconfd.conf'' \<and> startswith m ''host'')),
     dl_call = (\<lambda>m kw s. (Inr (PList [s @ m]), s)), dl_search = (\<lambda>r m. startswith m (takeWhile (\<lambda>c. c \<noteq> CHR ''.'') r)),
     dl_init = (\<lambda>s. s), dl_setOptions = (\<lambda>h s. s), dl_getOptions = (\<lambda>s. []), dl_exit = (\<lambda>s. (True, s))\<rparr>"

definition sample_dispatcher_kwargs :: kwargs where
  "sample_dispatcher_kwargs = [(''dispatchConfigFile'', KwText ''/dispatch.conf''), (''backendConfigDir'', KwText ''/conf'')]"

definition sample_dispatcher :: "string dispatcher" where
  "sample_dispatcher =
     \<lparr>dp_configFile = KwText ''/dispatch.conf'',
      dp_config = [(''backend_.*'', [''mysql'', ''opsipxeconfd'', ''file'']), (''host_.*'', [''file'', ''opsipxeconfd'']), (''.*'', [''mysql''])],
      dp_ignoreModules = [], dp_configDir = KwText ''/conf'',
      dp_backends = [(''file'', ''/conf/file.conf''), (''opsipxeconfd'', ''/conf/opsipxeconfd.conf''), (''mysql'', ''/conf/mysql.conf'')],
      dp_extended = False,
      dp_methods = [(''backend_createBase'', [''mysql'', ''opsipxeconfd'', ''file'']), (''host_getObjects'', [''file''])],
      dp_options = \<lparr>option_defaults = [], option_store = []\<rparr>\<rparr>"

lemma sample_dispatcher_created:
  "BackendDispatcher sample_dispatch_lib remdups sample_dispatcher_kwargs \<lparr>option_defaults = [], option_store = []\<rparr> [] =
     (Inr sample_dispatcher, [(''/dispatch.conf'', dp_config sample_dispatcher)])"
  by code_simp

theorem backend_calls_reach_every_backend_witness:
  "set [''mysql'', ''opsipxeconfd'', ''file''] =
     {b \<in> set (dispatcher_getBackendNames sample_dispatcher). \<exists>s. map_of (dp_backends sample_dispatcher) b = Some s \<and>
        dl_hasattr sample_dispatch_lib s ''backend_createBase''}"
proof (rule backend_calls_reach_every_backend[OF sample_dispatcher_created])
  show "kw_true (dp_configFile (dispatcher_start sample_dispatcher_kwargs \<lparr>option_defaults = [], option_store = []\<rparr> :: string dispatcher))"
    by code_simp
  show "map_of (dp_methods sample_dispatcher) ''backend_createBase'' = Some [''mysql'', ''opsipxeconfd'', ''file'']" by code_simp
  show "method_prefix ''backend_createBase'' \<notin> set (dispatcher_getBackendNames sample_dispatcher)" by code_simp
  show "filter (\<lambda>(r, bs). dl_search sample_dispatch_lib r ''backend_createBase'') (dispatcher_getConfig sample_dispatcher) =
      (''backend_.*'', [''mysql'', ''opsipxeconfd'', ''file'']) # [(''.*'', [''mysql''])]" by code_simp
qed (simp_all add: parsed_cache_def sample_dispatch_lib_def startswith_def)

section \<open>Results of several backends\<close>

lemma merge_none [simp]: "merge_results PNone r = r"
  by (cases r) simp_all

lemma dispatched_lists:
  assumes "distinct ns"
    and "\<forall>b \<in> set ns. \<exists>s. map_of (dp_backends d) b = Some s \<and> dl_hasattr D s m \<and> fst (dl_call D m args s) = Inr (PList (vs b))"
  shows "\<exists>d'. dispatch_calls D m args ns (PList acc) d = (Inr (PList (acc @ concat (map vs ns))), d') \<and>
    dp_methods d' = dp_methods d \<and>
    (\<forall>b. map_of (dp_backends d') b =
       (if b \<in> set ns then map_option (\<lambda>s. snd (dl_call D m args s)) (map_of (dp_backends d) b) else map_of (dp_backends d) b))"
  using assms
proof (induction ns arbitrary: d acc)
  case (Cons n ns)
  obtain s where s: "map_of (dp_backends d) n = Some s" "dl_hasattr D s m" "fst (dl_call D m args s) = Inr (PList (vs n))"
    using Cons.prems(2) by auto
  define d1 where "d1 = d\<lparr>dp_backends := AList.update n (snd (dl_call D m args s)) (dp_backends d)\<rparr>"
  have step: "dispatch_calls D m args (n # ns) (PList acc) d = dispatch_calls D m args ns (PList (acc @ vs n)) d1"
    using s by (simp add: d1_def Let_def case_prod_unfold)
  have old: "map_of (dp_backends d1) b = map_of (dp_backends d) b" if "b \<noteq> n" for b
    using that by (simp add: d1_def update_conv')
  have hyp: "\<forall>b \<in> set ns. \<exists>s. map_of (dp_backends d1) b = Some s \<and> dl_hasattr D s m \<and> fst (dl_call D m args s) = Inr (PList (vs b))"
  proof
    fix b assume b: "b \<in> set ns"
    then have "b \<noteq> n" using Cons.prems(1) by auto
    then show "\<exists>s. map_of (dp_backends d1) b = Some s \<and> dl_hasattr D s m \<and> fst (dl_call D m args s) = Inr (PList (vs b))"
      using Cons.prems(2) b old by simp
  qed
  obtain d' where d': "dispatch_calls D m args ns (PList (acc @ vs n)) d1 = (Inr (PList ((acc @ vs n) @ concat (map vs ns))), d')"
      "dp_methods d' = dp_methods d1"
      "\<forall>b. map_of (dp_backends d') b =
         (if b \<in> set ns then map_option (\<lambda>s. snd (dl_call D m args s)) (map_of (dp_backends d1) b) else map_of (dp_backends d1) b)"
    using Cons.IH[OF _ hyp, of "acc @ vs n"] Cons.prems(1) by auto
  have "map_of (dp_backends d1) n = Some (snd (dl_call D m args s))" by (simp add: d1_def update_conv')
  then have "\<forall>b. map_of (dp_backends d') b =
     (if b \<in> set (n # ns) then map_option (\<lambda>s. snd (dl_call D m args s)) (map_of (dp_backends d) b) else map_of (dp_backends d) b)"
    using d'(3) s(1) old Cons.prems(1) by (metis (no_types, lifting) distinct.simps(2) option.map(2) set_ConsD list.set_intros)
  then show ?case using step d'(1,2) by (intro exI[of _ d']) (simp add: d1_def)
qed simp

text \<open>
  C16: Calling a method that is dispatched to several backends, all of which return lists, calls each of them once, with the
  same arguments, leaves every other backend alone, and returns their lists one after the other in the order of the entry.
\<close>

theorem dispatched_call_returns_all_lists:
  assumes "map_of (dp_methods d) m = Some bs" and "distinct bs" and "bs \<noteq> []"
    and "\<forall>b \<in> set bs. \<exists>s. map_of (dp_backends d) b = Some s \<and> dl_hasattr D s m \<and> fst (dl_call D m args s) = Inr (PList (vs b))"
  shows "\<exists>d'. call_method D m args d = (Inr (PList (concat (map vs bs))), d') \<and>
    (\<forall>b. map_of (dp_backends d') b =
       (if b \<in> set bs then map_option (\<lambda>s. snd (dl_call D m args s)) (map_of (dp_backends d) b) else map_of (dp_backends d) b))"
proof -
  obtain n ns where bs: "bs = n # ns" using assms(3) by (cases bs) auto
  obtain s where s: "map_of (dp_backends d) n = Some s" "dl_hasattr D s m" "fst (dl_call D m args s) = Inr (PList (vs n))"
    using assms(4) bs by auto
  have "dispatch_calls D m args bs PNone d = dispatch_calls D m args bs (PList []) d"
    using s by (simp add: bs Let_def case_prod_unfold)
  then show ?thesis
    using dispatched_lists[OF assms(2,4), of "[]"] assms(1) by (auto simp: call_method_def dispatchMethod_def)
qed

theorem dispatched_call_returns_all_lists_witness:
  "\<exists>d'. call_method sample_dispatch_lib ''backend_createBase'' [] sample_dispatcher =
      (Inr (PList (concat (map (\<lambda>b. [''/conf/'' @ b @ ''.confbackend_createBase'']) [''mysql'', ''opsipxeconfd'', ''file'']))), d') \<and>
    (\<forall>b. map_of (dp_backends d') b =
       (if b \<in> set [''mysql'', ''opsipxeconfd'', ''file'']
        then map_option (\<lambda>s. snd (dl_call sample_dispatch_lib ''backend_createBase'' [] s)) (map_of (dp_backends sample_dispatcher) b)
        else map_of (dp_backends sample_dispatcher) b))"
  by (rule dispatched_call_returns_all_lists) (simp_all add: sample_dispatcher_def sample_dispatch_lib_def startswith_def)

end
