(* ===== verification/AclFile.thy ===== *)
theory AclFile
  imports ConfigFiles
begin

text \<open>
  \<open>BackendACLFile.parse\<close> of OPSI/Util/File/Opsi/__init__.py: the access control lists that AccessControl applies,
  read from their file character by character. The names of the groups of administrators
  (\<open>OPSI_ADMIN_GROUP\<close>, \<open>FILE_ADMIN_GROUP\<close>) come from the system's configuration and are arguments. It is proved that every list
  written in the grammar of the file is read as written.
\<close>

section \<open>Reading\<close>

datatype acl_error = AclValueError | AclIndexError

record acl_scan =
  sc_param :: string
  sc_values :: "string list"
  sc_inside :: bool
  sc_entry :: acl_entry

definition acl_types :: "string list" where
  "acl_types = [''all'', ''self'', ''opsi_depotserver'', ''opsi_client'', ''sys_group'', ''sys_user'']"

definition types_with_ids :: "string list" where
  "types_with_ids = [''sys_group'', ''sys_user'', ''opsi_depotserver'', ''opsi_client'']"

definition acl_id :: "string \<Rightarrow> string \<Rightarrow> string \<Rightarrow> string \<Rightarrow> string" where
  "acl_id adminGroup fileAdminGroup aclType p =
     (if aclType = ''sys_group'' then replace_str ''{fileadmingroup}'' fileAdminGroup (replace_str ''{admingroup}'' adminGroup p) else p)"

text \<open>The end of a parameter, at a comma or at the end of the text.\<close>

definition finish_param :: "string \<Rightarrow> string \<Rightarrow> string \<Rightarrow> acl_scan \<Rightarrow> (acl_error, acl_scan) result" where
  "finish_param adminGroup fileAdminGroup aclType sc =
     (let p = strip (sc_param sc); vs = filter (\<lambda>v. v \<noteq> []) (map strip (sc_values sc)); e = sc_entry sc;
          fresh = (\<lambda>e'. Inr (sc\<lparr>sc_param := [], sc_values := [[]], sc_entry := e'\<rparr>))
      in if p = ''attributes'' then
           fresh (e\<lparr>e_denyAttributes := e_denyAttributes e @ map (\<lambda>v. strip (tl v)) (filter (\<lambda>v. hd v = CHR ''!'') vs),
                    e_allowAttributes := e_allowAttributes e @ filter (\<lambda>v. hd v \<noteq> CHR ''!'') vs\<rparr>)
         else if aclType \<in> set types_with_ids then fresh (e\<lparr>e_ids := e_ids e @ [acl_id adminGroup fileAdminGroup aclType p]\<rparr>)
         else Inl AclValueError)"

text \<open>One character; the flag says whether it is the last one.\<close>

definition take_char :: "char \<Rightarrow> bool \<Rightarrow> acl_scan \<Rightarrow> (acl_error, acl_scan) result" where
  "take_char c final sc =
     (if c = CHR ''('' then (if sc_inside sc then Inl AclValueError else Inr (sc\<lparr>sc_inside := True\<rparr>))
      else if c = CHR '')'' then (if \<not> sc_inside sc \<or> sc_param sc = [] then Inl AclValueError else Inr (sc\<lparr>sc_inside := False\<rparr>))
      else if c \<noteq> CHR '','' \<or> final then
        Inr (if sc_inside sc then sc\<lparr>sc_values := butlast (sc_values sc) @ [last (sc_values sc) @ [c]]\<rparr>
             else sc\<lparr>sc_param := sc_param sc @ [c]\<rparr>)
      else Inr sc)"

definition end_char :: "string \<Rightarrow> string \<Rightarrow> string \<Rightarrow> char \<Rightarrow> bool \<Rightarrow> acl_scan \<Rightarrow> (acl_error, acl_scan) result" where
  "end_char adminGroup fileAdminGroup aclType c final sc =
     (if c = CHR '','' \<or> final then
        (if sc_inside sc then (if final then Inl AclValueError else Inr (sc\<lparr>sc_values := sc_values sc @ [[]]\<rparr>))
         else finish_param adminGroup fileAdminGroup aclType sc)
      else Inr sc)"

fun acl_params :: "string \<Rightarrow> string \<Rightarrow> string \<Rightarrow> string \<Rightarrow> acl_scan \<Rightarrow> (acl_error, acl_scan) result" where
  "acl_params adminGroup fileAdminGroup aclType [] sc = Inr sc"
| "acl_params adminGroup fileAdminGroup aclType (c # cs) sc =
     bindE (take_char c (cs = []) sc)
       (\<lambda>sc1. bindE (end_char adminGroup fileAdminGroup aclType c (cs = []) sc1) (acl_params adminGroup fileAdminGroup aclType cs))"

definition new_acl_entry :: "string \<Rightarrow> acl_entry" where
  "new_acl_entry aclType = \<lparr>e_type = Some aclType, e_ids = [], e_denyAttributes = [], e_allowAttributes = []\<rparr>"

definition split_type :: "string \<Rightarrow> (acl_error, string \<times> string) result" where
  "split_type entry =
     (case dropWhile (\<lambda>c. c \<noteq> CHR ''('') entry of
        [] \<Rightarrow> Inr (entry, [])
      | _ # ps \<Rightarrow>
          (if ps = [] then Inl AclIndexError
           else if last ps \<noteq> CHR '')'' then Inl AclValueError
           else Inr (strip (takeWhile (\<lambda>c. c \<noteq> CHR ''('') entry), butlast ps)))"

definition read_acl_entry :: "string \<Rightarrow> string \<Rightarrow> string \<Rightarrow> (acl_error, acl_entry) result" where
  "read_acl_entry adminGroup fileAdminGroup t =
     bindE (split_type (strip t))
       (\<lambda>(aclType, ps).
          if aclType \<notin> set acl_types then Inl AclValueError
          else if ps = [] then
            (if aclType = ''sys_group'' \<or> aclType = ''sys_user'' then Inl AclValueError else Inr (new_acl_entry aclType))
          else bindE (acl_params adminGroup fileAdminGroup aclType ps
                 \<lparr>sc_param = [], sc_values = [[]], sc_inside = False, sc_entry = new_acl_entry aclType\<rparr>)
                 (\<lambda>sc. Inr (sc_entry sc)))"

definition read_acl_line ::
  "string \<Rightarrow> string \<Rightarrow> string \<Rightarrow> (string \<times> acl_entry list) list \<Rightarrow> (acl_error, (string \<times> acl_entry list) list) result" where
  "read_acl_line adminGroup fileAdminGroup line acl =
     (case name_and_rest line of
        None \<Rightarrow> Inl AclValueError
      | Some (m, r) \<Rightarrow>
          bindE (foldE (\<lambda>t es. bindE (read_acl_entry adminGroup fileAdminGroup t) (\<lambda>e. Inr (es @ [e]))) (split_char (CHR '';'') r) [])
            (\<lambda>es. Inr (acl @ [(strip m, es)])))"

text \<open>As for the host keys, lines given by the caller are not read.\<close>

definition BackendACLFile_parse ::
  "string \<Rightarrow> string \<Rightarrow> string list \<Rightarrow> string \<Rightarrow> (acl_error, (string \<times> acl_entry list) list) result" where
  "BackendACLFile_parse adminGroup fileAdminGroup lines text =
     foldE (read_acl_line adminGroup fileAdminGroup) (ConfigFile_parse [CHR ''#''] True (lines_of [] text)) []"

section \<open>The grammar\<close>

definition attribute_values :: "acl_entry \<Rightarrow> string list" where
  "attribute_values e = e_allowAttributes e @ map (\<lambda>a. CHR ''!'' # a) (e_denyAttributes e)"

definition acl_items :: "acl_entry \<Rightarrow> string list" where
  "acl_items e = e_ids e @
     (if attribute_values e = [] then [] else [''attributes('' @ join_char (CHR '','') (attribute_values e) @ '')''])"

definition acl_entry_text :: "acl_entry \<Rightarrow> string" where
  "acl_entry_text e = the (e_type e) @ (if acl_items e = [] then [] else ''('' @ join_char (CHR '','') (acl_items e) @ '')'')"

definition acl_line :: "string \<times> acl_entry list \<Rightarrow> string" where
  "acl_line me = fst me @ '': '' @ join_char (CHR '';'') (map acl_entry_text (snd me))"

definition plain_word :: "string \<Rightarrow> bool" where
  "plain_word w \<longleftrightarrow> w \<noteq> [] \<and> strip w = w \<and>
     (\<forall>c \<in> set w. \<not> is_break c \<and> c \<notin> {CHR ''('', CHR '')'', CHR '','', CHR '';'', CHR ''#''})"

definition wf_acl_entry :: "string \<Rightarrow> string \<Rightarrow> acl_entry \<Rightarrow> bool" where
  "wf_acl_entry adminGroup fileAdminGroup e \<longleftrightarrow>
     (case e_type e of
        None \<Rightarrow> False
      | Some t \<Rightarrow> t \<in> set acl_types \<and> (e_ids e \<noteq> [] \<longrightarrow> t \<in> set types_with_ids) \<and>
          (t \<in> {''sys_group'', ''sys_user''} \<longrightarrow> acl_items e \<noteq> []) \<and>
          (\<forall>i \<in> set (e_ids e). plain_word i \<and> i \<noteq> ''attributes'' \<and> acl_id adminGroup fileAdminGroup t i = i)) \<and>
     (\<forall>a \<in> set (e_allowAttributes e @ e_denyAttributes e). plain_word a) \<and>
     (\<forall>a \<in> set (e_allowAttributes e). hd a \<noteq> CHR ''!'')"

definition plain_method :: "string \<Rightarrow> bool" where
  "plain_method m \<longleftrightarrow> m \<noteq> [] \<and> strip m = m \<and> (\<forall>c \<in> set m. \<not> is_break c \<and> c \<notin> {CHR '':'', CHR ''#''})"

definition wf_acl :: "string \<Rightarrow> string \<Rightarrow> (string \<times> acl_entry list) list \<Rightarrow> bool" where
  "wf_acl adminGroup fileAdminGroup acl \<longleftrightarrow>
     (\<forall>(m, es) \<in> set acl. plain_method m \<and> es \<noteq> [] \<and> (\<forall>e \<in> set es. wf_acl_entry adminGroup fileAdminGroup e))"

section \<open>Reading what the grammar writes\<close>

definition special :: "char \<Rightarrow> bool" where
  "special c \<longleftrightarrow> c \<in> {CHR ''('', CHR '')'', CHR '',''}"

definition fresh_scan :: "acl_entry \<Rightarrow> acl_scan" where
  "fresh_scan e = \<lparr>sc_param = [], sc_values = [[]], sc_inside = False, sc_entry = e\<rparr>"

lemma plain_wordD:
  assumes "plain_word w"
  shows "w \<noteq> []" "strip w = w" "\<forall>c \<in> set w. \<not> special c"
  using assms unfolding plain_word_def special_def by blast+

lemma scan_plain_char:
  assumes "\<not> special c" "cs \<noteq> []"
  shows "acl_params A F T (c # cs) sc =
    acl_params A F T cs (if sc_inside sc then sc\<lparr>sc_values := butlast (sc_values sc) @ [last (sc_values sc) @ [c]]\<rparr>
      else sc\<lparr>sc_param := sc_param sc @ [c]\<rparr>)"
  using assms by (simp add: take_char_def end_char_def special_def)

lemma scan_param:
  assumes "\<forall>c \<in> set w. \<not> special c" "r \<noteq> []" "\<not> sc_inside sc"
  shows "acl_params A F T (w @ r) sc = acl_params A F T r (sc\<lparr>sc_param := sc_param sc @ w\<rparr>)"
  using assms
proof (induction w arbitrary: sc)
  case (Cons c w)
  have "acl_params A F T ((c # w) @ r) sc = acl_params A F T (w @ r) (sc\<lparr>sc_param := sc_param sc @ [c]\<rparr>)"
    using Cons.prems scan_plain_char[of c "w @ r" A F T sc] by simp
  also have "\<dots> = acl_params A F T r (sc\<lparr>sc_param := sc_param sc @ c # w\<rparr>)"
    using Cons.prems Cons.IH[of "sc\<lparr>sc_param := sc_param sc @ [c]\<rparr>"] by simp
  finally show ?case .
qed simp

lemma scan_value:
  assumes "\<forall>c \<in> set w. \<not> special c" "r \<noteq> []" "sc_inside sc" "sc_values sc = vs @ [v]"
  shows "acl_params A F T (w @ r) sc = acl_params A F T r (sc\<lparr>sc_values := vs @ [v @ w]\<rparr>)"
  using assms
proof (induction w arbitrary: sc v)
  case Nil
  then have "sc\<lparr>sc_values := vs @ [v @ []]\<rparr> = sc" by simp
  then show ?case by simp
next
  case (Cons c w)
  have "acl_params A F T ((c # w) @ r) sc = acl_params A F T (w @ r) (sc\<lparr>sc_values := vs @ [v @ [c]]\<rparr>)"
    using Cons.prems scan_plain_char[of c "w @ r" A F T sc] by simp
  also have "\<dots> = acl_params A F T r (sc\<lparr>sc_values := vs @ [v @ c # w]\<rparr>)"
    using Cons.prems Cons.IH[of "sc\<lparr>sc_values := vs @ [v @ [c]]\<rparr>" "v @ [c]"] by simp
  finally show ?case .
qed

lemma join_char_Cons: "join_char c (w # ws) = (if ws = [] then w else w @ c # join_char c ws)"
  by (cases ws) (simp_all add: join_char_def)

lemma scan_values:
  assumes "\<forall>w \<in> set ws. \<forall>c \<in> set w. \<not> special c" "ws \<noteq> []" "r \<noteq> []" "sc_inside sc" "sc_values sc = vs @ [[]]"
  shows "acl_params A F T (join_char (CHR '','') ws @ r) sc = acl_params A F T r (sc\<lparr>sc_values := vs @ ws\<rparr>)"
  using assms
proof (induction ws arbitrary: sc vs)
  case (Cons w ws)
  show ?case
  proof (cases "ws = []")
    case True
    then show ?thesis using Cons.prems scan_value[of w r sc vs "[]" A F T] by (simp add: join_char_Cons)
  next
    case False
    let ?sc = "sc\<lparr>sc_values := vs @ [w]\<rparr>"
    have ne: "join_char (CHR '','') ws @ r \<noteq> []" using Cons.prems(3) by simp
    have "acl_params A F T (join_char (CHR '','') (w # ws) @ r) sc = acl_params A F T (CHR '','' # join_char (CHR '','') ws @ r) ?sc"
      using Cons.prems False scan_value[of w "CHR '','' # join_char (CHR '','') ws @ r" sc vs "[]" A F T] by (simp add: join_char_Cons)
    also have "\<dots> = acl_params A F T (join_char (CHR '','') ws @ r) (sc\<lparr>sc_values := (vs @ [w]) @ [[]]\<rparr>)"
      using Cons.prems(4) ne by (simp add: take_char_def end_char_def)
    also have "\<dots> = acl_params A F T r (sc\<lparr>sc_values := (vs @ [w]) @ ws\<rparr>)"
      using Cons.prems False Cons.IH[of "sc\<lparr>sc_values := (vs @ [w]) @ [[]]\<rparr>" "vs @ [w]"] by simp
    finally show ?thesis by simp
  qed
qed simp

text \<open>One parameter: the scan of its text, followed by a comma or by nothing.\<close>

definition item_entry :: "string \<Rightarrow> string \<Rightarrow> string \<Rightarrow> string \<Rightarrow> acl_entry \<Rightarrow> acl_entry \<Rightarrow> bool" where
  "item_entry A F T item e e' \<longleftrightarrow> item \<noteq> [] \<and>
     (\<forall>r. r \<noteq> [] \<longrightarrow> acl_params A F T (item @ CHR '','' # r) (fresh_scan e) = acl_params A F T r (fresh_scan e')) \<and>
     acl_params A F T item (fresh_scan e) = Inr (fresh_scan e')"

lemma finish_id:
  assumes "plain_word w" "w \<noteq> ''attributes''" "T \<in> set types_with_ids" "acl_id A F T w = w"
  shows "finish_param A F T ((fresh_scan e)\<lparr>sc_param := w\<rparr>) = Inr (fresh_scan (e\<lparr>e_ids := e_ids e @ [w]\<rparr>))"
  using assms plain_wordD(2)[OF assms(1)] by (simp add: finish_param_def Let_def fresh_scan_def)

lemma id_item:
  assumes "plain_word w" "w \<noteq> ''attributes''" "T \<in> set types_with_ids" "acl_id A F T w = w"
  shows "item_entry A F T w e (e\<lparr>e_ids := e_ids e @ [w]\<rparr>)"
  unfolding item_entry_def
proof (intro conjI allI impI)
  note w = plain_wordD[OF assms(1)]
  show "w \<noteq> []" by (rule w(1))
  have fresh: "(fresh_scan e)\<lparr>sc_param := sc_param (fresh_scan e) @ v\<rparr> = (fresh_scan e)\<lparr>sc_param := v\<rparr>" for v
    by (simp add: fresh_scan_def)
  have inside: "\<not> sc_inside (fresh_scan e)" by (simp add: fresh_scan_def)
  note end_id = finish_id[OF assms]
  show "acl_params A F T (w @ CHR '','' # r) (fresh_scan e) = acl_params A F T r (fresh_scan (e\<lparr>e_ids := e_ids e @ [w]\<rparr>))" if "r \<noteq> []" for r
    using scan_param[OF w(3), of "CHR '','' # r" "fresh_scan e" A F T] inside that end_id
    by (simp add: fresh take_char_def end_char_def)
  have l: "butlast w @ [last w] = w" "\<not> special (last w)" using w(1,3) by simp_all
  have b: "\<forall>c \<in> set (butlast w). \<not> special c" using w(3) by (meson in_set_butlastD)
  have "acl_params A F T (butlast w @ [last w]) (fresh_scan e) = acl_params A F T [last w] ((fresh_scan e)\<lparr>sc_param := butlast w\<rparr>)"
    using scan_param[OF b, of "[last w]" "fresh_scan e" A F T] inside by (simp add: fresh)
  also have "\<dots> = Inr (fresh_scan (e\<lparr>e_ids := e_ids e @ [w]\<rparr>))"
    using l end_id inside by (simp add: take_char_def end_char_def special_def)
  finally show "acl_params A F T w (fresh_scan e) = Inr (fresh_scan (e\<lparr>e_ids := e_ids e @ [w]\<rparr>))" using l(1) by simp
qed

text \<open>The attributes of an entry, as its parameter gives them.\<close>

lemma strip_values:
  assumes "\<forall>a \<in> set al. plain_word a \<and> hd a \<noteq> CHR ''!''" "\<forall>a \<in> set de. plain_word a"
  shows "filter (\<lambda>v. v \<noteq> []) (map strip (al @ map (\<lambda>a. CHR ''!'' # a) de)) = al @ map (\<lambda>a. CHR ''!'' # a) de"
    and "filter (\<lambda>v. hd v \<noteq> CHR ''!'') (al @ map (\<lambda>a. CHR ''!'' # a) de) = al"
    and "map (\<lambda>v. strip (tl v)) (filter (\<lambda>v. hd v = CHR ''!'') (al @ map (\<lambda>a. CHR ''!'' # a) de)) = de"
proof -
  have bang: "strip (CHR ''!'' # a) = CHR ''!'' # a" if "plain_word a" for a
    using plain_wordD(1,2)[OF that] by (auto simp: strip_eq_self is_space_def)
  have "map strip (al @ map (\<lambda>a. CHR ''!'' # a) de) = al @ map (\<lambda>a. CHR ''!'' # a) de"
    using assms plain_wordD(2) bang by (auto intro!: map_idI)
  moreover have "\<forall>a \<in> set al. a \<noteq> []" using assms(1) plain_wordD(1) by blast
  ultimately show "filter (\<lambda>v. v \<noteq> []) (map strip (al @ map (\<lambda>a. CHR ''!'' # a) de)) = al @ map (\<lambda>a. CHR ''!'' # a) de"
    by (auto simp: filter_id_conv)
  show "filter (\<lambda>v. hd v \<noteq> CHR ''!'') (al @ map (\<lambda>a. CHR ''!'' # a) de) = al"
    using assms(1) by (simp add: filter_id_conv filter_empty_conv)
  have "map (\<lambda>v. strip (tl v)) (map (\<lambda>a. CHR ''!'' # a) de) = de"
    using assms(2) plain_wordD(2) by (auto simp: comp_def intro!: map_idI)
  moreover have "filter (\<lambda>v. hd v = CHR ''!'') (al @ map (\<lambda>a. CHR ''!'' # a) de) = map (\<lambda>a. CHR ''!'' # a) de"
    using assms(1) by (simp add: filter_id_conv filter_empty_conv)
  ultimately show "map (\<lambda>v. strip (tl v)) (filter (\<lambda>v. hd v = CHR ''!'') (al @ map (\<lambda>a. CHR ''!'' # a) de)) = de"
    by simp
qed

definition with_attributes :: "string list \<Rightarrow> string list \<Rightarrow> acl_entry \<Rightarrow> acl_entry" where
  "with_attributes al de e =
     e\<lparr>e_denyAttributes := e_denyAttributes e @ de, e_allowAttributes := e_allowAttributes e @ al\<rparr>"

lemma attributes_item:
  assumes al: "\<forall>a \<in> set al. plain_word a \<and> hd a \<noteq> CHR ''!''" and de: "\<forall>a \<in> set de. plain_word a"
    and ne: "al @ map (\<lambda>a. CHR ''!'' # a) de \<noteq> []"
  shows "item_entry A F T (''attributes('' @ join_char (CHR '','') (al @ map (\<lambda>a. CHR ''!'' # a) de) @ '')'') e (with_attributes al de e)"
proof -
  let ?vs = "al @ map (\<lambda>a. CHR ''!'' # a) de"
  let ?sc = "\<lparr>sc_param = ''attributes'', sc_values = ?vs, sc_inside = False, sc_entry = e\<rparr>"
  have plain: "\<forall>w \<in> set ?vs. \<forall>c \<in> set w. \<not> special c"
  proof -
    have "\<not> special (CHR ''!'')" by (simp add: special_def)
    moreover have "\<forall>w \<in> set al \<union> set de. \<forall>c \<in> set w. \<not> special c" using al de plain_wordD(3) by blast
    ultimately show ?thesis by (simp add: ball_Un)
  qed
  have name: "\<forall>c \<in> set ''attributes''. \<not> special c" by (simp add: special_def)
  have "strip ''attributes'' = ''attributes''" by code_simp
  then have fin: "finish_param A F T ?sc = Inr (fresh_scan (with_attributes al de e))"
    using strip_values[OF al de] by (simp add: finish_param_def Let_def fresh_scan_def with_attributes_def)
  have go: "acl_params A F T (''attributes('' @ join_char (CHR '','') ?vs @ CHR '')'' # r) (fresh_scan e) =
      bindE (end_char A F T (CHR '')'') (r = []) ?sc) (acl_params A F T r)" for r
  proof -
    have "acl_params A F T (''attributes'' @ CHR ''('' # join_char (CHR '','') ?vs @ CHR '')'' # r) (fresh_scan e) =
        acl_params A F T (CHR ''('' # join_char (CHR '','') ?vs @ CHR '')'' # r) ((fresh_scan e)\<lparr>sc_param := ''attributes''\<rparr>)"
      using scan_param[OF name, of "CHR ''('' # join_char (CHR '','') ?vs @ CHR '')'' # r" "fresh_scan e" A F T]
      by (simp add: fresh_scan_def)
    also have "\<dots> = acl_params A F T (join_char (CHR '','') ?vs @ CHR '')'' # r)
        ((fresh_scan e)\<lparr>sc_param := ''attributes'', sc_inside := True\<rparr>)"
      by (simp add: take_char_def end_char_def fresh_scan_def)
    also have "\<dots> = acl_params A F T (CHR '')'' # r)
        ((fresh_scan e)\<lparr>sc_param := ''attributes'', sc_inside := True, sc_values := ?vs\<rparr>)"
      using scan_values[OF plain ne, of "CHR '')'' # r" "(fresh_scan e)\<lparr>sc_param := ''attributes'', sc_inside := True\<rparr>" "[]" A F T]
      by (simp add: fresh_scan_def)
    also have "\<dots> = bindE (end_char A F T (CHR '')'') (r = []) ?sc) (acl_params A F T r)"
      by (simp add: take_char_def fresh_scan_def)
    finally show ?thesis by simp
  qed
  have stop: "acl_params A F T (''attributes('' @ join_char (CHR '','') ?vs @ '')'') (fresh_scan e) = Inr (fresh_scan (with_attributes al de e))"
    unfolding go[of "[]"] by (simp add: end_char_def fin)
  have comma: "acl_params A F T (CHR '','' # r) ?sc = acl_params A F T r (fresh_scan (with_attributes al de e))" if "r \<noteq> []" for r
    using that fin by (simp add: take_char_def end_char_def)
  have more_items: "acl_params A F T (''attributes('' @ join_char (CHR '','') ?vs @ CHR '')'' # CHR '','' # r) (fresh_scan e) =
      acl_params A F T r (fresh_scan (with_attributes al de e))" if "r \<noteq> []" for r
    unfolding go[of "CHR '','' # r"] comma[OF that, symmetric] by (simp only: end_char_def) simp
  show ?thesis
    unfolding item_entry_def append.assoc append_Cons append_Nil
    using stop more_items unfolding append_Cons append_Nil by blast
qed

lemma scan_items:
  assumes "items \<noteq> []" "\<forall>i \<in> set items. \<forall>e. item_entry A F T i e (f i e)"
  shows "acl_params A F T (join_char (CHR '','') items) (fresh_scan e) = Inr (fresh_scan (foldl (\<lambda>e i. f i e) e items))"
  using assms
proof (induction items arbitrary: e)
  case (Cons i items)
  have i: "item_entry A F T i e (f i e)" using Cons.prems(2) by simp
  show ?case
  proof (cases items)
    case Nil
    then show ?thesis using i by (simp add: join_char_Cons item_entry_def)
  next
    case (Cons j js)
    have "item_entry A F T j e (f j e)" using Cons.prems(2) Cons by simp
    then have "join_char (CHR '','') items \<noteq> []" by (simp add: Cons join_char_def item_entry_def)
    then show ?thesis using i Cons.IH[of "f i e"] Cons.prems(2) Cons by (simp add: join_char_Cons item_entry_def)
  qed
qed simp

section \<open>Entries, lines and the whole file\<close>

definition item_of :: "acl_entry \<Rightarrow> string \<Rightarrow> acl_entry \<Rightarrow> acl_entry" where
  "item_of e i acc =
     (if CHR ''('' \<in> set i then with_attributes (e_allowAttributes e) (e_denyAttributes e) acc
      else acc\<lparr>e_ids := e_ids acc @ [i]\<rparr>)"

lemma items_give_entry:
  assumes "wf_acl_entry A F e" "e_type e = Some T"
  shows "foldl (\<lambda>acc i. item_of e i acc) (new_acl_entry T) (acl_items e) = e"
proof -
  have ids: "\<forall>i \<in> set (e_ids e). CHR ''('' \<notin> set i"
    using assms plain_wordD(3) by (auto simp: wf_acl_entry_def special_def)
  have f: "foldl (\<lambda>acc i. item_of e i acc) acc is = acc\<lparr>e_ids := e_ids acc @ is\<rparr>"
    if "\<forall>i \<in> set is. CHR ''('' \<notin> set i" for acc "is"
    using that
  proof (induction "is" arbitrary: acc)
    case Nil
    then show ?case by simp
  next
    case (Cons i "is")
    then show ?case by (simp add: item_of_def)
  qed
  have a: "(attribute_values e = []) = (e_allowAttributes e = [] \<and> e_denyAttributes e = [])" by (simp add: attribute_values_def)
  show ?thesis using f[OF ids] assms(2) a
    by (cases e) (auto simp: acl_items_def new_acl_entry_def item_of_def with_attributes_def)
qed

lemma items_are_items:
  assumes "wf_acl_entry A F e" "e_type e = Some T"
  shows "\<forall>i \<in> set (acl_items e). \<forall>acc. item_entry A F T i acc (item_of e i acc)"
proof (intro ballI allI)
  fix i acc
  assume i: "i \<in> set (acl_items e)"
  show "item_entry A F T i acc (item_of e i acc)"
  proof (cases "i \<in> set (e_ids e)")
    case True
    then have p: "plain_word i" "i \<noteq> ''attributes''" "acl_id A F T i = i" "T \<in> set types_with_ids"
      using assms by (auto simp: wf_acl_entry_def)
    then have "CHR ''('' \<notin> set i" using plain_wordD(3) special_def by blast
    then show ?thesis using id_item[OF p(1,2,4,3)] by (simp add: item_of_def)
  next
    case False
    then have "attribute_values e \<noteq> []" "i = ''attributes('' @ join_char (CHR '','') (attribute_values e) @ '')''"
      using i by (auto simp: acl_items_def split: if_splits)
    moreover have "\<forall>a \<in> set (e_allowAttributes e). plain_word a \<and> hd a \<noteq> CHR ''!''" "\<forall>a \<in> set (e_denyAttributes e). plain_word a"
      using assms(1) by (auto simp: wf_acl_entry_def)
    ultimately show ?thesis
      using attributes_item[of "e_allowAttributes e" "e_denyAttributes e"] by (simp add: item_of_def attribute_values_def)
  qed
qed

lemma type_names:
  assumes "T \<in> set acl_types"
  shows "T \<noteq> []" "strip T = T" "CHR ''('' \<notin> set T" "\<forall>c \<in> set T. \<not> is_break c \<and> c \<notin> {CHR '';'', CHR ''#''}"
proof -
  have "list_all (\<lambda>T. T \<noteq> [] \<and> strip T = T \<and> CHR ''('' \<notin> set T \<and> (\<forall>c \<in> set T. \<not> is_break c \<and> c \<notin> {CHR '';'', CHR ''#''})) acl_types"
    by code_simp
  then show "T \<noteq> []" "strip T = T" "CHR ''('' \<notin> set T" "\<forall>c \<in> set T. \<not> is_break c \<and> c \<notin> {CHR '';'', CHR ''#''}"
    using assms by (auto simp: list_all_iff)
qed

lemma entry_text_stripped:
  assumes "wf_acl_entry A F e"
  shows "strip (acl_entry_text e) = acl_entry_text e" and "acl_entry_text e \<noteq> []"
proof -
  obtain T where T: "e_type e = Some T" "T \<in> set acl_types" using assms by (auto simp: wf_acl_entry_def split: option.splits)
  note n = type_names[OF T(2)]
  show "acl_entry_text e \<noteq> []" using n(1) T(1) by (simp add: acl_entry_text_def)
  have "\<not> is_space (CHR '')'')" by code_simp
  then show "strip (acl_entry_text e) = acl_entry_text e"
    using n(1,2) T(1) by (simp add: acl_entry_text_def strip_eq_self)
qed

lemma read_written_entry:
  assumes "wf_acl_entry A F e"
  shows "read_acl_entry A F (acl_entry_text e) = Inr e"
proof -
  obtain T where T: "e_type e = Some T" "T \<in> set acl_types" using assms by (auto simp: wf_acl_entry_def split: option.splits)
  note n = type_names[OF T(2)]
  have par: "takeWhile (\<lambda>c. c \<noteq> CHR ''('') (T @ CHR ''('' # x) = T" "dropWhile (\<lambda>c. c \<noteq> CHR ''('') (T @ CHR ''('' # x) = CHR ''('' # x" for x
    using n(3) by (auto simp: takeWhile_append dropWhile_append)
  have nopar: "dropWhile (\<lambda>c. c \<noteq> CHR ''('') T = []" using n(3) by auto
  show ?thesis
  proof (cases "acl_items e = []")
    case True
    then have "e = new_acl_entry T" using items_give_entry[OF assms T(1)] by simp
    moreover have "T \<notin> {''sys_group'', ''sys_user''}" using assms T(1) True by (auto simp: wf_acl_entry_def)
    moreover have "split_type T = Inr (T, [])" by (simp only: split_type_def nopar list.case)
    ultimately show ?thesis using True T n(2) by (simp add: read_acl_entry_def acl_entry_text_def)
  next
    case False
    let ?ps = "join_char (CHR '','') (acl_items e)"
    note it = items_are_items[OF assms T(1)]
    have "?ps \<noteq> []" using False it by (cases "acl_items e") (auto simp: join_char_Cons item_entry_def)
    moreover have "acl_params A F T ?ps (fresh_scan (new_acl_entry T)) = Inr (fresh_scan e)"
      using scan_items[OF False it] items_give_entry[OF assms T(1)] by simp
    moreover have "split_type (acl_entry_text e) = Inr (T, ?ps)"
      using False T(1) n(2) par by (simp add: split_type_def acl_entry_text_def)
    ultimately show ?thesis using T entry_text_stripped[OF assms]
      by (simp add: read_acl_entry_def fresh_scan_def[symmetric]) (simp add: fresh_scan_def)
  qed
qed

definition line_char :: "char \<Rightarrow> bool" where
  "line_char c \<longleftrightarrow> \<not> is_break c \<and> c \<notin> {CHR '';'', CHR ''#''}"

lemma chars_join:
  assumes "P s" "\<forall>w \<in> set ws. \<forall>c \<in> set w. P c"
  shows "\<forall>c \<in> set (join_char s ws). P c"
  using assms by (induction ws) (auto simp: join_char_Cons, simp add: join_char_def)

lemma plain_word_line: "plain_word w \<Longrightarrow> \<forall>c \<in> set w. line_char c"
  unfolding plain_word_def line_char_def by blast

lemma entry_text_chars:
  assumes "wf_acl_entry A F e"
  shows "\<forall>c \<in> set (acl_entry_text e). line_char c"
proof -
  obtain T where T: "e_type e = Some T" "T \<in> set acl_types" using assms by (auto simp: wf_acl_entry_def split: option.splits)
  have p: "line_char (CHR ''('')" "line_char (CHR '')'')" "line_char (CHR '','')" "line_char (CHR ''!'')" "\<forall>c \<in> set ''attributes(''. line_char c"
    by code_simp+
  have T': "\<forall>c \<in> set T. line_char c" using type_names(4)[OF T(2)] unfolding line_char_def .
  have ids: "\<forall>w \<in> set (e_ids e). \<forall>c \<in> set w. line_char c" using assms T(1) plain_word_line by (auto simp: wf_acl_entry_def)
  have "\<forall>a \<in> set (e_allowAttributes e @ e_denyAttributes e). plain_word a" using assms unfolding wf_acl_entry_def by blast
  then have "\<forall>a \<in> set (e_allowAttributes e @ e_denyAttributes e). \<forall>c \<in> set a. line_char c" using plain_word_line by blast
  then have "\<forall>w \<in> set (attribute_values e). \<forall>c \<in> set w. line_char c" using p(4) by (simp add: attribute_values_def ball_Un)
  then have "\<forall>c \<in> set (join_char (CHR '','') (attribute_values e)). line_char c" using chars_join[where P = line_char, OF p(3)] by blast
  then have "\<forall>w \<in> set (acl_items e). \<forall>c \<in> set w. line_char c" using ids p by (simp add: acl_items_def ball_Un)
  then have "\<forall>c \<in> set (join_char (CHR '','') (acl_items e)). line_char c" using chars_join[where P = line_char, OF p(3)] by blast
  then show ?thesis using T T' p by (simp add: acl_entry_text_def ball_Un)
qed

lemma split_join_char:
  assumes "ws \<noteq> []" "\<forall>w \<in> set ws. s \<notin> set w"
  shows "split_char s (join_char s ws) = ws"
  using assms
proof (induction ws)
  case (Cons w ws)
  then show ?case by (cases "ws = []") (simp_all add: join_char_Cons split_char_append split_char_single)
qed simp

lemma entries_collected:
  assumes "\<forall>x \<in> set xs. r (g x) = Inr x"
  shows "foldE (\<lambda>t es. bindE (r t) (\<lambda>e. Inr (es @ [e]))) (map g xs) acc = Inr (acc @ xs)"
  using assms by (induction xs arbitrary: acc) auto

lemma joined_texts:
  assumes "es \<noteq> []" "\<forall>e \<in> set es. wf_acl_entry A F e" "r = join_char (CHR '';'') (map acl_entry_text es)"
  shows "r \<noteq> []" "\<not> is_space (hd r)" "\<not> is_space (last r)" "\<forall>c \<in> set r. \<not> is_break c \<and> c \<noteq> CHR ''#''"
proof -
  have ends: "t \<noteq> [] \<and> \<not> is_space (hd t) \<and> \<not> is_space (last t)" if "t \<in> set (map acl_entry_text es)" for t
    using that assms(2) entry_text_stripped by (fastforce simp: strip_eq_self)
  have "join_char (CHR '';'') ts \<noteq> [] \<and> \<not> is_space (hd (join_char (CHR '';'') ts)) \<and> \<not> is_space (last (join_char (CHR '';'') ts))"
    if "ts \<noteq> []" "\<forall>t \<in> set ts. t \<noteq> [] \<and> \<not> is_space (hd t) \<and> \<not> is_space (last t)" for ts
    using that
  proof (induction ts)
    case (Cons t ts)
    then show ?case by (cases "ts = []") (auto simp: join_char_Cons)
  qed simp
  then show "r \<noteq> []" "\<not> is_space (hd r)" "\<not> is_space (last r)" using ends assms(1,3) by simp_all
  have "\<forall>c \<in> set (acl_entry_text e). \<not> is_break c \<and> c \<noteq> CHR ''#''" if "e \<in> set es" for e
    using entry_text_chars[of A F e] assms(2) that unfolding line_char_def by blast
  then have "\<forall>t \<in> set (map acl_entry_text es). \<forall>c \<in> set t. \<not> is_break c \<and> c \<noteq> CHR ''#''" by simp
  moreover have "\<not> is_break (CHR '';'') \<and> CHR '';'' \<noteq> CHR ''#''" by code_simp
  ultimately show "\<forall>c \<in> set r. \<not> is_break c \<and> c \<noteq> CHR ''#''"
    unfolding assms(3) by (intro chars_join[where P = "\<lambda>c. \<not> is_break c \<and> c \<noteq> CHR ''#''"])
qed

lemma read_written_line:
  assumes "plain_method m" "es \<noteq> []" "\<forall>e \<in> set es. wf_acl_entry A F e"
  shows "config_line [CHR ''#''] True (acl_line (m, es)) = Some (acl_line (m, es))"
    and "\<forall>c \<in> set (acl_line (m, es)). \<not> is_break c"
    and "read_acl_line A F (acl_line (m, es)) acl = Inr (acl @ [(m, es)])"
proof -
  let ?ts = "map acl_entry_text es"
  define r where "r = join_char (CHR '';'') ?ts"
  note r = joined_texts[OF assms(2,3) r_def]
  have m: "m \<noteq> []" "strip m = m" "\<forall>c \<in> set m. \<not> is_break c" "CHR '':'' \<notin> set m" "CHR ''#'' \<notin> set m"
    using assms(1) unfolding plain_method_def by blast+
  have l: "acl_line (m, es) = m @ CHR '':'' # CHR '' '' # r" by (simp add: acl_line_def r_def)
  have b: "\<not> is_break (CHR '':'')" "\<not> is_break (CHR '' '')" "is_space (CHR '' '')" "is_break newline" by code_simp+
  show "\<forall>c \<in> set (acl_line (m, es)). \<not> is_break c" using l m(3) r(4) b by auto
  have "strip (acl_line (m, es)) = acl_line (m, es)" using l m(1,2) r(1,3) by (simp add: strip_eq_self)
  then show "config_line [CHR ''#''] True (acl_line (m, es)) = Some (acl_line (m, es))"
    by (rule config_line_plain) (use l m(5) r(4) in auto)
  have colon: "\<forall>c \<in> set m. c \<noteq> CHR '':''" using m(4) by metis
  then have t: "takeWhile (\<lambda>c. c \<noteq> CHR '':'') (m @ CHR '':'' # x) = m" "dropWhile (\<lambda>c. c \<noteq> CHR '':'') (m @ CHR '':'' # x) = CHR '':'' # x" for x
    using colon by (simp_all add: takeWhile_append dropWhile_append)
  have nl: "newline \<notin> set r" using r(4) b(4) by blast
  have "dropWhile is_space (CHR '' '' # r) = r" using r(2) b(3) by (simp add: dropWhile_eq_self_iff)
  moreover have "last r \<noteq> newline" using nl last_in_set[OF r(1)] by metis
  ultimately have strip_r: "before_newline (dropWhile is_space (CHR '' '' # r)) = r" by (simp add: before_newline_def)
  have n: "name_and_rest (acl_line (m, es)) = Some (m, r)"
    unfolding name_and_rest_def l t Let_def list.case strip_r using m(1) r(1) nl by simp
  have "CHR '';'' \<notin> set (acl_entry_text e)" if "e \<in> set es" for e
    using entry_text_chars[of A F e] assms(3) that unfolding line_char_def by blast
  then have "\<forall>t \<in> set ?ts. CHR '';'' \<notin> set t" by simp
  then have "split_char (CHR '';'') r = ?ts" using split_join_char[of ?ts] assms(2) by (simp add: r_def)
  moreover have "foldE (\<lambda>t es. bindE (read_acl_entry A F t) (\<lambda>e. Inr (es @ [e]))) ?ts [] = Inr ([] @ es)"
    using entries_collected[of es "read_acl_entry A F" acl_entry_text "[]"] read_written_entry assms(3) by blast
  ultimately show "read_acl_line A F (acl_line (m, es)) acl = Inr (acl @ [(m, es)])"
    using n m(2) by (simp add: read_acl_line_def)
qed

text \<open>
  C14: Every access control list written in the grammar of the file (a method's pattern, a colon, entries separated by semicolons, each a
  type with its ids and its allowed and denied attributes in parentheses) is read as exactly that list, in order, whatever
  lines the caller passes.
\<close>

theorem access_control_lists_are_read_as_written:
  assumes "wf_acl adminGroup fileAdminGroup acl"
  shows "BackendACLFile_parse adminGroup fileAdminGroup lines (concat (map (\<lambda>me. acl_line me @ [newline]) acl)) = Inr acl"
proof -
  have w: "plain_method m \<and> es \<noteq> [] \<and> (\<forall>e \<in> set es. wf_acl_entry adminGroup fileAdminGroup e)" if "(m, es) \<in> set acl" for m es
    using assms that unfolding wf_acl_def by blast
  have "splitlines (concat (map (\<lambda>l. l @ [newline]) (map acl_line acl))) = map acl_line acl"
    using w read_written_line(2) by (intro splitlines_lines) fastforce
  moreover have "ConfigFile_parse [CHR ''#''] True (map acl_line acl) = map acl_line acl"
    using w read_written_line(1) by (intro ConfigFile_parse_all) fastforce
  moreover have "foldE (read_acl_line adminGroup fileAdminGroup) (map acl_line acl) acc = Inr (acc @ acl)" for "acc"
    using w
  proof (induction acl arbitrary: "acc")
    case (Cons me acl)
    obtain m es where me: "me = (m, es)" by (cases me)
    have "read_acl_line adminGroup fileAdminGroup (acl_line me) acc = Inr (acc @ [me])"
      using Cons.prems[of m es] read_written_line(3) me by simp
    moreover have "foldE (read_acl_line adminGroup fileAdminGroup) (map acl_line acl) (acc @ [me]) = Inr ((acc @ [me]) @ acl)"
      by (rule Cons.IH) (rule Cons.prems, simp)
    ultimately show ?case by simp
  qed simp
  ultimately show ?thesis by (simp add: BackendACLFile_parse_def lines_of_def comp_def)
qed

definition sample_acl :: "(string \<times> acl_entry list) list" where
  "sample_acl =
     [(''backend_deleteBase'', [\<lparr>e_type = Some ''sys_group'', e_ids = [''opsiadmin'', ''group 2''], e_denyAttributes = [], e_allowAttributes = []\<rparr>]),
      (''host_get.*'',
       [\<lparr>e_type = Some ''opsi_depotserver'', e_ids = [], e_denyAttributes = [], e_allowAttributes = []\<rparr>,
        \<lparr>e_type = Some ''opsi_client'', e_ids = [''pc1.example.org''], e_denyAttributes = [''opsiHostKey''], e_allowAttributes = [''id'']\<rparr>])]"

theorem access_control_lists_are_read_as_written_witness:
  "BackendACLFile_parse ''opsiadmin'' ''pcpatch'' [] (concat (map (\<lambda>me. acl_line me @ [newline]) sample_acl)) = Inr sample_acl \<and>
   map acl_line sample_acl = [''backend_deleteBase: sys_group(opsiadmin,group 2)'',
     ''host_get.*: opsi_depotserver;opsi_client(pc1.example.org,attributes(id,!opsiHostKey))'']"
  by (rule conjI[OF access_control_lists_are_read_as_written]) (code_simp, code_simp)

text \<open>A comma at the end becomes part of the id; an open parenthesis alone is an \<open>IndexError\<close>.\<close>

lemma acl_comma_stays_in_id:
  "read_acl_entry ''opsiadmin'' ''pcpatch'' ''sys_user(anna,)'' =
     Inr \<lparr>e_type = Some ''sys_user'', e_ids = [''anna,''], e_denyAttributes = [], e_allowAttributes = []\<rparr>"
  by code_simp

lemma acl_open_parenthesis: "read_acl_entry ''opsiadmin'' ''pcpatch'' ''self('' = Inl AclIndexError"
  by code_simp

text \<open>The comment in the code separates the parameters of an entry by semicolons, which end the entry.\<close>

lemma acl_semicolon_between_parameters:
  "BackendACLFile_parse ''opsiadmin'' ''pcpatch'' [] ''abc: sys_group(admin;attributes(!opsiHostKey))'' = Inl AclValueError"
  by code_simp

end
