(* ===== verification/Manager.thy ===== *)
theory Manager
  imports Dispatch AclFile
begin

text \<open>
  How the parts are put together: the rules that \<open>BackendAccessControl\<close> loads from its file
  (OPSI/Backend/Manager/AccessControl.py) and the objects \<open>BackendManager\<close> and \<open>backendManagerFactory\<close> stack upon each other
  (OPSI/Backend/Manager/_Manager.py). A stack is the list of its layers, the innermost first. Constructors of layers that
  are modelled elsewhere or not at all appear by name only; \<open>forceBool\<close> of opsicommon is the argument \<open>truth\<close>.
\<close>

section \<open>The rules of the access control\<close>

text \<open>What was read from a file is kept under its name (\<open>lru_cache\<close>).\<close>

type_synonym acl_cache = "(string \<times> (string \<times> acl_entry list) list) list"

definition loadACLFile ::
  "string \<Rightarrow> string \<Rightarrow> (string \<Rightarrow> string option) \<Rightarrow> string \<Rightarrow> acl_cache \<Rightarrow>
     (dispatch_error, (string \<times> acl_entry list) list) result \<times> acl_cache" where
  "loadACLFile adminGroup fileAdminGroup files file cache =
     (case map_of cache file of
        Some acl \<Rightarrow> (Inr acl, cache)
      | None \<Rightarrow>
          (case files file of
             None \<Rightarrow> (Inl BackendConfigurationError, cache)
           | Some text \<Rightarrow>
               (case BackendACLFile_parse adminGroup fileAdminGroup [] text of
                  Inl _ \<Rightarrow> (Inl BackendConfigurationError, cache)
                | Inr acl \<Rightarrow> (Inr acl, (file, acl) # cache))))"

definition default_acl :: "string \<Rightarrow> (string \<times> acl_entry list) list" where
  "default_acl admin =
     [(''.*'', [\<lparr>e_type = Some ''sys_group'', e_ids = [admin], e_denyAttributes = [], e_allowAttributes = []\<rparr>])]"

text \<open>The table of compiled patterns; without rules only the administrators' group is let in.\<close>

definition acl_table_of ::
  "(string \<Rightarrow> string \<Rightarrow> bool) \<Rightarrow> string \<Rightarrow> (string \<times> acl_entry list) list \<Rightarrow> acl_table" where
  "acl_table_of search admin acl = map (\<lambda>(p, es). (search p, es)) (if acl = [] then default_acl admin else acl)"

section \<open>The stack of backends\<close>

datatype layer =
  LoadedBackend string | GivenBackend string | DispatcherLayer | ExtendedLayer | DepotserverLayer | HostControlLayer
  | HostControlSafeLayer | AccessControlLayer | ExtenderLayer

datatype manager_error = ManagerConfigurationError | ManagerKeyError | ManagerTypeError | ManagerValueError | LayerError dispatch_error

definition default_config :: kwargs where
  "default_config =
     [(''dispatchConfigFile'', KwText ''/etc/opsi/backendManager/dispatch.conf''), (''backendConfigDir'', KwText ''/etc/opsi/backends''),
      (''extensionConfigDir'', KwText ''/etc/opsi/backendManager/extend.d''), (''depotBackend'', KwBool False),
      (''hostControlBackend'', KwBool True), (''hostControlSafeBackend'', KwBool True)]"

fun put_option :: "string \<times> kw_value \<Rightarrow> kwargs \<Rightarrow> kwargs" where
  "put_option (k, v) bmc =
     (case find (\<lambda>(b, _). lower b = lower k) bmc of
        Some (b, _) \<Rightarrow> AList.update b v bmc
      | None \<Rightarrow> AList.update k v bmc)"

definition manager_kwargs :: "kwargs \<Rightarrow> kwargs" where
  "manager_kwargs kwargs =
     foldl (\<lambda>bmc kv. put_option kv bmc) (if ''backend'' \<in> fst ` set kwargs then [] else default_config) kwargs"

text \<open>
  The layer of the access control is an instance of the class given as \<open>accessControlClass\<close>, of \<open>BackendAccessControl\<close> when none is given.
\<close>

record manager_options =
  mo_load :: string
  mo_given :: "string option"
  mo_configDir :: kw_value
  mo_dispatch :: bool
  mo_extend :: bool
  mo_extensionConfigDir :: bool
  mo_extensionClass :: bool
  mo_accessControl :: bool
  mo_accessControlClass :: "kw_value option"
  mo_depot :: bool
  mo_hostControl :: bool
  mo_hostControlSafe :: bool

definition no_manager_options :: manager_options where
  "no_manager_options = \<lparr>mo_load = [], mo_given = None, mo_configDir = KwNone, mo_dispatch = False, mo_extend = False, mo_extensionConfigDir = False,
     mo_extensionClass = False, mo_accessControl = False, mo_accessControlClass = None, mo_depot = False, mo_hostControl = False,
     mo_hostControlSafe = False\<rparr>"

fun manager_option :: "(kw_value \<Rightarrow> bool) \<Rightarrow> string \<times> kw_value \<Rightarrow> manager_options \<Rightarrow> manager_options" where
  "manager_option truth (k, v) q =
     (let o' = lower k
      in if o' = ''backend'' then
           (case v of KwText s \<Rightarrow> q\<lparr>mo_load := s\<rparr> | KwObject x \<Rightarrow> q\<lparr>mo_given := Some x\<rparr> | _ \<Rightarrow> q\<lparr>mo_given := None\<rparr>)
         else if o' = ''backendconfigdir'' then q\<lparr>mo_configDir := v\<rparr>
         else if o' \<in> {''dispatchconfig'', ''dispatchconfigfile''} \<and> kw_true v then q\<lparr>mo_dispatch := True\<rparr>
         else if o' = ''depotbackend'' then q\<lparr>mo_depot := truth v\<rparr>
         else if o' = ''hostcontrolbackend'' then q\<lparr>mo_hostControl := truth v\<rparr>
         else if o' = ''hostcontrolsafebackend'' then q\<lparr>mo_hostControlSafe := truth v\<rparr>
         else if o' = ''extensionconfigdir'' \<and> kw_true v then q\<lparr>mo_extensionConfigDir := True, mo_extend := True\<rparr>
         else if o' = ''extensionclass'' then q\<lparr>mo_extensionClass := kw_true v, mo_extend := True\<rparr>
         else if o' = ''extend'' then q\<lparr>mo_extend := truth v\<rparr>
         else if o' \<in> {''acl'', ''aclfile''} \<and> kw_true v then q\<lparr>mo_accessControl := True\<rparr>
         else if o' = ''accesscontrolclass'' then q\<lparr>mo_accessControlClass := Some v\<rparr>
         else q)"

definition manager_options_of :: "(kw_value \<Rightarrow> bool) \<Rightarrow> kwargs \<Rightarrow> manager_options" where
  "manager_options_of truth kwargs = foldl (\<lambda>q kv. manager_option truth kv q) no_manager_options kwargs"

text \<open>\<open>^[a-zA-Z0-9-_]+$\<close>, and the same set for the directory of extensions: a newline may follow.\<close>

definition config_name :: "string \<Rightarrow> bool" where
  "config_name s \<longleftrightarrow> before_newline s \<noteq> [] \<and>
     (\<forall>c \<in> set (before_newline s). let n = of_char c :: nat
        in 48 \<le> n \<and> n \<le> 57 \<or> 65 \<le> n \<and> n \<le> 90 \<or> 97 \<le> n \<and> n \<le> 122 \<or> c = CHR ''-'' \<or> c = CHR ''_'')"

definition load_single_backend :: "('s, 'v) dispatch_lib \<Rightarrow> kw_value \<Rightarrow> string \<Rightarrow> (manager_error, layer) result" where
  "load_single_backend D configDir name =
     (case configDir of
        KwText dir \<Rightarrow>
          (if dir = [] \<or> \<not> dl_exists D dir then Inl ManagerConfigurationError
           else if \<not> config_name name then Inl ManagerValueError
           else (case dl_load D (config_path dir (lower name)) of
                   Inl e \<Rightarrow> Inl (LayerError e)
                 | Inr conf \<Rightarrow>
                     (if bc_module conf = [] then Inl ManagerConfigurationError
                      else case bc_config conf of
                             None \<Rightarrow> Inl ManagerConfigurationError
                           | Some c \<Rightarrow>
                               (case dl_new D (bc_module conf) (AList.update ''name'' (KwText name) c) of
                                  None \<Rightarrow> Inl (LayerError (ConstructorError name))
                                | Some s \<Rightarrow> Inr (LoadedBackend name)))))
      | _ \<Rightarrow> Inl ManagerConfigurationError)"

text \<open>The backend at the bottom: the dispatcher replaces one that was given or loaded.\<close>

definition bottom_layer ::
  "('s, 'v) dispatch_lib \<Rightarrow> (kwargs \<Rightarrow> (dispatch_error, bool) result) \<Rightarrow> manager_options \<Rightarrow> kwargs \<Rightarrow>
     (manager_error, layer \<times> bool) result" where
  "bottom_layer D dispatcher q kwargs =
     bindE (if mo_load q \<noteq> [] then bindE (load_single_backend D (mo_configDir q) (mo_load q)) (\<lambda>l. Inr (Some l))
            else Inr (map_option GivenBackend (mo_given q)))
       (\<lambda>b. if mo_dispatch q then
              (case dispatcher kwargs of Inl e \<Rightarrow> Inl (LayerError e) | Inr extended \<Rightarrow> Inr (DispatcherLayer, extended))
            else (case b of None \<Rightarrow> Inl ManagerConfigurationError | Some l \<Rightarrow> Inr (l, False)))"

definition upper_layers :: "manager_options \<Rightarrow> bool \<Rightarrow> layer list" where
  "upper_layers q extended =
     (if (mo_extend q \<or> mo_depot q) \<and> \<not> (mo_dispatch q \<and> extended) then [ExtendedLayer] else []) @
     (if mo_depot q then [DepotserverLayer] else []) @
     (if mo_hostControl q then [HostControlLayer] else []) @
     (if mo_hostControlSafe q then [HostControlSafeLayer] else []) @
     (if mo_accessControl q then [AccessControlLayer] else [])"

text \<open>The extender takes an extended backend, a dispatcher or the access control only.\<close>

definition extensible :: "(string \<Rightarrow> bool) \<Rightarrow> layer \<Rightarrow> bool" where
  "extensible isExtended l = (case l of LoadedBackend _ \<Rightarrow> False | GivenBackend x \<Rightarrow> isExtended x | _ \<Rightarrow> True)"

definition BackendManager ::
  "('s, 'v) dispatch_lib \<Rightarrow> (kwargs \<Rightarrow> (dispatch_error, bool) result) \<Rightarrow> (kw_value \<Rightarrow> bool) \<Rightarrow> (string \<Rightarrow> bool) \<Rightarrow> kwargs \<Rightarrow>
     (manager_error, layer list) result" where
  "BackendManager D dispatcher truth isExtended kwargs =
     (let kw = manager_kwargs kwargs; q = manager_options_of truth kw;
          named = filter (\<lambda>(k, v). lower k = ''backend'') kw
      in if named \<noteq> [] \<and> map_of kw ''backend'' = None then Inl ManagerKeyError
         else bindE (bottom_layer D dispatcher q (filter (\<lambda>(k, v). k \<noteq> ''backend'') kw))
           (\<lambda>(l, extended).
              let stack = l # upper_layers q extended
              in if mo_extensionConfigDir q \<or> mo_extensionClass q
                 then (if extensible isExtended (last stack) then Inr (stack @ [ExtenderLayer]) else Inl ManagerTypeError)
                 else Inr stack))"

definition opt_text :: "string option \<Rightarrow> kw_value" where
  "opt_text t = (case t of None \<Rightarrow> KwNone | Some s \<Rightarrow> KwText s)"

definition path_join :: "string \<Rightarrow> string \<Rightarrow> string" where
  "path_join d p = (if d = [] \<or> last d = CHR ''/'' then d @ p else d @ CHR ''/'' # p)"

definition backendManagerFactory ::
  "('s, 'v) dispatch_lib \<Rightarrow> (kwargs \<Rightarrow> (dispatch_error, bool) result) \<Rightarrow> (kw_value \<Rightarrow> bool) \<Rightarrow> (string \<Rightarrow> bool) \<Rightarrow>
     string option \<Rightarrow> string option \<Rightarrow> string option \<Rightarrow> string option \<Rightarrow> string \<Rightarrow> string option \<Rightarrow> string option \<Rightarrow> string list \<Rightarrow> kw_value \<Rightarrow> kwargs \<Rightarrow>
     (manager_error, layer list) result" where
  "backendManagerFactory D dispatcher truth isExtended user password dispatchConfigFile backendConfigDir extensionConfigDir aclFile depotId
     postpath context' kwargs =
     (let login = [(''username'', opt_text user), (''password'', opt_text password)];
          full = (\<lambda>ext. BackendManager D dispatcher truth isExtended
             ([(''dispatchConfigFile'', opt_text dispatchConfigFile), (''backendConfigDir'', opt_text backendConfigDir),
               (''extensionConfigDir'', KwText ext), (''aclFile'', opt_text aclFile), (''accessControlContext'', context'),
               (''depotBackend'', KwBool (depotId \<noteq> None \<and> depotId \<noteq> Some [])), (''hostControlBackend'', KwBool True),
               (''hostControlSafeBackend'', KwBool True)] @ login @ kwargs))
      in case postpath of
           [a, b] \<Rightarrow>
             (if a = ''backend'' then BackendManager D dispatcher truth isExtended
                ([(''backend'', KwText b), (''accessControlContext'', context'), (''backendConfigDir'', opt_text backendConfigDir),
                  (''aclFile'', opt_text aclFile)] @ login @ kwargs)
              else if a = ''extend'' then (if config_name b then full (path_join extensionConfigDir b) else Inl ManagerValueError)
              else full extensionConfigDir)
         | _ \<Rightarrow> full extensionConfigDir)"

section \<open>Every stack the factory builds is protected\<close>

lemma manager_option_protects:
  "mo_accessControl (manager_option truth kv q) \<longleftrightarrow>
     mo_accessControl q \<or> lower (fst kv) \<in> {''acl'', ''aclfile''} \<and> kw_true (snd kv)"
proof (cases kv)
  case (Pair k v)
  consider (one) "lower k = ''acl''" | (two) "lower k = ''aclfile''" | (other) "lower k \<notin> {''acl'', ''aclfile''}" by blast
  then show ?thesis
  proof cases
    case one
    then show ?thesis by (simp add: Pair Let_def)
  next
    case two
    then show ?thesis by (simp add: Pair Let_def)
  next
    case other
    then show ?thesis by (simp add: Pair Let_def split: kw_value.split)
  qed
qed

lemma manager_options_protect:
  "mo_accessControl (manager_options_of truth kw) \<longleftrightarrow> (\<exists>kv \<in> set kw. lower (fst kv) \<in> {''acl'', ''aclfile''} \<and> kw_true (snd kv))"
proof -
  have "mo_accessControl (foldl (\<lambda>q kv. manager_option truth kv q) q kw) \<longleftrightarrow>
      mo_accessControl q \<or> (\<exists>kv \<in> set kw. lower (fst kv) \<in> {''acl'', ''aclfile''} \<and> kw_true (snd kv))" for q
  proof (induction kw arbitrary: q)
    case (Cons kv kw)
    show ?case unfolding foldl_Cons Cons.IH manager_option_protects by auto
  qed simp
  then show ?thesis by (simp add: manager_options_of_def no_manager_options_def)
qed

lemma update_member: "(a, b) \<in> set d \<Longrightarrow> a \<noteq> k \<Longrightarrow> (a, b) \<in> set (AList.update k v d)"
  by (induction d) auto

lemma update_new_member: "(k, v) \<in> set (AList.update k v d)"
  by (induction d) auto

definition has_acl_file :: "string \<Rightarrow> kwargs \<Rightarrow> bool" where
  "has_acl_file f kw \<longleftrightarrow> (\<exists>k. lower k = ''aclfile'' \<and> (k, KwText f) \<in> set kw)"

lemma put_acl_file: "has_acl_file f (put_option (''aclFile'', KwText f) bmc)"
proof -
  have l: "lower ''aclFile'' = ''aclfile''" by code_simp
  show ?thesis
  proof (cases "find (\<lambda>(b, _). lower b = lower ''aclFile'') bmc")
    case None
    then have "(''aclFile'', KwText f) \<in> set (put_option (''aclFile'', KwText f) bmc)" by (simp add: update_new_member)
    then show ?thesis using l unfolding has_acl_file_def by blast
  next
    case (Some bw)
    obtain b w where bw: "bw = (b, w)" by (cases bw)
    have "lower b = ''aclfile''" using Some l bw by (auto simp: find_Some_iff)
    moreover have "(b, KwText f) \<in> set (put_option (''aclFile'', KwText f) bmc)" using Some bw by (simp add: update_new_member)
    ultimately show ?thesis unfolding has_acl_file_def by blast
  qed
qed

lemma put_other_option:
  assumes "has_acl_file f bmc" "lower k \<noteq> ''aclfile''"
  shows "has_acl_file f (put_option (k, v) bmc)"
proof -
  obtain a where a: "lower a = ''aclfile''" "(a, KwText f) \<in> set bmc" using assms(1) by (auto simp: has_acl_file_def)
  have found: "lower b = lower k" if "find (\<lambda>(b, _). lower b = lower k) bmc = Some (b, w)" for b w
    using that by (auto simp: find_Some_iff)
  have "(a, KwText f) \<in> set (put_option (k, v) bmc)"
  proof (cases "find (\<lambda>(b, _). lower b = lower k) bmc")
    case None
    have "a \<noteq> k" using a(1) assms(2) by blast
    then show ?thesis using None a(2) by (simp add: update_member)
  next
    case (Some bw)
    obtain b w where bw: "bw = (b, w)" by (cases bw)
    have "a \<noteq> b" using found[of b w] Some bw a(1) assms(2) by metis
    then show ?thesis using Some bw a(2) by (simp add: update_member)
  qed
  then show ?thesis using a(1) unfolding has_acl_file_def by blast
qed

lemma kwargs_keep_acl_file:
  assumes "\<forall>kv \<in> set post. lower (fst kv) \<noteq> ''aclfile''"
  shows "has_acl_file f (manager_kwargs (pre @ (''aclFile'', KwText f) # post))"
proof -
  have "has_acl_file f (foldl (\<lambda>bmc kv. put_option kv bmc) bmc post)" if "has_acl_file f bmc" for bmc
    using that assms
  proof (induction post arbitrary: bmc)
    case (Cons kv post)
    have "has_acl_file f (put_option kv bmc)"
      using put_other_option[OF Cons.prems(1), of "fst kv" "snd kv"] Cons.prems(2) by simp
    then show ?case using Cons.IH Cons.prems(2) by simp
  qed simp
  then show ?thesis using put_acl_file by (simp add: manager_kwargs_def del: put_option.simps)
qed

lemma bottom_is_no_upper_layer:
  assumes "bottom_layer D dispatcher q kw = Inr (l, x)"
  shows "l \<noteq> AccessControlLayer" "l \<noteq> ExtenderLayer"
  using assms
  by (auto simp: bottom_layer_def load_single_backend_def bindE_eq_Inr split: if_splits sum.splits option.splits kw_value.splits)

definition protected_stack :: "layer list \<Rightarrow> bool" where
  "protected_stack stack \<longleftrightarrow> (\<exists>below above. stack = below @ AccessControlLayer # above \<and>
     AccessControlLayer \<notin> set below \<and> ExtenderLayer \<notin> set below \<and> above \<in> {[], [ExtenderLayer]})"

lemma manager_is_protected:
  assumes "BackendManager D dispatcher truth isExtended kwargs = Inr stack" "has_acl_file f (manager_kwargs kwargs)" "f \<noteq> []"
  shows "protected_stack stack"
proof -
  let ?q = "manager_options_of truth (manager_kwargs kwargs)"
  have ac: "mo_accessControl ?q" 
  proof -
    obtain k where "lower k = ''aclfile''" "(k, KwText f) \<in> set (manager_kwargs kwargs)" using assms(2) unfolding has_acl_file_def by blast
    then show ?thesis using assms(3) unfolding manager_options_protect by (intro bexI[of _ "(k, KwText f)"]) simp_all
  qed
  obtain l x where l: "bottom_layer D dispatcher ?q (filter (\<lambda>(k, v). k \<noteq> ''backend'') (manager_kwargs kwargs)) = Inr (l, x)"
    and st: "stack = l # upper_layers ?q x \<or> stack = (l # upper_layers ?q x) @ [ExtenderLayer]"
    using assms(1) by (auto simp: BackendManager_def bindE_eq_Inr Let_def split: if_splits prod.splits)
  obtain below where u: "upper_layers ?q x = below @ [AccessControlLayer]" "AccessControlLayer \<notin> set below" "ExtenderLayer \<notin> set below"
    using ac by (fastforce simp: upper_layers_def)
  note n = bottom_is_no_upper_layer[OF l]
  from st show ?thesis
  proof
    assume "stack = l # upper_layers ?q x"
    then have "stack = (l # below) @ AccessControlLayer # []" using u by simp
    then show ?thesis using u n unfolding protected_stack_def by fastforce
  next
    assume "stack = (l # upper_layers ?q x) @ [ExtenderLayer]"
    then have "stack = (l # below) @ AccessControlLayer # [ExtenderLayer]" using u by simp
    then show ?thesis using u n unfolding protected_stack_def by fastforce
  qed
qed

text \<open>
  C5: Whatever a request asks for in its path (a single backend, a directory of extensions or neither), the stack of
  backends that the factory builds with an access control file has the access control around everything
  but the extensions; only another option for the same file could take it away.
\<close>

theorem factory_always_protects:
  assumes "backendManagerFactory D dispatcher truth isExtended user password dispatchConfigFile backendConfigDir extensionConfigDir
      (Some f) depotId postpath context' kwargs = Inr stack"
    and "f \<noteq> []" and "\<forall>kv \<in> set kwargs. lower (fst kv) \<noteq> ''aclfile''"
  shows "\<exists>below above. stack = below @ AccessControlLayer # above \<and>
    AccessControlLayer \<notin> set below \<and> ExtenderLayer \<notin> set below \<and> above \<in> {[], [ExtenderLayer]}"
proof -
  let ?login = "[(''username'', opt_text user), (''password'', opt_text password)]"
  let ?full = "\<lambda>ext. [(''dispatchConfigFile'', opt_text dispatchConfigFile), (''backendConfigDir'', opt_text backendConfigDir),
      (''extensionConfigDir'', KwText ext)] @ (''aclFile'', KwText f) # ([(''accessControlContext'', context'),
      (''depotBackend'', KwBool (depotId \<noteq> None \<and> depotId \<noteq> Some [])), (''hostControlBackend'', KwBool True),
      (''hostControlSafeBackend'', KwBool True)] @ ?login @ kwargs)"
  let ?single = "\<lambda>b. [(''backend'', KwText b), (''accessControlContext'', context'), (''backendConfigDir'', opt_text backendConfigDir)]
      @ (''aclFile'', KwText f) # (?login @ kwargs)"
  have names: "\<forall>k \<in> set [''accessControlContext'', ''depotBackend'', ''hostControlBackend'', ''hostControlSafeBackend'', ''username'', ''password''].
      lower k \<noteq> ''aclfile''" by code_simp
  have "has_acl_file f (manager_kwargs (?full ext))" for ext
    by (rule kwargs_keep_acl_file) (use names assms(3) in auto)
  then have full: "protected_stack stack" if "BackendManager D dispatcher truth isExtended (?full ext) = Inr stack" for ext
    using manager_is_protected[OF that _ assms(2)] by blast
  have "has_acl_file f (manager_kwargs (?single b))" for b
    by (rule kwargs_keep_acl_file) (use names assms(3) in auto)
  then have single: "protected_stack stack" if "BackendManager D dispatcher truth isExtended (?single b) = Inr stack" for b
    using manager_is_protected[OF that _ assms(2)] by blast
  have t: "opt_text (Some f) = KwText f" by (simp add: opt_text_def)
  have "(\<exists>ext. BackendManager D dispatcher truth isExtended (?full ext) = Inr stack) \<or>
      (\<exists>b. BackendManager D dispatcher truth isExtended (?single b) = Inr stack)"
    using assms(1)
    unfolding backendManagerFactory_def Let_def t append_Cons append_Nil by (auto split: list.splits if_splits)
  then show ?thesis using full single unfolding protected_stack_def by blast
qed

definition sample_request :: kwargs where
  "sample_request = [(''backend'', KwText ''File''), (''accessControlContext'', KwNone), (''backendConfigDir'', KwText ''/conf''),
     (''aclFile'', KwText ''/acl.conf''), (''username'', KwNone), (''password'', KwNone), (''hostControlBackend'', KwBool True)]"

lemma sample_request_stack:
  "BackendManager sample_dispatch_lib (\<lambda>kw. Inr False) kw_true (\<lambda>x. True) sample_request =
     Inr [LoadedBackend ''File'', HostControlLayer, AccessControlLayer]"
proof -
  have kw: "manager_kwargs sample_request = sample_request" by code_simp
  have opts: "manager_options_of kw_true sample_request =
      no_manager_options\<lparr>mo_load := ''File'', mo_configDir := KwText ''/conf'', mo_hostControl := True, mo_accessControl := True\<rparr>" by code_simp
  have "map_of sample_request ''backend'' \<noteq> None" by code_simp
  moreover have "config_name ''File''" by code_simp
  ultimately show ?thesis
    unfolding BackendManager_def kw opts Let_def
    by (simp add: bottom_layer_def load_single_backend_def sample_dispatch_lib_def upper_layers_def no_manager_options_def config_path_def)
qed

theorem factory_always_protects_witness:
  "\<exists>below above. [LoadedBackend ''File'', HostControlLayer, AccessControlLayer] = below @ AccessControlLayer # above \<and>
    AccessControlLayer \<notin> set below \<and> ExtenderLayer \<notin> set below \<and> above \<in> {[], [ExtenderLayer]}"
proof (rule factory_always_protects)
  show "backendManagerFactory sample_dispatch_lib (\<lambda>kw. Inr False) kw_true (\<lambda>x. True) None None None (Some ''/conf'') ''/extend.d''
      (Some ''/acl.conf'') None [''backend'', ''File''] KwNone [(''hostControlBackend'', KwBool True)] =
      Inr [LoadedBackend ''File'', HostControlLayer, AccessControlLayer]"
    using sample_request_stack by (simp add: backendManagerFactory_def opt_text_def sample_request_def)
  have "lower ''hostControlBackend'' \<noteq> ''aclfile''" by code_simp
  then show "\<forall>kv \<in> set [(''hostControlBackend'', KwBool True)]. lower (fst kv) \<noteq> ''aclfile''" by simp
qed simp

text \<open>A directory of extensions that is accepted lies in the directory of extensions.\<close>

lemma config_name_is_no_path:
  assumes "config_name s"
  shows "CHR ''/'' \<notin> set s" "CHR ''.'' \<notin> set s"
proof -
  have "c \<notin> set s" if "c \<in> {CHR ''/'', CHR ''.''}" for c
  proof
    assume c: "c \<in> set s"
    have "c \<noteq> newline" using that by (auto simp: newline_def)
    then have "c \<in> set (before_newline s)" using c
      by (cases s rule: rev_cases) (auto simp: before_newline_def)
    then show False using assms that by (auto simp: config_name_def Let_def)
  qed
  then show "CHR ''/'' \<notin> set s" "CHR ''.'' \<notin> set s" by simp_all
qed

text \<open>A newline may end the name, although the pattern means to allow letters, digits, hyphens and underscores only.\<close>

lemma config_name_with_newline: "config_name (''file'' @ [newline])"
  by code_simp

lemma no_rules_only_administrators:
  assumes "search ''.*'' m"
  shows "fst (grant_for lowers us (acl_table_of search admin []) m) =
    (if isMemberOfGroup lowers [admin] us then FullAccess else NotGranted)"
  using assms by (simp add: grant_for_def acl_table_of_def default_acl_def entry_grant_def Let_def)

text \<open>The option \<open>Backend\<close> in another case than the code's is found but not removed: \<open>KeyError\<close>.\<close>

lemma manager_option_case:
  "BackendManager D dispatcher truth isExtended [(''Backend'', KwText ''file'')] = Inl ManagerKeyError"
proof -
  have "manager_kwargs [(''Backend'', KwText ''file'')] = default_config @ [(''Backend'', KwText ''file'')]" by code_simp
  moreover have "filter (\<lambda>(k, v). lower k = ''backend'') (default_config @ [(''Backend'', KwText ''file'')]) = [(''Backend'', KwText ''file'')]"
    by code_simp
  moreover have "map_of (default_config @ [(''Backend'', KwText ''file'')]) ''backend'' = None" by code_simp
  ultimately show ?thesis by (simp add: BackendManager_def Let_def)
qed

end
