(* ===== verification/Dhcpd.thy ===== *)
theory Dhcpd
  imports ConfigFiles
begin

text \<open>
  \<open>DHCPDConfFile\<close> of OPSI/Util/File/__init__.py: the file of a DHCP server as a tree of blocks, its parser, writing it, and
  the search, addition, change and deletion of hosts. The source keeps the components of a block twice, in a list and by line; here a
  block has one list of its components in the order of their addition, each with a flag that says whether it is still in the
  source's list (it always is in the table of lines). \<open>forceHostname\<close> and its like, and the test for an address in a network, which
  the standard library does, are the fields of \<open>net_lib\<close>.
\<close>

section \<open>Components\<close>

datatype pval = PBool bool | PText string

datatype comp =
  Param int string pval
| Opt int string "string list"
| Remark int string
| Blank int
| Block int int string "string list" "(bool \<times> comp) list"

fun line_of :: "comp \<Rightarrow> int" where
  "line_of (Param l k v) = l"
| "line_of (Opt l k vs) = l"
| "line_of (Remark l d) = l"
| "line_of (Blank l) = l"
| "line_of (Block s e t st cs) = s"

text \<open>\<open>DHCPDConf_Parameter.__init__\<close>: some words are truth values.\<close>

fun truth_word :: "pval \<Rightarrow> pval" where
  "truth_word (PText s) =
     (if lower s \<in> {''yes'', ''true'', ''on''} then PBool True
      else if lower s \<in> {''no'', ''false'', ''off''} then PBool False else PText s)"
| "truth_word (PBool b) = PBool b"

definition Parameter :: "int \<Rightarrow> string \<Rightarrow> pval \<Rightarrow> comp" where
  "Parameter l k v = Param l k (truth_word v)"

section \<open>Writing\<close>

text \<open>\<open>\w\<close> of Latin-1, the patterns \<open>.*['/\\].*\<close> and \<open>^\w+\.\w+$\<close> at the start of a text.\<close>

definition is_word_char :: "char \<Rightarrow> bool" where
  "is_word_char c = (let n = of_char c :: nat
     in 48 \<le> n \<and> n \<le> 57 \<or> 65 \<le> n \<and> n \<le> 90 \<or> n = 95 \<or> 97 \<le> n \<and> n \<le> 122 \<or> n \<in> {170, 178, 179, 181, 185, 186, 188, 189, 190} \<or>
        192 \<le> n \<and> n \<noteq> 215 \<and> n \<noteq> 247)"

definition has_quote_or_slash :: "string \<Rightarrow> bool" where
  "has_quote_or_slash s \<longleftrightarrow> (\<exists>c \<in> set (takeWhile (\<lambda>c. c \<noteq> newline) s). c \<in> {CHR 0x27, CHR ''/'', CHR 0x5C})"

definition two_words :: "string \<Rightarrow> bool" where
  "two_words s \<longleftrightarrow>
     (let a = takeWhile is_word_char s; r = dropWhile is_word_char s; b = before_newline (drop 1 r)
      in a \<noteq> [] \<and> r \<noteq> [] \<and> hd r = CHR ''.'' \<and> b \<noteq> [] \<and> (\<forall>c \<in> set b. is_word_char c))"

definition double_quoted :: "string \<Rightarrow> string" where
  "double_quoted s = CHR 0x22 # s @ [CHR 0x22]"

definition param_text :: "string \<Rightarrow> pval \<Rightarrow> string" where
  "param_text k v = k @ '' '' @
     (case v of
        PBool b \<Rightarrow> if b then ''on'' else ''off''
      | PText s \<Rightarrow> if k \<in> {''filename'', ''ddns-domainname''} \<or> has_quote_or_slash s \<or> two_words s \<or> endswith k ''-name''
                   then double_quoted s else s) @ '';''"

definition quoted_options :: "string list" where
  "quoted_options = [''-name'', ''-domain'', ''-identifier'', ''-search'', ''merit-dump'', ''nds-context'', ''netbios-scope'', ''nwip-domain'',
     ''nwip-suboptions'', ''nis-domain'', ''nisplus-domain'', ''root-path'', ''uap-servers'', ''user-class'', ''vendor-encapsulated-options'',
     ''circuit-id'', ''remote-id'', ''fqdn.fqdn'', ''ddns-rev-domainname'']"

definition comma_joined :: "string list \<Rightarrow> string" where
  "comma_joined ts = (case ts of [] \<Rightarrow> [] | t # us \<Rightarrow> t @ concat (map (\<lambda>u. '', '' @ u) us))"

definition dhcp_option_text :: "string \<Rightarrow> string list \<Rightarrow> string" where
  "dhcp_option_text k vs = ''option '' @ k @ '' '' @
     comma_joined (map (\<lambda>v. if has_quote_or_slash v \<or> two_words v \<or> list_ex (endswith k) quoted_options then double_quoted v else v) vs) @ '';''"

definition tabs :: "nat \<Rightarrow> string" where
  "tabs n = replicate n (CHR 0x09)"

definition lstrip :: "string \<Rightarrow> string" where
  "lstrip s = dropWhile is_space s"

text \<open>The components of one line; a comment behind another component is set off by one blank.\<close>

fun is_remark :: "comp \<Rightarrow> bool" where
  "is_remark (Remark l d) = True"
| "is_remark _ = False"

definition line_text :: "(comp \<times> string) list \<Rightarrow> string" where
  "line_text rs =
     (case rs of
        [] \<Rightarrow> []
      | (c, t) # qs \<Rightarrow> t @ concat (map (\<lambda>(c, t). if is_remark c then '' '' @ lstrip t else t) qs) @ [newline])"

text \<open>
  The text of a component and the component as writing leaves it: what was written by its line is taken from the
  list of components, which is the list of what is left to write.
\<close>

fun as_text :: "bool \<Rightarrow> nat \<Rightarrow> comp \<Rightarrow> string \<times> comp" where
  "as_text outer n (Param l k v) = (tabs n @ param_text k v, Param l k v)"
| "as_text outer n (Opt l k vs) = (tabs n @ dhcp_option_text k vs, Opt l k vs)"
| "as_text outer n (Remark l d) = (tabs n @ ''#'' @ d, Remark l d)"
| "as_text outer n (Blank l) = (tabs n, Blank l)"
| "as_text outer n (Block s e t st cs) =
     (let rs = map (\<lambda>(b, c). (b, c, as_text False (if outer then 0 else Suc n) c)) cs;
          by_line = (\<lambda>c. max s 1 \<le> line_of c \<and> line_of c \<le> e);
          lines = concat (map (\<lambda>l. line_text (map (\<lambda>(b, c, t, c'). (c, t)) (filter (\<lambda>(b, c, t, c'). line_of c = l) rs))) [max s 1..e]);
          rest = concat (map (\<lambda>(b, c, t, c'). if b \<and> \<not> by_line c then t @ [newline] else []) rs);
          cs' = map (\<lambda>(b, c, t, c'). if by_line c then (False, c') else if b then (True, c') else (False, c)) rs
      in ((if outer then [] else tabs n @ join_char (CHR '' '') st @ '' {'' @ [newline]) @ lines @ rest @ (if outer then [] else tabs n @ ''}''),
          Block s e t st cs'))"

section \<open>Reading\<close>

datatype dhcpd_error = DhcpdIndexError | DhcpdAttributeError | DhcpdBadValueError | DhcpdValueError

record frame =
  fr_start :: int
  fr_end :: int
  fr_type :: string
  fr_settings :: "string list"
  fr_comps :: "(bool \<times> comp) list"

record parser =
  ps_data :: string
  ps_lines :: "string list"
  ps_line :: int
  ps_stack :: "frame list"
  ps_root :: "frame option"
  ps_min :: nat

definition frame_block :: "frame \<Rightarrow> comp" where
  "frame_block f = Block (fr_start f) (fr_end f) (fr_type f) (fr_settings f) (fr_comps f)"

definition frame_add :: "comp \<Rightarrow> frame \<Rightarrow> frame" where
  "frame_add c f = f\<lparr>fr_comps := fr_comps f @ [(True, c)]\<rparr>"

text \<open>Outside of every block, even the global one, the current block is None.\<close>

definition addComponent :: "comp \<Rightarrow> parser \<Rightarrow> (dhcpd_error, parser) result" where
  "addComponent c ps = (case ps_stack ps of [] \<Rightarrow> Inl DhcpdAttributeError | f # fs \<Rightarrow> Inr (ps\<lparr>ps_stack := frame_add c f # fs\<rparr>))"

fun split_space :: "string \<Rightarrow> string \<Rightarrow> string list" where
  "split_space w [] = (if w = [] then [] else [w])"
| "split_space w (c # s) =
     (if is_space c then (if w = [] then split_space [] s else w # split_space [] s) else split_space (w @ [c]) s)"

text \<open>The index of the first occurrence of a token that may be used; one in quotes hides all others of its kind.\<close>

definition token_index :: "nat \<Rightarrow> string \<Rightarrow> char \<Rightarrow> nat option" where
  "token_index minIndex d c =
     (let i = length (takeWhile (\<lambda>x. x \<noteq> c) d); q = count_list (take i d)
      in if i = length d \<or> i < minIndex \<or> odd (q (CHR 0x22)) \<or> odd (q (CHR 0x27)) then None else Some i)"

fun first_token :: "nat \<Rightarrow> string \<Rightarrow> string \<Rightarrow> (char \<times> nat) option" where
  "first_token minIndex d [] = None"
| "first_token minIndex d (c # cs) =
     (case token_index minIndex d c of Some i \<Rightarrow> Some (c, i) | None \<Rightarrow> first_token minIndex d cs)"

definition spaced :: "string list \<Rightarrow> string" where
  "spaced ws = strip (join_char (CHR '' '') ws)"

definition unquoted :: "string \<Rightarrow> string" where
  "unquoted v = (if 1 < length v \<and> hd v = CHR 0x22 \<and> last v = CHR 0x22 then butlast (tl v) else v)"

text \<open>The values of an option, separated by commas outside of quotes.\<close>

fun option_values :: "char option \<Rightarrow> string \<Rightarrow> string list \<Rightarrow> string \<Rightarrow> string list" where
  "option_values q cur vs [] = (if cur = [] then vs else vs @ [strip cur])"
| "option_values q cur vs (c # cs) =
     (if c = CHR 0x22 \<or> c = CHR 0x27 then
        (if q = Some c then option_values None cur vs cs
         else if q = None then option_values (Some c) cur vs cs
         else option_values q (cur @ [c]) vs cs)
      else if c = CHR '','' \<and> q = None then option_values q [] (vs @ [strip cur]) cs
      else option_values q (cur @ [c]) vs cs)"

definition parse_comment :: "nat \<Rightarrow> parser \<Rightarrow> (dhcpd_error, parser) result" where
  "parse_comment i ps =
     bindE (addComponent (Remark (ps_line ps) (drop 1 (strip (ps_data ps)))) ps) (\<lambda>ps'. Inr (ps'\<lparr>ps_data := take i (ps_data ps)\<rparr>))"

definition parse_semicolon :: "nat \<Rightarrow> parser \<Rightarrow> (dhcpd_error, parser) result" where
  "parse_semicolon i ps =
     (let ws = split_space [] (take i (ps_data ps)); ps' = ps\<lparr>ps_data := drop (Suc i) (ps_data ps)\<rparr>
      in case ws of
           [] \<Rightarrow> Inl DhcpdIndexError
         | k # vs \<Rightarrow>
             (if k \<noteq> ''option'' then addComponent (Parameter (ps_line ps) k (PText (unquoted (spaced vs)))) ps'
              else case vs of
                     [] \<Rightarrow> Inl DhcpdIndexError
                   | o' # us \<Rightarrow> addComponent (Opt (ps_line ps) o' (option_values None [] [] (spaced us))) ps'))"

definition parse_lbracket :: "nat \<Rightarrow> parser \<Rightarrow> (dhcpd_error, parser) result" where
  "parse_lbracket i ps =
     (case split_space [] (take i (ps_data ps)) of
        [] \<Rightarrow> Inl DhcpdIndexError
      | t # st \<Rightarrow>
          (if ps_stack ps = [] then Inl DhcpdAttributeError
           else Inr (ps\<lparr>ps_data := drop (Suc i) (ps_data ps),
                        ps_stack := \<lparr>fr_start = ps_line ps, fr_end = ps_line ps, fr_type = t, fr_settings = t # st, fr_comps = []\<rparr> # ps_stack ps\<rparr>)))"

definition parse_rbracket :: "nat \<Rightarrow> parser \<Rightarrow> (dhcpd_error, parser) result" where
  "parse_rbracket i ps =
     (let ps' = ps\<lparr>ps_data := drop (Suc i) (ps_data ps)\<rparr>
      in case ps_stack ps of
           [] \<Rightarrow> Inl DhcpdAttributeError
         | [g] \<Rightarrow> Inr (ps'\<lparr>ps_stack := [], ps_root := Some (g\<lparr>fr_end := ps_line ps\<rparr>)\<rparr>)
         | f # p # fs \<Rightarrow> Inr (ps'\<lparr>ps_stack := frame_add (frame_block (f\<lparr>fr_end := ps_line ps\<rparr>)) p # fs\<rparr>))"

text \<open>One round of the loop: None when it ends.\<close>

definition getNewData :: "parser \<Rightarrow> parser option" where
  "getNewData ps =
     (case ps_lines ps of
        [] \<Rightarrow> None
      | l # ls \<Rightarrow> Some (ps\<lparr>ps_data := ps_data ps @ l, ps_lines := ls, ps_line := ps_line ps + 1\<rparr>))"

definition parse_round :: "parser \<Rightarrow> (dhcpd_error, parser option) result" where
  "parse_round ps =
     (if strip (ps_data ps) = [] then
        (case getNewData ps of
           None \<Rightarrow> Inr None
         | Some ps' \<Rightarrow>
             (if strip (ps_data ps') = []
              then bindE (addComponent (Blank (ps_line ps')) ps') (\<lambda>ps2. Inr (Some (ps2\<lparr>ps_data := butlast (ps_data ps2)\<rparr>)))
              else Inr (Some ps')))
      else case first_token (ps_min ps) (ps_data ps) ''#;}{'' of
             None \<Rightarrow> Inr (getNewData (ps\<lparr>ps_min := length (ps_data ps)\<rparr>))
           | Some (c, i) \<Rightarrow>
               (let ps' = ps\<lparr>ps_min := 0\<rparr>
                in bindE (if c = CHR ''#'' then parse_comment i ps' else if c = CHR '';'' then parse_semicolon i ps'
                          else if c = CHR ''}'' then parse_rbracket i ps' else parse_lbracket i ps') (\<lambda>ps2. Inr (Some ps2))))"

lemma addComponent_input:
  "addComponent c ps = Inr ps' \<Longrightarrow> ps_data ps' = ps_data ps \<and> ps_lines ps' = ps_lines ps"
  by (auto simp: addComponent_def split: list.splits)

lemma first_token_index: "first_token m d cs = Some (c, i) \<Longrightarrow> i < length d"
  by (induction cs) (auto simp: token_index_def Let_def length_takeWhile_le order.strict_iff_order split: option.splits if_splits)

lemma act_shortens:
  assumes "i < length (ps_data ps)"
  shows "parse_comment i ps = Inr p2 \<Longrightarrow> ps_lines p2 = ps_lines ps \<and> length (ps_data p2) < length (ps_data ps)"
    and "parse_semicolon i ps = Inr p2 \<Longrightarrow> ps_lines p2 = ps_lines ps \<and> length (ps_data p2) < length (ps_data ps)"
    and "parse_rbracket i ps = Inr p2 \<Longrightarrow> ps_lines p2 = ps_lines ps \<and> length (ps_data p2) < length (ps_data ps)"
    and "parse_lbracket i ps = Inr p2 \<Longrightarrow> ps_lines p2 = ps_lines ps \<and> length (ps_data p2) < length (ps_data ps)"
  using assms
  by (auto simp: parse_comment_def parse_semicolon_def parse_rbracket_def parse_lbracket_def bindE_eq_Inr Let_def
      dest!: addComponent_input split: list.splits if_splits)

lemma getNewData_lines: "getNewData ps = Some ps' \<Longrightarrow> length (ps_lines ps') < length (ps_lines ps)"
  by (auto simp: getNewData_def split: list.splits)

lemma parse_round_input:
  assumes "parse_round ps = Inr (Some ps')"
  shows "length (ps_lines ps') < length (ps_lines ps) \<or>
    ps_lines ps' = ps_lines ps \<and> length (ps_data ps') < length (ps_data ps)"
proof (cases "strip (ps_data ps) = []")
  case True
  then show ?thesis using assms getNewData_lines[of ps]
    by (fastforce simp: parse_round_def bindE_eq_Inr dest!: addComponent_input split: option.splits if_splits)
next
  case False
  show ?thesis
  proof (cases "first_token (ps_min ps) (ps_data ps) ''#;}{''")
    case None
    then show ?thesis using False assms getNewData_lines[of "ps\<lparr>ps_min := length (ps_data ps)\<rparr>"] by (simp add: parse_round_def)
  next
    case (Some ci)
    obtain c i where ci: "ci = (c, i)" by (cases ci)
    have i: "i < length (ps_data (ps\<lparr>ps_min := 0\<rparr>))" using first_token_index[OF Some[unfolded ci]] by simp
    from False Some ci assms have "parse_comment i (ps\<lparr>ps_min := 0\<rparr>) = Inr ps' \<or> parse_semicolon i (ps\<lparr>ps_min := 0\<rparr>) = Inr ps' \<or>
        parse_rbracket i (ps\<lparr>ps_min := 0\<rparr>) = Inr ps' \<or> parse_lbracket i (ps\<lparr>ps_min := 0\<rparr>) = Inr ps'"
      by (auto simp: parse_round_def bindE_eq_Inr Let_def split: if_splits)
    then show ?thesis using act_shortens[OF i] by auto
  qed
qed

text \<open>The loop ends: every round reads a line or uses up some of the data.\<close>

function parse_loop :: "parser \<Rightarrow> (dhcpd_error, parser) result" where
  "parse_loop ps =
     (case parse_round ps of
        Inl e \<Rightarrow> Inl e
      | Inr None \<Rightarrow> Inr ps
      | Inr (Some ps') \<Rightarrow> parse_loop ps')"
  by pat_completeness auto
termination
  by (relation "inv_image (less_than <*lex*> less_than) (\<lambda>ps. (length (ps_lines ps), length (ps_data ps)))")
     (auto dest!: parse_round_input)

declare parse_loop.simps [simp del]

text \<open>What is open at the end of the file stays as it is, with the line of its start as its end.\<close>

fun close_frames :: "frame list \<Rightarrow> comp option" where
  "close_frames [] = None"
| "close_frames [g] = Some (frame_block g)"
| "close_frames (f # p # fs) = close_frames (frame_add (frame_block f) p # fs)"

function lines_with_ends :: "string \<Rightarrow> string list" where
  "lines_with_ends s =
     (if s = [] then []
      else let l = takeWhile (\<lambda>c. \<not> is_break c) s
           in case dropWhile (\<lambda>c. \<not> is_break c) s of
                [] \<Rightarrow> [l]
              | b # r \<Rightarrow>
                  (if b = CHR 0x0D \<and> r \<noteq> [] \<and> hd r = CHR 0x0A then (l @ [b, hd r]) # lines_with_ends (tl r)
                   else (l @ [b]) # lines_with_ends r))"
  by pat_completeness auto
termination
proof (relation "measure length", goal_cases)
  case (2 s l b r)
  have "length (b # r) \<le> length s" using length_dropWhile_le[of "\<lambda>c. \<not> is_break c" s] 2(3) by simp
  then show ?case by (cases r) auto
next
  case (3 s l b r)
  have "length (b # r) \<le> length s" using length_dropWhile_le[of "\<lambda>c. \<not> is_break c" s] 3(3) by simp
  then show ?case by simp
qed simp

declare lines_with_ends.simps [simp del]

definition DHCPDConfFile_parse :: "string list \<Rightarrow> string \<Rightarrow> (dhcpd_error, comp) result" where
  "DHCPDConfFile_parse lines text =
     (let ls = (if lines \<noteq> [] then lines else lines_with_ends text);
          g = \<lparr>fr_start = 1, fr_end = int (length ls), fr_type = ''global'', fr_settings = [], fr_comps = []\<rparr>
      in bindE (parse_loop \<lparr>ps_data = [], ps_lines = ls, ps_line = 0, ps_stack = [g], ps_root = None, ps_min = 0\<rparr>)
           (\<lambda>ps. case ps_root ps of
                   Some f \<Rightarrow> Inr (frame_block f)
                 | None \<Rightarrow> (case close_frames (ps_stack ps) of Some b \<Rightarrow> Inr b | None \<Rightarrow> Inl DhcpdAttributeError)))"

text \<open>\<open>generate\<close> writes the text and leaves the tree without what it wrote.\<close>

definition DHCPDConfFile_generate :: "comp \<Rightarrow> string \<times> comp" where
  "DHCPDConfFile_generate g = as_text True 0 g"

section \<open>Searching the tree\<close>

text \<open>The blocks of a type in a block, with the indices that lead to them.\<close>

fun block_type :: "comp \<Rightarrow> string option" where
  "block_type (Block s e t st cs) = Some t"
| "block_type _ = None"

fun children :: "comp \<Rightarrow> (bool \<times> comp) list" where
  "children (Block s e t st cs) = cs"
| "children _ = []"

fun settings :: "comp \<Rightarrow> string list" where
  "settings (Block s e t st cs) = st"
| "settings _ = []"

fun getBlocks :: "string \<Rightarrow> bool \<Rightarrow> comp \<Rightarrow> (nat list \<times> comp) list"
  and blocks_from :: "string \<Rightarrow> bool \<Rightarrow> nat \<Rightarrow> (bool \<times> comp) list \<Rightarrow> (nat list \<times> comp) list" where
  "getBlocks ty recursive (Block s e t st cs) = blocks_from ty recursive 0 cs"
| "getBlocks ty recursive c = []"
| "blocks_from ty recursive i [] = []"
| "blocks_from ty recursive i ((b, c) # cs) =
     (if b \<and> block_type c \<noteq> None
      then (if block_type c = Some ty then [([i], c)] else []) @
           (if recursive then map (\<lambda>(p, x). (i # p, x)) (getBlocks ty recursive c) else [])
      else []) @ blocks_from ty recursive (Suc i) cs"

type_synonym params = "(string \<times> pval) list"

fun add_parameter :: "bool \<times> comp \<Rightarrow> params \<Rightarrow> params" where
  "add_parameter (True, Param l k v) h = AList.update k v h"
| "add_parameter _ h = h"

definition own_parameters :: "comp \<Rightarrow> params" where
  "own_parameters c = foldl (\<lambda>h bc. add_parameter bc h) [] (children c)"

fun add_option :: "bool \<times> comp \<Rightarrow> (string \<times> string list) list \<Rightarrow> (string \<times> string list) list" where
  "add_option (True, Opt l k vs) h = AList.update k vs h"
| "add_option _ h = h"

definition own_option_values :: "comp \<Rightarrow> (string \<times> string list) list" where
  "own_option_values c = foldl (\<lambda>h bc. add_option bc h) [] (children c)"

text \<open>The parameters of the block at a path with those of its parents, up to the type \<open>inherit\<close>; the same for options.\<close>

fun inherited :: "(comp \<Rightarrow> (string \<times> 'v) list) \<Rightarrow> string \<Rightarrow> (string \<times> 'v) list \<Rightarrow> comp \<Rightarrow> nat list \<Rightarrow> (string \<times> 'v) list" where
  "inherited own ty upper c p =
     (let h = (if block_type c = Some ty then own c else own c @ filter (\<lambda>(k, v). k \<notin> fst ` set (own c)) upper)
      in case p of
           [] \<Rightarrow> h
         | i # q \<Rightarrow> (if i < length (children c) then inherited own ty h (snd (children c ! i)) q else []))"

definition getParameters_hash :: "string \<Rightarrow> comp \<Rightarrow> nat list \<Rightarrow> params" where
  "getParameters_hash ty g p = inherited own_parameters ty [] g p"

definition getOptions_hash :: "string \<Rightarrow> comp \<Rightarrow> nat list \<Rightarrow> (string \<times> string list) list" where
  "getOptions_hash ty g p = inherited own_option_values ty [] g p"

section \<open>Hosts\<close>

record net_lib =
  nl_hostname :: "string \<Rightarrow> string option"
  nl_hardware :: "string \<Rightarrow> string option"
  nl_address :: "string \<Rightarrow> string option"
  nl_in_network :: "string \<Rightarrow> string \<Rightarrow> bool option"

definition setting :: "nat \<Rightarrow> comp \<Rightarrow> (dhcpd_error, string) result" where
  "setting n c = (if n < length (settings c) then Inr (settings c ! n) else Inl DhcpdIndexError)"

definition pval_lower :: "pval \<Rightarrow> (dhcpd_error, string) result" where
  "pval_lower v = (case v of PBool _ \<Rightarrow> Inl DhcpdAttributeError | PText s \<Rightarrow> Inr (lower s))"

fun find_host :: "string \<Rightarrow> comp list \<Rightarrow> (dhcpd_error, params option) result" where
  "find_host h [] = Inr None"
| "find_host h (b # bs) = bindE (setting 1 b) (\<lambda>n. if n = h then Inr (Some (own_parameters b)) else find_host h bs)"

definition host_blocks :: "comp \<Rightarrow> comp list" where
  "host_blocks g = map snd (getBlocks ''host'' True g)"

definition getHost :: "net_lib \<Rightarrow> string \<Rightarrow> comp \<Rightarrow> (dhcpd_error, params option) result" where
  "getHost L hostname g = (case nl_hostname L hostname of None \<Rightarrow> Inl DhcpdValueError | Some h \<Rightarrow> find_host h (host_blocks g))"

text \<open>Deleting: the hosts of the name, and those that have it as their fixed address.\<close>

definition is_host :: "string \<Rightarrow> comp \<Rightarrow> bool" where
  "is_host h b \<longleftrightarrow> (1 < length (settings b) \<and> settings b ! 1 = h) \<or> map_of (own_parameters b) ''fixed-address'' = Some (PText h)"

fun remove_hosts :: "(comp \<Rightarrow> bool) \<Rightarrow> comp \<Rightarrow> comp"
  and remove_from :: "(comp \<Rightarrow> bool) \<Rightarrow> (bool \<times> comp) list \<Rightarrow> (bool \<times> comp) list" where
  "remove_hosts P (Block s e t st cs) = Block s e t st (remove_from P cs)"
| "remove_hosts P c = c"
| "remove_from P [] = []"
| "remove_from P ((b, c) # cs) =
     (if b \<and> block_type c = Some ''host'' \<and> P c then remove_from P cs
      else (b, if b then remove_hosts P c else c) # remove_from P cs)"

definition deleteHost :: "net_lib \<Rightarrow> string \<Rightarrow> comp \<Rightarrow> (dhcpd_error, comp) result" where
  "deleteHost L hostname g =
     (case nl_hostname L hostname of
        None \<Rightarrow> Inl DhcpdValueError
      | Some h \<Rightarrow>
          (if \<exists>b \<in> set (host_blocks g). length (settings b) < 2 then Inl DhcpdIndexError
           else Inr (remove_hosts (is_host h) g)))"

text \<open>Adding: another host must not have the address; the loop ends at the first error.\<close>

fun check_parameter :: "string \<Rightarrow> string \<Rightarrow> string \<times> pval \<Rightarrow> (dhcpd_error, unit) result" where
  "check_parameter fixed hw (k, v) =
     (if k = ''fixed-address'' then bindE (pval_lower v) (\<lambda>s. if s = fixed then Inl DhcpdBadValueError else Inr ())
      else if k = ''hardware'' then bindE (pval_lower v) (\<lambda>s. if s = ''ethernet '' @ hw then Inl DhcpdBadValueError else Inr ())
      else Inr ())"

definition check_host :: "string \<Rightarrow> string \<Rightarrow> string \<Rightarrow> comp \<Rightarrow> bool \<Rightarrow> (dhcpd_error, bool) result" where
  "check_host h fixed hw b existing =
     bindE (setting 1 b)
       (\<lambda>n. if lower n = h then Inr True
            else bindE (foldE (\<lambda>kv _. check_parameter fixed hw kv) (own_parameters b) ()) (\<lambda>_. Inr existing))"

definition choose_subnet :: "net_lib \<Rightarrow> string \<Rightarrow> nat list \<times> comp \<Rightarrow> nat list \<Rightarrow> (dhcpd_error, nat list) result" where
  "choose_subnet L ip pb best =
     bindE (setting 1 (snd pb)) (\<lambda>a. bindE (setting 3 (snd pb))
       (\<lambda>m. case nl_in_network L ip (a @ ''/'' @ m) of
              None \<Rightarrow> Inl DhcpdValueError
            | Some inside \<Rightarrow> Inr (if inside then fst pb else best)))"

definition match_count :: "params \<Rightarrow> params \<Rightarrow> int" where
  "match_count ps h =
     sum_list (map (\<lambda>(k, v). case map_of ps k of None \<Rightarrow> 0 | Some w \<Rightarrow> if w = v then 1 else - 1) h)"

text \<open>The best count is assigned the wrong way round, so it stays zero.\<close>

definition choose_group :: "comp \<Rightarrow> nat list \<Rightarrow> params \<Rightarrow> nat list \<times> comp \<Rightarrow> nat list option \<Rightarrow> nat list option" where
  "choose_group g parent ps pb best =
     (let m = match_count ps (getParameters_hash ''global'' g (parent @ fst pb))
      in if m > 0 \<or> m \<ge> 0 \<and> best = None then Some (parent @ fst pb) else best)"

fun comp_at :: "comp \<Rightarrow> nat list \<Rightarrow> comp option" where
  "comp_at c [] = Some c"
| "comp_at c (i # p) = (if i < length (children c) then comp_at (snd (children c ! i)) p else None)"

fun update_at :: "(comp \<Rightarrow> comp) \<Rightarrow> nat list \<Rightarrow> comp \<Rightarrow> comp" where
  "update_at f [] c = f c"
| "update_at f (i # p) (Block s e t st cs) =
     Block s e t st (if i < length cs then cs[i := (fst (cs ! i), update_at f p (snd (cs ! i)))] else cs)"
| "update_at f (i # p) c = c"

fun add_child :: "comp \<Rightarrow> comp \<Rightarrow> comp" where
  "add_child n (Block s e t st cs) = Block s e t st (cs @ [(True, n)])"
| "add_child n c = c"

definition normalised :: "params \<Rightarrow> params" where
  "normalised ps = map (\<lambda>(k, v). (k, truth_word v)) ps"

definition not_inherited :: "params \<Rightarrow> params \<Rightarrow> params" where
  "not_inherited h ps = filter (\<lambda>(k, v). map_of h k \<noteq> Some v) ps"

definition new_host :: "string \<Rightarrow> string \<Rightarrow> string \<Rightarrow> params \<Rightarrow> comp" where
  "new_host h fixed hw ps =
     Block (- 1) (- 1) ''host'' [''host'', h]
       (map (\<lambda>(k, v). (True, Parameter (- 1) k v))
          ([(''fixed-address'', PText fixed), (''hardware'', PText (''ethernet '' @ hw))] @ ps))"

definition place_for :: "net_lib \<Rightarrow> string \<Rightarrow> params \<Rightarrow> comp \<Rightarrow> (dhcpd_error, nat list) result" where
  "place_for L ip ps g =
     bindE (foldE (choose_subnet L ip) (getBlocks ''subnet'' True g) [])
       (\<lambda>parent.
          let groups = (case comp_at g parent of Some b \<Rightarrow> getBlocks ''group'' False b | None \<Rightarrow> [])
          in Inr (case foldl (\<lambda>best pb. choose_group g parent ps pb best) None groups of Some p \<Rightarrow> p | None \<Rightarrow> parent))"

definition addHost ::
  "net_lib \<Rightarrow> string \<Rightarrow> string \<Rightarrow> string \<Rightarrow> string \<Rightarrow> params \<Rightarrow> comp \<Rightarrow> (dhcpd_error, comp) result" where
  "addHost L hostname hardwareAddress ipAddress fixedAddress parameters g =
     (case nl_hostname L hostname of
        None \<Rightarrow> Inl DhcpdValueError
      | Some h \<Rightarrow>
          (case nl_hardware L hardwareAddress of
             None \<Rightarrow> Inl DhcpdValueError
           | Some hw \<Rightarrow>
               (case nl_address L ipAddress of
                  None \<Rightarrow> Inl DhcpdValueError
                | Some ip \<Rightarrow>
                    (let fixed = lower fixedAddress; ps = normalised parameters
                     in bindE (foldE (check_host h fixed hw) (host_blocks g) False)
                          (\<lambda>existing. bindE (if existing then deleteHost L h g else Inr g)
                            (\<lambda>g'. bindE (place_for L ip ps g')
                              (\<lambda>p. Inr (update_at (add_child (new_host h fixed hw (not_inherited (getParameters_hash ''global'' g' p) ps)))
                                      p g'))))))))"

text \<open>Changing a host: its listed components are replaced.\<close>

fun set_parameters :: "params \<Rightarrow> comp \<Rightarrow> comp" where
  "set_parameters ps (Block s e t st cs) =
     Block s e t st (filter (\<lambda>(b, c). \<not> b) cs @ map (\<lambda>(k, v). (True, Parameter (- 1) k v)) ps)"
| "set_parameters ps c = c"

fun conflicting :: "string \<Rightarrow> pval option \<Rightarrow> string \<times> pval \<Rightarrow> bool \<Rightarrow> (dhcpd_error, bool) result" where
  "conflicting h hw (k, v) found =
     (if k = ''fixed-address'' \<and> v = PText h then Inr True
      else if k = ''hardware'' then
        bindE (pval_lower v) (\<lambda>s. if Some (PText s) = hw then Inl DhcpdBadValueError else Inr found)
      else Inr found)"

definition find_changed :: "string \<Rightarrow> pval option \<Rightarrow> nat list \<times> comp \<Rightarrow> nat list list \<Rightarrow> (dhcpd_error, nat list list) result" where
  "find_changed h hw pb found =
     bindE (setting 1 (snd pb))
       (\<lambda>n. if n = h then Inr (found @ [fst pb])
            else bindE (foldE (conflicting h hw) (own_parameters (snd pb)) False)
              (\<lambda>f. Inr (if f then found @ [fst pb] else found)))"

definition modifyHost :: "net_lib \<Rightarrow> string \<Rightarrow> params \<Rightarrow> comp \<Rightarrow> (dhcpd_error, comp) result" where
  "modifyHost L hostname parameters g =
     (case nl_hostname L hostname of
        None \<Rightarrow> Inl DhcpdValueError
      | Some h \<Rightarrow>
          bindE (foldE (find_changed h (map_of parameters ''hardware'')) (getBlocks ''host'' True g) [])
            (\<lambda>found. case found of
               [p] \<Rightarrow> Inr (update_at (set_parameters (not_inherited (getParameters_hash ''global'' g (butlast p)) (normalised parameters))) p g)
             | _ \<Rightarrow> Inl DhcpdBadValueError))"

end
