(* ===== verification/DhcpdHosts.thy ===== *)
theory DhcpdHosts
  imports Dhcpd "HOL-Library.Sublist"
begin

text \<open>
  What adding and deleting hosts does to the file of the DHCP server: an added host is found and gets every parameter asked for, its own
  or its parents'; no two hosts come to share an address; a deleted host is gone and the others stay. At the end, texts
  that the parser does not read as they are meant.
\<close>

section \<open>Hosts by their settings and parameters\<close>

definition host_view :: "comp \<Rightarrow> string list \<times> params" where
  "host_view c = (settings c, own_parameters c)"

definition host_views :: "comp \<Rightarrow> (string list \<times> params) list" where
  "host_views g = map host_view (host_blocks g)"

definition hosts_in :: "bool \<times> comp \<Rightarrow> comp list" where
  "hosts_in bc = (if fst bc \<and> block_type (snd bc) \<noteq> None
     then (if block_type (snd bc) = Some ''host'' then [snd bc] else []) @ host_blocks (snd bc) else [])"

lemma blocks_from_hosts: "map snd (blocks_from ''host'' True i cs) = concat (map hosts_in cs)"
  by (induction cs arbitrary: i) (auto simp: hosts_in_def host_blocks_def comp_def case_prod_unfold)

lemma host_blocks_children: "host_blocks c = concat (map hosts_in (children c))"
  by (cases c) (simp_all add: host_blocks_def[of "Block _ _ _ _ _"] blocks_from_hosts, simp_all add: host_blocks_def)

text \<open>Paths on which every block is listed.\<close>

fun listed_path :: "comp \<Rightarrow> nat list \<Rightarrow> bool" where
  "listed_path c [] = (block_type c \<noteq> None)"
| "listed_path c (i # p) = (i < length (children c) \<and> fst (children c ! i) \<and> listed_path (snd (children c ! i)) p)"

lemma found_blocks_are_listed:
  "(p, b) \<in> set (getBlocks ty r c) \<Longrightarrow> listed_path c p \<and> comp_at c p = Some b \<and> block_type b = Some ty"
  "(p, b) \<in> set (blocks_from ty r i cs) \<Longrightarrow> \<exists>j q. p = (i + j) # q \<and> j < length cs \<and> fst (cs ! j) \<and>
     listed_path (snd (cs ! j)) q \<and> comp_at (snd (cs ! j)) q = Some b \<and> block_type b = Some ty"
proof (induction ty r c and ty r i cs arbitrary: p b and p b rule: getBlocks_blocks_from.induct)
  case (1 ty r s e t st cs)
  then show ?case by fastforce
next
  case (4 ty r i f c cs)
  consider (here) "f" "block_type c = Some ty" "p = [i]" "b = c" | (below) q where "f" "p = i # q" "(q, b) \<in> set (getBlocks ty r c)" "r" "block_type c \<noteq> None"
    | (rest) "(p, b) \<in> set (blocks_from ty r (Suc i) cs)"
    using 4(3) by (auto split: if_splits)
  then show ?case
  proof cases
    case here
    then show ?thesis by (intro exI[of _ 0]) auto
  next
    case below
    then show ?thesis using 4(1)[of q b] by (intro exI[of _ 0]) auto
  next
    case rest
    obtain j q where "p = (Suc i + j) # q \<and> j < length cs \<and> fst (cs ! j) \<and> listed_path (snd (cs ! j)) q \<and>
        comp_at (snd (cs ! j)) q = Some b \<and> block_type b = Some ty" using 4(2)[OF rest] by blast
    then show ?thesis by (intro exI[of _ "Suc j"] exI[of _ q]) auto
  qed
qed auto

lemma listed_path_append:
  assumes "listed_path c p" "comp_at c p = Some b" "listed_path b q"
  shows "listed_path c (p @ q)" "comp_at c (p @ q) = comp_at b q"
  using assms by (induction c p rule: listed_path.induct) auto

section \<open>Adding a block\<close>

lemma update_at_keeps:
  "block_type (update_at (add_child n) p c) = block_type c" "settings (update_at (add_child n) p c) = settings c"
  by (induction "add_child n" p c rule: update_at.induct) (auto, (case_tac c; simp)+)

lemma own_parameters_fold: "own_parameters c = foldl (\<lambda>h bc. add_parameter bc h) [] (children c)"
  by (simp add: own_parameters_def)

lemma add_parameter_block: "block_type c \<noteq> None \<Longrightarrow> add_parameter (b, c) h = h"
  by (cases c; cases b) auto

lemma foldl_update_same:
  assumes "i < length cs" "\<And>h. add_parameter x h = add_parameter (cs ! i) h"
  shows "foldl (\<lambda>h bc. add_parameter bc h) a (cs[i := x]) = foldl (\<lambda>h bc. add_parameter bc h) a cs"
  using assms
proof (induction cs arbitrary: i a)
  case (Cons c cs)
  then show ?case by (cases i) auto
qed simp

lemma own_parameters_update:
  assumes "block_type n \<noteq> None"
  shows "own_parameters (update_at (add_child n) p c) = own_parameters c"
proof (cases p)
  case Nil
  then show ?thesis using add_parameter_block[OF assms] by (cases c) (simp_all add: own_parameters_def)
next
  case (Cons i q)
  show ?thesis
  proof (cases c)
    case (Block s e t st cs)
    have "add_parameter (fst (cs ! i), update_at (add_child n) q (snd (cs ! i))) h = add_parameter (cs ! i) h" for h
    proof (cases "block_type (snd (cs ! i)) = None")
      case True
      then have "update_at (add_child n) q (snd (cs ! i)) = snd (cs ! i)"
        by (cases q; cases "snd (cs ! i)") auto
      then show ?thesis by simp
    next
      case False
      then show ?thesis using add_parameter_block[of "snd (cs ! i)" "fst (cs ! i)"] add_parameter_block update_at_keeps(1) by (metis prod.collapse)
    qed
    then show ?thesis using Block Cons by (simp add: own_parameters_def foldl_update_same)
  qed (simp_all add: Cons)
qed

lemma host_view_update:
  assumes "block_type n \<noteq> None"
  shows "host_view (update_at (add_child n) p c) = host_view c"
  by (simp add: host_view_def own_parameters_update[OF assms] update_at_keeps)

lemma views_after_addition:
  assumes "block_type n = Some ''host''" "host_blocks n = []" "listed_path c p"
  shows "\<exists>xs ys. host_views c = xs @ ys \<and> host_views (update_at (add_child n) p c) = xs @ host_view n # ys"
  using assms(3)
proof (induction c p rule: listed_path.induct)
  case (1 c)
  then obtain s e t st cs where c: "c = Block s e t st cs" by (cases c) auto
  have "host_views (add_child n c) = host_views c @ [host_view n]"
    using assms(1,2) by (simp add: c host_views_def host_blocks_children[of "Block _ _ _ _ _"] hosts_in_def)
  then show ?case by (metis append.right_neutral update_at.simps(1))
next
  case (2 c i p)
  then obtain s e t st cs where c: "c = Block s e t st cs" by (cases c) auto
  let ?x = "snd (cs ! i)"
  let ?x' = "update_at (add_child n) p ?x"
  have i: "i < length cs" "fst (cs ! i)" "listed_path ?x p" using 2(2) c by auto
  have bt: "block_type ?x \<noteq> None" using i(3) by (cases p; cases ?x) auto
  have nb: "block_type n \<noteq> None" using assms(1) by simp
  obtain xs ys where IH: "host_views ?x = xs @ ys" "host_views ?x' = xs @ host_view n # ys"
    using 2(1) i(3) c by auto
  let ?v = "\<lambda>bcs. map host_view (concat (map hosts_in bcs))"
  have split: "?v cs = ?v (take i cs) @ map host_view (hosts_in (cs ! i)) @ ?v (drop (Suc i) cs)"
    using i(1) by (subst id_take_nth_drop[OF i(1)]) simp
  have upd: "?v (cs[i := (fst (cs ! i), ?x')]) = ?v (take i cs) @ map host_view (hosts_in (fst (cs ! i), ?x')) @ ?v (drop (Suc i) cs)"
    using i(1) by (subst upd_conv_take_nth_drop) simp_all
  define pre where "pre = (if block_type ?x = Some ''host'' then [host_view ?x] else [])"
  have old: "map host_view (hosts_in (cs ! i)) = pre @ xs @ ys"
    using i(2) bt IH(1) by (simp add: hosts_in_def pre_def host_views_def)
  have new: "map host_view (hosts_in (fst (cs ! i), ?x')) = pre @ xs @ host_view n # ys"
    using i(2) bt IH(2) host_view_update[OF nb, of p ?x] by (simp add: hosts_in_def pre_def host_views_def update_at_keeps(1))
  have "host_views c = (?v (take i cs) @ pre @ xs) @ (ys @ ?v (drop (Suc i) cs))"
    using split old by (simp add: c host_views_def host_blocks_children[of "Block _ _ _ _ _"])
  moreover have "host_views (update_at (add_child n) (i # p) c) = (?v (take i cs) @ pre @ xs) @ host_view n # (ys @ ?v (drop (Suc i) cs))"
    using upd new i(1) by (simp add: c host_views_def host_blocks_children[of "Block _ _ _ _ _"])
  ultimately show ?case by blast
qed

section \<open>Deleting hosts\<close>

definition view_is_host :: "string \<Rightarrow> string list \<times> params \<Rightarrow> bool" where
  "view_is_host h v \<longleftrightarrow> (1 < length (fst v) \<and> fst v ! 1 = h) \<or> map_of (snd v) ''fixed-address'' = Some (PText h)"

lemma is_host_view: "is_host h b = view_is_host h (host_view b)"
  by (simp add: is_host_def view_is_host_def host_view_def)

lemma removal_keeps:
  "block_type (remove_hosts P c) = block_type c \<and> settings (remove_hosts P c) = settings c"
  by (cases c) simp_all

lemma removal_parameters:
  "foldl (\<lambda>h bc. add_parameter bc h) a (remove_from P cs) = foldl (\<lambda>h bc. add_parameter bc h) a cs"
proof (induction cs arbitrary: a)
  case (Cons bc cs)
  obtain b c where bc: "bc = (b, c)" by (cases bc)
  have "add_parameter (b, if b then remove_hosts P c else c) h = add_parameter (b, c) h" for h
    by (cases c) simp_all
  moreover have "add_parameter (b, c) h = h" if "block_type c = Some ''host''" for h
    using that add_parameter_block by simp
  ultimately show ?case using Cons.IH by (cases "b \<and> block_type c = Some ''host'' \<and> P c") (auto simp: bc)
qed simp

lemma host_view_removal: "host_view (remove_hosts P c) = host_view c"
  using removal_keeps[of P c] removal_parameters by (cases c) (simp_all add: host_view_def own_parameters_def)

lemma views_after_removal:
  "subseq (host_views (remove_hosts (is_host h) c)) (filter (\<lambda>v. \<not> view_is_host h v) (host_views c))"
  "subseq (map host_view (concat (map hosts_in (remove_from (is_host h) cs))))
     (filter (\<lambda>v. \<not> view_is_host h v) (map host_view (concat (map hosts_in cs))))"
proof (induction "is_host h" c and "is_host h" cs rule: remove_hosts_remove_from.induct)
  case (1 s e t st cs)
  then show ?case by (simp add: host_views_def host_blocks_children[of "Block _ _ _ _ _"])
next
  case (4 b c cs)
  show ?case
  proof (cases "b \<and> block_type c = Some ''host'' \<and> is_host h c")
    case True
    then have "subseq (map host_view (concat (map hosts_in (remove_from (is_host h) cs))))
        (filter (\<lambda>v. \<not> view_is_host h v) (map host_view (concat (map hosts_in cs))))" using 4 by blast
    then show ?thesis using True by (simp add: list_emb_append2)
  next
    case False
    let ?x = "if b then remove_hosts (is_host h) c else c"
    have rest: "subseq (map host_view (concat (map hosts_in (remove_from (is_host h) cs))))
        (filter (\<lambda>v. \<not> view_is_host h v) (map host_view (concat (map hosts_in cs))))" using 4(3)[OF False] .
    have "subseq (map host_view (hosts_in (b, ?x))) (filter (\<lambda>v. \<not> view_is_host h v) (map host_view (hosts_in (b, c))))"
    proof (cases "b \<and> block_type c \<noteq> None")
      case True
      then have IH: "subseq (host_views (remove_hosts (is_host h) c)) (filter (\<lambda>v. \<not> view_is_host h v) (host_views c))"
        using 4(2)[OF False] by simp
      have b: "b" "block_type c \<noteq> None" using True by simp_all
      show ?thesis
      proof (cases "block_type c = Some ''host''")
        case True
        then have "\<not> view_is_host h (host_view c)" using False b by (simp add: is_host_view)
        then show ?thesis using True b IH removal_keeps[of "is_host h" c] host_view_removal[of "is_host h" c]
          by (simp add: hosts_in_def host_views_def)
      next
        case False
        then show ?thesis using b IH removal_keeps[of "is_host h" c] by (simp add: hosts_in_def host_views_def)
      qed
    next
      case False
      then show ?thesis using removal_keeps[of "is_host h" c] by (auto simp: hosts_in_def)
    qed
    then show ?thesis using rest False by (auto intro: list_emb_append_mono)
  qed
qed (simp_all add: host_views_def host_blocks_def)

section \<open>Adding a host\<close>

lemma find_host_views:
  assumes "map host_view bs = xs @ (st, ps) # ys" "\<forall>v \<in> set xs. 1 < length (fst v) \<and> fst v ! 1 \<noteq> h" "1 < length st" "st ! 1 = h"
  shows "find_host h bs = Inr (Some ps)"
  using assms
proof (induction bs arbitrary: xs)
  case (Cons b bs)
  show ?case
  proof (cases xs)
    case Nil
    then show ?thesis using Cons.prems by (auto simp: host_view_def setting_def)
  next
    case (Cons v vs)
    then have "host_view b = v" "map host_view bs = vs @ (st, ps) # ys" using Cons.prems(1) by simp_all
    then show ?thesis using Cons.IH[of vs] Cons.prems Cons by (auto simp: host_view_def setting_def)
  qed
qed simp

text \<open>What the check of the other hosts has shown when it ends without an error.\<close>

definition other_address :: "string \<Rightarrow> string \<Rightarrow> params \<Rightarrow> bool" where
  "other_address fixed hw ps \<longleftrightarrow>
     (\<forall>s. (''fixed-address'', PText s) \<in> set ps \<longrightarrow> lower s \<noteq> fixed) \<and> (\<forall>s. (''hardware'', PText s) \<in> set ps \<longrightarrow> lower s \<noteq> ''ethernet '' @ hw)"

lemma checked_parameters:
  assumes "foldE (\<lambda>kv _. check_parameter fixed hw kv) ps () = Inr u"
  shows "other_address fixed hw ps"
  using assms
proof (induction ps)
  case (Cons kv ps)
  obtain k v where kv: "kv = (k, v)" by (cases kv)
  have "check_parameter fixed hw (k, v) = Inr ()" "foldE (\<lambda>kv _. check_parameter fixed hw kv) ps () = Inr u"
    using Cons.prems by (auto simp: kv bindE_eq_Inr)
  then show ?case using Cons.IH by (auto simp: kv other_address_def pval_lower_def split: pval.splits if_splits)
qed (simp add: other_address_def)

lemma checked_hosts:
  assumes "foldE (check_host h fixed hw) bs acc = Inr existing"
  shows "\<forall>b \<in> set bs. 1 < length (settings b) \<and> (lower (settings b ! 1) = h \<or> other_address fixed hw (own_parameters b))"
    and "existing \<longleftrightarrow> acc \<or> (\<exists>b \<in> set bs. lower (settings b ! 1) = h)"
proof -
  have "(\<forall>b \<in> set bs. 1 < length (settings b) \<and> (lower (settings b ! 1) = h \<or> other_address fixed hw (own_parameters b))) \<and>
      (existing \<longleftrightarrow> acc \<or> (\<exists>b \<in> set bs. lower (settings b ! 1) = h))"
    using assms
  proof (induction bs arbitrary: acc)
    case (Cons b bs)
    obtain a where a: "check_host h fixed hw b acc = Inr a" "foldE (check_host h fixed hw) bs a = Inr existing"
      using Cons.prems by (auto simp: bindE_eq_Inr)
    have "1 < length (settings b) \<and> (lower (settings b ! 1) = h \<longrightarrow> a) \<and>
        (lower (settings b ! 1) \<noteq> h \<longrightarrow> (a \<longleftrightarrow> acc) \<and> other_address fixed hw (own_parameters b))"
      using a(1) checked_parameters[of fixed hw "own_parameters b"]
      by (auto simp: check_host_def setting_def bindE_eq_Inr split: if_splits)
    then show ?case using Cons.IH[OF a(2)] by (cases "lower (settings b ! 1) = h") simp_all
  qed simp
  then show "\<forall>b \<in> set bs. 1 < length (settings b) \<and> (lower (settings b ! 1) = h \<or> other_address fixed hw (own_parameters b))"
    and "existing \<longleftrightarrow> acc \<or> (\<exists>b \<in> set bs. lower (settings b ! 1) = h)" by blast+
qed

text \<open>The place for the host is a listed block.\<close>

lemma subnet_is_listed:
  assumes "foldE (choose_subnet L ip) bs p = Inr q" "listed_path g p" "\<forall>(r, b) \<in> set bs. listed_path g r"
  shows "listed_path g q"
proof (rule foldE_invariant[where P = "listed_path g", OF assms(1,2)])
  fix pb best r
  assume pb: "pb \<in> set bs" "listed_path g best" and r: "choose_subnet L ip pb best = Inr r"
  have "listed_path g (fst pb)" using assms(3) pb(1) by (cases pb) auto
  moreover have "r = fst pb \<or> r = best"
    using r by (auto simp: choose_subnet_def bindE_eq_Inr split: option.splits if_splits)
  ultimately show "listed_path g r" using pb(2) by blast
qed

lemma group_is_listed:
  assumes "foldl (\<lambda>best pb. choose_group g parent ps pb best) best bs = Some p"
    "\<forall>q. best = Some q \<longrightarrow> listed_path g q" "\<forall>(r, b) \<in> set bs. listed_path g (parent @ r)"
  shows "listed_path g p"
  using assms
proof (induction bs arbitrary: best)
  case (Cons pb bs)
  show ?case
  proof (rule Cons.IH)
    show "foldl (\<lambda>best pb. choose_group g parent ps pb best) (choose_group g parent ps pb best) bs = Some p"
      using Cons.prems(1) by simp
    show "\<forall>q. choose_group g parent ps pb best = Some q \<longrightarrow> listed_path g q"
      using Cons.prems(2,3) by (auto simp: choose_group_def Let_def split: if_splits)
    show "\<forall>(r, b) \<in> set bs. listed_path g (parent @ r)" using Cons.prems(3) by simp
  qed
qed simp

lemma listed_path_block: "listed_path c p \<Longrightarrow> \<exists>b. comp_at c p = Some b \<and> block_type b \<noteq> None"
  by (induction c p rule: listed_path.induct) auto

lemma place_is_listed:
  assumes "place_for L ip ps g = Inr p" "block_type g \<noteq> None"
  shows "listed_path g p"
proof -
  obtain parent where pa: "foldE (choose_subnet L ip) (getBlocks ''subnet'' True g) [] = Inr parent"
    and p: "p = (case foldl (\<lambda>best pb. choose_group g parent ps pb best) None
        (case comp_at g parent of Some b \<Rightarrow> getBlocks ''group'' False b | None \<Rightarrow> []) of Some p \<Rightarrow> p | None \<Rightarrow> parent)"
    using assms(1) by (auto simp: place_for_def bindE_eq_Inr Let_def)
  have lp: "listed_path g parent"
    by (rule subnet_is_listed[OF pa]) (use assms(2) found_blocks_are_listed(1) in fastforce)+
  obtain b where b: "comp_at g parent = Some b" using listed_path_block[OF lp] by blast
  show ?thesis
  proof (cases "foldl (\<lambda>best pb. choose_group g parent ps pb best) None (getBlocks ''group'' False b)")
    case None
    then show ?thesis using p b lp by simp
  next
    case (Some q)
    have "listed_path g q"
      by (rule group_is_listed[OF Some]) (use listed_path_append[OF lp b] found_blocks_are_listed(1) in fastforce)+
    then show ?thesis using p b Some by simp
  qed
qed

lemma subseq_elements: "subseq xs ys \<Longrightarrow> set xs \<subseteq> set ys"
  by (induction rule: list_emb.induct) auto

text \<open>The tree an addition starts from: the old one, or the old one without the host.\<close>

lemma addHost_steps:
  assumes "addHost L hostname hardware ip fixedAddress ps g = Inr g2" "nl_hostname L hostname = Some h" "nl_hardware L hardware = Some hw"
    and "nl_hostname L h = Some h" "lower h = h" "block_type g \<noteq> None"
  obtains g' p where "subseq (host_views g') (host_views g)"
    and "\<forall>v \<in> set (host_views g'). 1 < length (fst v) \<and> fst v ! 1 \<noteq> h"
    and "\<forall>v \<in> set (host_views g'). lower (fst v ! 1) = h \<or> other_address (lower fixedAddress) hw (snd v)"
    and "listed_path g' p"
    and "g2 = update_at (add_child (new_host h (lower fixedAddress) hw
        (not_inherited (getParameters_hash ''global'' g' p) (normalised ps)))) p g'"
proof -
  obtain ip' existing g' p where c: "foldE (check_host h (lower fixedAddress) hw) (host_blocks g) False = Inr existing"
    and g': "(if existing then deleteHost L h g else Inr g) = Inr g'" and p: "place_for L ip' (normalised ps) g' = Inr p"
    and g2: "g2 = update_at (add_child (new_host h (lower fixedAddress) hw
        (not_inherited (getParameters_hash ''global'' g' p) (normalised ps)))) p g'"
    using assms(1-3) by (auto simp: addHost_def bindE_eq_Inr Let_def split: option.splits)
  note ch = checked_hosts[OF c]
  have views: "\<forall>v \<in> set (host_views g). 1 < length (fst v) \<and> (lower (fst v ! 1) = h \<or> other_address (lower fixedAddress) hw (snd v))"
    using ch(1) by (simp add: host_views_def host_view_def)
  show thesis
  proof (cases existing)
    case True
    then have r: "g' = remove_hosts (is_host h) g"
      using g' assms(4) by (auto simp: deleteHost_def split: if_splits)
    have s: "subseq (host_views g') (filter (\<lambda>v. \<not> view_is_host h v) (host_views g))" unfolding r by (rule views_after_removal(1))
    from this have "set (host_views g') \<subseteq> set (filter (\<lambda>v. \<not> view_is_host h v) (host_views g))" by (rule subseq_elements)
    then have v: "\<forall>v \<in> set (host_views g'). v \<in> set (host_views g) \<and> \<not> view_is_host h v" by auto
    have "subseq (host_views g') (host_views g)" using s subseq_filter_left subseq_order.order_trans by blast
    moreover have "\<forall>v \<in> set (host_views g'). 1 < length (fst v) \<and> fst v ! 1 \<noteq> h" using v views by (auto simp: view_is_host_def)
    moreover have "\<forall>v \<in> set (host_views g'). lower (fst v ! 1) = h \<or> other_address (lower fixedAddress) hw (snd v)" using v views by blast
    moreover have "listed_path g' p" using p removal_keeps[of "is_host h" g] assms(6) r by (intro place_is_listed) auto
    ultimately show thesis using g2 by (rule that)
  next
    case False
    then have r: "g' = g" using g' by simp
    have "\<forall>b \<in> set (host_blocks g). lower (settings b ! 1) \<noteq> h" using ch(2) False by blast
    then have "\<forall>v \<in> set (host_views g). fst v ! 1 \<noteq> h" using assms(5) by (auto simp: host_views_def host_view_def)
    then have "\<forall>v \<in> set (host_views g'). 1 < length (fst v) \<and> fst v ! 1 \<noteq> h" using views r by blast
    moreover have "\<forall>v \<in> set (host_views g'). lower (fst v ! 1) = h \<or> other_address (lower fixedAddress) hw (snd v)" using views r by blast
    moreover have "listed_path g' p" using p assms(6) r by (intro place_is_listed) auto
    moreover have "subseq (host_views g') (host_views g)" by (simp add: r)
    ultimately show thesis using that g2 by blast
  qed
qed

section \<open>The parameters of an added host\<close>

lemma parameters_of_list:
  "map_of (foldl (\<lambda>h bc. add_parameter bc h) a (map (\<lambda>(k, v). (True, Parameter l k v)) kvs)) x =
     (case map_of (rev kvs) x of Some v \<Rightarrow> Some (truth_word v) | None \<Rightarrow> map_of a x)"
proof (induction kvs arbitrary: a)
  case (Cons kv kvs)
  obtain k v where "kv = (k, v)" by (cases kv)
  then show ?case using Cons by (auto simp: Parameter_def update_conv' map_add_def split: option.splits)
qed simp

lemma map_of_rev_keys: "distinct (map fst xs) \<Longrightarrow> map_of (rev xs) x = map_of xs x"
  using map_of_inject_set[of "rev xs" xs] by (simp add: rev_map[symmetric])

lemma new_host_parameters:
  assumes "distinct (map fst ps)" "''fixed-address'' \<notin> fst ` set ps" "''hardware'' \<notin> fst ` set ps"
  shows "map_of (own_parameters (new_host h fixed hw ps)) x =
    (if x = ''fixed-address'' then Some (truth_word (PText fixed))
     else if x = ''hardware'' then Some (truth_word (PText (''ethernet '' @ hw)))
     else map_option truth_word (map_of ps x))"
proof -
  let ?kvs = "[(''fixed-address'', PText fixed), (''hardware'', PText (''ethernet '' @ hw))] @ ps"
  have d: "distinct (map fst ?kvs)" using assms by simp
  then have r: "map_of (rev ?kvs) x = map_of ?kvs x" by (rule map_of_rev_keys)
  have "map_of (own_parameters (new_host h fixed hw ps)) x = (case map_of (rev ?kvs) x of Some v \<Rightarrow> Some (truth_word v) | None \<Rightarrow> map_of [] x)"
    unfolding own_parameters_def new_host_def children.simps by (rule parameters_of_list)
  then show ?thesis unfolding r by (auto split: option.splits)
qed

lemma truth_word_idem [simp]: "truth_word (truth_word v) = truth_word v"
  by (cases v) auto

lemma hardware_is_text: "truth_word (PText (''ethernet '' @ hw)) = PText (''ethernet '' @ hw)"
proof -
  have "lower (''ethernet '' @ hw) = ''ethernet '' @ lower hw" by (simp add: lower_def to_lower_def)
  then show ?thesis by simp
qed

lemma added_child:
  assumes "listed_path c p" "comp_at c p = Some b"
  shows "comp_at (update_at (add_child n) p c) (p @ [length (children b)]) = Some n"
  using assms
proof (induction c p rule: listed_path.induct)
  case (1 c)
  then obtain s e t st cs where "c = Block s e t st cs" "b = Block s e t st cs" by (cases c) auto
  then show ?case by simp
next
  case (2 c i p)
  then show ?case by (cases c) auto
qed

definition level :: "(comp \<Rightarrow> (string \<times> 'v) list) \<Rightarrow> string \<Rightarrow> (string \<times> 'v) list \<Rightarrow> comp \<Rightarrow> (string \<times> 'v) list" where
  "level own ty up c = (if block_type c = Some ty then own c else own c @ filter (\<lambda>(k, v). k \<notin> fst ` set (own c)) up)"

lemma inherited_Nil: "inherited own ty up c [] = level own ty up c"
  by (simp add: level_def)

lemma inherited_Cons:
  "inherited own ty up c (i # q) =
     (if i < length (children c) then inherited own ty (level own ty up c) (snd (children c ! i)) q else [])"
  by (subst inherited.simps) (simp only: level_def Let_def list.case)

lemma inherited_child:
  assumes "listed_path c p" "comp_at c p = Some b" "block_type n \<noteq> None" "block_type n \<noteq> Some ty"
  shows "inherited own_parameters ty up (update_at (add_child n) p c) (p @ [length (children b)]) =
    own_parameters n @ filter (\<lambda>(k, v). k \<notin> fst ` set (own_parameters n)) (inherited own_parameters ty up c p)"
  using assms(1,2)
proof (induction c p arbitrary: up rule: listed_path.induct)
  case (1 c)
  then obtain s e t st cs where c: "c = Block s e t st cs" "b = Block s e t st cs" by (cases c) auto
  have "level own_parameters ty up (Block s e t st (cs @ [(True, n)])) = level own_parameters ty up (Block s e t st cs)"
    using own_parameters_update[OF assms(3), of "[]" "Block s e t st cs"] own_parameters_update[OF assms(3), of "[]" "Block s e ty st cs"]
    by (simp add: level_def)
  then show ?case using assms(4) by (simp add: c inherited_Nil inherited_Cons level_def[of _ _ _ n] del: inherited.simps)
next
  case (2 c i p)
  then obtain s e t st cs where c: "c = Block s e t st cs" by (cases c) auto
  have "level own_parameters ty up (update_at (add_child n) (i # p) c) = level own_parameters ty up c"
    by (simp only: level_def own_parameters_update[OF assms(3)] update_at_keeps)
  then have l: "level own_parameters ty up (Block s e t st (cs[i := (fst (cs ! i), update_at (add_child n) p (snd (cs ! i)))])) =
      level own_parameters ty up (Block s e t st cs)" using 2(2) by (simp add: c)
  have i: "i < length cs" "listed_path (snd (cs ! i)) p" "comp_at (snd (cs ! i)) p = Some b" using 2(2,3) c by auto
  show ?case using i 2(1)[of "level own_parameters ty up (Block s e t st cs)"] l
    by (simp add: c inherited_Cons del: inherited.simps)
qed

lemma map_of_filter_keys: "map_of (filter (\<lambda>(k, v). P k) xs) k = (if P k then map_of xs k else None)"
  by (induction xs) auto

lemma effective_parameters:
  fixes h fixed hw :: string and H :: params
  assumes "distinct (map fst ps)" "''fixed-address'' \<notin> fst ` set ps" "''hardware'' \<notin> fst ` set ps" "(k, v) \<in> set (normalised ps)"
  defines "own \<equiv> own_parameters (new_host h fixed hw (not_inherited H (normalised ps)))"
  shows "map_of (own @ filter (\<lambda>(k, v). k \<notin> fst ` set own) H) k = Some v"
proof -
  let ?ps = "not_inherited H (normalised ps)"
  have keys: "map fst (normalised ps) = map fst ps" by (induction ps) (auto simp: normalised_def)
  have dn: "distinct (map fst (normalised ps))" using assms(1) keys by simp
  then have d: "distinct (map fst ?ps)" unfolding not_inherited_def by (simp add: distinct_map_filter)
  have ks: "fst ` set (normalised ps) = fst ` set ps" using arg_cong[OF keys, of set] by simp
  have "set ?ps \<subseteq> set (normalised ps)" by (auto simp: not_inherited_def)
  then have sub: "fst ` set ?ps \<subseteq> fst ` set ps" using ks image_mono by metis
  have "k \<in> fst ` set ps" using assms(4) ks by (metis fst_conv image_eqI)
  then have kk: "k \<noteq> ''fixed-address''" "k \<noteq> ''hardware''" using assms(2,3) by blast+
  have own: "map_of own k = map_option truth_word (map_of ?ps k)"
    unfolding own_def using new_host_parameters[OF d, of h fixed hw k] sub assms(2,3) kk by auto
  have tv: "truth_word v = v" using assms(4) by (auto simp: normalised_def)
  show ?thesis
  proof (cases "map_of H k = Some v")
    case True
    have "map_of ?ps k = None"
    proof (rule ccontr)
      assume "map_of ?ps k \<noteq> None"
      then obtain w where w: "(k, w) \<in> set ?ps" by (auto dest: map_of_SomeD)
      then have "(k, w) \<in> set (normalised ps)" "map_of H k \<noteq> Some w" by (auto simp: not_inherited_def)
      moreover have "w = v" using calculation(1) assms(4) dn by (metis eq_key_imp_eq_value)
      ultimately show False using True by simp
    qed
    then have "map_of own k = None" using own by simp
    then have "k \<notin> fst ` set own" by (simp add: map_of_eq_None_iff)
    then show ?thesis using True \<open>map_of own k = None\<close> by (simp add: map_of_filter_keys map_add_def)
  next
    case False
    then have "(k, v) \<in> set ?ps" using assms(4) by (auto simp: not_inherited_def)
    then have "map_of ?ps k = Some v" using d by (simp add: map_of_is_SomeI)
    then show ?thesis using own tv by (simp add: map_add_def)
  qed
qed

text \<open>
  C18: Adding a host that succeeds leaves one that is found under its name with its addresses, in a place where every parameter asked for has the value asked
  for, be it the host's own or inherited from the groups and subnets around it.
\<close>

theorem added_host_gets_its_parameters:
  assumes "addHost L hostname hardware ip fixedAddress ps g = Inr g2" and "block_type g \<noteq> None"
    and "nl_hostname L hostname = Some h" and "nl_hostname L h = Some h" and "lower h = h" and "nl_hardware L hardware = Some hw"
    and "distinct (map fst ps)" and "''fixed-address'' \<notin> fst ` set ps" and "''hardware'' \<notin> fst ` set ps"
  shows "\<exists>H q b. getHost L hostname g2 = Inr (Some H) \<and>
    map_of H ''fixed-address'' = Some (truth_word (PText (lower fixedAddress))) \<and>
    map_of H ''hardware'' = Some (PText (''ethernet '' @ hw)) \<and>
    comp_at g2 q = Some b \<and> settings b = [''host'', h] \<and> own_parameters b = H \<and>
    (\<forall>(k, v) \<in> set ps. map_of (getParameters_hash ''global'' g2 q) k = Some (truth_word v))"
proof -
  obtain g' p where names: "\<forall>v \<in> set (host_views g'). 1 < length (fst v) \<and> fst v ! 1 \<noteq> h" and p: "listed_path g' p"
    and g2: "g2 = update_at (add_child (new_host h (lower fixedAddress) hw
        (not_inherited (getParameters_hash ''global'' g' p) (normalised ps)))) p g'"
    using addHost_steps[OF assms(1,3,6,4,5,2)] by blast
  define H0 where "H0 = getParameters_hash ''global'' g' p"
  define N where "N = new_host h (lower fixedAddress) hw (not_inherited H0 (normalised ps))"
  have N: "block_type N = Some ''host''" "settings N = [''host'', h]" by (simp_all add: N_def new_host_def)
  have "host_blocks N = concat (map hosts_in (children N))" by (rule host_blocks_children)
  then have Nh: "host_blocks N = []" by (auto simp: N_def new_host_def hosts_in_def Parameter_def)
  have g2: "g2 = update_at (add_child N) p g'" using g2 by (simp add: N_def H0_def)
  obtain xs ys where v: "host_views g' = xs @ ys" "host_views g2 = xs @ host_view N # ys"
    using views_after_addition[OF N(1) Nh p] g2 by blast
  have "find_host h (host_blocks g2) = Inr (Some (own_parameters N))"
    by (rule find_host_views[where xs = xs and ys = ys and st = "[''host'', h]"])
       (use v names N(2) in \<open>auto simp: host_views_def host_view_def\<close>)
  then have found: "getHost L hostname g2 = Inr (Some (own_parameters N))" using assms(3) by (simp add: getHost_def)
  obtain b where b: "comp_at g' p = Some b" using listed_path_block[OF p] by blast
  let ?q = "p @ [length (children b)]"
  have at: "comp_at g2 ?q = Some N" unfolding g2 by (rule added_child[OF p b])
  have inh: "getParameters_hash ''global'' g2 ?q = own_parameters N @ filter (\<lambda>(k, v). k \<notin> fst ` set (own_parameters N)) H0"
    unfolding g2 getParameters_hash_def H0_def by (rule inherited_child[OF p b]) (simp_all add: N(1))
  have par: "map_of (getParameters_hash ''global'' g2 ?q) k = Some (truth_word v)" if "(k, v) \<in> set ps" for k v
  proof -
    have "(k, truth_word v) \<in> set (normalised ps)" using that by (force simp: normalised_def)
    then show ?thesis unfolding inh N_def by (rule effective_parameters[OF assms(7,8,9)])
  qed
  have keys: "map fst (normalised ps) = map fst ps" by (induction ps) (auto simp: normalised_def)
  have d: "distinct (map fst (not_inherited H0 (normalised ps)))"
    using assms(7) keys unfolding not_inherited_def by (simp add: distinct_map_filter)
  have "fst ` set (not_inherited H0 (normalised ps)) \<subseteq> fst ` set (normalised ps)" by (auto simp: not_inherited_def)
  then have sub: "fst ` set (not_inherited H0 (normalised ps)) \<subseteq> fst ` set ps" using arg_cong[OF keys, of set] by simp
  have "map_of (own_parameters N) x = (if x = ''fixed-address'' then Some (truth_word (PText (lower fixedAddress)))
     else if x = ''hardware'' then Some (truth_word (PText (''ethernet '' @ hw)))
     else map_option truth_word (map_of (not_inherited H0 (normalised ps)) x))" for x
    unfolding N_def by (rule new_host_parameters[OF d]) (use sub assms(8,9) in blast)+
  note own = this
  have "map_of (own_parameters N) ''fixed-address'' = Some (truth_word (PText (lower fixedAddress)))" unfolding own by simp
  moreover have "map_of (own_parameters N) ''hardware'' = Some (PText (''ethernet '' @ hw))" unfolding own hardware_is_text by simp
  ultimately show ?thesis using found at N(2) par by blast
qed

section \<open>Addresses stay unique\<close>

definition address_of :: "string \<Rightarrow> string list \<times> params \<Rightarrow> string list" where
  "address_of key v = (case map_of (snd v) key of Some (PText s) \<Rightarrow> [lower s] | _ \<Rightarrow> [])"

definition addresses :: "string \<Rightarrow> comp \<Rightarrow> string list" where
  "addresses key g = concat (map (address_of key) (host_views g))"

definition unique_addresses :: "comp \<Rightarrow> bool" where
  "unique_addresses g \<longleftrightarrow> distinct (addresses ''fixed-address'' g) \<and> distinct (addresses ''hardware'' g) \<and>
     (\<forall>v \<in> set (host_views g). lower (fst v ! 1) = fst v ! 1)"

lemma subseq_keeps_distinct: "subseq xs ys \<Longrightarrow> distinct ys \<Longrightarrow> distinct xs"
proof (induction rule: list_emb.induct)
  case (list_emb_Cons2 x y xs ys)
  then show ?case using subseq_elements by fastforce
qed auto

lemma subseq_concat: "subseq xs ys \<Longrightarrow> subseq (concat (map f xs)) (concat (map f ys))"
  by (induction rule: list_emb.induct) (auto intro: list_emb_append_mono list_emb_append2)

lemma unique_of_fewer:
  assumes "unique_addresses g" "subseq (host_views g') (host_views g)"
  shows "unique_addresses g'"
proof -
  have "subseq (addresses k g') (addresses k g)" for k
    unfolding addresses_def by (rule subseq_concat[OF assms(2)])
  then show ?thesis using assms(1) subseq_elements[OF assms(2)] subseq_keeps_distinct unfolding unique_addresses_def by blast
qed

lemma unique_of_one_more:
  assumes "unique_addresses g'" "host_views g' = xs @ ys" "host_views g2 = xs @ v # ys" "lower (fst v ! 1) = fst v ! 1"
    and "\<forall>k \<in> {''fixed-address'', ''hardware''}. \<forall>w \<in> set (host_views g'). set (address_of k v) \<inter> set (address_of k w) = {}"
  shows "unique_addresses g2"
proof -
  have "distinct (addresses k g2)" if k: "k \<in> {''fixed-address'', ''hardware''}" for k
  proof -
    let ?a = "\<lambda>vs. concat (map (address_of k) vs)"
    have d: "distinct (?a xs @ ?a ys)" using assms(1,2) k by (auto simp: unique_addresses_def addresses_def)
    have "set (address_of k v) \<inter> set (?a xs @ ?a ys) = {}" using assms(2,5) k by fastforce
    moreover have "distinct (address_of k v)" by (simp add: address_of_def split: option.splits pval.splits)
    ultimately have "distinct (?a xs @ address_of k v @ ?a ys)" using d by auto
    then show ?thesis using assms(3) by (simp add: addresses_def)
  qed
  then show ?thesis using assms(1-4) by (auto simp: unique_addresses_def)
qed

text \<open>A run of additions and deletions, each of which succeeds.\<close>

datatype host_change = AddHost string string string string params | DeleteHost string

fun change_hosts :: "net_lib \<Rightarrow> host_change list \<Rightarrow> comp \<Rightarrow> (dhcpd_error, comp) result" where
  "change_hosts L [] g = Inr g"
| "change_hosts L (AddHost n hw ip fixed ps # cs) g = bindE (addHost L n hw ip fixed ps g) (change_hosts L cs)"
| "change_hosts L (DeleteHost n # cs) g = bindE (deleteHost L n g) (change_hosts L cs)"

text \<open>What opsicommon documents of \<open>forceHostname\<close> and \<open>forceHardwareAddress\<close>: the result is in lower case and is left as it is.\<close>

definition lower_case_lib :: "net_lib \<Rightarrow> bool" where
  "lower_case_lib L \<longleftrightarrow> (\<forall>s h. nl_hostname L s = Some h \<longrightarrow> nl_hostname L h = Some h \<and> lower h = h) \<and>
     (\<forall>s hw. nl_hardware L s = Some hw \<longrightarrow> lower hw = hw)"

definition plain_parameters :: "host_change \<Rightarrow> bool" where
  "plain_parameters c \<longleftrightarrow> (case c of AddHost n hw ip fixed ps \<Rightarrow>
     distinct (map fst ps) \<and> ''fixed-address'' \<notin> fst ` set ps \<and> ''hardware'' \<notin> fst ` set ps | DeleteHost n \<Rightarrow> True)"

lemma addition_keeps_unique:
  assumes "addHost L hostname hardware ip fixedAddress ps g = Inr g2" "block_type g \<noteq> None" "lower_case_lib L" "unique_addresses g"
    and "plain_parameters (AddHost hostname hardware ip fixedAddress ps)"
  shows "unique_addresses g2" "block_type g2 \<noteq> None"
proof -
  obtain h where h: "nl_hostname L hostname = Some h" using assms(1) by (auto simp: addHost_def split: option.splits)
  obtain hw where hw: "nl_hardware L hardware = Some hw" using assms(1) h by (auto simp: addHost_def split: option.splits)
  have lib: "nl_hostname L h = Some h" "lower h = h" "lower hw = hw" using assms(3) h hw by (auto simp: lower_case_lib_def)
  obtain g' p where sub: "subseq (host_views g') (host_views g)"
    and names: "\<forall>v \<in> set (host_views g'). 1 < length (fst v) \<and> fst v ! 1 \<noteq> h"
    and other: "\<forall>v \<in> set (host_views g'). lower (fst v ! 1) = h \<or> other_address (lower fixedAddress) hw (snd v)"
    and p: "listed_path g' p"
    and g2: "g2 = update_at (add_child (new_host h (lower fixedAddress) hw
        (not_inherited (getParameters_hash ''global'' g' p) (normalised ps)))) p g'"
    using addHost_steps[OF assms(1) h hw lib(1,2) assms(2)] by blast
  define qs where "qs = not_inherited (getParameters_hash ''global'' g' p) (normalised ps)"
  define N where "N = new_host h (lower fixedAddress) hw qs"
  have N: "block_type N = Some ''host''" "settings N = [''host'', h]" by (simp_all add: N_def new_host_def)
  have "host_blocks N = concat (map hosts_in (children N))" by (rule host_blocks_children)
  then have Nh: "host_blocks N = []" by (auto simp: N_def new_host_def hosts_in_def Parameter_def)
  have g2: "g2 = update_at (add_child N) p g'" using g2 by (simp add: N_def qs_def)
  show "block_type g2 \<noteq> None" using listed_path_block[OF p] p unfolding g2 update_at_keeps by (cases p; cases g') auto
  obtain xs ys where v: "host_views g' = xs @ ys" "host_views g2 = xs @ host_view N # ys"
    using views_after_addition[OF N(1) Nh p] g2 by blast
  have ug: "unique_addresses g'" by (rule unique_of_fewer[OF assms(4) sub])
  have keys: "map fst (normalised ps) = map fst ps" by (induction ps) (auto simp: normalised_def)
  have dps: "distinct (map fst ps)" "''fixed-address'' \<notin> fst ` set ps" "''hardware'' \<notin> fst ` set ps"
    using assms(5) by (simp_all add: plain_parameters_def)
  have d: "distinct (map fst qs)" using dps(1) keys unfolding qs_def not_inherited_def by (simp add: distinct_map_filter)
  have "fst ` set qs \<subseteq> fst ` set (normalised ps)" by (auto simp: qs_def not_inherited_def)
  then have s: "fst ` set qs \<subseteq> fst ` set ps" using arg_cong[OF keys, of set] by simp
  have own: "map_of (own_parameters N) x = (if x = ''fixed-address'' then Some (truth_word (PText (lower fixedAddress)))
     else if x = ''hardware'' then Some (truth_word (PText (''ethernet '' @ hw))) else map_option truth_word (map_of qs x))" for x
    unfolding N_def by (rule new_host_parameters[OF d]) (use s dps(2,3) in blast)+
  have fixed: "set (address_of ''fixed-address'' (host_view N)) \<subseteq> {lower fixedAddress}"
    using own[of "''fixed-address''"] by (simp add: address_of_def host_view_def)
  have own_hw: "map_of (own_parameters N) ''hardware'' = Some (PText (''ethernet '' @ hw))" unfolding own hardware_is_text by simp
  have "lower (''ethernet '' @ hw) = ''ethernet '' @ hw" using lib(3) by (simp add: lower_def to_lower_def)
  then have hardware: "set (address_of ''hardware'' (host_view N)) = {''ethernet '' @ hw}"
    using own_hw by (simp add: address_of_def host_view_def del: append.simps)
  have "set (address_of k (host_view N)) \<inter> set (address_of k w) = {}"
    if k: "k \<in> {''fixed-address'', ''hardware''}" and w: "w \<in> set (host_views g')" for k w
  proof -
    have "lower (fst w ! 1) = fst w ! 1" using ug w unfolding unique_addresses_def by blast
    then have o: "other_address (lower fixedAddress) hw (snd w)" using bspec[OF other w] bspec[OF names w] by metis
    have "a \<in> set (address_of k w) \<Longrightarrow> \<exists>s. a = lower s \<and> (k, PText s) \<in> set (snd w)" for a
      by (auto simp: address_of_def dest!: sym[of "Some _"] map_of_SomeD split: option.splits pval.splits)
    then show ?thesis using o k fixed hardware unfolding other_address_def by blast
  qed
  then have apart: "\<forall>k \<in> {''fixed-address'', ''hardware''}. \<forall>w \<in> set (host_views g').
      set (address_of k (host_view N)) \<inter> set (address_of k w) = {}" by blast
  show "unique_addresses g2"
    by (rule unique_of_one_more[OF ug v _ apart]) (simp add: host_view_def N(2) lib(2))
qed

lemma deletion_keeps_unique:
  assumes "deleteHost L hostname g = Inr g2" "unique_addresses g" "block_type g \<noteq> None"
  shows "unique_addresses g2" "block_type g2 \<noteq> None"
proof -
  obtain h where r: "g2 = remove_hosts (is_host h) g" using assms(1) by (auto simp: deleteHost_def split: option.splits if_splits)
  have "subseq (host_views g2) (filter (\<lambda>v. \<not> view_is_host h v) (host_views g))" unfolding r by (rule views_after_removal(1))
  then have "subseq (host_views g2) (host_views g)" using subseq_filter_left subseq_order.order_trans by blast
  then show "unique_addresses g2" by (rule unique_of_fewer[OF assms(2)])
  show "block_type g2 \<noteq> None" using r assms(3) removal_keeps by simp
qed

text \<open>
  C17: However often hosts are added and deleted, no two hosts of the file share a fixed address or a hardware
  address, in whatever case the addresses are written, if none did before and the names of the hosts in the
  file are in lower case, as the code writes them: a host named PC1 by hand is not replaced by a new pc1 but
  stays beside it, with the address of both (lemma \<open>host_added_twice\<close>). The parameters given with a new host
  have distinct names and are no addresses themselves, and the library gives names and hardware addresses in
  lower case.
\<close>

theorem addresses_stay_unique:
  assumes "lower_case_lib L" and "\<forall>c \<in> set cs. plain_parameters c"
    and "change_hosts L cs g = Inr g2" and "unique_addresses g" and "block_type g \<noteq> None"
  shows "unique_addresses g2"
  using assms(2-)
proof (induction cs arbitrary: g)
  case (Cons c cs)
  show ?case
  proof (cases c)
    case (AddHost n hw ip fixed ps)
    obtain g1 where g1: "addHost L n hw ip fixed ps g = Inr g1" "change_hosts L cs g1 = Inr g2"
      using Cons.prems(2) AddHost by (auto simp: bindE_eq_Inr)
    have "plain_parameters (AddHost n hw ip fixed ps)" using Cons.prems(1) AddHost by simp
    then show ?thesis
      using Cons.IH[OF _ g1(2)] addition_keeps_unique[OF g1(1) Cons.prems(4) assms(1) Cons.prems(3)] Cons.prems(1) by simp
  next
    case (DeleteHost n)
    obtain g1 where g1: "deleteHost L n g = Inr g1" "change_hosts L cs g1 = Inr g2"
      using Cons.prems(2) DeleteHost by (auto simp: bindE_eq_Inr)
    then show ?thesis using Cons.IH[OF _ g1(2)] deletion_keeps_unique[OF g1(1) Cons.prems(3,4)] Cons.prems(1) by simp
  qed
qed simp

section \<open>A file\<close>

definition sample_net :: net_lib where
  "sample_net = \<lparr>nl_hostname = (\<lambda>s. Some (lower s)), nl_hardware = (\<lambda>s. Some (lower s)), nl_address = Some,
     nl_in_network = (\<lambda>ip net. Some (startswith ip ''10.'' = startswith net ''10.''))\<rparr>"

definition sample_conf :: "string list" where
  "sample_conf = [''option routers 10.0.0.1;'', ''# hosts'', ''subnet 10.0.0.0 netmask 255.0.0.0 {'', ''  group {'',
     ''    next-server 10.0.0.2;'', ''    host pc1 {'', ''      hardware ethernet 00:00:00:00:00:01;'', ''      fixed-address 10.0.0.11;'', ''    }'',
     ''  }'', ''}'']"

definition sample_tree :: comp where
  "sample_tree = Block 1 11 ''global'' []
     [(True, Opt 1 ''routers'' [''10.0.0.1'']), (True, Remark 2 '' hosts''),
      (True, Block 3 11 ''subnet'' [''subnet'', ''10.0.0.0'', ''netmask'', ''255.0.0.0'']
        [(True, Block 4 10 ''group'' [''group'']
          [(True, Param 5 ''next-server'' (PText ''10.0.0.2'')),
           (True, Block 6 9 ''host'' [''host'', ''pc1'']
             [(True, Param 7 ''hardware'' (PText ''ethernet 00:00:00:00:00:01'')), (True, Param 8 ''fixed-address'' (PText ''10.0.0.11''))])])])]"

lemma sample_conf_parsed: "DHCPDConfFile_parse sample_conf [] = Inr sample_tree"
  by code_simp

lemma sample_conf_written: "DHCPDConfFile_parse [] (fst (DHCPDConfFile_generate sample_tree)) = Inr sample_tree"
  by code_simp

definition sample_parameters :: params where
  "sample_parameters = [(''next-server'', PText ''10.0.0.2''), (''filename'', PText ''pxe/boot'')]"

definition sample_host :: comp where
  "sample_host = Block (- 1) (- 1) ''host'' [''host'', ''pc2'']
     [(True, Param (- 1) ''fixed-address'' (PText ''10.0.0.12'')), (True, Param (- 1) ''hardware'' (PText ''ethernet 00:00:00:00:00:02'')),
      (True, Param (- 1) ''filename'' (PText ''pxe/boot''))]"

lemma sample_addition:
  "addHost sample_net ''PC2'' ''00:00:00:00:00:02'' ''10.0.0.12'' ''10.0.0.12'' sample_parameters sample_tree =
     Inr (update_at (add_child sample_host) [2, 0] sample_tree)"
  by code_simp

lemma sample_net_lower: "lower_case_lib sample_net"
  by (auto simp: lower_case_lib_def sample_net_def)

theorem added_host_gets_its_parameters_witness:
  "\<exists>H q b. getHost sample_net ''PC2'' (update_at (add_child sample_host) [2, 0] sample_tree) = Inr (Some H) \<and>
    map_of H ''fixed-address'' = Some (truth_word (PText (lower ''10.0.0.12''))) \<and>
    map_of H ''hardware'' = Some (PText (''ethernet '' @ ''00:00:00:00:00:02'')) \<and>
    comp_at (update_at (add_child sample_host) [2, 0] sample_tree) q = Some b \<and> settings b = [''host'', ''pc2''] \<and> own_parameters b = H \<and>
    (\<forall>(k, v) \<in> set sample_parameters.
       map_of (getParameters_hash ''global'' (update_at (add_child sample_host) [2, 0] sample_tree) q) k = Some (truth_word v))"
proof (rule added_host_gets_its_parameters[OF sample_addition])
  show "block_type sample_tree \<noteq> None" by code_simp
  show "nl_hostname sample_net ''PC2'' = Some ''pc2''" "nl_hostname sample_net ''pc2'' = Some ''pc2''" "lower ''pc2'' = ''pc2''"
    "nl_hardware sample_net ''00:00:00:00:00:02'' = Some ''00:00:00:00:00:02''" by code_simp+
qed (simp_all add: sample_parameters_def)

theorem addresses_stay_unique_witness:
  "unique_addresses (remove_hosts (is_host ''pc1'') (update_at (add_child sample_host) [2, 0] sample_tree))"
proof (rule addresses_stay_unique[OF sample_net_lower,
    where cs = "[AddHost ''PC2'' ''00:00:00:00:00:02'' ''10.0.0.12'' ''10.0.0.12'' sample_parameters, DeleteHost ''pc1'']" and g = sample_tree])
  have "deleteHost sample_net ''pc1'' (update_at (add_child sample_host) [2, 0] sample_tree) =
      Inr (remove_hosts (is_host ''pc1'') (update_at (add_child sample_host) [2, 0] sample_tree))" by code_simp
  then show "change_hosts sample_net [AddHost ''PC2'' ''00:00:00:00:00:02'' ''10.0.0.12'' ''10.0.0.12'' sample_parameters, DeleteHost ''pc1''] sample_tree =
      Inr (remove_hosts (is_host ''pc1'') (update_at (add_child sample_host) [2, 0] sample_tree))"
    unfolding change_hosts.simps sample_addition bindE_Inr by simp
  show "unique_addresses sample_tree" by code_simp
  show "block_type sample_tree \<noteq> None" by code_simp
qed (simp add: plain_parameters_def sample_parameters_def)

section \<open>Where reading and writing go wrong\<close>

text \<open>Writing takes what it wrote from the tree: afterwards no host is found any more.\<close>

lemma generate_forgets_hosts: "getHost sample_net ''pc1'' (snd (DHCPDConfFile_generate sample_tree)) = Inr None"
  by code_simp

text \<open>The first kind of token is taken, not the first token: a block on one line becomes a parameter.\<close>

lemma block_on_one_line:
  "DHCPDConfFile_parse [''host a { fixed-address b; }''] [] =
     Inr (Block 1 1 ''global'' [] [(True, Param 1 ''host'' (PText ''a { fixed-address b''))])"
  by code_simp

text \<open>A comment behind a statement takes the statement with it: when it is written, the statement is commented out.\<close>

lemma comment_behind_statement:
  "map_sum id (\<lambda>g. fst (DHCPDConfFile_generate g)) (DHCPDConfFile_parse [''a b; # c''] []) = Inr (''# b; # ca b;'' @ [newline])"
  by code_simp

text \<open>A semicolon in quotes hides the others: what follows is lost.\<close>

lemma quoted_semicolon:
  "DHCPDConfFile_parse [(''option x '' @ [CHR 0x22] @ ''a;b'' @ [CHR 0x22] @ '';''), ''c d;''] [] = Inr (Block 1 2 ''global'' [] [])"
  by code_simp

text \<open>The last group that matches at all is chosen, not the one that matches best.\<close>

lemma worse_group_chosen:
  "place_for sample_net ''10.0.0.9'' sample_parameters
     (Block 1 9 ''global'' []
       [(True, Block 2 5 ''group'' [''group''] [(True, Param 3 ''next-server'' (PText ''10.0.0.2'')), (True, Param 4 ''filename'' (PText ''pxe/boot''))]),
        (True, Block 6 8 ''group'' [''group''] [(True, Param 7 ''next-server'' (PText ''10.0.0.2''))])]) = Inr [1]"
  by code_simp

text \<open>A host whose name is not in lower case is found when it is added again, but not deleted.\<close>

lemma host_added_twice:
  "map_sum id (\<lambda>g. map settings (host_blocks g))
     (addHost sample_net ''pc1'' ''00:00:00:00:00:01'' ''10.0.0.1'' ''10.0.0.1'' []
       (Block 1 1 ''global'' [] [(True, Block 1 1 ''host'' [''host'', ''PC1''] [])])) = Inr [[''host'', ''PC1''], [''host'', ''pc1'']]"
  by code_simp

end
