(* ===== verification/Spec2Isabelle.thy ===== *)
theory Spec2Isabelle
  imports ClientSequence ProductDeps Notifications AccessControl Worker ThreadPool FileProducts ExtendedStore ProductSequences ExtendedRename
    CleanupConsistent LogCorrect Ping SqlStore SqlAudit Tracking Manager DhcpdHosts
begin

text \<open>
  A model of the core of python-opsi, the library of the opsi client management system: a depot server keeps
  hosts, configurations, products and licenses in a backend, sorts the products to install on a client,
  checks who may call which method, and serves clients through sessions and worker threads.

  \<^bold>\<open>The program and its parts.\<close> A request arrives at a worker (OPSI/Service/Worker.py), which finds the
  client's session (OPSI/Service/Session.py), authenticates the user (OPSI/Backend/Manager/AccessControl.py) and calls a
  method of the backend. The backend is a stack that OPSI/Backend/Manager/_Manager.py builds: access control around
  the extended backend around a dispatcher (OPSI/Backend/Manager/Dispatcher.py), which passes calls on to
  the backends its configuration file names. The outermost backend of the configuration data is the extended one
  (OPSI/Backend/Base/Extended.py); it adds defaults, versions, dependencies and sequences to the objects and calls
  the methods of the backend it extends, for instance the file backend (OPSI/Backend/File.py), which keeps
  objects in ini files (OPSI/Util/File/__init__.py), or the SQL backend (OPSI/Backend/SQL.py with the dialects of MySQL.py and
  SQLite.py), which keeps them in the tables of a database. For sequences and dependencies it uses OPSI/SharedAlgorithm.py. Long
  tasks report through the subjects of OPSI/Util/Message.py, and jobs run in the pool of OPSI/Util/Thread.py.

  \<^bold>\<open>Theories and sources.\<close>
  \<^item> Prelude: exceptions as a sum (\<open>result\<close>, \<open>bindE\<close>, \<open>foldE\<close>), dictionaries as association lists in
    insertion order, Python's list indexing, \<open>str(int)\<close>; the collections \<open>res_simps\<close> and \<open>dict_simps\<close>.
    PyStr: string methods; Json: JSON values.
  \<^item> Requirements, OrderBuild, ProductData, ProductOrder, ProductSort, ClientSequence: OPSI/SharedAlgorithm.py,
    the sort of products (the classes \<open>Requirements\<close> and \<open>OrderBuild\<close>, \<open>generateProductSequence...\<close>,
    \<open>generateProductOnClientSequence...\<close>). ProductDeps: \<open>addActionRequest\<close> and \<open>addDependentProductOnClients\<close>.
  \<^item> Subjects, Notifications: OPSI/Util/Message.py, the subjects and their observers, the notification server,
    its client, and the factory that attaches observers.
  \<^item> AccessControl: OPSI/Backend/Manager/AccessControl.py, \<open>authenticate\<close> and the execution of protected methods.
  \<^item> Sessions, Worker: OPSI/Service/Session.py and Worker.py; the handler of sessions and one request's life.
  \<^item> ThreadPool: OPSI/Util/Thread.py, with workers as state machines.
  \<^item> Ini: \<open>IniFile.parse\<close> and \<open>generate\<close>. Objects: objects, filters and options of OPSI/Backend/Base/Backend.py.
  \<^item> FileBackend, FileProducts, ConfigStateFiles: OPSI/Backend/File.py.
  \<^item> ExtendedBackend, ExtendedConfig, ConfigDefaults, ExtendedStore, ExtendedProducts, ProductStates, ProductSequences,
    ExtendedLicenses, ExtendedRename: OPSI/Backend/Base/Extended.py.
  \<^item> DataBackend, Integrity: OPSI/Backend/Base/ConfigData.py, the base class of the backends. Database: a backend that
    behaves as a database of objects. Cleanup, CleanupCorrect, CleanupConsistent: OPSI/Util/Task/CleanupBackend.py.
    LogFiles, LogCorrect: the logs of clients in ConfigData.py and \<open>truncateLogData\<close> of OPSI/Util/Log.py.
  \<^item> SqlText: escaping in the two dialects, conditions (\<open>_filterToSql\<close>, \<open>_uniqueCondition\<close>) and the texts of statements of
    OPSI/Backend/SQL.py. SqlEngine is no code of the repository but a reference for what a database does with such a text: a
    lexer, a parser and the meaning of conditions. SqlConditions: the conditions mean what the filters say.
    SqlBackend, SqlAudit: the methods of the SQL backend for every class of objects. SqlStore: config states in a database.
    Tracking: OPSI/Backend/Base/ModificationTracking.py and the listener of SQL.py that records modifications.
  \<^item> ConfigFiles, AclFile: host keys, dispatch configurations and access control lists of OPSI/Util/File/Opsi/__init__.py. Dispatch:
    OPSI/Backend/Manager/Dispatcher.py. Manager: OPSI/Backend/Manager/_Manager.py and the rules AccessControl.py loads.
  \<^item> Dhcpd, DhcpdHosts: the classes \<open>DHCPDConf...\<close> of OPSI/Util/File/__init__.py, the tree of a dhcpd.conf, its parser and its hosts.
  \<^item> Ping: OPSI/Util/Ping.py, the checksum of packets and the wait for an answer.

  \<^bold>\<open>How the code is represented.\<close> Objects of classes that belong to the repository are records. Methods return the new
  record, or an exception and the record as it was when it was raised. Objects of the configuration data belong
  to the package opsicommon, which is not in the repository: an object is its class and the hash of its attributes,
  and the functions of opsicommon are the fields of the record \<open>lib\<close>, an argument of the definitions that
  use them. The backend that is extended is a record of its methods (\<open>b_get\<close>, \<open>b_insert\<close>, \<open>b_update\<close>, \<open>b_delete\<close>,
  by the prefix of the method's name) over a state of its own. The file backend's state is a map from paths
  to texts. Random numbers, clocks and time stamps are arguments, floating point numbers are exact rationals.

  \<^bold>\<open>Interfaces.\<close> The locale \<open>prior_chooser\<close> (Requirements) states what building an order asks of the table
  of requirements; it is interpreted on \<open>Requirements\<close> itself. The locale \<open>object_store\<close> (ConfigStateFiles) states what the extended
  backend asks of a store of objects: inserting, updating and deleting act on a map from identities
  to objects as they should. Its interpretation \<open>state_files\<close> proves this of the config states in ini files, its interpretation
  \<open>state_tables\<close> (SqlStore) of the config states in the tables of a database, and
  ExtendedStore proves once, inside the locale, what creating, updating and deleting lists of objects through
  the extended backend do to such a map.

  \<^bold>\<open>What the lemmas show.\<close> The product sort is total and respects the requirements exactly when they are acyclic, up
  to the sequence numbers of the objects on each client. Following dependencies ends, overwrites no action and
  requests only what can be met. Sessions stay below their limit and are freed once per request. The pool of threads keeps its
  size and loses no job under every interleaving. Protected methods are refused without a grant and show no
  attribute that is not allowed. Ini files are parsed as they were written. Lists of config states refine a map.
  Product states keep versions and status consistent. On a backend that behaves as a database (the hypothesis \<open>database\<close>, which holds
  of a map of lists), deleting hosts and products deletes exactly what refers to them, and the cleanup leaves no
  dangling reference. A license is given exactly when there is one. A query selects exactly the rows its filter describes in both
  dialects, so database and files agree on config states; the record of modifications has the last one of every object.
  Appending to a log loses only the oldest of its files, and no file grows beyond its limit. Access control files are read as written, every stack
  the factory builds with one is protected by it, and a dispatched call reaches the backends it should. Hosts added to the configuration of
  the DHCP server get the parameters asked for and never share an address. The other lemmas
  state where the code fails: they are the evidence of the findings of the manifest.

  \<^bold>\<open>Bounds.\<close> Recursions of the code that follow data have a number as fuel: \<open>add_requests\<close> gets one more
  than there are available products, and the bound is proved never to be reached; the server tries 20 ports as the code does;
  \<open>collectDependencies\<close> gets the depth of the interpreter's stack and is proved to end when that is more than the number of
  required products. The reference parser of conditions (\<open>meaning\<close>) gets three more than the number of tokens: each level
  of its grammar (and, parentheses, or, atom) takes one unit and every parenthesis consumes a token, so it is never used up on
  a condition the code builds, which SqlConditions proves. Waiting for a session polls until its timeout, with a termination proof.

  \<^bold>\<open>Not modelled.\<close> The operating system, the user interface, network services, package archives and
  scripts of the maintenance tasks: their behaviour lies in programs outside the repository. Of the modelled files: the
  constructors of single objects in Extended.py, package control and audit files of File.py, comments and
  \<open>keepOrdering\<close> of ini files, logging; of the SQL backend the creation of tables and their schema versions, the queries
  over joined tables with which MySQL.py overrides those for products and their properties, \<open>setObsolete\<close>, \<open>getData\<close> and \<open>getRawData\<close>,
  repeating a statement after a deadlock, and columns the database numbers itself; the reference parser knows conditions only, so queries with joins
  and functions are texts without a meaning. Extensions and the configurations of backends are Python files the code executes;
  package control files, repositories, opsi.conf and backups of OPSI/Util/File/Opsi/__init__.py are left out. The order in which Python walks a
  set is the order of the list that stands for it, or an argument (\<open>walk\<close>).
\<close>

section \<open>The sort as the backend uses it\<close>

text \<open>
  C2: In the sequence algorithm 1 generates for product-on-client objects, a product that a setup
  dependency requires to be installed before another has the smaller sequence number on every
  client that has both.
\<close>

theorem client_sequence_respects_requirements:
  assumes "distinct (map p_id ps)" and "\<forall>p \<in> set ps. valid_priority p"
  shows "if acyclic (available_pairs ps (getSetupRequirements deps))
     then \<exists>cs. generateProductOnClientSequence_algorithm1 pocs ps deps = Inr cs \<and>
       (\<forall>c \<in> set cs. \<forall>e \<in> set cs. c_clientId c = c_clientId e \<and>
          (c_productId c, c_productId e) \<in> available_pairs ps (getSetupRequirements deps) \<longrightarrow>
          c_actionSequence c < c_actionSequence e)
     else \<exists>es. generateProductOnClientSequence_algorithm1 pocs ps deps = Inl (OrderingConflict es)"
  by (rule client_sequence_requirements[OF assms])

theorem client_sequence_respects_requirements_witness:
  "if acyclic (available_pairs sample_products (getSetupRequirements
      [\<lparr>d_productId = ''office'', d_productAction = ''setup'', d_requiredProductId = ''runtime'', d_requiredProductVersion = None,
        d_requiredPackageVersion = None, d_requiredAction = None, d_requiredInstallationStatus = Some ''installed'',
        d_requirementType = Some ''before''\<rparr>]))
     then \<exists>cs. generateProductOnClientSequence_algorithm1 [] sample_products
      [\<lparr>d_productId = ''office'', d_productAction = ''setup'', d_requiredProductId = ''runtime'', d_requiredProductVersion = None,
        d_requiredPackageVersion = None, d_requiredAction = None, d_requiredInstallationStatus = Some ''installed'',
        d_requirementType = Some ''before''\<rparr>] = Inr cs \<and>
       (\<forall>c \<in> set cs. \<forall>e \<in> set cs. c_clientId c = c_clientId e \<and>
          (c_productId c, c_productId e) \<in> available_pairs sample_products (getSetupRequirements
      [\<lparr>d_productId = ''office'', d_productAction = ''setup'', d_requiredProductId = ''runtime'', d_requiredProductVersion = None,
        d_requiredPackageVersion = None, d_requiredAction = None, d_requiredInstallationStatus = Some ''installed'',
        d_requirementType = Some ''before''\<rparr>]) \<longrightarrow>
          c_actionSequence c < c_actionSequence e)
     else \<exists>es. generateProductOnClientSequence_algorithm1 [] sample_products
      [\<lparr>d_productId = ''office'', d_productAction = ''setup'', d_requiredProductId = ''runtime'', d_requiredProductVersion = None,
        d_requiredPackageVersion = None, d_requiredAction = None, d_requiredInstallationStatus = Some ''installed'',
        d_requirementType = Some ''before''\<rparr>] = Inl (OrderingConflict es)"
  by (rule client_sequence_respects_requirements) (simp_all add: valid_priority_def BOTTOM_def)

end
